(* ===== verification/Decimals.thy ===== *)
theory Decimals
  imports Prelude Complex_Main
begin

text \<open>
  Python's \<open>decimal.Decimal\<close> as the repository uses it: a finite value is a sign, a
  coefficient and an exponent, kept apart (\<open>Decimal('1.50')\<close> is not \<open>Decimal('1.5')\<close>, and
  the ledger stores the text), plus the infinities and a single NaN. The constructor reads
  text exactly; arithmetic rounds to the 28 digits of the default context, half to even.
  The exponent limits of the context are out of reach of the values used and are not
  modelled. \<open>dec_of_str (dec_str d) = Some d\<close> is the round trip the ledger rests on.
\<close>

datatype dec = DFin bool nat int | DInf bool | DNaN

definition is_finite :: "dec \<Rightarrow> bool" where
  "is_finite d = (case d of DFin _ _ _ \<Rightarrow> True | _ \<Rightarrow> False)"

definition dec_val :: "dec \<Rightarrow> rat" where
  "dec_val d = (case d of DFin s c e \<Rightarrow> (if s then - 1 else 1) * of_nat c * 10 powi e | _ \<Rightarrow> 0)"

definition dec_of_int :: "int \<Rightarrow> dec" where
  "dec_of_int i = DFin (i < 0) (nat \<bar>i\<bar>) 0"

section \<open>Text form\<close>

definition exp_str :: "int \<Rightarrow> string" where
  "exp_str e = (if e < 0 then ''E-'' @ nat_str (nat (- e)) else ''E+'' @ nat_str (nat e))"

definition dec_digits_str :: "string \<Rightarrow> int \<Rightarrow> string" where
  \<comment> \<open>\<open>Decimal.__str__\<close> of the unsigned digits \<open>s\<close> scaled by \<open>10 ** e\<close>\<close>
  "dec_digits_str s e =
     (let left = e + int (length s);
          dot = (if e \<le> 0 \<and> left > - 6 then left else 1);
          body = (if dot \<le> 0 then ''0.'' @ replicate (nat (- dot)) CHR ''0'' @ s
                  else if dot \<ge> int (length s) then s @ replicate (nat dot - length s) CHR ''0''
                  else take (nat dot) s @ ''.'' @ drop (nat dot) s)
      in body @ (if left = dot then [] else exp_str (left - dot)))"

definition dec_str :: "dec \<Rightarrow> string" where
  "dec_str d = (case d of
       DFin s c e \<Rightarrow> (if s then ''-'' else []) @ dec_digits_str (nat_str c) e
     | DInf s \<Rightarrow> (if s then ''-Infinity'' else ''Infinity'')
     | DNaN \<Rightarrow> ''NaN'')"

definition parse_exp :: "string \<Rightarrow> int option" where
  \<comment> \<open>the optional exponent and the end of the text\<close>
  "parse_exp s = (case s of [] \<Rightarrow> Some 0
     | c # r \<Rightarrow> if c \<noteq> CHR ''E'' \<and> c \<noteq> CHR ''e'' then None
        else (case r of [] \<Rightarrow> None
          | c' # r' \<Rightarrow>
             (let neg = (c' = CHR ''-''); ds = (if c' = CHR ''-'' \<or> c' = CHR ''+'' then r' else r)
              in if ds \<noteq> [] \<and> list_all is_digit ds
                 then Some (if neg then - int (digits_val ds) else int (digits_val ds))
                 else None)))"

definition parse_unsigned :: "bool \<Rightarrow> string \<Rightarrow> dec option" where
  "parse_unsigned neg s =
     (let ip = takeWhile is_digit s; r = dropWhile is_digit s;
          fp = (case r of c # r' \<Rightarrow> if c = CHR ''.'' then takeWhile is_digit r' else [] | [] \<Rightarrow> []);
          r2 = (case r of c # r' \<Rightarrow> if c = CHR ''.'' then dropWhile is_digit r' else r | [] \<Rightarrow> [])
      in if ip = [] \<and> fp = []
         then (if lower s = ''inf'' \<or> lower s = ''infinity'' then Some (DInf neg)
               else if lower s = ''nan'' \<or> lower s = ''snan'' then Some DNaN else None)
         else map_option (\<lambda>e. DFin neg (digits_val (ip @ fp)) (e - int (length fp))) (parse_exp r2))"

definition dec_of_str :: "string \<Rightarrow> dec option" where
  "dec_of_str s0 = (let s = List.filter (\<lambda>c. c \<noteq> CHR ''_'') (strip s0) in
     case s of [] \<Rightarrow> None
     | c # r \<Rightarrow> if c = CHR ''-'' then parse_unsigned True r
               else if c = CHR ''+'' then parse_unsigned False r
               else parse_unsigned False s)"

section \<open>Comparison and arithmetic\<close>

definition dec_signed :: "bool \<Rightarrow> nat \<Rightarrow> int" where
  "dec_signed s c = (if s then - int c else int c)"

definition dec_scaled :: "bool \<Rightarrow> nat \<Rightarrow> int \<Rightarrow> int \<Rightarrow> int" where
  \<comment> \<open>the value in units of \<open>10 ** m\<close>, for \<open>m \<le> e\<close>\<close>
  "dec_scaled s c e m = dec_signed s c * 10 ^ nat (e - m)"

definition dec_less :: "dec \<Rightarrow> dec \<Rightarrow> bool option" where
  \<comment> \<open>None: a comparison with NaN raises \<open>InvalidOperation\<close>\<close>
  "dec_less a b = (case (a, b) of
       (DNaN, _) \<Rightarrow> None | (_, DNaN) \<Rightarrow> None
     | (DInf s, DInf t) \<Rightarrow> Some (s \<and> \<not> t)
     | (DInf s, DFin _ _ _) \<Rightarrow> Some s
     | (DFin _ _ _, DInf t) \<Rightarrow> Some (\<not> t)
     | (DFin s c e, DFin t d f) \<Rightarrow>
         (let m = min e f in Some (dec_scaled s c e m < dec_scaled t d f m)))"

definition dec_max :: "dec \<Rightarrow> dec \<Rightarrow> dec option" where
  \<comment> \<open>the builtin \<open>max(a, b)\<close>: the first argument unless the second is larger\<close>
  "dec_max a b = map_option (\<lambda>l. if l then b else a) (dec_less a b)"

definition ndigits :: "nat \<Rightarrow> nat" where
  "ndigits n = length (nat_str n)"

definition half_even_div :: "nat \<Rightarrow> nat \<Rightarrow> nat" where
  "half_even_div n d = (let q = n div d; r = n mod d in
     if 2 * r > d \<or> (2 * r = d \<and> odd q) then q + 1 else q)"

definition half_up_div :: "nat \<Rightarrow> nat \<Rightarrow> nat" where
  "half_up_div n d = (if 2 * (n mod d) \<ge> d then n div d + 1 else n div d)"

definition dec_prec :: nat where "dec_prec = 28"

definition dec_fix :: "dec \<Rightarrow> dec" where
  "dec_fix d = (case d of DFin s c e \<Rightarrow>
      (if ndigits c \<le> dec_prec then d
       else let k = ndigits c - dec_prec; q = half_even_div c (10 ^ k)
            in if ndigits q > dec_prec then DFin s (q div 10) (e + int k + 1) else DFin s q (e + int k))
     | _ \<Rightarrow> d)"

definition dec_mul_int :: "dec \<Rightarrow> int \<Rightarrow> dec" where
  "dec_mul_int d i = (case d of
       DFin s c e \<Rightarrow> dec_fix (DFin (s \<noteq> (i < 0)) (c * nat \<bar>i\<bar>) e)
     | DInf s \<Rightarrow> (if i = 0 then DNaN else DInf (s \<noteq> (i < 0)))
     | DNaN \<Rightarrow> DNaN)"

definition dec_to_int_half_up :: "dec \<Rightarrow> int option" where
  \<comment> \<open>\<open>int(d.to_integral_value(rounding=ROUND_HALF_UP))\<close>; None where \<open>int\<close> raises\<close>
  "dec_to_int_half_up d = (case d of
       DFin s c e \<Rightarrow> Some (dec_signed s (if e \<ge> 0 then c * 10 ^ nat e else half_up_div c (10 ^ nat (- e))))
     | _ \<Rightarrow> None)"

fun zeros_stripped :: "nat \<Rightarrow> nat \<Rightarrow> nat" where
  "zeros_stripped 0 c = 0"
| "zeros_stripped (Suc n) c = (if c mod 10 = 0 then Suc (zeros_stripped n (c div 10)) else 0)"

definition dec_div :: "dec \<Rightarrow> dec \<Rightarrow> dec option" where
  \<comment> \<open>division of finite decimals in the default context; None where it raises\<close>
  "dec_div a b = (case (a, b) of
     (DFin s c e, DFin t d f) \<Rightarrow>
       (if d = 0 then None
        else if c = 0 then Some (DFin (s \<noteq> t) 0 (e - f))
        else
          let shift = int (ndigits d) - int (ndigits c) + int dec_prec + 1;
              n' = (if shift \<ge> 0 then c * 10 ^ nat shift else c);
              d' = (if shift \<ge> 0 then d else d * 10 ^ nat (- shift));
              q = n' div d';
              ex = e - f - shift
          in Some (dec_fix (
               if n' mod d' \<noteq> 0 then DFin (s \<noteq> t) (if q mod 5 = 0 then q + 1 else q) ex
               else let z = zeros_stripped (nat shift) q
                    in DFin (s \<noteq> t) (q div 10 ^ z) (ex + int z))))
   | _ \<Rightarrow> None)"

section \<open>The comparison is the numeric one\<close>

lemma dec_val_scaled:
  assumes "m \<le> e"
  shows "dec_val (DFin s c e) = of_int (dec_scaled s c e m) * 10 powi m"
proof -
  have "(10::rat) powi e = 10 ^ nat (e - m) * 10 powi m"
    using assms by (simp add: power_int_add [symmetric] power_int_def [of _ "e - m", symmetric]
        flip: power_int_of_nat)
  then show ?thesis by (simp add: dec_val_def dec_scaled_def dec_signed_def)
qed

lemma dec_less_correct:
  assumes "is_finite a" "is_finite b"
  shows "dec_less a b = Some (dec_val a < dec_val b)"
proof -
  obtain s c e t d f where ab: "a = DFin s c e" "b = DFin t d f"
    using assms by (auto simp: is_finite_def split: dec.splits)
  have pos: "(0::rat) < 10 powi (min e f)" by simp
  have "(dec_val a < dec_val b) = (dec_scaled s c e (min e f) < dec_scaled t d f (min e f))"
    using dec_val_scaled [of "min e f" e s c] dec_val_scaled [of "min e f" f t d] pos
    by (simp add: ab)
  then show ?thesis by (simp add: ab dec_less_def Let_def)
qed

lemma dec_max_ge:
  assumes "is_finite a" "is_finite b"
  obtains m where "dec_max a b = Some m" "is_finite m" "dec_val m = max (dec_val a) (dec_val b)"
  using assms by (auto simp: dec_max_def dec_less_correct max_def split: if_splits)

section \<open>Round trip of the text form\<close>

definition plain_char :: "char \<Rightarrow> bool" where
  "plain_char c \<longleftrightarrow> \<not> is_space c \<and> c \<noteq> CHR ''_''"

lemma digit_plain: "is_digit c \<Longrightarrow> plain_char c"
  by (auto simp: plain_char_def is_digit_def is_space_def Let_def)

lemma nat_str_plain: "list_all plain_char (nat_str n)"
  using nat_str_digits [of n] digit_plain by (auto simp: list_all_iff)

lemma strip_plain: "list_all plain_char s \<Longrightarrow> strip s = s"
proof -
  have "lstrip t = t" if "list_all plain_char t" for t
    using that by (cases t) (auto simp: lstrip_def plain_char_def)
  then show "list_all plain_char s \<Longrightarrow> strip s = s" by (simp add: strip_def list_all_iff)
qed

lemma filter_plain: "list_all plain_char s \<Longrightarrow> List.filter (\<lambda>c. c \<noteq> CHR ''_'') s = s"
  by (auto simp: list_all_iff plain_char_def filter_id_conv)

lemma exp_str_plain: "list_all plain_char (exp_str e)"
  using nat_str_plain by (simp add: exp_str_def plain_char_def is_space_def)

lemma dec_digits_str_plain:
  assumes "list_all plain_char s"
  shows "list_all plain_char (dec_digits_str s e)"
proof -
  have *: "plain_char CHR ''0''" "plain_char CHR ''.''"
    by (simp_all add: plain_char_def is_space_def)
  have td: "list_all plain_char (take n s)" "list_all plain_char (drop n s)" for n
    using assms by (auto simp: list_all_iff dest: in_set_takeD in_set_dropD)
  show ?thesis
    using assms exp_str_plain * td
    by (auto simp: dec_digits_str_def Let_def list_all_iff)
qed

lemma takeWhile_digits:
  assumes "\<forall>c \<in> set ds. is_digit c" and "t = [] \<or> \<not> is_digit (hd t)"
  shows "takeWhile is_digit (ds @ t) = ds" "dropWhile is_digit (ds @ t) = t"
  using assms by (induction ds) (cases t; auto)+

lemma parse_exp_exp_str: "parse_exp (exp_str k) = Some k"
proof -
  have "list_all is_digit (nat_str n)" for n
    using nat_str_digits [of n] by (simp add: list_all_iff)
  then show ?thesis by (simp add: parse_exp_def exp_str_def Let_def)
qed

lemma digits_val_zeros: "digits_val (replicate n CHR ''0'' @ s) = digits_val s"
proof -
  have "digits_val (CHR ''0'' # t) = digits_val t" for t
    by (simp add: digits_val_def digit_val_def)
  then show ?thesis by (induction n) simp_all
qed

lemma parse_unsigned_int:
  assumes "\<forall>c \<in> set ip. is_digit c" "ip \<noteq> []" "t = [] \<or> hd t = CHR ''E''" "parse_exp t = Some k"
  shows "parse_unsigned neg (ip @ t) = Some (DFin neg (digits_val ip) k)"
proof -
  have nd: "t = [] \<or> \<not> is_digit (hd t)" using assms(3) by (auto simp: is_digit_def)
  note tw = takeWhile_digits [OF assms(1) nd]
  show ?thesis
  proof (cases t)
    case Nil
    then have e: "takeWhile is_digit ip = ip" "dropWhile is_digit ip = []"
      using tw by (metis append_Nil2)+
    show ?thesis using Nil assms(2,4) by (simp add: parse_unsigned_def Let_def e)
  next
    case (Cons c r)
    with tw assms(2-4) show ?thesis by (simp add: parse_unsigned_def Let_def)
  qed
qed

lemma parse_unsigned_frac:
  assumes "\<forall>c \<in> set ip. is_digit c" "ip \<noteq> []" "\<forall>c \<in> set fp. is_digit c"
    and "t = [] \<or> hd t = CHR ''E''" "parse_exp t = Some k"
  shows "parse_unsigned neg (ip @ CHR ''.'' # fp @ t)
       = Some (DFin neg (digits_val (ip @ fp)) (k - int (length fp)))"
proof -
  have nd: "t = [] \<or> \<not> is_digit (hd t)" using assms(4) by (auto simp: is_digit_def)
  have ip: "takeWhile is_digit (ip @ CHR ''.'' # fp @ t) = ip"
    "dropWhile is_digit (ip @ CHR ''.'' # fp @ t) = CHR ''.'' # fp @ t"
    using takeWhile_digits [OF assms(1), of "CHR ''.'' # fp @ t"] by (simp_all add: is_digit_def)
  show ?thesis
    using assms(2,5) takeWhile_digits [OF assms(3) nd]
    by (simp add: parse_unsigned_def Let_def ip)
qed

lemma parse_dec_digits_str:
  assumes "\<forall>c \<in> set s. is_digit c" "s \<noteq> []"
  shows "parse_unsigned neg (dec_digits_str s e) = Some (DFin neg (digits_val s) e)"
proof -
  define left where "left = e + int (length s)"
  define dot where "dot = (if e \<le> 0 \<and> left > - 6 then left else 1)"
  define t where "t = (if left = dot then [] else exp_str (left - dot))"
  have t: "t = [] \<or> hd t = CHR ''E''" "parse_exp t = Some (left - dot)"
    by (simp_all add: t_def parse_exp_exp_str) (simp_all add: exp_str_def parse_exp_def)
  have zeros: "\<forall>c \<in> set (replicate n CHR ''0''). is_digit c" for n
    by (simp add: is_digit_def)
  consider (a) "dot \<le> 0" | (b) "dot > 0" "dot \<ge> int (length s)" | (c) "dot > 0" "dot < int (length s)"
    by linarith
  then show ?thesis
  proof cases
    case a
    then have eq: "dec_digits_str s e = ''0'' @ CHR ''.'' # (replicate (nat (- dot)) CHR ''0'' @ s) @ t"
      and ld: "left = dot"
      by (auto simp: dec_digits_str_def Let_def left_def dot_def t_def split: if_splits)
    have "digits_val (''0'' @ replicate (nat (- dot)) CHR ''0'' @ s) = digits_val s"
      using digits_val_zeros [of "Suc (nat (- dot))" s] by simp
    moreover have "parse_unsigned neg (dec_digits_str s e)
        = Some (DFin neg (digits_val (''0'' @ replicate (nat (- dot)) CHR ''0'' @ s))
            (left - dot - int (length (replicate (nat (- dot)) CHR ''0'' @ s))))"
      unfolding eq
      by (rule parse_unsigned_frac [OF _ _ _ t]) (use assms zeros in \<open>auto simp: is_digit_def\<close>)
    ultimately show ?thesis using a ld by (simp add: left_def)
  next
    case b
    then have ds: "nat dot - length s = 0" and k: "left - dot = e"
      using assms(2) by (cases s; auto simp: left_def dot_def split: if_splits)+
    have "dec_digits_str s e = s @ t"
      using b ds by (auto simp: dec_digits_str_def Let_def left_def dot_def t_def split: if_splits)
    then show ?thesis using parse_unsigned_int [OF assms t] k by simp
  next
    case c
    then have eq: "dec_digits_str s e = take (nat dot) s @ CHR ''.'' # drop (nat dot) s @ t"
      by (auto simp: dec_digits_str_def Let_def left_def dot_def t_def split: if_splits)
    have "\<forall>c \<in> set (take (nat dot) s). is_digit c" "\<forall>c \<in> set (drop (nat dot) s). is_digit c"
      "take (nat dot) s \<noteq> []"
      using assms c by (auto dest: in_set_takeD in_set_dropD)
    from parse_unsigned_frac [OF this(1,3,2) t] show ?thesis
      unfolding eq using c by (simp add: left_def)
  qed
qed

lemma dec_digits_str_hd:
  assumes "\<forall>c \<in> set s. is_digit c" "s \<noteq> []"
  shows "dec_digits_str s e \<noteq> [] \<and> is_digit (hd (dec_digits_str s e))"
  using assms by (cases s) (auto simp: dec_digits_str_def Let_def is_digit_def take_Cons' hd_append)

lemma dec_str_plain: "list_all plain_char (dec_str d)"
  using dec_digits_str_plain nat_str_plain
  by (auto simp: dec_str_def plain_char_def is_space_def split: dec.splits)

lemma lower_words: "lower ''Infinity'' = ''infinity''" "lower ''NaN'' = ''nan''"
  by code_simp+

lemma dec_roundtrip: "dec_of_str (dec_str d) = Some d"
proof (cases d)
  case (DFin s c e)
  have D: "\<forall>x \<in> set (nat_str c). is_digit x" "nat_str c \<noteq> []" using nat_str_digits by auto
  obtain x xs where x: "dec_digits_str (nat_str c) e = x # xs" "is_digit x"
    using dec_digits_str_hd [OF D, of e] by (cases "dec_digits_str (nat_str c) e") auto
  then have "x \<noteq> CHR ''-''" "x \<noteq> CHR ''+''" by (auto simp: is_digit_def)
  moreover have "parse_unsigned s (x # xs) = Some (DFin s c e)"
    using parse_dec_digits_str [OF D, of s e] x by simp
  ultimately show ?thesis
    using x dec_str_plain [of d]
    by (simp add: dec_of_str_def strip_plain filter_plain Let_def)
       (auto simp: dec_str_def DFin)
next
  case (DInf s)
  then show ?thesis using dec_str_plain [of d]
    by (simp add: dec_of_str_def strip_plain filter_plain Let_def)
       (auto simp: dec_str_def parse_unsigned_def is_digit_def lower_words Let_def)
next
  case DNaN
  then show ?thesis using dec_str_plain [of d]
    by (simp add: dec_of_str_def strip_plain filter_plain Let_def)
       (auto simp: dec_str_def parse_unsigned_def is_digit_def lower_words Let_def)
qed

lemma dec_str_inject: "dec_str a = dec_str b \<longleftrightarrow> a = b"
  by (metis dec_roundtrip option.inject)

section \<open>Quotients stay between zero and one\<close>

lemma ndigits_bounds: "n < 10 ^ ndigits n" "0 < n \<Longrightarrow> 10 ^ (ndigits n - 1) \<le> n"
proof -
  have "n < 10 ^ ndigits n \<and> (0 < n \<longrightarrow> 10 ^ (ndigits n - 1) \<le> n)"
  proof (induction n rule: nat_str.induct)
    case (1 n)
    show ?case
    proof (cases "n < 10")
      case True
      then show ?thesis by (simp add: ndigits_def nat_str.simps)
    next
      case False
      let ?m = "n div 10"
      have d: "ndigits n = Suc (ndigits ?m)"
        using False by (simp add: ndigits_def nat_str.simps [of n])
      have m: "?m < 10 ^ ndigits ?m" "10 ^ (ndigits ?m - 1) \<le> ?m"
        using 1 False by auto
      have "0 < ndigits ?m" by (simp add: ndigits_def)
      then have "10 ^ ndigits ?m = 10 * (10::nat) ^ (ndigits ?m - 1)"
        by (cases "ndigits ?m") auto
      then show ?thesis
        using d m by (simp add: div_less_iff_less_mult less_eq_div_iff_mult_less_eq mult.commute)
    qed
  qed
  then show "n < 10 ^ ndigits n" "0 < n \<Longrightarrow> 10 ^ (ndigits n - 1) \<le> n" by auto
qed

lemma ndigits_pos [simp]: "0 < ndigits n"
  by (simp add: ndigits_def)

lemma ndigits_le: "n \<le> 10 ^ k \<Longrightarrow> ndigits n \<le> Suc k"
proof (rule ccontr)
  assume n: "n \<le> 10 ^ k" and "\<not> ndigits n \<le> Suc k"
  then have "Suc k \<le> ndigits n - 1" by simp
  then have "(10::nat) ^ Suc k \<le> 10 ^ (ndigits n - 1)" by (rule power_increasing) simp
  moreover have "0 < n"
  proof (rule ccontr)
    assume "\<not> 0 < n"
    then have "ndigits n = 1" by (simp add: ndigits_def nat_str.simps)
    then show False using \<open>\<not> ndigits n \<le> Suc k\<close> by simp
  qed
  ultimately have "(10::nat) ^ Suc k \<le> 10 ^ k" using ndigits_bounds(2) [of n] n by linarith
  then show False by simp
qed

lemma half_even_div_le: "n \<le> m * d \<Longrightarrow> 0 < d \<Longrightarrow> half_even_div n d \<le> m"
proof -
  assume n: "n \<le> m * d" and d: "0 < d"
  show ?thesis
  proof (cases "n div d = m")
    case True
    then have "n mod d = 0" using n by (metis add.commute add_le_same_cancel1 div_mult_mod_eq le_zero_eq)
    then show ?thesis using True d by (simp add: half_even_div_def)
  next
    case False
    have "n div d \<le> m" using n d by (metis div_le_mono div_mult_self_is_m mult.commute)
    then show ?thesis using False by (simp add: half_even_div_def Let_def)
  qed
qed

definition coef_of :: "dec \<Rightarrow> nat" where
  "coef_of d = (case d of DFin s c e \<Rightarrow> c | _ \<Rightarrow> 0)"

lemma dec_fix_unit:
  assumes "c \<le> 10 ^ m"
  shows "0 \<le> dec_val (dec_fix (DFin False c (- int m))) \<and> dec_val (dec_fix (DFin False c (- int m))) \<le> 1"
proof -
  have val: "dec_val (DFin False q (int k - int m)) \<le> 1" if "q \<le> 10 ^ (m - k)" "k \<le> m" for q k
  proof -
    have "(10::rat) powi (int k - int m) = inverse (10 ^ (m - k))"
      using that(2) by (auto simp: power_int_def nat_diff_distrib' power_one_over inverse_eq_divide)
    moreover have "(of_nat q :: rat) \<le> 10 ^ (m - k)"
      using that(1) by (metis of_nat_le_iff of_nat_numeral of_nat_power)
    ultimately show ?thesis unfolding dec_val_def by (simp only: dec.case) (simp add: field_simps)
  qed
  have nonneg: "0 \<le> dec_val (DFin False q e)" for q e by (simp add: dec_val_def)
  show ?thesis
  proof (cases "ndigits c \<le> dec_prec")
    case True
    then show ?thesis using val [of c 0] assms nonneg by (simp add: dec_fix_def)
  next
    case False
    define k where "k = ndigits c - dec_prec"
    have k: "k \<le> m" "1 \<le> k" using ndigits_le [OF assms] False by (simp_all add: k_def dec_prec_def)
    let ?q = "half_even_div c (10 ^ k)"
    have "c \<le> 10 ^ (m - k) * 10 ^ k" using assms k by (simp flip: power_add)
    then have q: "?q \<le> 10 ^ (m - k)" by (rule half_even_div_le) simp
    show ?thesis
    proof (cases "ndigits ?q > dec_prec")
      case True
      then have mk: "0 < m - k" using ndigits_le [OF q] by (simp add: dec_prec_def)
      then have "?q div 10 \<le> 10 ^ (m - Suc k)"
        using q by (cases "m - k") (auto simp: Suc_diff_Suc diff_Suc split: nat.splits)
      then have "dec_val (DFin False (?q div 10) (int (Suc k) - int m)) \<le> 1"
        using mk by (intro val) auto
      then show ?thesis using True False nonneg by (simp add: dec_fix_def Let_def k_def algebra_simps)
    next
      case False': False
      then show ?thesis using val [OF q k(1)] False nonneg by (simp add: dec_fix_def Let_def k_def algebra_simps)
    qed
  qed
qed

lemma zeros_stripped_le: "zeros_stripped n c \<le> n"
  by (induction n arbitrary: c) auto

lemma ndigits_mono: "m \<le> n \<Longrightarrow> ndigits m \<le> ndigits n"
proof (rule ccontr)
  assume mn: "m \<le> n" and "\<not> ndigits m \<le> ndigits n"
  then have lt: "ndigits n \<le> ndigits m - 1" by simp
  have "0 < m"
  proof (rule ccontr)
    assume "\<not> 0 < m"
    then have "ndigits m = 1" by (simp add: ndigits_def nat_str.simps)
    then show False using lt ndigits_pos [of n] by simp
  qed
  have "n < 10 ^ ndigits n" by (rule ndigits_bounds)
  also have "\<dots> \<le> 10 ^ (ndigits m - 1)" using lt by (rule power_increasing) simp
  also have "\<dots> \<le> m" using ndigits_bounds(2) \<open>0 < m\<close> by blast
  finally show False using mn by simp
qed

lemma dec_div_unit:
  assumes "c \<le> d" "0 < d"
  obtains r where "dec_div (DFin False c 0) (DFin False d 0) = Some r" "0 \<le> dec_val r" "dec_val r \<le> 1"
proof (cases "c = 0")
  case True
  with assms that show thesis by (simp add: dec_div_def dec_val_def)
next
  case False
  define m where "m = ndigits d - ndigits c + 29"
  have sh: "int (ndigits d) - int (ndigits c) + int dec_prec + 1 = int m"
    using ndigits_mono [OF assms(1)] by (simp add: m_def dec_prec_def)
  define q where "q = c * 10 ^ m div d"
  have le: "q \<le> 10 ^ m"
    unfolding q_def using assms by (metis div_le_mono div_mult_self_is_m mult.commute mult_le_mono1)
  show thesis
  proof (cases "c * 10 ^ m mod d = 0")
    case True
    define z where "z = zeros_stripped m q"
    have z: "z \<le> m" by (simp add: z_def zeros_stripped_le)
    have "q div 10 ^ z \<le> 10 ^ (m - z)"
      using le z by (metis div_le_mono power_diff zero_neq_numeral)
    from dec_fix_unit [OF this] have
      "0 \<le> dec_val (dec_fix (DFin False (q div 10 ^ z) (- int m + int z)))"
      "dec_val (dec_fix (DFin False (q div 10 ^ z) (- int m + int z))) \<le> 1"
      using z by (simp_all add: of_nat_diff)
    with that show thesis
      using False assms(2) True by (simp add: dec_div_def sh Let_def q_def z_def)
  next
    case r: False
    have "q \<noteq> 10 ^ m"
    proof
      assume "q = 10 ^ m"
      then have "10 ^ m * d \<le> c * 10 ^ m" unfolding q_def by (metis div_times_less_eq_dividend)
      with assms(1) have "c * 10 ^ m = 10 ^ m * d" by (metis le_antisym mult.commute mult_le_mono1)
      with r show False by simp
    qed
    then have "(if q mod 5 = 0 then q + 1 else q) \<le> 10 ^ m" using le by simp
    from dec_fix_unit [OF this] have
      "0 \<le> dec_val (dec_fix (DFin False (if q mod 5 = 0 then q + 1 else q) (- int m)))"
      "dec_val (dec_fix (DFin False (if q mod 5 = 0 then q + 1 else q) (- int m))) \<le> 1" by auto
    moreover have "dec_div (DFin False c 0) (DFin False d 0)
        = Some (dec_fix (DFin False (if q mod 5 = 0 then q + 1 else q) (- int m)))"
      using False assms(2) r by (simp add: dec_div_def sh Let_def q_def)
    ultimately show thesis by (rule that [rotated])
  qed
qed

end
