(* ===== verification/CanonicalJson.thy ===== *)
theory CanonicalJson
  imports Decimals
begin

text \<open>
  Deterministic JSON (\<open>core/idempotency.py\<close>) and the part of Python's \<open>json\<close> it uses.
  \<open>pyval\<close> is the in-memory value handed to \<open>canonical_json\<close>, \<open>json\<close> the value that
  \<open>json.dumps\<close> prints and \<open>json.loads\<close> returns. Dictionary keys are strings in both, so the
  check on non-string keys has no counterpart. \<open>json.dumps\<close> runs with \<open>ensure_ascii\<close>, sorted
  keys and no whitespace. \<open>loads\<close> is the reader of the standard library on the same
  strings, with a fuel that the length of the text bounds (\<open>json_roundtrip\<close> shows it
  suffices); a float keeps its literal text, and an escape for a code point above 255 is
  outside the modelled strings and reads as a failure.
\<close>

datatype pyval =
    PNone
  | PBool bool
  | PInt int
  | PFloat string
  | PDec dec
  | PStr string
  | PList "pyval list"
  | PDict "(string \<times> pyval) list"

datatype json =
    JNull
  | JBool bool
  | JInt int
  | JFloat string
  | JStr string
  | JArr "json list"
  | JObj "(string \<times> json) list"

section \<open>Normalisation\<close>

fun normalize :: "pyval \<Rightarrow> string \<Rightarrow> json result"
  and normalize_list :: "pyval list \<Rightarrow> string \<Rightarrow> nat \<Rightarrow> json list result"
  and normalize_items :: "(string \<times> pyval) list \<Rightarrow> string \<Rightarrow> (string \<times> json) list result" where
  "normalize PNone path = Ok JNull"
| "normalize (PStr s) path = Ok (JStr s)"
| "normalize (PBool b) path = Ok (JBool b)"
| "normalize (PInt i) path = Ok (JInt i)"
| "normalize (PFloat t) path =
     Err (TypeError (path @ '': float leaves are forbidden (money is int, ratios are Decimal)''))"
| "normalize (PDec d) path =
     (if is_finite d then Ok (JStr (dec_str d))
      else Err (TypeError (path @ '': non-finite Decimal is forbidden'')))"
| "normalize (PList vs) path = rbind (normalize_list vs path 0) (\<lambda>js. Ok (JArr js))"
| "normalize (PDict kvs) path = rbind (normalize_items kvs path) (\<lambda>js. Ok (JObj js))"
| "normalize_list [] path i = Ok []"
| "normalize_list (v # vs) path i =
     rbind (normalize v (path @ ''['' @ nat_str i @ '']'')) (\<lambda>j.
     rbind (normalize_list vs path (Suc i)) (\<lambda>js. Ok (j # js)))"
| "normalize_items [] path = Ok []"
| "normalize_items ((k, v) # kvs) path =
     rbind (normalize v (path @ ''.'' @ k)) (\<lambda>j.
     rbind (normalize_items kvs path) (\<lambda>js. Ok ((k, j) # js)))"

section \<open>Printing\<close>

definition hex_digit :: "nat \<Rightarrow> char" where
  "hex_digit n = (if n < 10 then char_of (48 + n) else char_of (87 + n))"

definition escape_char :: "char \<Rightarrow> string" where
  "escape_char c =
     (if c = CHR 0x22 then [CHR 0x5C, CHR 0x22]
      else if c = CHR 0x5C then [CHR 0x5C, CHR 0x5C]
      else if c = CHR 0x0A then [CHR 0x5C, CHR ''n'']
      else if c = CHR 0x0D then [CHR 0x5C, CHR ''r'']
      else if c = CHR 0x09 then [CHR 0x5C, CHR ''t'']
      else if c = CHR 0x0C then [CHR 0x5C, CHR ''f'']
      else if c = CHR 0x08 then [CHR 0x5C, CHR ''b'']
      else (let n = (of_char c :: nat) in
        if 32 \<le> n \<and> n \<le> 126 then [c]
        else [CHR 0x5C, CHR ''u'', CHR ''0'', CHR ''0'', hex_digit (n div 16), hex_digit (n mod 16)]))"

definition print_str :: "string \<Rightarrow> string" where
  "print_str s = CHR 0x22 # concat (map escape_char s) @ [CHR 0x22]"

fun json_print :: "json \<Rightarrow> string"
  and json_print_list :: "json list \<Rightarrow> string"
  and json_print_items :: "(string \<times> json) list \<Rightarrow> string" where
  "json_print JNull = ''null''"
| "json_print (JBool b) = (if b then ''true'' else ''false'')"
| "json_print (JInt i) = int_str i"
| "json_print (JFloat t) = t"
| "json_print (JStr s) = print_str s"
| "json_print (JArr vs) = CHR ''['' # json_print_list vs"
| "json_print (JObj kvs) = CHR ''{'' # json_print_items kvs"
| "json_print_list [] = '']''"
| "json_print_list (v # vs) =
     json_print v @ (case vs of [] \<Rightarrow> '']'' | _ \<Rightarrow> CHR '','' # json_print_list vs)"
| "json_print_items [] = ''}''"
| "json_print_items ((k, v) # kvs) =
     print_str k @ CHR '':'' # json_print v
       @ (case kvs of [] \<Rightarrow> ''}'' | _ \<Rightarrow> CHR '','' # json_print_items kvs)"

fun json_sorted :: "json \<Rightarrow> json"
  and json_sorted_list :: "json list \<Rightarrow> json list"
  and json_sorted_items :: "(string \<times> json) list \<Rightarrow> (string \<times> json) list" where
  "json_sorted (JArr vs) = JArr (json_sorted_list vs)"
| "json_sorted (JObj kvs) = JObj (sort_key fst (json_sorted_items kvs))"
| "json_sorted j = j"
| "json_sorted_list [] = []"
| "json_sorted_list (v # vs) = json_sorted v # json_sorted_list vs"
| "json_sorted_items [] = []"
| "json_sorted_items ((k, v) # kvs) = (k, json_sorted v) # json_sorted_items kvs"

definition dumps_sorted :: "json \<Rightarrow> string" where
  "dumps_sorted j = json_print (json_sorted j)"

definition canonical_json :: "(string \<times> pyval) list \<Rightarrow> string result" where
  "canonical_json payload = rbind (normalize (PDict payload) ''$'') (\<lambda>j. Ok (dumps_sorted j))"

section \<open>Reading\<close>

definition json_ws :: "char \<Rightarrow> bool" where
  "json_ws c \<longleftrightarrow> c = CHR '' '' \<or> c = CHR 0x09 \<or> c = CHR 0x0A \<or> c = CHR 0x0D"

definition skip_ws :: "string \<Rightarrow> string" where
  "skip_ws s = dropWhile json_ws s"

definition hex_val :: "char \<Rightarrow> nat option" where
  "hex_val c = (let n = (of_char c :: nat) in
     if 48 \<le> n \<and> n \<le> 57 then Some (n - 48)
     else if 97 \<le> n \<and> n \<le> 102 then Some (n - 87)
     else if 65 \<le> n \<and> n \<le> 70 then Some (n - 55)
     else None)"

definition simple_escape :: "char \<Rightarrow> char option" where
  "simple_escape c =
     (if c = CHR 0x22 \<or> c = CHR 0x5C \<or> c = CHR ''/'' then Some c
      else if c = CHR ''b'' then Some (CHR 0x08) else if c = CHR ''f'' then Some (CHR 0x0C)
      else if c = CHR ''n'' then Some (CHR 0x0A) else if c = CHR ''r'' then Some (CHR 0x0D)
      else if c = CHR ''t'' then Some (CHR 0x09) else None)"

definition hex_char :: "char \<Rightarrow> char \<Rightarrow> char \<Rightarrow> char \<Rightarrow> char option" where
  "hex_char a b c d = (case (hex_val a, hex_val b, hex_val c, hex_val d) of
     (Some w, Some x, Some y, Some z) \<Rightarrow>
        if w = 0 \<and> x = 0 then Some (char_of (16 * y + z)) else None
   | _ \<Rightarrow> None)"

definition cons_str :: "char option \<Rightarrow> (string \<times> string) option \<Rightarrow> (string \<times> string) option" where
  "cons_str c r = (case (c, r) of (Some x, Some (s, t)) \<Rightarrow> Some (x # s, t) | _ \<Rightarrow> None)"

fun parse_str :: "string \<Rightarrow> (string \<times> string) option" where
  \<comment> \<open>the text after the opening quote, up to the closing one\<close>
  "parse_str [] = None"
| "parse_str (c # r) =
     (if c = CHR 0x22 then Some ([], r)
      else if c = CHR 0x5C then
        (case r of [] \<Rightarrow> None
         | e # r1 \<Rightarrow>
            if e = CHR ''u'' then
              (case r1 of h1 # h2 # h3 # h4 # r2 \<Rightarrow> cons_str (hex_char h1 h2 h3 h4) (parse_str r2)
               | _ \<Rightarrow> None)
            else cons_str (simple_escape e) (parse_str r1))
      else if (of_char c :: nat) < 32 then None
      else cons_str (Some c) (parse_str r))"

definition int_digits :: "string \<Rightarrow> string" where
  "int_digits s = (case s of c # _ \<Rightarrow> if c = CHR ''0'' then ''0'' else takeWhile is_digit s | [] \<Rightarrow> [])"

definition frac_part :: "string \<Rightarrow> string" where
  "frac_part s = (case s of c # r \<Rightarrow> if c = CHR ''.'' \<and> takeWhile is_digit r \<noteq> []
                                  then CHR ''.'' # takeWhile is_digit r else [] | [] \<Rightarrow> [])"

definition exp_part :: "string \<Rightarrow> string" where
  "exp_part s = (case s of c # r \<Rightarrow>
       if c = CHR ''e'' \<or> c = CHR ''E'' then
         (let sg = (case r of d # _ \<Rightarrow> if d = CHR ''-'' \<or> d = CHR ''+'' then [d] else [] | [] \<Rightarrow> []);
              es = takeWhile is_digit (drop (length sg) r)
          in if es = [] then [] else c # sg @ es)
       else []
     | [] \<Rightarrow> [])"

definition parse_unsigned_number :: "bool \<Rightarrow> string \<Rightarrow> (json \<times> string) option" where
  "parse_unsigned_number neg s =
     (let ds = int_digits s; r = drop (length ds) s;
          fr = frac_part r; r2 = drop (length fr) r; ex = exp_part r2
      in if ds = [] then None
         else if fr = [] \<and> ex = []
         then Some (JInt (if neg then - int (digits_val ds) else int (digits_val ds)), r)
         else Some (JFloat ((if neg then ''-'' else []) @ ds @ fr @ ex), drop (length ex) r2))"

definition parse_number :: "string \<Rightarrow> (json \<times> string) option" where
  \<comment> \<open>\<open>(-?(?:0|[1-9]\d*))(\.\d+)?([eE][-+]?\d+)?\<close>\<close>
  "parse_number s =
     (if startswith s ''-'' then parse_unsigned_number True (drop 1 s) else parse_unsigned_number False s)"

definition keyword :: "string \<Rightarrow> json \<Rightarrow> string \<Rightarrow> (json \<times> string) option" where
  "keyword w j s = (if startswith s w then Some (j, drop (length w) s) else None)"

definition parse_scalar :: "string \<Rightarrow> (json \<times> string) option" where
  "parse_scalar s = (case s of [] \<Rightarrow> None
    | c # r \<Rightarrow>
       if c = CHR 0x22 then map_option (\<lambda>(t, r'). (JStr t, r')) (parse_str r)
       else if c = CHR ''n'' then keyword ''null'' JNull s
       else if c = CHR ''t'' then keyword ''true'' (JBool True) s
       else if c = CHR ''f'' then keyword ''false'' (JBool False) s
       else if c = CHR ''N'' then keyword ''NaN'' (JFloat ''NaN'') s
       else if c = CHR ''I'' then keyword ''Infinity'' (JFloat ''Infinity'') s
       else if startswith s ''-I'' then keyword ''-Infinity'' (JFloat ''-Infinity'') s
       else parse_number s)"

fun parse_json :: "nat \<Rightarrow> string \<Rightarrow> (json \<times> string) option"
  and parse_elems :: "nat \<Rightarrow> json list \<Rightarrow> string \<Rightarrow> (json \<times> string) option"
  and parse_members :: "nat \<Rightarrow> (string \<times> json) list \<Rightarrow> string \<Rightarrow> (json \<times> string) option" where
  "parse_json 0 s = None"
| "parse_json (Suc n) s = (case s of [] \<Rightarrow> None
    | c # r \<Rightarrow>
       if c = CHR ''['' then
         (let r' = skip_ws r in
          case r' of [] \<Rightarrow> None | d # r2 \<Rightarrow> if d = CHR '']'' then Some (JArr [], r2) else parse_elems n [] r')
       else if c = CHR ''{'' then
         (let r' = skip_ws r in
          case r' of [] \<Rightarrow> None | d # r2 \<Rightarrow> if d = CHR ''}'' then Some (JObj [], r2) else parse_members n [] r')
       else parse_scalar s)"
| "parse_elems 0 acc s = None"
| "parse_elems (Suc n) acc s = (case parse_json n s of None \<Rightarrow> None
    | Some (v, r) \<Rightarrow>
       (case skip_ws r of [] \<Rightarrow> None
        | c # r' \<Rightarrow> if c = CHR '','' then parse_elems n (acc @ [v]) (skip_ws r')
                   else if c = CHR '']'' then Some (JArr (acc @ [v]), r') else None))"
| "parse_members 0 acc s = None"
| "parse_members (Suc n) acc s = (case s of [] \<Rightarrow> None
    | q # r \<Rightarrow> if q \<noteq> CHR 0x22 then None else
       (case parse_str r of None \<Rightarrow> None
        | Some (k, r1) \<Rightarrow>
          (case skip_ws r1 of [] \<Rightarrow> None
           | c # r2 \<Rightarrow> if c \<noteq> CHR '':'' then None else
             (case parse_json n (skip_ws r2) of None \<Rightarrow> None
              | Some (v, r3) \<Rightarrow>
                 (case skip_ws r3 of [] \<Rightarrow> None
                  | d # r4 \<Rightarrow> if d = CHR '','' then parse_members n (dict_set acc k v) (skip_ws r4)
                             else if d = CHR ''}'' then Some (JObj (dict_set acc k v), r4) else None)))))"

definition loads :: "string \<Rightarrow> json option" where
  "loads s = (case parse_json (2 * length s + 2) (skip_ws s) of
      None \<Rightarrow> None
    | Some (j, r) \<Rightarrow> if skip_ws r = [] then Some j else None)"

section \<open>Round trip\<close>

fun wf_json :: "json \<Rightarrow> bool"
  and wf_json_list :: "json list \<Rightarrow> bool"
  and wf_json_items :: "(string \<times> json) list \<Rightarrow> bool" where
  "wf_json (JArr vs) = wf_json_list vs"
| "wf_json (JObj kvs) = (wf_dict kvs \<and> wf_json_items kvs)"
| "wf_json (JFloat t) = False"
| "wf_json j = True"
| "wf_json_list [] = True"
| "wf_json_list (v # vs) = (wf_json v \<and> wf_json_list vs)"
| "wf_json_items [] = True"
| "wf_json_items ((k, v) # kvs) = (wf_json v \<and> wf_json_items kvs)"

lemma wf_json_items_iff: "wf_json_items kvs \<longleftrightarrow> (\<forall>(k, v) \<in> set kvs. wf_json v)"
  by (induction kvs) auto

lemma hex_val_digit: "n < 16 \<Longrightarrow> hex_val (hex_digit n) = Some n"
  by (auto simp: hex_val_def hex_digit_def Let_def)

lemma hex_val_zero: "hex_val CHR ''0'' = Some 0"
  by (simp add: hex_val_def)

lemma parse_escape: "parse_str (escape_char c @ t) = cons_str (Some c) (parse_str t)"
proof -
  let ?n = "of_char c :: nat"
  have n: "?n < 256" by simp
  have h: "hex_char CHR ''0'' CHR ''0'' (hex_digit (?n div 16)) (hex_digit (?n mod 16)) = Some c"
    using hex_val_digit [of "?n div 16"] hex_val_digit [of "?n mod 16"] n
    by (simp add: hex_char_def hex_val_zero less_mult_imp_div_less)
  show ?thesis
    by (simp add: escape_char_def simple_escape_def Let_def h)
qed

lemma parse_print_str:
  "parse_str (concat (map escape_char s) @ CHR 0x22 # rest) = Some (s, rest)"
  by (induction s) (simp_all add: parse_escape cons_str_def del: parse_str.simps(2), simp)

lemma parse_scalar_str: "parse_scalar (print_str s @ rest) = Some (JStr s, rest)"
  by (simp add: parse_scalar_def print_str_def parse_print_str)

definition delimited :: "string \<Rightarrow> bool" where
  \<comment> \<open>the text after a value: nothing, or a character that ends a number\<close>
  "delimited s \<longleftrightarrow> s = [] \<or> hd s = CHR '','' \<or> hd s = CHR '']'' \<or> hd s = CHR ''}''"

lemma delimited_simps [simp]:
  "delimited []" "delimited (CHR '','' # s)" "delimited (CHR '']'' # s)" "delimited (CHR ''}'' # s)"
  by (simp_all add: delimited_def)

lemma takeWhile_nat_str:
  assumes "delimited rest"
  shows "takeWhile is_digit (nat_str n @ rest) = nat_str n"
  using takeWhile_digits [OF nat_str_digits [of n], of rest] assms
  by (auto simp: delimited_def is_digit_def)

lemma nat_str_leading_zero:
  assumes "nat_str n = CHR ''0'' # cs"
  shows "cs = []"
proof -
  have "n = 0" using assms nat_str_leading [of n] by fastforce
  then have "nat_str n = [digit_char 0]" by (simp add: nat_str.simps)
  then show ?thesis using assms by simp
qed

lemma int_digits_nat_str:
  assumes "delimited rest"
  shows "int_digits (nat_str n @ rest) = nat_str n"
proof -
  obtain c cs where c: "nat_str n = c # cs" by (cases "nat_str n") auto
  then show ?thesis
    using takeWhile_nat_str [OF assms, of n] nat_str_leading_zero [of n cs]
    by (auto simp: int_digits_def)
qed

lemma parse_unsigned_number_nat:
  assumes "delimited rest"
  shows "parse_unsigned_number neg (nat_str n @ rest)
       = Some (JInt (if neg then - int n else int n), rest)"
proof -
  have "frac_part rest = []" "exp_part rest = []"
    using assms by (auto simp: delimited_def frac_part_def exp_part_def split: list.splits)
  then show ?thesis
    by (simp add: parse_unsigned_number_def int_digits_nat_str [OF assms] Let_def)
qed

lemma parse_number_nat:
  assumes "delimited rest"
  shows "parse_number (nat_str n @ rest) = Some (JInt (int n), rest)"
    and "parse_number (CHR ''-'' # nat_str n @ rest) = Some (JInt (- int n), rest)"
proof -
  have "hd (nat_str n) \<noteq> CHR ''-''" using hd_nat_str_digit [of n] by (auto simp: is_digit_def)
  then have "\<not> startswith (nat_str n @ rest) ''-''"
    by (cases "nat_str n") (auto simp: startswith_def)
  then show "parse_number (nat_str n @ rest) = Some (JInt (int n), rest)"
    by (simp add: parse_number_def parse_unsigned_number_nat [OF assms])
  show "parse_number (CHR ''-'' # nat_str n @ rest) = Some (JInt (- int n), rest)"
    by (simp add: parse_number_def parse_unsigned_number_nat [OF assms] startswith_def)
qed

lemma parse_scalar_int:
  assumes "delimited rest"
  shows "parse_scalar (int_str i @ rest) = Some (JInt i, rest)"
proof -
  obtain c cs where c: "nat_str (nat \<bar>i\<bar>) = c # cs" "is_digit c"
    using hd_nat_str_digit [of "nat \<bar>i\<bar>"] by (cases "nat_str (nat \<bar>i\<bar>)") auto
  then have nc: "c \<noteq> CHR 0x22" "c \<noteq> CHR ''n''" "c \<noteq> CHR ''t''" "c \<noteq> CHR ''f''" "c \<noteq> CHR ''N''"
    "c \<noteq> CHR ''I''" "c \<noteq> CHR ''-''"
    by (auto simp: is_digit_def)
  show ?thesis
    using c nc parse_number_nat [OF assms, of "nat \<bar>i\<bar>"]
    by (cases "i < 0") (simp_all add: int_str_def parse_scalar_def startswith_def)
qed

lemma skip_ws_print: "skip_ws (json_print j @ rest) = json_print j @ rest" if "wf_json j"
proof -
  have "\<not> json_ws (hd (json_print j))" and "json_print j \<noteq> []"
  proof -
    have d: "\<not> json_ws c" if "is_digit c" for c using that by (auto simp: json_ws_def is_digit_def)
    show "\<not> json_ws (hd (json_print j))"
      using that d [OF hd_nat_str_digit]
      by (cases j) (auto simp: json_ws_def int_str_def print_str_def)
    show "json_print j \<noteq> []" using that by (cases j) (auto simp: print_str_def)
  qed
  then show ?thesis by (cases "json_print j") (auto simp: skip_ws_def)
qed

lemma skip_ws_other:
  "\<not> json_ws c \<Longrightarrow> skip_ws (c # s) = c # s"
  by (simp add: skip_ws_def)

fun need :: "json \<Rightarrow> nat"
  and need_list :: "json list \<Rightarrow> nat"
  and need_items :: "(string \<times> json) list \<Rightarrow> nat" where
  "need (JArr vs) = Suc (need_list vs)"
| "need (JObj kvs) = Suc (need_items kvs)"
| "need j = 1"
| "need_list [] = 0"
| "need_list (v # vs) = Suc (need v + need_list vs)"
| "need_items [] = 0"
| "need_items ((k, v) # kvs) = Suc (need v + need_items kvs)"

lemma need_le_length:
  "wf_json j \<Longrightarrow> need j \<le> length (json_print j)"
  "wf_json_list js \<Longrightarrow> need_list js \<le> length (json_print_list js)"
  "wf_json_items kvs \<Longrightarrow> need_items kvs \<le> length (json_print_items kvs)"
proof (induction j and js and kvs rule: json_print_json_print_list_json_print_items.induct)
  case (3 i)
  then show ?case by (simp add: Suc_le_eq)
next
  case (9 v vs)
  then show ?case by (cases vs) simp_all
next
  case (11 k v kvs)
  then show ?case by (cases kvs) simp_all
qed (simp_all add: print_str_def)

lemma dict_set_fresh: "map_of d k = None \<Longrightarrow> dict_set d k v = d @ [(k, v)]"
  by (induction d) (auto split: if_splits)

lemma json_print_hd:
  assumes "wf_json j"
  shows "json_print j \<noteq> []" "hd (json_print j) \<noteq> CHR '']''"
proof -
  have "is_digit c \<Longrightarrow> c \<noteq> CHR '']''" for c by (auto simp: is_digit_def)
  then show "json_print j \<noteq> []" "hd (json_print j) \<noteq> CHR '']''"
    using assms hd_nat_str_digit by (cases j; auto simp: print_str_def int_str_def)+
qed

lemma parse_json_scalar:
  assumes "s \<noteq> []" "hd s \<noteq> CHR ''[''" "hd s \<noteq> CHR ''{''" "0 < n"
  shows "parse_json n s = parse_scalar s"
  using assms by (cases n; cases s) auto

lemma parse_print:
  "wf_json j \<Longrightarrow> need j \<le> n \<Longrightarrow> delimited rest
     \<Longrightarrow> parse_json n (json_print j @ rest) = Some (j, rest)"
  "wf_json_list js \<Longrightarrow> js \<noteq> [] \<Longrightarrow> need_list js \<le> n
     \<Longrightarrow> parse_elems n jacc (json_print_list js @ rest) = Some (JArr (jacc @ js), rest)"
  "wf_json_items kvs \<Longrightarrow> kvs \<noteq> [] \<Longrightarrow> need_items kvs \<le> n \<Longrightarrow> distinct (map fst (kacc @ kvs))
     \<Longrightarrow> parse_members n kacc (json_print_items kvs @ rest) = Some (JObj (kacc @ kvs), rest)"
proof (induction j and js and kvs arbitrary: n rest and n rest jacc and n rest kacc
    rule: json_print_json_print_list_json_print_items.induct)
  case 1
  then show ?case by (simp add: parse_json_scalar parse_scalar_def keyword_def startswith_def)
next
  case (2 b)
  then show ?case by (simp add: parse_json_scalar parse_scalar_def keyword_def startswith_def)
next
  case (3 i)
  have "hd (int_str i @ rest) \<noteq> CHR ''[''" "hd (int_str i @ rest) \<noteq> CHR ''{''"
    using hd_nat_str_digit [of "nat \<bar>i\<bar>"] by (auto simp: int_str_def hd_append is_digit_def)
  then show ?case using 3 by (simp add: parse_json_scalar parse_scalar_int)
next
  case (4 t)
  then show ?case by simp
next
  case (5 s)
  have "hd (print_str s @ rest) \<noteq> CHR ''[''" "hd (print_str s @ rest) \<noteq> CHR ''{''"
    "print_str s @ rest \<noteq> []"
    by (simp_all add: print_str_def)
  then show ?case using 5 by (simp add: parse_json_scalar parse_scalar_str)
next
  case (6 vs)
  then obtain m where m: "n = Suc m" by (cases n) auto
  show ?case
  proof (cases vs)
    case Nil
    then show ?thesis by (simp add: m skip_ws_def json_ws_def)
  next
    case (Cons v ws)
    have sk: "skip_ws (json_print_list vs @ rest) = json_print_list vs @ rest"
      using 6(2) Cons by (simp add: skip_ws_print split: list.splits)
    obtain c r where c: "json_print v = c # r" "c \<noteq> CHR '']''"
      using json_print_hd [of v] 6(2) Cons by (cases "json_print v") auto
    then obtain r' where r': "json_print_list vs @ rest = c # r'"
      using Cons by simp
    have "parse_elems m [] (json_print_list vs @ rest) = Some (JArr ([] @ vs), rest)"
      using 6 m Cons by simp
    then show ?thesis
      using sk c(2) by (simp add: m Let_def r')
  qed
next
  case (7 kvs)
  then obtain m where m: "n = Suc m" by (cases n) auto
  show ?case
  proof (cases kvs)
    case Nil
    then show ?thesis by (simp add: m skip_ws_def json_ws_def)
  next
    case (Cons kv ws)
    obtain k v where kv: "kv = (k, v)" by (cases kv)
    obtain r where r: "json_print_items kvs = CHR 0x22 # r"
      using Cons kv by (simp add: print_str_def)
    have "parse_members m [] (json_print_items kvs @ rest) = Some (JObj ([] @ kvs), rest)"
      using 7 m Cons by (simp add: wf_dict_def)
    then show ?thesis
      by (simp add: m r Let_def skip_ws_other json_ws_def)
  qed
next
  case 8
  then show ?case by simp
next
  case (9 v vs)
  then obtain m where m: "n = Suc m" by (cases n) auto
  show ?case
  proof (cases vs)
    case Nil
    then show ?thesis using 9(1) [of m "CHR '']'' # rest"] 9(3,5) m
      by (simp add: skip_ws_other json_ws_def)
  next
    case (Cons w ws)
    have "parse_json m (json_print v @ CHR '','' # json_print_list vs @ rest)
        = Some (v, CHR '','' # json_print_list vs @ rest)"
      using 9 m by simp
    moreover have "skip_ws (json_print_list vs @ rest) = json_print_list vs @ rest"
      using 9(3) Cons by (simp add: skip_ws_print split: list.splits)
    moreover have "parse_elems m (jacc @ [v]) (json_print_list vs @ rest)
        = Some (JArr ((jacc @ [v]) @ vs), rest)"
      by (rule 9(2)) (use 9 m Cons in auto)
    ultimately show ?thesis
      using Cons by (simp add: m skip_ws_other json_ws_def del: json_print_list.simps(2))
        (simp add: m skip_ws_other json_ws_def)
  qed
next
  case 10
  then show ?case by simp
next
  case (11 k v kvs)
  then obtain m where m: "n = Suc m" by (cases n) auto
  have fresh: "dict_set kacc k v = kacc @ [(k, v)]"
    using 11(6) by (intro dict_set_fresh) (auto simp: map_of_eq_None_iff)
  have ps: "parse_str (concat (map escape_char k) @ CHR 0x22 # t) = Some (k, t)" for t
    by (rule parse_print_str)
  have wf: "wf_json v" using 11(3) by simp
  show ?case
  proof (cases kvs)
    case Nil
    have "parse_json m (json_print v @ CHR ''}'' # rest) = Some (v, CHR ''}'' # rest)"
      using 11 m by simp
    then show ?thesis using Nil
      by (simp add: m print_str_def ps fresh skip_ws_other json_ws_def skip_ws_print [OF wf])
  next
    case (Cons w ws)
    obtain r where r: "json_print_items kvs = CHR 0x22 # r"
      using Cons by (cases w) (simp add: print_str_def)
    have "parse_json m (json_print v @ CHR '','' # json_print_items kvs @ rest)
        = Some (v, CHR '','' # json_print_items kvs @ rest)"
      using 11 m by simp
    moreover have "parse_members m (kacc @ [(k, v)]) (json_print_items kvs @ rest)
        = Some (JObj ((kacc @ [(k, v)]) @ kvs), rest)"
      by (rule 11(2)) (use 11 m Cons in auto)
    moreover have "(case kvs of [] \<Rightarrow> ''}'' | _ \<Rightarrow> CHR '','' # json_print_items kvs)
        = CHR '','' # json_print_items kvs"
      using Cons by simp
    ultimately show ?thesis
      by (simp add: m print_str_def ps fresh skip_ws_other json_ws_def skip_ws_print [OF wf] r)
  qed
qed

lemma loads_print: "wf_json j \<Longrightarrow> loads (json_print j) = Some j"
proof -
  assume wf: "wf_json j"
  have "parse_json (2 * length (json_print j) + 2) (json_print j @ []) = Some (j, [])"
    using need_le_length(1) [OF wf] by (intro parse_print(1) [OF wf]) auto
  then show ?thesis
    using skip_ws_print [OF wf, of "[]"] by (simp add: loads_def skip_ws_def)
qed

section \<open>The canonical form\<close>

fun wf_py :: "pyval \<Rightarrow> bool"
  and wf_py_list :: "pyval list \<Rightarrow> bool"
  and wf_py_items :: "(string \<times> pyval) list \<Rightarrow> bool" where
  "wf_py (PList vs) = wf_py_list vs"
| "wf_py (PDict kvs) = (wf_dict kvs \<and> wf_py_items kvs)"
| "wf_py v = True"
| "wf_py_list [] = True"
| "wf_py_list (v # vs) = (wf_py v \<and> wf_py_list vs)"
| "wf_py_items [] = True"
| "wf_py_items ((k, v) # kvs) = (wf_py v \<and> wf_py_items kvs)"

lemma normalize_wf:
  "normalize v path = Ok j \<Longrightarrow> wf_py v \<Longrightarrow> wf_json j"
  "normalize_list vs path i = Ok js \<Longrightarrow> wf_py_list vs \<Longrightarrow> wf_json_list js"
  "normalize_items kvs path = Ok kjs \<Longrightarrow> wf_py_items kvs
     \<Longrightarrow> wf_json_items kjs \<and> map fst kjs = map fst kvs"
proof (induction v path and vs path i and kvs path arbitrary: j and js and kjs
    rule: normalize_normalize_list_normalize_items.induct)
qed (auto simp: rbind_Ok_iff wf_dict_def split: if_splits)

lemma json_sorted_items_props:
  "map fst (json_sorted_items kvs) = map fst kvs"
  by (induction kvs) auto

lemma distinct_map_sort_key: "distinct (map f (sort_key f xs)) = distinct (map f xs)"
  by (simp add: distinct_map)

lemma json_sorted_wf:
  "wf_json j \<Longrightarrow> wf_json (json_sorted j)"
  "wf_json_list js \<Longrightarrow> wf_json_list (json_sorted_list js)"
  "wf_json_items kvs \<Longrightarrow> wf_json_items (json_sorted_items kvs)"
proof (induction j and js and kvs rule: json_sorted_json_sorted_list_json_sorted_items.induct)
  case (2 kvs)
  have "distinct (map fst (sort_key fst (json_sorted_items kvs)))"
    using 2 distinct_map_sort_key [of fst "json_sorted_items kvs"]
    by (simp add: wf_dict_def json_sorted_items_props)
  then show ?case using 2 by (simp add: wf_dict_def wf_json_items_iff)
qed simp_all

lemma loads_dumps_sorted: "wf_json j \<Longrightarrow> loads (dumps_sorted j) = Some (json_sorted j)"
  by (simp add: dumps_sorted_def loads_print json_sorted_wf)

lemma dumps_sorted_inject:
  "wf_json i \<Longrightarrow> wf_json j \<Longrightarrow> dumps_sorted i = dumps_sorted j \<longleftrightarrow> json_sorted i = json_sorted j"
  using loads_dumps_sorted by (metis option.inject dumps_sorted_def)

lemma canonical_json_loads:
  assumes "canonical_json p = Ok s" "wf_py (PDict p)"
  obtains j where "normalize (PDict p) ''$'' = Ok j" "loads s = Some (json_sorted j)"
  using assms normalize_wf(1) [of "PDict p"] loads_dumps_sorted
  by (auto simp: canonical_json_def rbind_Ok_iff)

section \<open>Reading a parsed value\<close>

text \<open>
  \<open>str(v)\<close>, \<open>int(v)\<close> and \<open>bool(v)\<close> on what \<open>json.loads\<close> returns. The text of a float or of a
  container is the one case left out: it raises \<open>Unrepresentable\<close> here.
\<close>

definition py_str :: "json \<Rightarrow> string result" where
  "py_str v = (case v of JStr s \<Rightarrow> Ok s | JInt i \<Rightarrow> Ok (int_str i) | JNull \<Rightarrow> Ok ''None''
     | JBool b \<Rightarrow> Ok (if b then ''True'' else ''False'')
     | _ \<Rightarrow> Err (Unrepresentable ''str''))"

fun digits_us :: "string \<Rightarrow> bool" where
  \<comment> \<open>digits with single underscores between them\<close>
  "digits_us [] = False"
| "digits_us [c] = is_digit c"
| "digits_us (c # d # s) = (is_digit c \<and> (if d = CHR ''_'' then digits_us s else digits_us (d # s)))"

definition int_of_str :: "string \<Rightarrow> int option" where
  "int_of_str s0 = (let s = strip s0;
     neg = startswith s ''-'';
     ds = (if neg \<or> startswith s ''+'' then tl s else s)
   in if digits_us ds
      then (let v = int (digits_val (List.filter (\<lambda>c. c \<noteq> CHR ''_'') ds)) in Some (if neg then - v else v))
      else None)"

definition py_int :: "json \<Rightarrow> int result" where
  "py_int v = (case v of JInt i \<Rightarrow> Ok i | JBool b \<Rightarrow> Ok (if b then 1 else 0)
     | JStr s \<Rightarrow> of_option (ValueError ''invalid literal for int()'') (int_of_str s)
     | JFloat t \<Rightarrow> Err (Unrepresentable ''int'')
     | _ \<Rightarrow> Err (TypeError ''int() argument''))"

definition py_bool :: "json \<Rightarrow> bool result" where
  "py_bool v = (case v of JBool b \<Rightarrow> Ok b | JNull \<Rightarrow> Ok False | JInt i \<Rightarrow> Ok (i \<noteq> 0)
     | JStr s \<Rightarrow> Ok (s \<noteq> []) | JArr vs \<Rightarrow> Ok (vs \<noteq> []) | JObj kvs \<Rightarrow> Ok (kvs \<noteq> [])
     | JFloat t \<Rightarrow> Err (Unrepresentable ''bool''))"

definition row_get :: "(string, json) dict \<Rightarrow> string \<Rightarrow> json \<Rightarrow> json" where
  "row_get row k d = dict_get_default row k d"

definition row_str :: "(string, json) dict \<Rightarrow> string \<Rightarrow> string \<Rightarrow> string result" where
  "row_str row k d = py_str (row_get row k (JStr d))"

definition row_int :: "(string, json) dict \<Rightarrow> string \<Rightarrow> int \<Rightarrow> int result" where
  "row_int row k d = py_int (row_get row k (JInt d))"

definition row_bool :: "(string, json) dict \<Rightarrow> string \<Rightarrow> bool \<Rightarrow> bool result" where
  "row_bool row k d = py_bool (row_get row k (JBool d))"

lemma py_simps [simp]:
  "py_str (JStr s) = Ok s" "py_int (JInt i) = Ok i" "py_bool (JBool b) = Ok b"
  by (simp_all add: py_str_def py_int_def py_bool_def)

lemma row_simps [simp]:
  "map_of row k = Some (JStr s) \<Longrightarrow> row_str row k d = Ok s"
  "map_of row k = Some (JInt i) \<Longrightarrow> row_int row k di = Ok i"
  "map_of row k = Some (JBool b) \<Longrightarrow> row_bool row k db = Ok b"
  by (simp_all add: row_str_def row_int_def row_bool_def row_get_def dict_get_default_def)

section \<open>Idempotency keys\<close>

text \<open>
  SHA-256 is a parameter \<open>H\<close>, the hexadecimal digest of a text; nothing is assumed of it
  here. The keys are its first 32 characters.
\<close>

definition derive_idempotency_key ::
  "(string \<Rightarrow> string) \<Rightarrow> string \<Rightarrow> string \<Rightarrow> (string, pyval) dict \<Rightarrow> string option \<Rightarrow> string result" where
  "derive_idempotency_key H tool seat payload scope =
     (let body = List.filter (\<lambda>(k, v). k \<noteq> ''correlation_id'') payload
      in rbind (canonical_json [(''tool'', PStr tool), (''bot'', PStr seat),
                  (''scope'', case scope of None \<Rightarrow> PNone | Some s \<Rightarrow> PStr s), (''payload'', PDict body)])
           (\<lambda>t. Ok (take 32 (H t))))"

definition exec_place_key :: "(string \<Rightarrow> string) \<Rightarrow> string \<Rightarrow> string \<Rightarrow> string \<Rightarrow> string result" where
  "exec_place_key H ticket_id side decision_id =
     rbind (canonical_json [(''ticket_id'', PStr ticket_id), (''side'', PStr side),
                            (''decision_id'', PStr decision_id)])
       (\<lambda>t. Ok (take 32 (H t)))"

definition exec_cancel_key :: "(string \<Rightarrow> string) \<Rightarrow> string \<Rightarrow> string result" where
  "exec_cancel_key H order_id =
     rbind (canonical_json [(''order_id'', PStr order_id)]) (\<lambda>t. Ok (take 32 (H t)))"

end
