(* ===== verification/Events.thy ===== *)
theory Events
  imports CanonicalJson
begin

text \<open>
  The event vocabulary of \<open>ledger/events.py\<close>. A pydantic model is its table of fields in
  declaration order: name, field type and default. \<open>model_dump\<close> validates a payload against
  a table (unknown fields forbidden, value fields strict) and returns the JSON dump of the
  model; \<open>validated_payload\<close> is the store's \<open>_validated_payload\<close>. The lemmas show that a
  validated payload always reads back with the field types the reducer expects.
\<close>

section \<open>Field types\<close>

datatype ftype = FSource | FStr | FMoney | FMoneyOpt | FPrice | FBool | FStrList | FNoteKind

type_synonym field = "string \<times> ftype \<times> json option"

definition note_kinds :: "string list" where
  "note_kinds = [''lead'', ''whale'', ''social'', ''signal'', ''verdict'', ''safety_report'',
     ''review'', ''ticket'', ''note'']"

definition event_sources :: "string list" where
  "event_sources = [''paper'', ''replay'', ''manual'']"

datatype event_type =
    OrderPlaced
  | OrderRejected
  | FillRecorded
  | PositionOpened
  | PositionClosed
  | MarkToMarket
  | HaltSet
  | HaltCleared
  | KillSwitchSet
  | KillSwitchCleared
  | BreakerTripped
  | BreakerReset
  | DailyRollover
  | ConfigChanged
  | LiveWriteAttempted
  | Escalation
  | JournalNote
  | ApprovalRecorded

definition event_types :: "event_type list" where
  "event_types = [OrderPlaced, OrderRejected, FillRecorded, PositionOpened, PositionClosed, MarkToMarket,
     HaltSet, HaltCleared, KillSwitchSet, KillSwitchCleared, BreakerTripped, BreakerReset,
     DailyRollover, ConfigChanged, LiveWriteAttempted, Escalation, JournalNote, ApprovalRecorded]"

definition event_value :: "event_type \<Rightarrow> string" where
  "event_value t = (case t of
       OrderPlaced \<Rightarrow> ''OrderPlaced''
     | OrderRejected \<Rightarrow> ''OrderRejected''
     | FillRecorded \<Rightarrow> ''FillRecorded''
     | PositionOpened \<Rightarrow> ''PositionOpened''
     | PositionClosed \<Rightarrow> ''PositionClosed''
     | MarkToMarket \<Rightarrow> ''MarkToMarket''
     | HaltSet \<Rightarrow> ''HaltSet''
     | HaltCleared \<Rightarrow> ''HaltCleared''
     | KillSwitchSet \<Rightarrow> ''KillSwitchSet''
     | KillSwitchCleared \<Rightarrow> ''KillSwitchCleared''
     | BreakerTripped \<Rightarrow> ''BreakerTripped''
     | BreakerReset \<Rightarrow> ''BreakerReset''
     | DailyRollover \<Rightarrow> ''DailyRollover''
     | ConfigChanged \<Rightarrow> ''ConfigChanged''
     | LiveWriteAttempted \<Rightarrow> ''LiveWriteAttempted''
     | Escalation \<Rightarrow> ''Escalation''
     | JournalNote \<Rightarrow> ''JournalNote''
     | ApprovalRecorded \<Rightarrow> ''ApprovalRecorded'')"

definition event_type_of_str :: "string \<Rightarrow> event_type option" where
  "event_type_of_str s = List.find (\<lambda>t. event_value t = s) event_types"

section \<open>The models\<close>

definition order_placed_fields :: "field list" where
  "order_placed_fields =
    [(''source'', FSource, None),
     (''order_id'', FStr, None),
     (''decision_id'', FStr, None),
     (''ticket_id'', FStr, None),
     (''side'', FStr, None),
     (''mint'', FStr, None),
     (''slippage_bps'', FMoney, None),
     (''size_lamports'', FMoneyOpt, Some JNull),
     (''token_units'', FMoneyOpt, Some JNull),
     (''quote_json'', FStr, Some (JStr '''')),
     (''approval_json'', FStr, Some (JStr '''')),
     (''risk_json'', FStr, Some (JStr ''''))]"

definition order_rejected_fields :: "field list" where
  "order_rejected_fields =
    [(''source'', FSource, None),
     (''order_id'', FStr, None),
     (''decision_id'', FStr, None),
     (''reason'', FStr, None),
     (''detail'', FStr, None),
     (''stage'', FStr, None),
     (''fees_lamports'', FMoney, Some (JInt 0)),
     (''quote_out'', FMoney, Some (JInt 0)),
     (''other_amount_threshold'', FMoney, Some (JInt 0)),
     (''confirm_out'', FMoney, Some (JInt 0))]"

definition fill_recorded_fields :: "field list" where
  "fill_recorded_fields =
    [(''source'', FSource, None),
     (''order_id'', FStr, None),
     (''decision_id'', FStr, None),
     (''side'', FStr, None),
     (''mint'', FStr, None),
     (''filled_lamports'', FMoney, None),
     (''filled_units'', FMoney, None),
     (''filled_fraction'', FPrice, None),
     (''price_avg'', FPrice, None),
     (''venue_fee_lamports'', FMoney, Some (JInt 0)),
     (''network_cost_lamports'', FMoney, Some (JInt 0)),
     (''cash_delta_lamports'', FMoney, Some (JInt 0)),
     (''latency_s'', FPrice, Some (JStr ''0'')),
     (''venue_tx_ref'', FStr, Some (JStr '''')),
     (''curve_before_s'', FMoney, Some (JInt 0)),
     (''curve_before_t'', FMoney, Some (JInt 0)),
     (''curve_after_s'', FMoney, Some (JInt 0)),
     (''curve_after_t'', FMoney, Some (JInt 0)),
     (''route'', FStr, Some (JStr ''curve'')),
     (''realised_slippage_bps'', FMoney, Some (JInt 0))]"

definition position_opened_fields :: "field list" where
  "position_opened_fields =
    [(''source'', FSource, None),
     (''mint'', FStr, None),
     (''price_entry'', FPrice, None),
     (''token_units'', FMoney, None),
     (''cost_basis_lamports'', FMoney, None),
     (''opened_ts_utc'', FStr, None),
     (''symbol'', FStr, Some (JStr '''')),
     (''creator'', FStr, Some (JStr '''')),
     (''ticket_id'', FStr, Some (JStr '''')),
     (''score'', FPrice, Some (JStr ''0''))]"

definition position_closed_fields :: "field list" where
  "position_closed_fields =
    [(''source'', FSource, None),
     (''mint'', FStr, None),
     (''price_exit'', FPrice, None),
     (''proceeds_lamports'', FMoney, None),
     (''realized_pnl_lamports'', FMoney, None),
     (''reason'', FStr, None),
     (''pnl_pct'', FPrice, Some (JStr ''0'')),
     (''hold_seconds'', FMoney, Some (JInt 0)),
     (''venue_tx_ref'', FStr, Some (JStr ''''))]"

definition mark_to_market_fields :: "field list" where
  "mark_to_market_fields =
    [(''source'', FSource, None),
     (''ts_source'', FStr, None),
     (''cash_lamports'', FMoney, None),
     (''equity_lamports'', FMoney, None),
     (''unrealized_lamports'', FMoney, None),
     (''prices_json'', FStr, Some (JStr ''''))]"

definition halt_set_fields :: "field list" where
  "halt_set_fields =
    [(''source'', FSource, None),
     (''reason'', FStr, None),
     (''detail'', FStr, None),
     (''equity_lamports'', FMoney, None),
     (''day_start_equity_lamports'', FMoney, None),
     (''set_by'', FStr, Some (JStr ''risk_engine''))]"

definition halt_cleared_fields :: "field list" where
  "halt_cleared_fields =
    [(''source'', FSource, None),
     (''reason'', FStr, None),
     (''cleared_by'', FStr, None),
     (''approval_id'', FStr, Some (JStr '''')),
     (''note'', FStr, Some (JStr ''''))]"

definition kill_switch_set_fields :: "field list" where
  "kill_switch_set_fields =
    [(''source'', FSource, None),
     (''origin'', FStr, None),
     (''reason'', FStr, None),
     (''flatten_requested'', FBool, Some (JBool False)),
     (''set_by'', FStr, Some (JStr ''''))]"

definition kill_switch_cleared_fields :: "field list" where
  "kill_switch_cleared_fields =
    [(''source'', FSource, None),
     (''cleared_by'', FStr, None),
     (''approval_id'', FStr, Some (JStr '''')),
     (''sources_now_clear'', FStrList, Some (JArr []))]"

definition breaker_tripped_fields :: "field list" where
  "breaker_tripped_fields =
    [(''source'', FSource, None),
     (''breaker'', FStr, None),
     (''metric'', FStr, None),
     (''threshold'', FStr, None),
     (''cooldown_s'', FMoney, None)]"

definition breaker_reset_fields :: "field list" where
  "breaker_reset_fields =
    [(''source'', FSource, None),
     (''breaker'', FStr, None),
     (''after_s'', FMoney, None),
     (''probe_ok'', FBool, Some (JBool False))]"

definition daily_rollover_fields :: "field list" where
  "daily_rollover_fields =
    [(''source'', FSource, None),
     (''day_utc'', FStr, None),
     (''day_start_equity_lamports'', FMoney, None),
     (''prior_day_json'', FStr, Some (JStr '''')),
     (''open_positions'', FStrList, Some (JArr []))]"

definition config_changed_fields :: "field list" where
  "config_changed_fields =
    [(''source'', FSource, None),
     (''by'', FStr, None),
     (''keys_changed'', FStrList, Some (JArr [])),
     (''old_hash'', FStr, Some (JStr '''')),
     (''new_hash'', FStr, Some (JStr ''''))]"

definition live_write_attempted_fields :: "field list" where
  "live_write_attempted_fields =
    [(''source'', FSource, None),
     (''adapter'', FStr, None),
     (''method'', FStr, None),
     (''caller_seat'', FStr, None),
     (''gate_result_json'', FStr, Some (JStr '''')),
     (''stack_hash'', FStr, Some (JStr ''''))]"

definition escalation_fields :: "field list" where
  "escalation_fields =
    [(''source'', FSource, None),
     (''kind'', FStr, None),
     (''seat'', FStr, None),
     (''detail'', FStr, None)]"

definition journal_note_fields :: "field list" where
  "journal_note_fields =
    [(''source'', FSource, None),
     (''seat'', FStr, Some (JStr ''desk'')),
     (''note_kind'', FNoteKind, Some (JStr ''note'')),
     (''text'', FStr, None),
     (''refs'', FStrList, Some (JArr []))]"

definition approval_recorded_fields :: "field list" where
  "approval_recorded_fields =
    [(''source'', FSource, None),
     (''id'', FStr, None),
     (''kind'', FStr, None),
     (''approved_by'', FStr, None),
     (''at'', FStr, None),
     (''ticket_id'', FStr, Some (JStr '''')),
     (''mint'', FStr, Some (JStr '''')),
     (''size_lamports'', FMoney, Some (JInt 0)),
     (''token_units'', FMoney, None),
     (''max_slippage_bps'', FMoney, Some (JInt 0)),
     (''exit_rule_id'', FStr, Some (JStr '''')),
     (''raw_message'', FStr, Some (JStr '''')),
     (''consumed'', FBool, Some (JBool False))]"

definition event_model :: "event_type \<Rightarrow> field list" where
  "event_model t = (case t of
       OrderPlaced \<Rightarrow> order_placed_fields
     | OrderRejected \<Rightarrow> order_rejected_fields
     | FillRecorded \<Rightarrow> fill_recorded_fields
     | PositionOpened \<Rightarrow> position_opened_fields
     | PositionClosed \<Rightarrow> position_closed_fields
     | MarkToMarket \<Rightarrow> mark_to_market_fields
     | HaltSet \<Rightarrow> halt_set_fields
     | HaltCleared \<Rightarrow> halt_cleared_fields
     | KillSwitchSet \<Rightarrow> kill_switch_set_fields
     | KillSwitchCleared \<Rightarrow> kill_switch_cleared_fields
     | BreakerTripped \<Rightarrow> breaker_tripped_fields
     | BreakerReset \<Rightarrow> breaker_reset_fields
     | DailyRollover \<Rightarrow> daily_rollover_fields
     | ConfigChanged \<Rightarrow> config_changed_fields
     | LiveWriteAttempted \<Rightarrow> live_write_attempted_fields
     | Escalation \<Rightarrow> escalation_fields
     | JournalNote \<Rightarrow> journal_note_fields
     | ApprovalRecorded \<Rightarrow> approval_recorded_fields)"

lemmas event_field_defs =
  order_placed_fields_def
  order_rejected_fields_def
  fill_recorded_fields_def
  position_opened_fields_def
  position_closed_fields_def
  mark_to_market_fields_def
  halt_set_fields_def
  halt_cleared_fields_def
  kill_switch_set_fields_def
  kill_switch_cleared_fields_def
  breaker_tripped_fields_def
  breaker_reset_fields_def
  daily_rollover_fields_def
  config_changed_fields_def
  live_write_attempted_fields_def
  escalation_fields_def
  journal_note_fields_def
  approval_recorded_fields_def

section \<open>Validation\<close>

definition as_str :: "pyval \<Rightarrow> string option" where
  "as_str v = (case v of PStr s \<Rightarrow> Some s | _ \<Rightarrow> None)"

definition price_decimal :: "pyval \<Rightarrow> dec option" where
  \<comment> \<open>\<open>PriceDecimal\<close>: a float is refused before parsing, and only finite decimals pass\<close>
  "price_decimal v =
     (case (case v of PDec d \<Rightarrow> Some d | PStr s \<Rightarrow> dec_of_str s | PInt i \<Rightarrow> Some (dec_of_int i) | _ \<Rightarrow> None)
      of Some d \<Rightarrow> if is_finite d then Some d else None
       | None \<Rightarrow> None)"

definition str_list :: "pyval \<Rightarrow> string list option" where
  "str_list v = (case v of
       PList vs \<Rightarrow> if list_all (\<lambda>x. as_str x \<noteq> None) vs then Some (map (\<lambda>x. the (as_str x)) vs) else None
     | _ \<Rightarrow> None)"

definition dump_value :: "ftype \<Rightarrow> pyval \<Rightarrow> json option" where
  "dump_value t v = (case t of
       FSource \<Rightarrow> (case v of PStr s \<Rightarrow> if s \<in> set event_sources then Some (JStr s) else None | _ \<Rightarrow> None)
     | FStr \<Rightarrow> (case v of PStr s \<Rightarrow> Some (JStr s) | _ \<Rightarrow> None)
     | FMoney \<Rightarrow> (case v of PInt i \<Rightarrow> Some (JInt i) | _ \<Rightarrow> None)
     | FMoneyOpt \<Rightarrow> (case v of PInt i \<Rightarrow> Some (JInt i) | PNone \<Rightarrow> Some JNull | _ \<Rightarrow> None)
     | FPrice \<Rightarrow> map_option (\<lambda>d. JStr (dec_str d)) (price_decimal v)
     | FBool \<Rightarrow> (case v of PBool b \<Rightarrow> Some (JBool b) | _ \<Rightarrow> None)
     | FStrList \<Rightarrow> map_option (\<lambda>ss. JArr (map JStr ss)) (str_list v)
     | FNoteKind \<Rightarrow> (case v of PStr s \<Rightarrow> if s \<in> set note_kinds then Some (JStr s) else None | _ \<Rightarrow> None))"

definition dump_field :: "(string, pyval) dict \<Rightarrow> field \<Rightarrow> (string \<times> json) result" where
  "dump_field payload f = (case f of (name, t, dflt) \<Rightarrow>
     (case map_of payload name of
        Some v \<Rightarrow> (case dump_value t v of
            Some j \<Rightarrow> Ok (name, j) | None \<Rightarrow> Err (ValueError (''invalid '' @ name)))
      | None \<Rightarrow> (case dflt of
            Some j \<Rightarrow> Ok (name, j) | None \<Rightarrow> Err (ValueError (''missing '' @ name)))))"

definition model_dump :: "field list \<Rightarrow> (string, pyval) dict \<Rightarrow> (string, json) dict result" where
  \<comment> \<open>\<open>model.model_validate(payload).model_dump(mode="json")\<close> of a model with \<open>extra="forbid"\<close>\<close>
  "model_dump fs payload =
     rbind (rguard (list_all (\<lambda>(k, v). k \<in> set (map fst fs)) payload) (ValueError ''extra fields forbidden''))
       (\<lambda>_. rmap (dump_field payload) fs)"

fun py_of_json :: "json \<Rightarrow> pyval"
  and py_of_json_list :: "json list \<Rightarrow> pyval list"
  and py_of_json_items :: "(string \<times> json) list \<Rightarrow> (string \<times> pyval) list" where
  "py_of_json JNull = PNone"
| "py_of_json (JBool b) = PBool b"
| "py_of_json (JInt i) = PInt i"
| "py_of_json (JFloat t) = PFloat t"
| "py_of_json (JStr s) = PStr s"
| "py_of_json (JArr vs) = PList (py_of_json_list vs)"
| "py_of_json (JObj kvs) = PDict (py_of_json_items kvs)"
| "py_of_json_list [] = []"
| "py_of_json_list (v # vs) = py_of_json v # py_of_json_list vs"
| "py_of_json_items [] = []"
| "py_of_json_items ((k, v) # kvs) = (k, py_of_json v) # py_of_json_items kvs"

definition validated_payload :: "string \<Rightarrow> (string, pyval) dict \<Rightarrow> string result" where
  "validated_payload ty payload =
     rbind (of_option (ValueError ''not a valid EventType'') (event_type_of_str ty)) (\<lambda>t.
     rbind (model_dump (event_model t) payload) (\<lambda>kvs.
       canonical_json (py_of_json_items kvs)))"

definition is_upper :: "char \<Rightarrow> bool" where
  "is_upper c \<longleftrightarrow> 65 \<le> (of_char c :: nat) \<and> (of_char c :: nat) \<le> 90"

definition event_type_to_snake :: "event_type \<Rightarrow> string" where
  \<comment> \<open>an underscore before every capital but the first character, then lower case\<close>
  "event_type_to_snake t = (case event_value t of [] \<Rightarrow> []
     | c # cs \<Rightarrow> lower (c # concat (map (\<lambda>d. if is_upper d then [CHR ''_'', d] else [d]) cs)))"

section \<open>Validated payloads\<close>

definition wire_typed :: "ftype \<Rightarrow> json \<Rightarrow> bool" where
  \<comment> \<open>what a field of each type looks like in a stored payload\<close>
  "wire_typed t j = (case t of
       FSource \<Rightarrow> (\<exists>s. j = JStr s \<and> s \<in> set event_sources)
     | FStr \<Rightarrow> (\<exists>s. j = JStr s)
     | FMoney \<Rightarrow> (\<exists>i. j = JInt i)
     | FMoneyOpt \<Rightarrow> j = JNull \<or> (\<exists>i. j = JInt i)
     | FPrice \<Rightarrow> (\<exists>d. j = JStr (dec_str d) \<and> is_finite d)
     | FBool \<Rightarrow> (\<exists>b. j = JBool b)
     | FStrList \<Rightarrow> (\<exists>ss. j = JArr (map JStr ss))
     | FNoteKind \<Rightarrow> (\<exists>s. j = JStr s \<and> s \<in> set note_kinds))"

definition typed_row :: "field list \<Rightarrow> (string, json) dict \<Rightarrow> bool" where
  "typed_row fs row = (wf_dict row \<and> fst ` set row \<subseteq> set (map fst fs) \<and>
     list_all (\<lambda>(name, t, dflt). \<exists>j. map_of row name = Some j \<and> wire_typed t j) fs)"

lemma dump_value_typed: "dump_value t v = Some j \<Longrightarrow> wire_typed t j"
  by (auto simp: dump_value_def wire_typed_def price_decimal_def split: ftype.splits pyval.splits
      option.splits if_splits)

lemma event_type_of_str_value [simp]: "event_type_of_str (event_value t) = Some t"
  by (cases t) (simp_all add: event_type_of_str_def event_types_def event_value_def)

lemma event_type_of_str_Some: "event_type_of_str s = Some t \<Longrightarrow> event_value t = s"
  by (auto simp: event_type_of_str_def find_Some_iff)

definition model_ok :: "field list \<Rightarrow> bool" where
  \<comment> \<open>distinct field names, and every default has the field's type\<close>
  "model_ok fs = (distinct (map fst fs) \<and>
     list_all (\<lambda>(name, t, dflt). case dflt of None \<Rightarrow> True | Some j \<Rightarrow> wire_typed t j) fs)"

lemma default_price: "\<exists>d. ''0'' = dec_str d \<and> is_finite d"
proof -
  have "''0'' = dec_str (DFin False 0 0)" by code_simp
  then show ?thesis by (intro exI [of _ "DFin False 0 0"]) (simp add: is_finite_def)
qed

lemma model_ok_event_model: "model_ok (event_model t)"
  by (cases t)
     (simp_all add: event_model_def model_ok_def event_field_defs wire_typed_def default_price note_kinds_def,
      blast+)

lemma rmap_dump_fields:
  assumes "rmap (dump_field payload) fs = Ok kvs"
    and "list_all (\<lambda>(name, t, dflt). case dflt of None \<Rightarrow> True | Some j \<Rightarrow> wire_typed t j) fs"
  shows "list_all2 (\<lambda>(name, t, dflt) (k, j). k = name \<and> wire_typed t j) fs kvs"
  using assms
proof (induction fs arbitrary: kvs)
  case (Cons f fs)
  obtain name t dflt where f: "f = (name, t, dflt)" by (cases f)
  from Cons.prems obtain kj kvs' where kj: "dump_field payload f = Ok kj"
    and kvs: "kvs = kj # kvs'" "rmap (dump_field payload) fs = Ok kvs'"
    by (auto simp: rbind_Ok_iff)
  have "fst kj = name \<and> wire_typed t (snd kj)"
    using kj Cons.prems(2)
    by (auto simp: f dump_field_def split: option.splits dest: dump_value_typed)
  then show ?case using Cons kvs f by (auto simp: case_prod_beta)
qed simp

lemma list_all2_fields_typed:
  assumes "list_all2 (\<lambda>(name, t, dflt) (k, j). k = name \<and> wire_typed t j) fs kvs"
    and "distinct (map fst fs)"
  shows "map fst kvs = map fst fs \<and> typed_row fs kvs"
proof -
  have "map fst kvs = map fst fs \<and> wf_dict kvs
      \<and> list_all (\<lambda>(name, t, dflt). \<exists>j. map_of kvs name = Some j \<and> wire_typed t j) fs"
    using assms
  proof (induction fs kvs rule: list_all2_induct)
    case (Cons f fs kj kvs)
    then show ?case
      by (force simp: wf_dict_def list_all_iff case_prod_beta)
  qed simp
  moreover from this have "fst ` set kvs = set (map fst fs)" by (metis list.set_map)
  ultimately show ?thesis by (simp add: typed_row_def)
qed

lemma model_dump_typed:
  assumes "model_dump fs payload = Ok kvs" "model_ok fs"
  shows "map fst kvs = map fst fs" "typed_row fs kvs"
  using assms rmap_dump_fields [of payload fs kvs] list_all2_fields_typed [of fs kvs]
  by (auto simp: model_dump_def model_ok_def rbind_Ok_iff)

lemma normalize_py_of_json:
  "wf_json j \<Longrightarrow> normalize (py_of_json j) path = Ok j"
  "wf_json_list js \<Longrightarrow> normalize_list (py_of_json_list js) path i = Ok js"
  "wf_json_items kvs \<Longrightarrow> normalize_items (py_of_json_items kvs) path = Ok kvs"
  by (induction j and js and kvs arbitrary: path and path i and path
      rule: py_of_json_py_of_json_list_py_of_json_items.induct) simp_all

lemma wire_typed_wf: "wire_typed t j \<Longrightarrow> wf_json j"
proof -
  have "wf_json_list (map JStr ss)" for ss by (induction ss) simp_all
  then show "wire_typed t j \<Longrightarrow> wf_json j"
    by (auto simp: wire_typed_def split: ftype.splits)
qed

lemma json_sorted_scalar: "wire_typed t j \<Longrightarrow> json_sorted j = j"
proof -
  have "json_sorted_list (map JStr ss) = map JStr ss" for ss by (induction ss) simp_all
  then show "wire_typed t j \<Longrightarrow> json_sorted j = j"
    by (auto simp: wire_typed_def split: ftype.splits)
qed

lemma json_sorted_items_id: "list_all (\<lambda>(k, v). json_sorted v = v) kvs \<Longrightarrow> json_sorted_items kvs = kvs"
  by (induction kvs) auto

lemma typed_row_values:
  assumes "typed_row fs kvs" "map fst kvs = map fst fs"
  shows "list_all (\<lambda>(k, v). json_sorted v = v \<and> wf_json v) kvs"
proof -
  have "json_sorted v = v \<and> wf_json v" if kv: "(k, v) \<in> set kvs" for k v
  proof -
    from kv have "k \<in> set (map fst fs)" using assms(2) by (metis fst_conv image_eqI list.set_map)
    then obtain t dflt where "(k, t, dflt) \<in> set fs" by auto
    with assms(1) obtain j where j: "map_of kvs k = Some j" "wire_typed t j"
      by (fastforce simp: typed_row_def list_all_iff)
    with kv assms(1) have "v = j" by (simp add: typed_row_def wf_dict_def)
    with j show ?thesis using wire_typed_wf json_sorted_scalar by blast
  qed
  then show ?thesis by (auto simp: list_all_iff)
qed

lemma map_of_sort_key: "wf_dict kvs \<Longrightarrow> map_of (sort_key fst kvs) = map_of kvs"
  by (subst map_of_inject_set) (simp_all add: wf_dict_def distinct_map_sort_key)

lemma typed_row_cong: "map_of row = map_of row' \<Longrightarrow> wf_dict row' \<Longrightarrow> typed_row fs row \<Longrightarrow> typed_row fs row'"
  by (simp add: typed_row_def) (metis dom_map_of_conv_image_fst)

lemma typed_row_absent: "typed_row fs row \<Longrightarrow> k \<notin> fst ` set fs \<Longrightarrow> map_of row k = None"
  by (auto simp: typed_row_def map_of_eq_None_iff)

lemma validated_payload_dump:
  assumes "validated_payload ty payload = Ok s"
  obtains t kvs where "event_type_of_str ty = Some t" "model_dump (event_model t) payload = Ok kvs"
    "typed_row (event_model t) kvs" "loads s = Some (JObj (sort_key fst kvs))"
    "typed_row (event_model t) (sort_key fst kvs)"
    "map_of (sort_key fst kvs) = map_of kvs"
proof -
  from assms obtain t kvs where t: "event_type_of_str ty = Some t"
    and kvs: "model_dump (event_model t) payload = Ok kvs"
    and s: "canonical_json (py_of_json_items kvs) = Ok s"
    by (auto simp: validated_payload_def rbind_Ok_iff)
  note typed = model_dump_typed [OF kvs model_ok_event_model]
  then have vals: "list_all (\<lambda>(k, v). json_sorted v = v \<and> wf_json v) kvs"
    using typed_row_values by blast
  have wf: "wf_json (JObj kvs)"
    using typed vals by (auto simp: typed_row_def wf_json_items_iff list_all_iff)
  have srt: "json_sorted_items kvs = kvs"
    using vals by (intro json_sorted_items_id) (auto simp: list_all_iff)
  have "s = dumps_sorted (JObj kvs)"
    using s normalize_py_of_json(1) [OF wf, of "''$''"] by (simp add: canonical_json_def)
  then have loads: "loads s = Some (JObj (sort_key fst kvs))"
    using loads_dumps_sorted [OF wf] srt by simp
  have wfd: "wf_dict kvs" using typed by (simp add: typed_row_def)
  have mo: "map_of (sort_key fst kvs) = map_of kvs" by (rule map_of_sort_key [OF wfd])
  have "typed_row (event_model t) (sort_key fst kvs)"
    using typed_row_cong [OF mo [symmetric] _ typed(2)] wfd
    by (simp add: wf_dict_def distinct_map_sort_key)
  with that t kvs typed(2) loads mo show thesis by blast
qed

text \<open>The fields of a typed row, read the way the reducer reads them.\<close>

lemma typed_row_field:
  assumes "typed_row fs row" "(name, t, dflt) \<in> set fs"
  obtains j where "map_of row name = Some j" "wire_typed t j"
  using assms by (fastforce simp: typed_row_def list_all_iff)

lemma typed_row_str:
  assumes "typed_row fs row" "(name, t, dflt) \<in> set fs" "t \<in> {FSource, FStr, FPrice, FNoteKind}"
  obtains s where "map_of row name = Some (JStr s)"
proof -
  obtain j where j: "map_of row name = Some j" "wire_typed t j"
    by (rule typed_row_field [OF assms(1,2)])
  then have "\<exists>s. j = JStr s" using assms(3) by (auto simp: wire_typed_def)
  with j that show thesis by blast
qed

lemma typed_row_int:
  assumes "typed_row fs row" "(name, FMoney, dflt) \<in> set fs"
  obtains i where "map_of row name = Some (JInt i)"
proof -
  obtain j where "map_of row name = Some j" "wire_typed FMoney j"
    by (rule typed_row_field [OF assms])
  with that show thesis by (auto simp: wire_typed_def)
qed

lemma typed_row_bool:
  assumes "typed_row fs row" "(name, FBool, dflt) \<in> set fs"
  obtains b where "map_of row name = Some (JBool b)"
proof -
  obtain j where "map_of row name = Some j" "wire_typed FBool j"
    by (rule typed_row_field [OF assms])
  with that show thesis by (auto simp: wire_typed_def)
qed

lemma typed_row_price:
  assumes "typed_row fs row" "(name, FPrice, dflt) \<in> set fs"
  obtains d where "map_of row name = Some (JStr (dec_str d))" "is_finite d"
proof -
  obtain j where "map_of row name = Some j" "wire_typed FPrice j"
    by (rule typed_row_field [OF assms])
  with that show thesis by (auto simp: wire_typed_def)
qed

lemma rmap_dump_field:
  assumes "rmap (dump_field payload) fs = Ok kvs" "distinct (map fst fs)" "(name, t, dflt) \<in> set fs"
  shows "\<exists>j. map_of kvs name = Some j
     \<and> (case map_of payload name of Some v \<Rightarrow> dump_value t v = Some j | None \<Rightarrow> dflt = Some j)"
  using assms
proof (induction fs arbitrary: kvs)
  case (Cons f fs)
  then obtain kj kvs' where kj: "dump_field payload f = Ok kj" "kvs = kj # kvs'"
    "rmap (dump_field payload) fs = Ok kvs'"
    by (auto simp: rbind_Ok_iff)
  have fst: "fst kj = fst f"
    using kj(1) by (auto simp: dump_field_def split: prod.splits option.splits)
  show ?case
  proof (cases "f = (name, t, dflt)")
    case True
    then show ?thesis using kj by (auto simp: dump_field_def split: option.splits)
  next
    case False
    then have m: "(name, t, dflt) \<in> set fs" using Cons.prems(3) by simp
    then have "name \<in> set (map fst fs)" by force
    moreover have "fst f \<notin> set (map fst fs)" using Cons.prems(2) by simp
    ultimately have "name \<noteq> fst f" by metis
    then have "map_of kvs name = map_of kvs' name" using kj(2) fst by (cases kj) auto
    then show ?thesis using Cons.IH [OF kj(3) _ m] Cons.prems(2) by simp
  qed
qed simp

lemma model_dump_field:
  assumes "model_dump (event_model et) payload = Ok kvs" "(name, t, dflt) \<in> set (event_model et)"
  shows "\<exists>j. map_of kvs name = Some j
     \<and> (case map_of payload name of Some v \<Rightarrow> dump_value t v = Some j | None \<Rightarrow> dflt = Some j)"
proof -
  have "distinct (map fst (event_model et))" using model_ok_event_model by (simp add: model_ok_def)
  then show ?thesis
    using assms rmap_dump_field by (auto simp: model_dump_def rbind_Ok_iff)
qed

text \<open>The converse: a payload whose fields all dump, with no field outside the model, validates.\<close>

lemma rmap_dump_field_ok:
  assumes "\<forall>(name, t, dflt) \<in> set fs. case map_of payload name of
       Some v \<Rightarrow> dump_value t v \<noteq> None | None \<Rightarrow> dflt \<noteq> None"
  shows "is_ok (rmap (dump_field payload) fs)"
  using assms
  by (induction fs) (auto simp: is_ok_iff dump_field_def split: option.splits)

end
