(* ===== verification/Store.thy ===== *)
theory Store
  imports Events
begin

text \<open>
  The hash-chained ledger of \<open>ledger/store.py\<close>. The \<open>events\<close> table is the list of its rows in
  \<open>seq\<close> order, \<open>snapshots\<close> and \<open>meta\<close> are the two other tables, and \<open>inconsistent\<close> is the
  latch of the Python handle. SHA-256 is the parameter \<open>H\<close>. An operation returns its result
  together with the store after it; a raise inside the transaction rolls back, so the store
  is returned unchanged. The insert checks the table's own constraints (primary key on
  \<open>seq\<close>, \<open>idempotency_key\<close> and \<open>hash\<close> unique) and refuses with \<open>IntegrityError\<close>.
\<close>

section \<open>State\<close>

record ledger_row =
  r_seq :: int
  r_ts :: string
  r_source :: string
  r_cid :: string
  r_key :: string
  r_type :: string
  r_payload :: string
  r_prev :: string
  r_hash :: string

record store =
  events :: "ledger_row list"
  snapshots :: "(int \<times> string \<times> string) list"
  meta :: "(string, string) dict"
  inconsistent :: bool

record entry =
  x_ts :: string
  x_source :: string
  x_cid :: string
  x_key :: string
  x_type :: string
  x_payload :: "(string, pyval) dict"

record event =
  e_seq :: int
  e_ts :: string
  e_source :: string
  e_cid :: string
  e_key :: string
  e_type :: string
  e_payload :: json
  e_prev :: string
  e_hash :: string

definition GENESIS_PREV_HASH :: string where
  "GENESIS_PREV_HASH = replicate 64 CHR ''0''"

definition empty_store :: store where
  \<comment> \<open>a fresh handle on a database file that \<open>recreate_ledger_db\<close> removed\<close>
  "empty_store = \<lparr>events = [], snapshots = [], meta = [], inconsistent = False\<rparr>"

section \<open>Envelope and row hash\<close>

definition truthy :: "pyval option \<Rightarrow> bool" where
  "truthy v = (case v of None \<Rightarrow> False | Some PNone \<Rightarrow> False | Some (PBool b) \<Rightarrow> b
     | Some (PInt i) \<Rightarrow> i \<noteq> 0 | Some (PStr s) \<Rightarrow> s \<noteq> [] | Some (PList vs) \<Rightarrow> vs \<noteq> []
     | Some (PDict kvs) \<Rightarrow> kvs \<noteq> [] | Some (PDec (DFin s c e)) \<Rightarrow> c \<noteq> 0 | Some _ \<Rightarrow> True)"

definition assert_str :: "pyval option \<Rightarrow> string result" where
  "assert_str v = (case v of Some (PStr s) \<Rightarrow> Ok s | _ \<Rightarrow> Err AssertionError)"

definition check_envelope :: "(string, pyval) dict \<Rightarrow> entry result" where
  "check_envelope e =
     (let ts = map_of e ''ts_utc''; src = map_of e ''source''; cid = map_of e ''correlation_id'';
          key = map_of e ''idempotency_key''; ty = map_of e ''type''; payload = map_of e ''payload''
      in rbind (case src of Some (PList _) \<Rightarrow> Err (TypeError ''unhashable'')
                | Some (PDict _) \<Rightarrow> Err (TypeError ''unhashable'')
                | Some (PStr s) \<Rightarrow> rguard (s \<in> set event_sources) (ValueError ''source'')
                | _ \<Rightarrow> Err (ValueError ''source'')) (\<lambda>_.
         rbind (rguard (truthy ts \<and> truthy cid \<and> truthy key \<and> truthy ty)
                  (ValueError ''ts_utc, correlation_id, idempotency_key and type are required'')) (\<lambda>_.
         rbind (case payload of Some (PDict kvs) \<Rightarrow> Ok kvs
                | _ \<Rightarrow> Err (ValueError ''payload must be a mapping'')) (\<lambda>kvs.
         rbind (assert_str ts) (\<lambda>ts'.
         rbind (assert_str src) (\<lambda>src'.
         rbind (assert_str cid) (\<lambda>cid'.
         rbind (assert_str key) (\<lambda>key'.
         rbind (assert_str ty) (\<lambda>ty'.
           Ok \<lparr>x_ts = ts', x_source = src', x_cid = cid', x_key = key', x_type = ty',
               x_payload = kvs\<rparr>)))))))))"

definition envelope :: "entry \<Rightarrow> (string, pyval) dict" where
  "envelope x = [(''ts_utc'', PStr (x_ts x)), (''source'', PStr (x_source x)),
     (''correlation_id'', PStr (x_cid x)), (''idempotency_key'', PStr (x_key x)),
     (''type'', PStr (x_type x)), (''payload'', PDict (x_payload x))]"

definition row_body :: "string \<Rightarrow> int \<Rightarrow> entry \<Rightarrow> string \<Rightarrow> (string, pyval) dict" where
  "row_body prev sq x payload_json =
     [(''correlation_id'', PStr (x_cid x)), (''idempotency_key'', PStr (x_key x)),
      (''payload_json'', PStr payload_json), (''prev_hash'', PStr prev), (''seq'', PInt sq),
      (''source'', PStr (x_source x)), (''ts_utc'', PStr (x_ts x)), (''type'', PStr (x_type x))]"

definition row_hash :: "(string \<Rightarrow> string) \<Rightarrow> string \<Rightarrow> int \<Rightarrow> entry \<Rightarrow> string \<Rightarrow> string result" where
  "row_hash H prev sq x payload_json =
     rbind (canonical_json (row_body prev sq x payload_json)) (\<lambda>body. Ok (H body))"

section \<open>Writing\<close>

definition head_of :: "ledger_row list \<Rightarrow> int \<times> string" where
  \<comment> \<open>the next \<open>seq\<close> and the hash it chains to\<close>
  "head_of rows = (case rows of [] \<Rightarrow> (1, GENESIS_PREV_HASH)
     | _ \<Rightarrow> (r_seq (last rows) + 1, r_hash (last rows)))"

definition insert_row :: "ledger_row \<Rightarrow> ledger_row list \<Rightarrow> ledger_row list result" where
  "insert_row r rows =
     (if r_seq r \<in> set (map r_seq rows) then Err (IntegrityError ''events.seq'')
      else if r_key r \<in> set (map r_key rows) then Err (IntegrityError ''events.idempotency_key'')
      else if r_hash r \<in> set (map r_hash rows) then Err (IntegrityError ''events.hash'')
      else Ok (rows @ [r]))"

definition stored_row :: "int \<Rightarrow> string \<Rightarrow> entry \<Rightarrow> string \<Rightarrow> string \<Rightarrow> ledger_row" where
  "stored_row sq prev x payload_json h =
     \<lparr>r_seq = sq, r_ts = x_ts x, r_source = x_source x, r_cid = x_cid x, r_key = x_key x,
      r_type = x_type x, r_payload = payload_json, r_prev = prev, r_hash = h\<rparr>"

definition append :: "(string \<Rightarrow> string) \<Rightarrow> store \<Rightarrow> entry \<Rightarrow> ledger_row result \<times> store" where
  "append H st x =
     (if inconsistent st
      then (Err (LedgerInconsistent 0 ''ledger is INCONSISTENT: appends refused''), st)
      else case
        rbind (check_envelope (envelope x)) (\<lambda>_.
        rbind (validated_payload (x_type x) (x_payload x)) (\<lambda>pj.
        let (sq, prev) = head_of (events st) in
        rbind (row_hash H prev sq x pj) (\<lambda>h.
        let r = stored_row sq prev x pj h in
        rbind (insert_row r (events st)) (\<lambda>rows. Ok (r, rows)))))
      of Inl e \<Rightarrow> (Err e, st)
       | Inr (r, rows) \<Rightarrow> (Ok r, st\<lparr>events := rows\<rparr>))"

fun batch_rows :: "(string \<Rightarrow> string) \<Rightarrow> int \<Rightarrow> string \<Rightarrow> (string, pyval) dict list
    \<Rightarrow> ledger_row list \<Rightarrow> (ledger_row list \<times> ledger_row list) result" where
  "batch_rows H sq prev [] rows = Ok ([], rows)"
| "batch_rows H sq prev (e # es) rows =
     rbind (check_envelope e) (\<lambda>x.
     rbind (validated_payload (x_type x) (x_payload x)) (\<lambda>pj.
     rbind (row_hash H prev sq x pj) (\<lambda>h.
     let r = stored_row sq prev x pj h in
     rbind (insert_row r rows) (\<lambda>rows'.
     rbind (batch_rows H (sq + 1) h es rows') (\<lambda>(stored, rows'').
       Ok (r # stored, rows''))))))"

definition append_batch ::
  "(string \<Rightarrow> string) \<Rightarrow> store \<Rightarrow> (string, pyval) dict list \<Rightarrow> ledger_row list result \<times> store" where
  "append_batch H st pending =
     (if pending = [] then (Ok [], st)
      else if inconsistent st
      then (Err (LedgerInconsistent 0 ''ledger is INCONSISTENT: appends refused''), st)
      else let (sq, prev) = head_of (events st) in
        case batch_rows H sq prev pending (events st) of
          Inl e \<Rightarrow> (Err e, st)
        | Inr (stored, rows) \<Rightarrow> (Ok stored, st\<lparr>events := rows\<rparr>))"

section \<open>Verification\<close>

definition row_entry :: "ledger_row \<Rightarrow> entry" where
  \<comment> \<open>the envelope columns of a stored row (the payload is hashed as text)\<close>
  "row_entry r = \<lparr>x_ts = r_ts r, x_source = r_source r, x_cid = r_cid r, x_key = r_key r,
     x_type = r_type r, x_payload = []\<rparr>"

fun verify_rows :: "(string \<Rightarrow> string) \<Rightarrow> string \<Rightarrow> ledger_row list \<Rightarrow> unit result" where
  "verify_rows H expected [] = Ok ()"
| "verify_rows H expected (r # rs) =
     (if r_prev r \<noteq> expected then Err (LedgerInconsistent (r_seq r) ''prev_hash does not chain'')
      else rbind (row_hash H (r_prev r) (r_seq r) (row_entry r) (r_payload r)) (\<lambda>h.
        if h \<noteq> r_hash r then Err (LedgerInconsistent (r_seq r) ''hash mismatch'')
        else verify_rows H (r_hash r) rs))"

definition verify :: "(string \<Rightarrow> string) \<Rightarrow> store \<Rightarrow> bool result \<times> store" where
  "verify H st = (case verify_rows H GENESIS_PREV_HASH (events st) of
       Inl e \<Rightarrow> (Err e, st\<lparr>inconsistent := True\<rparr>)
     | Inr _ \<Rightarrow> (Ok True, st\<lparr>inconsistent := False\<rparr>))"

section \<open>Reading\<close>

definition row_event :: "ledger_row \<Rightarrow> event result" where
  "row_event r = rbind (of_option (ValueError ''JSONDecodeError'') (loads (r_payload r))) (\<lambda>p.
     Ok \<lparr>e_seq = r_seq r, e_ts = r_ts r, e_source = r_source r, e_cid = r_cid r, e_key = r_key r,
         e_type = r_type r, e_payload = p, e_prev = r_prev r, e_hash = r_hash r\<rparr>)"

definition ticket_passes :: "string option \<Rightarrow> event \<Rightarrow> bool result" where
  "ticket_passes ticket e = (case ticket of None \<Rightarrow> Ok True
     | Some t \<Rightarrow> (case e_payload e of
          JObj kvs \<Rightarrow> Ok (map_of kvs ''ticket_id'' = Some (JStr t))
        | _ \<Rightarrow> Err (TypeError ''payload.get'')))"

definition sql_limit :: "int option \<Rightarrow> 'a list \<Rightarrow> 'a list" where
  \<comment> \<open>no LIMIT clause, or SQLite's: a negative limit is none\<close>
  "sql_limit limit xs = (case limit of None \<Rightarrow> xs | Some n \<Rightarrow> if n < 0 then xs else take (nat n) xs)"

definition read_where :: "int \<Rightarrow> string list \<Rightarrow> string option \<Rightarrow> ledger_row \<Rightarrow> bool" where
  "read_where since_seq types src r \<longleftrightarrow>
     r_seq r \<ge> since_seq \<and> (case src of None \<Rightarrow> True | Some s \<Rightarrow> r_source r = s)
     \<and> (types = [] \<or> r_type r \<in> set types)"

definition read :: "store \<Rightarrow> int \<Rightarrow> string list \<Rightarrow> string option \<Rightarrow> string option \<Rightarrow> int option
    \<Rightarrow> event list result" where
  "read st since_seq types ticket src limit =
     rbind (rmap (\<lambda>r. rbind (row_event r) (\<lambda>e.
                      rbind (ticket_passes ticket e) (\<lambda>b. Ok (if b then [e] else []))))
              (sql_limit limit (List.filter (read_where since_seq types src) (events st))))
       (\<lambda>ess. Ok (concat ess))"

definition by_key :: "store \<Rightarrow> string \<Rightarrow> event option result" where
  "by_key st key = (case List.filter (\<lambda>r. r_key r = key) (events st) of
       [] \<Rightarrow> Ok None
     | r # _ \<Rightarrow> rbind (row_event r) (\<lambda>e. Ok (Some e)))"

definition count :: "store \<Rightarrow> nat" where
  "count st = length (events st)"

section \<open>Meta and snapshots\<close>

definition get_meta :: "store \<Rightarrow> string \<Rightarrow> string option \<Rightarrow> string option" where
  "get_meta st key dflt = (case map_of (meta st) key of None \<Rightarrow> dflt | Some v \<Rightarrow> Some v)"

definition set_meta :: "store \<Rightarrow> string \<Rightarrow> string \<Rightarrow> store" where
  "set_meta st key value = st\<lparr>meta := dict_set (meta st) key value\<rparr>"

definition write_snapshot :: "store \<Rightarrow> int \<Rightarrow> string \<Rightarrow> (string, pyval) dict \<Rightarrow> unit result \<times> store" where
  "write_snapshot st sq ts state =
     (case canonical_json state of Inl e \<Rightarrow> (Err e, st)
      | Inr text \<Rightarrow>
          if sq \<in> set (map fst (snapshots st)) then (Err (IntegrityError ''snapshots.seq''), st)
          else (Ok (), st\<lparr>snapshots := insort_key fst (sq, ts, text) (snapshots st)\<rparr>))"

definition snapshot_body :: "int \<times> string \<times> string \<Rightarrow> (int \<times> string \<times> json) result" where
  "snapshot_body s = (case s of (sq, ts, text) \<Rightarrow>
     rbind (of_option (ValueError ''JSONDecodeError'') (loads text)) (\<lambda>j. Ok (sq, ts, j)))"

definition read_snapshots :: "store \<Rightarrow> (int \<times> string \<times> json) list result" where
  "read_snapshots st = rmap snapshot_body (snapshots st)"

definition latest_snapshot :: "store \<Rightarrow> (int \<times> string \<times> json) option result" where
  "latest_snapshot st = (case snapshots st of [] \<Rightarrow> Ok None
     | ss \<Rightarrow> rbind (snapshot_body (last ss)) (\<lambda>b. Ok (Some b)))"

section \<open>The hashed text\<close>

definition row_text :: "string \<Rightarrow> int \<Rightarrow> entry \<Rightarrow> string \<Rightarrow> string" where
  "row_text prev sq x payload_json = dumps_sorted (JObj
     [(''correlation_id'', JStr (x_cid x)), (''idempotency_key'', JStr (x_key x)),
      (''payload_json'', JStr payload_json), (''prev_hash'', JStr prev), (''seq'', JInt sq),
      (''source'', JStr (x_source x)), (''ts_utc'', JStr (x_ts x)), (''type'', JStr (x_type x))])"

abbreviation text_of_row :: "ledger_row \<Rightarrow> string" where
  "text_of_row r \<equiv> row_text (r_prev r) (r_seq r) (row_entry r) (r_payload r)"

lemma row_hash_eq: "row_hash H prev sq x pj = Ok (H (row_text prev sq x pj))"
  by (simp add: row_hash_def row_body_def row_text_def canonical_json_def)

lemma sorted_obj_map_of:
  assumes "json_sorted (JObj xs) = json_sorted (JObj ys)" "wf_dict xs" "wf_dict ys"
  shows "map_of (json_sorted_items xs) = map_of (json_sorted_items ys)"
proof -
  have "wf_dict (json_sorted_items zs) = wf_dict zs" for zs
    by (simp add: wf_dict_def json_sorted_items_props)
  then show ?thesis
    using assms map_of_sort_key [of "json_sorted_items xs"] map_of_sort_key [of "json_sorted_items ys"]
    by simp
qed

lemma row_text_inject:
  assumes "row_text prev sq x pj = row_text prev' sq' x' pj'"
  shows "prev = prev' \<and> sq = sq' \<and> pj = pj' \<and> x_ts x = x_ts x' \<and> x_source x = x_source x'
    \<and> x_cid x = x_cid x' \<and> x_key x = x_key x' \<and> x_type x = x_type x'"
proof -
  define body where "body = (\<lambda>prev sq x pj.
     [(''correlation_id'', JStr (x_cid x)), (''idempotency_key'', JStr (x_key x)),
      (''payload_json'', JStr pj), (''prev_hash'', JStr prev), (''seq'', JInt sq),
      (''source'', JStr (x_source x)), (''ts_utc'', JStr (x_ts x)), (''type'', JStr (x_type (x :: entry)))])"
  have wf: "wf_dict (body p q y j)" "wf_json (JObj (body p q y j))" for p q y j
    by (simp_all add: body_def wf_dict_def)
  have s: "json_sorted_items (body p q y j) = body p q y j" for p q y j
    by (simp add: body_def)
  have "dumps_sorted (JObj (body prev sq x pj)) = dumps_sorted (JObj (body prev' sq' x' pj'))"
    using assms by (simp add: row_text_def body_def)
  then have "json_sorted (JObj (body prev sq x pj)) = json_sorted (JObj (body prev' sq' x' pj'))"
    using dumps_sorted_inject wf(2) by blast
  then have m: "map_of (body prev sq x pj) k = map_of (body prev' sq' x' pj') k" for k
    using sorted_obj_map_of [OF _ wf(1) wf(1)] s by metis
  show ?thesis
    using m [of "''correlation_id''"] m [of "''idempotency_key''"] m [of "''payload_json''"]
      m [of "''prev_hash''"] m [of "''seq''"] m [of "''source''"] m [of "''ts_utc''"] m [of "''type''"]
    by (simp add: body_def)
qed

lemma text_of_row_inject:
  assumes "text_of_row r = text_of_row r'" "r_hash r = r_hash r'"
  shows "r = r'"
  using row_text_inject [OF assms(1)] assms(2) by (simp add: row_entry_def)

section \<open>Appending\<close>

lemma envelope_ok: "check_envelope e = Ok x \<Longrightarrow> check_envelope (envelope x) = Ok x"
  by (auto simp: check_envelope_def envelope_def rbind_Ok_iff assert_str_def truthy_def Let_def
      split: option.splits pyval.splits if_splits)

lemma append_Ok:
  assumes "append H st x = (Ok r, st')"
  obtains pj where "\<not> inconsistent st" "\<exists>y. check_envelope (envelope x) = Ok y"
    "validated_payload (x_type x) (x_payload x) = Ok pj"
    "r = stored_row (fst (head_of (events st))) (snd (head_of (events st))) x pj
       (H (row_text (snd (head_of (events st))) (fst (head_of (events st))) x pj))"
    "r_seq r \<notin> r_seq ` set (events st)" "r_key r \<notin> r_key ` set (events st)"
    "r_hash r \<notin> r_hash ` set (events st)"
    "st' = st\<lparr>events := events st @ [r]\<rparr>"
  using assms
  by (auto simp: append_def insert_row_def Let_def row_hash_eq rbind_def
      split: if_splits sum.splits prod.splits)

lemma append_Err: "append H st x = (Err e, st') \<Longrightarrow> st' = st"
  by (auto simp: append_def split: if_splits sum.splits prod.splits)

lemma verify_rows_append:
  "verify_rows H p (xs @ ys)
   = rbind (verify_rows H p xs) (\<lambda>_. verify_rows H (if xs = [] then p else r_hash (last xs)) ys)"
  by (induction xs arbitrary: p) (auto simp: rbind_assoc row_hash_eq)

definition seqs_ok :: "ledger_row list \<Rightarrow> bool" where
  "seqs_ok rows \<longleftrightarrow> map r_seq rows = map int [1..<Suc (length rows)]"

definition row_valid :: "ledger_row \<Rightarrow> bool" where
  "row_valid r \<longleftrightarrow> r_source r \<in> set event_sources
     \<and> (\<exists>payload. validated_payload (r_type r) payload = Ok (r_payload r))"

definition rows_ok :: "(string \<Rightarrow> string) \<Rightarrow> ledger_row list \<Rightarrow> bool" where
  "rows_ok H rows \<longleftrightarrow> seqs_ok rows \<and> distinct (map r_key rows) \<and> distinct (map r_hash rows)
     \<and> (\<forall>r \<in> set rows. row_valid r) \<and> verify_rows H GENESIS_PREV_HASH rows = Ok ()"

definition store_ok :: "(string \<Rightarrow> string) \<Rightarrow> store \<Rightarrow> bool" where
  "store_ok H st \<longleftrightarrow> rows_ok H (events st) \<and> sorted_wrt (<) (map fst (snapshots st)) \<and> wf_dict (meta st)"

lemma seqs_ok_snoc: "seqs_ok (rows @ [r]) \<longleftrightarrow> seqs_ok rows \<and> r_seq r = int (length rows) + 1"
  by (auto simp: seqs_ok_def)

lemma head_of_simps [simp]:
  "head_of [] = (1, GENESIS_PREV_HASH)"
  "head_of (rows @ [r]) = (r_seq r + 1, r_hash r)"
  by (simp_all add: head_of_def) (cases rows; simp)

lemma head_of_seq: "seqs_ok rows \<Longrightarrow> fst (head_of rows) = int (length rows) + 1"
  by (cases rows rule: rev_cases) (auto simp: seqs_ok_snoc)

lemma check_envelope_source:
  "check_envelope (envelope x) = Ok y \<Longrightarrow> x_source x \<in> set event_sources"
  by (auto simp: check_envelope_def envelope_def rbind_Ok_iff Let_def)

lemma rows_ok_insert:
  assumes ok: "rows_ok H rows" and h: "head_of rows = (sq, prev)"
    and pj: "validated_payload (x_type x) (x_payload x) = Ok pj" and src: "x_source x \<in> set event_sources"
    and ins: "insert_row (stored_row sq prev x pj (H (row_text prev sq x pj))) rows = Ok rows'"
  shows "rows_ok H rows'"
proof -
  let ?r = "stored_row sq prev x pj (H (row_text prev sq x pj))"
  have rows': "rows' = rows @ [?r]" and fresh: "r_key ?r \<notin> r_key ` set rows" "r_hash ?r \<notin> r_hash ` set rows"
    using ins by (auto simp: insert_row_def split: if_splits)
  have "sq = int (length rows) + 1"
    using head_of_seq [of rows] ok h by (simp add: rows_ok_def)
  moreover have "row_valid ?r"
    using pj src by (auto simp: row_valid_def stored_row_def)
  moreover have "verify_rows H (if rows = [] then GENESIS_PREV_HASH else r_hash (last rows)) [?r] = Ok ()"
    using h by (cases rows)
      (auto simp: head_of_def row_hash_eq row_entry_def stored_row_def row_text_def)
  ultimately show ?thesis
    using ok fresh by (simp add: rows' rows_ok_def seqs_ok_snoc verify_rows_append)
      (simp add: stored_row_def)
qed

lemma append_store_ok:
  assumes "store_ok H st" "append H st x = (res, st')"
  shows "store_ok H st'"
proof (cases res)
  case (Inl e)
  then show ?thesis using assms append_Err by blast
next
  case (Inr r)
  with assms(2) obtain pj where a: "\<exists>y. check_envelope (envelope x) = Ok y"
    "validated_payload (x_type x) (x_payload x) = Ok pj"
    "r = stored_row (fst (head_of (events st))) (snd (head_of (events st))) x pj
       (H (row_text (snd (head_of (events st))) (fst (head_of (events st))) x pj))"
    "r_seq r \<notin> r_seq ` set (events st)" "r_key r \<notin> r_key ` set (events st)"
    "r_hash r \<notin> r_hash ` set (events st)" "st' = st\<lparr>events := events st @ [r]\<rparr>"
    by (auto elim: append_Ok)
  have "insert_row r (events st) = Ok (events st @ [r])"
    using a by (simp add: insert_row_def)
  then have "rows_ok H (events st @ [r])"
    using rows_ok_insert [of H "events st" _ _ x pj] assms(1) a check_envelope_source
    by (metis prod.collapse store_ok_def)
  then show ?thesis using assms(1) a(7) by (simp add: store_ok_def)
qed

section \<open>Batches\<close>

fun append_all ::
  "(string \<Rightarrow> string) \<Rightarrow> store \<Rightarrow> (string, pyval) dict list \<Rightarrow> (ledger_row list \<times> store) result" where
  \<comment> \<open>the reference: one append per row, stopping at the first error\<close>
  "append_all H st [] = Ok ([], st)"
| "append_all H st (e # es) =
     rbind (check_envelope e) (\<lambda>x. case append H st x of
         (Inl err, _) \<Rightarrow> Err err
       | (Inr r, st') \<Rightarrow> rbind (append_all H st' es) (\<lambda>(rs, st''). Ok (r # rs, st'')))"

lemma batch_rows_append_all:
  assumes "\<not> inconsistent st" "head_of (events st) = (sq, prev)"
  shows "append_all H st es = rbind (batch_rows H sq prev es (events st))
           (\<lambda>(rs, rows). Ok (rs, st\<lparr>events := rows\<rparr>))"
  using assms
proof (induction es arbitrary: st sq prev)
  case (Cons e es)
  show ?case
  proof (cases "check_envelope e")
    case (Inr x)
    then have env: "check_envelope (envelope x) = Ok x" by (rule envelope_ok)
    show ?thesis
    proof (cases "validated_payload (x_type x) (x_payload x)")
      case (Inl err)
      then show ?thesis using Cons.prems Inr env by (simp add: append_def)
    next
      case pj: (Inr pj)
      let ?r = "stored_row sq prev x pj (H (row_text prev sq x pj))"
      show ?thesis
      proof (cases "insert_row ?r (events st)")
        case (Inl err)
        then show ?thesis using Cons.prems Inr env pj by (simp add: append_def row_hash_eq)
      next
        case rows: (Inr rows)
        then have "rows = events st @ [?r]" by (auto simp: insert_row_def split: if_splits)
        then have h: "head_of (events (st\<lparr>events := rows\<rparr>)) = (sq + 1, H (row_text prev sq x pj))"
          by (simp) (simp add: stored_row_def)
        have "append H st x = (Ok ?r, st\<lparr>events := rows\<rparr>)"
          using Cons.prems Inr env pj rows by (simp add: append_def row_hash_eq)
        then show ?thesis
          using Cons.IH [OF _ h] Cons.prems Inr pj rows
          by (simp add: row_hash_eq rbind_assoc case_prod_beta)
      qed
    qed
  qed simp
qed simp

lemma append_batch_sequential:
  assumes "\<not> inconsistent st"
  shows "append_batch H st es = (case append_all H st es of
     Inl e \<Rightarrow> (Err e, st) | Inr (rs, st') \<Rightarrow> (Ok rs, st'))"
proof -
  obtain sq prev where h: "head_of (events st) = (sq, prev)" by force
  show ?thesis
    using assms batch_rows_append_all [OF assms h, of H es] h
    by (cases "batch_rows H sq prev es (events st)") (auto simp: append_batch_def)
qed

lemma append_all_store_ok:
  "append_all H st es = Ok (rs, st') \<Longrightarrow> store_ok H st
     \<Longrightarrow> store_ok H st' \<and> events st' = events st @ rs \<and> length rs = length es"
proof (induction es arbitrary: st rs)
  case (Cons e es)
  from Cons.prems(1) obtain x where
    "(case append H st x of (Inl err, _) \<Rightarrow> Err err
       | (Inr r, st') \<Rightarrow> rbind (append_all H st' es) (\<lambda>(rs, st''). Ok (r # rs, st''))) = Ok (rs, st')"
    by (auto simp: rbind_Ok_iff [of "check_envelope e"])
  then obtain r st1 rs1 where a: "append H st x = (Ok r, st1)"
    "append_all H st1 es = Ok (rs1, st')" "rs = r # rs1"
    by (cases "append H st x"; cases "fst (append H st x)") (auto simp: rbind_Ok_iff)
  have "events st1 = events st @ [r]" using a(1) by (elim append_Ok) simp
  then show ?case using Cons a append_store_ok by fastforce
qed simp

lemma append_batch_store_ok:
  assumes "store_ok H st" "append_batch H st es = (res, st')"
  shows "store_ok H st'"
proof (cases "inconsistent st")
  case True
  then show ?thesis using assms by (auto simp: append_batch_def split: if_splits)
next
  case False
  then show ?thesis using assms append_all_store_ok append_batch_sequential [OF False, of H es]
    by (auto split: sum.splits prod.splits)
qed

section \<open>The chain\<close>

lemma verify_rows_Ok_Cons:
  "verify_rows H p (r # rs) = Ok u \<longleftrightarrow>
     r_prev r = p \<and> H (text_of_row r) = r_hash r \<and> verify_rows H (r_hash r) rs = Ok u"
  by (auto simp: row_hash_eq)

lemma verify_rows_Ok_snoc:
  "verify_rows H p (rs @ [r]) = Ok u \<longleftrightarrow>
     verify_rows H p rs = Ok u \<and> r_prev r = (if rs = [] then p else r_hash (last rs))
       \<and> H (text_of_row r) = r_hash r"
  by (cases "verify_rows H p rs") (auto simp: verify_rows_append row_hash_eq)

definition hash_clash :: "(string \<Rightarrow> string) \<Rightarrow> ledger_row list \<Rightarrow> ledger_row list \<Rightarrow> bool" where
  \<comment> \<open>two different texts of the two chains with one digest, or a text whose digest is the genesis\<close>
  "hash_clash H xs ys \<longleftrightarrow>
     (\<exists>x \<in> set xs. \<exists>y \<in> set ys. text_of_row x \<noteq> text_of_row y \<and> H (text_of_row x) = H (text_of_row y))
     \<or> (\<exists>z \<in> set xs \<union> set ys. H (text_of_row z) = GENESIS_PREV_HASH)"

lemma hash_clash_mono:
  "hash_clash H xs ys \<Longrightarrow> set xs \<subseteq> set xs' \<Longrightarrow> set ys \<subseteq> set ys' \<Longrightarrow> hash_clash H xs' ys'"
  by (fastforce simp: hash_clash_def)

definition chain_head :: "ledger_row list \<Rightarrow> string" where
  "chain_head rows = snd (head_of rows)"

lemma chain_head_simps [simp]:
  "chain_head [] = GENESIS_PREV_HASH" "chain_head (rows @ [r]) = r_hash r"
  by (simp_all add: chain_head_def)

lemma chain_head_eq: "chain_head rs = (if rs = [] then GENESIS_PREV_HASH else r_hash (last rs))"
  by (cases rs rule: rev_cases) simp_all

lemma verify_rows_snoc_head:
  "verify_rows H GENESIS_PREV_HASH (rs @ [r]) = Ok u \<longleftrightarrow>
     verify_rows H GENESIS_PREV_HASH rs = Ok u \<and> r_prev r = chain_head rs \<and> H (text_of_row r) = r_hash r"
  by (simp add: verify_rows_Ok_snoc chain_head_eq)

lemma chains_equal_or_clash:
  assumes "verify_rows H GENESIS_PREV_HASH xs = Ok ()" "verify_rows H GENESIS_PREV_HASH ys = Ok ()"
    and "chain_head xs = chain_head ys"
  shows "xs = ys \<or> hash_clash H xs ys"
  using assms
proof (induction xs arbitrary: ys rule: rev_induct)
  case Nil
  then show ?case
    by (cases ys rule: rev_cases) (auto simp: hash_clash_def verify_rows_snoc_head)
next
  case (snoc x xs)
  show ?case
  proof (cases ys rule: rev_cases)
    case Nil
    then show ?thesis using snoc.prems by (auto simp: hash_clash_def verify_rows_snoc_head)
  next
    case (snoc ys' y)
    note x = snoc.prems(1) [unfolded verify_rows_snoc_head]
    note y = snoc.prems(2) [unfolded snoc verify_rows_snoc_head]
    have h: "r_hash x = r_hash y" using snoc.prems(3) snoc by simp
    show ?thesis
    proof (cases "text_of_row x = text_of_row y")
      case False
      then show ?thesis using x y h snoc by (auto simp: hash_clash_def)
    next
      case True
      then have "x = y" using text_of_row_inject h by blast
      then have "chain_head xs = chain_head ys'" using x y by simp
      then have "xs = ys' \<or> hash_clash H xs ys'"
        using snoc.IH x y by blast
      then show ?thesis
        using \<open>x = y\<close> snoc hash_clash_mono [of H xs ys' "xs @ [x]" ys] by auto
    qed
  qed
qed

section \<open>Reading what was written\<close>

definition event_of :: "ledger_row \<Rightarrow> json \<Rightarrow> event" where
  "event_of r p = \<lparr>e_seq = r_seq r, e_ts = r_ts r, e_source = r_source r, e_cid = r_cid r,
     e_key = r_key r, e_type = r_type r, e_payload = p, e_prev = r_prev r, e_hash = r_hash r\<rparr>"

definition typed_event :: "event \<Rightarrow> bool" where
  "typed_event e \<longleftrightarrow> (\<exists>t row. event_type_of_str (e_type e) = Some t \<and> e_payload e = JObj row
     \<and> typed_row (event_model t) row)"

lemma row_event_eq: "row_event r = rbind (of_option (ValueError ''JSONDecodeError'') (loads (r_payload r)))
    (\<lambda>p. Ok (event_of r p))"
  by (simp add: row_event_def event_of_def)

lemma row_valid_event:
  assumes "row_valid r"
  obtains p where "loads (r_payload r) = Some p" "row_event r = Ok (event_of r p)" "typed_event (event_of r p)"
proof -
  from assms obtain payload where "validated_payload (r_type r) payload = Ok (r_payload r)"
    by (auto simp: row_valid_def)
  then obtain t kvs where "event_type_of_str (r_type r) = Some t"
    "loads (r_payload r) = Some (JObj (sort_key fst kvs))" "typed_row (event_model t) (sort_key fst kvs)"
    by (rule validated_payload_dump)
  with that show thesis by (simp add: row_event_eq typed_event_def event_of_def of_option_def)
qed

lemma rmap_Ok_I: "(\<And>x. x \<in> set xs \<Longrightarrow> f x = Ok (g x)) \<Longrightarrow> rmap f xs = Ok (map g xs)"
  by (induction xs) auto

definition parsed :: "ledger_row \<Rightarrow> event" where
  \<comment> \<open>the event of a valid row\<close>
  "parsed r = event_of r (case loads (r_payload r) of Some p \<Rightarrow> p | None \<Rightarrow> JNull)"

lemma row_event_parsed: "row_valid r \<Longrightarrow> row_event r = Ok (parsed r)"
  by (erule row_valid_event) (simp add: parsed_def)

lemma typed_parsed: "row_valid r \<Longrightarrow> typed_event (parsed r)"
  by (erule row_valid_event) (simp add: parsed_def)

lemma parsed_simps [simp]:
  "e_seq (parsed r) = r_seq r" "e_ts (parsed r) = r_ts r" "e_source (parsed r) = r_source r"
  "e_cid (parsed r) = r_cid r" "e_key (parsed r) = r_key r" "e_type (parsed r) = r_type r"
  by (simp_all add: parsed_def event_of_def)

definition has_ticket :: "string \<Rightarrow> event \<Rightarrow> bool" where
  "has_ticket t e = (case e_payload e of JObj kvs \<Rightarrow> map_of kvs ''ticket_id'' = Some (JStr t) | _ \<Rightarrow> False)"

definition ticket_sel :: "string option \<Rightarrow> event \<Rightarrow> bool" where
  "ticket_sel ticket e = (case ticket of None \<Rightarrow> True | Some t \<Rightarrow> has_ticket t e)"

lemma ticket_passes_typed: "typed_event e \<Longrightarrow> ticket_passes ticket e = Ok (ticket_sel ticket e)"
  by (auto simp: typed_event_def ticket_passes_def ticket_sel_def has_ticket_def split: option.splits)

lemma concat_singletons: "concat (map (\<lambda>r. if P (f r) then [f r] else []) xs) = List.filter P (map f xs)"
  by (induction xs) auto

lemma sql_limit_subset: "set (sql_limit n xs) \<subseteq> set xs"
  by (auto simp: sql_limit_def split: option.splits dest: in_set_takeD)

lemma read_valid:
  assumes "\<forall>r \<in> set (events st). row_valid r"
  shows "read st since types ticket src limit
    = Ok (List.filter (ticket_sel ticket)
        (map parsed (sql_limit limit (List.filter (read_where since types src) (events st)))))"
proof -
  let ?rows = "sql_limit limit (List.filter (read_where since types src) (events st))"
  have "rmap (\<lambda>r. rbind (row_event r) (\<lambda>e. rbind (ticket_passes ticket e) (\<lambda>b. Ok (if b then [e] else [])))) ?rows
      = Ok (map (\<lambda>r. if ticket_sel ticket (parsed r) then [parsed r] else []) ?rows)"
  proof (rule rmap_Ok_I)
    fix r assume "r \<in> set ?rows"
    then have "row_valid r" using assms sql_limit_subset by fastforce
    then show "rbind (row_event r) (\<lambda>e. rbind (ticket_passes ticket e) (\<lambda>b. Ok (if b then [e] else [])))
        = Ok (if ticket_sel ticket (parsed r) then [parsed r] else [])"
      by (simp add: row_event_parsed ticket_passes_typed typed_parsed)
  qed
  then show ?thesis by (simp add: read_def concat_singletons)
qed

lemma by_key_valid:
  assumes "\<forall>r \<in> set (events st). row_valid r"
  shows "by_key st key = Ok (map_option parsed (List.find (\<lambda>r. r_key r = key) (events st)))"
proof (cases "List.filter (\<lambda>r. r_key r = key) (events st)")
  case Nil
  then have "List.find (\<lambda>r. r_key r = key) (events st) = None"
    by (auto simp: find_None_iff filter_empty_conv)
  then show ?thesis using Nil by (simp add: by_key_def)
next
  case (Cons r rs)
  have find: "List.find (\<lambda>r. r_key r = key) xs = Some y"
    if "List.filter (\<lambda>r. r_key r = key) xs = y # ys" for xs ys and y :: ledger_row
    using that by (induction xs) (auto split: if_splits)
  have "r \<in> set (List.filter (\<lambda>r. r_key r = key) (events st))" using Cons by simp
  then have "r \<in> set (events st)" by simp
  then show ?thesis using assms Cons find [OF Cons] by (simp add: by_key_def row_event_parsed)
qed

section \<open>The interface the other components use\<close>

text \<open>
  Every other component of the ledger writes through \<open>append\<close> and reads the rows back. What
  they rely on is the locale \<open>event_log\<close>: a successful write adds one row carrying the entry's
  columns, a refused one changes nothing, and a key is never written twice.
\<close>

locale event_log =
  fixes put :: "'s \<Rightarrow> entry \<Rightarrow> ledger_row result \<times> 's"
    and log :: "'s \<Rightarrow> ledger_row list"
  assumes put_ok: "put s x = (Ok r, s') \<Longrightarrow>
      log s' = log s @ [r] \<and> r_key r = x_key x \<and> r_type r = x_type x \<and> r_ts r = x_ts x
        \<and> r_source r = x_source x \<and> r_cid r = x_cid x
        \<and> validated_payload (x_type x) (x_payload x) = Ok (r_payload r) \<and> x_key x \<notin> r_key ` set (log s)"
    and put_err: "put s x = (Err e, s') \<Longrightarrow> s' = s"
begin

lemma put_duplicate:
  assumes "x_key x \<in> r_key ` set (log s)"
  obtains e where "put s x = (Err e, s)"
  using assms put_ok [of s x] put_err [of s x] by (cases "put s x"; cases "fst (put s x)") auto

lemma put_prefix: "\<exists>rs. log (snd (put s x)) = log s @ rs"
  using put_ok [of s x] put_err [of s x] by (cases "put s x"; cases "fst (put s x)") fastforce+

lemma puts_prefix: "\<exists>rs. log (foldl (\<lambda>s x. snd (put s x)) s xs) = log s @ rs"
proof (induction xs arbitrary: s)
  case (Cons x xs)
  then show ?case using put_prefix [of s x] by (metis append.assoc foldl_Cons)
qed simp

lemma put_twice:
  assumes "put s x = (Ok r, s')" "x_key y = x_key x"
  obtains e where "put (foldl (\<lambda>s x. snd (put s x)) s' xs) y = (Err e, foldl (\<lambda>s x. snd (put s x)) s' xs)"
proof -
  obtain rs where "log (foldl (\<lambda>s x. snd (put s x)) s' xs) = (log s @ [r]) @ rs"
    using puts_prefix [of s' xs] put_ok [OF assms(1)] by metis
  then have "x_key y \<in> r_key ` set (log (foldl (\<lambda>s x. snd (put s x)) s' xs))"
    using put_ok [OF assms(1)] assms(2) by auto
  then show thesis using that put_duplicate by metis
qed

lemma puts_keys_distinct:
  "distinct (map r_key (log s)) \<Longrightarrow> distinct (map r_key (log (foldl (\<lambda>s x. snd (put s x)) s xs)))"
proof (induction xs arbitrary: s)
  case (Cons x xs)
  have "distinct (map r_key (log (snd (put s x))))"
    using put_ok [of s x] put_err [of s x] Cons.prems
    by (cases "put s x"; cases "fst (put s x)") fastforce+
  then show ?case using Cons.IH by simp
qed simp

end

interpretation ledger: event_log "append H" events for H
proof
  fix s x r s'
  assume "append H s x = (Ok r, s')"
  then show "events s' = events s @ [r] \<and> r_key r = x_key x \<and> r_type r = x_type x \<and> r_ts r = x_ts x
        \<and> r_source r = x_source x \<and> r_cid r = x_cid x
        \<and> validated_payload (x_type x) (x_payload x) = Ok (r_payload r) \<and> x_key x \<notin> r_key ` set (events s)"
    by (elim append_Ok) (simp add: stored_row_def)
next
  fix s x e s'
  assume "append H s x = (Err e, s')"
  then show "s' = s" by (rule append_Err)
qed

section \<open>Reachable stores\<close>

inductive store_step :: "(string \<Rightarrow> string) \<Rightarrow> store \<Rightarrow> store \<Rightarrow> bool" for H where
  step_append: "append H st x = (res, st') \<Longrightarrow> store_step H st st'"
| step_batch: "append_batch H st es = (res, st') \<Longrightarrow> store_step H st st'"
| step_verify: "verify H st = (res, st') \<Longrightarrow> store_step H st st'"
| step_meta: "set_meta st k v = st' \<Longrightarrow> store_step H st st'"
| step_snapshot: "write_snapshot st sq ts state = (res, st') \<Longrightarrow> store_step H st st'"

inductive_cases store_stepE: "store_step H st st'"

definition reachable :: "(string \<Rightarrow> string) \<Rightarrow> store \<Rightarrow> bool" where
  "reachable H st \<longleftrightarrow> (store_step H)\<^sup>*\<^sup>* empty_store st"

lemma sorted_wrt_insort_key:
  fixes xs :: "('a::linorder \<times> 'b) list"
  assumes "sorted_wrt (<) (map fst xs)" "fst x \<notin> set (map fst xs)"
  shows "sorted_wrt (<) (map fst (insort_key fst x xs))"
  using assms by (induction xs) (auto simp: set_insort_key order_less_le)

lemma verify_store:
  "verify H st = (res, st') \<Longrightarrow> events st' = events st \<and> snapshots st' = snapshots st \<and> meta st' = meta st"
  by (auto simp: verify_def split: sum.splits)

lemma append_batch_prefix: "append_batch H st es = (res, st') \<Longrightarrow>
    (\<exists>rs. events st' = events st @ rs) \<and> snapshots st' = snapshots st \<and> meta st' = meta st"
proof -
  have b: "\<exists>rs. rows' = rows @ rs" if "batch_rows H sq prev es rows = Ok (stored, rows')" for sq prev es rows stored rows'
    using that
  proof (induction es arbitrary: sq prev rows stored rows')
    case (Cons e es)
    then show ?case
      by (fastforce simp: rbind_Ok_iff Let_def insert_row_def split: if_splits prod.splits)
  qed simp
  assume "append_batch H st es = (res, st')"
  then show ?thesis
    by (auto simp: append_batch_def split: if_splits prod.splits sum.splits dest: b)
qed

lemma write_snapshot_store_ok:
  assumes "store_ok H st" "write_snapshot st sq ts state = (res, st')"
  shows "store_ok H st'"
  using assms sorted_wrt_insort_key
  by (auto simp: write_snapshot_def store_ok_def split: sum.splits if_splits)

lemma store_step_ok: "store_step H st st' \<Longrightarrow> store_ok H st \<Longrightarrow> store_ok H st'"
proof (erule store_stepE)
  fix sq ts state res
  assume "store_ok H st" "write_snapshot st sq ts state = (res, st')"
  then show "store_ok H st'" by (rule write_snapshot_store_ok)
next
  fix x res
  assume "store_ok H st" "append H st x = (res, st')"
  then show "store_ok H st'" by (rule append_store_ok)
next
  fix es res
  assume "store_ok H st" "append_batch H st es = (res, st')"
  then show "store_ok H st'" by (rule append_batch_store_ok)
next
  fix res
  assume "store_ok H st" "verify H st = (res, st')"
  then show "store_ok H st'" using verify_store by (simp add: store_ok_def)
next
  fix k v
  assume "store_ok H st" "set_meta st k v = st'"
  then show "store_ok H st'" by (auto simp: store_ok_def set_meta_def)
qed

lemma reachable_store_ok: "reachable H st \<Longrightarrow> store_ok H st"
  unfolding reachable_def
proof (induction rule: rtranclp_induct)
  case base
  show ?case by (simp add: store_ok_def rows_ok_def seqs_ok_def empty_store_def)
next
  case (step y z)
  then show ?case using store_step_ok by blast
qed

lemma store_step_prefix: "store_step H st st' \<Longrightarrow> \<exists>rs. events st' = events st @ rs"
proof (erule store_stepE)
  fix x res
  assume "append H st x = (res, st')"
  then show ?thesis using ledger.put_prefix [of H st x] by simp
next
  fix es res
  assume "append_batch H st es = (res, st')"
  then show ?thesis using append_batch_prefix by blast
qed (auto simp: set_meta_def write_snapshot_def dest: verify_store split: sum.splits if_splits)

lemma store_ok_valid: "store_ok H st \<Longrightarrow> \<forall>r \<in> set (events st). row_valid r"
  by (simp add: store_ok_def rows_ok_def)

lemma store_steps_prefix: "(store_step H)\<^sup>*\<^sup>* st st' \<Longrightarrow> \<exists>rs. events st' = events st @ rs"
proof (induction rule: rtranclp_induct)
  case (step y z)
  then show ?case using store_step_prefix by (metis append.assoc)
qed simp

lemma find_key_prefix:
  assumes "k \<notin> r_key ` set xs"
  shows "List.find (\<lambda>r. r_key r = k) (xs @ ys) = List.find (\<lambda>r. r_key r = k) ys"
  using assms by (induction xs) auto

lemma append_by_key:
  assumes "append H st x = (Ok r, st')" "events st'' = events st' @ rs"
    and "\<forall>r \<in> set (events st''). row_valid r"
  shows "by_key st'' (x_key x) = Ok (Some (parsed r))"
proof -
  have p: "events st' = events st @ [r]" "r_key r = x_key x" "x_key x \<notin> r_key ` set (events st)"
    using ledger.put_ok [OF assms(1)] by auto
  have "List.find (\<lambda>r. r_key r = x_key x) (events st'') = Some r"
    using find_key_prefix [OF p(3)] p assms(2) by simp
  then show ?thesis by (simp add: by_key_valid [OF assms(3)])
qed

definition payload_of :: "event_type \<Rightarrow> (string, pyval) dict \<Rightarrow> (string, json) dict \<Rightarrow> bool" where
  \<comment> \<open>the stored payload holds, field by field, the dump of what was handed in or the default\<close>
  "payload_of t payload kvs \<longleftrightarrow> (\<forall>(name, ty, dflt) \<in> set (event_model t).
     \<exists>j. map_of kvs name = Some j
       \<and> (case map_of payload name of Some v \<Rightarrow> dump_value ty v = Some j | None \<Rightarrow> dflt = Some j))"

lemma stored_payload:
  assumes "validated_payload (r_type r) payload = Ok (r_payload r)" "event_type_of_str (r_type r) = Some t"
  obtains kvs where "e_payload (parsed r) = JObj kvs" "payload_of t payload kvs" "typed_row (event_model t) kvs"
proof -
  obtain t' kvs where k: "event_type_of_str (r_type r) = Some t'" "model_dump (event_model t') payload = Ok kvs"
    "loads (r_payload r) = Some (JObj (sort_key fst kvs))" "typed_row (event_model t') (sort_key fst kvs)"
    "map_of (sort_key fst kvs) = map_of kvs"
    by (rule validated_payload_dump [OF assms(1)])
  have "t' = t" using k(1) assms(2) by simp
  moreover have "e_payload (parsed r) = JObj (sort_key fst kvs)" using k(3) by (simp add: parsed_def event_of_def)
  moreover have "payload_of t' payload (sort_key fst kvs)"
    unfolding payload_of_def k(5) using model_dump_field [OF k(2)] by blast
  ultimately show thesis using that k(4) by blast
qed

lemma payload_of_field:
  assumes "payload_of t payload kvs" "(name, ty, dflt) \<in> set (event_model t)"
  shows "\<exists>j. map_of kvs name = Some j
    \<and> (case map_of payload name of Some v \<Rightarrow> dump_value ty v = Some j | None \<Rightarrow> dflt = Some j)"
  using assms by (fastforce simp: payload_of_def)

lemma appended_payload:
  assumes "append H st x = (Ok r, st')" "event_type_of_str (x_type x) = Some t"
  obtains kvs where "e_payload (parsed r) = JObj kvs" "payload_of t (x_payload x) kvs"
    "typed_row (event_model t) kvs"
  using stored_payload [of r "x_payload x" t] ledger.put_ok [OF assms(1)] assms(2) by metis

section \<open>Properties\<close>

text \<open>A sample event, for the closed instances of the properties.\<close>

definition sample_note :: entry where
  "sample_note = \<lparr>x_ts = ''2026-01-01T00:00:00Z'', x_source = ''paper'', x_cid = ''c1'', x_key = ''k1'',
     x_type = ''JournalNote'', x_payload = [(''source'', PStr ''paper''), (''text'', PStr ''hello'')]\<rparr>"

lemma sample_note_appended:
  obtains r where "append (\<lambda>s. s) empty_store sample_note = (Ok r, empty_store\<lparr>events := [r]\<rparr>)"
proof -
  have ok: "is_ok (fst (append (\<lambda>s. s) empty_store sample_note))" by code_simp
  obtain res st' where a: "append (\<lambda>s. s) empty_store sample_note = (res, st')" by force
  with ok obtain r where "res = Ok r" by (auto simp: is_ok_iff)
  with a have "st' = empty_store\<lparr>events := [r]\<rparr>"
    by (auto elim!: append_Ok simp: empty_store_def)
  with a \<open>res = Ok r\<close> that show thesis by simp
qed

lemma sample_reachable:
  obtains r st' where "append (\<lambda>s. s) empty_store sample_note = (Ok r, st')" "reachable (\<lambda>s. s) st'"
    "events st' = [r]"
proof -
  obtain r where a: "append (\<lambda>s. s) empty_store sample_note = (Ok r, empty_store\<lparr>events := [r]\<rparr>)"
    by (rule sample_note_appended)
  moreover have "reachable (\<lambda>s. s) (empty_store\<lparr>events := [r]\<rparr>)"
    unfolding reachable_def by (rule r_into_rtranclp, rule step_append [OF a])
  ultimately show thesis using that by simp
qed

text \<open>
  C1: every ledger reached from a fresh file by appends, batches, verifications, meta and snapshot
  writes verifies, numbers its rows 1 to n without a gap, and holds each idempotency key once.
\<close>

theorem ledger_reachable_consistent:
  assumes "reachable H st"
  shows "fst (verify H st) = Ok True
    \<and> map r_seq (events st) = map int [1..<Suc (count st)]
    \<and> distinct (map r_key (events st))"
  using reachable_store_ok [OF assms]
  by (simp add: store_ok_def rows_ok_def verify_def seqs_ok_def count_def)

theorem ledger_reachable_consistent_witness:
  "\<exists>st. events st \<noteq> [] \<and> fst (verify (\<lambda>s. s) st) = Ok True"
proof -
  obtain r st' where "reachable (\<lambda>s. s) st'" "events st' = [r]" by (rule sample_reachable)
  then show ?thesis using ledger_reachable_consistent [of "\<lambda>s. s" st'] by (intro exI [of _ st']) simp
qed

text \<open>
  C26: the events table is append-only. Whatever operations run, the rows present before are the
  first rows afterwards, unchanged and in the same order.
\<close>

theorem ledger_append_only:
  assumes "(store_step H)\<^sup>*\<^sup>* st st'"
  shows "take (count st) (events st') = events st"
  using store_steps_prefix [OF assms] by (auto simp: count_def)

theorem ledger_append_only_witness:
  "take (count empty_store) (events (snd (append (\<lambda>s. s) empty_store sample_note))) = []"
proof -
  have "store_step (\<lambda>s. s) empty_store (snd (append (\<lambda>s. s) empty_store sample_note))"
    by (rule step_append [OF prod.collapse [symmetric]])
  then have "(store_step (\<lambda>s. s))\<^sup>*\<^sup>* empty_store (snd (append (\<lambda>s. s) empty_store sample_note))"
    by (rule r_into_rtranclp)
  from ledger_append_only [OF this] show ?thesis
    by (simp add: empty_store_def)
qed

text \<open>
  C2: tamper evidence. Two tables that both verify and end in the same head hash are equal row for
  row, or an explicit clash of the digest function can be read off them: two different row texts
  with one digest, or a row text whose digest is the genesis value. No property of SHA-256 is assumed.
\<close>

theorem ledger_tamper_evident:
  assumes "fst (verify H st) = Ok True" "fst (verify H st') = Ok True"
    and "chain_head (events st) = chain_head (events st')"
  shows "events st = events st' \<or> hash_clash H (events st) (events st')"
  using assms chains_equal_or_clash [of H "events st" "events st'"]
  by (auto simp: verify_def split: sum.splits)

theorem ledger_tamper_evident_witness:
  "\<exists>st. count st = 1 \<and> (events st = events (snd (verify (\<lambda>s. s) st))
     \<or> hash_clash (\<lambda>s. s) (events st) (events (snd (verify (\<lambda>s. s) st))))"
proof -
  obtain r st' where st': "reachable (\<lambda>s. s) st'" "events st' = [r]" by (rule sample_reachable)
  have v: "verify_rows (\<lambda>s. s) GENESIS_PREV_HASH (events st') = Ok ()"
    using reachable_store_ok [OF st'(1)] by (simp add: store_ok_def rows_ok_def del: verify_rows.simps)
  then have "fst (verify (\<lambda>s. s) st') = Ok True"
    "fst (verify (\<lambda>s. s) (snd (verify (\<lambda>s. s) st'))) = Ok True"
    "chain_head (events st') = chain_head (events (snd (verify (\<lambda>s. s) st')))"
    by (simp_all add: verify_def)
  then have "events st' = events (snd (verify (\<lambda>s. s) st'))
     \<or> hash_clash (\<lambda>s. s) (events st') (events (snd (verify (\<lambda>s. s) st')))"
    by (rule ledger_tamper_evident)
  moreover have "count st' = 1" using st'(2) by (simp add: count_def)
  ultimately show ?thesis by blast
qed

text \<open>
  C3: a batch is atomic and equals the appends in order. On a handle that is not latched,
  \<open>append_batch\<close> stores exactly what one append per row stores when all of them succeed, and leaves
  the store untouched with the first error otherwise.
\<close>

theorem batch_refines_appends:
  assumes "\<not> inconsistent st"
  shows "append_batch H st es = (case append_all H st es of
     Inl e \<Rightarrow> (Err e, st) | Inr (rs, st') \<Rightarrow> (Ok rs, st'))"
  by (rule append_batch_sequential [OF assms])

theorem batch_refines_appends_witness:
  "append_batch (\<lambda>s. s) empty_store [envelope sample_note, envelope sample_note]
   = (case append_all (\<lambda>s. s) empty_store [envelope sample_note, envelope sample_note] of
     Inl e \<Rightarrow> (Err e, empty_store) | Inr (rs, st') \<Rightarrow> (Ok rs, st'))"
  by (rule batch_refines_appends) (simp add: empty_store_def)

text \<open>
  An idempotency key is spent once. After a successful append, whatever happens to the ledger
  next, a second append under the same key is refused without a trace, and \<open>by_key\<close> keeps returning
  the first event.
\<close>

theorem append_key_spent:
  assumes "reachable H st" "append H st x = (Ok r, st')" "(store_step H)\<^sup>*\<^sup>* st' st''"
    and "x_key y = x_key x"
  shows "(\<exists>e. append H st'' y = (Err e, st'')) \<and> by_key st'' (x_key x) = Ok (Some (parsed r))"
proof -
  obtain rs where rs: "events st'' = events st' @ rs" using store_steps_prefix [OF assms(3)] by blast
  have "reachable H st''"
    using assms(1-3) step_append unfolding reachable_def by (meson rtranclp.rtrancl_into_rtrancl rtranclp_trans)
  then have v: "\<forall>r \<in> set (events st''). row_valid r" using reachable_store_ok store_ok_valid by blast
  have "x_key y \<in> r_key ` set (events st'')"
    using ledger.put_ok [OF assms(2)] rs assms(4) by auto
  then have "\<exists>e. append H st'' y = (Err e, st'')" by (metis ledger.put_duplicate)
  with append_by_key [OF assms(2) rs v] show ?thesis by simp
qed

theorem append_key_spent_witness:
  "\<exists>r st'. append (\<lambda>s. s) empty_store sample_note = (Ok r, st')
     \<and> (\<exists>e. append (\<lambda>s. s) st' sample_note = (Err e, st')) \<and> by_key st' ''k1'' = Ok (Some (parsed r))"
proof -
  obtain r st' where a: "append (\<lambda>s. s) empty_store sample_note = (Ok r, st')" by (rule sample_reachable)
  have "reachable (\<lambda>s. s) empty_store" by (simp add: reachable_def)
  from append_key_spent [OF this a rtranclp.rtrancl_refl refl] a show ?thesis
    by (auto simp: sample_note_def)
qed

text \<open>
  What is written is what is read. After a successful append on a reachable ledger, \<open>by_key\<close>
  returns the event with its own columns and, field for field, the validated payload.
\<close>

theorem append_read_roundtrip:
  assumes "reachable H st" "append H st x = (Ok r, st')"
  shows "\<exists>t kvs e p. event_type_of_str (x_type x) = Some t
    \<and> model_dump (event_model t) (x_payload x) = Ok kvs
    \<and> by_key st' (x_key x) = Ok (Some e) \<and> e_payload e = JObj p \<and> map_of p = map_of kvs
    \<and> e_type e = x_type x \<and> e_ts e = x_ts x \<and> e_source e = x_source x \<and> e_cid e = x_cid x
    \<and> e_seq e = int (count st) + 1"
proof -
  note ok = reachable_store_ok [OF assms(1)]
  note p = ledger.put_ok [OF assms(2)]
  have v: "\<forall>r \<in> set (events st'). row_valid r"
    using append_store_ok [OF ok assms(2)] store_ok_valid by blast
  have bk: "by_key st' (x_key x) = Ok (Some (parsed r))"
    using append_by_key [OF assms(2), of st' "[]"] v by simp
  obtain t kvs where t: "event_type_of_str (x_type x) = Some t"
    "model_dump (event_model t) (x_payload x) = Ok kvs"
    "loads (r_payload r) = Some (JObj (sort_key fst kvs))" "map_of (sort_key fst kvs) = map_of kvs"
    using p validated_payload_dump [of "x_type x" "x_payload x" "r_payload r"] by metis
  have "e_payload (parsed r) = JObj (sort_key fst kvs)" by (simp add: parsed_def event_of_def t(3))
  moreover have "r_seq r = int (count st) + 1"
    using append_store_ok [OF ok assms(2)] p
    by (simp add: store_ok_def rows_ok_def seqs_ok_snoc count_def)
  ultimately show ?thesis using t bk p by (intro exI conjI) (assumption | simp)+
qed

theorem append_read_roundtrip_witness:
  "\<exists>r st' e p. append (\<lambda>s. s) empty_store sample_note = (Ok r, st')
     \<and> by_key st' ''k1'' = Ok (Some e) \<and> e_payload e = JObj p \<and> e_seq e = 1"
proof -
  obtain r st' where a: "append (\<lambda>s. s) empty_store sample_note = (Ok r, st')" by (rule sample_reachable)
  have "reachable (\<lambda>s. s) empty_store" by (simp add: reachable_def)
  from append_read_roundtrip [OF this a] a show ?thesis
    by (auto simp: sample_note_def count_def empty_store_def)
qed

text \<open>
  The inconsistency latch. When \<open>verify\<close> finds a broken chain it leaves every table alone and
  latches the handle; from then on every append and every non-empty batch is refused.
\<close>

theorem verify_failure_latches:
  assumes "fst (verify H st) = Err e" "es \<noteq> []"
  shows "events (snd (verify H st)) = events st
    \<and> (\<exists>m. append H (snd (verify H st)) x = (Err (LedgerInconsistent 0 m), snd (verify H st)))
    \<and> (\<exists>m. append_batch H (snd (verify H st)) es = (Err (LedgerInconsistent 0 m), snd (verify H st)))"
  using assms by (auto simp: verify_def append_def append_batch_def split: sum.splits)

theorem verify_failure_latches_witness:
  "\<exists>st. events (snd (verify (\<lambda>s. s) st)) = events st \<and> events st \<noteq> []
    \<and> (\<exists>m. append (\<lambda>s. s) (snd (verify (\<lambda>s. s) st)) sample_note
          = (Err (LedgerInconsistent 0 m), snd (verify (\<lambda>s. s) st)))"
proof -
  define bad :: store where "bad = empty_store\<lparr>events := [\<lparr>r_seq = 1, r_ts = ''t'', r_source = ''paper'',
    r_cid = ''c'', r_key = ''k'', r_type = ''JournalNote'', r_payload = ''{}'', r_prev = ''x'', r_hash = ''h''\<rparr>]\<rparr>"
  have "GENESIS_PREV_HASH \<noteq> ''x''" by code_simp
  then have "fst (verify (\<lambda>s. s) bad) = Err (LedgerInconsistent 1 ''prev_hash does not chain'')"
    by (simp add: verify_def bad_def)
  from verify_failure_latches [OF this, of "[envelope sample_note]"] show ?thesis
    by (intro exI [of _ bad]) (auto simp: bad_def)
qed

end
