(* ===== verification/Reducer.thy ===== *)
theory Reducer
  imports Store
begin

text \<open>
  The ledger fold of \<open>ledger/reducer.py\<close>: \<open>reduce state event\<close> returns the new state or the
  exception a handler raises. A handler reads its row with \<open>row_str\<close>, \<open>row_int\<close> and
  \<open>row_bool\<close> (\<open>str(row.get(k, d))\<close> and so on); \<open>model_copy\<close> is record update. The lemmas
  show that on validated rows the fold can only fail in a mark row, that cash is exactly
  what the rows say, that the peak bounds equity, and that halts and the kill switch latch.
\<close>

section \<open>State\<close>

record position =
  p_mint :: string
  p_symbol :: string
  p_creator :: string
  p_ticket_id :: string
  p_correlation_id :: string
  p_price_entry :: dec
  p_price_peak :: dec
  p_token_units :: int
  p_cost_basis :: int
  p_fees :: int
  p_opened_ts :: string
  p_last_mtm :: int
  p_last_mtm_venue_fee :: int
  p_last_mtm_ts :: string
  p_mtm_source :: string
  p_mtm_frozen :: bool

record halt_view =
  h_active :: bool
  h_reason :: string
  h_since :: string

record kill_view =
  k_active :: bool
  k_source :: string
  k_since :: string
  k_flatten :: bool

record breaker_view =
  b_state :: string
  b_since :: string
  b_until :: string

record approval_view =
  a_kind :: string
  a_consumed :: bool

record counters =
  c_trades_today :: int
  c_rejected_today :: "(string, int) dict"
  c_fees_today :: int
  c_realized_today :: int

record lstate =
  l_seq :: int
  l_source :: string
  l_day_utc :: string
  l_day_start_equity :: int
  l_peak_equity :: int
  l_cash :: int
  l_positions :: "(string, position) dict"
  l_halt :: halt_view
  l_kill :: kill_view
  l_breakers :: "(string, breaker_view) dict"
  l_approvals :: "(string, approval_view) dict"
  l_counters :: counters
  l_last_mtm_ts :: string
  l_unknown :: "string list"
  l_meta :: "(string, string) dict"

definition no_halt :: halt_view where
  "no_halt = \<lparr>h_active = False, h_reason = [], h_since = []\<rparr>"

definition no_kill :: kill_view where
  "no_kill = \<lparr>k_active = False, k_source = [], k_since = [], k_flatten = False\<rparr>"

definition zero_counters :: counters where
  "zero_counters = \<lparr>c_trades_today = 0, c_rejected_today = [], c_fees_today = 0, c_realized_today = 0\<rparr>"

definition initial_state :: "string \<Rightarrow> int \<Rightarrow> string \<Rightarrow> lstate" where
  "initial_state source initial_equity day =
     \<lparr>l_seq = 0, l_source = source, l_day_utc = day, l_day_start_equity = initial_equity,
      l_peak_equity = initial_equity, l_cash = initial_equity, l_positions = [], l_halt = no_halt,
      l_kill = no_kill, l_breakers = [], l_approvals = [], l_counters = zero_counters,
      l_last_mtm_ts = [], l_unknown = [], l_meta = []\<rparr>"

section \<open>Equity and peak\<close>

definition position_value :: "position \<Rightarrow> int" where
  "position_value p = (if p_last_mtm_ts p \<noteq> [] then p_last_mtm p else p_cost_basis p)"

definition held_value :: "string \<times> position \<Rightarrow> int" where
  "held_value kp = (if p_token_units (snd kp) > 0 then position_value (snd kp) else 0)"

definition equity :: "lstate \<Rightarrow> int" where
  "equity s = l_cash s + sum_list (map held_value (l_positions s))"

definition track_peak :: "lstate \<Rightarrow> lstate" where
  "track_peak s = (let e = l_cash s
       + sum_list (map (\<lambda>p. position_value p) (List.filter (\<lambda>p. p_token_units p > 0) (dict_values (l_positions s))))
     in if e > l_peak_equity s then s\<lparr>l_peak_equity := e\<rparr> else s)"

section \<open>Handlers\<close>

type_synonym row = "(string, json) dict"

definition price_of_json :: "json \<Rightarrow> dec result" where
  \<comment> \<open>the \<open>PriceDecimal\<close> validator of \<open>PositionView\<close>\<close>
  "price_of_json j = of_option (ValueError ''price'')
     (case j of JStr s \<Rightarrow> price_decimal (PStr s) | JInt i \<Rightarrow> price_decimal (PInt i) | _ \<Rightarrow> None)"

definition on_position_opened :: "lstate \<Rightarrow> row \<Rightarrow> string \<Rightarrow> string \<Rightarrow> lstate result" where
  "on_position_opened s row ts cid =
     rbind (row_str row ''mint'' []) (\<lambda>mint.
     if mint = [] then Ok s else
     rbind (row_str row ''symbol'' []) (\<lambda>symbol.
     rbind (row_str row ''creator'' []) (\<lambda>creator.
     rbind (row_str row ''ticket_id'' []) (\<lambda>ticket.
     rbind (row_int row ''token_units'' 0) (\<lambda>units.
     rbind (row_int row ''cost_basis_lamports'' 0) (\<lambda>cost.
     rbind (row_str row ''opened_ts_utc'' ts) (\<lambda>opened.
     rbind (price_of_json (row_get row ''price_entry'' (JStr ''0''))) (\<lambda>price.
     Ok (track_peak (s\<lparr>l_positions := dict_set (l_positions s) mint
       \<lparr>p_mint = mint, p_symbol = symbol, p_creator = creator, p_ticket_id = ticket,
        p_correlation_id = cid, p_price_entry = price, p_price_peak = price, p_token_units = units,
        p_cost_basis = cost, p_fees = 0, p_opened_ts = opened, p_last_mtm = 0,
        p_last_mtm_venue_fee = 0, p_last_mtm_ts = [], p_mtm_source = [], p_mtm_frozen = False\<rparr>\<rparr>))))))))))"

definition on_position_closed :: "lstate \<Rightarrow> row \<Rightarrow> string \<Rightarrow> string \<Rightarrow> lstate result" where
  "on_position_closed s row ts cid =
     rbind (row_str row ''mint'' []) (\<lambda>mint.
     rbind (row_int row ''realized_pnl_lamports'' 0) (\<lambda>realized.
     let c = l_counters s in
     Ok (track_peak (s\<lparr>l_positions := dict_pop (l_positions s) mint,
       l_counters := c\<lparr>c_realized_today := c_realized_today c + realized\<rparr>\<rparr>))))"

definition sold_position :: "position \<Rightarrow> int \<Rightarrow> int \<Rightarrow> position" where
  \<comment> \<open>the position after a sale of \<open>filled\<close> units that paid \<open>received\<close>\<close>
  "sold_position p filled received =
     (let units = p_token_units p; remaining = units - filled;
          reduction = p_cost_basis p * filled div units;
          share = p_last_mtm p * remaining div units;
          mark = min share (max (p_last_mtm p - received) 0);
          venue_share = p_last_mtm_venue_fee p * remaining div units
      in p\<lparr>p_token_units := remaining, p_cost_basis := p_cost_basis p - reduction,
           p_last_mtm := mark, p_last_mtm_venue_fee := venue_share\<rparr>)"

definition bought_position :: "position \<Rightarrow> int \<Rightarrow> int \<Rightarrow> int \<Rightarrow> position" where
  "bought_position p filled cash_delta fee =
     p\<lparr>p_token_units := p_token_units p + filled, p_cost_basis := p_cost_basis p - min cash_delta 0,
       p_fees := p_fees p + fee\<rparr>"

definition fill_position :: "counters \<Rightarrow> (string, position) dict \<Rightarrow> row \<Rightarrow> string \<Rightarrow> string \<Rightarrow> int \<Rightarrow> int \<Rightarrow> int
    \<Rightarrow> (counters \<times> (string, position) dict) result" where
  \<comment> \<open>the position leg of a fill: counters and positions after it\<close>
  "fill_position c ps row mint side cash_delta fee network =
     (case map_of ps mint of
        None \<Rightarrow> Ok (c, ps)
      | Some pos \<Rightarrow>
          rbind (row_int row ''filled_units'' 0) (\<lambda>filled.
          if side = ''buy''
          then Ok (c, dict_set ps mint (bought_position pos filled cash_delta fee))
          else if p_token_units pos > 0 \<and> filled > 0
          then let remaining = p_token_units pos - filled;
                   reduction = p_cost_basis pos * filled div p_token_units pos;
                   c' = (if remaining > 0
                         then c\<lparr>c_realized_today := c_realized_today c + cash_delta - reduction\<rparr>
                         else c)
               in Ok (c', dict_set ps mint (sold_position pos filled (cash_delta + network)))
          else Ok (c, ps)))"

definition on_fill :: "lstate \<Rightarrow> row \<Rightarrow> string \<Rightarrow> string \<Rightarrow> lstate result" where
  "on_fill s row ts cid =
     rbind (row_int row ''cash_delta_lamports'' 0) (\<lambda>cash_delta.
     rbind (row_int row ''venue_fee_lamports'' 0) (\<lambda>venue_fee.
     rbind (row_int row ''network_cost_lamports'' 0) (\<lambda>network.
     rbind (row_str row ''mint'' []) (\<lambda>mint.
     rbind (row_str row ''side'' []) (\<lambda>side.
     let fee = venue_fee + network;
         c0 = l_counters s;
         c1 = c0\<lparr>c_fees_today := c_fees_today c0 + fee\<rparr>;
         c2 = (if side = ''buy'' then c1\<lparr>c_trades_today := c_trades_today c0 + 1\<rparr> else c1)
     in rbind (fill_position c2 (l_positions s) row mint side cash_delta fee network) (\<lambda>(c, ps).
        Ok (track_peak (s\<lparr>l_cash := l_cash s + cash_delta, l_counters := c, l_positions := ps\<rparr>))))))))"

definition on_rejected :: "lstate \<Rightarrow> row \<Rightarrow> string \<Rightarrow> string \<Rightarrow> lstate result" where
  "on_rejected s row ts cid =
     rbind (row_str row ''reason'' ''unknown'') (\<lambda>reason.
     rbind (row_int row ''fees_lamports'' 0) (\<lambda>fees.
     let c = l_counters s; rejected = c_rejected_today c in
     Ok (s\<lparr>l_cash := l_cash s - fees,
           l_counters := c\<lparr>c_rejected_today := dict_set rejected reason (dict_get_default rejected reason 0 + 1),
                          c_fees_today := c_fees_today c + fees\<rparr>\<rparr>)))"

definition apply_mark :: "string \<Rightarrow> (string, position) dict \<Rightarrow> string \<times> json
    \<Rightarrow> (string, position) dict result" where
  "apply_mark ts ps item = (case item of (mint, JObj mark) \<Rightarrow>
       (case map_of ps mint of None \<Rightarrow> Ok ps
        | Some pos \<Rightarrow> if p_mtm_frozen pos then Ok ps else
            rbind (row_int mark ''mtm_lamports'' (p_last_mtm pos)) (\<lambda>mtm.
            rbind (row_int mark ''venue_fee_lamports'' (p_last_mtm_venue_fee pos)) (\<lambda>venue.
            rbind (row_str mark ''spot'' ''0'') (\<lambda>spot.
            rbind (of_option (CorruptState ''corrupt mtm spot'')
                (Option.bind (dec_of_str spot) (dec_max (p_price_peak pos)))) (\<lambda>peak.
            rbind (row_str mark ''ts_utc'' ts) (\<lambda>mark_ts.
            rbind (row_str mark ''source'' ''curve'') (\<lambda>src.
            Ok (dict_set ps mint (pos\<lparr>p_last_mtm_venue_fee := venue, p_last_mtm := mtm,
                  p_last_mtm_ts := mark_ts, p_mtm_source := src, p_price_peak := peak\<rparr>)))))))))
     | _ \<Rightarrow> Ok ps)"

definition prices_text :: "row \<Rightarrow> string result" where
  \<comment> \<open>\<open>str(row.get("prices_json", "") or "{}")\<close>\<close>
  "prices_text row = (let v = row_get row ''prices_json'' (JStr []) in
     rbind (py_bool v) (\<lambda>b. if b then py_str v else Ok ''{}''))"

definition on_mtm :: "lstate \<Rightarrow> row \<Rightarrow> string \<Rightarrow> string \<Rightarrow> lstate result" where
  "on_mtm s row ts cid =
     rbind (prices_text row) (\<lambda>text.
     rbind (case loads text of Some (JObj prices) \<Rightarrow> rfold (apply_mark ts) (l_positions s) prices
            | _ \<Rightarrow> Ok (l_positions s)) (\<lambda>ps.
     Ok (track_peak (s\<lparr>l_positions := ps, l_last_mtm_ts := ts\<rparr>))))"

definition on_halt_set :: "lstate \<Rightarrow> row \<Rightarrow> string \<Rightarrow> string \<Rightarrow> lstate result" where
  "on_halt_set s row ts cid = rbind (row_str row ''reason'' []) (\<lambda>reason.
     Ok (s\<lparr>l_halt := \<lparr>h_active = True, h_reason = reason, h_since = ts\<rparr>\<rparr>))"

definition on_halt_cleared :: "lstate \<Rightarrow> row \<Rightarrow> string \<Rightarrow> string \<Rightarrow> lstate result" where
  "on_halt_cleared s row ts cid = Ok (s\<lparr>l_halt := no_halt\<rparr>)"

definition on_kill_set :: "lstate \<Rightarrow> row \<Rightarrow> string \<Rightarrow> string \<Rightarrow> lstate result" where
  "on_kill_set s row ts cid =
     rbind (row_str row ''origin'' []) (\<lambda>origin.
     rbind (row_bool row ''flatten_requested'' False) (\<lambda>flatten.
     Ok (s\<lparr>l_kill := \<lparr>k_active = True, k_source = origin, k_since = ts, k_flatten = flatten\<rparr>\<rparr>)))"

definition on_kill_cleared :: "lstate \<Rightarrow> row \<Rightarrow> string \<Rightarrow> string \<Rightarrow> lstate result" where
  "on_kill_cleared s row ts cid = Ok (s\<lparr>l_kill := no_kill\<rparr>)"

definition on_breaker_tripped :: "lstate \<Rightarrow> row \<Rightarrow> string \<Rightarrow> string \<Rightarrow> lstate result" where
  "on_breaker_tripped s row ts cid = rbind (row_str row ''breaker'' ''unknown'') (\<lambda>b.
     Ok (s\<lparr>l_breakers := dict_set (l_breakers s) b \<lparr>b_state = ''open'', b_since = ts, b_until = []\<rparr>\<rparr>))"

definition on_breaker_reset :: "lstate \<Rightarrow> row \<Rightarrow> string \<Rightarrow> string \<Rightarrow> lstate result" where
  "on_breaker_reset s row ts cid = rbind (row_str row ''breaker'' ''unknown'') (\<lambda>b.
     Ok (s\<lparr>l_breakers := dict_set (l_breakers s) b \<lparr>b_state = ''closed'', b_since = ts, b_until = []\<rparr>\<rparr>))"

definition on_rollover :: "lstate \<Rightarrow> row \<Rightarrow> string \<Rightarrow> string \<Rightarrow> lstate result" where
  "on_rollover s row ts cid =
     rbind (row_str row ''day_utc'' (l_day_utc s)) (\<lambda>day.
     rbind (row_int row ''day_start_equity_lamports'' (l_day_start_equity s)) (\<lambda>start.
     Ok (s\<lparr>l_day_utc := day, l_day_start_equity := start, l_counters := zero_counters\<rparr>)))"

definition on_approval :: "lstate \<Rightarrow> row \<Rightarrow> string \<Rightarrow> string \<Rightarrow> lstate result" where
  "on_approval s row ts cid =
     rbind (row_str row ''id'' []) (\<lambda>i.
     if i = [] then Ok s else
     rbind (row_str row ''kind'' []) (\<lambda>kind.
     rbind (row_bool row ''consumed'' False) (\<lambda>consumed.
     Ok (s\<lparr>l_approvals := dict_set (l_approvals s) i \<lparr>a_kind = kind, a_consumed = consumed\<rparr>\<rparr>))))"

definition on_noop :: "lstate \<Rightarrow> row \<Rightarrow> string \<Rightarrow> string \<Rightarrow> lstate result" where
  "on_noop s row ts cid = Ok s"

definition handler :: "event_type \<Rightarrow> lstate \<Rightarrow> row \<Rightarrow> string \<Rightarrow> string \<Rightarrow> lstate result" where
  "handler t = (case t of
       PositionOpened \<Rightarrow> on_position_opened
     | PositionClosed \<Rightarrow> on_position_closed
     | FillRecorded \<Rightarrow> on_fill
     | OrderRejected \<Rightarrow> on_rejected
     | MarkToMarket \<Rightarrow> on_mtm
     | HaltSet \<Rightarrow> on_halt_set
     | HaltCleared \<Rightarrow> on_halt_cleared
     | KillSwitchSet \<Rightarrow> on_kill_set
     | KillSwitchCleared \<Rightarrow> on_kill_cleared
     | BreakerTripped \<Rightarrow> on_breaker_tripped
     | BreakerReset \<Rightarrow> on_breaker_reset
     | DailyRollover \<Rightarrow> on_rollover
     | ApprovalRecorded \<Rightarrow> on_approval
     | _ \<Rightarrow> on_noop)"

definition event_row :: "event \<Rightarrow> row" where
  "event_row e = (case e_payload e of JObj kvs \<Rightarrow> kvs | _ \<Rightarrow> [])"

definition reduce :: "lstate \<Rightarrow> event \<Rightarrow> lstate result" where
  "reduce s e = (case event_type_of_str (e_type e) of
       None \<Rightarrow> Ok (s\<lparr>l_seq := e_seq e,
                     l_unknown := l_unknown s @ [int_str (e_seq e) @ '':'' @ e_type e]\<rparr>)
     | Some t \<Rightarrow> rbind (handler t s (event_row e) (e_ts e) (e_cid e)) (\<lambda>s'. Ok (s'\<lparr>l_seq := e_seq e\<rparr>)))"

definition fold_events :: "lstate \<Rightarrow> event list \<Rightarrow> lstate result" where
  "fold_events s es = rfold reduce s es"

declare
  on_position_opened_def [handler_defs] on_position_closed_def [handler_defs] on_fill_def [handler_defs]
  on_rejected_def [handler_defs] on_mtm_def [handler_defs] on_halt_set_def [handler_defs]
  on_halt_cleared_def [handler_defs] on_kill_set_def [handler_defs] on_kill_cleared_def [handler_defs]
  on_breaker_tripped_def [handler_defs] on_breaker_reset_def [handler_defs] on_rollover_def [handler_defs]
  on_approval_def [handler_defs] on_noop_def [handler_defs]

section \<open>Equity\<close>

lemma track_peak_eq: "track_peak s = s\<lparr>l_peak_equity := max (l_peak_equity s) (equity s)\<rparr>"
proof -
  have "sum_list (map position_value (List.filter (\<lambda>p. p_token_units p > 0) (map snd ps)))
      = sum_list (map held_value ps)" for ps :: "(string \<times> position) list"
    by (induction ps) (auto simp: held_value_def)
  then show ?thesis by (simp add: track_peak_def equity_def dict_values_def Let_def max_def)
qed

lemma equity_simps [simp]:
  "equity (s\<lparr>l_peak_equity := x\<rparr>) = equity s"
  "equity (s\<lparr>l_counters := c\<rparr>) = equity s"
  "equity (s\<lparr>l_halt := h\<rparr>) = equity s"
  "equity (s\<lparr>l_kill := k\<rparr>) = equity s"
  "equity (s\<lparr>l_breakers := b\<rparr>) = equity s"
  "equity (s\<lparr>l_approvals := a\<rparr>) = equity s"
  "equity (s\<lparr>l_seq := n\<rparr>) = equity s"
  "equity (s\<lparr>l_unknown := u\<rparr>) = equity s"
  "equity (s\<lparr>l_day_utc := d\<rparr>) = equity s"
  "equity (s\<lparr>l_day_start_equity := e\<rparr>) = equity s"
  "equity (s\<lparr>l_last_mtm_ts := t\<rparr>) = equity s"
  "equity (s\<lparr>l_cash := cash\<rparr>) = equity s - l_cash s + cash"
  by (simp_all add: equity_def)

section \<open>Frame facts of the handlers\<close>

definition row_int_or0 :: "row \<Rightarrow> string \<Rightarrow> int" where
  "row_int_or0 row k = (case row_int row k 0 of Inr i \<Rightarrow> i | Inl _ \<Rightarrow> 0)"

definition cash_effect :: "event_type \<Rightarrow> row \<Rightarrow> int" where
  "cash_effect t row = (case t of
       FillRecorded \<Rightarrow> row_int_or0 row ''cash_delta_lamports''
     | OrderRejected \<Rightarrow> - row_int_or0 row ''fees_lamports''
     | _ \<Rightarrow> 0)"

lemma fill_position_cases:
  assumes "fill_position c ps row mint side cash_delta fee network = Ok (c', ps')"
  shows "(ps' = ps \<or> (\<exists>pos pos'. map_of ps mint = Some pos \<and> p_mint pos' = p_mint pos
            \<and> ps' = dict_set ps mint pos'))
    \<and> c_fees_today c' = c_fees_today c \<and> c_trades_today c' = c_trades_today c
    \<and> c_rejected_today c' = c_rejected_today c"
proof (cases "map_of ps mint")
  case None
  then show ?thesis using assms by (simp add: fill_position_def)
next
  case (Some pos)
  then obtain filled where "row_int row ''filled_units'' 0 = Ok filled"
    using assms by (auto simp: fill_position_def rbind_Ok_iff)
  moreover have "p_mint (bought_position pos filled cash_delta fee) = p_mint pos"
    "p_mint (sold_position pos filled (cash_delta + network)) = p_mint pos"
    by (simp_all add: bought_position_def sold_position_def Let_def)
  ultimately show ?thesis
    using Some assms by (auto simp: fill_position_def Let_def split: if_splits)
qed

lemma on_fill_cases:
  assumes "on_fill s row ts cid = Ok s'"
  obtains cash_delta venue network mint side c ps where
    "row_int row ''cash_delta_lamports'' 0 = Ok cash_delta"
    "row_int row ''venue_fee_lamports'' 0 = Ok venue"
    "row_int row ''network_cost_lamports'' 0 = Ok network"
    "row_str row ''mint'' [] = Ok mint" "row_str row ''side'' [] = Ok side"
    "s' = track_peak (s\<lparr>l_cash := l_cash s + cash_delta, l_counters := c, l_positions := ps\<rparr>)"
    "ps = l_positions s \<or> (\<exists>pos pos'. map_of (l_positions s) mint = Some pos \<and> p_mint pos' = p_mint pos
       \<and> ps = dict_set (l_positions s) mint pos')"
    "c_fees_today c = c_fees_today (l_counters s) + venue + network"
    "c_trades_today c = c_trades_today (l_counters s) + (if side = ''buy'' then 1 else 0)"
    "c_rejected_today c = c_rejected_today (l_counters s)"
proof -
  from assms obtain cash_delta venue network mint side c ps c2 where a:
    "row_int row ''cash_delta_lamports'' 0 = Ok cash_delta"
    "row_int row ''venue_fee_lamports'' 0 = Ok venue"
    "row_int row ''network_cost_lamports'' 0 = Ok network"
    "row_str row ''mint'' [] = Ok mint" "row_str row ''side'' [] = Ok side"
    "fill_position c2 (l_positions s) row mint side cash_delta (venue + network) network = Ok (c, ps)"
    "s' = track_peak (s\<lparr>l_cash := l_cash s + cash_delta, l_counters := c, l_positions := ps\<rparr>)"
    "c_fees_today c2 = c_fees_today (l_counters s) + venue + network"
    "c_trades_today c2 = c_trades_today (l_counters s) + (if side = ''buy'' then 1 else 0)"
    "c_rejected_today c2 = c_rejected_today (l_counters s)"
    by (auto simp: on_fill_def rbind_Ok_iff Let_def)
  show thesis
    by (rule that [OF a(1-5,7)]) (use fill_position_cases [OF a(6)] a(8-10) in auto)
qed

lemma handler_cash:
  assumes "handler t s row ts cid = Ok s'"
  shows "l_cash s' = l_cash s + cash_effect t row"
proof (cases t)
  case FillRecorded
  then have "on_fill s row ts cid = Ok s'" using assms by (simp add: handler_def)
  then show ?thesis
    by (elim on_fill_cases) (simp add: track_peak_eq cash_effect_def FillRecorded row_int_or0_def)
qed (use assms in \<open>auto simp: handler_def handler_defs rbind_Ok_iff Let_def track_peak_eq cash_effect_def
      row_int_or0_def split: if_splits\<close>)

lemma handler_peak_mono:
  assumes "handler t s row ts cid = Ok s'"
  shows "l_peak_equity s \<le> l_peak_equity s'"
proof (cases t)
  case FillRecorded
  then have "on_fill s row ts cid = Ok s'" using assms by (simp add: handler_def)
  then show ?thesis by (elim on_fill_cases) (simp add: track_peak_eq)
qed (use assms in \<open>auto simp: handler_def handler_defs rbind_Ok_iff Let_def track_peak_eq split: if_splits\<close>)

lemma handler_peak_bounds:
  assumes "handler t s row ts cid = Ok s'" "equity s \<le> l_peak_equity s"
    and "t = OrderRejected \<Longrightarrow> row_int_or0 row ''fees_lamports'' \<ge> 0"
  shows "equity s' \<le> l_peak_equity s'"
proof (cases t)
  case FillRecorded
  then have "on_fill s row ts cid = Ok s'" using assms by (simp add: handler_def)
  then show ?thesis by (elim on_fill_cases) (simp add: track_peak_eq)
qed (use assms in \<open>auto simp: handler_def handler_defs rbind_Ok_iff Let_def track_peak_eq row_int_or0_def
      split: if_splits\<close>)

lemma handler_halt:
  assumes "handler t s row ts cid = Ok s'"
  shows "h_active (l_halt s') = (if t = HaltSet then True else if t = HaltCleared then False
           else h_active (l_halt s))"
proof (cases t)
  case FillRecorded
  then have "on_fill s row ts cid = Ok s'" using assms by (simp add: handler_def)
  then show ?thesis by (elim on_fill_cases) (simp add: track_peak_eq FillRecorded)
qed (use assms in \<open>auto simp: handler_def handler_defs rbind_Ok_iff Let_def track_peak_eq no_halt_def
      split: if_splits\<close>)

lemma handler_kill:
  assumes "handler t s row ts cid = Ok s'"
  shows "k_active (l_kill s') = (if t = KillSwitchSet then True else if t = KillSwitchCleared then False
           else k_active (l_kill s))"
proof (cases t)
  case FillRecorded
  then have "on_fill s row ts cid = Ok s'" using assms by (simp add: handler_def)
  then show ?thesis by (elim on_fill_cases) (simp add: track_peak_eq FillRecorded)
qed (use assms in \<open>auto simp: handler_def handler_defs rbind_Ok_iff Let_def track_peak_eq no_kill_def
      split: if_splits\<close>)

definition state_wf :: "lstate \<Rightarrow> bool" where
  "state_wf s \<longleftrightarrow> wf_dict (l_positions s) \<and> (\<forall>(m, p) \<in> set (l_positions s). p_mint p = m \<and> m \<noteq> [])
     \<and> wf_dict (l_breakers s) \<and> wf_dict (l_approvals s) \<and> wf_dict (c_rejected_today (l_counters s))"

definition positions_wf :: "(string, position) dict \<Rightarrow> bool" where
  "positions_wf ps \<longleftrightarrow> wf_dict ps \<and> (\<forall>(m, p) \<in> set ps. p_mint p = m \<and> m \<noteq> [])"

lemma set_dict_set: "set (dict_set d k v) \<subseteq> insert (k, v) (set d)"
  by (induction d) auto

lemma set_dict_pop: "set (dict_pop d k) \<subseteq> set d"
  by (induction d) auto

lemma positions_wf_set: "positions_wf ps \<Longrightarrow> p_mint p = m \<Longrightarrow> m \<noteq> [] \<Longrightarrow> positions_wf (dict_set ps m p)"
  using set_dict_set [of m p ps] by (auto simp: positions_wf_def)

lemma positions_wf_pop: "positions_wf ps \<Longrightarrow> positions_wf (dict_pop ps m)"
  using set_dict_pop [of m ps] by (auto simp: positions_wf_def)

lemma positions_wf_get: "positions_wf ps \<Longrightarrow> map_of ps m = Some p \<Longrightarrow> p_mint p = m \<and> m \<noteq> []"
  by (auto simp: positions_wf_def dest!: map_of_SomeD)

lemma apply_mark_wf:
  assumes "apply_mark ts ps item = Ok ps'" "positions_wf ps"
  shows "positions_wf ps'"
  using assms positions_wf_get
  by (auto simp: apply_mark_def rbind_Ok_iff split: prod.splits json.splits option.splits if_splits
      intro!: positions_wf_set)

lemma marks_wf:
  assumes "rfold (apply_mark ts) ps items = Ok ps'" "positions_wf ps"
  shows "positions_wf ps'"
  using assms by (rule rfold_invariant) (rule apply_mark_wf)

lemma on_mtm_cases:
  assumes "on_mtm s row ts cid = Ok s'"
  obtains items ps where "rfold (apply_mark ts) (l_positions s) items = Ok ps"
    "s' = track_peak (s\<lparr>l_positions := ps, l_last_mtm_ts := ts\<rparr>)"
proof -
  from assms obtain body ps where
    ps: "(case loads body of Some (JObj prices) \<Rightarrow> rfold (apply_mark ts) (l_positions s) prices
        | _ \<Rightarrow> Ok (l_positions s)) = Ok ps"
    and s': "s' = track_peak (s\<lparr>l_positions := ps, l_last_mtm_ts := ts\<rparr>)"
    by (auto simp: on_mtm_def rbind_Ok_iff)
  from ps have "\<exists>items. rfold (apply_mark ts) (l_positions s) items = Ok ps"
    by (auto split: option.splits json.splits intro: exI [of _ "[]"])
  with s' that show thesis by blast
qed

lemma state_wf_iff: "state_wf s \<longleftrightarrow> positions_wf (l_positions s) \<and> wf_dict (l_breakers s)
     \<and> wf_dict (l_approvals s) \<and> wf_dict (c_rejected_today (l_counters s))"
  by (auto simp: state_wf_def positions_wf_def)

lemma handler_wf:
  assumes "handler t s row ts cid = Ok s'" "state_wf s"
  shows "state_wf s'"
proof (cases t)
  case FillRecorded
  then have "on_fill s row ts cid = Ok s'" using assms by (simp add: handler_def)
  then show ?thesis
  proof (rule on_fill_cases)
    fix cash_delta mint c ps
    assume s': "s' = track_peak (s\<lparr>l_cash := l_cash s + cash_delta, l_counters := c, l_positions := ps\<rparr>)"
      and ps: "ps = l_positions s \<or> (\<exists>pos pos'. map_of (l_positions s) mint = Some pos
          \<and> p_mint pos' = p_mint pos \<and> ps = dict_set (l_positions s) mint pos')"
      and c: "c_rejected_today c = c_rejected_today (l_counters s)"
    have "positions_wf ps"
      using ps assms(2) positions_wf_get positions_wf_set by (auto simp: state_wf_iff)
    then show ?thesis using assms(2) c by (simp add: s' track_peak_eq state_wf_iff)
  qed
next
  case MarkToMarket
  then have "on_mtm s row ts cid = Ok s'" using assms by (simp add: handler_def)
  then show ?thesis
    by (rule on_mtm_cases) (use assms(2) marks_wf in \<open>auto simp: track_peak_eq state_wf_iff\<close>)
qed (use assms in \<open>auto simp: handler_def handler_defs rbind_Ok_iff Let_def track_peak_eq state_wf_iff
      zero_counters_def split: if_splits intro!: positions_wf_set positions_wf_pop\<close>)

section \<open>Facts on the fold\<close>

definition event_kind :: "event \<Rightarrow> event_type option" where
  "event_kind e = event_type_of_str (e_type e)"

definition event_cash :: "event \<Rightarrow> int" where
  "event_cash e = (case event_kind e of None \<Rightarrow> 0 | Some t \<Rightarrow> cash_effect t (event_row e))"

lemma reduce_cases:
  assumes "reduce s e = Ok s'"
  obtains (unknown) "event_kind e = None"
      "s' = s\<lparr>l_seq := e_seq e, l_unknown := l_unknown s @ [int_str (e_seq e) @ '':'' @ e_type e]\<rparr>"
    | (known) t s1 where "event_kind e = Some t" "handler t s (event_row e) (e_ts e) (e_cid e) = Ok s1"
      "s' = s1\<lparr>l_seq := e_seq e\<rparr>"
  using assms by (auto simp: reduce_def event_kind_def rbind_Ok_iff split: option.splits)

lemma reduce_cash: "reduce s e = Ok s' \<Longrightarrow> l_cash s' = l_cash s + event_cash e"
  by (erule reduce_cases) (auto simp: event_cash_def dest: handler_cash)

lemma fold_cash: "fold_events s es = Ok s' \<Longrightarrow> l_cash s' = l_cash s + sum_list (map event_cash es)"
  unfolding fold_events_def
  by (induction es arbitrary: s) (auto simp: rbind_Ok_iff dest!: reduce_cash)

lemma reduce_peak_mono: "reduce s e = Ok s' \<Longrightarrow> l_peak_equity s \<le> l_peak_equity s'"
  by (erule reduce_cases) (auto dest: handler_peak_mono)

definition fees_ok :: "event \<Rightarrow> bool" where
  "fees_ok e \<longleftrightarrow> (event_kind e = Some OrderRejected \<longrightarrow> row_int_or0 (event_row e) ''fees_lamports'' \<ge> 0)"

lemma reduce_peak_bounds:
  "reduce s e = Ok s' \<Longrightarrow> fees_ok e \<Longrightarrow> equity s \<le> l_peak_equity s \<Longrightarrow> equity s' \<le> l_peak_equity s'"
  by (erule reduce_cases) (auto simp: fees_ok_def dest: handler_peak_bounds)

lemma state_wf_seq:
  "state_wf (s\<lparr>l_seq := n\<rparr>) = state_wf s" "state_wf (s\<lparr>l_seq := n, l_unknown := u\<rparr>) = state_wf s"
  by (simp_all add: state_wf_def)

lemma reduce_wf: "reduce s e = Ok s' \<Longrightarrow> state_wf s \<Longrightarrow> state_wf s'"
  by (erule reduce_cases) (auto simp: state_wf_seq dest: handler_wf)

lemma reduce_halt:
  "reduce s e = Ok s' \<Longrightarrow> h_active (l_halt s') = (if event_kind e = Some HaltSet then True
     else if event_kind e = Some HaltCleared then False else h_active (l_halt s))"
  by (erule reduce_cases) (auto dest: handler_halt)

lemma reduce_kill:
  "reduce s e = Ok s' \<Longrightarrow> k_active (l_kill s') = (if event_kind e = Some KillSwitchSet then True
     else if event_kind e = Some KillSwitchCleared then False else k_active (l_kill s))"
  by (erule reduce_cases) (auto dest: handler_kill)

definition latched :: "('e \<Rightarrow> bool) \<Rightarrow> ('e \<Rightarrow> bool) \<Rightarrow> bool \<Rightarrow> 'e list \<Rightarrow> bool" where
  \<comment> \<open>the last event that sets or clears the flag decides, the start value if there is none\<close>
  "latched on off start es =
     (case List.find (\<lambda>e. on e \<or> off e) (rev es) of None \<Rightarrow> start | Some e \<Rightarrow> on e)"

lemma latched_Nil [simp]: "latched on off start [] \<longleftrightarrow> start"
  by (simp add: latched_def)

lemma latched_snoc:
  "latched on off start (es @ [e]) \<longleftrightarrow> (if on e then True else if off e then False else latched on off start es)"
  by (simp add: latched_def)

lemma latched_never_off:
  assumes "\<And>e. e \<in> set es \<Longrightarrow> \<not> off e" "start \<or> (\<exists>e \<in> set es. on e)"
  shows "latched on off start es"
  using assms by (induction es rule: rev_induct) (auto simp: latched_snoc)

lemma rfold_latched:
  assumes "rfold f s es = Ok s'"
    and "\<And>s e s'. f s e = Ok s' \<Longrightarrow> flag s' = (if on e then True else if off e then False else flag s)"
  shows "flag s' \<longleftrightarrow> latched on off (flag s) es"
  using assms(1)
proof (induction es arbitrary: s' rule: rev_induct)
  case (snoc e es)
  then obtain s1 where "rfold f s es = Ok s1" "f s1 e = Ok s'"
    by (auto simp: rfold_append rbind_Ok_iff)
  then show ?case using snoc.IH assms(2) by (simp add: latched_snoc)
qed simp

section \<open>Totality on validated rows\<close>

definition finite_peaks :: "(string, position) dict \<Rightarrow> bool" where
  "finite_peaks ps \<longleftrightarrow> (\<forall>(m, p) \<in> set ps. is_finite (p_price_peak p))"

definition mark_field_ok :: "(json \<Rightarrow> bool) \<Rightarrow> row \<Rightarrow> string \<Rightarrow> bool" where
  "mark_field_ok P mark k \<longleftrightarrow> (case map_of mark k of None \<Rightarrow> True | Some j \<Rightarrow> P j)"

definition is_JInt :: "json \<Rightarrow> bool" where
  "is_JInt j = (case j of JInt _ \<Rightarrow> True | _ \<Rightarrow> False)"

definition is_JStr :: "json \<Rightarrow> bool" where
  "is_JStr j = (case j of JStr _ \<Rightarrow> True | _ \<Rightarrow> False)"

definition is_price :: "json \<Rightarrow> bool" where
  "is_price j = (case j of JStr s \<Rightarrow> (case dec_of_str s of Some d \<Rightarrow> is_finite d | None \<Rightarrow> False) | _ \<Rightarrow> False)"

definition mark_ok :: "string \<times> json \<Rightarrow> bool" where
  \<comment> \<open>a mark the way the mark writer records it\<close>
  "mark_ok item = (case item of (m, JObj mark) \<Rightarrow>
       mark_field_ok is_JInt mark ''mtm_lamports'' \<and> mark_field_ok is_JInt mark ''venue_fee_lamports''
       \<and> mark_field_ok is_price mark ''spot'' \<and> mark_field_ok is_JStr mark ''ts_utc''
       \<and> mark_field_ok is_JStr mark ''source''
     | _ \<Rightarrow> True)"

definition marks_ok :: "event \<Rightarrow> bool" where
  "marks_ok e \<longleftrightarrow> (event_kind e = Some MarkToMarket \<longrightarrow>
     (case map_of (event_row e) ''prices_json'' of
        Some (JStr s) \<Rightarrow> (case loads s of Some (JObj prices) \<Rightarrow> list_all mark_ok prices | _ \<Rightarrow> True)
      | _ \<Rightarrow> True))"

lemma row_int_ok: "mark_field_ok is_JInt mark k \<Longrightarrow> \<exists>i. row_int mark k d = Ok i"
  by (auto simp: mark_field_ok_def row_int_def row_get_def dict_get_default_def is_JInt_def
      split: option.splits json.splits)

lemma row_str_ok: "mark_field_ok is_JStr mark k \<Longrightarrow> \<exists>s. row_str mark k d = Ok s"
  by (auto simp: mark_field_ok_def row_str_def row_get_def dict_get_default_def is_JStr_def
      split: option.splits json.splits)

lemma dec_of_str_0: "dec_of_str ''0'' = Some (DFin False 0 0)"
  by code_simp

lemma row_spot_ok: "mark_field_ok is_price mark k
    \<Longrightarrow> \<exists>s d. row_str mark k ''0'' = Ok s \<and> dec_of_str s = Some d \<and> is_finite d"
  by (auto simp: mark_field_ok_def row_str_def row_get_def dict_get_default_def is_price_def dec_of_str_0
      is_finite_def split: option.splits json.splits)

lemma finite_peaks_set: "finite_peaks ps \<Longrightarrow> is_finite (p_price_peak p) \<Longrightarrow> finite_peaks (dict_set ps m p)"
  using set_dict_set [of m p ps] by (auto simp: finite_peaks_def)

lemma finite_peaks_pop: "finite_peaks ps \<Longrightarrow> finite_peaks (dict_pop ps m)"
  using set_dict_pop [of m ps] by (auto simp: finite_peaks_def)

lemma finite_peaks_get: "finite_peaks ps \<Longrightarrow> map_of ps m = Some p \<Longrightarrow> is_finite (p_price_peak p)"
  by (auto simp: finite_peaks_def dest!: map_of_SomeD)

lemma apply_mark_total:
  assumes "mark_ok item" "finite_peaks ps"
  obtains ps' where "apply_mark ts ps item = Ok ps'" "finite_peaks ps'"
proof (cases "\<exists>m mark pos. item = (m, JObj mark) \<and> map_of ps m = Some pos \<and> \<not> p_mtm_frozen pos")
  case False
  then have "apply_mark ts ps item = Ok ps"
    by (auto simp: apply_mark_def split: prod.splits json.splits option.splits)
  with that assms(2) show thesis by blast
next
  case True
  then obtain m mark pos where i: "item = (m, JObj mark)" "map_of ps m = Some pos" "\<not> p_mtm_frozen pos"
    by blast
  with assms(1) have f: "mark_field_ok is_JInt mark ''mtm_lamports''"
    "mark_field_ok is_JInt mark ''venue_fee_lamports''" "mark_field_ok is_price mark ''spot''"
    "mark_field_ok is_JStr mark ''ts_utc''" "mark_field_ok is_JStr mark ''source''"
    by (simp_all add: mark_ok_def)
  obtain mtm where mtm: "row_int mark ''mtm_lamports'' (p_last_mtm pos) = Ok mtm"
    using row_int_ok [OF f(1)] by blast
  obtain venue where venue: "row_int mark ''venue_fee_lamports'' (p_last_mtm_venue_fee pos) = Ok venue"
    using row_int_ok [OF f(2)] by blast
  obtain spot d where spot: "row_str mark ''spot'' ''0'' = Ok spot" "dec_of_str spot = Some d" "is_finite d"
    using row_spot_ok [OF f(3)] by blast
  obtain mts where mts: "row_str mark ''ts_utc'' ts = Ok mts" using row_str_ok [OF f(4)] by blast
  obtain src where src: "row_str mark ''source'' ''curve'' = Ok src" using row_str_ok [OF f(5)] by blast
  obtain pk where pk: "dec_max (p_price_peak pos) d = Some pk" "is_finite pk"
    using dec_max_ge [OF finite_peaks_get [OF assms(2) i(2)] spot(3)] by blast
  have "apply_mark ts ps item = Ok (dict_set ps m (pos\<lparr>p_last_mtm_venue_fee := venue, p_last_mtm := mtm,
                  p_last_mtm_ts := mts, p_mtm_source := src, p_price_peak := pk\<rparr>))"
    by (simp add: apply_mark_def i mtm venue spot mts src pk of_option_def)
  with that finite_peaks_set [OF assms(2)] pk(2) show thesis by simp
qed

lemma marks_total:
  assumes "list_all mark_ok items" "finite_peaks ps"
  obtains ps' where "rfold (apply_mark ts) ps items = Ok ps'" "finite_peaks ps'"
  using assms
proof (induction items arbitrary: ps thesis)
  case (Cons i items)
  obtain ps1 where "apply_mark ts ps i = Ok ps1" "finite_peaks ps1"
    using apply_mark_total [of i ps] Cons.prems(2,3) by (metis list.pred_inject(2))
  then show ?case using Cons by auto
qed simp

lemma typed_row_int_ok:
  "typed_row fs row \<Longrightarrow> (k, FMoney, dflt) \<in> set fs \<Longrightarrow> \<exists>i. row_int row k d = Ok i"
  by (metis typed_row_int row_simps(2))

lemma typed_row_str_ok:
  "typed_row fs row \<Longrightarrow> (k, t, dflt) \<in> set fs \<Longrightarrow> t \<in> {FSource, FStr, FPrice, FNoteKind}
     \<Longrightarrow> \<exists>s. row_str row k d = Ok s"
  by (metis typed_row_str row_simps(1))

lemma typed_row_bool_ok:
  "typed_row fs row \<Longrightarrow> (k, FBool, dflt) \<in> set fs \<Longrightarrow> \<exists>b. row_bool row k d = Ok b"
  by (metis typed_row_bool row_simps(3))

lemma typed_row_price_ok:
  assumes "typed_row fs row" "(k, FPrice, dflt) \<in> set fs"
  shows "\<exists>d. price_of_json (row_get row k v) = Ok d \<and> is_finite d"
proof -
  obtain d where "map_of row k = Some (JStr (dec_str d))" "is_finite d"
    by (rule typed_row_price [OF assms])
  then show ?thesis
    by (intro exI [of _ d]) (simp add: row_get_def dict_get_default_def price_of_json_def price_decimal_def
        dec_roundtrip of_option_def)
qed

lemma track_peak_positions [simp]: "l_positions (track_peak s) = l_positions s"
  by (simp add: track_peak_eq)

lemma fill_position_total:
  assumes "typed_row fill_recorded_fields row" "finite_peaks ps"
  shows "\<exists>c' ps'. fill_position c ps row mint side cash_delta fee network = Ok (c', ps') \<and> finite_peaks ps'"
proof (cases "map_of ps mint")
  case None
  with assms(2) show ?thesis by (simp add: fill_position_def)
next
  case (Some pos)
  obtain filled where f: "row_int row ''filled_units'' 0 = Ok filled"
    using typed_row_int_ok [OF assms(1)] by (fastforce simp: fill_recorded_fields_def)
  have pk: "is_finite (p_price_peak pos)" by (rule finite_peaks_get [OF assms(2) Some])
  have "finite_peaks (dict_set ps mint (bought_position pos filled cash_delta fee))"
    "finite_peaks (dict_set ps mint (sold_position pos filled (cash_delta + network)))"
    using pk by (auto intro!: finite_peaks_set [OF assms(2)] simp: bought_position_def sold_position_def Let_def)
  with assms(2) Some f show ?thesis by (simp add: fill_position_def Let_def)
qed

lemma on_fill_total:
  assumes "typed_row fill_recorded_fields row" "finite_peaks (l_positions s)"
  shows "\<exists>s'. on_fill s row ts cid = Ok s' \<and> finite_peaks (l_positions s')"
proof -
  note i = typed_row_int_ok [OF assms(1)] and st = typed_row_str_ok [OF assms(1)]
  obtain cash where cash: "row_int row ''cash_delta_lamports'' 0 = Ok cash"
    using i by (fastforce simp: fill_recorded_fields_def)
  obtain venue where venue: "row_int row ''venue_fee_lamports'' 0 = Ok venue"
    using i by (fastforce simp: fill_recorded_fields_def)
  obtain network where network: "row_int row ''network_cost_lamports'' 0 = Ok network"
    using i by (fastforce simp: fill_recorded_fields_def)
  obtain mint where mint: "row_str row ''mint'' [] = Ok mint"
    using st by (fastforce simp: fill_recorded_fields_def)
  obtain side where side: "row_str row ''side'' [] = Ok side"
    using st by (fastforce simp: fill_recorded_fields_def)
  let ?c = "(let c0 = l_counters s; c1 = c0\<lparr>c_fees_today := c_fees_today c0 + (venue + network)\<rparr>
     in if side = ''buy'' then c1\<lparr>c_trades_today := c_trades_today c0 + 1\<rparr> else c1)"
  obtain c' ps' where "fill_position ?c (l_positions s) row mint side cash (venue + network) network = Ok (c', ps')"
    "finite_peaks ps'"
    using fill_position_total [OF assms] by blast
  then show ?thesis by (simp add: on_fill_def cash venue network mint side Let_def)
qed

lemma on_position_opened_total:
  assumes "typed_row position_opened_fields row" "finite_peaks (l_positions s)"
  shows "\<exists>s'. on_position_opened s row ts cid = Ok s' \<and> finite_peaks (l_positions s')"
proof -
  note i = typed_row_int_ok [OF assms(1)] and st = typed_row_str_ok [OF assms(1)]
  obtain mint where mint: "row_str row ''mint'' [] = Ok mint"
    using st by (fastforce simp: position_opened_fields_def)
  obtain symbol where symbol: "row_str row ''symbol'' [] = Ok symbol"
    using st by (fastforce simp: position_opened_fields_def)
  obtain creator where creator: "row_str row ''creator'' [] = Ok creator"
    using st by (fastforce simp: position_opened_fields_def)
  obtain ticket where ticket: "row_str row ''ticket_id'' [] = Ok ticket"
    using st by (fastforce simp: position_opened_fields_def)
  obtain units where units: "row_int row ''token_units'' 0 = Ok units"
    using i by (fastforce simp: position_opened_fields_def)
  obtain cost where cost: "row_int row ''cost_basis_lamports'' 0 = Ok cost"
    using i by (fastforce simp: position_opened_fields_def)
  obtain opened where opened: "row_str row ''opened_ts_utc'' ts = Ok opened"
    using st by (fastforce simp: position_opened_fields_def)
  obtain price where price: "price_of_json (row_get row ''price_entry'' (JStr ''0'')) = Ok price" "is_finite price"
    using typed_row_price_ok [OF assms(1), of "''price_entry''" None] by (auto simp: position_opened_fields_def)
  show ?thesis
    using assms(2) price(2)
    by (simp add: on_position_opened_def mint symbol creator ticket units cost opened price(1) finite_peaks_set)
qed

lemma on_mtm_total:
  assumes "typed_row mark_to_market_fields row" "finite_peaks (l_positions s)"
    and "case map_of row ''prices_json'' of
        Some (JStr p) \<Rightarrow> (case loads p of Some (JObj prices) \<Rightarrow> list_all mark_ok prices | _ \<Rightarrow> True)
      | _ \<Rightarrow> True"
  shows "\<exists>s'. on_mtm s row ts cid = Ok s' \<and> finite_peaks (l_positions s')"
proof -
  obtain p where p: "map_of row ''prices_json'' = Some (JStr p)"
    by (rule typed_row_str [OF assms(1), of "''prices_json''" FStr "Some (JStr [])"])
       (simp_all add: mark_to_market_fields_def)
  have pt: "prices_text row = Ok (if p \<noteq> [] then p else ''{}'')"
    by (simp add: prices_text_def row_get_def dict_get_default_def p py_bool_def)
  have e: "loads ''{}'' = Some (JObj [])" by code_simp
  have "\<exists>ps. (case loads (if p \<noteq> [] then p else ''{}'') of
        Some (JObj prices) \<Rightarrow> rfold (apply_mark ts) (l_positions s) prices
      | _ \<Rightarrow> Ok (l_positions s)) = Ok ps \<and> finite_peaks ps"
    using assms(2,3) marks_total [OF _ assms(2), of _ ts] p e
    by (auto split: option.splits json.splits)
  then show ?thesis by (auto simp: on_mtm_def pt)
qed

lemma is_ok_E: "is_ok m \<Longrightarrow> (\<And>x. m = Ok x \<Longrightarrow> thesis) \<Longrightarrow> thesis"
  by (auto simp: is_ok_iff)

lemma typed_is_ok:
  "typed_row fs row \<Longrightarrow> (k, FMoney, dflt) \<in> set fs \<Longrightarrow> is_ok (row_int row k di)"
  "typed_row fs row \<Longrightarrow> (k, FStr, dflt) \<in> set fs \<Longrightarrow> is_ok (row_str row k ds)"
  "typed_row fs row \<Longrightarrow> (k, FBool, dflt) \<in> set fs \<Longrightarrow> is_ok (row_bool row k db)"
  using typed_row_int_ok typed_row_str_ok typed_row_bool_ok by (auto simp: is_ok_iff)

lemma is_ok_rbind_I: "is_ok m \<Longrightarrow> (\<And>x. m = Ok x \<Longrightarrow> is_ok (f x)) \<Longrightarrow> is_ok (rbind m f)"
  by (auto simp: is_ok_iff)

lemma simple_handler_total:
  assumes "typed_row (event_model t) row" "t \<notin> {FillRecorded, PositionOpened, MarkToMarket}"
  shows "is_ok (handler t s row ts cid)"
  using assms
  by (cases t)
     (auto simp: handler_def handler_defs Let_def event_model_def
       intro!: is_ok_rbind_I elim!: typed_is_ok, simp_all add: event_field_defs)

lemma simple_handler_positions:
  assumes "handler t s row ts cid = Ok s'" "t \<notin> {FillRecorded, PositionOpened, MarkToMarket}"
    and "finite_peaks (l_positions s)"
  shows "finite_peaks (l_positions s')"
  using assms
  by (cases t) (auto simp: handler_def handler_defs rbind_Ok_iff Let_def finite_peaks_pop split: if_splits)

definition marks_row_ok :: "row \<Rightarrow> bool" where
  "marks_row_ok row = (case map_of row ''prices_json'' of
        Some (JStr s) \<Rightarrow> (case loads s of Some (JObj prices) \<Rightarrow> list_all mark_ok prices | _ \<Rightarrow> True)
      | _ \<Rightarrow> True)"

lemma handler_total:
  assumes "typed_row (event_model t) row" "finite_peaks (l_positions s)"
    and "t = MarkToMarket \<Longrightarrow> marks_row_ok row"
  shows "\<exists>s'. handler t s row ts cid = Ok s' \<and> finite_peaks (l_positions s')"
proof -
  consider "t = FillRecorded" | "t = PositionOpened" | "t = MarkToMarket"
    | "t \<notin> {FillRecorded, PositionOpened, MarkToMarket}" by blast
  then show ?thesis
  proof cases
    case 1
    then show ?thesis using on_fill_total assms(1,2) by (simp add: handler_def event_model_def)
  next
    case 2
    then show ?thesis using on_position_opened_total assms(1,2) by (simp add: handler_def event_model_def)
  next
    case 3
    then show ?thesis using on_mtm_total assms unfolding marks_row_ok_def
      by (simp add: handler_def event_model_def)
  next
    case 4
    then show ?thesis
      using simple_handler_total [OF assms(1) 4] simple_handler_positions assms(2) is_ok_iff by metis
  qed
qed

lemma reduce_total:
  assumes "typed_event e" "finite_peaks (l_positions s)" "marks_ok e"
  shows "\<exists>s'. reduce s e = Ok s' \<and> finite_peaks (l_positions s')"
proof -
  obtain t row where t: "event_type_of_str (e_type e) = Some t" "e_payload e = JObj row"
    "typed_row (event_model t) row"
    using assms(1) by (auto simp: typed_event_def)
  then have m: "t = MarkToMarket \<Longrightarrow> marks_row_ok row"
    using assms(3) by (simp add: marks_ok_def marks_row_ok_def event_kind_def event_row_def)
  obtain s1 where "handler t s row (e_ts e) (e_cid e) = Ok s1" "finite_peaks (l_positions s1)"
    using handler_total [OF t(3) assms(2) m] by blast
  then show ?thesis by (simp add: reduce_def t event_row_def)
qed

lemma fold_total:
  assumes "\<And>e. e \<in> set es \<Longrightarrow> typed_event e \<and> marks_ok e" "finite_peaks (l_positions s)"
  shows "\<exists>s'. fold_events s es = Ok s' \<and> finite_peaks (l_positions s')"
  using assms unfolding fold_events_def
proof (induction es arbitrary: s)
  case (Cons e es)
  obtain s1 where "reduce s e = Ok s1" "finite_peaks (l_positions s1)"
    using reduce_total Cons.prems by (metis list.set_intros(1))
  then show ?case using Cons by simp
qed simp

section \<open>A sale turns position value into cash\<close>

lemma sold_value:
  assumes "p_last_mtm_ts p \<noteq> []" "received \<le> p_last_mtm p"
  shows "held_value (m, sold_position p filled received) \<le> p_last_mtm p - received"
  using assms by (auto simp: held_value_def position_value_def sold_position_def Let_def)

lemma fill_sale_equity:
  assumes fill: "on_fill s row ts cid = Ok s'" and wf: "state_wf s"
    and m: "row_str row ''mint'' [] = Ok mint" "map_of (l_positions s) mint = Some pos"
    and side: "row_str row ''side'' [] = Ok side" "side \<noteq> ''buy''"
    and filled: "row_int row ''filled_units'' 0 = Ok filled" "filled > 0" "p_token_units pos > 0"
    and cash: "row_int row ''cash_delta_lamports'' 0 = Ok cash_delta"
    and network: "row_int row ''network_cost_lamports'' 0 = Ok network"
    and marked: "p_last_mtm_ts pos \<noteq> []" "cash_delta + network \<le> p_last_mtm pos"
  shows "equity s' \<le> equity s - network"
proof -
  let ?pos' = "sold_position pos filled (cash_delta + network)"
  obtain c where s': "s' = track_peak (s\<lparr>l_cash := l_cash s + cash_delta, l_counters := c,
      l_positions := dict_set (l_positions s) mint ?pos'\<rparr>)"
    using fill m side filled cash network
    by (auto simp: on_fill_def fill_position_def rbind_Ok_iff Let_def split: if_splits)
  have wfd: "wf_dict (l_positions s)" using wf by (simp add: state_wf_def)
  have "held_value (mint, pos) = p_last_mtm pos"
    using marked filled by (simp add: held_value_def position_value_def)
  moreover have "held_value (mint, ?pos') \<le> p_last_mtm pos - (cash_delta + network)"
    by (rule sold_value [OF marked])
  ultimately show ?thesis
    using sum_list_update_old [OF wfd m(2), of held_value ?pos'] by (simp add: s' track_peak_eq equity_def)
qed

section \<open>Properties\<close>

definition sample_event :: "string \<Rightarrow> int \<Rightarrow> row \<Rightarrow> event" where
  "sample_event ty n row = \<lparr>e_seq = n, e_ts = ''2026-01-01T00:00:00Z'', e_source = ''paper'', e_cid = ''c'',
     e_key = ''k'', e_type = ty, e_payload = JObj row, e_prev = [], e_hash = []\<rparr>"

definition sample_fill :: event where
  "sample_fill = sample_event ''FillRecorded'' 1
     [(''mint'', JStr ''M''), (''side'', JStr ''buy''), (''filled_units'', JInt 50),
      (''cash_delta_lamports'', JInt (-120)), (''venue_fee_lamports'', JInt 15), (''network_cost_lamports'', JInt 5)]"

definition sample_opened :: event where
  "sample_opened = sample_event ''PositionOpened'' 2
     [(''mint'', JStr ''M''), (''price_entry'', JStr ''2''), (''token_units'', JInt 50),
      (''cost_basis_lamports'', JInt 120)]"

definition sample_halt :: event where
  "sample_halt = sample_event ''HaltSet'' 3 [(''reason'', JStr ''daily_loss'')]"

definition sample_rejected :: event where
  "sample_rejected = sample_event ''OrderRejected'' 4
     [(''reason'', JStr ''slippage''), (''fees_lamports'', JInt 7)]"

definition sample_genesis :: lstate where
  "sample_genesis = initial_state ''paper'' 1000 ''2026-01-01''"

text \<open>
  C5: the cash equation. Whatever rows are folded, in whatever order, the cash of the result is the
  starting cash plus the cash deltas of the fills minus the fees of the rejected orders; no other row
  moves cash, and none is counted twice.
\<close>

theorem fold_cash_equation:
  assumes "fold_events s es = Ok s'"
  shows "l_cash s' = l_cash s + sum_list (map event_cash es)"
  by (rule fold_cash [OF assms])

theorem fold_cash_equation_witness:
  "\<exists>s'. fold_events sample_genesis [sample_fill, sample_opened, sample_rejected] = Ok s' \<and> l_cash s' = 873"
proof -
  have "is_ok (fold_events sample_genesis [sample_fill, sample_opened, sample_rejected])" by code_simp
  then obtain s' where s': "fold_events sample_genesis [sample_fill, sample_opened, sample_rejected] = Ok s'"
    by (auto simp: is_ok_iff)
  have "l_cash sample_genesis + sum_list (map event_cash [sample_fill, sample_opened, sample_rejected]) = 873"
    by code_simp
  then show ?thesis using fold_cash_equation [OF s'] s' by auto
qed

text \<open>
  The recorded peak bounds equity. From the genesis state, along every fold whose rejected orders
  carry no negative fee, current equity never exceeds the recorded peak, so a drawdown computed from
  the folded state is never negative.
\<close>

theorem fold_peak_bounds_equity:
  assumes "fold_events (initial_state src equity0 day) es = Ok s'" "\<forall>e \<in> set es. fees_ok e"
  shows "equity s' \<le> l_peak_equity s'"
proof (rule rfold_invariant [where P = "\<lambda>s. equity s \<le> l_peak_equity s"])
  show "rfold reduce (initial_state src equity0 day) es = Ok s'"
    using assms(1) by (simp add: fold_events_def)
  show "equity (initial_state src equity0 day) \<le> l_peak_equity (initial_state src equity0 day)"
    by (simp add: initial_state_def equity_def)
qed (use assms(2) reduce_peak_bounds in blast)

theorem fold_peak_bounds_equity_witness:
  "\<exists>s'. fold_events sample_genesis [sample_fill, sample_opened, sample_rejected] = Ok s'
     \<and> equity s' \<le> l_peak_equity s'"
proof -
  have "is_ok (fold_events sample_genesis [sample_fill, sample_opened, sample_rejected])" by code_simp
  then obtain s' where s': "fold_events sample_genesis [sample_fill, sample_opened, sample_rejected] = Ok s'"
    by (auto simp: is_ok_iff)
  have "fees_ok sample_fill" "fees_ok sample_opened" "fees_ok sample_rejected" by code_simp+
  then have "\<forall>e \<in> set [sample_fill, sample_opened, sample_rejected]. fees_ok e" by simp
  from fold_peak_bounds_equity [OF s' [unfolded sample_genesis_def] this] s' show ?thesis by blast
qed

text \<open>
  C0: the peak is a high-water mark. No event lowers it.
\<close>

theorem fold_peak_monotone:
  assumes "fold_events s es = Ok s'"
  shows "l_peak_equity s \<le> l_peak_equity s'"
proof (rule rfold_invariant [where P = "\<lambda>t. l_peak_equity s \<le> l_peak_equity t"])
  show "rfold reduce s es = Ok s'" using assms by (simp add: fold_events_def)
qed (use reduce_peak_mono order_trans in blast)+

theorem fold_peak_monotone_witness:
  "\<exists>s'. fold_events sample_genesis [sample_fill, sample_rejected] = Ok s' \<and> 1000 \<le> l_peak_equity s'"
proof -
  have "is_ok (fold_events sample_genesis [sample_fill, sample_rejected])" by code_simp
  then obtain s' where s': "fold_events sample_genesis [sample_fill, sample_rejected] = Ok s'"
    by (auto simp: is_ok_iff)
  have "l_peak_equity sample_genesis = 1000" by (simp add: sample_genesis_def initial_state_def)
  then show ?thesis using fold_peak_monotone [OF s'] s' by auto
qed

text \<open>
  A halt latches. After any fold, the halt is active exactly when the last \<open>HaltSet\<close> or
  \<open>HaltCleared\<close> row set it (or it was active before and none occurred); no fill, mark, rollover or
  unknown row touches it. The kill switch latches the same way.
\<close>

theorem fold_halt_latched:
  assumes "fold_events s es = Ok s'"
  shows "h_active (l_halt s') = latched (\<lambda>e. event_kind e = Some HaltSet)
           (\<lambda>e. event_kind e = Some HaltCleared) (h_active (l_halt s)) es
    \<and> k_active (l_kill s') = latched (\<lambda>e. event_kind e = Some KillSwitchSet)
           (\<lambda>e. event_kind e = Some KillSwitchCleared) (k_active (l_kill s)) es"
proof
  show "h_active (l_halt s') = latched (\<lambda>e. event_kind e = Some HaltSet)
      (\<lambda>e. event_kind e = Some HaltCleared) (h_active (l_halt s)) es"
    by (rule rfold_latched [OF assms [unfolded fold_events_def]]) (rule reduce_halt)
  show "k_active (l_kill s') = latched (\<lambda>e. event_kind e = Some KillSwitchSet)
      (\<lambda>e. event_kind e = Some KillSwitchCleared) (k_active (l_kill s)) es"
    by (rule rfold_latched [OF assms [unfolded fold_events_def]]) (rule reduce_kill)
qed

theorem fold_halt_latched_witness:
  "\<exists>s'. fold_events sample_genesis [sample_halt, sample_rejected] = Ok s' \<and> h_active (l_halt s')"
proof -
  have "is_ok (fold_events sample_genesis [sample_halt, sample_rejected])" by code_simp
  then obtain s' where s': "fold_events sample_genesis [sample_halt, sample_rejected] = Ok s'"
    by (auto simp: is_ok_iff)
  have "latched (\<lambda>e. event_kind e = Some HaltSet) (\<lambda>e. event_kind e = Some HaltCleared)
      (h_active (l_halt sample_genesis)) [sample_halt, sample_rejected]"
    by code_simp
  then show ?thesis using fold_halt_latched [OF s'] s' by auto
qed

text \<open>
  A sale alone does not lift equity. When a marked position is sold, wholly or in part, for no
  more than its last mark, equity after the fill is at most equity before it less the network cost.
\<close>

theorem sale_does_not_lift_equity:
  assumes "reduce s e = Ok s'" "state_wf s" "event_kind e = Some FillRecorded"
    and "row_str (event_row e) ''mint'' [] = Ok mint" "map_of (l_positions s) mint = Some pos"
    and "row_str (event_row e) ''side'' [] = Ok side" "side \<noteq> ''buy''"
    and "row_int (event_row e) ''filled_units'' 0 = Ok filled" "filled > 0" "p_token_units pos > 0"
    and "row_int (event_row e) ''cash_delta_lamports'' 0 = Ok cash_delta"
    and "row_int (event_row e) ''network_cost_lamports'' 0 = Ok network"
    and "p_last_mtm_ts pos \<noteq> []" "cash_delta + network \<le> p_last_mtm pos"
  shows "equity s' \<le> equity s - network"
proof -
  from assms(1,3) obtain s1 where s1: "on_fill s (event_row e) (e_ts e) (e_cid e) = Ok s1"
    and s': "s' = s1\<lparr>l_seq := e_seq e\<rparr>"
    by (elim reduce_cases) (auto simp: handler_def)
  show ?thesis
    using fill_sale_equity [OF s1 assms(2,4-14)] by (simp add: s')
qed

definition sample_held :: lstate where
  "sample_held = sample_genesis\<lparr>l_positions := [(''M'', \<lparr>p_mint = ''M'', p_symbol = [], p_creator = [],
     p_ticket_id = [], p_correlation_id = [], p_price_entry = DFin False 2 0, p_price_peak = DFin False 2 0,
     p_token_units = 50, p_cost_basis = 120, p_fees = 0, p_opened_ts = [], p_last_mtm = 200,
     p_last_mtm_venue_fee = 2, p_last_mtm_ts = ''t'', p_mtm_source = ''curve'', p_mtm_frozen = False\<rparr>)]\<rparr>"

definition sample_sale :: event where
  "sample_sale = sample_event ''FillRecorded'' 5
     [(''mint'', JStr ''M''), (''side'', JStr ''sell''), (''filled_units'', JInt 20),
      (''cash_delta_lamports'', JInt 65), (''network_cost_lamports'', JInt 5)]"

theorem sale_does_not_lift_equity_witness:
  "\<exists>s'. reduce sample_held sample_sale = Ok s' \<and> equity s' \<le> equity sample_held - 5"
proof -
  have "is_ok (reduce sample_held sample_sale)" by code_simp
  then obtain s' where s': "reduce sample_held sample_sale = Ok s'" by (auto simp: is_ok_iff)
  have "equity s' \<le> equity sample_held - 5"
    by (rule sale_does_not_lift_equity [OF s', of "''M''" "snd (hd (l_positions sample_held))" "''sell''" 20 65 5])
       code_simp+
  then show ?thesis using s' by blast
qed

end
