(* ===== verification/Views.thy ===== *)
theory Views
  imports Reducer
begin

text \<open>
  Derived views of \<open>ledger/views.py\<close> over the folded state and the event tail. Money is \<open>int\<close>,
  ratios are decimals divided in the default context. The lemmas tie the views to the fold:
  the equity view is the equity the peak is tracked on, ratios lie between zero and one, and
  the fee view over a window agrees with the fold's own fee counter.
\<close>

section \<open>Views of the state\<close>

definition cash_lamports :: "lstate \<Rightarrow> int" where
  "cash_lamports s = l_cash s"

definition positions :: "lstate \<Rightarrow> (string, position) dict" where
  "positions s = List.filter (\<lambda>(m, p). p_token_units p > 0) (l_positions s)"

definition unrealized_pnl_lamports :: "lstate \<Rightarrow> int" where
  "unrealized_pnl_lamports s =
     sum_list (map (\<lambda>p. position_value p - p_cost_basis p) (dict_values (positions s)))"

definition equity_lamports :: "lstate \<Rightarrow> int" where
  "equity_lamports s = l_cash s + sum_list (map position_value (dict_values (positions s)))"

definition dec_zero :: dec where "dec_zero = DFin False 0 0"

definition drawdown_fraction :: "lstate \<Rightarrow> dec option" where
  "drawdown_fraction s = (let peak = l_peak_equity s in
     if peak \<le> 0 then Some dec_zero
     else dec_div (dec_of_int (peak - equity_lamports s)) (dec_of_int peak))"

definition daily_pnl_fraction :: "lstate \<Rightarrow> dec option" where
  "daily_pnl_fraction s = (let start = l_day_start_equity s in
     if start \<le> 0 then Some dec_zero
     else dec_div (dec_of_int (equity_lamports s - start)) (dec_of_int start))"

section \<open>Views of the event tail\<close>

definition in_window :: "string \<Rightarrow> string \<Rightarrow> string \<Rightarrow> bool" where
  "in_window since until ts \<longleftrightarrow> since \<le> ts \<and> ts < until"

definition closed_in_range :: "event list \<Rightarrow> string \<Rightarrow> string \<Rightarrow> row list" where
  "closed_in_range es since until =
     map (\<lambda>e. dict_set (event_row e) ''_ts_utc'' (JStr (e_ts e)))
       (List.filter (\<lambda>e. e_type e = ''PositionClosed'' \<and> in_window since until (e_ts e)) es)"

definition realized_list :: "event list \<Rightarrow> string \<Rightarrow> string \<Rightarrow> int list result" where
  "realized_list es since until =
     rmap (\<lambda>row. row_int row ''realized_pnl_lamports'' 0) (closed_in_range es since until)"

definition realized_pnl_lamports :: "event list \<Rightarrow> string \<Rightarrow> string \<Rightarrow> int result" where
  "realized_pnl_lamports es since until = rbind (realized_list es since until) (\<lambda>xs. Ok (sum_list xs))"

definition fees_step :: "string \<Rightarrow> string \<Rightarrow> int \<Rightarrow> event \<Rightarrow> int result" where
  "fees_step since until acc e =
     (if \<not> in_window since until (e_ts e) then Ok acc
      else if e_type e = ''FillRecorded'' then
        rbind (row_int (event_row e) ''venue_fee_lamports'' 0) (\<lambda>v.
        rbind (row_int (event_row e) ''network_cost_lamports'' 0) (\<lambda>n. Ok (acc + (v + n))))
      else if e_type e = ''OrderRejected'' then
        rbind (row_int (event_row e) ''fees_lamports'' 0) (\<lambda>f. Ok (acc + f))
      else Ok acc)"

definition fees_lamports :: "event list \<Rightarrow> string \<Rightarrow> string \<Rightarrow> int result" where
  "fees_lamports es since until = rfold (fees_step since until) 0 es"

definition curve_step :: "lstate \<times> (string \<times> int) list \<Rightarrow> event \<Rightarrow> (lstate \<times> (string \<times> int) list) result" where
  "curve_step sc e = (case sc of (s, curve) \<Rightarrow>
     rbind (reduce s e) (\<lambda>s'. Ok (s',
       if e_type e \<in> {''FillRecorded'', ''OrderRejected'', ''MarkToMarket''}
       then curve @ [(e_ts e, equity_lamports s')] else curve)))"

definition equity_curve :: "event list \<Rightarrow> lstate \<Rightarrow> (string \<times> int) list result" where
  "equity_curve es genesis = rbind (rfold curve_step (genesis, []) es) (\<lambda>(s, curve). Ok curve)"

definition win_rate :: "event list \<Rightarrow> string \<Rightarrow> string \<Rightarrow> dec option result" where
  "win_rate es since until =
     (if closed_in_range es since until = [] then Ok None
      else rbind (realized_list es since until) (\<lambda>xs.
        Ok (dec_div (dec_of_int (int (length (List.filter (\<lambda>x. x > 0) xs)))) (dec_of_int (int (length xs))))))"

definition profit_factor :: "event list \<Rightarrow> string \<Rightarrow> string \<Rightarrow> string result" where
  "profit_factor es since until =
     rbind (realized_list es since until) (\<lambda>xs.
       let gains = sum_list (List.filter (\<lambda>x. x > 0) xs); losses = sum_list (List.filter (\<lambda>x. x < 0) xs)
       in if losses = 0 then Ok ''n/a''
          else (case dec_div (dec_of_int gains) (dec_of_int \<bar>losses\<bar>) of
                  Some d \<Rightarrow> Ok (dec_str d) | None \<Rightarrow> Err (ValueError ''DivisionByZero'')))"

section \<open>Lemmas\<close>

lemma equity_lamports_eq: "equity_lamports s = equity s"
proof -
  have "sum_list (map position_value (map snd (List.filter (\<lambda>(m, p). p_token_units p > 0) ps)))
      = sum_list (map held_value ps)" for ps :: "(string \<times> position) list"
    by (induction ps) (auto simp: held_value_def)
  then show ?thesis by (simp add: equity_lamports_def equity_def positions_def dict_values_def)
qed

lemma sum_list_diff:
  fixes f g :: "'a \<Rightarrow> int"
  shows "sum_list (map (\<lambda>x. f x - g x) xs) = sum_list (map f xs) - sum_list (map g xs)"
  by (induction xs) auto

lemma handler_fees:
  assumes "handler t s row ts cid = Ok s'" "t \<noteq> DailyRollover"
  shows "c_fees_today (l_counters s') = c_fees_today (l_counters s)
    + (if t = FillRecorded then row_int_or0 row ''venue_fee_lamports'' + row_int_or0 row ''network_cost_lamports''
       else if t = OrderRejected then row_int_or0 row ''fees_lamports'' else 0)"
proof (cases t)
  case FillRecorded
  then have "on_fill s row ts cid = Ok s'" using assms by (simp add: handler_def)
  then show ?thesis by (elim on_fill_cases) (simp add: track_peak_eq row_int_or0_def FillRecorded)
qed (use assms in \<open>auto simp: handler_def handler_defs rbind_Ok_iff Let_def track_peak_eq row_int_or0_def
      split: if_splits\<close>)

lemma handler_fee_fields:
  assumes "handler t s row ts cid = Ok s'"
  shows "t = FillRecorded \<Longrightarrow> row_int row ''venue_fee_lamports'' 0 = Ok (row_int_or0 row ''venue_fee_lamports'')
      \<and> row_int row ''network_cost_lamports'' 0 = Ok (row_int_or0 row ''network_cost_lamports'')"
    and "t = OrderRejected \<Longrightarrow> row_int row ''fees_lamports'' 0 = Ok (row_int_or0 row ''fees_lamports'')"
  using assms by (auto simp: handler_def on_fill_def on_rejected_def rbind_Ok_iff row_int_or0_def)

lemma reduce_fees:
  assumes "reduce s e = Ok s'" "event_kind e \<noteq> Some DailyRollover" "in_window since until (e_ts e)"
  shows "fees_step since until acc e
    = Ok (acc + (c_fees_today (l_counters s') - c_fees_today (l_counters s)))"
  using assms(1)
proof (cases rule: reduce_cases)
  case unknown
  have "e_type e \<noteq> ''FillRecorded''" "e_type e \<noteq> ''OrderRejected''"
    using unknown(1) event_type_of_str_value [of FillRecorded] event_type_of_str_value [of OrderRejected]
    by (auto simp: event_kind_def event_value_def)
  then show ?thesis using unknown(2) assms(3) by (simp add: fees_step_def)
next
  case (known t s1)
  have v: "event_value t = e_type e" using known(1) event_type_of_str_Some by (simp add: event_kind_def)
  have iff: "e_type e = ''FillRecorded'' \<longleftrightarrow> t = FillRecorded" "e_type e = ''OrderRejected'' \<longleftrightarrow> t = OrderRejected"
    unfolding v [symmetric] by (cases t; simp add: event_value_def)+
  have "t \<noteq> DailyRollover" using known(1) assms(2) by simp
  from handler_fees [OF known(2) this] handler_fee_fields [OF known(2)] known(3) assms(3) show ?thesis
    by (auto simp: fees_step_def iff)
qed

lemma fold_fees:
  assumes "fold_events s es = Ok s'" "\<forall>e \<in> set es. event_kind e \<noteq> Some DailyRollover \<and> in_window since until (e_ts e)"
  shows "rfold (fees_step since until) acc es
    = Ok (acc + (c_fees_today (l_counters s') - c_fees_today (l_counters s)))"
  using assms unfolding fold_events_def
proof (induction es arbitrary: s acc)
  case (Cons e es)
  then obtain s1 where s1: "reduce s e = Ok s1" "rfold reduce s1 es = Ok s'" by (auto simp: rbind_Ok_iff)
  then show ?case using Cons reduce_fees [OF s1(1), of since until acc] by simp
qed simp

lemma fraction_unit:
  assumes "0 \<le> x" "x \<le> y" "0 < y"
  shows "\<exists>r. dec_div (dec_of_int x) (dec_of_int y) = Some r \<and> 0 \<le> dec_val r \<and> dec_val r \<le> 1"
proof -
  have "nat x \<le> nat y" "0 < nat y" using assms by auto
  then obtain r where "dec_div (DFin False (nat x) 0) (DFin False (nat y) 0) = Some r"
    "0 \<le> dec_val r" "dec_val r \<le> 1"
    by (rule dec_div_unit)
  then show ?thesis using assms by (auto simp: dec_of_int_def)
qed

section \<open>Properties\<close>

text \<open>
  Equity is cash plus what the positions are worth. The equity view is the equity on which the
  fold tracks the peak, and it splits into cash, cost basis and unrealised profit of the open positions.
\<close>

theorem equity_decomposition:
  "equity_lamports s = equity s
   \<and> equity_lamports s = l_cash s + sum_list (map p_cost_basis (dict_values (positions s)))
       + unrealized_pnl_lamports s"
proof -
  have "unrealized_pnl_lamports s = sum_list (map position_value (dict_values (positions s)))
      - sum_list (map p_cost_basis (dict_values (positions s)))"
    unfolding unrealized_pnl_lamports_def by (rule sum_list_diff)
  then show ?thesis by (simp add: equity_lamports_eq [symmetric]) (simp add: equity_lamports_def)
qed

text \<open>
  The drawdown is a fraction. On every state folded from the genesis state without negative
  rejection fees and with non-negative equity, \<open>drawdown_fraction\<close> is defined and lies in [0, 1],
  the 28-digit rounding of the decimal division included.
\<close>

theorem drawdown_fraction_unit:
  assumes "fold_events (initial_state src equity0 day) es = Ok s" "\<forall>e \<in> set es. fees_ok e"
    and "0 \<le> equity_lamports s"
  shows "\<exists>d. drawdown_fraction s = Some d \<and> 0 \<le> dec_val d \<and> dec_val d \<le> 1"
proof (cases "l_peak_equity s \<le> 0")
  case True
  then show ?thesis by (simp add: drawdown_fraction_def dec_zero_def dec_val_def)
next
  case False
  have "equity s \<le> l_peak_equity s"
  proof (rule rfold_invariant [where P = "\<lambda>s. equity s \<le> l_peak_equity s"])
    show "rfold reduce (initial_state src equity0 day) es = Ok s" using assms(1) by (simp add: fold_events_def)
    show "equity (initial_state src equity0 day) \<le> l_peak_equity (initial_state src equity0 day)"
      by (simp add: initial_state_def equity_def)
  qed (use assms(2) reduce_peak_bounds in blast)
  with False assms(3) show ?thesis
    using fraction_unit [of "l_peak_equity s - equity_lamports s" "l_peak_equity s"]
    by (auto simp: drawdown_fraction_def equity_lamports_eq Let_def)
qed

theorem drawdown_fraction_unit_witness:
  "\<exists>s d. fold_events sample_genesis [sample_fill, sample_rejected] = Ok s \<and> drawdown_fraction s = Some d
     \<and> 0 \<le> dec_val d \<and> dec_val d \<le> 1"
proof -
  have "is_ok (rbind (fold_events sample_genesis [sample_fill, sample_rejected])
      (\<lambda>s. rguard (0 \<le> equity_lamports s) AssertionError))" by code_simp
  then obtain s where s: "fold_events sample_genesis [sample_fill, sample_rejected] = Ok s" "0 \<le> equity_lamports s"
    by (auto simp: is_ok_iff rbind_Ok_iff)
  have "fees_ok sample_fill" "fees_ok sample_rejected" by code_simp+
  then have "\<forall>e \<in> set [sample_fill, sample_rejected]. fees_ok e" by simp
  from drawdown_fraction_unit [OF s(1) [unfolded sample_genesis_def] this s(2)] s(1) show ?thesis by blast
qed

text \<open>
  Two ways to count fees agree. Over any window that contains all the events folded and no day
  rollover, the fee view returns exactly the growth of the fold's fee counter, so a fee is neither
  lost nor counted twice.
\<close>

theorem fees_view_matches_counter:
  assumes "fold_events s es = Ok s'"
    and "\<forall>e \<in> set es. event_kind e \<noteq> Some DailyRollover \<and> in_window since until (e_ts e)"
  shows "fees_lamports es since until = Ok (c_fees_today (l_counters s') - c_fees_today (l_counters s))"
  using fold_fees [OF assms, of 0] by (simp add: fees_lamports_def)

theorem fees_view_matches_counter_witness:
  "\<exists>s. fold_events sample_genesis [sample_fill, sample_rejected] = Ok s
     \<and> fees_lamports [sample_fill, sample_rejected] ''2026-01-01'' ''2026-01-02''
       = Ok (c_fees_today (l_counters s) - 0)"
proof -
  have "is_ok (fold_events sample_genesis [sample_fill, sample_rejected])" by code_simp
  then obtain s where s: "fold_events sample_genesis [sample_fill, sample_rejected] = Ok s" by (auto simp: is_ok_iff)
  have "list_all (\<lambda>e. event_kind e \<noteq> Some DailyRollover \<and> in_window ''2026-01-01'' ''2026-01-02'' (e_ts e))
      [sample_fill, sample_rejected]" by code_simp
  then have "\<forall>e \<in> set [sample_fill, sample_rejected]. event_kind e \<noteq> Some DailyRollover
      \<and> in_window ''2026-01-01'' ''2026-01-02'' (e_ts e)" by (simp add: list_all_iff)
  moreover have "c_fees_today (l_counters sample_genesis) = 0"
    by (simp add: sample_genesis_def initial_state_def zero_counters_def)
  ultimately show ?thesis using fees_view_matches_counter [OF s] s by metis
qed

end
