(* ===== verification/Floats.thy ===== *)
theory Floats
  imports Prelude Complex_Main "HOL-Library.Log_Nat"
begin

text \<open>
  Binary floating point as the sizing code uses it: a float is the rational it denotes, and every
  arithmetic result is rounded to 53 significant bits, half to even (\<open>fl\<close>). The exponent range is
  not modelled: the values are lamport amounts and scores. \<open>rhe\<close> is Python's \<open>round\<close> to an integer.
\<close>

definition rhe :: "rat \<Rightarrow> int" where
  "rhe x = (let f = \<lfloor>x\<rfloor>; d = x - of_int f in
     if d > 1 / 2 \<or> (d = 1 / 2 \<and> odd f) then f + 1 else f)"

definition fl_exp :: "rat \<Rightarrow> int" where
  "fl_exp x = (let (n, d) = quotient_of \<bar>x\<bar>; k = bitlen n - bitlen d - 52
     in if \<bar>x\<bar> < 2 ^ 52 * 2 powi k then k - 1 else k)"

definition fl :: "rat \<Rightarrow> rat" where
  "fl x = (if x = 0 then 0 else of_int (rhe (x / 2 powi fl_exp x)) * 2 powi fl_exp x)"

lemma rhe_le: "x \<le> of_int m \<Longrightarrow> rhe x \<le> m"
proof -
  assume x: "x \<le> of_int m"
  then have "\<lfloor>x\<rfloor> \<le> m" by (simp add: floor_le_iff)
  moreover have "x - of_int \<lfloor>x\<rfloor> = 0" if "\<lfloor>x\<rfloor> = m"
  proof -
    have "of_int m \<le> x" using that by (metis of_int_floor_le)
    with x that show ?thesis by simp
  qed
  ultimately show ?thesis by (cases "\<lfloor>x\<rfloor> = m") (auto simp: rhe_def Let_def)
qed

lemma rhe_ge: "of_int m \<le> x \<Longrightarrow> m \<le> rhe x"
proof -
  assume "of_int m \<le> x"
  then have "m \<le> \<lfloor>x\<rfloor>" by (simp add: le_floor_iff)
  then show ?thesis by (auto simp: rhe_def Let_def)
qed

lemma rhe_of_int [simp]: "rhe (of_int m) = m"
  using rhe_le [of "of_int m" m] rhe_ge [of m "of_int m"] by simp

lemma rhe_mono: "x \<le> y \<Longrightarrow> rhe x \<le> rhe y"
proof -
  assume xy: "x \<le> y"
  then have f: "\<lfloor>x\<rfloor> \<le> \<lfloor>y\<rfloor>" by (rule floor_mono)
  show ?thesis
  proof (cases "\<lfloor>x\<rfloor> = \<lfloor>y\<rfloor>")
    case True
    then show ?thesis using xy by (auto simp: rhe_def Let_def)
  next
    case False
    then have "rhe x \<le> \<lfloor>y\<rfloor>" using f by (auto simp: rhe_def Let_def)
    also have "\<dots> \<le> rhe y" by (auto simp: rhe_def Let_def)
    finally show ?thesis .
  qed
qed

lemma fl_exp_lower:
  assumes "x \<noteq> 0"
  shows "2 ^ 52 * 2 powi fl_exp x \<le> \<bar>x\<bar>"
proof -
  obtain n d where q: "quotient_of \<bar>x\<bar> = (n, d)" by force
  have d: "0 < d" using quotient_of_denom_pos [OF q] .
  have x: "\<bar>x\<bar> = of_int n / of_int d" by (rule quotient_of_div [OF q])
  have n: "0 < n"
    using assms d x by (metis abs_ge_zero abs_eq_0 of_int_0_less_iff zero_less_divide_iff less_le of_int_0_le_iff
        zero_le_divide_iff divide_eq_0_iff of_int_0 linorder_not_less order_less_asym)
  define k where "k = bitlen n - bitlen d - 52"
  have bn: "2 ^ nat (bitlen n - 1) \<le> n" using bitlen_bounds [OF n] by simp
  have bd: "d < 2 ^ nat (bitlen d)" using bitlen_bounds [OF d] by simp
  have bd': "(of_int d :: rat) \<le> 2 ^ nat (bitlen d)"
    using bd by (metis less_imp_le of_int_le_iff of_int_numeral of_int_power)
  have posn: "0 < bitlen n" "0 < bitlen d" using n d bitlen_alt_def by auto
  have "(2::rat) ^ 52 * 2 powi (k - 1) * of_int d \<le> 2 ^ 52 * 2 powi (k - 1) * 2 ^ nat (bitlen d)"
    by (rule mult_left_mono [OF bd']) simp
  also have "\<dots> = 2 powi (52 + (k - 1) + bitlen d)"
    using posn by (simp add: power_int_add power_int_diff power_int_def [of _ "bitlen d"])
  also have "\<dots> \<le> 2 powi (bitlen n - 1)"
    by (intro power_int_increasing) (simp_all add: k_def)
  also have "\<dots> = 2 ^ nat (bitlen n - 1)"
    using posn by (simp add: power_int_def)
  also have "\<dots> \<le> of_int n"
    using bn by (metis of_int_le_iff of_int_numeral of_int_power)
  finally have "2 ^ 52 * 2 powi (k - 1) \<le> \<bar>x\<bar>"
    using d by (simp add: x pos_le_divide_eq)
  then show ?thesis by (simp add: fl_exp_def q Let_def k_def)
qed

lemma fl_exp_upper:
  assumes "x \<noteq> 0"
  shows "\<bar>x\<bar> < 2 ^ 53 * 2 powi fl_exp x"
proof -
  obtain n d where q: "quotient_of \<bar>x\<bar> = (n, d)" by force
  have d: "0 < d" using quotient_of_denom_pos [OF q] .
  have x: "\<bar>x\<bar> = of_int n / of_int d" by (rule quotient_of_div [OF q])
  have n: "0 < n"
    using assms d x by (metis abs_ge_zero abs_eq_0 of_int_0_less_iff zero_less_divide_iff less_le of_int_0_le_iff
        zero_le_divide_iff divide_eq_0_iff of_int_0 linorder_not_less order_less_asym)
  define k where "k = bitlen n - bitlen d - 52"
  have posn: "0 < bitlen n" "0 < bitlen d" using n d bitlen_alt_def by auto
  have bn: "(of_int n :: rat) < 2 ^ nat (bitlen n)"
    using bitlen_bounds [OF n] by (metis of_int_less_iff of_int_numeral of_int_power)
  have bd: "(2 :: rat) ^ nat (bitlen d - 1) \<le> of_int d"
    using bitlen_bounds [OF d] by (metis of_int_le_iff of_int_numeral of_int_power)
  have "(of_int n :: rat) < 2 powi (53 + k + (bitlen d - 1))"
    using bn posn by (simp add: power_int_def k_def)
  also have "\<dots> = 2 powi (53 + k) * 2 powi (bitlen d - 1)" by (rule power_int_add) simp
  also have "\<dots> = 2 ^ 53 * 2 powi k * 2 ^ nat (bitlen d - 1)"
    using posn by (simp add: power_int_def [of _ "bitlen d - 1"] power_int_add)
  also have "\<dots> \<le> 2 ^ 53 * 2 powi k * of_int d" by (rule mult_left_mono [OF bd]) simp
  finally have "\<bar>x\<bar> < 2 ^ 53 * 2 powi k" using d by (simp add: x pos_divide_less_eq)
  moreover have "(2 :: rat) ^ 53 * 2 powi (k - 1) = 2 ^ 52 * 2 powi k" by (simp add: power_int_diff)
  ultimately show ?thesis by (simp add: fl_exp_def q Let_def k_def)
qed

lemma fl_nonneg: "0 \<le> x \<Longrightarrow> 0 \<le> fl x"
  by (simp add: fl_def rhe_ge)

lemma fl_le:
  assumes "x \<le> of_int m" "0 \<le> m" "m < 2 ^ 53"
  shows "fl x \<le> of_int m"
proof (cases "x \<le> 0")
  case True
  then show ?thesis
  proof (cases "x = 0")
    case False
    have "rhe (x / 2 powi fl_exp x) \<le> 0" using True by (intro rhe_le) (simp add: divide_nonpos_pos)
    then have "fl x \<le> 0" using False by (simp add: fl_def mult_nonpos_nonneg)
    then show ?thesis using assms(2) by (meson of_int_0_le_iff order_trans)
  qed (use assms in \<open>simp add: fl_def\<close>)
next
  case False
  define e where "e = fl_exp x"
  have "2 ^ 52 * 2 powi e \<le> x" using fl_exp_lower [of x] False by (simp add: e_def)
  also have "\<dots> < 2 ^ 53" using assms by (metis le_less_trans of_int_less_iff of_int_numeral of_int_power)
  finally have "(2::rat) powi (52 + e) < 2 powi 53" by (simp add: power_int_add)
  have e: "e \<le> 0"
  proof (rule ccontr)
    assume "\<not> e \<le> 0"
    then have "(2::rat) powi 53 \<le> 2 powi (52 + e)" by (intro power_int_increasing) auto
    with \<open>2 powi (52 + e) < 2 powi 53\<close> show False by simp
  qed
  have "(2::rat) ^ nat (- e) * 2 powi e = 1"
    using e by (simp add: power_int_def power_one_over)
  then have m: "of_int m / 2 powi e = (of_int (m * 2 ^ nat (- e)) :: rat)"
    by (simp add: divide_eq_eq mult.assoc)
  have "x / 2 powi e \<le> of_int (m * 2 ^ nat (- e))"
    unfolding m [symmetric] using assms(1) by (simp add: divide_right_mono)
  then have "rhe (x / 2 powi e) \<le> m * 2 ^ nat (- e)" by (rule rhe_le)
  then have "(of_int (rhe (x / 2 powi e)) :: rat) \<le> of_int m / 2 powi e"
    unfolding m by (rule of_int_le_iff [THEN iffD2])
  then have "of_int (rhe (x / 2 powi e)) * 2 powi e \<le> (of_int m :: rat)"
    by (simp add: pos_le_divide_eq)
  then show ?thesis using False by (simp add: fl_def e_def)
qed

end
