(* ===== verification/Curve.thy ===== *)
theory Curve
  imports Decimals Floats
begin

text \<open>
  The integer arithmetic of a paper fill: the bonding curve (\<open>execution/curve_math.py\<close>), the fees
  (\<open>execution/fees.py\<close>), the confirmation latency (\<open>execution/latency.py\<close>), the position sizer
  (\<open>risk/sizing.py\<close>) and the SOL conversions (\<open>core/units.py\<close>). Python's \<open>//\<close> is \<open>div\<close>.
  Both sides of the curve are one constant-product pool seen from its two ends; the locale
  \<open>constant_product\<close> states what a quote promises and is interpreted for buys and for sells.
\<close>

section \<open>The curve\<close>

definition spot :: "int \<Rightarrow> int \<Rightarrow> dec result" where
  "spot s t = (if t \<le> 0 then Err (ValueError ''token reserves must be positive'')
     else of_option (ValueError ''division'') (dec_div (dec_of_int s) (dec_of_int t)))"

definition buy_out :: "int \<Rightarrow> int \<Rightarrow> int \<Rightarrow> int result" where
  "buy_out s t x =
     (if s \<le> 0 \<or> t \<le> 0 then Err (ValueError ''reserves must be positive'')
      else if x \<le> 0 then Err (ValueError ''lamports in must be positive'')
      else Ok (t * x div (s + x)))"

definition sell_out :: "int \<Rightarrow> int \<Rightarrow> int \<Rightarrow> int result" where
  "sell_out s t tin =
     (if s \<le> 0 \<or> t \<le> 0 then Err (ValueError ''reserves must be positive'')
      else if tin \<le> 0 then Err (ValueError ''token units in must be positive'')
      else Ok (s * tin div (t + tin)))"

definition impact_buy :: "int \<Rightarrow> int \<Rightarrow> dec result" where
  "impact_buy s x = (if s \<le> 0 then Err (ValueError ''SOL reserves must be positive'')
     else of_option (ValueError ''division'') (dec_div (dec_of_int x) (dec_of_int s)))"

definition impact_sell :: "int \<Rightarrow> int \<Rightarrow> dec result" where
  "impact_sell t tin = (if t \<le> 0 then Err (ValueError ''token reserves must be positive'')
     else of_option (ValueError ''division'') (dec_div (dec_of_int tin) (dec_of_int (t + tin))))"

definition post_buy :: "int \<Rightarrow> int \<Rightarrow> int \<Rightarrow> (int \<times> int) result" where
  "post_buy s t x = rbind (buy_out s t x) (\<lambda>out. Ok (s + x, t - out))"

definition post_sell :: "int \<Rightarrow> int \<Rightarrow> int \<Rightarrow> (int \<times> int) result" where
  "post_sell s t tin = rbind (sell_out s t tin) (\<lambda>out. Ok (s - out, t + tin))"

section \<open>Fees and latency\<close>

record fee_model =
  venue_fee_bps :: int
  base_fee_lamports :: int
  compute_units :: int
  micro_lamports_per_cu :: int

definition default_fees :: fee_model where
  "default_fees = \<lparr>venue_fee_bps = 100, base_fee_lamports = 5000, compute_units = 200000,
     micro_lamports_per_cu = 20000\<rparr>"

definition venue_fee :: "fee_model \<Rightarrow> int \<Rightarrow> int" where
  "venue_fee f amount = amount * venue_fee_bps f div 10000"

definition priority_fee :: "fee_model \<Rightarrow> int" where
  "priority_fee f = micro_lamports_per_cu f * compute_units f div 1000000"

definition network_cost :: "fee_model \<Rightarrow> int" where
  "network_cost f = base_fee_lamports f + priority_fee f"

definition buy_net :: "fee_model \<Rightarrow> int \<Rightarrow> int" where
  "buy_net f filled = filled - venue_fee f filled"

definition buy_debit :: "fee_model \<Rightarrow> int \<Rightarrow> int" where
  "buy_debit f filled = filled + network_cost f"

definition sell_proceeds :: "fee_model \<Rightarrow> int \<Rightarrow> int" where
  "sell_proceeds f gross = gross - venue_fee f gross - network_cost f"

definition draw_latency ::
  "('g \<Rightarrow> rat \<times> 'g) \<Rightarrow> ('g \<Rightarrow> rat \<times> 'g) \<Rightarrow> 'g \<Rightarrow> rat \<Rightarrow> (rat \<times> bool) \<times> 'g" where
  \<comment> \<open>\<open>lognormal\<close> and \<open>uniform\<close> draw from the seeded generator, whose state is \<open>g\<close>\<close>
  "draw_latency lognormal uniform g p_drop =
     (let (draw, g1) = lognormal g;
          latency = min 20 (max (fl (2 / 5)) draw);
          (u, g2) = uniform g1
      in ((latency, u < p_drop), g2))"

section \<open>Sizing and units\<close>

definition MIN_TRADE_LAMPORTS :: int where "MIN_TRADE_LAMPORTS = 10000000"

definition MAX_SHARE_OF_REMAINING_BUDGET :: rat where "MAX_SHARE_OF_REMAINING_BUDGET = fl (3 / 10)"

definition position_size_lamports :: "rat option \<Rightarrow> int \<Rightarrow> int \<Rightarrow> int" where
  \<comment> \<open>\<open>None\<close> is a NaN score: \<open>min(1.0, nan)\<close> is \<open>1.0\<close> in Python\<close>
  "position_size_lamports score max_trade remaining =
     (let clamped = max 0 (case score of None \<Rightarrow> 1 | Some x \<Rightarrow> min 1 x);
          by_score = fl (fl (of_int max_trade) * clamped);
          by_budget = fl (fl (of_int remaining) * MAX_SHARE_OF_REMAINING_BUDGET)
      in rhe (min by_score by_budget))"

definition VENDOR_REASON_TO_R34 :: "(string, string) dict" where
  "VENDOR_REASON_TO_R34 = [(''daily_loss_limit_hit'', ''daily_loss_halt''),
     (''max_trades_per_day'', ''max_trades_per_day''), (''max_open_positions'', ''max_open_positions''),
     (''already_open'', ''already_open''), (''size_too_small'', ''size_too_small''), (''ok'', ''ok'')]"

definition to_r34_reason :: "string \<Rightarrow> string result" where
  "to_r34_reason vendor_reason =
     of_option (ValueError ''unknown vendor evaluate reason'')
       (map_of VENDOR_REASON_TO_R34 (strip (takeWhile (\<lambda>c. c \<noteq> CHR ''('') vendor_reason)))"

definition LAMPORTS_PER_SOL :: int where "LAMPORTS_PER_SOL = 1000000000"

definition sol_to_lamports :: "dec \<Rightarrow> int option" where
  "sol_to_lamports value = dec_to_int_half_up (dec_mul_int value LAMPORTS_PER_SOL)"

definition lamports_to_sol :: "dec \<Rightarrow> dec option" where
  "lamports_to_sol value = dec_div value (dec_of_int LAMPORTS_PER_SOL)"

definition split_lamports :: "int \<Rightarrow> int \<times> int" where
  "split_lamports l = (\<bar>l\<bar> div LAMPORTS_PER_SOL, \<bar>l\<bar> mod LAMPORTS_PER_SOL)"

section \<open>The constant-product contract\<close>

definition ok_or :: "int \<Rightarrow> int result \<Rightarrow> int" where
  "ok_or d r = (case r of Inr x \<Rightarrow> x | Inl _ \<Rightarrow> d)"

text \<open>
  \<open>quote ri ro a\<close> is what the pool with reserves \<open>ri\<close> of the asset paid in and \<open>ro\<close> of the asset
  paid out gives for \<open>a\<close>: at most the constant-product amount, and never less than one unit under it.
\<close>

locale constant_product =
  fixes quote :: "int \<Rightarrow> int \<Rightarrow> int \<Rightarrow> int"
  assumes quote_le: "0 < ri \<Longrightarrow> 0 < ro \<Longrightarrow> 0 < a \<Longrightarrow> quote ri ro a * (ri + a) \<le> ro * a"
    and quote_ge: "0 < ri \<Longrightarrow> 0 < ro \<Longrightarrow> 0 < a \<Longrightarrow> ro * a < (quote ri ro a + 1) * (ri + a)"
begin

lemma quote_nonneg: "0 < ri \<Longrightarrow> 0 < ro \<Longrightarrow> 0 < a \<Longrightarrow> 0 \<le> quote ri ro a"
proof (rule ccontr)
  assume p: "0 < ri" "0 < ro" "0 < a" and "\<not> 0 \<le> quote ri ro a"
  then have "(quote ri ro a + 1) * (ri + a) \<le> 0" by (simp add: mult_nonpos_nonneg)
  with quote_ge [OF p] p show False by (smt (verit) mult_pos_pos)
qed

lemma quote_less: "0 < ri \<Longrightarrow> 0 < ro \<Longrightarrow> 0 < a \<Longrightarrow> quote ri ro a < ro"
proof (rule ccontr)
  assume p: "0 < ri" "0 < ro" "0 < a" and "\<not> quote ri ro a < ro"
  then have "ro * (ri + a) \<le> quote ri ro a * (ri + a)" by (intro mult_right_mono) auto
  with quote_le [OF p] have "ro * (ri + a) \<le> ro * a" by linarith
  moreover have "0 < ro * ri" using p by simp
  ultimately show False by (simp add: distrib_left)
qed

lemma product_kept:
  assumes "0 < ri" "0 < ro" "0 < a"
  shows "ri * ro \<le> (ri + a) * (ro - quote ri ro a)"
  using quote_le [OF assms] by (simp add: algebra_simps)

lemma quote_max: "0 < ri \<Longrightarrow> 0 < ro \<Longrightarrow> 0 < a \<Longrightarrow> q * (ri + a) \<le> ro * a \<Longrightarrow> q \<le> quote ri ro a"
proof -
  assume p: "0 < ri" "0 < ro" "0 < a" and q: "q * (ri + a) \<le> ro * a"
  with quote_ge [OF p] have "q * (ri + a) < (quote ri ro a + 1) * (ri + a)" by linarith
  with p show "q \<le> quote ri ro a" by (simp add: mult_less_cancel_right)
qed

lemma quote_mono:
  assumes "0 < ri" "0 < ro" "0 < a" "a \<le> b"
  shows "quote ri ro a \<le> quote ri ro b"
proof (rule quote_max)
  have "quote ri ro a * ri + quote ri ro a * (b - a) + quote ri ro a * a \<le> ro * a + ro * (b - a)"
    using quote_le [OF assms(1-3)] mult_right_mono [of "quote ri ro a" ro "b - a"] quote_less [OF assms(1-3)] assms(4)
    by (simp add: distrib_left)
  then show "quote ri ro a * (ri + b) \<le> ro * b" by (simp add: algebra_simps)
qed (use assms in auto)

end

lemma div_quote:
  fixes n d :: int
  assumes "0 < d"
  shows "n div d * d \<le> n" "n < (n div d + 1) * d"
  using assms by (simp_all add: distrib_right minus_mod_eq_div_mult [symmetric] pos_mod_bound)

interpretation buy_side: constant_product "\<lambda>s t x. ok_or 0 (buy_out s t x)"
  by unfold_locales (use div_quote in \<open>auto simp: buy_out_def ok_or_def\<close>)

interpretation sell_side: constant_product "\<lambda>t s tin. ok_or 0 (sell_out s t tin)"
  by unfold_locales (use div_quote in \<open>auto simp: sell_out_def ok_or_def\<close>)

text \<open>A venue that quotes both directions; nothing is gained by going round.\<close>

locale two_sided = buy: constant_product buy_quote + sell: constant_product sell_quote
  for buy_quote :: "int \<Rightarrow> int \<Rightarrow> int \<Rightarrow> int" and sell_quote :: "int \<Rightarrow> int \<Rightarrow> int \<Rightarrow> int"
begin

lemma no_round_trip_gain:
  assumes "0 < s" "0 < t" "0 < x" "0 < buy_quote s t x"
  shows "sell_quote (t - buy_quote s t x) (s + x) (buy_quote s t x) \<le> x"
proof -
  let ?q = "buy_quote s t x"
  have "0 < t - ?q" using buy.quote_less [of s t x] assms by simp
  then have "sell_quote (t - ?q) (s + x) ?q * t \<le> (s + x) * ?q"
    using sell.quote_le [of "t - ?q" "s + x" ?q] assms by simp
  also have "\<dots> \<le> x * t"
    using buy.quote_le [of s t x] assms by (simp add: mult.commute)
  finally show ?thesis using assms by simp
qed

end

interpretation curve: two_sided "\<lambda>s t x. ok_or 0 (buy_out s t x)" "\<lambda>t s tin. ok_or 0 (sell_out s t tin)"
  by unfold_locales

section \<open>Lemmas\<close>

lemma buy_out_Ok: "buy_out s t x = Ok q \<longleftrightarrow> 0 < s \<and> 0 < t \<and> 0 < x \<and> q = t * x div (s + x)"
  by (auto simp: buy_out_def)

lemma sell_out_Ok: "sell_out s t tin = Ok q \<longleftrightarrow> 0 < s \<and> 0 < t \<and> 0 < tin \<and> q = s * tin div (t + tin)"
  by (auto simp: sell_out_def)

lemma buy_quoted: "buy_out s t x = Ok q \<Longrightarrow> ok_or 0 (buy_out s t x) = q"
  by (simp add: ok_or_def)

lemma sell_quoted: "sell_out s t x = Ok q \<Longrightarrow> ok_or 0 (sell_out s t x) = q"
  by (simp add: ok_or_def)

lemma venue_fee_bounds:
  assumes "0 \<le> venue_fee_bps f" "venue_fee_bps f \<le> 10000" "0 \<le> amount"
  shows "0 \<le> venue_fee f amount" "venue_fee f amount \<le> amount"
proof -
  have "amount * venue_fee_bps f \<le> amount * 10000" using assms by (intro mult_left_mono) auto
  then have "amount * venue_fee_bps f div 10000 \<le> amount * 10000 div 10000" by (intro zdiv_mono1) auto
  then show "venue_fee f amount \<le> amount" by (simp add: venue_fee_def)
  show "0 \<le> venue_fee f amount" using assms by (simp add: venue_fee_def pos_imp_zdiv_nonneg_iff)
qed

lemma share_le: "MAX_SHARE_OF_REMAINING_BUDGET \<le> 3 / 10"
proof -
  have "MAX_SHARE_OF_REMAINING_BUDGET = 5404319552844595 / 2 ^ 54" by code_simp
  then show ?thesis by simp
qed

lemma share_nonneg: "0 \<le> MAX_SHARE_OF_REMAINING_BUDGET"
  by (simp add: MAX_SHARE_OF_REMAINING_BUDGET_def fl_nonneg)

section \<open>Properties\<close>

text \<open>
  C23: the pool never pays out more than it keeps. A buy or a sell that the curve accepts leaves
  positive reserves whose product is at least the product before, so flooring always favours the pool.
\<close>

theorem curve_product_never_falls:
  "(post_buy s t x = Ok (s1, t1) \<longrightarrow> s * t \<le> s1 * t1 \<and> s < s1 \<and> 0 < t1 \<and> t1 \<le> t)
   \<and> (post_sell s t y = Ok (s2, t2) \<longrightarrow> s * t \<le> s2 * t2 \<and> t < t2 \<and> 0 < s2 \<and> s2 \<le> s)"
proof (intro conjI impI)
  assume "post_buy s t x = Ok (s1, t1)"
  then obtain q where q: "buy_out s t x = Ok q" and r: "s1 = s + x" "t1 = t - q"
    by (auto simp: post_buy_def rbind_Ok_iff)
  have p: "0 < s" "0 < t" "0 < x" using q by (auto simp: buy_out_Ok)
  note k = buy_side.product_kept [OF p] buy_side.quote_less [OF p] buy_side.quote_nonneg [OF p]
  show "s * t \<le> s1 * t1 " "s < s1" "0 < t1" "t1 \<le> t"
    using k p unfolding buy_quoted [OF q] r by auto
next
  assume "post_sell s t y = Ok (s2, t2)"
  then obtain q where q: "sell_out s t y = Ok q" and r: "s2 = s - q" "t2 = t + y"
    by (auto simp: post_sell_def rbind_Ok_iff)
  have p: "0 < t" "0 < s" "0 < y" using q by (auto simp: sell_out_Ok)
  note k = sell_side.product_kept [OF p] sell_side.quote_less [OF p] sell_side.quote_nonneg [OF p]
  show "s * t \<le> s2 * t2" "t < t2" "0 < s2" "s2 \<le> s"
    using k p unfolding sell_quoted [OF q] r by (auto simp: mult.commute)
qed

theorem curve_product_never_falls_witness:
  "\<exists>s1 t1 s2 t2. post_buy 1000 1000000 50 = Ok (s1, t1) \<and> 1000 * 1000000 \<le> s1 * t1
     \<and> post_sell 1000 1000000 20000 = Ok (s2, t2) \<and> 1000 * 1000000 \<le> s2 * t2"
proof -
  have "post_buy 1000 1000000 50 = Ok (1050, 952381)" "post_sell 1000 1000000 20000 = Ok (981, 1020000)"
    by code_simp+
  then show ?thesis
    using curve_product_never_falls [of 1000 1000000 50 1050 952381 20000 981 1020000] by auto
qed

text \<open>
  C24: no free lunch. Buying on the curve and selling the tokens straight back, with the venue fee taken
  on both legs, returns at most the cash debited less twice the network cost.
\<close>

theorem round_trip_loses_costs:
  assumes "0 \<le> venue_fee_bps f" "venue_fee_bps f \<le> 10000" "0 \<le> filled"
    and "buy_out s t (buy_net f filled) = Ok units"
    and "post_buy s t (buy_net f filled) = Ok (s1, t1)" "sell_out s1 t1 units = Ok gross"
  shows "sell_proceeds f gross \<le> buy_debit f filled - 2 * network_cost f"
proof -
  let ?x = "buy_net f filled"
  have p: "0 < s" "0 < t" "0 < ?x" using assms(4) by (auto simp: buy_out_Ok)
  have r: "s1 = s + ?x" "t1 = t - units" using assms(4,5) by (auto simp: post_buy_def)
  have g: "0 < t1" "0 < s1" "0 < units" using assms(6) by (auto simp: sell_out_Ok)
  have "gross \<le> ?x"
    using curve.no_round_trip_gain [OF p] g(3) unfolding buy_quoted [OF assms(4)]
    using sell_quoted [OF assms(6)] r by simp
  moreover have "0 \<le> gross"
    using sell_side.quote_nonneg [OF g] unfolding sell_quoted [OF assms(6)] .
  then have "0 \<le> venue_fee f gross" by (rule venue_fee_bounds(1) [OF assms(1,2)])
  moreover have "0 \<le> venue_fee f filled" by (rule venue_fee_bounds(1) [OF assms(1-3)])
  ultimately show ?thesis by (simp add: sell_proceeds_def buy_debit_def buy_net_def)
qed

theorem round_trip_loses_costs_witness:
  "\<exists>units s1 t1 gross. buy_out 1000000 5000000 (buy_net default_fees 20000) = Ok units
     \<and> post_buy 1000000 5000000 (buy_net default_fees 20000) = Ok (s1, t1) \<and> sell_out s1 t1 units = Ok gross
     \<and> sell_proceeds default_fees gross \<le> buy_debit default_fees 20000 - 2 * network_cost default_fees"
proof -
  have e: "buy_out 1000000 5000000 (buy_net default_fees 20000) = Ok 97077"
    "post_buy 1000000 5000000 (buy_net default_fees 20000) = Ok (1019800, 4902923)"
    "sell_out 1019800 4902923 97077 = Ok 19799" by code_simp+
  have "0 \<le> venue_fee_bps default_fees" "venue_fee_bps default_fees \<le> 10000" "(0::int) \<le> 20000"
    by (simp_all add: default_fees_def)
  from round_trip_loses_costs [OF this e] e show ?thesis by blast
qed

text \<open>
  C27: a position size is within both caps. For amounts a float holds exactly, whatever the score (a NaN
  included), the size is non-negative, at most the per-trade ceiling, and at most 30 percent of the
  remaining daily budget rounded up to a lamport.
\<close>

theorem position_size_capped:
  assumes "0 \<le> max_trade" "max_trade < 2 ^ 53" "0 \<le> remaining" "remaining < 2 ^ 53"
  shows "0 \<le> position_size_lamports score max_trade remaining
    \<and> position_size_lamports score max_trade remaining \<le> max_trade
    \<and> position_size_lamports score max_trade remaining \<le> (3 * remaining + 9) div 10"
proof -
  define clamped where "clamped = max 0 (case score of None \<Rightarrow> 1 | Some x \<Rightarrow> min 1 (x :: rat))"
  have c: "0 \<le> clamped" "clamped \<le> 1" by (auto simp: clamped_def split: option.splits)
  have ex: "0 \<le> fl (of_int m)" "fl (of_int m) \<le> of_int m" if "0 \<le> m" "m < 2 ^ 53" for m
    using that fl_le [of "of_int m" m] by (auto intro: fl_nonneg)
  have "fl (of_int max_trade) * clamped \<le> of_int max_trade * 1"
    using ex [OF assms(1,2)] c by (intro mult_mono) auto
  then have s: "fl (fl (of_int max_trade) * clamped) \<le> of_int max_trade"
    using assms by (intro fl_le) auto
  have "fl (of_int remaining) * MAX_SHARE_OF_REMAINING_BUDGET \<le> of_int remaining * (3 / 10)"
    using ex [OF assms(3,4)] share_le share_nonneg by (intro mult_mono) auto
  also have "\<dots> \<le> of_int ((3 * remaining + 9) div 10)"
  proof -
    have "3 * remaining \<le> 10 * ((3 * remaining + 9) div 10)" by linarith
    then have "(of_int (3 * remaining) :: rat) \<le> of_int (10 * ((3 * remaining + 9) div 10))" by (rule of_int_le_iff [THEN iffD2])
    then show ?thesis by simp
  qed
  finally have b: "fl (fl (of_int remaining) * MAX_SHARE_OF_REMAINING_BUDGET) \<le> of_int ((3 * remaining + 9) div 10)"
    using assms by (intro fl_le) auto
  have nn: "0 \<le> fl (fl (of_int max_trade) * clamped)"
    "0 \<le> fl (fl (of_int remaining) * MAX_SHARE_OF_REMAINING_BUDGET)"
    using ex [OF assms(1,2)] ex [OF assms(3,4)] c share_nonneg by (auto intro!: fl_nonneg)
  show ?thesis
    unfolding position_size_lamports_def clamped_def [symmetric] Let_def
    using s b nn by (auto intro!: rhe_ge rhe_le simp: min_le_iff_disj)
qed

theorem position_size_capped_witness:
  "0 \<le> position_size_lamports (Some (7 / 10)) 200000000 500000000
    \<and> position_size_lamports (Some (7 / 10)) 200000000 500000000 \<le> 200000000
    \<and> position_size_lamports (Some (7 / 10)) 200000000 500000000 \<le> (3 * 500000000 + 9) div 10"
  by (rule position_size_capped) simp_all

end
