(* ===== verification/Ids.thy ===== *)
theory Ids
  imports Prelude
begin

unbundle bit_operations_syntax

text \<open>
  ULID identity and correlation propagation (\<open>core/ids.py\<close>). A factory keeps the last value it
  issued; the clock's milliseconds and the 80 random bits of a call are arguments. The
  correlation context is an explicit pair of the bound id and the span counter, and a
  \<open>with bind_correlation(...)\<close> block is \<open>enter\<close> followed by \<open>leave\<close> of what \<open>enter\<close> saved.
\<close>

section \<open>ULIDs\<close>

definition CROCKFORD :: string where
  "CROCKFORD = ''0123456789ABCDEFGHJKMNPQRSTVWXYZ''"

fun crockford_out :: "nat \<Rightarrow> int \<Rightarrow> string" where
  \<comment> \<open>the digits the loop appends, least significant first\<close>
  "crockford_out 0 v = []"
| "crockford_out (Suc n) v = (CROCKFORD ! nat (v AND 31)) # crockford_out n (drop_bit 5 v)"

definition crockford :: "int \<Rightarrow> nat \<Rightarrow> string" where
  "crockford value width = rev (crockford_out width value)"

definition ulid :: "int \<Rightarrow> int \<Rightarrow> int \<Rightarrow> string \<times> int" where
  \<comment> \<open>the id issued at millisecond \<open>ms\<close> with random bits \<open>bits\<close>, and the factory after it\<close>
  "ulid prior ms bits =
     (let candidate = push_bit 80 ms OR bits;
          candidate' = (if candidate \<le> prior then prior + 1 else candidate)
      in (crockford candidate' 26, candidate'))"

fun ulids :: "int \<Rightarrow> (int \<times> int) list \<Rightarrow> string list" where
  "ulids prior [] = []"
| "ulids prior ((ms, bits) # calls) = (let (u, next) = ulid prior ms bits in u # ulids next calls)"

definition ULID_RE :: "string \<Rightarrow> bool" where
  "ULID_RE s \<longleftrightarrow> length s = 26 \<and> list_all (\<lambda>c. c \<in> set CROCKFORD) s"

definition mint_approval_id :: "int \<Rightarrow> int \<Rightarrow> string" where
  \<comment> \<open>a fresh factory, one id; \<open>bits\<close> come from the OS-seeded generator\<close>
  "mint_approval_id ms bits = ''apr-'' @ fst (ulid 0 ms bits)"

section \<open>Correlation\<close>

definition cid_root :: "string \<Rightarrow> string" where
  "cid_root cid = takeWhile (\<lambda>c. c \<noteq> CHR ''.'') cid"

definition cid_child :: "string \<Rightarrow> nat \<Rightarrow> string" where
  "cid_child cid n = cid_root cid @ ''.'' @ nat_str n"

record correlation =
  bound_cid :: "string option"
  span_counter :: nat

definition current_correlation :: "correlation \<Rightarrow> string result" where
  "current_correlation c = of_option (ValueError ''no correlation id bound'') (bound_cid c)"

definition next_span :: "correlation \<Rightarrow> string \<Rightarrow> string \<times> correlation" where
  "next_span c cid = (let n = span_counter c + 1 in (cid_child cid n, c\<lparr>span_counter := n\<rparr>))"

definition enter_correlation :: "correlation \<Rightarrow> string \<Rightarrow> correlation \<times> (string option \<times> nat option)" where
  "enter_correlation c cid =
     (let outer = bound_cid c;
          fresh = (case outer of None \<Rightarrow> True | Some o' \<Rightarrow> cid_root o' \<noteq> cid_root cid)
      in (if fresh then (\<lparr>bound_cid = Some cid, span_counter = 0\<rparr>, (outer, Some (span_counter c)))
          else (c\<lparr>bound_cid := Some cid\<rparr>, (outer, None))))"

definition leave_correlation :: "correlation \<Rightarrow> string option \<times> nat option \<Rightarrow> correlation" where
  "leave_correlation c saved = (case saved of (outer, span) \<Rightarrow>
     (let c1 = (case span of None \<Rightarrow> c | Some n \<Rightarrow> c\<lparr>span_counter := n\<rparr>) in c1\<lparr>bound_cid := outer\<rparr>))"

section \<open>Lemmas\<close>

lemma crockford_length [simp]: "length (crockford v w) = w"
proof -
  have "length (crockford_out w v) = w" by (induction w arbitrary: v) auto
  then show ?thesis by (simp add: crockford_def)
qed

lemma crockford_Suc: "crockford v (Suc w) = crockford (v div 32) w @ [CROCKFORD ! nat (v mod 32)]"
proof -
  have "v AND 31 = v mod 32"
    using take_bit_eq_mask [of 5 v] by (simp add: take_bit_eq_mod mask_eq_exp_minus_1)
  moreover have "drop_bit 5 v = v div 32" by (simp add: drop_bit_eq_div)
  ultimately show ?thesis by (simp add: crockford_def)
qed

lemma CROCKFORD_mono: "i < j \<Longrightarrow> j < 32 \<Longrightarrow> CROCKFORD ! i < CROCKFORD ! j"
proof -
  have "sorted_wrt (<) CROCKFORD" by code_simp
  moreover have "length CROCKFORD = 32" by code_simp
  ultimately show "i < j \<Longrightarrow> j < 32 \<Longrightarrow> CROCKFORD ! i < CROCKFORD ! j"
    by (simp add: sorted_wrt_iff_nth_less)
qed

lemma snoc_less:
  fixes xs ys :: "'a::linorder list"
  assumes "length xs = length ys"
  shows "xs @ [a] < ys @ [b] \<longleftrightarrow> xs < ys \<or> (xs = ys \<and> a < b)"
  using assms by (induction xs ys rule: list_induct2) auto

lemma crockford_mono:
  assumes "0 \<le> u" "u < v" "v < 32 ^ w"
  shows "crockford u w < crockford v w"
  using assms
proof (induction w arbitrary: u v)
  case (Suc w)
  show ?case
  proof (cases "u div 32 < v div 32")
    case True
    have "v div 32 < 32 ^ w" using Suc.prems by (simp add: div_less_iff_less_mult)
    then have "crockford (u div 32) w < crockford (v div 32) w"
      using Suc True by (simp add: pos_imp_zdiv_nonneg_iff)
    then show ?thesis by (simp add: crockford_Suc snoc_less)
  next
    case False
    moreover have "u div 32 \<le> v div 32" using Suc.prems by (simp add: zdiv_mono1)
    ultimately have eq: "u div 32 = v div 32" by simp
    then have "u mod 32 < v mod 32"
      using Suc.prems(2) div_mult_mod_eq [of u 32] div_mult_mod_eq [of v 32] by linarith
    then have "nat (u mod 32) < nat (v mod 32)" "nat (v mod 32) < 32" by auto
    then have "CROCKFORD ! nat (u mod 32) < CROCKFORD ! nat (v mod 32)" by (rule CROCKFORD_mono)
    then show ?thesis by (simp add: crockford_Suc snoc_less eq)
  qed
qed simp

lemma crockford_chars: "0 \<le> v \<Longrightarrow> list_all (\<lambda>c. c \<in> set CROCKFORD) (crockford v w)"
proof (induction w arbitrary: v)
  case (Suc w)
  have "length CROCKFORD = 32" by code_simp
  then have "CROCKFORD ! nat (v mod 32) \<in> set CROCKFORD" by (intro nth_mem) (simp add: nat_less_iff)
  then show ?case using Suc by (simp add: crockford_Suc pos_imp_zdiv_nonneg_iff)
qed (simp add: crockford_def)

lemma candidate_bound:
  fixes ms bits :: int
  assumes "0 \<le> ms" "ms < 2 ^ 48" "0 \<le> bits" "bits < 2 ^ 80"
  shows "0 \<le> push_bit 80 ms OR bits \<and> push_bit 80 ms OR bits < 2 ^ 128"
proof -
  have "push_bit 80 ms < 2 ^ 128"
  proof -
    have "ms * 2 ^ 80 < 2 ^ 48 * 2 ^ 80" using assms(2) by simp
    then show ?thesis by (simp add: push_bit_eq_mult)
  qed
  then have "take_bit 128 (push_bit 80 ms) = push_bit 80 ms" "take_bit 128 bits = bits"
    using assms by (simp_all add: take_bit_int_eq_self)
  then have "take_bit 128 (push_bit 80 ms OR bits) = push_bit 80 ms OR bits"
    by (simp add: take_bit_or)
  then show ?thesis using assms by (metis take_bit_int_less_exp take_bit_nonnegative)
qed

lemma ulid_step:
  assumes "0 \<le> prior" "prior < 2 ^ 129" "0 \<le> ms" "ms < 2 ^ 48" "0 \<le> bits" "bits < 2 ^ 80"
  shows "prior < snd (ulid prior ms bits)" "snd (ulid prior ms bits) \<le> max (2 ^ 128) (prior + 1)"
    "fst (ulid prior ms bits) = crockford (snd (ulid prior ms bits)) 26"
  using candidate_bound [OF assms(3-6)] assms(1,2) by (auto simp: ulid_def Let_def)

lemma ulids_above:
  assumes "0 \<le> prior" "prior + int (length calls) < 2 ^ 129"
    "2 ^ 128 + int (length calls) < (2 ^ 129 :: int)"
    "\<forall>(ms, bits) \<in> set calls. 0 \<le> ms \<and> ms < 2 ^ 48 \<and> 0 \<le> bits \<and> bits < 2 ^ 80"
  shows "sorted_wrt (<) (crockford prior 26 # ulids prior calls)"
  using assms
proof (induction calls arbitrary: prior)
  case (Cons c calls)
  obtain ms bits where c: "c = (ms, bits)" by (cases c)
  define nxt where "nxt = snd (ulid prior ms bits)"
  have st: "prior < nxt" "nxt \<le> max (2 ^ 128) (prior + 1)" "fst (ulid prior ms bits) = crockford nxt 26"
    using ulid_step [of prior ms bits] Cons.prems unfolding nxt_def c by auto
  have "nxt + int (length calls) < 2 ^ 129" using st(2) Cons.prems by (auto simp: max_def split: if_splits)
  then have rest: "sorted_wrt (<) (crockford nxt 26 # ulids nxt calls)"
    using Cons.IH [of nxt] Cons.prems st(1) by auto
  have "nxt < 32 ^ 26"
    using \<open>nxt + int (length calls) < 2 ^ 129\<close> by simp
  then have lt: "crockford prior 26 < crockford nxt 26"
    using st(1) Cons.prems(1) by (intro crockford_mono) auto
  have u: "ulids prior (c # calls) = crockford nxt 26 # ulids nxt calls"
    using st(3) by (simp add: c nxt_def case_prod_beta Let_def)
  show ?case unfolding u using rest lt by auto
qed simp

section \<open>Properties\<close>

text \<open>
  Ids only go up. Whatever the clock does (standing still or going back included) and whatever the
  random bits are, the ids one factory issues are strictly increasing strings, so never repeated; the
  bound on the number of calls is the room left above the 128 bits of an id.
\<close>

theorem ulids_strictly_increase:
  assumes "int (length calls) < 2 ^ 127"
    and "\<forall>(ms, bits) \<in> set calls. 0 \<le> ms \<and> ms < 2 ^ 48 \<and> 0 \<le> bits \<and> bits < 2 ^ 80"
  shows "sorted_wrt (<) (ulids 0 calls)"
  using ulids_above [of 0 calls] assms by auto

theorem ulids_strictly_increase_witness:
  "sorted_wrt (<) (ulids 0 [(5, 9), (4, 1), (5, 9)])"
  by (rule ulids_strictly_increase) simp_all

text \<open>
  A \<open>with bind_correlation\<close> block restores the context it found, whatever spans the block takes.
\<close>

lemma bind_correlation_restores:
  assumes "enter_correlation c cid = (c1, saved)" "bound_cid c2 = bound_cid c1"
  shows "bound_cid (leave_correlation c2 saved) = bound_cid c
    \<and> (snd saved \<noteq> None \<longrightarrow> leave_correlation c2 saved = c)"
  using assms by (auto simp: enter_correlation_def leave_correlation_def Let_def split: if_splits option.splits)

lemma mint_approval_id_form:
  assumes "0 \<le> ms" "ms < 2 ^ 48" "0 \<le> bits" "bits < 2 ^ 80"
  shows "\<exists>u. mint_approval_id ms bits = ''apr-'' @ u \<and> ULID_RE u"
  using ulid_step [of 0 ms bits] assms crockford_chars
  by (auto simp: mint_approval_id_def ULID_RE_def)

end
