(* ===== verification/Approvals.thy ===== *)
theory Approvals
  imports Ids Curve Reducer
begin

text \<open>
  Orders (\<open>core/adapter.py\<close>) and approvals (\<open>core/approvals.py\<close>): the validated records, the match
  between an approval and an order, the human phrase, and the ledger row an approval becomes. The
  main result is that a matching approval fixes the amount the order executes.
\<close>

section \<open>Orders\<close>

datatype side = BUY | SELL

definition side_value :: "side \<Rightarrow> string" where
  "side_value s = (case s of BUY \<Rightarrow> ''buy'' | SELL \<Rightarrow> ''sell'')"

record order_request =
  o_ticket_id :: string
  o_mint :: string
  o_side :: side
  o_decision_id :: string
  o_size_lamports :: "int option"
  o_token_units :: "int option"
  o_max_slippage_bps :: int
  o_approval_id :: string
  o_quote_id :: "string option"
  o_exit_reason :: "string option"
  o_correlation_id :: string

definition EXIT_RULE_REASONS :: "string list" where
  "EXIT_RULE_REASONS = [''stop_loss'', ''take_profit'', ''trailing_stop'', ''max_hold'']"

definition ticket_pattern :: "string \<Rightarrow> bool" where
  \<comment> \<open>\<open>^SOL-\d{8}-\d{3}$\<close>\<close>
  "ticket_pattern s \<longleftrightarrow> length s = 16 \<and> take 4 s = ''SOL-'' \<and> list_all is_digit (take 8 (drop 4 s))
     \<and> s ! 12 = CHR ''-'' \<and> list_all is_digit (drop 13 s)"

definition approval_id_pattern :: "string \<Rightarrow> bool" where
  "approval_id_pattern s \<longleftrightarrow> take 4 s = ''apr-'' \<and> ULID_RE (drop 4 s)"

definition positive_if_given :: "int option \<Rightarrow> bool" where
  "positive_if_given x = (case x of None \<Rightarrow> True | Some i \<Rightarrow> i > 0)"

definition validate_order :: "order_request \<Rightarrow> order_request result" where
  "validate_order r =
     rbind (rguard (ticket_pattern (o_ticket_id r) \<and> 32 \<le> length (o_mint r) \<and> length (o_mint r) \<le> 44
         \<and> ULID_RE (o_decision_id r) \<and> positive_if_given (o_size_lamports r)
         \<and> positive_if_given (o_token_units r) \<and> 1 \<le> o_max_slippage_bps r \<and> o_max_slippage_bps r \<le> 10000
         \<and> approval_id_pattern (o_approval_id r)
         \<and> (case o_exit_reason r of None \<Rightarrow> True | Some x \<Rightarrow> x \<in> set EXIT_RULE_REASONS))
       (ValueError ''field constraint'')) (\<lambda>_.
     if o_side r = BUY \<and> o_size_lamports r = None then Err (ValueError ''buy requires size_lamports'')
     else if o_side r = SELL \<and> o_token_units r = None \<and> o_size_lamports r = None
     then Err (ValueError ''sell requires token_units or size_lamports'')
     else if o_exit_reason r \<noteq> None \<and> o_side r \<noteq> SELL
     then Err (ValueError ''exit_reason applies to sells only'')
     else Ok r)"

definition idempotency_scope :: "order_request \<Rightarrow> string" where
  "idempotency_scope r = o_ticket_id r @ '':'' @ side_value (o_side r) @ '':'' @ o_decision_id r"

section \<open>Approvals\<close>

datatype approval_kind = Human_buy | Human_sell | Exit_rule | Autonomous_paper | Killswitch_clear
  | Halt_clear | Live_gate

definition kind_value :: "approval_kind \<Rightarrow> string" where
  "kind_value k = (case k of Human_buy \<Rightarrow> ''human_buy'' | Human_sell \<Rightarrow> ''human_sell''
     | Exit_rule \<Rightarrow> ''exit_rule'' | Autonomous_paper \<Rightarrow> ''autonomous_paper''
     | Killswitch_clear \<Rightarrow> ''killswitch_clear'' | Halt_clear \<Rightarrow> ''halt_clear'' | Live_gate \<Rightarrow> ''live_gate'')"

record approval =
  ap_id :: string
  ap_kind :: approval_kind
  ap_ticket_id :: "string option"
  ap_mint :: "string option"
  ap_size_lamports :: "int option"
  ap_token_units :: "int option"
  ap_max_slippage_bps :: "int option"
  ap_exit_rule_id :: "string option"
  ap_approved_by :: string
  ap_raw_message :: string
  ap_at :: string
  ap_consumed :: bool

definition human_kind :: "approval_kind \<Rightarrow> bool" where
  "human_kind k \<longleftrightarrow> k \<noteq> Autonomous_paper"

definition order_side :: "approval_kind \<Rightarrow> string option" where
  \<comment> \<open>\<open>ORDER_SIDES.get(kind)\<close>\<close>
  "order_side k = (case k of Human_buy \<Rightarrow> Some ''buy'' | Human_sell \<Rightarrow> Some ''sell''
     | Exit_rule \<Rightarrow> Some ''sell'' | _ \<Rightarrow> None)"

definition human_kinds_need_human :: "approval \<Rightarrow> approval result" where
  "human_kinds_need_human a =
     (let k = ap_kind a in
      if human_kind k then
        (if \<not> startswith (ap_approved_by a) ''human:''
         then Err (ValueError ''human approval must be signed by a human, not a seat'')
         else if (k = Human_buy \<or> k = Human_sell)
             \<and> (ap_ticket_id a = None \<or> ap_mint a = None \<or> ap_max_slippage_bps a = None)
         then Err (ValueError ''human trade approval must carry ticket, mint and slippage'')
         else if k = Human_buy \<and> ap_size_lamports a = None
         then Err (ValueError ''human_buy approval must carry size_lamports'')
         else if k = Human_sell \<and> ap_size_lamports a = None \<and> ap_token_units a = None
         then Err (ValueError ''human_sell approval must carry size_lamports or token_units'')
         else if k = Exit_rule \<and> ap_token_units a = None
         then Err (ValueError ''exit_rule approval must carry token_units'')
         else if k = Exit_rule \<and> (ap_ticket_id a = None \<or> ap_exit_rule_id a = None)
         then Err (ValueError ''exit_rule approval must name the ticket and the rule (R17)'')
         else Ok a)
      else if ap_approved_by a \<noteq> ''risk_engine''
      then Err (ValueError ''autonomous_paper approvals are issued by RiskEngine.check only (R24)'')
      else Ok a)"

definition validate_approval :: "approval \<Rightarrow> approval result" where
  "validate_approval a =
     rbind (rguard (approval_id_pattern (ap_id a)
         \<and> (case ap_ticket_id a of None \<Rightarrow> True | Some t \<Rightarrow> ticket_pattern t)
         \<and> positive_if_given (ap_size_lamports a) \<and> positive_if_given (ap_token_units a))
       (ValueError ''field constraint'')) (\<lambda>_. human_kinds_need_human a)"

definition size_matches :: "approval \<Rightarrow> order_request \<Rightarrow> bool" where
  "size_matches a r =
     (if o_side r = BUY \<or> ap_kind a = Human_sell then
        (let size_ok = (ap_size_lamports a = None \<or> ap_size_lamports a = o_size_lamports r);
             units_ok = (if ap_token_units a \<noteq> None then ap_token_units a = o_token_units r
                         else o_token_units r = None)
         in size_ok \<and> units_ok)
      else if ap_kind a = Exit_rule then ap_token_units a = o_token_units r
      else if ap_kind a = Autonomous_paper then
        (if o_token_units r \<noteq> None \<and> ap_token_units a \<noteq> None then ap_token_units a = o_token_units r
         else ap_size_lamports a = o_size_lamports r)
      else False)"

definition matches :: "approval \<Rightarrow> order_request \<Rightarrow> bool" where
  "matches a r =
     (if ap_consumed a \<or> order_side (ap_kind a) \<noteq> Some (side_value (o_side r)) then False
      else if ap_ticket_id a \<noteq> Some (o_ticket_id r) \<or> ap_mint a \<noteq> Some (o_mint r) then False
      else if ap_max_slippage_bps a \<noteq> Some (o_max_slippage_bps r) then False
      else size_matches a r)"

section \<open>The human phrase\<close>

definition BASE58 :: string where
  "BASE58 = ''123456789ABCDEFGHJKLMNPQRSTUVWXYZabcdefghijkmnopqrstuvwxyz''"

definition phrase_sol_to_lamports :: "string \<Rightarrow> int result" where
  "phrase_sol_to_lamports size_sol =
     rbind (of_option (ValueError ''bad size: want decimal SOL'') (dec_of_str size_sol)) (\<lambda>d.
     if \<not> is_finite d then Err (ValueError ''bad size: want a finite number'')
     else if dec_less (DFin False 0 0) d \<noteq> Some True then Err (ValueError ''bad size: want a positive number'')
     else of_option (ValueError ''size'') (sol_to_lamports d))"

definition parse_human_phrase :: "string \<Rightarrow> approval_kind \<Rightarrow> string \<Rightarrow> string \<Rightarrow> string \<Rightarrow> approval result" where
  "parse_human_phrase phrase kind signer approval_id at_time =
     (case split_ws phrase of
        [verb, ticket_id, mint, size_sol, slippage_raw] \<Rightarrow>
          if verb \<noteq> ''approve'' then Err (ValueError ''bad approval phrase'')
          else if \<not> ticket_pattern ticket_id then Err (ValueError ''bad approval phrase ticket'')
          else if \<not> (32 \<le> length mint \<and> length mint \<le> 44) \<or> \<not> list_all (\<lambda>c. c \<in> set BASE58) mint
          then Err (ValueError ''bad approval phrase mint'')
          else rbind (of_option (ValueError ''bad approval phrase slippage'') (int_of_str slippage_raw)) (\<lambda>bps.
            if \<not> (0 \<le> bps \<and> bps \<le> 10000) then Err (ValueError ''bad approval phrase slippage'')
            else rbind (phrase_sol_to_lamports size_sol) (\<lambda>lamports.
              validate_approval \<lparr>ap_id = approval_id, ap_kind = kind, ap_ticket_id = Some ticket_id,
                ap_mint = Some mint, ap_size_lamports = Some lamports, ap_token_units = None,
                ap_max_slippage_bps = Some bps, ap_exit_rule_id = None, ap_approved_by = signer,
                ap_raw_message = phrase, ap_at = at_time, ap_consumed = False\<rparr>))
      | _ \<Rightarrow> Err (ValueError ''bad approval phrase''))"

section \<open>The ledger row\<close>

definition or_default :: "'a \<Rightarrow> 'a option \<Rightarrow> 'a" where
  "or_default d x = (case x of None \<Rightarrow> d | Some y \<Rightarrow> y)"

definition approval_entry :: "approval \<Rightarrow> string \<Rightarrow> string \<Rightarrow> string \<Rightarrow> entry" where
  "approval_entry a ts source cid =
     \<lparr>x_ts = ts, x_source = source, x_cid = cid, x_key = ''approval|'' @ ap_id a,
      x_type = ''ApprovalRecorded'',
      x_payload = [(''source'', PStr source), (''id'', PStr (ap_id a)), (''kind'', PStr (kind_value (ap_kind a))),
        (''approved_by'', PStr (ap_approved_by a)), (''at'', PStr (ap_at a)),
        (''ticket_id'', PStr (or_default [] (ap_ticket_id a))), (''mint'', PStr (or_default [] (ap_mint a))),
        (''size_lamports'', PInt (or_default 0 (ap_size_lamports a))),
        (''token_units'', PInt (or_default 0 (ap_token_units a))),
        (''max_slippage_bps'', PInt (or_default 0 (ap_max_slippage_bps a))),
        (''exit_rule_id'', PStr (or_default [] (ap_exit_rule_id a))),
        (''raw_message'', PStr (ap_raw_message a)), (''consumed'', PBool False)]\<rparr>"

definition record_human_approval :: "(string \<Rightarrow> string) \<Rightarrow> store \<Rightarrow> approval \<Rightarrow> string \<Rightarrow> string \<Rightarrow> string
    \<Rightarrow> ledger_row result \<times> store" where
  "record_human_approval H st a ts source cid = append H st (approval_entry a ts source cid)"

section \<open>What an order executes\<close>

datatype amount = Lamports int | Units int | Nothing

definition executed_amount :: "order_request \<Rightarrow> amount" where
  \<comment> \<open>a buy spends its lamports; a sell prefers its units over its SOL notional\<close>
  "executed_amount r = (case (o_side r, o_token_units r, o_size_lamports r) of
       (BUY, _, Some l) \<Rightarrow> Lamports l
     | (SELL, Some u, _) \<Rightarrow> Units u
     | (SELL, None, Some l) \<Rightarrow> Lamports l
     | _ \<Rightarrow> Nothing)"

definition approved_amount :: "approval \<Rightarrow> amount" where
  "approved_amount a = (case ap_kind a of
       Human_buy \<Rightarrow> (case ap_size_lamports a of Some l \<Rightarrow> Lamports l | None \<Rightarrow> Nothing)
     | _ \<Rightarrow> (case (ap_token_units a, ap_size_lamports a) of
          (Some u, _) \<Rightarrow> Units u | (None, Some l) \<Rightarrow> Lamports l | _ \<Rightarrow> Nothing))"

section \<open>Lemmas\<close>

lemma side_value_simps [simp]: "side_value BUY = ''buy''" "side_value SELL = ''sell''"
  by (simp_all add: side_value_def)

lemma matches_kind:
  "matches a r \<Longrightarrow> (ap_kind a = Human_buy \<and> o_side r = BUY)
     \<or> (ap_kind a = Human_sell \<and> o_side r = SELL) \<or> (ap_kind a = Exit_rule \<and> o_side r = SELL)"
  by (cases "ap_kind a"; cases "o_side r") (auto simp: matches_def order_side_def)

lemma validate_approval_Ok: "validate_approval a = Ok b \<Longrightarrow> b = a"
  by (auto simp: validate_approval_def human_kinds_need_human_def rbind_Ok_iff Let_def split: if_splits)

section \<open>Splitting a phrase into words\<close>

definition word :: "string \<Rightarrow> bool" where
  "word w \<longleftrightarrow> w \<noteq> [] \<and> list_all (\<lambda>c. \<not> is_space c) w"

fun unwords :: "string list \<Rightarrow> string" where
  "unwords [] = []"
| "unwords [w] = w"
| "unwords (w # ws) = w @ CHR '' '' # unwords ws"

lemma takeWhile_word:
  assumes "list_all (\<lambda>c. \<not> is_space c) w" "t = [] \<or> is_space (hd t)"
  shows "takeWhile (\<lambda>c. \<not> is_space c) (w @ t) = w" "dropWhile (\<lambda>c. \<not> is_space c) (w @ t) = t"
  using assms by (induction w) (cases t; auto)+

lemma split_ws_word:
  assumes "word w" "t = [] \<or> is_space (hd t)"
  shows "split_ws (w @ t) = w # split_ws t"
proof -
  obtain c cs where w: "w = c # cs" "\<not> is_space c" "list_all (\<lambda>c. \<not> is_space c) cs"
    using assms(1) by (cases w) (auto simp: word_def)
  have "lstrip (w @ t) = w @ t" using w by (simp add: lstrip_def)
  then show ?thesis
    using takeWhile_word [OF w(3) assms(2)] by (subst split_ws.simps) (simp add: w(1))
qed

lemma split_ws_space: "is_space c \<Longrightarrow> split_ws (c # t) = split_ws t"
  by (subst (1 2) split_ws.simps) (simp add: lstrip_def)

lemma split_unwords: "list_all word ws \<Longrightarrow> split_ws (unwords ws) = ws"
proof (induction ws rule: unwords.induct)
  case 1
  then show ?case by (subst split_ws.simps) (simp add: lstrip_def)
next
  case (2 w)
  then show ?case using split_ws_word [of w "[]"]
    by (simp add: split_ws.simps [of "[]"] lstrip_def)
next
  case (3 w v ws)
  have sp: "is_space CHR '' ''" by (simp add: is_space_def)
  have "split_ws (w @ CHR '' '' # unwords (v # ws)) = w # split_ws (CHR '' '' # unwords (v # ws))"
    using 3 sp by (intro split_ws_word) auto
  then show ?case using 3 by (simp add: split_ws_space [OF sp])
qed

lemma digits_us_digits: "ds \<noteq> [] \<Longrightarrow> \<forall>c \<in> set ds. is_digit c \<Longrightarrow> digits_us ds"
proof (induction ds rule: digits_us.induct)
  case (3 c d s)
  have "d \<noteq> CHR ''_''" using 3 by (auto simp: is_digit_def)
  then show ?case using 3 by simp
qed simp_all

lemma int_of_str_int_str: "int_of_str (int_str i) = Some i"
proof -
  let ?n = "nat \<bar>i\<bar>"
  obtain c cs where c: "nat_str ?n = c # cs" "is_digit c"
    using hd_nat_str_digit [of ?n] by (cases "nat_str ?n") auto
  have nc: "c \<noteq> CHR ''-''" "c \<noteq> CHR ''+''" using c(2) by (auto simp: is_digit_def)
  have pl: "list_all plain_char (int_str i)"
    using nat_str_plain by (simp add: int_str_def plain_char_def is_space_def)
  have d: "digits_us (nat_str ?n)" using nat_str_digits [of ?n] by (intro digits_us_digits) auto
  have f: "List.filter (\<lambda>c. c \<noteq> CHR ''_'') (nat_str ?n) = nat_str ?n"
    using nat_str_plain by (rule filter_plain)
  show ?thesis
  proof (cases "i < 0")
    case True
    then show ?thesis using d f strip_plain [OF pl]
      by (simp add: int_of_str_def int_str_def startswith_def Let_def)
  next
    case False
    then have "int_str i = c # cs" using c by (simp add: int_str_def)
    then show ?thesis using d f strip_plain [OF pl] c nc False digits_val_nat_str [of ?n]
      by (simp add: int_of_str_def startswith_def Let_def)
  qed
qed

lemma word_plain: "w \<noteq> [] \<Longrightarrow> list_all plain_char w \<Longrightarrow> word w"
  by (auto simp: word_def plain_char_def list_all_iff)

lemma int_str_word: "word (int_str i)"
  using nat_str_plain by (intro word_plain) (auto simp: int_str_def plain_char_def is_space_def)

lemma digits_no_space: "list_all is_digit s \<Longrightarrow> list_all (\<lambda>c. \<not> is_space c) s"
  using digit_plain by (auto simp: list_all_iff plain_char_def)

lemma ticket_word: "ticket_pattern s \<Longrightarrow> word s"
proof -
  assume t: "ticket_pattern s"
  then have l: "12 < length s" and ne: "s \<noteq> []" by (auto simp: ticket_pattern_def)
  have "s = take 12 s @ s ! 12 # drop (Suc 12) s" by (rule id_take_nth_drop [OF l])
  also have "take 12 s = take 4 s @ take 8 (drop 4 s)" using take_add [of 4 8 s] by simp
  finally have s: "s = ''SOL-'' @ take 8 (drop 4 s) @ CHR ''-'' # drop 13 s"
    using t by (simp add: ticket_pattern_def)
  have "list_all (\<lambda>c. \<not> is_space c) (''SOL-'' @ take 8 (drop 4 s) @ CHR ''-'' # drop 13 s)"
    using t by (simp add: ticket_pattern_def digits_no_space) (simp add: is_space_def)
  then have "list_all (\<lambda>c. \<not> is_space c) s" using s by metis
  then show ?thesis using ne by (simp add: word_def)
qed

lemma mint_word: "32 \<le> length m \<Longrightarrow> list_all (\<lambda>c. c \<in> set BASE58) m \<Longrightarrow> word m"
proof -
  have "list_all (\<lambda>c. \<not> is_space c) BASE58" by code_simp
  then show "32 \<le> length m \<Longrightarrow> list_all (\<lambda>c. c \<in> set BASE58) m \<Longrightarrow> word m"
    by (auto simp: word_def list_all_iff)
qed

lemma dec_str_word: "is_finite d \<Longrightarrow> word (dec_str d)"
proof -
  assume "is_finite d"
  moreover have "dec_digits_str (nat_str c) e \<noteq> []" for c e
    using dec_digits_str_hd [of "nat_str c" e] nat_str_digits by auto
  ultimately have "dec_str d \<noteq> []" by (auto simp: dec_str_def is_finite_def split: dec.splits)
  then show ?thesis using dec_str_plain by (rule word_plain)
qed

lemma parse_human_phrase_Ok:
  assumes "parse_human_phrase phrase kind signer i t = Ok a"
  obtains ticket mint size slip bps lamports where
    "split_ws phrase = [''approve'', ticket, mint, size, slip]" "int_of_str slip = Some bps"
    "phrase_sol_to_lamports size = Ok lamports" "0 \<le> bps" "bps \<le> 10000"
    "a = \<lparr>ap_id = i, ap_kind = kind, ap_ticket_id = Some ticket, ap_mint = Some mint,
        ap_size_lamports = Some lamports, ap_token_units = None, ap_max_slippage_bps = Some bps,
        ap_exit_rule_id = None, ap_approved_by = signer, ap_raw_message = phrase, ap_at = t, ap_consumed = False\<rparr>"
    "validate_approval a = Ok a"
proof -
  from assms obtain verb ticket mint size slip where
    w: "split_ws phrase = [verb, ticket, mint, size, slip]"
    by (auto simp: parse_human_phrase_def split: list.splits)
  with assms have v: "verb = ''approve''"
    by (auto simp: parse_human_phrase_def split: if_splits)
  from assms w obtain bps lamports where b: "int_of_str slip = Some bps" "0 \<le> bps" "bps \<le> 10000"
    "phrase_sol_to_lamports size = Ok lamports"
    and va: "validate_approval \<lparr>ap_id = i, ap_kind = kind, ap_ticket_id = Some ticket, ap_mint = Some mint,
        ap_size_lamports = Some lamports, ap_token_units = None, ap_max_slippage_bps = Some bps,
        ap_exit_rule_id = None, ap_approved_by = signer, ap_raw_message = phrase, ap_at = t, ap_consumed = False\<rparr> = Ok a"
    by (auto simp: parse_human_phrase_def rbind_Ok_iff split: if_splits)
  have "a = \<lparr>ap_id = i, ap_kind = kind, ap_ticket_id = Some ticket, ap_mint = Some mint,
        ap_size_lamports = Some lamports, ap_token_units = None, ap_max_slippage_bps = Some bps,
        ap_exit_rule_id = None, ap_approved_by = signer, ap_raw_message = phrase, ap_at = t, ap_consumed = False\<rparr>"
    using validate_approval_Ok [OF va] .
  with that w v b va show thesis by blast
qed

lemma matching_amount:
  assumes "validate_approval a = Ok a" "validate_order r = Ok r" "matches a r"
  shows "executed_amount r = approved_amount a"
proof -
  have va: "human_kinds_need_human a = Ok a"
    using assms(1) by (auto simp: validate_approval_def rbind_Ok_iff)
  have sz: "size_matches a r" using assms(3) by (auto simp: matches_def split: if_splits)
  consider "ap_kind a = Human_buy" "o_side r = BUY" | "ap_kind a = Human_sell" "o_side r = SELL"
    | "ap_kind a = Exit_rule" "o_side r = SELL" using matches_kind [OF assms(3)] by blast
  then show ?thesis
  proof cases
    case 1
    then show ?thesis using va sz
      by (auto simp: human_kinds_need_human_def human_kind_def size_matches_def executed_amount_def
          approved_amount_def Let_def split: if_splits option.splits)
  next
    case 2
    then show ?thesis using va sz
      by (auto simp: human_kinds_need_human_def human_kind_def size_matches_def executed_amount_def
          approved_amount_def Let_def split: if_splits option.splits)
  next
    case 3
    then show ?thesis using va sz
      by (auto simp: human_kinds_need_human_def human_kind_def size_matches_def executed_amount_def
          approved_amount_def Let_def split: if_splits option.splits)
  qed
qed

lemma matches_fields:
  assumes "matches a r"
  shows "\<not> ap_consumed a" "ap_ticket_id a = Some (o_ticket_id r)" "ap_mint a = Some (o_mint r)"
    "ap_max_slippage_bps a = Some (o_max_slippage_bps r)"
  using assms by (auto simp: matches_def split: if_splits)

section \<open>Properties\<close>

definition sample_mint :: string where
  "sample_mint = replicate 32 CHR ''M''"

definition sample_approval :: approval where
  "sample_approval = \<lparr>ap_id = ''apr-01ARZ3NDEKTSV4RRFFQ69G5FAV'', ap_kind = Human_sell,
     ap_ticket_id = Some ''SOL-20260101-001'', ap_mint = Some sample_mint, ap_size_lamports = Some 1500000000,
     ap_token_units = None, ap_max_slippage_bps = Some 250, ap_exit_rule_id = None,
     ap_approved_by = ''human:ann'', ap_raw_message = ''approve'', ap_at = ''2026-01-01T00:00:00+00:00'',
     ap_consumed = False\<rparr>"

definition sample_order :: order_request where
  "sample_order = \<lparr>o_ticket_id = ''SOL-20260101-001'', o_mint = sample_mint, o_side = SELL,
     o_decision_id = ''01ARZ3NDEKTSV4RRFFQ69G5FAV'', o_size_lamports = Some 1500000000, o_token_units = None,
     o_max_slippage_bps = 250, o_approval_id = ''apr-01ARZ3NDEKTSV4RRFFQ69G5FAV'', o_quote_id = None,
     o_exit_reason = None, o_correlation_id = ''c''\<rparr>"

definition sample_phrase :: string where
  "sample_phrase = unwords [''approve'', ''SOL-20260101-001'', sample_mint, ''1.5'', ''250'']"

lemma sample_facts:
  "ticket_pattern ''SOL-20260101-001''" "32 \<le> length sample_mint" "length sample_mint \<le> 44"
  "list_all (\<lambda>c. c \<in> set BASE58) sample_mint" "approval_id_pattern ''apr-01ARZ3NDEKTSV4RRFFQ69G5FAV''"
  "startswith ''human:ann'' ''human:''" "int_of_str ''250'' = Some 250"
  "split_ws sample_phrase = [''approve'', ''SOL-20260101-001'', sample_mint, ''1.5'', ''250'']"
  "dec_of_str ''1.5'' = Some (DFin False 15 (-1))" "dec_less (DFin False 0 0) (DFin False 15 (-1)) = Some True"
  by code_simp+

lemma sample_lamports: "sol_to_lamports (DFin False 15 (-1)) = Some 1500000000"
  by (simp add: sol_to_lamports_def dec_mul_int_def LAMPORTS_PER_SOL_def dec_fix_def ndigits_def dec_prec_def
    nat_str.simps dec_to_int_half_up_def half_up_div_def dec_signed_def)

lemma sample_parsed:
  "parse_human_phrase sample_phrase Human_sell ''human:ann'' ''apr-01ARZ3NDEKTSV4RRFFQ69G5FAV'' ''t''
    = Ok (sample_approval\<lparr>ap_raw_message := sample_phrase, ap_at := ''t''\<rparr>)"
  using sample_facts sample_lamports
  by (simp add: parse_human_phrase_def of_option_def phrase_sol_to_lamports_def is_finite_def sample_approval_def
      validate_approval_def human_kinds_need_human_def human_kind_def positive_if_given_def)

text \<open>
  C22: an approval binds the order. When a validated approval matches a validated order, the approval is
  unconsumed, ticket, mint and slippage bound are the approved ones, and the amount the order will
  execute (lamports for a buy; units before SOL notional for a sell) is the amount approved.
\<close>

theorem matching_approval_binds:
  assumes "validate_approval a = Ok a" "validate_order r = Ok r" "matches a r"
  shows "\<not> ap_consumed a \<and> ap_ticket_id a = Some (o_ticket_id r) \<and> ap_mint a = Some (o_mint r)
    \<and> ap_max_slippage_bps a = Some (o_max_slippage_bps r)
    \<and> order_side (ap_kind a) = Some (side_value (o_side r))
    \<and> executed_amount r = approved_amount a"
  using matching_amount [OF assms] matches_fields [OF assms(3)] assms(3)
  by (auto simp: matches_def split: if_splits)

theorem matching_approval_binds_witness:
  "matches sample_approval sample_order \<and> executed_amount sample_order = approved_amount sample_approval"
proof -
  have "validate_approval sample_approval = Ok sample_approval" "validate_order sample_order = Ok sample_order"
    "matches sample_approval sample_order" by code_simp+
  from matching_approval_binds [OF this] \<open>matches sample_approval sample_order\<close> show ?thesis by blast
qed

text \<open>
  C32: a phrase authorises only what it says. If an approval parsed from a human phrase matches a
  validated order, the phrase is exactly the five words \<open>approve\<close>, the order's ticket, the order's
  mint, a SOL size and a slippage, the slippage reads as the order's bound, and the order executes
  exactly the lamports the size converts to.
\<close>

theorem phrase_authorises_only_itself:
  assumes "parse_human_phrase phrase kind signer i t = Ok a" "kind = Human_buy \<or> kind = Human_sell"
    and "validate_order r = Ok r" "matches a r"
  shows "\<exists>size slip lamports. split_ws phrase = [''approve'', o_ticket_id r, o_mint r, size, slip]
    \<and> int_of_str slip = Some (o_max_slippage_bps r) \<and> phrase_sol_to_lamports size = Ok lamports
    \<and> executed_amount r = Lamports lamports \<and> startswith signer ''human:''"
proof -
  from assms(1) obtain ticket mint size slip bps lamports where p:
    "split_ws phrase = [''approve'', ticket, mint, size, slip]" "int_of_str slip = Some bps"
    "phrase_sol_to_lamports size = Ok lamports"
    "a = \<lparr>ap_id = i, ap_kind = kind, ap_ticket_id = Some ticket, ap_mint = Some mint,
        ap_size_lamports = Some lamports, ap_token_units = None, ap_max_slippage_bps = Some bps,
        ap_exit_rule_id = None, ap_approved_by = signer, ap_raw_message = phrase, ap_at = t, ap_consumed = False\<rparr>"
    "validate_approval a = Ok a"
    by (rule parse_human_phrase_Ok)
  have f: "ticket = o_ticket_id r" "mint = o_mint r" "bps = o_max_slippage_bps r"
    using matches_fields [OF assms(4)] p(4) by auto
  have e: "executed_amount r = Lamports lamports"
    using matching_amount [OF p(5) assms(3,4)] assms(2) p(4)
    by (auto simp: approved_amount_def)
  have s: "startswith signer ''human:''"
    using p(5) assms(2) p(4)
    by (auto simp: validate_approval_def human_kinds_need_human_def human_kind_def rbind_Ok_iff Let_def
        split: if_splits)
  show ?thesis using p(1-3) f e s by blast
qed

theorem phrase_authorises_only_itself_witness:
  "\<exists>size slip. split_ws sample_phrase = [''approve'', ''SOL-20260101-001'', sample_mint, size, slip]
     \<and> executed_amount sample_order = Lamports 1500000000"
proof -
  have ok: "validate_order sample_order = Ok sample_order"
    "matches (sample_approval\<lparr>ap_raw_message := sample_phrase, ap_at := ''t''\<rparr>) sample_order"
    "o_ticket_id sample_order = ''SOL-20260101-001''" "o_mint sample_order = sample_mint"
    "executed_amount sample_order = Lamports 1500000000"
    by code_simp+
  have "Human_sell = Human_buy \<or> Human_sell = Human_sell" by simp
  from phrase_authorises_only_itself [OF sample_parsed this ok(1,2)] show ?thesis
    unfolding ok(3,4) using ok(5) by blast
qed

text \<open>
  C31: the phrase round trip. Writing a ticket, a mint, a positive decimal SOL size and a slippage bound
  as the five words and parsing them returns an approval with exactly those values, the size converted
  half up to lamports.
\<close>

theorem phrase_roundtrip:
  assumes "ticket_pattern ticket" "32 \<le> length mint" "length mint \<le> 44" "list_all (\<lambda>c. c \<in> set BASE58) mint"
    and "is_finite d" "0 < dec_val d" "sol_to_lamports d = Some lamports" "0 < lamports"
    and "0 \<le> bps" "bps \<le> 10000" "kind = Human_buy \<or> kind = Human_sell"
    and "approval_id_pattern i" "startswith signer ''human:''"
  shows "\<exists>a. parse_human_phrase (unwords [''approve'', ticket, mint, dec_str d, int_str bps]) kind signer i t = Ok a
    \<and> ap_ticket_id a = Some ticket \<and> ap_mint a = Some mint \<and> ap_size_lamports a = Some lamports
    \<and> ap_token_units a = None \<and> ap_max_slippage_bps a = Some bps \<and> ap_kind a = kind"
proof -
  have "list_all word [''approve'', ticket, mint, dec_str d, int_str bps]"
    using ticket_word [OF assms(1)] mint_word [OF assms(2,4)] dec_str_word [OF assms(5)] int_str_word
    by (simp add: word_def [of "''approve''"] is_space_def)
  note split = split_unwords [OF this]
  have "dec_less (DFin False 0 0) d = Some True"
    using dec_less_correct [of "DFin False 0 0" d] assms(5,6) by (simp add: is_finite_def dec_val_def)
  then have size: "phrase_sol_to_lamports (dec_str d) = Ok lamports"
    using assms(5,7) by (simp add: phrase_sol_to_lamports_def dec_roundtrip of_option_def)
  show ?thesis
    using assms split size
    by (auto simp: parse_human_phrase_def int_of_str_int_str of_option_def validate_approval_def
        human_kinds_need_human_def human_kind_def positive_if_given_def Let_def)
qed

theorem phrase_roundtrip_witness:
  "\<exists>a. parse_human_phrase (unwords [''approve'', ''SOL-20260101-001'', sample_mint, dec_str (DFin False 15 (-1)),
      int_str 250]) Human_buy ''human:ann'' ''apr-01ARZ3NDEKTSV4RRFFQ69G5FAV'' ''t'' = Ok a
    \<and> ap_size_lamports a = Some 1500000000"
proof -
  have v: "is_finite (DFin False 15 (-1))" "0 < dec_val (DFin False 15 (-1))"
    by (simp_all add: dec_val_def is_finite_def)
  have n: "(0::int) < 1500000000" "(0::int) \<le> 250" "(250::int) \<le> 10000" "Human_buy = Human_buy \<or> Human_buy = Human_sell"
    by simp_all
  from phrase_roundtrip [OF sample_facts(1-4) v sample_lamports n sample_facts(5,6)] show ?thesis by blast
qed

end
