(* ===== verification/LedgerClients.thy ===== *)
theory LedgerClients
  imports Approvals
begin

text \<open>
  Small clients of the ledger: ticket allocation (\<open>ledger/tickets.py\<close>), the autonomy level
  (\<open>ledger/autonomy.py\<close>) and the active parameter set (\<open>ledger/active_set.py\<close>). Tickets are
  journal notes whose number is one more than the day's highest; the two settings are the last valid
  \<open>ConfigChanged\<close> row in ledger order, so they share the reader \<open>latest_setting\<close> and its lemmas.
\<close>

section \<open>Tickets\<close>

definition char_fold :: "char \<Rightarrow> char" where
  \<comment> \<open>SQLite's LIKE ignores the case of ASCII letters\<close>
  "char_fold c = (let n = (of_char c :: nat) in if 65 \<le> n \<and> n \<le> 90 then char_of (n + 32) else c)"

fun sql_like :: "string \<Rightarrow> string \<Rightarrow> bool" where
  "sql_like [] s \<longleftrightarrow> s = []"
| "sql_like (p # ps) [] \<longleftrightarrow> p = CHR ''%'' \<and> sql_like ps []"
| "sql_like (p # ps) (c # s) \<longleftrightarrow>
     (if p = CHR ''%'' then sql_like ps (c # s) \<or> sql_like (p # ps) s
      else (p = CHR ''_'' \<or> char_fold p = char_fold c) \<and> sql_like ps s)"

definition day_like :: "string \<Rightarrow> ledger_row \<Rightarrow> bool" where
  "day_like day r \<longleftrightarrow> r_type r = ''JournalNote''
     \<and> sql_like (''%SOL-'' @ day @ ''-%'') (r_payload r)"

definition day_ticket_count :: "store \<Rightarrow> string \<Rightarrow> nat" where
  "day_ticket_count st day = length (List.filter (day_like day) (events st))"

definition ticket_ref :: "json \<Rightarrow> string" where
  \<comment> \<open>\<open>str(refs[0])\<close> of a ticket note, the empty string without refs\<close>
  "ticket_ref payload = (case payload of
       JObj kvs \<Rightarrow> (case map_of kvs ''refs'' of Some (JArr (JStr s # _)) \<Rightarrow> s | _ \<Rightarrow> [])
     | _ \<Rightarrow> [])"

definition is_ticket_note :: "json \<Rightarrow> bool" where
  "is_ticket_note payload = (case payload of
       JObj kvs \<Rightarrow> map_of kvs ''note_kind'' = Some (JStr ''ticket'') | _ \<Rightarrow> False)"

definition ticket_number :: "string \<Rightarrow> json \<Rightarrow> int option" where
  \<comment> \<open>the number a stored payload claims for the day, if it is a ticket of that day\<close>
  "ticket_number day payload = (let prefix = ''SOL-'' @ day @ ''-''; t = ticket_ref payload in
     if is_ticket_note payload \<and> startswith t prefix \<and> ticket_pattern t
     then int_of_str (drop (length prefix) t) else None)"

definition max_step :: "string \<Rightarrow> int \<Rightarrow> ledger_row \<Rightarrow> int result" where
  "max_step day highest r =
     rbind (of_option (ValueError ''JSONDecodeError'') (loads (r_payload r))) (\<lambda>p.
       Ok (case ticket_number day p of Some n \<Rightarrow> max highest n | None \<Rightarrow> highest))"

definition day_max_ticket_number :: "store \<Rightarrow> string \<Rightarrow> int result" where
  "day_max_ticket_number st day = rfold (max_step day) 0 (List.filter (day_like day) (events st))"

definition pad3 :: "int \<Rightarrow> string" where
  "pad3 n = (let s = nat_str (nat n) in replicate (3 - length s) CHR ''0'' @ s)"

definition compact_day :: "string \<Rightarrow> string" where
  "compact_day ts = List.filter (\<lambda>c. c \<noteq> CHR ''-'') (take 10 ts)"

definition ticket_id_for :: "string \<Rightarrow> int \<Rightarrow> string" where
  "ticket_id_for day n = ''SOL-'' @ day @ ''-'' @ pad3 n"

definition ticket_row :: "string \<Rightarrow> string \<Rightarrow> string \<Rightarrow> string \<Rightarrow> string \<Rightarrow> string \<Rightarrow> (string, pyval) dict" where
  "ticket_row ticket_id ts source cid seat title =
     [(''ts_utc'', PStr ts), (''source'', PStr source), (''correlation_id'', PStr cid),
      (''idempotency_key'', PStr (''ticket:'' @ ticket_id)), (''type'', PStr ''JournalNote''),
      (''payload'', PDict [(''source'', PStr source), (''seat'', PStr seat), (''note_kind'', PStr ''ticket''),
         (''text'', PStr (ticket_id @ '' '' @ title)), (''refs'', PList [PStr ticket_id])])]"

definition MAX_ATTEMPTS :: nat where "MAX_ATTEMPTS = 10"

fun allocate_loop :: "(string \<Rightarrow> string) \<Rightarrow> nat \<Rightarrow> ((store \<Rightarrow> store) \<times> (store \<Rightarrow> store)) list \<Rightarrow> string \<Rightarrow> string \<Rightarrow> string \<Rightarrow> string
    \<Rightarrow> string \<Rightarrow> store \<Rightarrow> string result \<times> store" where
  \<comment> \<open>\<open>others\<close> are the writes of concurrent processes around each attempt: those before it counts, and those
     between its count and its insert\<close>
  "allocate_loop H 0 others ts source cid seat title st =
     (Err (ValueError ''ticket_allocation_failed''), st)"
| "allocate_loop H (Suc n) others ts source cid seat title st0 =
     (let (before, between) = (case others of [] \<Rightarrow> (\<lambda>s. s, \<lambda>s. s) | fg # _ \<Rightarrow> fg); st = before st0 in
      case day_max_ticket_number st (compact_day ts) of
        Inl e \<Rightarrow> (Err e, st)
      | Inr highest \<Rightarrow>
         (let ticket_id = ticket_id_for (compact_day ts) (highest + 1) in
          case append_batch H (between st) [ticket_row ticket_id ts source cid seat title] of
            (Inl (IntegrityError m), st') \<Rightarrow> allocate_loop H n (tl others) ts source cid seat title st'
          | (Inl e, st') \<Rightarrow> (Err e, st')
          | (Inr _, st') \<Rightarrow> (Ok ticket_id, st')))"

definition allocate_ticket :: "(string \<Rightarrow> string) \<Rightarrow> ((store \<Rightarrow> store) \<times> (store \<Rightarrow> store)) list \<Rightarrow> string \<Rightarrow> string \<Rightarrow> string \<Rightarrow> string
    \<Rightarrow> string \<Rightarrow> store \<Rightarrow> string result \<times> store" where
  "allocate_ticket H others ts source cid seat title st =
     allocate_loop H MAX_ATTEMPTS others ts source cid seat title st"

section \<open>Settings kept as ConfigChanged rows\<close>

definition latest_setting :: "(event \<Rightarrow> string option) \<Rightarrow> 'a \<Rightarrow> (string \<Rightarrow> 'a) \<Rightarrow> event list \<Rightarrow> 'a" where
  \<comment> \<open>the loop both readers run: a valid row replaces the value so far\<close>
  "latest_setting sel dflt f es =
     foldl (\<lambda>level e. case sel e of Some x \<Rightarrow> f x | None \<Rightarrow> level) dflt es"

definition changed_key :: "string \<Rightarrow> (string, json) dict \<Rightarrow> bool" where
  "changed_key key kvs = (case map_of kvs ''keys_changed'' of
     Some (JArr vs) \<Rightarrow> JStr key \<in> set vs | _ \<Rightarrow> False)"

definition AUTONOMY_LEVELS :: "string list" where
  "AUTONOMY_LEVELS = [''manual-ticket'', ''autonomous-paper'']"

definition by_human :: "json option \<Rightarrow> bool" where
  \<comment> \<open>\<open>str(by or "").startswith("human:")\<close>: only a text can start so\<close>
  "by_human j = (case j of Some (JStr s) \<Rightarrow> startswith s ''human:'' | _ \<Rightarrow> False)"

definition autonomy_of :: "event \<Rightarrow> string option" where
  "autonomy_of e = (case e_payload e of
       JObj kvs \<Rightarrow>
         (if \<not> changed_key ''autonomy_level'' kvs then None
          else case map_of kvs ''new_hash'' of
            Some (JStr policy) \<Rightarrow>
              if policy \<in> set AUTONOMY_LEVELS \<and> by_human (map_of kvs ''by'') then Some policy else None
          | _ \<Rightarrow> None)
     | _ \<Rightarrow> None)"

definition read_autonomy :: "store \<Rightarrow> string result" where
  "read_autonomy st = rbind (read st 0 [''ConfigChanged''] None None None) (\<lambda>es.
     Ok (latest_setting autonomy_of ''manual-ticket'' (\<lambda>x. x) es))"

definition autonomy_note_text :: "string \<Rightarrow> string \<Rightarrow> string" where
  "autonomy_note_text policy signer = ''autonomy '' @ policy @ '' by '' @ signer"

definition config_row :: "string \<Rightarrow> string \<Rightarrow> string \<Rightarrow> string \<Rightarrow> string \<Rightarrow> string \<Rightarrow> string \<Rightarrow> string
    \<Rightarrow> (string, pyval) dict" where
  "config_row ts source cid key signer changed old new =
     [(''ts_utc'', PStr ts), (''source'', PStr source), (''correlation_id'', PStr cid),
      (''idempotency_key'', PStr key), (''type'', PStr ''ConfigChanged''),
      (''payload'', PDict [(''source'', PStr source), (''by'', PStr signer), (''keys_changed'', PList [PStr changed]),
        (''old_hash'', PStr old), (''new_hash'', PStr new)])]"

definition desk_note_row :: "string \<Rightarrow> string \<Rightarrow> string \<Rightarrow> string \<Rightarrow> string \<Rightarrow> (string, pyval) dict" where
  "desk_note_row ts source cid key body =
     [(''ts_utc'', PStr ts), (''source'', PStr source), (''correlation_id'', PStr cid),
      (''idempotency_key'', PStr key), (''type'', PStr ''JournalNote''),
      (''payload'', PDict [(''source'', PStr source), (''seat'', PStr ''desk''), (''note_kind'', PStr ''note''),
        (''text'', PStr body), (''refs'', PList [])])]"

definition autonomy_rows :: "string \<Rightarrow> string \<Rightarrow> string \<Rightarrow> string \<Rightarrow> string \<Rightarrow> string
    \<Rightarrow> (string, pyval) dict list" where
  "autonomy_rows policy signer previous ts source cid =
     [config_row ts source cid (''autonomy|'' @ policy @ ''|'' @ ts) signer ''autonomy_level'' previous policy,
      desk_note_row ts source cid (''autonomy-note|'' @ policy @ ''|'' @ ts) (autonomy_note_text policy signer)]"

definition ACTIVE_SET_KEY :: string where "ACTIVE_SET_KEY = ''active_param_set''"

definition is_writer :: "json option \<Rightarrow> bool" where
  "is_writer by = (case by of Some (JStr s) \<Rightarrow> startswith s ''human:'' \<or> startswith s ''gate:'' | _ \<Rightarrow> False)"

definition hash_pattern :: "string \<Rightarrow> bool" where
  "hash_pattern s \<longleftrightarrow> length s = 64 \<and> list_all (\<lambda>c. c \<in> set ''0123456789abcdef'') s"

definition active_set_of :: "event \<Rightarrow> string option" where
  "active_set_of e = (case e_payload e of
       JObj kvs \<Rightarrow>
         (if \<not> changed_key ACTIVE_SET_KEY kvs then None
          else case map_of kvs ''new_hash'' of
            Some (JStr h) \<Rightarrow> if hash_pattern h \<and> is_writer (map_of kvs ''by'') then Some h else None
          | _ \<Rightarrow> None)
     | _ \<Rightarrow> None)"

definition read_active_set :: "store \<Rightarrow> string option result" where
  "read_active_set st = rbind (read st 0 [''ConfigChanged''] None None None) (\<lambda>es.
     Ok (latest_setting active_set_of None Some es))"

definition active_set_note_text :: "string \<Rightarrow> string \<Rightarrow> string" where
  "active_set_note_text new_hash source = ''active_param_set '' @ new_hash @ '' from '' @ source"

definition active_set_rows :: "string \<Rightarrow> string \<Rightarrow> string \<Rightarrow> string \<Rightarrow> string \<Rightarrow> string
    \<Rightarrow> (string, pyval) dict list" where
  \<comment> \<open>\<open>new_hash\<close> is the content hash of the set\<close>
  "active_set_rows new_hash signer previous ts source cid =
     [config_row ts source cid (''active-param-set|'' @ new_hash @ ''|'' @ ts) signer ACTIVE_SET_KEY previous new_hash,
      desk_note_row ts source cid (''active-param-set-note|'' @ new_hash @ ''|'' @ ts)
        (active_set_note_text new_hash source)]"

section \<open>Batches of one and two rows\<close>

lemma append_batch_Ok:
  assumes "append_batch H st es = (Ok rs, st')" "es \<noteq> []"
  shows "append_all H st es = Ok (rs, st') \<and> \<not> inconsistent st"
proof -
  have n: "\<not> inconsistent st" using assms by (auto simp: append_batch_def split: if_splits)
  then show ?thesis using assms append_batch_sequential [OF n, of H es] by (auto split: sum.splits prod.splits)
qed

lemma append_all_ConsE:
  assumes "append_all H st (e # es) = Ok (rs, st')"
  obtains x r st1 rs1 where "check_envelope e = Ok x" "append H st x = (Ok r, st1)"
    "append_all H st1 es = Ok (rs1, st')" "rs = r # rs1"
proof -
  from assms obtain x where x: "check_envelope e = Ok x" "(case append H st x of (Inl err, _) \<Rightarrow> Err err
       | (Inr r, st') \<Rightarrow> rbind (append_all H st' es) (\<lambda>(rs, st''). Ok (r # rs, st''))) = Ok (rs, st')"
    by (auto simp: rbind_Ok_iff [of "check_envelope e"])
  then obtain r st1 rs1 where "append H st x = (Ok r, st1)" "append_all H st1 es = Ok (rs1, st')" "rs = r # rs1"
    by (cases "append H st x"; cases "fst (append H st x)") (auto simp: rbind_Ok_iff)
  with x that show thesis by blast
qed

lemma append_all_one:
  assumes "append_all H st [e] = Ok (rs, st')"
  obtains x r where "check_envelope e = Ok x" "append H st x = (Ok r, st')" "rs = [r]"
  using assms by (rule append_all_ConsE) (use that in auto)

lemma append_all_two:
  assumes "append_all H st [e, f] = Ok (rs, st')"
  obtains x r st1 y q where "check_envelope e = Ok x" "append H st x = (Ok r, st1)"
    "check_envelope f = Ok y" "append H st1 y = (Ok q, st')" "rs = [r, q]"
  using assms
proof (rule append_all_ConsE)
  fix x r st1 rs1
  assume a: "check_envelope e = Ok x" "append H st x = (Ok r, st1)" "rs = r # rs1"
    and "append_all H st1 [f] = Ok (rs1, st')"
  from this(4) obtain y q where "check_envelope f = Ok y" "append H st1 y = (Ok q, st')" "rs1 = [q]"
    by (rule append_all_one)
  with a that show thesis by blast
qed

section \<open>Settings\<close>

lemma latest_setting_snoc:
  "latest_setting sel dflt f (es @ [e]) = (case sel e of Some x \<Rightarrow> f x | None \<Rightarrow> latest_setting sel dflt f es)"
  by (simp add: latest_setting_def split: option.splits)

definition config_events :: "store \<Rightarrow> event list" where
  "config_events st = map parsed (List.filter (\<lambda>r. r_type r = ''ConfigChanged'') (events st))"

lemma seq_nonneg: "store_ok H st \<Longrightarrow> r \<in> set (events st) \<Longrightarrow> 0 \<le> r_seq r"
proof -
  assume ok: "store_ok H st" and "r \<in> set (events st)"
  then have "r_seq r \<in> set (map r_seq (events st))" by simp
  also have "map r_seq (events st) = map int [1..<Suc (length (events st))]"
    using ok by (simp add: store_ok_def rows_ok_def seqs_ok_def)
  finally show ?thesis by auto
qed

lemma read_config:
  assumes "store_ok H st"
  shows "read st 0 [''ConfigChanged''] None None None = Ok (config_events st)"
proof -
  have "List.filter (read_where 0 [''ConfigChanged''] None) (events st)
      = List.filter (\<lambda>r. r_type r = ''ConfigChanged'') (events st)"
    using seq_nonneg [OF assms] by (intro filter_cong) (auto simp: read_where_def)
  then show ?thesis
    using store_ok_valid [OF assms] by (simp add: read_valid sql_limit_def ticket_sel_def config_events_def)
qed

lemma append_config:
  assumes "append H st x = (Ok r, st')"
  shows "config_events st' = config_events st @ (if x_type x = ''ConfigChanged'' then [parsed r] else [])"
  using ledger.put_ok [OF assms] by (simp add: config_events_def)

lemma config_type: "event_type_of_str ''ConfigChanged'' = Some ConfigChanged"
  by code_simp

lemma config_payload:
  assumes "append H st x = (Ok r, st')" "x_type x = ''ConfigChanged''"
  obtains kvs where "e_payload (parsed r) = JObj kvs" "payload_of ConfigChanged (x_payload x) kvs"
  using appended_payload [OF assms(1)] config_type assms(2) by metis

lemma config_fields:
  "(''by'', FStr, None) \<in> set (event_model ConfigChanged)"
  "(''keys_changed'', FStrList, Some (JArr [])) \<in> set (event_model ConfigChanged)"
  "(''new_hash'', FStr, Some (JStr [])) \<in> set (event_model ConfigChanged)"
  by (simp_all add: event_model_def config_changed_fields_def)

lemma config_row_entry:
  assumes "check_envelope (config_row ts source cid key signer changed old new) = Ok x"
  shows "x_type x = ''ConfigChanged'' \<and> x_payload x = [(''source'', PStr source), (''by'', PStr signer),
     (''keys_changed'', PList [PStr changed]), (''old_hash'', PStr old), (''new_hash'', PStr new)]"
  using assms by (auto simp: check_envelope_def config_row_def Let_def rbind_Ok_iff assert_str_def)

lemma desk_note_entry:
  assumes "check_envelope (desk_note_row ts source cid key body) = Ok x"
  shows "x_type x = ''JournalNote''"
  using assms by (auto simp: check_envelope_def desk_note_row_def Let_def rbind_Ok_iff assert_str_def)

lemma config_row_payload:
  assumes "append H st x = (Ok r, st')" "check_envelope (config_row ts source cid key signer changed old new) = Ok x"
  obtains kvs where "e_payload (parsed r) = JObj kvs" "map_of kvs ''by'' = Some (JStr signer)"
    "map_of kvs ''keys_changed'' = Some (JArr [JStr changed])" "map_of kvs ''new_hash'' = Some (JStr new)"
proof -
  note x = config_row_entry [OF assms(2)]
  obtain kvs where k: "e_payload (parsed r) = JObj kvs" "payload_of ConfigChanged (x_payload x) kvs"
    using config_payload [OF assms(1)] x by blast
  have "map_of kvs ''by'' = Some (JStr signer)"
    using payload_of_field [OF k(2) config_fields(1)] x by (simp add: dump_value_def)
  moreover have "map_of kvs ''keys_changed'' = Some (JArr [JStr changed])"
    using payload_of_field [OF k(2) config_fields(2)] x by (simp add: dump_value_def str_list_def as_str_def)
  moreover have "map_of kvs ''new_hash'' = Some (JStr new)"
    using payload_of_field [OF k(2) config_fields(3)] x by (simp add: dump_value_def)
  ultimately show thesis using that k(1) by blast
qed

lemma setting_pair:
  assumes "append_batch H st [config_row ts source cid key signer changed old new,
      desk_note_row ts source cid nkey body] = (Ok rs, st')"
  obtains r kvs where "config_events st' = config_events st @ [parsed r]" "e_payload (parsed r) = JObj kvs"
    "map_of kvs ''by'' = Some (JStr signer)" "map_of kvs ''keys_changed'' = Some (JArr [JStr changed])"
    "map_of kvs ''new_hash'' = Some (JStr new)"
proof -
  have "append_all H st [config_row ts source cid key signer changed old new,
      desk_note_row ts source cid nkey body] = Ok (rs, st')"
    using append_batch_Ok [OF assms] by simp
  then obtain x r st1 y q where a: "check_envelope (config_row ts source cid key signer changed old new) = Ok x"
    "append H st x = (Ok r, st1)" "check_envelope (desk_note_row ts source cid nkey body) = Ok y"
    "append H st1 y = (Ok q, st')" by (rule append_all_two)
  have "config_events st' = config_events st @ [parsed r]"
    using append_config [OF a(2)] append_config [OF a(4)] config_row_entry [OF a(1)] desk_note_entry [OF a(3)]
    by simp
  with that config_row_payload [OF a(2,1)] show thesis by metis
qed

lemma read_autonomy_eq:
  "store_ok H st \<Longrightarrow> read_autonomy st = Ok (latest_setting autonomy_of ''manual-ticket'' (\<lambda>x. x) (config_events st))"
  by (simp add: read_autonomy_def read_config)

lemma read_active_set_eq:
  "store_ok H st \<Longrightarrow> read_active_set st = Ok (latest_setting active_set_of None Some (config_events st))"
  by (simp add: read_active_set_def read_config)

lemma not_human_not_autonomy:
  assumes "append H st x = (Ok r, st')" "x_type x = ''ConfigChanged''"
    and "\<not> by_human (map_option (\<lambda>v. case v of PStr s \<Rightarrow> JStr s | _ \<Rightarrow> JNull) (map_of (x_payload x) ''by''))"
  shows "autonomy_of (parsed r) = None"
proof -
  obtain kvs where k: "e_payload (parsed r) = JObj kvs" "payload_of ConfigChanged (x_payload x) kvs"
    by (rule config_payload [OF assms(1,2)])
  have "\<not> by_human (map_of kvs ''by'')"
    using payload_of_field [OF k(2) config_fields(1)] assms(3)
    by (auto simp: dump_value_def by_human_def split: option.splits pyval.splits)
  then show ?thesis by (auto simp: autonomy_of_def k(1) split: option.splits json.splits)
qed

section \<open>Tickets\<close>

lemma batch_one_steps: "append_batch H st es = (res, st') \<Longrightarrow> store_step H st st'"
  by (rule step_batch)

definition honest :: "(string \<Rightarrow> string) \<Rightarrow> ((store \<Rightarrow> store) \<times> (store \<Rightarrow> store)) list \<Rightarrow> bool" where
  \<comment> \<open>the concurrent writers only use the store's operations\<close>
  "honest H others \<longleftrightarrow> (\<forall>(f, g) \<in> set others. \<forall>s. (store_step H)\<^sup>*\<^sup>* s (f s) \<and> (store_step H)\<^sup>*\<^sup>* s (g s))"

lemma ticket_row_entry:
  assumes "check_envelope (ticket_row t ts source cid seat title) = Ok x"
  shows "x_key x = ''ticket:'' @ t \<and> x_type x = ''JournalNote'' \<and> x_ts x = ts"
  using assms by (auto simp: check_envelope_def ticket_row_def Let_def rbind_Ok_iff assert_str_def)

lemma ticket_batch_Ok:
  assumes "append_batch H st [ticket_row t ts source cid seat title] = (Ok rs, st')"
  shows "\<exists>r. events st' = events st @ [r] \<and> r_key r = ''ticket:'' @ t
    \<and> ''ticket:'' @ t \<notin> r_key ` set (events st)"
proof -
  have "append_all H st [ticket_row t ts source cid seat title] = Ok (rs, st')"
    using append_batch_Ok [OF assms] by simp
  then obtain x r where a: "check_envelope (ticket_row t ts source cid seat title) = Ok x"
    "append H st x = (Ok r, st')" by (rule append_all_one)
  show ?thesis using ledger.put_ok [OF a(2)] ticket_row_entry [OF a(1)] by metis
qed

lemma allocate_loop_Ok:
  assumes "allocate_loop H n others ts source cid seat title st = (Ok t, st')" "honest H others"
  shows "\<exists>st1 st2 rs m. (store_step H)\<^sup>*\<^sup>* st st1 \<and> day_max_ticket_number st1 (compact_day ts) = Ok m
    \<and> (store_step H)\<^sup>*\<^sup>* st1 st2 \<and> t = ticket_id_for (compact_day ts) (m + 1)
    \<and> append_batch H st2 [ticket_row t ts source cid seat title] = (Ok rs, st')"
  using assms
proof (induction n arbitrary: others st)
  case (Suc n)
  obtain f g where fg: "(case others of [] \<Rightarrow> (\<lambda>s. s, \<lambda>s. s) | fg # _ \<Rightarrow> fg) = (f, g)" by force
  have f: "(store_step H)\<^sup>*\<^sup>* st (f st)" and g: "(store_step H)\<^sup>*\<^sup>* (f st) (g (f st))"
    using Suc.prems(2) fg by (auto simp: honest_def split: list.splits)
  note step = Suc.prems(1) [unfolded allocate_loop.simps fg Let_def prod.case]
  from step obtain m where m: "day_max_ticket_number (f st) (compact_day ts) = Ok m"
    by (auto split: sum.splits)
  let ?t = "ticket_id_for (compact_day ts) (m + 1)"
  obtain res st2 where b: "append_batch H (g (f st)) [ticket_row ?t ts source cid seat title] = (res, st2)" by force
  show ?case
  proof (cases res)
    case (Inr rs)
    then have "t = ?t" "st2 = st'" using step m b by auto
    then show ?thesis using f g m b Inr by blast
  next
    case (Inl e)
    then obtain msg where "e = IntegrityError msg" using step m b by (cases e) auto
    then have l: "allocate_loop H n (tl others) ts source cid seat title st2 = (Ok t, st')" using step m b Inl by auto
    have h: "honest H (tl others)" using Suc.prems(2) by (cases others) (auto simp: honest_def)
    have "(store_step H)\<^sup>*\<^sup>* st (g (f st))" using f g by (rule rtranclp_trans)
    then have "(store_step H)\<^sup>*\<^sup>* st st2" using batch_one_steps [OF b] by (rule rtranclp.rtrancl_into_rtrancl)
    obtain c1 c2 rs k where "(store_step H)\<^sup>*\<^sup>* st2 c1" and rest: "day_max_ticket_number c1 (compact_day ts) = Ok k"
      "(store_step H)\<^sup>*\<^sup>* c1 c2" "t = ticket_id_for (compact_day ts) (k + 1)"
      "append_batch H c2 [ticket_row t ts source cid seat title] = (Ok rs, st')"
      using Suc.IH [OF l h] by blast
    with \<open>(store_step H)\<^sup>*\<^sup>* st st2\<close> have "(store_step H)\<^sup>*\<^sup>* st c1" by (meson rtranclp_trans)
    with rest show ?thesis by blast
  qed
qed simp

lemma ticket_id_1000_bad: "length day = 8 \<Longrightarrow> \<not> ticket_pattern (ticket_id_for day 1000)"
proof -
  have "pad3 1000 = ''1000''" by (simp add: pad3_def nat_str.simps digit_char_def) code_simp
  then show "length day = 8 \<Longrightarrow> \<not> ticket_pattern (ticket_id_for day 1000)"
    by (simp add: ticket_pattern_def ticket_id_for_def)
qed

lemma ticket_row_payload:
  assumes "append H st x = (Ok r, st')" "check_envelope (ticket_row t ts source cid seat title) = Ok x"
  shows "ticket_ref (e_payload (parsed r)) = t"
proof -
  have x: "x_type x = ''JournalNote''" "map_of (x_payload x) ''refs'' = Some (PList [PStr t])"
    using assms(2) by (auto simp: check_envelope_def ticket_row_def Let_def rbind_Ok_iff assert_str_def)
  have ty: "event_type_of_str (x_type x) = Some JournalNote" unfolding x by code_simp
  obtain kvs where k: "e_payload (parsed r) = JObj kvs" "payload_of JournalNote (x_payload x) kvs"
    using appended_payload [OF assms(1) ty] by metis
  have "(''refs'', FStrList, Some (JArr [])) \<in> set (event_model JournalNote)"
    by (simp add: event_model_def journal_note_fields_def)
  from payload_of_field [OF k(2) this] show ?thesis
    by (simp add: k(1) x dump_value_def str_list_def as_str_def ticket_ref_def)
qed

lemma max_step_parsed:
  assumes "row_valid r"
  shows "max_step day n r = Ok (case ticket_number day (e_payload (parsed r)) of Some k \<Rightarrow> max n k | None \<Rightarrow> n)"
  using assms by (auto elim!: row_valid_event simp: max_step_def parsed_def event_of_def of_option_def)

lemma day_max_snoc:
  assumes "events st' = events st @ [r]" "row_valid r" "ticket_number day (e_payload (parsed r)) = None"
  shows "day_max_ticket_number st' day = day_max_ticket_number st day"
proof -
  have "rbind m (\<lambda>n. rbind (max_step day n r) Ok) = m" "rbind m Ok = m" for m
    using max_step_parsed [OF assms(2)] assms(3) by (cases m; simp)+
  then show ?thesis using assms(1) by (simp add: day_max_ticket_number_def rfold_append)
qed

lemma batch_retry_refused:
  assumes "append_batch H st [e] = (Ok rs, st')" "inconsistent st' = inconsistent st" "rows_ok H (events st)"
    and "check_envelope e = Ok x"
  shows "\<exists>m. append_batch H st' [e] = (Err (IntegrityError m), st')"
proof -
  have n: "\<not> inconsistent st" and "append_all H st [e] = Ok (rs, st')" using append_batch_Ok [OF assms(1)] by auto
  from this(2) obtain y r where "check_envelope e = Ok y" and a: "append H st y = (Ok r, st')" by (rule append_all_one)
  with assms(4) have "append H st x = (Ok r, st')" by simp
  note p = ledger.put_ok [OF this]
  obtain sq prev where h: "head_of (events st') = (sq, prev)" by force
  obtain pj where pj: "validated_payload (x_type x) (x_payload x) = Ok pj" using p by blast
  have "\<exists>m. insert_row (stored_row sq prev x pj (H (row_text prev sq x pj))) (events st') = Err (IntegrityError m)"
    using p by (auto simp: insert_row_def stored_row_def)
  then obtain m where "insert_row (stored_row sq prev x pj (H (row_text prev sq x pj))) (events st') = Err (IntegrityError m)"
    by blast
  then show ?thesis using n assms(2,4) h pj
    by (intro exI [of _ m]) (simp add: append_batch_def row_hash_eq)
qed

lemma allocate_stuck:
  assumes "day_max_ticket_number st (compact_day ts) = Ok m"
    and "append_batch H st [ticket_row (ticket_id_for (compact_day ts) (m + 1)) ts source cid seat title]
         = (Err (IntegrityError msg), st)"
  shows "allocate_loop H n [] ts source cid seat title st = (Err (ValueError ''ticket_allocation_failed''), st)"
  using assms by (induction n) simp_all

section \<open>Properties\<close>

text \<open>
  C28: ticket ids are never issued twice. If an allocation returns a ticket and later, after any ledger
  operations, an allocation by anyone returns a ticket again, the two ids differ, whatever concurrent
  writers commit before any count and between any count and its insert; and each id was one more than
  the number counted.
\<close>

theorem tickets_unique:
  assumes "allocate_ticket H others ts source cid seat title st = (Ok t, st')" "honest H others"
    and "(store_step H)\<^sup>*\<^sup>* st' st2"
    and "allocate_ticket H others2 ts2 source2 cid2 seat2 title2 st2 = (Ok t2, st3)" "honest H others2"
  shows "t \<noteq> t2 \<and> (\<exists>counted m. (store_step H)\<^sup>*\<^sup>* st counted \<and> (store_step H)\<^sup>*\<^sup>* counted st'
    \<and> day_max_ticket_number counted (compact_day ts) = Ok m \<and> t = ticket_id_for (compact_day ts) (m + 1))"
proof -
  obtain counted st1 rs m where c: "(store_step H)\<^sup>*\<^sup>* st counted" "day_max_ticket_number counted (compact_day ts) = Ok m"
    "(store_step H)\<^sup>*\<^sup>* counted st1" "t = ticket_id_for (compact_day ts) (m + 1)"
    and 1: "append_batch H st1 [ticket_row t ts source cid seat title] = (Ok rs, st')"
    using allocate_loop_Ok [OF assms(1) [unfolded allocate_ticket_def] assms(2)] by blast
  obtain st4 rs2 where 2: "(store_step H)\<^sup>*\<^sup>* st2 st4"
    "append_batch H st4 [ticket_row t2 ts2 source2 cid2 seat2 title2] = (Ok rs2, st3)"
    using allocate_loop_Ok [OF assms(4) [unfolded allocate_ticket_def] assms(5)] by (meson rtranclp_trans)
  have last: "(store_step H)\<^sup>*\<^sup>* counted st'" using c(3) batch_one_steps [OF 1] by (rule rtranclp.rtrancl_into_rtrancl)
  obtain r where "events st' = events st1 @ [r]" and rk: "r_key r = ''ticket:'' @ t"
    using ticket_batch_Ok [OF 1] by blast
  then have r: "r \<in> set (events st')" "r_key r = ''ticket:'' @ t" by simp_all
  have "(store_step H)\<^sup>*\<^sup>* st' st4" using assms(3) 2(1) by simp
  then have "r \<in> set (events st4)" using r store_steps_prefix by fastforce
  moreover have "''ticket:'' @ t2 \<notin> r_key ` set (events st4)" using ticket_batch_Ok [OF 2(2)] by blast
  ultimately have "t \<noteq> t2" using r(2) by force
  then show ?thesis using c(1,2,4) last by blast
qed

lemma sample_ticket_batch:
  "is_ok (fst (append_batch (\<lambda>s. s) empty_store
     [ticket_row ''SOL-20260101-001'' ''2026-01-01T00:00:00Z'' ''paper'' ''c'' ''desk'' ''x'']))"
  by code_simp

lemma sample_ticket:
  obtains st' rs where "allocate_ticket (\<lambda>s. s) [] ''2026-01-01T00:00:00Z'' ''paper'' ''c'' ''desk'' ''x'' empty_store
     = (Ok ''SOL-20260101-001'', st')"
    "append_batch (\<lambda>s. s) empty_store
       [ticket_row ''SOL-20260101-001'' ''2026-01-01T00:00:00Z'' ''paper'' ''c'' ''desk'' ''x''] = (Ok rs, st')"
proof -
  let ?row = "ticket_row ''SOL-20260101-001'' ''2026-01-01T00:00:00Z'' ''paper'' ''c'' ''desk'' ''x''"
  obtain res st' where b: "append_batch (\<lambda>s. s) empty_store [?row] = (res, st')" by force
  then obtain rs where "res = Ok rs" using sample_ticket_batch by (auto simp: is_ok_iff)
  moreover have "compact_day ''2026-01-01T00:00:00Z'' = ''20260101''" "ticket_id_for ''20260101'' 1 = ''SOL-20260101-001''"
    by code_simp+
  moreover have "day_max_ticket_number empty_store ''20260101'' = Ok 0"
    by (simp add: day_max_ticket_number_def empty_store_def)
  ultimately show thesis using that b
    by (simp add: allocate_ticket_def MAX_ATTEMPTS_def numeral_eq_Suc)
qed

definition short_digest :: "string \<Rightarrow> string" where
  "short_digest s = take 120 s"

definition rival :: "store \<Rightarrow> store" where
  \<comment> \<open>another process takes the first number\<close>
  "rival st = snd (append_batch short_digest st
     [ticket_row ''SOL-20260101-001'' ''2026-01-01T00:00:00Z'' ''paper'' ''r'' ''desk'' ''y''])"

lemma lost_race:
  "(case allocate_ticket short_digest [(\<lambda>s. s, rival)] ''2026-01-01T00:00:00Z'' ''paper'' ''c'' ''desk'' ''x'' empty_store of
      (r, st) \<Rightarrow> r = Ok ''SOL-20260101-002''
        \<and> fst (allocate_ticket short_digest [] ''2026-01-01T00:00:00Z'' ''paper'' ''c'' ''desk'' ''x'' st) = Ok ''SOL-20260101-003'')"
  by code_simp

theorem tickets_unique_witness:
  \<comment> \<open>a rival takes the number between the count and the insert of the first attempt\<close>
  "\<exists>st' st3. allocate_ticket short_digest [(\<lambda>s. s, rival)] ''2026-01-01T00:00:00Z'' ''paper'' ''c'' ''desk'' ''x'' empty_store
        = (Ok ''SOL-20260101-002'', st')
     \<and> allocate_ticket short_digest [] ''2026-01-01T00:00:00Z'' ''paper'' ''c'' ''desk'' ''x'' st' = (Ok ''SOL-20260101-003'', st3)
     \<and> ''SOL-20260101-002'' \<noteq> ''SOL-20260101-003''"
proof -
  obtain r st' where a: "allocate_ticket short_digest [(\<lambda>s. s, rival)] ''2026-01-01T00:00:00Z'' ''paper'' ''c'' ''desk'' ''x'' empty_store
     = (r, st')" by force
  obtain q st3 where b: "allocate_ticket short_digest [] ''2026-01-01T00:00:00Z'' ''paper'' ''c'' ''desk'' ''x'' st' = (q, st3)" by force
  have r: "r = Ok ''SOL-20260101-002''" "q = Ok ''SOL-20260101-003''" using lost_race a b by simp_all
  have h: "honest short_digest [(\<lambda>s. s, rival)]"
    by (simp add: honest_def rival_def r_into_rtranclp step_batch [OF prod.collapse [symmetric]])
  have n: "honest short_digest []" by (simp add: honest_def)
  from tickets_unique [OF a [unfolded r] h rtranclp.rtrancl_refl b [unfolded r] n] a b r show ?thesis by blast
qed

text \<open>
  C29: the day's thousandth ticket breaks the format and ends allocation. When the highest number of the
  day is 999, a successful allocation returns an id outside \<open>SOL-YYYYMMDD-NNN\<close>; the day's highest
  number is then still 999, and the same allocation afterwards fails after all its attempts.
\<close>

theorem thousandth_ticket_breaks_format:
  assumes "reachable H st" "length (compact_day ts) = 8"
    and "day_max_ticket_number st (compact_day ts) = Ok 999"
    and "allocate_ticket H [] ts source cid seat title st = (Ok t, st')"
  shows "\<not> ticket_pattern t \<and> day_max_ticket_number st' (compact_day ts) = Ok 999
    \<and> allocate_ticket H [] ts source cid seat title st' = (Err (ValueError ''ticket_allocation_failed''), st')"
proof -
  let ?t = "ticket_id_for (compact_day ts) 1000"
  obtain res st2 where b: "append_batch H st [ticket_row ?t ts source cid seat title] = (res, st2)" by force
  have "\<exists>rs. res = Ok rs \<and> st2 = st' \<and> t = ?t"
  proof (cases res)
    case (Inl e)
    show ?thesis
    proof (cases "\<exists>m. e = IntegrityError m")
      case True
      then obtain m where m: "e = IntegrityError m" by blast
      then have "st2 = st" using b Inl append_batch_sequential [of st H "[ticket_row ?t ts source cid seat title]"]
        by (auto simp: append_batch_def split: if_splits prod.splits sum.splits)
      then have "allocate_loop H MAX_ATTEMPTS [] ts source cid seat title st
          = (Err (ValueError ''ticket_allocation_failed''), st)"
        using allocate_stuck [of st ts 999 H source cid seat title m MAX_ATTEMPTS] assms(3) b Inl m by simp
      then show ?thesis using assms(4) by (simp add: allocate_ticket_def)
    next
      case False
      then have "fst (allocate_loop H MAX_ATTEMPTS [] ts source cid seat title st) = Err e"
        using assms(3) b Inl by (cases e) (simp_all add: MAX_ATTEMPTS_def numeral_eq_Suc)
      then show ?thesis using assms(4) by (simp add: allocate_ticket_def)
    qed
  next
    case (Inr rs)
    then show ?thesis using assms(3,4) b by (auto simp: allocate_ticket_def MAX_ATTEMPTS_def numeral_eq_Suc)
  qed
  then obtain rs where rs: "append_batch H st [ticket_row ?t ts source cid seat title] = (Ok rs, st')" "t = ?t"
    using b by blast
  note bad = ticket_id_1000_bad [OF assms(2)]
  have "append_all H st [ticket_row ?t ts source cid seat title] = Ok (rs, st')"
    using append_batch_Ok [OF rs(1)] by simp
  then obtain x r where a: "check_envelope (ticket_row ?t ts source cid seat title) = Ok x"
    "append H st x = (Ok r, st')" by (rule append_all_one)
  have ev: "events st' = events st @ [r]" using ledger.put_ok [OF a(2)] by blast
  have v: "row_valid r"
    using store_ok_valid [OF append_store_ok [OF reachable_store_ok [OF assms(1)] a(2)]] ev by simp
  have "ticket_number (compact_day ts) (e_payload (parsed r)) = None"
    using bad ticket_row_payload [OF a(2,1)] by (simp add: ticket_number_def)
  then have dm: "day_max_ticket_number st' (compact_day ts) = Ok 999"
    using day_max_snoc [OF ev v] assms(3) by simp
  have "inconsistent st' = inconsistent st" using a(2) by (auto elim!: append_Ok)
  then obtain m where "append_batch H st' [ticket_row ?t ts source cid seat title] = (Err (IntegrityError m), st')"
    using batch_retry_refused [OF rs(1) _ _ a(1)] reachable_store_ok [OF assms(1)] by (auto simp: store_ok_def)
  then have "allocate_loop H MAX_ATTEMPTS [] ts source cid seat title st'
      = (Err (ValueError ''ticket_allocation_failed''), st')"
    using allocate_stuck [of st' ts 999 H source cid seat title m MAX_ATTEMPTS] dm by simp
  then show ?thesis using bad rs(2) dm by (simp add: allocate_ticket_def)
qed

definition sample_999 :: store where
  "sample_999 = snd (append_batch (\<lambda>s. s) empty_store
     [ticket_row ''SOL-20260101-999'' ''2026-01-01T00:00:00Z'' ''paper'' ''c'' ''desk'' ''x''])"

theorem thousandth_ticket_breaks_format_witness:
  "\<exists>t st'. allocate_ticket (\<lambda>s. s) [] ''2026-01-01T00:00:00Z'' ''paper'' ''c'' ''desk'' ''x'' sample_999 = (Ok t, st')
     \<and> \<not> ticket_pattern t"
proof -
  have r: "reachable (\<lambda>s. s) sample_999"
    unfolding reachable_def sample_999_def
    by (rule r_into_rtranclp, rule step_batch [OF prod.collapse [symmetric]])
  have c: "length (compact_day ''2026-01-01T00:00:00Z'') = 8" by code_simp
  have m: "day_max_ticket_number sample_999 (compact_day ''2026-01-01T00:00:00Z'') = Ok 999" by code_simp
  have "is_ok (fst (allocate_ticket (\<lambda>s. s) [] ''2026-01-01T00:00:00Z'' ''paper'' ''c'' ''desk'' ''x'' sample_999))"
    by code_simp
  then obtain t st' where a: "allocate_ticket (\<lambda>s. s) [] ''2026-01-01T00:00:00Z'' ''paper'' ''c'' ''desk'' ''x'' sample_999
      = (Ok t, st')" by (metis is_ok_iff prod.collapse)
  from thousandth_ticket_breaks_format [OF r c m a] a show ?thesis by blast
qed

text \<open>
  Journal text is never policy. Appending any event that is not a \<open>ConfigChanged\<close> row signed by a
  human leaves the autonomy level as it was, and appending anything but a \<open>ConfigChanged\<close> row leaves
  the active parameter set as it was.
\<close>

theorem journal_is_not_policy:
  assumes "reachable H st" "append H st x = (Ok r, st')"
  shows "(x_type x \<noteq> ''ConfigChanged''
      \<or> \<not> by_human (map_option (\<lambda>v. case v of PStr s \<Rightarrow> JStr s | _ \<Rightarrow> JNull) (map_of (x_payload x) ''by''))
     \<longrightarrow> read_autonomy st' = read_autonomy st)
    \<and> (x_type x \<noteq> ''ConfigChanged'' \<longrightarrow> read_active_set st' = read_active_set st)"
proof -
  have ok: "store_ok H st" "store_ok H st'"
    using reachable_store_ok [OF assms(1)] append_store_ok [OF _ assms(2)] by auto
  show ?thesis
    using append_config [OF assms(2)] not_human_not_autonomy [OF assms(2)]
    by (auto simp: read_autonomy_eq [OF ok(1)] read_autonomy_eq [OF ok(2)] read_active_set_eq [OF ok(1)]
        read_active_set_eq [OF ok(2)] latest_setting_snoc)
qed

theorem journal_is_not_policy_witness:
  "\<exists>r st'. append (\<lambda>s. s) empty_store sample_note = (Ok r, st') \<and> read_autonomy st' = read_autonomy empty_store"
proof -
  obtain r st' where a: "append (\<lambda>s. s) empty_store sample_note = (Ok r, st')" by (rule sample_reachable)
  have "reachable (\<lambda>s. s) empty_store" by (simp add: reachable_def)
  from journal_is_not_policy [OF this a] a show ?thesis by (auto simp: sample_note_def)
qed

text \<open>
  The operator's rows take effect. On a reachable ledger, appending the row pair of a valid level
  under a human's name makes \<open>read_autonomy\<close> return that level, and appending the pair of a content
  hash under a writer's name makes \<open>read_active_set\<close> return that hash.
\<close>

theorem settings_take_effect:
  assumes "reachable H st"
  shows "(append_batch H st (autonomy_rows policy signer previous ts source cid) = (Ok rs, st')
       \<longrightarrow> policy \<in> set AUTONOMY_LEVELS \<longrightarrow> startswith signer ''human:'' \<longrightarrow> read_autonomy st' = Ok policy)
    \<and> (append_batch H st (active_set_rows h signer previous ts source cid) = (Ok rs, st')
       \<longrightarrow> hash_pattern h \<longrightarrow> startswith signer ''human:'' \<or> startswith signer ''gate:''
       \<longrightarrow> read_active_set st' = Ok (Some h))"
proof (intro conjI impI)
  assume b: "append_batch H st (autonomy_rows policy signer previous ts source cid) = (Ok rs, st')"
    and p: "policy \<in> set AUTONOMY_LEVELS" "startswith signer ''human:''"
  obtain r kvs where k: "config_events st' = config_events st @ [parsed r]" "e_payload (parsed r) = JObj kvs"
    "map_of kvs ''by'' = Some (JStr signer)" "map_of kvs ''keys_changed'' = Some (JArr [JStr ''autonomy_level''])"
    "map_of kvs ''new_hash'' = Some (JStr policy)"
    using b unfolding autonomy_rows_def by (rule setting_pair)
  have "store_ok H st'" using append_batch_store_ok [OF reachable_store_ok [OF assms] b] .
  then show "read_autonomy st' = Ok policy"
    using k p by (simp add: read_autonomy_eq latest_setting_snoc autonomy_of_def changed_key_def by_human_def)
next
  assume b: "append_batch H st (active_set_rows h signer previous ts source cid) = (Ok rs, st')"
    and p: "hash_pattern h" "startswith signer ''human:'' \<or> startswith signer ''gate:''"
  obtain r kvs where k: "config_events st' = config_events st @ [parsed r]" "e_payload (parsed r) = JObj kvs"
    "map_of kvs ''by'' = Some (JStr signer)" "map_of kvs ''keys_changed'' = Some (JArr [JStr ACTIVE_SET_KEY])"
    "map_of kvs ''new_hash'' = Some (JStr h)"
    using b unfolding active_set_rows_def by (rule setting_pair)
  have "store_ok H st'" using append_batch_store_ok [OF reachable_store_ok [OF assms] b] .
  then show "read_active_set st' = Ok (Some h)"
    using k p by (simp add: read_active_set_eq latest_setting_snoc active_set_of_def changed_key_def is_writer_def)
qed

theorem settings_take_effect_witness:
  "\<exists>rs st'. append_batch (\<lambda>s. s) empty_store
       (autonomy_rows ''autonomous-paper'' ''human:ann'' ''manual-ticket'' ''2026-01-01T00:00:00Z'' ''paper'' ''c'') = (Ok rs, st')
     \<and> read_autonomy st' = Ok ''autonomous-paper''"
proof -
  have "is_ok (fst (append_batch (\<lambda>s. s) empty_store
      (autonomy_rows ''autonomous-paper'' ''human:ann'' ''manual-ticket'' ''2026-01-01T00:00:00Z'' ''paper'' ''c'')))"
    by code_simp
  then obtain rs st' where b: "append_batch (\<lambda>s. s) empty_store
      (autonomy_rows ''autonomous-paper'' ''human:ann'' ''manual-ticket'' ''2026-01-01T00:00:00Z'' ''paper'' ''c'') = (Ok rs, st')"
    by (metis is_ok_iff prod.collapse)
  have r: "reachable (\<lambda>s. s) empty_store" by (simp add: reachable_def)
  have "''autonomous-paper'' \<in> set AUTONOMY_LEVELS" "startswith ''human:ann'' ''human:''" by code_simp+
  then have "read_autonomy st' = Ok ''autonomous-paper''"
    using conjunct1 [OF settings_take_effect [OF r, of "''autonomous-paper''" "''human:ann''" "''manual-ticket''"
      "''2026-01-01T00:00:00Z''" "''paper''" "''c''" rs st' "[]"]] b by blast
  with b show ?thesis by blast
qed

end
