(* ===== verification/Snapshot.thy ===== *)
theory Snapshot
  imports Views "HOL-Library.Multiset"
begin

text \<open>
  Snapshots of the folded state: \<open>dump_state\<close> and \<open>load_state\<close> (\<open>ledger/reducer.py\<close>). A state is
  dumped field by field to JSON with decimals as text and read back through the validators of the
  pydantic models (strict money, lax counters and flags, defaults for missing keys, unknown keys
  ignored). Stored as canonical JSON a snapshot comes back with its dictionaries in key order, so the
  restored state equals the dumped one up to dictionary order (\<open>state_equiv\<close>), which no handler sees
  (nor does any handler see \<open>meta\<close>, so \<open>state_equiv\<close> leaves it out).
\<close>

section \<open>Dumping\<close>

definition dump_position :: "position \<Rightarrow> json" where
  "dump_position p = JObj
     [(''mint'', JStr (p_mint p)), (''symbol'', JStr (p_symbol p)), (''creator'', JStr (p_creator p)),
      (''ticket_id'', JStr (p_ticket_id p)), (''correlation_id'', JStr (p_correlation_id p)),
      (''price_entry'', JStr (dec_str (p_price_entry p))), (''price_peak'', JStr (dec_str (p_price_peak p))),
      (''token_units'', JInt (p_token_units p)), (''cost_basis_lamports'', JInt (p_cost_basis p)),
      (''fees_lamports'', JInt (p_fees p)), (''opened_ts_utc'', JStr (p_opened_ts p)),
      (''last_mtm_lamports'', JInt (p_last_mtm p)),
      (''last_mtm_venue_fee_lamports'', JInt (p_last_mtm_venue_fee p)),
      (''last_mtm_ts_utc'', JStr (p_last_mtm_ts p)), (''mtm_source'', JStr (p_mtm_source p)),
      (''mtm_frozen'', JBool (p_mtm_frozen p))]"

definition dump_halt :: "halt_view \<Rightarrow> json" where
  "dump_halt h = JObj [(''active'', JBool (h_active h)), (''reason'', JStr (h_reason h)), (''since'', JStr (h_since h))]"

definition dump_kill :: "kill_view \<Rightarrow> json" where
  "dump_kill k = JObj [(''active'', JBool (k_active k)), (''source'', JStr (k_source k)),
     (''since'', JStr (k_since k)), (''flatten_requested'', JBool (k_flatten k))]"

definition dump_breaker :: "breaker_view \<Rightarrow> json" where
  "dump_breaker b = JObj [(''state'', JStr (b_state b)), (''since'', JStr (b_since b)), (''until'', JStr (b_until b))]"

definition dump_approval :: "approval_view \<Rightarrow> json" where
  "dump_approval a = JObj [(''kind'', JStr (a_kind a)), (''consumed'', JBool (a_consumed a))]"

definition dump_dict :: "('a \<Rightarrow> json) \<Rightarrow> (string, 'a) dict \<Rightarrow> json" where
  "dump_dict f d = JObj (map (\<lambda>(k, v). (k, f v)) d)"

definition dump_counters :: "counters \<Rightarrow> json" where
  "dump_counters c = JObj [(''trades_today'', JInt (c_trades_today c)),
     (''rejected_today'', dump_dict JInt (c_rejected_today c)),
     (''fees_today_lamports'', JInt (c_fees_today c)), (''realized_today_lamports'', JInt (c_realized_today c))]"

definition dump_state :: "lstate \<Rightarrow> (string, json) dict" where
  "dump_state s =
     [(''seq'', JInt (l_seq s)), (''source'', JStr (l_source s)), (''day_utc'', JStr (l_day_utc s)),
      (''day_start_equity_lamports'', JInt (l_day_start_equity s)),
      (''peak_equity_lamports'', JInt (l_peak_equity s)), (''cash_lamports'', JInt (l_cash s)),
      (''positions'', dump_dict dump_position (l_positions s)), (''halt'', dump_halt (l_halt s)),
      (''kill_switch'', dump_kill (l_kill s)), (''breakers'', dump_dict dump_breaker (l_breakers s)),
      (''approvals'', dump_dict dump_approval (l_approvals s)), (''counters'', dump_counters (l_counters s)),
      (''last_mtm_ts_utc'', JStr (l_last_mtm_ts s)), (''unknown_events'', JArr (map JStr (l_unknown s))),
      (''meta'', dump_dict JStr (l_meta s))]"

section \<open>Loading\<close>

definition v_str :: "json \<Rightarrow> string result" where
  "v_str j = (case j of JStr s \<Rightarrow> Ok s | _ \<Rightarrow> Err (ValueError ''string_type''))"

definition v_money :: "json \<Rightarrow> int result" where
  \<comment> \<open>\<open>MoneyInt\<close>: strict\<close>
  "v_money j = (case j of JInt i \<Rightarrow> Ok i | _ \<Rightarrow> Err (ValueError ''int_type''))"

definition v_int :: "json \<Rightarrow> int result" where
  \<comment> \<open>a plain \<open>int\<close> field\<close>
  "v_int j = (case j of JInt i \<Rightarrow> Ok i | JBool b \<Rightarrow> Ok (if b then 1 else 0)
     | JStr s \<Rightarrow> of_option (ValueError ''int_parsing'') (int_of_str s)
     | JFloat t \<Rightarrow> Err (Unrepresentable ''int'') | _ \<Rightarrow> Err (ValueError ''int_type''))"

definition v_bool :: "json \<Rightarrow> bool result" where
  "v_bool j = (case j of JBool b \<Rightarrow> Ok b
     | JInt i \<Rightarrow> (if i = 0 then Ok False else if i = 1 then Ok True else Err (ValueError ''bool_parsing''))
     | JStr s \<Rightarrow> (if lower s \<in> {''0'', ''off'', ''f'', ''false'', ''n'', ''no''} then Ok False
                  else if lower s \<in> {''1'', ''on'', ''t'', ''true'', ''y'', ''yes''} then Ok True
                  else Err (ValueError ''bool_parsing''))
     | JFloat t \<Rightarrow> Err (Unrepresentable ''bool'') | _ \<Rightarrow> Err (ValueError ''bool_type''))"

definition field_or :: "(string, json) dict \<Rightarrow> string \<Rightarrow> 'a \<Rightarrow> (json \<Rightarrow> 'a result) \<Rightarrow> 'a result" where
  "field_or kvs k d conv = (case map_of kvs k of None \<Rightarrow> Ok d | Some j \<Rightarrow> conv j)"

definition field_req :: "(string, json) dict \<Rightarrow> string \<Rightarrow> (json \<Rightarrow> 'a result) \<Rightarrow> 'a result" where
  "field_req kvs k conv = (case map_of kvs k of None \<Rightarrow> Err (ValueError ''missing'') | Some j \<Rightarrow> conv j)"

definition v_obj :: "((string, json) dict \<Rightarrow> 'a result) \<Rightarrow> json \<Rightarrow> 'a result" where
  "v_obj f j = (case j of JObj kvs \<Rightarrow> f kvs | _ \<Rightarrow> Err (ValueError ''model_type''))"

definition v_dict :: "(json \<Rightarrow> 'a result) \<Rightarrow> json \<Rightarrow> (string, 'a) dict result" where
  "v_dict conv = v_obj (rmap (\<lambda>(k, j). rbind (conv j) (\<lambda>v. Ok (k, v))))"

definition v_list :: "(json \<Rightarrow> 'a result) \<Rightarrow> json \<Rightarrow> 'a list result" where
  "v_list conv j = (case j of JArr js \<Rightarrow> rmap conv js | _ \<Rightarrow> Err (ValueError ''list_type''))"

definition load_position :: "(string, json) dict \<Rightarrow> position result" where
  "load_position kvs =
     rbind (field_req kvs ''mint'' v_str) (\<lambda>mint.
     rbind (field_or kvs ''symbol'' [] v_str) (\<lambda>symbol.
     rbind (field_or kvs ''creator'' [] v_str) (\<lambda>creator.
     rbind (field_or kvs ''ticket_id'' [] v_str) (\<lambda>ticket.
     rbind (field_or kvs ''correlation_id'' [] v_str) (\<lambda>cid.
     rbind (field_or kvs ''price_entry'' dec_zero price_of_json) (\<lambda>entry.
     rbind (field_or kvs ''price_peak'' dec_zero price_of_json) (\<lambda>peak.
     rbind (field_or kvs ''token_units'' 0 v_money) (\<lambda>units.
     rbind (field_or kvs ''cost_basis_lamports'' 0 v_money) (\<lambda>cost.
     rbind (field_or kvs ''fees_lamports'' 0 v_money) (\<lambda>fees.
     rbind (field_or kvs ''opened_ts_utc'' [] v_str) (\<lambda>opened.
     rbind (field_or kvs ''last_mtm_lamports'' 0 v_money) (\<lambda>mtm.
     rbind (field_or kvs ''last_mtm_venue_fee_lamports'' 0 v_money) (\<lambda>venue.
     rbind (field_or kvs ''last_mtm_ts_utc'' [] v_str) (\<lambda>mts.
     rbind (field_or kvs ''mtm_source'' [] v_str) (\<lambda>src.
     rbind (field_or kvs ''mtm_frozen'' False v_bool) (\<lambda>frozen.
     Ok \<lparr>p_mint = mint, p_symbol = symbol, p_creator = creator, p_ticket_id = ticket,
         p_correlation_id = cid, p_price_entry = entry, p_price_peak = peak, p_token_units = units,
         p_cost_basis = cost, p_fees = fees, p_opened_ts = opened, p_last_mtm = mtm,
         p_last_mtm_venue_fee = venue, p_last_mtm_ts = mts, p_mtm_source = src,
         p_mtm_frozen = frozen\<rparr>))))))))))))))))"

definition load_halt :: "(string, json) dict \<Rightarrow> halt_view result" where
  "load_halt kvs =
     rbind (field_or kvs ''active'' False v_bool) (\<lambda>a.
     rbind (field_or kvs ''reason'' [] v_str) (\<lambda>r.
     rbind (field_or kvs ''since'' [] v_str) (\<lambda>s. Ok \<lparr>h_active = a, h_reason = r, h_since = s\<rparr>)))"

definition load_kill :: "(string, json) dict \<Rightarrow> kill_view result" where
  "load_kill kvs =
     rbind (field_or kvs ''active'' False v_bool) (\<lambda>a.
     rbind (field_or kvs ''source'' [] v_str) (\<lambda>r.
     rbind (field_or kvs ''since'' [] v_str) (\<lambda>s.
     rbind (field_or kvs ''flatten_requested'' False v_bool) (\<lambda>f.
       Ok \<lparr>k_active = a, k_source = r, k_since = s, k_flatten = f\<rparr>))))"

definition load_breaker :: "(string, json) dict \<Rightarrow> breaker_view result" where
  "load_breaker kvs =
     rbind (field_or kvs ''state'' ''closed'' v_str) (\<lambda>a.
     rbind (field_or kvs ''since'' [] v_str) (\<lambda>s.
     rbind (field_or kvs ''until'' [] v_str) (\<lambda>u. Ok \<lparr>b_state = a, b_since = s, b_until = u\<rparr>)))"

definition load_approval :: "(string, json) dict \<Rightarrow> approval_view result" where
  "load_approval kvs =
     rbind (field_req kvs ''kind'' v_str) (\<lambda>k.
     rbind (field_or kvs ''consumed'' False v_bool) (\<lambda>c. Ok \<lparr>a_kind = k, a_consumed = c\<rparr>))"

definition load_counters :: "(string, json) dict \<Rightarrow> counters result" where
  "load_counters kvs =
     rbind (field_or kvs ''trades_today'' 0 v_money) (\<lambda>t.
     rbind (field_or kvs ''rejected_today'' [] (v_dict v_int)) (\<lambda>r.
     rbind (field_or kvs ''fees_today_lamports'' 0 v_money) (\<lambda>f.
     rbind (field_or kvs ''realized_today_lamports'' 0 v_int) (\<lambda>z.
       Ok \<lparr>c_trades_today = t, c_rejected_today = r, c_fees_today = f, c_realized_today = z\<rparr>))))"

definition load_state :: "(string, json) dict \<Rightarrow> lstate result" where
  "load_state kvs =
     rbind (field_or kvs ''seq'' 0 v_int) (\<lambda>sq.
     rbind (field_or kvs ''source'' ''paper'' v_str) (\<lambda>src.
     rbind (field_or kvs ''day_utc'' [] v_str) (\<lambda>day.
     rbind (field_or kvs ''day_start_equity_lamports'' 0 v_money) (\<lambda>start.
     rbind (field_or kvs ''peak_equity_lamports'' 0 v_money) (\<lambda>peak.
     rbind (field_or kvs ''cash_lamports'' 0 v_int) (\<lambda>cash.
     rbind (field_or kvs ''positions'' [] (v_dict (v_obj load_position))) (\<lambda>ps.
     rbind (field_or kvs ''halt'' no_halt (v_obj load_halt)) (\<lambda>halt.
     rbind (field_or kvs ''kill_switch'' no_kill (v_obj load_kill)) (\<lambda>kill.
     rbind (field_or kvs ''breakers'' [] (v_dict (v_obj load_breaker))) (\<lambda>bs.
     rbind (field_or kvs ''approvals'' [] (v_dict (v_obj load_approval))) (\<lambda>aps.
     rbind (field_or kvs ''counters'' zero_counters (v_obj load_counters)) (\<lambda>c.
     rbind (field_or kvs ''last_mtm_ts_utc'' [] v_str) (\<lambda>mts.
     rbind (field_or kvs ''unknown_events'' [] (v_list v_str)) (\<lambda>un.
     rbind (field_or kvs ''meta'' [] (v_dict v_str)) (\<lambda>mt.
     Ok \<lparr>l_seq = sq, l_source = src, l_day_utc = day, l_day_start_equity = start,
         l_peak_equity = peak, l_cash = cash, l_positions = ps, l_halt = halt, l_kill = kill,
         l_breakers = bs, l_approvals = aps, l_counters = c, l_last_mtm_ts = mts, l_unknown = un,
         l_meta = mt\<rparr>)))))))))))))))"

section \<open>Restoring what was dumped\<close>

definition sorted_dict :: "(string, 'a) dict \<Rightarrow> (string, 'a) dict" where
  "sorted_dict d = sort_key fst d"

definition sorted_state :: "lstate \<Rightarrow> lstate" where
  \<comment> \<open>the state with its dictionaries in key order\<close>
  "sorted_state s = s\<lparr>l_positions := sorted_dict (l_positions s), l_breakers := sorted_dict (l_breakers s),
     l_approvals := sorted_dict (l_approvals s),
     l_counters := (l_counters s)\<lparr>c_rejected_today := sorted_dict (c_rejected_today (l_counters s))\<rparr>,
     l_meta := sorted_dict (l_meta s)\<rparr>"

lemma insort_key_map:
  assumes "\<And>x. k (g x) = h x"
  shows "map g (insort_key h x xs) = insort_key k (g x) (map g xs)"
  by (induction xs) (simp_all add: assms)

lemma sort_key_map:
  assumes "\<And>x. k (g x) = h x"
  shows "map g (sort_key h xs) = sort_key k (map g xs)"
  by (induction xs) (simp_all add: insort_key_map [where k = k and g = g and h = h, OF assms])

lemma json_sorted_items_map: "json_sorted_items (map (\<lambda>(k, v). (k, f v)) d) = map (\<lambda>(k, v). (k, json_sorted (f v))) d"
  by (induction d) auto

lemma v_dict_sorted:
  assumes "\<forall>(k, v) \<in> set d. conv (json_sorted (f v)) = Ok v"
  shows "v_dict conv (json_sorted (dump_dict f d)) = Ok (sorted_dict d)"
proof -
  have "rmap (\<lambda>(k, j). rbind (conv j) (\<lambda>v. Ok (k, v))) (map (\<lambda>(k, v). (k, json_sorted (f v))) e) = Ok e"
    if "set e \<subseteq> set d" for e
    using that assms by (induction e) fastforce+
  moreover have "sort_key fst (map (\<lambda>(k, v). (k, json_sorted (f v))) d)
      = map (\<lambda>(k, v). (k, json_sorted (f v))) (sort_key fst d)"
    by (rule sort_key_map [symmetric]) auto
  ultimately show ?thesis
    by (simp add: v_dict_def v_obj_def dump_dict_def json_sorted_items_map sorted_dict_def)
qed

text \<open>Sorting an object's keys does not change what a field reads.\<close>

lemma field_sorted:
  assumes "wf_dict kvs"
  shows "map_of (sort_key fst (json_sorted_items kvs)) k = map_option json_sorted (map_of kvs k)"
proof -
  have "wf_dict (json_sorted_items kvs)" using assms by (simp add: wf_dict_def json_sorted_items_props)
  then have "map_of (sort_key fst (json_sorted_items kvs)) k = map_of (json_sorted_items kvs) k"
    by (simp add: map_of_sort_key)
  also have "\<dots> = map_option json_sorted (map_of kvs k)"
    by (induction kvs) auto
  finally show ?thesis .
qed

lemma price_of_json_dump: "is_finite d \<Longrightarrow> price_of_json (JStr (dec_str d)) = Ok d"
  by (simp add: price_of_json_def price_decimal_def dec_roundtrip of_option_def)

lemma v_simps [simp]:
  "v_str (JStr s) = Ok s" "v_money (JInt i) = Ok i" "v_int (JInt i) = Ok i" "v_bool (JBool b) = Ok b"
  by (simp_all add: v_str_def v_money_def v_int_def v_bool_def)

lemma load_position_sorted:
  assumes "is_finite (p_price_entry p)" "is_finite (p_price_peak p)"
  shows "v_obj load_position (json_sorted (dump_position p)) = Ok p"
  by (simp add: dump_position_def v_obj_def load_position_def field_req_def field_or_def wf_dict_def
      field_sorted del: json_sorted_items.simps)
     (simp add: price_of_json_dump assms)

lemmas load_defs = v_obj_def field_req_def field_or_def wf_dict_def field_sorted

lemma load_halt_sorted: "v_obj load_halt (json_sorted (dump_halt h)) = Ok h"
  by (simp add: dump_halt_def load_halt_def load_defs del: json_sorted_items.simps)

lemma load_kill_sorted: "v_obj load_kill (json_sorted (dump_kill k)) = Ok k"
  by (simp add: dump_kill_def load_kill_def load_defs del: json_sorted_items.simps)

lemma load_breaker_sorted: "v_obj load_breaker (json_sorted (dump_breaker b)) = Ok b"
  by (simp add: dump_breaker_def load_breaker_def load_defs del: json_sorted_items.simps)

lemma load_approval_sorted: "v_obj load_approval (json_sorted (dump_approval a)) = Ok a"
  by (simp add: dump_approval_def load_approval_def load_defs del: json_sorted_items.simps)

lemma v_dict_ints: "v_dict v_int (json_sorted (dump_dict JInt d)) = Ok (sorted_dict d)"
  by (rule v_dict_sorted) simp

lemma v_dict_strs: "v_dict v_str (json_sorted (dump_dict JStr d)) = Ok (sorted_dict d)"
  by (rule v_dict_sorted) simp

lemma v_list_strs: "v_list v_str (json_sorted (JArr (map JStr ss))) = Ok ss"
proof -
  have "rmap v_str (json_sorted_list (map JStr ss)) = Ok ss" by (induction ss) simp_all
  then show ?thesis by (simp add: v_list_def)
qed

lemma load_counters_sorted:
  "v_obj load_counters (json_sorted (dump_counters c)) = Ok (c\<lparr>c_rejected_today := sorted_dict (c_rejected_today c)\<rparr>)"
  by (simp add: dump_counters_def load_counters_def load_defs v_dict_ints
      del: json_sorted_items.simps)

lemma v_obj_JObj: "v_obj f (JObj kvs) = f kvs"
  by (simp add: v_obj_def)

definition finite_prices :: "lstate \<Rightarrow> bool" where
  "finite_prices s \<longleftrightarrow> (\<forall>(m, p) \<in> set (l_positions s). is_finite (p_price_entry p) \<and> is_finite (p_price_peak p))"

lemma load_sorted:
  assumes "finite_prices s" "map_of body = (map_of (dump_state s))(''meta'' := Some (dump_dict JStr mt))" "wf_dict body"
  shows "v_obj load_state (json_sorted (JObj body)) = Ok (sorted_state (s\<lparr>l_meta := mt\<rparr>))"
proof -
  have positions: "v_dict (v_obj load_position) (json_sorted (dump_dict dump_position (l_positions s)))
      = Ok (sorted_dict (l_positions s))"
    by (rule v_dict_sorted) (use assms(1) in \<open>auto simp: finite_prices_def load_position_sorted\<close>)
  have breakers: "v_dict (v_obj load_breaker) (json_sorted (dump_dict dump_breaker (l_breakers s)))
      = Ok (sorted_dict (l_breakers s))"
    by (rule v_dict_sorted) (auto simp: load_breaker_sorted)
  have approvals: "v_dict (v_obj load_approval) (json_sorted (dump_dict dump_approval (l_approvals s)))
      = Ok (sorted_dict (l_approvals s))"
    by (rule v_dict_sorted) (auto simp: load_approval_sorted)
  have f: "map_of (sort_key fst (json_sorted_items body)) k
      = map_option json_sorted (((map_of (dump_state s))(''meta'' := Some (dump_dict JStr mt))) k)" for k
    by (simp add: field_sorted assms)
  show ?thesis
    by (simp add: v_obj_JObj load_state_def field_or_def f dump_state_def positions breakers approvals
        load_halt_sorted load_kill_sorted load_counters_sorted v_dict_strs v_list_strs sorted_state_def
        del: json_sorted.simps(1) map_of.simps)
qed

section \<open>States that differ in dictionary order only\<close>

definition dict_equiv :: "(string, 'a) dict \<Rightarrow> (string, 'a) dict \<Rightarrow> bool" where
  "dict_equiv d e \<longleftrightarrow> wf_dict d \<and> wf_dict e \<and> sorted_dict d = sorted_dict e"

definition counters_equiv :: "counters \<Rightarrow> counters \<Rightarrow> bool" where
  "counters_equiv c d \<longleftrightarrow> c_trades_today c = c_trades_today d \<and> c_fees_today c = c_fees_today d
     \<and> c_realized_today c = c_realized_today d \<and> dict_equiv (c_rejected_today c) (c_rejected_today d)"

definition state_equiv :: "lstate \<Rightarrow> lstate \<Rightarrow> bool" where
  "state_equiv s t \<longleftrightarrow> l_seq s = l_seq t \<and> l_source s = l_source t \<and> l_day_utc s = l_day_utc t
     \<and> l_day_start_equity s = l_day_start_equity t \<and> l_peak_equity s = l_peak_equity t
     \<and> l_cash s = l_cash t \<and> l_halt s = l_halt t \<and> l_kill s = l_kill t
     \<and> l_last_mtm_ts s = l_last_mtm_ts t \<and> l_unknown s = l_unknown t
     \<and> counters_equiv (l_counters s) (l_counters t)
     \<and> dict_equiv (l_positions s) (l_positions t) \<and> dict_equiv (l_breakers s) (l_breakers t)
     \<and> dict_equiv (l_approvals s) (l_approvals t)"

lemma sorted_dict_props:
  "map_of (sorted_dict d) = map_of d" if "wf_dict d"
  using that by (simp add: sorted_dict_def map_of_sort_key)

lemma dict_equiv_iff: "dict_equiv d e \<longleftrightarrow> wf_dict d \<and> wf_dict e \<and> map_of d = map_of e"
proof
  assume e: "wf_dict d \<and> wf_dict e \<and> map_of d = map_of e"
  then have "set d = set e"
    by (metis map_of_eq_Some_iff wf_dict_def subset_antisym subsetI surj_pair)
  moreover have "distinct d" "distinct e" using e by (auto simp: wf_dict_def distinct_map)
  ultimately have m: "mset d = mset e" using set_eq_iff_mset_eq_distinct by blast
  have "inj_on fst (set d)" using e by (simp add: wf_dict_def distinct_map)
  moreover have "sorted (map fst (sort_key fst e))" by simp
  ultimately have "sort_key fst d = sort_key fst e"
    by (intro sort_key_inj_key_eq) (simp_all add: m)
  then show "dict_equiv d e" using e by (simp add: dict_equiv_def sorted_dict_def)
qed (metis dict_equiv_def sorted_dict_props)

lemma dict_equiv_mset: "dict_equiv d e \<Longrightarrow> mset d = mset e"
  by (metis dict_equiv_def mset_sort sorted_dict_def)

lemma dict_equiv_set: "dict_equiv d e \<Longrightarrow> dict_equiv (dict_set d k v) (dict_set e k v)"
  by (auto simp: dict_equiv_iff)

lemma dict_equiv_pop: "dict_equiv d e \<Longrightarrow> dict_equiv (dict_pop d k) (dict_pop e k)"
  by (auto simp: dict_equiv_iff)

lemma dict_equiv_get: "dict_equiv d e \<Longrightarrow> map_of d k = map_of e k"
  by (simp add: dict_equiv_iff)

lemma dict_equiv_sorted: "wf_dict d \<Longrightarrow> dict_equiv d (sorted_dict d)"
  by (simp add: dict_equiv_iff sorted_dict_def map_of_sort_key) (simp add: wf_dict_def distinct_map_sort_key)

lemma equity_equiv: "dict_equiv (l_positions s) (l_positions t) \<Longrightarrow> l_cash s = l_cash t \<Longrightarrow> equity s = equity t"
  unfolding equity_def by (metis dict_equiv_mset mset_map sum_mset_sum_list)

abbreviation same_result :: "lstate result \<Rightarrow> lstate result \<Rightarrow> bool" where
  "same_result \<equiv> rel_sum (=) state_equiv"

lemma same_result_bind: "(\<And>x. rel_sum (=) R (f x) (g x)) \<Longrightarrow> rel_sum (=) R (rbind m f) (rbind m g)"
  by (cases m) simp_all

lemma same_result_bind2:
  "rel_sum (=) S m n \<Longrightarrow> (\<And>x y. S x y \<Longrightarrow> rel_sum (=) R (f x) (g y)) \<Longrightarrow> rel_sum (=) R (rbind m f) (rbind n g)"
  by (cases m; cases n) auto

lemma track_peak_equiv: "state_equiv s t \<Longrightarrow> state_equiv (track_peak s) (track_peak t)"
  using equity_equiv [of s t] by (auto simp: state_equiv_def track_peak_eq)

lemma option_cases_equiv:
  assumes "dict_equiv d e" "map_of d k = None \<Longrightarrow> P n n'" "\<And>v. map_of d k = Some v \<Longrightarrow> P (f v) (g v)"
  shows "P (case map_of d k of None \<Rightarrow> n | Some v \<Rightarrow> f v) (case map_of e k of None \<Rightarrow> n' | Some v \<Rightarrow> g v)"
  using assms dict_equiv_get [OF assms(1), of k] by (auto split: option.splits)

lemma counters_equiv_updates:
  assumes "counters_equiv c d"
  shows "counters_equiv (c\<lparr>c_trades_today := n\<rparr>) (d\<lparr>c_trades_today := n\<rparr>)"
    "counters_equiv (c\<lparr>c_fees_today := n\<rparr>) (d\<lparr>c_fees_today := n\<rparr>)"
    "counters_equiv (c\<lparr>c_realized_today := n\<rparr>) (d\<lparr>c_realized_today := n\<rparr>)"
  using assms by (simp_all add: counters_equiv_def)

lemma fill_position_equiv:
  assumes "dict_equiv ps qs" "counters_equiv c d"
  shows "rel_sum (=) (rel_prod counters_equiv dict_equiv)
    (fill_position c ps row mint side cash_delta fee network) (fill_position d qs row mint side cash_delta fee network)"
proof -
  have r: "c_realized_today c = c_realized_today d" using assms(2) by (simp add: counters_equiv_def)
  show ?thesis unfolding fill_position_def
    by (rule option_cases_equiv [OF assms(1)])
       (auto simp: assms r Let_def dict_equiv_set counters_equiv_updates intro!: same_result_bind)
qed

lemma on_fill_equiv:
  assumes "state_equiv s t"
  shows "same_result (on_fill s row ts cid) (on_fill t row ts cid)"
proof -
  note e = assms [unfolded state_equiv_def]
  have c: "c_fees_today (l_counters s) = c_fees_today (l_counters t)"
    "c_trades_today (l_counters s) = c_trades_today (l_counters t)"
    using e by (auto simp: counters_equiv_def)
  show ?thesis unfolding on_fill_def Let_def c
    by (intro same_result_bind same_result_bind2 [OF fill_position_equiv])
       (use e in \<open>auto simp: counters_equiv_updates intro!: track_peak_equiv, auto simp: state_equiv_def\<close>)
qed

lemma on_opened_equiv:
  assumes "state_equiv s t"
  shows "same_result (on_position_opened s row ts cid) (on_position_opened t row ts cid)"
  unfolding on_position_opened_def
  by (intro same_result_bind)
     (use assms in \<open>auto intro!: same_result_bind track_peak_equiv dict_equiv_set, auto simp: state_equiv_def dict_equiv_set\<close>)

lemma on_closed_equiv:
  assumes "state_equiv s t"
  shows "same_result (on_position_closed s row ts cid) (on_position_closed t row ts cid)"
proof -
  have c: "c_realized_today (l_counters s) = c_realized_today (l_counters t)"
    using assms by (simp add: state_equiv_def counters_equiv_def)
  show ?thesis
    unfolding on_position_closed_def Let_def c
    by (intro same_result_bind)
       (use assms in \<open>auto intro!: track_peak_equiv, auto simp: state_equiv_def dict_equiv_pop counters_equiv_updates\<close>)
qed

lemma on_rejected_equiv:
  assumes "state_equiv s t"
  shows "same_result (on_rejected s row ts cid) (on_rejected t row ts cid)"
proof -
  have "dict_get_default (c_rejected_today (l_counters s)) r 0 = dict_get_default (c_rejected_today (l_counters t)) r 0" for r
    using assms by (simp add: state_equiv_def counters_equiv_def dict_equiv_iff dict_get_default_def)
  then show ?thesis
    unfolding on_rejected_def Let_def
    by (intro same_result_bind)
       (use assms in \<open>auto simp: state_equiv_def counters_equiv_def dict_equiv_set\<close>)
qed

lemma apply_mark_equiv:
  assumes "dict_equiv ps qs"
  shows "rel_sum (=) dict_equiv (apply_mark ts ps item) (apply_mark ts qs item)"
proof -
  obtain m j where item: "item = (m, j)" by (cases item)
  show ?thesis
  proof (cases j)
    case (JObj mark)
    show ?thesis unfolding apply_mark_def item JObj prod.case json.case
      by (rule option_cases_equiv [OF assms])
         (auto simp: assms dict_equiv_set intro!: same_result_bind)
  qed (simp_all add: apply_mark_def item assms)
qed

lemma marks_equiv:
  "dict_equiv ps qs \<Longrightarrow> rel_sum (=) dict_equiv (rfold (apply_mark ts) ps items) (rfold (apply_mark ts) qs items)"
  by (induction items arbitrary: ps qs) (auto intro!: same_result_bind2 [OF apply_mark_equiv])

lemma on_mtm_equiv:
  assumes "state_equiv s t"
  shows "same_result (on_mtm s row ts cid) (on_mtm t row ts cid)"
proof -
  have ps: "dict_equiv (l_positions s) (l_positions t)" using assms by (simp add: state_equiv_def)
  have "rel_sum (=) dict_equiv
      (case loads x of Some (JObj prices) \<Rightarrow> rfold (apply_mark ts) (l_positions s) prices | _ \<Rightarrow> Ok (l_positions s))
      (case loads x of Some (JObj prices) \<Rightarrow> rfold (apply_mark ts) (l_positions t) prices | _ \<Rightarrow> Ok (l_positions t))"
    for x
    using ps marks_equiv [OF ps] by (auto split: option.splits json.splits)
  note marks = this
  have peak: "state_equiv (track_peak (s\<lparr>l_positions := x, l_last_mtm_ts := ts\<rparr>))
      (track_peak (t\<lparr>l_positions := y, l_last_mtm_ts := ts\<rparr>))" if "dict_equiv x y" for x y
    by (rule track_peak_equiv) (use that assms in \<open>simp add: state_equiv_def\<close>)
  show ?thesis
    unfolding on_mtm_def
    by (rule same_result_bind, rule same_result_bind2 [OF marks]) (simp add: peak)
qed

lemma simple_handlers_equiv:
  assumes "state_equiv s t"
  shows "same_result (on_halt_set s row ts cid) (on_halt_set t row ts cid)"
    "same_result (on_halt_cleared s row ts cid) (on_halt_cleared t row ts cid)"
    "same_result (on_kill_set s row ts cid) (on_kill_set t row ts cid)"
    "same_result (on_kill_cleared s row ts cid) (on_kill_cleared t row ts cid)"
    "same_result (on_breaker_tripped s row ts cid) (on_breaker_tripped t row ts cid)"
    "same_result (on_breaker_reset s row ts cid) (on_breaker_reset t row ts cid)"
    "same_result (on_noop s row ts cid) (on_noop t row ts cid)"
    "same_result (on_approval s row ts cid) (on_approval t row ts cid)"
  using assms unfolding handler_defs
  by (auto simp: state_equiv_def dict_equiv_set intro!: same_result_bind)

lemma on_rollover_equiv:
  assumes "state_equiv s t"
  shows "same_result (on_rollover s row ts cid) (on_rollover t row ts cid)"
proof -
  have e: "l_day_utc s = l_day_utc t" "l_day_start_equity s = l_day_start_equity t"
    using assms by (simp_all add: state_equiv_def)
  show ?thesis unfolding on_rollover_def e
    by (intro same_result_bind)
       (use assms in \<open>auto simp: state_equiv_def counters_equiv_def zero_counters_def dict_equiv_iff\<close>)
qed

lemmas handlers_equiv = on_fill_equiv on_opened_equiv on_closed_equiv on_rejected_equiv on_mtm_equiv
  simple_handlers_equiv on_rollover_equiv

lemma reduce_equiv:
  assumes "state_equiv s t"
  shows "same_result (reduce s e) (reduce t e)"
proof (cases "event_type_of_str (e_type e)")
  case None
  then show ?thesis using assms by (simp add: reduce_def state_equiv_def)
next
  case (Some h)
  have "same_result (handler h s row ts cid) (handler h t row ts cid)" for row ts cid
    by (cases h) (simp_all add: handler_def handlers_equiv [OF assms])
  then show ?thesis
    by (auto simp: reduce_def Some intro!: same_result_bind2) (auto simp: state_equiv_def)
qed

lemma fold_equiv: "state_equiv s t \<Longrightarrow> same_result (fold_events s es) (fold_events t es)"
  unfolding fold_events_def
  by (induction es arbitrary: s t) (auto intro!: same_result_bind2 [OF reduce_equiv])

section \<open>Storing a snapshot\<close>

lemma wf_dump_dict: "wf_dict d \<Longrightarrow> (\<And>v. wf_json (f v)) \<Longrightarrow> wf_json (dump_dict f d)"
  by (auto simp: dump_dict_def wf_json_items_iff wf_dict_def comp_def case_prod_beta)

lemma wf_json_strs: "wf_json_list (map JStr ss)"
  by (induction ss) simp_all

lemma wf_dump_state:
  assumes "state_wf s" "wf_dict mt"
  shows "wf_json (JObj (dict_set (dump_state s) ''meta'' (dump_dict JStr mt)))"
proof -
  have "wf_json (dump_position p)" "wf_json (dump_halt h)" "wf_json (dump_kill k)" "wf_json (dump_breaker b)"
    "wf_json (dump_approval a)" for p h k b a
    by (simp_all add: dump_position_def dump_halt_def dump_kill_def dump_breaker_def dump_approval_def wf_dict_def)
  moreover have "wf_json (dump_counters (l_counters s))"
    using assms by (simp add: dump_counters_def state_wf_def wf_dump_dict wf_dict_def)
  ultimately show ?thesis
    using assms by (simp add: dump_state_def state_wf_def wf_dump_dict wf_json_strs) (simp add: wf_dict_def)
qed

lemma write_latest:
  assumes "wf_json (JObj body)" "\<forall>x \<in> set (snapshots st). fst x < n"
  obtains st' where "write_snapshot st n ts (py_of_json_items body) = (Ok (), st')"
    "latest_snapshot st' = Ok (Some (n, ts, json_sorted (JObj body)))" "events st' = events st" "meta st' = meta st"
proof -
  have "normalize (PDict (py_of_json_items body)) ''$'' = Ok (JObj body)"
    using normalize_py_of_json(3) [of body "''$''"] assms(1) by simp
  then have c: "canonical_json (py_of_json_items body) = Ok (dumps_sorted (JObj body))"
    by (simp add: canonical_json_def)
  have "insort_key fst (n, ts, x) ss = ss @ [(n, ts, x)]" if "\<forall>y \<in> set ss. fst y < n" for ss and x :: string
    using that by (induction ss) auto
  then have i: "insort_key fst (n, ts, x) (snapshots st) = snapshots st @ [(n, ts, x)]" for x
    using assms(2) by blast
  have l: "latest_snapshot (st\<lparr>snapshots := snapshots st @ [(n, ts, dumps_sorted (JObj body))]\<rparr>)
      = Ok (Some (n, ts, json_sorted (JObj body)))"
    using assms(1) loads_dumps_sorted [of "JObj body"]
    by (cases "snapshots st") (simp_all add: latest_snapshot_def snapshot_body_def of_option_def)
  have fresh: "n \<notin> set (map fst (snapshots st))" using assms(2) by auto
  show thesis
    by (rule that [OF _ l]) (use c i fresh in \<open>simp_all add: write_snapshot_def\<close>)
qed

lemma sorted_state_equiv: "state_wf s \<Longrightarrow> state_equiv s (sorted_state (s\<lparr>l_meta := mt\<rparr>))"
  by (simp add: state_equiv_def sorted_state_def counters_equiv_def state_wf_def dict_equiv_sorted)

lemma fold_wf: "fold_events s es = Ok s' \<Longrightarrow> state_wf s \<Longrightarrow> state_wf s'"
  unfolding fold_events_def by (erule rfold_invariant) (auto dest: reduce_wf)

lemma handler_meta: "handler t s row ts cid = Ok s' \<Longrightarrow> l_meta s' = l_meta s"
  by (cases t) (auto simp: handler_def handler_defs rbind_Ok_iff Let_def track_peak_eq split: if_splits)

lemma fold_meta: "fold_events s es = Ok s' \<Longrightarrow> l_meta s' = l_meta s"
  unfolding fold_events_def
  by (erule rfold_invariant) (auto elim!: reduce_cases dest!: handler_meta)

section \<open>Properties\<close>

lemma initial_wf: "state_wf (initial_state src e0 day)" "l_meta (initial_state src e0 day) = []"
  by (simp_all add: initial_state_def state_wf_def zero_counters_def)

lemma restored_equiv:
  assumes "state_wf s" "finite_prices s" "wf_dict mt"
  shows "v_obj load_state (json_sorted (JObj (dict_set (dump_state s) ''meta'' (dump_dict JStr mt))))
      = Ok (sorted_state (s\<lparr>l_meta := mt\<rparr>))"
    "state_equiv s (sorted_state (s\<lparr>l_meta := mt\<rparr>))"
proof -
  have wf: "wf_dict (dict_set (dump_state s) ''meta'' (dump_dict JStr mt))"
    by (simp add: dump_state_def wf_dict_def)
  show "v_obj load_state (json_sorted (JObj (dict_set (dump_state s) ''meta'' (dump_dict JStr mt))))
      = Ok (sorted_state (s\<lparr>l_meta := mt\<rparr>))"
    by (rule load_sorted [OF assms(2) _ wf]) auto
  show "state_equiv s (sorted_state (s\<lparr>l_meta := mt\<rparr>))" by (rule sorted_state_equiv [OF assms(1)])
qed

text \<open>
  C25: restart equals replay. The fold of a prefix of the ledger, dumped and stored as the newest
  snapshot, is read back by the store and loads, and folding any tail of rows from the loaded state
  gives what folding the whole ledger from genesis gives: the same exception, or the same state up to
  the order of its dictionaries.
\<close>

theorem snapshot_resume_equals_replay:
  assumes "fold_events (initial_state src e0 day) es = Ok s" "finite_prices s"
    and "\<forall>x \<in> set (snapshots st). fst x < n"
  shows "\<exists>st' j s0. write_snapshot st n ts (py_of_json_items (dump_state s)) = (Ok (), st')
    \<and> latest_snapshot st' = Ok (Some (n, ts, j)) \<and> v_obj load_state j = Ok s0 \<and> state_equiv s s0
    \<and> l_meta s0 = l_meta s
    \<and> same_result (fold_events (initial_state src e0 day) (es @ tail)) (fold_events s0 tail)"
proof -
  have wf: "state_wf s" using fold_wf assms(1) initial_wf(1) by blast
  have m: "l_meta s = []" using fold_meta [OF assms(1)] by (simp add: initial_wf)
  have b: "dict_set (dump_state s) ''meta'' (dump_dict JStr []) = dump_state s"
    by (simp add: dump_state_def m)
  have wfj: "wf_json (JObj (dump_state s))" using wf_dump_state [OF wf, of "[]"] by (simp add: b)
  obtain st' where st': "write_snapshot st n ts (py_of_json_items (dump_state s)) = (Ok (), st')"
    "latest_snapshot st' = Ok (Some (n, ts, json_sorted (JObj (dump_state s))))"
    using write_latest [OF wfj assms(3)] by metis
  have s: "s\<lparr>l_meta := []\<rparr> = s" by (metis lstate.surjective lstate.update_convs(15) m)
  have r: "v_obj load_state (json_sorted (JObj (dump_state s))) = Ok (sorted_state s)"
    "state_equiv s (sorted_state s)"
    using restored_equiv [OF wf assms(2), of "[]"] by (simp_all only: b s wf_dict_Nil)
  have "same_result (fold_events (initial_state src e0 day) (es @ tail)) (fold_events (sorted_state s) tail)"
    using fold_equiv [OF r(2), of tail] assms(1) by (simp add: fold_events_def rfold_append)
  moreover have "l_meta (sorted_state s) = l_meta s" by (simp add: sorted_state_def m sorted_dict_def)
  ultimately show ?thesis using st' r by blast
qed

theorem snapshot_resume_equals_replay_witness:
  "\<exists>s st' j s0. fold_events sample_genesis [sample_opened, sample_fill] = Ok s
    \<and> write_snapshot empty_store 2 ''t'' (py_of_json_items (dump_state s)) = (Ok (), st')
    \<and> latest_snapshot st' = Ok (Some (2, ''t'', j)) \<and> v_obj load_state j = Ok s0
    \<and> same_result (fold_events sample_genesis [sample_opened, sample_fill, sample_halt]) (fold_events s0 [sample_halt])"
proof -
  have "case fold_events sample_genesis [sample_opened, sample_fill] of Inr s \<Rightarrow> finite_prices s | Inl _ \<Rightarrow> False"
    by code_simp
  then obtain s where s: "fold_events sample_genesis [sample_opened, sample_fill] = Ok s" "finite_prices s"
    by (auto split: sum.splits)
  have "\<forall>x \<in> set (snapshots empty_store). fst x < 2" by (simp add: empty_store_def)
  from snapshot_resume_equals_replay [OF s(1) [unfolded sample_genesis_def] s(2) this, of "''t''" "[sample_halt]"] s(1)
  show ?thesis unfolding sample_genesis_def by auto
qed

end
