(* ===== verification/Reconcile.thy ===== *)
theory Reconcile
  imports Snapshot
begin

text \<open>
  Restart: \<open>reconcile\<close> (\<open>ledger/reconcile.py\<close>) and the shutdown snapshot it starts from
  (\<open>supervisor/lifecycle.py\<close>). Reconcile verifies the chain, folds the tail from the latest snapshot
  and the whole ledger from genesis, compares the two and runs the cash, snapshot, source and position
  checks. The lemmas show which of its verdicts a ledger that only the store wrote can get.
\<close>

section \<open>The report\<close>

record recon =
  rc_status :: string
  rc_snapshot_seq :: "int option"
  rc_tail_events :: "int option"
  rc_head_seq :: "int option"
  rc_detail :: string
  rc_state :: "(string, json) dict option"

definition CONSISTENT :: string where "CONSISTENT = ''CONSISTENT''"
definition INCONSISTENT :: string where "INCONSISTENT = ''INCONSISTENT''"

definition equity_key :: string where "equity_key = ''initial_equity_lamports''"

definition meta_source :: "store \<Rightarrow> string option" where
  "meta_source st = get_meta st ''source'' None"

definition meta_equity :: "store \<Rightarrow> int result" where
  \<comment> \<open>\<open>int(meta) if meta is not None else 0\<close>\<close>
  "meta_equity st = (case get_meta st equity_key None of None \<Rightarrow> Ok 0
     | Some m \<Rightarrow> of_option (ValueError ''invalid literal for int()'') (int_of_str m))"

definition source_or :: "store \<Rightarrow> string \<Rightarrow> string" where
  \<comment> \<open>\<open>meta_source or fallback\<close>\<close>
  "source_or st fallback = (case meta_source st of None \<Rightarrow> fallback | Some s \<Rightarrow> if s = [] then fallback else s)"

definition genesis :: "store \<Rightarrow> event list \<Rightarrow> lstate result" where
  "genesis st es = (case es of
       e # _ \<Rightarrow> rbind (meta_equity st) (\<lambda>e0. Ok (initial_state (source_or st (e_source e)) e0 (take 10 (e_ts e))))
     | [] \<Rightarrow> rbind (meta_equity st) (\<lambda>e0. Ok (initial_state (source_or st ''paper'') e0 [])))"

section \<open>The integrity checks\<close>

definition without_meta :: "lstate \<Rightarrow> json" where
  \<comment> \<open>a dumped state less its meta; sorted, since Python's dictionaries compare without order\<close>
  "without_meta s = json_sorted (JObj (List.filter (\<lambda>(k, v). k \<noteq> ''meta'') (dump_state s)))"

definition check_full_replay :: "lstate \<Rightarrow> lstate \<Rightarrow> string option" where
  "check_full_replay tail full = (if without_meta tail \<noteq> without_meta full
     then Some ''tail replay state differs from full replay state'' else None)"

definition payload_int :: "event \<Rightarrow> string \<Rightarrow> int result" where
  "payload_int e k = (case e_payload e of JObj kvs \<Rightarrow> row_int kvs k 0 | _ \<Rightarrow> Ok 0)"

definition sum_payload :: "event list \<Rightarrow> string \<Rightarrow> string \<Rightarrow> int result" where
  "sum_payload es ty k =
     rbind (rmap (\<lambda>e. payload_int e k) (List.filter (\<lambda>e. e_type e = ty) es)) (\<lambda>xs. Ok (sum_list xs))"

definition check_cash :: "store \<Rightarrow> lstate \<Rightarrow> event list \<Rightarrow> string option result" where
  "check_cash st tail es =
     rbind (meta_equity st) (\<lambda>initial.
     rbind (sum_payload es ''FillRecorded'' ''cash_delta_lamports'') (\<lambda>cash_delta.
     rbind (sum_payload es ''OrderRejected'' ''fees_lamports'') (\<lambda>fees.
     Ok (if l_cash tail \<noteq> initial + cash_delta - fees
         then Some ''cash equation failed: cash != initial + fills - rejected fees'' else None))))"

definition check_snapshot :: "store \<Rightarrow> (int \<times> string \<times> json) option \<Rightarrow> string option result" where
  "check_snapshot st snap = (case snap of
       Some (n, ts, JObj kvs) \<Rightarrow>
         (case dict_get_default kvs ''meta'' (JObj []) of
            JObj mt \<Rightarrow> (case dict_get_default mt ''chain_hash'' JNull of
                 JNull \<Rightarrow> Ok None
               | chain \<Rightarrow> rbind (read st n [] None None (Some 1)) (\<lambda>rows.
                   Ok (case List.find (\<lambda>e. e_seq e = n) rows of
                         Some e \<Rightarrow> (if JStr (e_hash e) \<noteq> chain
                            then Some ''snapshot chain_hash does not match events.hash at snapshot seq'' else None)
                       | None \<Rightarrow> Some ''snapshot chain_hash does not match events.hash at snapshot seq'')))
          | _ \<Rightarrow> Err (TypeError ''meta.get''))
     | _ \<Rightarrow> Ok None)"

definition check_source :: "store \<Rightarrow> event list \<Rightarrow> string option" where
  "check_source st es = (case meta_source st of None \<Rightarrow> None
     | Some src \<Rightarrow> map_option (\<lambda>e. ''event seq '' @ int_str (e_seq e) @ '' source mixes ledger source '' @ src)
         (List.find (\<lambda>e. e_source e \<noteq> src) es))"

record tally =
  units :: "(string, int) dict"
  last_open :: "(string, int) dict"
  last_close :: "(string, int) dict"

definition tally_event :: "tally \<Rightarrow> event \<Rightarrow> tally result" where
  "tally_event w e =
     (let row = event_row e in
      if e_type e = ''FillRecorded'' then
        rbind (row_str row ''mint'' []) (\<lambda>mint.
        rbind (row_int row ''filled_units'' 0) (\<lambda>filled.
        rbind (row_str row ''side'' []) (\<lambda>side.
        let delta = (if side \<noteq> ''buy'' then - filled else filled)
        in Ok (w\<lparr>units := dict_set (units w) mint (dict_get_default (units w) mint 0 + delta)\<rparr>))))
      else if e_type e = ''PositionOpened'' then
        rbind (row_str row ''mint'' []) (\<lambda>mint. Ok (w\<lparr>last_open := dict_set (last_open w) mint (e_seq e)\<rparr>))
      else if e_type e = ''PositionClosed'' then
        rbind (row_str row ''mint'' []) (\<lambda>mint. Ok (w\<lparr>last_close := dict_set (last_close w) mint (e_seq e)\<rparr>))
      else Ok w)"

definition tallied :: "event list \<Rightarrow> tally result" where
  "tallied es = rfold tally_event \<lparr>units = [], last_open = [], last_close = []\<rparr> es"

definition closed_still_held :: "tally \<Rightarrow> string \<Rightarrow> bool" where
  "closed_still_held w mint = (case map_of (last_close w) mint of None \<Rightarrow> False
     | Some c \<Rightarrow> dict_get_default (last_open w) mint 0 < c)"

definition check_positions :: "lstate \<Rightarrow> event list \<Rightarrow> string option result" where
  "check_positions tail es = rbind (tallied es) (\<lambda>w. Ok
     (case List.find (\<lambda>(m, p). p_token_units p \<noteq> dict_get_default (units w) m 0) (l_positions tail) of
        Some (m, p) \<Rightarrow> Some (''position '' @ m @ '' units do not match summed fills'')
      | None \<Rightarrow> (case List.find (\<lambda>(m, p). closed_still_held w m) (l_positions tail) of
            Some (m, p) \<Rightarrow> Some (''position '' @ m @ '' closed with no newer open yet still held'')
          | None \<Rightarrow> None)))"

fun first_some :: "'a option list \<Rightarrow> 'a option" where
  "first_some [] = None"
| "first_some (None # xs) = first_some xs"
| "first_some (Some x # xs) = Some x"

definition integrity_checks :: "store \<Rightarrow> (int \<times> string \<times> json) option \<Rightarrow> lstate \<Rightarrow> lstate \<Rightarrow> event list
    \<Rightarrow> string option result" where
  "integrity_checks st snap tail full es =
     rbind (check_cash st tail es) (\<lambda>cash.
     rbind (check_snapshot st snap) (\<lambda>sn.
     rbind (check_positions tail es) (\<lambda>ps.
     Ok (first_some [check_full_replay tail full, cash, sn, check_source st es, ps]))))"

section \<open>Reconcile\<close>

definition tail_base :: "store \<Rightarrow> (int \<times> string \<times> json) option \<Rightarrow> lstate result" where
  "tail_base st snap = (case snap of
       Some (n, ts, j) \<Rightarrow> v_obj load_state j
     | None \<Rightarrow> rbind (read st 1 [] None None (Some 1)) (genesis st))"

definition snapshot_seq :: "(int \<times> string \<times> json) option \<Rightarrow> int" where
  "snapshot_seq snap = (case snap of Some (n, _) \<Rightarrow> n | None \<Rightarrow> 0)"

definition replay_report :: "store \<Rightarrow> recon result" where
  \<comment> \<open>everything after the chain verification\<close>
  "replay_report st =
     rbind (latest_snapshot st) (\<lambda>snap.
     rbind (tail_base st snap) (\<lambda>base.
     rbind (read st (snapshot_seq snap + 1) [] None None None) (\<lambda>tail.
     rbind (fold_events base tail) (\<lambda>tail_state.
     rbind (read st 1 [] None None None) (\<lambda>full.
     if full = [] then Ok \<lparr>rc_status = CONSISTENT, rc_snapshot_seq = Some (snapshot_seq snap),
         rc_tail_events = Some 0, rc_head_seq = Some 0, rc_detail = [], rc_state = Some (dump_state tail_state)\<rparr>
     else
     rbind (genesis st full) (\<lambda>g.
     rbind (fold_events g full) (\<lambda>full_state.
     rbind (integrity_checks st snap tail_state full_state full) (\<lambda>check.
     Ok (case check of
         Some d \<Rightarrow> \<lparr>rc_status = INCONSISTENT, rc_snapshot_seq = Some (snapshot_seq snap),
             rc_tail_events = Some (int (length tail)), rc_head_seq = Some (e_seq (last full)), rc_detail = d,
             rc_state = None\<rparr>
       | None \<Rightarrow> \<lparr>rc_status = CONSISTENT, rc_snapshot_seq = Some (snapshot_seq snap),
             rc_tail_events = Some (int (length tail)), rc_head_seq = Some (e_seq (last full)), rc_detail = [],
             rc_state = Some (dump_state tail_state)\<rparr>)))))))))"

definition reconcile :: "(string \<Rightarrow> string) \<Rightarrow> store \<Rightarrow> recon result \<times> store" where
  "reconcile H st = (case verify H st of
       (Inl (LedgerInconsistent n d), st') \<Rightarrow>
         (Ok \<lparr>rc_status = INCONSISTENT, rc_snapshot_seq = None, rc_tail_events = None, rc_head_seq = None,
              rc_detail = ''chain: seq '' @ int_str n @ '': '' @ d, rc_state = None\<rparr>, st')
     | (Inl e, st') \<Rightarrow> (Err e, st')
     | (Inr _, st') \<Rightarrow> (replay_report st', st'))"

section \<open>The halt row of a failed reconcile\<close>

definition ledger_inconsistent_halt :: "(string \<Rightarrow> string) \<Rightarrow> string \<Rightarrow> string \<Rightarrow> string \<Rightarrow> string \<Rightarrow> int \<Rightarrow> int \<Rightarrow> entry" where
  "ledger_inconsistent_halt H ts src cid detail eq0 day_start =
     \<lparr>x_ts = ts, x_source = src, x_cid = cid, x_key = H (''HaltSet|ledger_inconsistent|'' @ take 10 ts),
      x_type = ''HaltSet'',
      x_payload = [(''source'', PStr src), (''reason'', PStr ''ledger_inconsistent''), (''detail'', PStr detail),
        (''equity_lamports'', PInt eq0), (''day_start_equity_lamports'', PInt day_start), (''set_by'', PStr ''risk_engine'')]\<rparr>"

section \<open>The shutdown snapshot\<close>

definition shutdown_initial_equity :: "store \<Rightarrow> int result" where
  "shutdown_initial_equity st = (case get_meta st equity_key None of
       None \<Rightarrow> Err (CorruptState ''shutdown snapshot: initial_equity_lamports meta is missing'')
     | Some m \<Rightarrow> of_option (CorruptState ''shutdown snapshot: corrupt initial_equity_lamports'') (int_of_str m))"

definition shutdown_state :: "store \<Rightarrow> (event list \<times> lstate) result" where
  "shutdown_state st =
     rbind (read st 1 [] None None None) (\<lambda>head.
     rbind (shutdown_initial_equity st) (\<lambda>e0.
     rbind (fold_events (case head of
          e # _ \<Rightarrow> initial_state (source_or st (e_source e)) e0 (take 10 (e_ts e))
        | [] \<Rightarrow> initial_state ''paper'' e0 []) head) (\<lambda>s. Ok (head, s))))"

definition shutdown_body :: "lstate \<Rightarrow> string \<Rightarrow> (string, json) dict" where
  "shutdown_body s ts = dict_set (dump_state s) ''meta'' (JObj [(''status'', JStr ''stopped''), (''ts_utc'', JStr ts)])"

definition keep_corrupt :: "unit result \<Rightarrow> unit result" where
  \<comment> \<open>\<open>CorruptState\<close> is raised again, every other exception is logged\<close>
  "keep_corrupt r = (case r of Inl (CorruptState m) \<Rightarrow> Err (CorruptState m) | _ \<Rightarrow> Ok ())"

definition shutdown_snapshot :: "store \<Rightarrow> string \<Rightarrow> unit result \<times> store" where
  "shutdown_snapshot st ts = (case shutdown_state st of
       Inl e \<Rightarrow> (keep_corrupt (Err e), st)
     | Inr (head, s) \<Rightarrow>
         (case write_snapshot st (if head = [] then 0 else e_seq (last head)) ts (py_of_json_items (shutdown_body s ts)) of
            (r, st') \<Rightarrow> (keep_corrupt r, st')))"

section \<open>Prices in the state are finite\<close>

definition finite_entries :: "(string, position) dict \<Rightarrow> bool" where
  "finite_entries ps \<longleftrightarrow> (\<forall>(m, p) \<in> set ps. is_finite (p_price_entry p))"

lemma finite_entries_set: "finite_entries ps \<Longrightarrow> is_finite (p_price_entry p) \<Longrightarrow> finite_entries (dict_set ps m p)"
  using set_dict_set by (fastforce simp: finite_entries_def)

lemma finite_entries_pop: "finite_entries ps \<Longrightarrow> finite_entries (dict_pop ps m)"
  using set_dict_pop by (fastforce simp: finite_entries_def)

lemma finite_entries_get: "finite_entries ps \<Longrightarrow> map_of ps m = Some p \<Longrightarrow> is_finite (p_price_entry p)"
  by (auto simp: finite_entries_def dest: map_of_SomeD)

lemma price_of_json_finite: "price_of_json j = Ok d \<Longrightarrow> is_finite d"
  by (auto simp: price_of_json_def price_decimal_def split: json.splits pyval.splits option.splits if_splits)

lemma fill_position_entries:
  assumes "fill_position c ps row mint side cash_delta fee network = Ok (c', qs)" "finite_entries ps"
  shows "finite_entries qs"
  using assms
  by (auto simp: fill_position_def rbind_Ok_iff Let_def bought_position_def sold_position_def
      split: option.splits if_splits intro!: finite_entries_set dest: finite_entries_get)

lemma apply_mark_entries:
  "apply_mark ts ps item = Ok qs \<Longrightarrow> finite_entries ps \<Longrightarrow> finite_entries qs"
  by (auto simp: apply_mark_def rbind_Ok_iff split: prod.splits json.splits option.splits if_splits
      intro!: finite_entries_set dest: finite_entries_get)

lemma handler_entries:
  assumes "handler t s row ts cid = Ok s'" "finite_entries (l_positions s)"
  shows "finite_entries (l_positions s')"
proof (cases t)
  case FillRecorded
  then show ?thesis using assms
    by (auto simp: handler_def on_fill_def rbind_Ok_iff Let_def intro: fill_position_entries)
next
  case MarkToMarket
  have "rfold (apply_mark ts) (l_positions s) items = Ok qs \<Longrightarrow> finite_entries qs" for items qs
    by (erule rfold_invariant) (auto simp: assms(2) intro: apply_mark_entries)
  note marks = this
  have "on_mtm s row ts cid = Ok s'" using assms(1) MarkToMarket by (simp add: handler_def)
  then show ?thesis by (rule on_mtm_cases) (use marks in auto)
next
  case PositionOpened
  then show ?thesis using assms
    by (auto simp: handler_def on_position_opened_def rbind_Ok_iff split: if_splits intro!: finite_entries_set)
       (erule price_of_json_finite)
qed (use assms in \<open>auto simp: handler_def handler_defs rbind_Ok_iff Let_def split: if_splits
      intro!: finite_entries_pop\<close>)

lemma fold_entries:
  "fold_events s es = Ok s' \<Longrightarrow> finite_entries (l_positions s) \<Longrightarrow> finite_entries (l_positions s')"
  unfolding fold_events_def by (erule rfold_invariant) (auto elim!: reduce_cases dest: handler_entries)

lemma fold_finite_prices:
  assumes "\<And>e. e \<in> set es \<Longrightarrow> typed_event e \<and> marks_ok e"
  shows "\<exists>s. fold_events (initial_state src e0 day) es = Ok s \<and> finite_prices s"
proof -
  have "finite_peaks (l_positions (initial_state src e0 day))" by (simp add: initial_state_def finite_peaks_def)
  from fold_total [OF assms this] obtain s where s: "fold_events (initial_state src e0 day) es = Ok s"
    "finite_peaks (l_positions s)" by blast
  have "finite_entries (l_positions s)"
    using fold_entries [OF s(1)] by (simp add: initial_state_def finite_entries_def)
  with s show ?thesis by (auto simp: finite_prices_def finite_peaks_def finite_entries_def)
qed

section \<open>Reading a ledger from a row on\<close>

lemma read_from:
  assumes "store_ok H st"
  shows "read st (int n + 1) [] None None None = Ok (map parsed (drop n (events st)))"
proof -
  have seqs: "map r_seq (events st) = map int [1..<Suc (length (events st))]"
    using assms by (simp add: store_ok_def rows_ok_def seqs_ok_def)
  have seq: "r_seq (events st ! i) = int i + 1" if "i < length (events st)" for i
  proof -
    have "map r_seq (events st) ! i = map int [1..<Suc (length (events st))] ! i" by (simp only: seqs)
    then show ?thesis using that by (simp add: nth_upt del: upt_Suc)
  qed
  have "List.filter (\<lambda>r. r_seq r \<ge> int n + 1) (take n (events st)) = []"
    by (auto simp: filter_empty_conv in_set_conv_nth seq)
  moreover have "List.filter (\<lambda>r. r_seq r \<ge> int n + 1) (drop n (events st)) = drop n (events st)"
    by (auto simp: filter_id_conv in_set_conv_nth seq)
  ultimately have "List.filter (\<lambda>r. r_seq r \<ge> int n + 1) (take n (events st) @ drop n (events st)) = drop n (events st)"
    by (simp only: filter_append append_Nil)
  then have "List.filter (read_where (int n + 1) [] None) (events st) = drop n (events st)"
    by (simp add: read_where_def [abs_def])
  then show ?thesis
    by (simp add: read_valid [OF store_ok_valid [OF assms]] sql_limit_def ticket_sel_def)
qed

section \<open>The replay and cash checks\<close>

lemma dump_dict_equiv:
  fixes d :: "(string, 'a) dict"
  assumes "dict_equiv d e"
  shows "json_sorted (dump_dict f d) = json_sorted (dump_dict f e)"
proof -
  from assms have "sort_key fst d = sort_key fst e" by (simp add: dict_equiv_def sorted_dict_def)
  moreover have "sort_key fst (map (\<lambda>(k, v). (k, json_sorted (f v))) x)
      = map (\<lambda>(k, v). (k, json_sorted (f v))) (sort_key fst x)" for x :: "(string, 'a) dict"
    by (rule sort_key_map [symmetric]) auto
  ultimately show ?thesis by (simp add: dump_dict_def json_sorted_items_map)
qed

lemma without_meta_equiv: "state_equiv s t \<Longrightarrow> without_meta s = without_meta t"
proof -
  assume e: "state_equiv s t"
  have "json_sorted (dump_counters (l_counters s)) = json_sorted (dump_counters (l_counters t))"
    using e dump_dict_equiv by (auto simp: state_equiv_def counters_equiv_def dump_counters_def)
  moreover have "json_sorted (dump_dict dump_position (l_positions s)) = json_sorted (dump_dict dump_position (l_positions t))"
    "json_sorted (dump_dict dump_breaker (l_breakers s)) = json_sorted (dump_dict dump_breaker (l_breakers t))"
    "json_sorted (dump_dict dump_approval (l_approvals s)) = json_sorted (dump_dict dump_approval (l_approvals t))"
    using e by (auto simp: state_equiv_def intro: dump_dict_equiv)
  ultimately show ?thesis
    using e by (simp add: without_meta_def dump_state_def state_equiv_def)
qed

definition of_type :: "event_type \<Rightarrow> string \<Rightarrow> event \<Rightarrow> int" where
  "of_type t k e = (if e_type e = event_value t then row_int_or0 (event_row e) k else 0)"

lemma sum_payload_typed:
  assumes "\<And>e. e \<in> set es \<Longrightarrow> typed_event e" "(k, FMoney, dflt) \<in> set (event_model t)"
  shows "sum_payload es (event_value t) k = Ok (sum_list (map (of_type t k) es))"
proof -
  have "payload_int e k = Ok (of_type t k e)" if m: "e \<in> set es" "e_type e = event_value t" for e
  proof -
    obtain row where row: "e_payload e = JObj row" "typed_row (event_model t) row"
      using assms(1) [OF m(1)] m(2) by (auto simp: typed_event_def)
    then show ?thesis
      using typed_row_int_ok [OF row(2) assms(2), of 0] m(2)
      by (auto simp: payload_int_def of_type_def event_row_def row_int_or0_def)
  qed
  then have "rmap (\<lambda>e. payload_int e k) (List.filter (\<lambda>e. e_type e = event_value t) es)
      = Ok (map (of_type t k) (List.filter (\<lambda>e. e_type e = event_value t) es))"
    by (induction es) simp_all
  moreover have "sum_list (map (of_type t k) (List.filter (\<lambda>e. e_type e = event_value t) es))
      = sum_list (map (of_type t k) es)"
    by (induction es) (simp_all add: of_type_def)
  ultimately show ?thesis by (simp add: sum_payload_def)
qed

lemma event_cash_split: "event_cash e = of_type FillRecorded ''cash_delta_lamports'' e - of_type OrderRejected ''fees_lamports'' e"
proof (cases "event_kind e")
  case None
  then have "e_type e \<noteq> event_value t" for t
    by (metis event_kind_def event_type_of_str_value option.distinct(1))
  with None show ?thesis by (simp add: event_cash_def of_type_def)
next
  case (Some t)
  then have "e_type e = event_value t" using event_type_of_str_Some by (simp add: event_kind_def)
  moreover have "event_value t = event_value u \<longleftrightarrow> t = u" for u
    by (metis event_type_of_str_value option.inject)
  ultimately show ?thesis using Some by (cases t) (auto simp: event_cash_def cash_effect_def of_type_def)
qed

lemma check_cash_holds:
  assumes "\<And>e. e \<in> set es \<Longrightarrow> typed_event e" "meta_equity st = Ok e0"
    and "l_cash tail = e0 + sum_list (map event_cash es)"
  shows "check_cash st tail es = Ok None"
proof -
  have f: "sum_payload es ''FillRecorded'' ''cash_delta_lamports''
      = Ok (sum_list (map (of_type FillRecorded ''cash_delta_lamports'') es))"
    using sum_payload_typed [of es _ _ FillRecorded] assms(1)
    by (simp add: event_value_def event_model_def fill_recorded_fields_def)
  have r: "sum_payload es ''OrderRejected'' ''fees_lamports''
      = Ok (sum_list (map (of_type OrderRejected ''fees_lamports'') es))"
    using sum_payload_typed [of es _ _ OrderRejected] assms(1)
    by (simp add: event_value_def event_model_def order_rejected_fields_def)
  have "sum_list (map event_cash es) = sum_list (map (of_type FillRecorded ''cash_delta_lamports'') es)
      - sum_list (map (of_type OrderRejected ''fees_lamports'') es)"
    by (induction es) (simp_all add: event_cash_split)
  then show ?thesis using assms(2,3) by (simp add: check_cash_def f r)
qed

section \<open>Tallies of validated rows\<close>

lemma typed_event_row:
  assumes "typed_event e" "e_type e = event_value t"
  shows "typed_row (event_model t) (event_row e)"
  using assms by (auto simp: typed_event_def event_row_def)

lemma tally_event_total:
  assumes "typed_event e"
  shows "\<exists>w'. tally_event w e = Ok w'"
proof -
  have s: "\<exists>m. row_str (event_row e) ''mint'' [] = Ok m"
    if "e_type e = event_value t" "t \<in> {FillRecorded, PositionOpened, PositionClosed}" for t
    using that(2) typed_row_str_ok [OF typed_event_row [OF assms that(1)], of "''mint''" FStr None]
    by (auto simp: event_model_def fill_recorded_fields_def position_opened_fields_def position_closed_fields_def)
  have f: "\<exists>n d. row_int (event_row e) ''filled_units'' 0 = Ok n \<and> row_str (event_row e) ''side'' [] = Ok d"
    if "e_type e = event_value FillRecorded"
    using typed_row_int_ok [OF typed_event_row [OF assms that], of "''filled_units''" None 0]
      typed_row_str_ok [OF typed_event_row [OF assms that], of "''side''" FStr None "[]"]
    by (auto simp: event_model_def fill_recorded_fields_def)
  show ?thesis
    using s [of FillRecorded] s [of PositionOpened] s [of PositionClosed] f
    by (auto simp: tally_event_def Let_def event_value_def)
qed

lemma tallied_total: "(\<And>e. e \<in> set es \<Longrightarrow> typed_event e) \<Longrightarrow> \<exists>w. tallied es = Ok w"
proof -
  have "\<exists>w'. rfold tally_event w es = Ok w'" if "\<And>e. e \<in> set es \<Longrightarrow> typed_event e" for w
    using that
  proof (induction es arbitrary: w)
    case (Cons e es)
    obtain w1 where "tally_event w e = Ok w1" using tally_event_total Cons.prems by (meson list.set_intros(1))
    then show ?case using Cons by simp
  qed simp
  then show "(\<And>e. e \<in> set es \<Longrightarrow> typed_event e) \<Longrightarrow> \<exists>w. tallied es = Ok w" by (simp add: tallied_def)
qed

lemma check_positions_total:
  assumes "\<And>e. e \<in> set es \<Longrightarrow> typed_event e"
  obtains c where "check_positions tail es = Ok c"
proof -
  obtain w where "tallied es = Ok w" using tallied_total [of es] assms by blast
  with that show thesis by (auto simp: check_positions_def)
qed

section \<open>The shutdown snapshot comes back\<close>

lemma stopped_meta: "JObj [(''status'', JStr ''stopped''), (''ts_utc'', JStr ts)]
    = dump_dict JStr [(''status'', ''stopped''), (''ts_utc'', ts)]"
  by (simp add: dump_dict_def)

lemma stopped_check:
  "check_snapshot st (Some (n, t, json_sorted (JObj (shutdown_body s ts)))) = Ok None"
proof -
  have "wf_dict (shutdown_body s ts)" by (simp add: shutdown_body_def dump_state_def wf_dict_def)
  then have "map_of (sort_key fst (json_sorted_items (shutdown_body s ts))) ''meta''
      = Some (json_sorted (JObj [(''status'', JStr ''stopped''), (''ts_utc'', JStr ts)]))"
    by (simp add: field_sorted shutdown_body_def del: json_sorted_items.simps json_sorted.simps)
  then show ?thesis by (simp add: check_snapshot_def dict_get_default_def)
qed

lemma read_all: "store_ok H st \<Longrightarrow> read st 1 [] None None None = Ok (map parsed (events st))"
  using read_from [of H st 0] by simp

lemma last_seq:
  assumes "store_ok H st" "events st \<noteq> []"
  shows "r_seq (last (events st)) = int (length (events st))"
proof -
  have seqs: "map r_seq (events st) = map int [1..<Suc (length (events st))]"
    using assms(1) by (simp add: store_ok_def rows_ok_def seqs_ok_def)
  have "r_seq (last (events st)) = last (map r_seq (events st))" using assms(2) by (simp add: last_map)
  also have "\<dots> = int (length (events st))" using assms(2) by (simp only: seqs) (cases "events st", auto)
  finally show ?thesis by simp
qed

definition genesis_of :: "store \<Rightarrow> int \<Rightarrow> lstate" where
  \<comment> \<open>the genesis state of a ledger that holds rows\<close>
  "genesis_of st e0 = (let r = hd (events st) in initial_state (source_or st (r_source r)) e0 (take 10 (r_ts r)))"

lemma shutdown_snapshot_written:
  assumes "store_ok H st" "events st \<noteq> []" "get_meta st equity_key None = Some m" "int_of_str m = Some e0"
    and "\<forall>r \<in> set (events st). marks_ok (parsed r)" "\<forall>x \<in> set (snapshots st). fst x < int (length (events st))"
  obtains s st1 where "shutdown_snapshot st ts = (Ok (), st1)"
    "fold_events (genesis_of st e0) (map parsed (events st)) = Ok s" "state_wf s" "finite_prices s"
    "latest_snapshot st1 = Ok (Some (int (length (events st)), ts, json_sorted (JObj (shutdown_body s ts))))"
    "events st1 = events st" "meta st1 = meta st"
proof -
  have "\<exists>s. fold_events (genesis_of st e0) (map parsed (events st)) = Ok s \<and> finite_prices s"
    unfolding genesis_of_def Let_def
    by (rule fold_finite_prices) (use assms(5) store_ok_valid [OF assms(1)] typed_parsed in auto)
  then obtain s where s: "fold_events (genesis_of st e0) (map parsed (events st)) = Ok s" "finite_prices s" by blast
  have wf: "state_wf s" using fold_wf [OF s(1)] initial_wf by (simp add: genesis_of_def Let_def)
  have body: "wf_json (JObj (shutdown_body s ts))"
    unfolding shutdown_body_def stopped_meta by (rule wf_dump_state [OF wf]) (simp add: wf_dict_def)
  obtain st1 where st1: "write_snapshot st (int (length (events st))) ts (py_of_json_items (shutdown_body s ts)) = (Ok (), st1)"
    "latest_snapshot st1 = Ok (Some (int (length (events st)), ts, json_sorted (JObj (shutdown_body s ts))))"
    "events st1 = events st" "meta st1 = meta st"
    by (rule write_latest [OF body assms(6)])
  have "shutdown_state st = Ok (map parsed (events st), s)"
    using assms(2-4) s(1) by (cases "events st")
      (simp_all add: shutdown_state_def read_all [OF assms(1)] shutdown_initial_equity_def of_option_def
        genesis_of_def Let_def)
  moreover have "e_seq (last (map parsed (events st))) = int (length (events st))"
    using assms(2) last_seq [OF assms(1,2)] by (simp add: last_map)
  ultimately have "shutdown_snapshot st ts = (Ok (), st1)"
    using assms(2) st1(1) by (simp add: shutdown_snapshot_def keep_corrupt_def)
  with st1 s wf that show thesis by blast
qed

section \<open>Properties\<close>

lemma replay_report_tail:
  assumes ok: "store_ok H st" and rows: "events st \<noteq> []" "\<forall>r \<in> set (events st). marks_ok (parsed r)"
    and meta: "meta_equity st = Ok e0"
    and snap: "latest_snapshot st = Ok snap" "snapshot_seq snap = int n" "tail_base st snap = Ok base"
      "check_snapshot st snap = Ok None"
    and prefix: "fold_events (genesis_of st e0) (map parsed (take n (events st))) = Ok s" "state_equiv s base"
  obtains rep full tail where "replay_report st = Ok rep"
    "fold_events (genesis_of st e0) (map parsed (events st)) = Ok full" "state_equiv full tail"
    "rc_snapshot_seq rep = Some (int n)" "rc_tail_events rep = Some (int (length (events st) - n))"
    "rc_head_seq rep = Some (int (length (events st)))"
    "(rc_status rep = CONSISTENT \<and> rc_state rep = Some (dump_state tail))
      = (check_source st (map parsed (events st)) = None \<and> check_positions tail (map parsed (events st)) = Ok None)"
proof -
  let ?es = "map parsed (events st)"
  have typed: "typed_event e" if "e \<in> set ?es" for e
    using that store_ok_valid [OF ok] typed_parsed by auto
  have g: "genesis st ?es = Ok (genesis_of st e0)"
    using rows(1) by (cases "events st") (simp_all add: genesis_def genesis_of_def Let_def meta)
  obtain full where full: "fold_events (genesis_of st e0) ?es = Ok full"
    using fold_finite_prices [of ?es] rows(2) typed unfolding genesis_of_def Let_def by fastforce
  have split: "?es = map parsed (take n (events st)) @ map parsed (drop n (events st))"
    by (simp only: map_append [symmetric] append_take_drop_id)
  have "fold_events s (map parsed (drop n (events st))) = Ok full"
    using full prefix(1) by (simp only: split fold_events_def rfold_append) simp
  then obtain tail where tail: "fold_events base (map parsed (drop n (events st))) = Ok tail" "state_equiv full tail"
    using fold_equiv [OF prefix(2), of "map parsed (drop n (events st))"] by (auto simp: rel_sum.simps)
  have r: "read st (snapshot_seq snap + 1) [] None None None = Ok (map parsed (drop n (events st)))"
    by (simp add: snap(2) read_from [OF ok])
  have "l_cash full = e0 + sum_list (map event_cash ?es)"
    using fold_cash [OF full] by (simp add: genesis_of_def Let_def initial_state_def)
  then have cash: "check_cash st tail ?es = Ok None"
    using tail(2) typed meta by (intro check_cash_holds) (auto simp: state_equiv_def)
  obtain c where c: "check_positions tail ?es = Ok c" using check_positions_total typed by blast
  have replay: "check_full_replay tail full = None"
    using without_meta_equiv [OF tail(2)] by (simp add: check_full_replay_def)
  have l: "e_seq (last ?es) = int (length (events st))"
    using rows(1) last_seq [OF ok rows(1)] by (simp add: last_map)
  have checks: "integrity_checks st snap tail full ?es = Ok (first_some [check_source st ?es, c])"
    by (simp add: integrity_checks_def cash snap(4) c replay)
  have "\<exists>rep. replay_report st = Ok rep \<and> rc_snapshot_seq rep = Some (int n)
      \<and> rc_tail_events rep = Some (int (length (events st) - n))
      \<and> rc_head_seq rep = Some (int (length (events st)))
      \<and> (rc_status rep = CONSISTENT \<and> rc_state rep = Some (dump_state tail))
        = (check_source st ?es = None \<and> check_positions tail ?es = Ok None)"
    using rows(1) l c
    by (cases "check_source st ?es"; cases c)
       (simp_all add: replay_report_def snap r [unfolded snap(2)] tail(1) read_all [OF ok] g full checks
        CONSISTENT_def INCONSISTENT_def)
  with full tail(2) that show thesis by blast
qed

text \<open>
  C4: a restart after an orderly shutdown never fails the replay or cash check. Take a ledger reached
  through the store, shut down with its rows folded into a snapshot, and any later ledger that only
  appended rows: reconcile returns a report and raises nothing, counts the tail it replayed, and the
  state it folded from the snapshot equals the fold of the whole ledger from genesis up to dictionary
  order. The verdict is CONSISTENT exactly when the source and position checks pass.
\<close>

theorem restart_after_shutdown:
  assumes "reachable H st" "reachable H st2" "events st \<noteq> []"
    and "get_meta st equity_key None = Some m" "int_of_str m = Some e0"
    and "\<forall>x \<in> set (snapshots st). fst x < int (length (events st))"
    and "shutdown_snapshot st ts = (Ok (), st1)"
    and "events st2 = events st1 @ rs" "snapshots st2 = snapshots st1" "meta st2 = meta st1"
    and "\<forall>r \<in> set (events st2). marks_ok (parsed r)"
  shows "\<exists>rep full tail. reconcile H st2 = (Ok rep, st2\<lparr>inconsistent := False\<rparr>)
    \<and> rc_snapshot_seq rep = Some (int (length (events st))) \<and> rc_tail_events rep = Some (int (length rs))
    \<and> fold_events (genesis_of st e0) (map parsed (events st2)) = Ok full \<and> state_equiv full tail
    \<and> (rc_status rep = CONSISTENT \<and> rc_state rep = Some (dump_state tail))
       = (check_source st2 (map parsed (events st2)) = None \<and> check_positions tail (map parsed (events st2)) = Ok None)"
proof -
  note ok = reachable_store_ok [OF assms(1)] and ok2 = reachable_store_ok [OF assms(2)]
  have "events st1 = events st" "\<forall>r \<in> set (events st). marks_ok (parsed r)"
  proof -
    show "events st1 = events st" using assms(7)
      by (auto simp: shutdown_snapshot_def write_snapshot_def split: sum.splits prod.splits if_splits)
    then show "\<forall>r \<in> set (events st). marks_ok (parsed r)" using assms(8,11) by auto
  qed
  with ok assms obtain s where s: "fold_events (genesis_of st e0) (map parsed (events st)) = Ok s"
    "state_wf s" "finite_prices s"
    "latest_snapshot st1 = Ok (Some (int (length (events st)), ts, json_sorted (JObj (shutdown_body s ts))))"
    "events st1 = events st" "meta st1 = meta st"
    using shutdown_snapshot_written [of H st m e0 ts] by (metis Pair_inject)
  let ?st = "st2\<lparr>inconsistent := False\<rparr>"
  let ?snap = "Some (int (length (events st)), ts, json_sorted (JObj (shutdown_body s ts)))"
  have ev: "events ?st = events st @ rs" "store_ok H ?st" "genesis_of ?st e0 = genesis_of st e0"
    using assms(3,8,10) s(5,6) ok2
    by (auto simp: store_ok_def genesis_of_def source_or_def meta_source_def get_meta_def)
  have m2: "meta_equity ?st = Ok e0"
    using assms(4,5,10) s(6) by (simp add: meta_equity_def get_meta_def of_option_def)
  have latest: "latest_snapshot ?st = Ok ?snap"
    using s(4) assms(9) by (simp add: latest_snapshot_def)
  let ?base = "sorted_state (s\<lparr>l_meta := [(''status'', ''stopped''), (''ts_utc'', ts)]\<rparr>)"
  have base: "tail_base ?st ?snap = Ok ?base" "state_equiv s ?base"
    using restored_equiv [OF s(2,3), of "[(''status'', ''stopped''), (''ts_utc'', ts)]"]
    by (simp_all add: tail_base_def shutdown_body_def stopped_meta wf_dict_def del: json_sorted.simps)
  have "verify H st2 = (Ok True, ?st)" using ok2 by (simp add: verify_def store_ok_def rows_ok_def)
  then have rec: "reconcile H st2 = (replay_report ?st, ?st)" by (simp add: reconcile_def)
  have ne: "events ?st \<noteq> []" and marks: "\<forall>r \<in> set (events ?st). marks_ok (parsed r)"
    using assms(3,11) ev(1) by auto
  have seqn: "snapshot_seq ?snap = int (length (events st))" by (simp add: snapshot_seq_def)
  have pre: "fold_events (genesis_of ?st e0) (map parsed (take (length (events st)) (events ?st))) = Ok s"
    using s(1) ev by simp
  obtain rep full tail where r: "replay_report ?st = Ok rep"
    "fold_events (genesis_of ?st e0) (map parsed (events ?st)) = Ok full" "state_equiv full tail"
    "rc_snapshot_seq rep = Some (int (length (events st)))"
    "rc_tail_events rep = Some (int (length (events ?st) - length (events st)))"
    "rc_head_seq rep = Some (int (length (events ?st)))"
    "(rc_status rep = CONSISTENT \<and> rc_state rep = Some (dump_state tail))
      = (check_source ?st (map parsed (events ?st)) = None \<and> check_positions tail (map parsed (events ?st)) = Ok None)"
    by (rule replay_report_tail [OF ev(2) ne marks m2 latest seqn base(1) stopped_check pre base(2)])
  have e2: "events ?st = events st2" "check_source ?st = check_source st2"
    by (simp_all add: check_source_def [abs_def] meta_source_def get_meta_def)
  show ?thesis
    by (rule exI [of _ rep], rule exI [of _ full], rule exI [of _ tail])
       (use r rec ev e2 in simp)
qed

lemma shutdown_reachable:
  assumes "shutdown_snapshot st ts = (res, st1)" "reachable H st"
  shows "reachable H st1" "events st1 = events st"
proof -
  have "st1 = st \<or> (\<exists>n state res'. write_snapshot st n ts state = (res', st1))"
    using assms(1) by (auto simp: shutdown_snapshot_def split: sum.splits prod.splits)
  then show "reachable H st1"
    using assms(2) step_snapshot unfolding reachable_def by (metis rtranclp.rtrancl_into_rtrancl)
  show "events st1 = events st"
    using assms(1) by (auto simp: shutdown_snapshot_def write_snapshot_def split: sum.splits prod.splits if_splits)
qed

lemma append_extends:
  assumes "append H st x = (Ok r, st')"
  shows "events st' = events st @ [r] \<and> meta st' = meta st \<and> snapshots st' = snapshots st
    \<and> r_type r = x_type x \<and> r_ts r = x_ts x \<and> r_source r = x_source x"
  by (rule append_Ok [OF assms]) (simp add: stored_row_def)

definition sample_meta :: store where
  "sample_meta = set_meta empty_store equity_key ''1000''"

definition second_note :: entry where
  "second_note = sample_note\<lparr>x_key := ''k2'', x_ts := ''2026-01-02T00:00:00Z''\<rparr>"

lemma note_marks_ok: "r_type r = ''JournalNote'' \<Longrightarrow> marks_ok (parsed r)"
  using event_type_of_str_value [of JournalNote] by (simp add: marks_ok_def event_kind_def event_value_def)

lemma sample_run:
  obtains r st st1 r2 st2 where "append (\<lambda>s. s) sample_meta sample_note = (Ok r, st)"
    "shutdown_snapshot st ''t'' = (Ok (), st1)" "append (\<lambda>s. s) st1 second_note = (Ok r2, st2)"
proof -
  have "case append (\<lambda>s. s) sample_meta sample_note of (_, st) \<Rightarrow>
      is_ok (fst (append (\<lambda>s. s) sample_meta sample_note)) \<and>
      (case shutdown_snapshot st ''t'' of (res, st1) \<Rightarrow> is_ok res \<and> is_ok (fst (append (\<lambda>s. s) st1 second_note)))"
    by code_simp
  then show thesis using that
    by (auto simp: is_ok_iff split: prod.splits) (metis fst_conv prod.exhaust_sel)
qed

lemma sample_meta_reachable: "reachable H sample_meta"
  unfolding reachable_def sample_meta_def by (rule r_into_rtranclp, rule step_meta) simp

theorem restart_after_shutdown_witness:
  "\<exists>st st1 st2 r2 rep full tail. reachable (\<lambda>s. s) st2 \<and> shutdown_snapshot st ''t'' = (Ok (), st1)
    \<and> events st2 = events st1 @ [r2] \<and> reconcile (\<lambda>s. s) st2 = (Ok rep, st2\<lparr>inconsistent := False\<rparr>)
    \<and> rc_tail_events rep = Some 1 \<and> state_equiv full tail"
proof -
  obtain r st st1 r2 st2 where run: "append (\<lambda>s. s) sample_meta sample_note = (Ok r, st)"
    "shutdown_snapshot st ''t'' = (Ok (), st1)" "append (\<lambda>s. s) st1 second_note = (Ok r2, st2)"
    by (rule sample_run)
  have reach: "reachable (\<lambda>s. s) st"
    using sample_meta_reachable step_append [OF run(1)] unfolding reachable_def by (rule rtranclp.rtrancl_into_rtrancl)
  note shut = shutdown_reachable [OF run(2) reach]
  from shut(1) have reach2: "reachable (\<lambda>s. s) st2"
    using step_append [OF run(3)] unfolding reachable_def by (rule rtranclp.rtrancl_into_rtrancl)
  have a: "events st = events sample_meta @ [r]" "meta st = meta sample_meta" "snapshots st = snapshots sample_meta"
    "r_type r = x_type sample_note"
    and b: "events st2 = events st1 @ [r2]" "meta st2 = meta st1" "snapshots st2 = snapshots st1"
    "r_type r2 = x_type second_note"
    using append_extends [OF run(1)] append_extends [OF run(3)] by auto
  from shut(2) have marks: "\<forall>x \<in> set (events st2). marks_ok (parsed x)"
    using a b note_marks_ok by (auto simp: sample_note_def second_note_def sample_meta_def set_meta_def empty_store_def)
  have m: "get_meta st equity_key None = Some ''1000''" "events st \<noteq> []" "\<forall>x \<in> set (snapshots st). fst x < int (length (events st))"
    using a by (auto simp: get_meta_def sample_meta_def set_meta_def empty_store_def)
  have i: "int_of_str ''1000'' = Some 1000" by code_simp
  show ?thesis
    using restart_after_shutdown [OF reach reach2 m(2) m(1) i m(3) run(2) b(1) b(3) b(2) marks] reach2 run(2) b(1)
    by fastforce
qed

lemma handler_day:
  "handler t s row ts cid = Ok s' \<Longrightarrow> t \<noteq> DailyRollover \<Longrightarrow> l_day_utc s' = l_day_utc s"
  by (cases t) (auto simp: handler_def handler_defs rbind_Ok_iff Let_def track_peak_eq split: if_splits)

lemma reduce_day: "reduce s e = Ok s' \<Longrightarrow> event_kind e \<noteq> Some DailyRollover \<Longrightarrow> l_day_utc s' = l_day_utc s"
  by (erule reduce_cases) (auto dest: handler_day)

lemma without_meta_day:
  assumes "without_meta s = without_meta t"
  shows "l_day_utc s = l_day_utc t"
proof -
  let ?b = "\<lambda>s. List.filter (\<lambda>(k, v). k \<noteq> ''meta'') (dump_state s)"
  have wf: "wf_dict (?b s)" "wf_dict (?b t)" by (simp_all add: dump_state_def wf_dict_def)
  have "map_of (sort_key fst (json_sorted_items (?b s))) ''day_utc'' = map_of (sort_key fst (json_sorted_items (?b t))) ''day_utc''"
    using assms by (simp add: without_meta_def)
  then show ?thesis by (simp only: field_sorted [OF wf(1)] field_sorted [OF wf(2)]) (simp add: dump_state_def)
qed

text \<open>
  C30: a shutdown before the first row makes a later reconcile fail. When the shutdown snapshot is taken
  on an empty ledger its state has no day, while the genesis fold takes the day from the first row. A
  reconcile right after such a shutdown is still CONSISTENT, since there is nothing to replay. But once a
  first row is appended, if it is not a daily rollover and has a stamp (and, for a mark row, marks in the
  writer's form), the next reconcile is INCONSISTENT: its full-replay check fails, although the chain is
  intact.
\<close>

theorem empty_shutdown_breaks_reconcile:
  assumes "get_meta st equity_key None = Some m" "int_of_str m = Some e0" "store_ok H st"
    and "events st = []" "snapshots st = []" "shutdown_snapshot st ts = (Ok (), st1)"
    and "append H st1 x = (Ok r, st2)" "x_type x \<noteq> ''DailyRollover''" "take 10 (x_ts x) \<noteq> []" "marks_ok (parsed r)"
  shows "(\<exists>rep st3. reconcile H st1 = (Ok rep, st3) \<and> rc_status rep = CONSISTENT)
    \<and> (\<exists>rep st3. reconcile H st2 = (Ok rep, st3) \<and> rc_status rep = INCONSISTENT
      \<and> rc_detail rep = ''tail replay state differs from full replay state'')"
proof -
  let ?s0 = "initial_state ''paper'' e0 []"
  have "shutdown_state st = Ok ([], ?s0)"
    using assms(1,2) by (simp add: shutdown_state_def read_all [OF assms(3)] assms(4) shutdown_initial_equity_def
        of_option_def fold_events_def)
  then have w: "write_snapshot st 0 ts (py_of_json_items (shutdown_body ?s0 ts)) = (fst (write_snapshot st 0 ts
      (py_of_json_items (shutdown_body ?s0 ts))), st1)"
    using assms(6) by (auto simp: shutdown_snapshot_def split: prod.splits)
  have wfj: "wf_json (JObj (shutdown_body ?s0 ts))"
    unfolding shutdown_body_def stopped_meta by (rule wf_dump_state) (simp_all add: initial_wf wf_dict_def)
  obtain stx where stx: "write_snapshot st 0 ts (py_of_json_items (shutdown_body ?s0 ts)) = (Ok (), stx)"
    "latest_snapshot stx = Ok (Some (0, ts, json_sorted (JObj (shutdown_body ?s0 ts))))"
    "events stx = events st" "meta stx = meta st"
    by (rule write_latest [OF wfj, of st 0 ts]) (simp_all add: assms(5))
  then have st1: "st1 = stx" using w by simp
  have ok1: "store_ok H st1" using write_snapshot_store_ok [OF assms(3) stx(1)] st1 by simp
  have ok2: "store_ok H st2" by (rule append_store_ok [OF ok1 assms(7)])
  note ext = append_extends [OF assms(7)]
  let ?st = "st2\<lparr>inconsistent := False\<rparr>" and ?snap = "Some (0, ts, json_sorted (JObj (shutdown_body ?s0 ts)))"
  let ?base = "sorted_state (?s0\<lparr>l_meta := [(''status'', ''stopped''), (''ts_utc'', ts)]\<rparr>)"
  have ev: "events ?st = [r]" "store_ok H ?st" "latest_snapshot ?st = Ok ?snap" "meta ?st = meta st"
    using ext stx assms(4) st1 ok2 by (simp_all add: store_ok_def latest_snapshot_def)
  have fin: "finite_prices ?s0" by (simp add: finite_prices_def initial_state_def)
  have base: "tail_base sx ?snap = Ok ?base" "state_equiv ?s0 ?base" for sx
    using restored_equiv [OF initial_wf(1) fin, of "[(''status'', ''stopped''), (''ts_utc'', ts)]"]
    by (simp_all add: tail_base_def shutdown_body_def stopped_meta wf_dict_def del: json_sorted.simps)
  have m2: "meta_equity ?st = Ok e0" using assms(1,2) ev(4) by (simp add: meta_equity_def get_meta_def of_option_def)
  have typed: "typed_event (parsed r)" using store_ok_valid [OF ev(2)] typed_parsed ev(1) by auto
  have kind: "event_kind (parsed r) \<noteq> Some DailyRollover"
    using assms(8) ext event_type_of_str_Some [of "r_type r" DailyRollover]
    by (auto simp: event_kind_def event_value_def)
  obtain full where full: "reduce (genesis_of ?st e0) (parsed r) = Ok full"
    using reduce_total [OF typed _ assms(10)] unfolding genesis_of_def Let_def
    by (metis initial_state_def finite_peaks_def empty_iff list.set(1) lstate.select_convs(7))
  have "finite_peaks (l_positions ?s0)" by (simp add: initial_state_def finite_peaks_def)
  then obtain t0 where t0: "reduce ?s0 (parsed r) = Ok t0" using reduce_total [OF typed _ assms(10)] by blast
  obtain tail where tail: "reduce ?base (parsed r) = Ok tail" "state_equiv t0 tail"
    using reduce_equiv [OF base(2), of "parsed r"] t0 by (auto simp: rel_sum.simps)
  have "l_day_utc full = take 10 (x_ts x)" "l_day_utc tail = []"
    using reduce_day [OF full kind] reduce_day [OF t0 kind] tail(2) ev(1) ext
    by (simp_all add: genesis_of_def Let_def initial_state_def state_equiv_def)
  then have replay: "check_full_replay tail full = Some ''tail replay state differs from full replay state''"
    using without_meta_day [of tail full] assms(9) by (auto simp: check_full_replay_def)
  have "l_cash tail = e0 + event_cash (parsed r)"
    using reduce_cash [OF t0] tail(2) by (simp add: state_equiv_def initial_state_def)
  then have cash: "check_cash ?st tail [parsed r] = Ok None"
    using typed m2 by (intro check_cash_holds) auto
  obtain c where c: "check_positions tail [parsed r] = Ok c" using check_positions_total [of "[parsed r]"] typed by auto
  have g: "genesis ?st [parsed r] = Ok (genesis_of ?st e0)"
    using ev(1) by (simp add: genesis_def genesis_of_def Let_def m2)
  have rd: "read ?st 1 [] None None None = Ok [parsed r]" using read_all [OF ev(2)] ev(1) by simp
  have "verify H st2 = (Ok True, ?st)" using ok2 by (simp add: verify_def store_ok_def rows_ok_def)
  moreover have "replay_report ?st = Ok \<lparr>rc_status = INCONSISTENT, rc_snapshot_seq = Some 0, rc_tail_events = Some 1,
      rc_head_seq = Some (r_seq r), rc_detail = ''tail replay state differs from full replay state'', rc_state = None\<rparr>"
    by (simp add: replay_report_def ev(3) base(1) snapshot_seq_def rd fold_events_def tail(1) g full
        integrity_checks_def cash stopped_check c replay del: json_sorted.simps)
  ultimately have after: "\<exists>rep st3. reconcile H st2 = (Ok rep, st3) \<and> rc_status rep = INCONSISTENT
      \<and> rc_detail rep = ''tail replay state differs from full replay state''" by (simp add: reconcile_def)
  let ?st1 = "st1\<lparr>inconsistent := False\<rparr>"
  have ev1: "events ?st1 = []" "store_ok H ?st1" "latest_snapshot ?st1 = Ok ?snap"
    using stx assms(4) st1 ok1 by (simp_all add: store_ok_def latest_snapshot_def)
  have "verify H st1 = (Ok True, ?st1)" using ok1 by (simp add: verify_def store_ok_def rows_ok_def)
  moreover have "read ?st1 1 [] None None None = Ok []" using read_all [OF ev1(2)] ev1(1) by simp
  ultimately have "\<exists>rep st3. reconcile H st1 = (Ok rep, st3) \<and> rc_status rep = CONSISTENT"
    using ev1(3) base(1) by (simp add: reconcile_def replay_report_def snapshot_seq_def fold_events_def del: json_sorted.simps)
  with after show ?thesis by blast
qed

theorem empty_shutdown_breaks_reconcile_witness:
  "\<exists>st1 r st2 rep0 st0 rep st3. shutdown_snapshot sample_meta ''t'' = (Ok (), st1)
    \<and> reconcile (\<lambda>s. s) st1 = (Ok rep0, st0) \<and> rc_status rep0 = CONSISTENT
    \<and> append (\<lambda>s. s) st1 sample_note = (Ok r, st2) \<and> reconcile (\<lambda>s. s) st2 = (Ok rep, st3) \<and> rc_status rep = INCONSISTENT"
proof -
  have "case shutdown_snapshot sample_meta ''t'' of (res, st1) \<Rightarrow> is_ok res \<and> is_ok (fst (append (\<lambda>s. s) st1 sample_note))"
    by code_simp
  then obtain st1 r st2 where run: "shutdown_snapshot sample_meta ''t'' = (Ok (), st1)"
    "append (\<lambda>s. s) st1 sample_note = (Ok r, st2)"
    by (auto simp: is_ok_iff split: prod.splits) (metis fst_conv prod.exhaust_sel)
  have m: "get_meta sample_meta equity_key None = Some ''1000''" "events sample_meta = []" "snapshots sample_meta = []"
    by (simp_all add: get_meta_def sample_meta_def set_meta_def empty_store_def)
  have i: "int_of_str ''1000'' = Some 1000" by code_simp
  have x: "x_type sample_note \<noteq> ''DailyRollover''" "take 10 (x_ts sample_note) \<noteq> []"
    by (simp_all add: sample_note_def)
  have mk: "marks_ok (parsed r)" using append_extends [OF run(2)] by (intro note_marks_ok) (simp add: sample_note_def)
  show ?thesis
    using empty_shutdown_breaks_reconcile [OF m(1) i reachable_store_ok [OF sample_meta_reachable] m(2,3) run x mk] run
    by blast
qed

end
