(* ===== verification/LedgerReads.thy ===== *)
theory LedgerReads
  imports Reducer
begin

text \<open>
  What a reader of a validated ledger sees: a full read returns every row in order, a read by type
  the rows of those types, and a text field is the stored string of the rows that have the field and
  the default on all others. The risk components rest on these facts.
\<close>

lemma store_ok_seq_pos: "store_ok H st \<Longrightarrow> r \<in> set (events st) \<Longrightarrow> 1 \<le> r_seq r"
proof -
  assume "store_ok H st" "r \<in> set (events st)"
  then have "r_seq r \<in> set (map int [1..<Suc (length (events st))])"
    unfolding store_ok_def rows_ok_def seqs_ok_def by (metis image_eqI list.set_map)
  then show ?thesis by auto
qed

lemma read_everything:
  assumes "store_ok H st"
  shows "read st 0 [] None None None = Ok (map parsed (events st))"
proof -
  have "List.filter (read_where 0 [] None) (events st) = events st"
    using store_ok_seq_pos [OF assms] by (fastforce simp: read_where_def filter_id_conv)
  then show ?thesis
    by (simp add: read_valid [OF store_ok_valid [OF assms]] sql_limit_def ticket_sel_def)
qed

lemma read_types:
  assumes "store_ok H st" "types \<noteq> []"
  shows "read st 0 types None None None
    = Ok (map parsed (List.filter (\<lambda>r. r_type r \<in> set types) (events st)))"
proof -
  have "List.filter (read_where 0 types None) (events st) = List.filter (\<lambda>r. r_type r \<in> set types) (events st)"
    using store_ok_seq_pos [OF assms(1)] assms(2)
    by (intro filter_cong) (fastforce simp: read_where_def)+
  then show ?thesis
    by (simp add: read_valid [OF store_ok_valid [OF assms(1)]] sql_limit_def ticket_sel_def)
qed

definition text_field :: "string \<Rightarrow> event \<Rightarrow> string option" where
  \<comment> \<open>the string stored under a name, if any\<close>
  "text_field k e = (case e_payload e of JObj row \<Rightarrow>
     (case map_of row k of Some (JStr s) \<Rightarrow> Some s | _ \<Rightarrow> None) | _ \<Rightarrow> None)"

definition text_or :: "string \<Rightarrow> string \<Rightarrow> event \<Rightarrow> string" where
  "text_or k d e = (case text_field k e of Some s \<Rightarrow> s | None \<Rightarrow> d)"

definition textual :: "string \<Rightarrow> bool" where
  \<comment> \<open>a name that every payload model declares as text, or not at all\<close>
  "textual k = list_all (\<lambda>t. list_all (\<lambda>(name, ft, dflt). name = k \<longrightarrow> ft \<in> {FStr, FSource}) (event_model t)) event_types"

lemma all_event_types: "t \<in> set event_types"
  by (cases t) (simp_all add: event_types_def)

lemma typed_event_payload: "typed_event e \<Longrightarrow> \<exists>row. e_payload e = JObj row"
  by (auto simp: typed_event_def)

lemma row_str_textual:
  assumes "typed_event e" "e_payload e = JObj row" "textual k"
  shows "row_str row k d = Ok (text_or k d e)"
proof -
  obtain t where t: "event_type_of_str (e_type e) = Some t" "typed_row (event_model t) row"
    using assms(1,2) by (auto simp: typed_event_def)
  show ?thesis
  proof (cases "k \<in> fst ` set (event_model t)")
    case True
    then obtain ft dflt where f: "(k, ft, dflt) \<in> set (event_model t)" by auto
    then have "ft \<in> {FStr, FSource}"
      using assms(3) all_event_types [of t] unfolding textual_def list_all_iff by fast
    then have "ft \<in> {FSource, FStr, FPrice, FNoteKind}" by auto
    then obtain s where "map_of row k = Some (JStr s)"
      using typed_row_str [OF t(2) f] by blast
    with assms(2) show ?thesis by (simp add: text_or_def text_field_def)
  next
    case False
    then have "map_of row k = None" by (rule typed_row_absent [OF t(2)])
    with assms(2) show ?thesis
      by (simp add: row_str_def row_get_def dict_get_default_def text_or_def text_field_def)
  qed
qed

lemma text_field_of_type:
  assumes "typed_event e" "text_field k e = Some s"
  obtains t where "event_type_of_str (e_type e) = Some t" "k \<in> fst ` set (event_model t)"
proof -
  obtain t row where t: "event_type_of_str (e_type e) = Some t" "e_payload e = JObj row"
    "typed_row (event_model t) row" using assms(1) by (auto simp: typed_event_def)
  then have "k \<in> fst ` set (event_model t)"
    using assms(2) typed_row_absent by (fastforce simp: text_field_def)
  with t that show thesis by blast
qed

lemma textual_breaker: "textual ''breaker''"
  by code_simp

section \<open>Reachable ledgers by appending\<close>

lemma reachable_empty: "reachable H empty_store"
  by (simp add: reachable_def)

lemma reachable_append: "reachable H st \<Longrightarrow> reachable H (snd (append H st x))"
  unfolding reachable_def
  by (metis prod.collapse rtranclp.rtrancl_into_rtrancl step_append)

lemma reachable_append_all: "reachable H st \<Longrightarrow> reachable H (foldl (\<lambda>st x. snd (append H st x)) st xs)"
  by (induction xs arbitrary: st) (simp_all add: reachable_append)

lemma envelope_check: "check_envelope (envelope x) = Ok y \<Longrightarrow> y = x"
  by (auto simp: check_envelope_def envelope_def rbind_Ok_iff assert_str_def truthy_def Let_def
      split: option.splits pyval.splits if_splits)

lemma append_all_pair:
  assumes "append_all H st [envelope x, envelope y] = Ok (rs, st')"
  obtains r1 r2 st1 where "append H st x = (Ok r1, st1)" "append H st1 y = (Ok r2, st')" "rs = [r1, r2]"
proof -
  have cx: "check_envelope (envelope x) = Ok x" using assms envelope_check by (fastforce simp: rbind_Ok_iff)
  then obtain r1 st1 where a: "append H st x = (Ok r1, st1)"
    using assms by (cases "append H st x"; cases "fst (append H st x)") auto
  have "append_all H st1 [envelope y] = Ok (tl rs, st') \<and> rs = r1 # tl rs"
    using assms by (auto simp: cx a rbind_Ok_iff simp del: append_all.simps(2)) (auto simp: cx a rbind_Ok_iff)
  then show thesis
  proof (elim conjE)
    assume b: "append_all H st1 [envelope y] = Ok (tl rs, st')" and rs: "rs = r1 # tl rs"
    have cy: "check_envelope (envelope y) = Ok y" using b envelope_check by (fastforce simp: rbind_Ok_iff)
    then obtain r2 st2 where "append H st1 y = (Ok r2, st2)"
      using b by (cases "append H st1 y"; cases "fst (append H st1 y)") auto
    moreover from this have "st2 = st'" "tl rs = [r2]" using b cy by auto
    ultimately show thesis using that a rs by metis
  qed
qed

lemma append_batch_pair:
  assumes "append_batch H st [envelope x, envelope y] = (Ok rs, st')"
  obtains r1 r2 st1 where "append H st x = (Ok r1, st1)" "append H st1 y = (Ok r2, st')" "rs = [r1, r2]"
proof -
  have "\<not> inconsistent st" using assms by (auto simp: append_batch_def split: if_splits)
  then have "append_all H st [envelope x, envelope y] = Ok (rs, st')"
    using assms append_batch_sequential [of st H] by (auto split: sum.splits prod.splits)
  then show thesis using append_all_pair that by metis
qed

lemma append_batch_pair_intro:
  assumes "append H st x = (Ok r1, st1)" "append H st1 y = (Ok r2, st2)"
  shows "append_batch H st [envelope x, envelope y] = (Ok [r1, r2], st2)"
proof -
  have "check_envelope (envelope x) = Ok x" "check_envelope (envelope y) = Ok y" "\<not> inconsistent st"
    using assms envelope_check by (auto elim!: append_Ok)
  then show ?thesis using assms by (simp add: append_batch_sequential)
qed

lemma reachable_append_ok: "reachable H st \<Longrightarrow> append H st x = (r, st') \<Longrightarrow> reachable H st'"
  using reachable_append by (metis snd_conv)

lemma reachable_typed: "reachable H st \<Longrightarrow> e \<in> set (map parsed (events st)) \<Longrightarrow> typed_event e"
  using store_ok_valid [OF reachable_store_ok] typed_parsed by fastforce

lemma textual_reason: "textual ''reason''" and textual_origin: "textual ''origin''"
  by code_simp+

end
