(* ===== verification/Effects.thy ===== *)
theory Effects
  imports Prelude
begin

text \<open>
  Operations that change state and may raise: \<open>'s \<Rightarrow> 'a result \<times> 's\<close>. An exception keeps the changes
  made before it, as in Python. \<open>suppressing P m\<close> is a \<open>with\<close> block whose \<open>__exit__\<close> swallows the
  exceptions in \<open>P\<close>. The predicate \<open>keeps I m\<close> says that \<open>m\<close> preserves \<open>I\<close> whether it returns or
  raises; its rules carry the invariant proofs of the stateful components.
\<close>

named_theorems keeps_intros \<open>rules for invariants of stateful operations\<close>

type_synonym ('s, 'a) eff = "'s \<Rightarrow> 'a result \<times> 's"

definition ret :: "'a \<Rightarrow> ('s, 'a) eff" where
  "ret x s = (Ok x, s)"

definition raise :: "err \<Rightarrow> ('s, 'a) eff" where
  "raise e s = (Err e, s)"

definition lift :: "'a result \<Rightarrow> ('s, 'a) eff" where
  "lift r s = (r, s)"

definition bind :: "('s, 'a) eff \<Rightarrow> ('a \<Rightarrow> ('s, 'b) eff) \<Rightarrow> ('s, 'b) eff" where
  "bind m f s = (case m s of (Inr x, s') \<Rightarrow> f x s' | (Inl e, s') \<Rightarrow> (Inl e, s'))"

definition get :: "('s, 's) eff" where
  "get s = (Ok s, s)"

definition modify :: "('s \<Rightarrow> 's) \<Rightarrow> ('s, unit) eff" where
  "modify f s = (Ok (), f s)"

definition suppressing :: "(err \<Rightarrow> bool) \<Rightarrow> ('s, unit) eff \<Rightarrow> ('s, unit) eff" where
  "suppressing P m s = (case m s of (Inl e, s') \<Rightarrow> (if P e then (Ok (), s') else (Inl e, s')) | r \<Rightarrow> r)"

definition catching :: "(err \<Rightarrow> bool) \<Rightarrow> (err \<Rightarrow> ('s, 'a) eff) \<Rightarrow> ('s, 'a) eff \<Rightarrow> ('s, 'a) eff" where
  \<comment> \<open>\<open>try: m except P as e: h(e)\<close>\<close>
  "catching P h m s = (case m s of (Inl e, s') \<Rightarrow> (if P e then h e s' else (Inl e, s')) | r \<Rightarrow> r)"

definition ensuring :: "('s, unit) eff \<Rightarrow> ('s, 'a) eff \<Rightarrow> ('s, 'a) eff" where
  \<comment> \<open>\<open>try: m finally: c\<close>: an exception of \<open>c\<close> replaces the outcome of \<open>m\<close>\<close>
  "ensuring c m s = (case m s of (r, s') \<Rightarrow> (case c s' of (Inr _, s'') \<Rightarrow> (r, s'') | (Inl e, s'') \<Rightarrow> (Inl e, s'')))"

primrec for_each :: "'a list \<Rightarrow> ('a \<Rightarrow> ('s, unit) eff) \<Rightarrow> ('s, unit) eff" where
  "for_each [] f = ret ()"
| "for_each (x # xs) f = bind (f x) (\<lambda>_. for_each xs f)"

definition is_integrity :: "err \<Rightarrow> bool" where
  "is_integrity e = (case e of IntegrityError _ \<Rightarrow> True | _ \<Rightarrow> False)"

section \<open>Evaluation\<close>

lemma eff_simps [simp]:
  "ret x s = (Ok x, s)" "raise e s = (Err e, s)" "lift r s = (r, s)" "get s = (Ok s, s)"
  "modify f s = (Ok (), f s)"
  by (simp_all add: ret_def raise_def lift_def get_def modify_def)

lemma bind_simps [simp]:
  "m s = (Inr x, s') \<Longrightarrow> bind m f s = f x s'"
  "m s = (Inl e, s') \<Longrightarrow> bind m f s = (Inl e, s')"
  by (simp_all add: bind_def)

lemma bind_Ok_iff: "bind m f s = (Inr y, s2) \<longleftrightarrow> (\<exists>x s1. m s = (Inr x, s1) \<and> f x s1 = (Inr y, s2))"
  by (auto simp: bind_def split: prod.splits sum.splits)

lemma suppressing_Ok:
  "m s = (Inr u, s') \<Longrightarrow> suppressing P m s = (Ok (), s')"
  "m s = (Inl e, s') \<Longrightarrow> P e \<Longrightarrow> suppressing P m s = (Ok (), s')"
  "m s = (Inl e, s') \<Longrightarrow> \<not> P e \<Longrightarrow> suppressing P m s = (Inl e, s')"
  by (simp_all add: suppressing_def)

lemma catching_simps [simp]:
  "m s = (Inr x, s') \<Longrightarrow> catching P h m s = (Inr x, s')"
  "m s = (Inl e, s') \<Longrightarrow> P e \<Longrightarrow> catching P h m s = h e s'"
  "m s = (Inl e, s') \<Longrightarrow> \<not> P e \<Longrightarrow> catching P h m s = (Inl e, s')"
  by (simp_all add: catching_def)

lemma catching_cases:
  assumes "catching P h m s = (r, s2)"
  obtains "m s = (r, s2)" | e s1 where "m s = (Inl e, s1)" "P e" "h e s1 = (r, s2)"
  using assms by (auto simp: catching_def split: prod.splits sum.splits if_splits)

section \<open>Invariants\<close>

definition keeps :: "('s \<Rightarrow> bool) \<Rightarrow> ('s, 'a) eff \<Rightarrow> bool" where
  "keeps I m \<longleftrightarrow> (\<forall>s. I s \<longrightarrow> I (snd (m s)))"

lemma keepsD: "keeps I m \<Longrightarrow> I s \<Longrightarrow> m s = (r, s') \<Longrightarrow> I s'"
  by (metis keeps_def snd_conv)

lemma keeps_basic [simp, keeps_intros]:
  "keeps I (ret x)" "keeps I (raise e)" "keeps I (lift r)" "keeps I get"
  by (simp_all add: keeps_def)

lemma keeps_modify [keeps_intros]: "(\<And>s. I s \<Longrightarrow> I (f s)) \<Longrightarrow> keeps I (modify f)"
  by (simp add: keeps_def)

lemma keeps_bind [keeps_intros]: "keeps I m \<Longrightarrow> (\<And>x. keeps I (f x)) \<Longrightarrow> keeps I (bind m f)"
  by (auto simp: keeps_def bind_def split: prod.splits sum.splits)

lemma keeps_bind_get: "(\<And>s. I s \<Longrightarrow> I (snd (f s s))) \<Longrightarrow> keeps I (bind get f)"
  by (simp add: keeps_def bind_def)

lemma keeps_suppressing [keeps_intros]: "keeps I m \<Longrightarrow> keeps I (suppressing P m)"
  by (auto simp: keeps_def suppressing_def split: prod.splits sum.splits)

lemma keeps_catching [keeps_intros]:
  assumes "keeps I m" "\<And>e. P e \<Longrightarrow> keeps I (h e)"
  shows "keeps I (catching P h m)"
  unfolding keeps_def
proof (intro allI impI)
  fix s assume i: "I s"
  obtain r s1 where m: "m s = (r, s1)" by force
  have i1: "I s1" using keepsD [OF assms(1) i m] .
  show "I (snd (catching P h m s))"
  proof (cases r)
    case (Inl e)
    then show ?thesis using m i1 assms(2) [of e] by (cases "P e") (simp_all add: keeps_def)
  qed (use m i1 in simp)
qed

lemma keeps_ensuring [keeps_intros]:
  assumes "keeps I m" "keeps I c"
  shows "keeps I (ensuring c m)"
  unfolding keeps_def
proof (intro allI impI)
  fix s assume i: "I s"
  obtain r s1 where m: "m s = (r, s1)" by force
  obtain q s2 where c: "c s1 = (q, s2)" by force
  have "I s2" using keepsD [OF assms(2) keepsD [OF assms(1) i m] c] .
  then show "I (snd (ensuring c m s))" by (simp add: ensuring_def m c split: sum.splits)
qed

lemma keeps_for_each [keeps_intros]: "(\<And>x. x \<in> set xs \<Longrightarrow> keeps I (f x)) \<Longrightarrow> keeps I (for_each xs f)"
  by (induction xs) (auto intro!: keeps_intros)

lemma keeps_if [keeps_intros]: "(b \<Longrightarrow> keeps I m) \<Longrightarrow> (\<not> b \<Longrightarrow> keeps I n) \<Longrightarrow> keeps I (if b then m else n)"
  by simp

lemma keeps_conj: "keeps I m \<Longrightarrow> keeps J m \<Longrightarrow> keeps (\<lambda>s. I s \<and> J s) m"
  by (simp add: keeps_def)

end
