(* ===== verification/Clock.thy ===== *)
theory Clock
  imports Floats Effects "HOL-Library.Product_Lexorder"
begin

text \<open>
  Time (\<open>replay/clock.py\<close>): the ledger's timestamp text with its reader and printer, on the calendar
  arithmetic of Python's \<open>datetime\<close>, and the virtual clock of the replay with its timer heap. An epoch
  time is a float: the rational it denotes, with \<open>fl\<close> on every operation. The reader takes the
  extended ISO form the program writes (a date, a separator, a time of day with an optional fraction, \<open>Z\<close>
  or an offset); Python also takes the basic and week forms, which nothing here writes.
\<close>

section \<open>Calendar\<close>

definition is_leap :: "int \<Rightarrow> bool" where
  "is_leap y \<longleftrightarrow> y mod 4 = 0 \<and> (y mod 100 \<noteq> 0 \<or> y mod 400 = 0)"

definition days_before_year :: "int \<Rightarrow> int" where
  "days_before_year y = (let z = y - 1 in z * 365 + z div 4 - z div 100 + z div 400)"

definition days_in_month :: "int \<Rightarrow> int \<Rightarrow> int" where
  "days_in_month y m = (if m = 2 then (if is_leap y then 29 else 28)
     else if m \<in> {4, 6, 9, 11} then 30 else 31)"

definition days_before_month :: "int \<Rightarrow> int \<Rightarrow> int" where
  "days_before_month y m = [0, 31, 59, 90, 120, 151, 181, 212, 243, 273, 304, 334] ! nat (m - 1)
     + (if m > 2 \<and> is_leap y then 1 else 0)"

definition ymd_ord :: "int \<Rightarrow> int \<Rightarrow> int \<Rightarrow> int" where
  "ymd_ord y m d = days_before_year y + days_before_month y m + d"

definition month_of_day :: "bool \<Rightarrow> int \<Rightarrow> int \<times> int" where
  \<comment> \<open>month and day of the \<open>n\<close>-th day of a year, from 0\<close>
  "month_of_day leap n =
     (let m0 = (n + 50) div 32;
          before = (\<lambda>m. [0, 31, 59, 90, 120, 151, 181, 212, 243, 273, 304, 334] ! nat (m - 1)
                        + (if m > 2 \<and> leap then 1 else 0 :: int));
          p0 = before m0;
          (m, p) = (if p0 > n
                    then (m0 - 1, p0 - (if m0 - 1 = 2 then (if leap then 29 else 28)
                                        else if m0 - 1 \<in> {4, 6, 9, 11} then 30 else 31))
                    else (m0, p0))
      in (m, n - p + 1))"

definition ord_ymd :: "int \<Rightarrow> int \<times> int \<times> int" where
  "ord_ymd ordinal =
     (let n = ordinal - 1;
          n400 = n div 146097; n = n mod 146097; year = n400 * 400 + 1;
          n100 = n div 36524; n = n mod 36524;
          n4 = n div 1461; n = n mod 1461;
          n1 = n div 365; n = n mod 365;
          year = year + n100 * 100 + n4 * 4 + n1
      in if n1 = 4 \<or> n100 = 4 then (year - 1, 12, 31)
         else case month_of_day (n1 = 3 \<and> (n4 \<noteq> 24 \<or> n100 = 3)) n of (m, d) \<Rightarrow> (year, m, d))"

definition EPOCH_ORD :: int where "EPOCH_ORD = 719163"

section \<open>Timestamps\<close>

definition padn :: "nat \<Rightarrow> int \<Rightarrow> string" where
  "padn k n = (let s = nat_str (nat n) in replicate (k - length s) CHR ''0'' @ s)"

definition micros_of :: "rat \<Rightarrow> int" where
  \<comment> \<open>microseconds since the epoch, the way \<open>datetime.fromtimestamp\<close> rounds a float\<close>
  "micros_of t = (let whole = (if t < 0 then \<lceil>t\<rceil> else \<lfloor>t\<rfloor>) in
     whole * 1000000 + rhe (fl ((t - of_int whole) * 1000000)))"

definition text_of_micros :: "int \<Rightarrow> string" where
  "text_of_micros us =
     (let secs = us div 1000000; day = secs div 86400; tod = secs mod 86400;
          (y, m, d) = ord_ymd (EPOCH_ORD + day)
      in padn 4 y @ ''-'' @ padn 2 m @ ''-'' @ padn 2 d @ ''T'' @ padn 2 (tod div 3600) @ '':''
         @ padn 2 (tod mod 3600 div 60) @ '':'' @ padn 2 (tod mod 60) @ ''.''
         @ padn 6 (us mod 1000000) @ ''Z'')"

definition format_ts_utc :: "rat \<Rightarrow> string result" where
  "format_ts_utc t =
     (let us = micros_of t; y = fst (ord_ymd (EPOCH_ORD + us div 86400000000))
      in if 1 \<le> y \<and> y \<le> 9999 then Ok (text_of_micros us) else Err (ValueError ''year is out of range''))"

definition two :: "string \<Rightarrow> nat \<Rightarrow> int option" where
  \<comment> \<open>the two digits at a position\<close>
  "two s i = (let w = take 2 (drop i s) in
     if length w = 2 \<and> list_all is_digit w then Some (int (digits_val w)) else None)"

definition four :: "string \<Rightarrow> int option" where
  "four s = (let w = take 4 s in if length w = 4 \<and> list_all is_digit w then Some (int (digits_val w)) else None)"

definition fraction_micros :: "string \<Rightarrow> int" where
  \<comment> \<open>the fraction's first six digits, padded on the right\<close>
  "fraction_micros ds = int (digits_val (take 6 (ds @ ''000000'')))"

definition parse_offset :: "string \<Rightarrow> int option option" where
  \<comment> \<open>seconds east of UTC; \<open>Some None\<close> when there is no offset at all\<close>
  "parse_offset s =
     (if s = [] then Some None
      else if s = ''Z'' then Some (Some 0)
      else if length s = 6 \<and> s ! 3 = CHR '':'' \<and> (hd s = CHR ''+'' \<or> hd s = CHR ''-'')
      then (case (two s 1, two s 4) of
          (Some h, Some m) \<Rightarrow> (if h \<le> 23 \<and> m \<le> 59
             then Some (Some ((if hd s = CHR ''-'' then - 1 else 1) * (h * 3600 + m * 60))) else None)
        | _ \<Rightarrow> None)
      else None)"

definition parse_date :: "string \<Rightarrow> int option" where
  "parse_date s =
     (if length s = 10 \<and> s ! 4 = CHR ''-'' \<and> s ! 7 = CHR ''-''
      then (case (four s, two s 5, two s 8) of
          (Some y, Some m, Some d) \<Rightarrow>
            (if 1 \<le> y \<and> 1 \<le> m \<and> m \<le> 12 \<and> 1 \<le> d \<and> d \<le> days_in_month y m then Some (ymd_ord y m d) else None)
        | _ \<Rightarrow> None)
      else None)"

definition parse_tod :: "string \<Rightarrow> int option" where
  "parse_tod s =
     (if length s = 8 \<and> s ! 2 = CHR '':'' \<and> s ! 5 = CHR '':''
      then (case (two s 0, two s 3, two s 6) of
          (Some h, Some m, Some c) \<Rightarrow>
            (if h \<le> 23 \<and> m \<le> 59 \<and> c \<le> 59 then Some (h * 3600 + m * 60 + c) else None)
        | _ \<Rightarrow> None)
      else None)"

definition parse_ts_utc :: "string \<Rightarrow> rat result" where
  "parse_ts_utc s =
     (let rest = drop 19 s;
          frac = (if rest \<noteq> [] \<and> hd rest = CHR ''.'' then takeWhile is_digit (tl rest) else []);
          tail = (if rest \<noteq> [] \<and> hd rest = CHR ''.'' then drop (length frac) (tl rest) else rest)
      in case (parse_date (take 10 s), parse_tod (take 8 (drop 11 s)), parse_offset tail) of
          (Some ordinal, Some tod, Some off) \<Rightarrow>
            (if rest \<noteq> [] \<and> hd rest = CHR ''.'' \<and> frac = [] then Err (ValueError ''Invalid isoformat string'')
             else case off of None \<Rightarrow> Err (ValueError ''timestamp has no UTC offset'')
               | Some east \<Rightarrow> Ok (fl (of_int (((ordinal - EPOCH_ORD) * 86400 + tod - east) * 1000000 + fraction_micros frac)
                                 / 1000000)))
        | _ \<Rightarrow> Err (ValueError ''Invalid isoformat string''))"

section \<open>The virtual clock\<close>

text \<open>
  \<open>FixtureClock\<close>: pending timers sorted by \<open>(when, seq)\<close>, as the heap pops them. What a timer does
  when it fires is the caller's callback; the model returns the sequence numbers that fire, with the
  virtual time at which each does.
\<close>

record timer =
  t_when :: rat
  t_seq :: nat
  t_active :: bool

record fixture_clock =
  fc_now :: rat
  fc_timers :: "timer list"
  fc_next :: nat

definition timer_key :: "timer \<Rightarrow> rat \<times> nat" where
  "timer_key t = (t_when t, t_seq t)"

definition timer_before :: "timer \<Rightarrow> timer \<Rightarrow> bool" where
  "timer_before t u \<longleftrightarrow> t_when t < t_when u \<or> (t_when t = t_when u \<and> t_seq t < t_seq u)"

fun insert_timer :: "timer \<Rightarrow> timer list \<Rightarrow> timer list" where
  "insert_timer t [] = [t]"
| "insert_timer t (u # us) = (if timer_before t u then t # u # us else u # insert_timer t us)"

definition schedule :: "rat \<Rightarrow> fixture_clock \<Rightarrow> nat result \<times> fixture_clock" where
  "schedule delay c =
     (if delay < 0 then (Err (ValueError ''delay must be non-negative''), c)
      else (Ok (fc_next c),
            c\<lparr>fc_timers := insert_timer \<lparr>t_when = fl (fc_now c + delay), t_seq = fc_next c, t_active = True\<rparr> (fc_timers c),
              fc_next := Suc (fc_next c)\<rparr>))"

fun due :: "rat \<Rightarrow> timer list \<Rightarrow> (rat \<times> nat) list \<times> timer list" where
  \<comment> \<open>the pops of \<open>advance_to\<close>: what fires, and the timers left\<close>
  "due ts [] = ([], [])"
| "due ts (t # rest) =
     (if t_when t \<le> ts
      then (case due ts rest of (fired, left) \<Rightarrow> ((if t_active t then [timer_key t] else []) @ fired, left))
      else ([], t # rest))"

definition advance_to :: "rat \<Rightarrow> fixture_clock \<Rightarrow> (rat \<times> nat) list result \<times> fixture_clock" where
  "advance_to ts c =
     (if ts < fc_now c then (Err (ValueError ''virtual time cannot move backwards''), c)
      else case due ts (fc_timers c) of (fired, left) \<Rightarrow> (Ok fired, c\<lparr>fc_now := ts, fc_timers := left\<rparr>))"

definition jump :: "rat \<Rightarrow> fixture_clock \<Rightarrow> (rat \<times> nat) list result \<times> fixture_clock" where
  "jump delta c =
     (if delta \<ge> 0 then advance_to (fl (fc_now c + delta)) c
      else (Ok [], c\<lparr>fc_now := fl (fc_now c + delta)\<rparr>))"

definition cancel :: "nat \<Rightarrow> fixture_clock \<Rightarrow> fixture_clock" where
  \<comment> \<open>\<open>timer.active = False\<close>\<close>
  "cancel n c = c\<lparr>fc_timers := map (\<lambda>t. if t_seq t = n then t\<lparr>t_active := False\<rparr> else t) (fc_timers c)\<rparr>"

definition clock_ok :: "fixture_clock \<Rightarrow> bool" where
  "clock_ok c \<longleftrightarrow> sorted_wrt timer_before (fc_timers c) \<and> (\<forall>t \<in> set (fc_timers c). t_seq t < fc_next c)"

lemma timer_before_trans: "timer_before t u \<Longrightarrow> timer_before u v \<Longrightarrow> timer_before t v"
  by (auto simp: timer_before_def)

lemma set_insert_timer: "set (insert_timer t us) = insert t (set us)"
  by (induction us) auto

lemma insert_timer_sorted:
  "sorted_wrt timer_before us \<Longrightarrow> \<forall>u \<in> set us. t_seq u \<noteq> t_seq t \<Longrightarrow> sorted_wrt timer_before (insert_timer t us)"
  by (induction us) (auto simp: set_insert_timer timer_before_def)

lemma due_spec:
  assumes "sorted_wrt timer_before ts" "due now ts = (fired, left)"
  shows "fired = map timer_key (List.filter (\<lambda>t. t_active t \<and> t_when t \<le> now) ts)"
    "left = List.filter (\<lambda>t. \<not> t_when t \<le> now) ts"
  using assms
proof (induction ts arbitrary: fired left)
  case (Cons t ts)
  { case 1
    show ?case
    proof (cases "t_when t \<le> now")
      case True
      then show ?thesis using 1 Cons.IH(1) by (auto split: prod.splits)
    next
      case False
      then have "\<forall>u \<in> set ts. \<not> t_when u \<le> now" using 1 by (auto simp: timer_before_def)
      then show ?thesis using 1 False by (auto simp: filter_empty_conv)
    qed
  next
    case 2
    show ?case
    proof (cases "t_when t \<le> now")
      case True
      then show ?thesis using 2 Cons.IH(2) by (auto split: prod.splits)
    next
      case False
      then have "\<forall>u \<in> set ts. \<not> t_when u \<le> now" using 2 by (auto simp: timer_before_def)
      then show ?thesis using 2 False by (auto simp: filter_id_conv)
    qed
  }
qed auto

lemma sorted_timer_keys: "sorted_wrt timer_before ts \<Longrightarrow> sorted_wrt (<) (map timer_key ts)"
  by (simp add: sorted_wrt_map) (erule sorted_wrt_mono_rel [rotated], auto simp: timer_before_def timer_key_def less_prod_def)

lemma clock_ok_schedule: "clock_ok c \<Longrightarrow> clock_ok (snd (schedule delay c))"
  by (auto simp: schedule_def clock_ok_def set_insert_timer less_Suc_eq intro!: insert_timer_sorted)

lemma clock_ok_advance: "clock_ok c \<Longrightarrow> clock_ok (snd (advance_to ts c))"
proof -
  assume c: "clock_ok c"
  obtain fired left where d: "due ts (fc_timers c) = (fired, left)" by force
  have s: "sorted_wrt timer_before (fc_timers c)" using c by (simp add: clock_ok_def)
  show ?thesis
    using c sorted_wrt_filter [OF s] by (simp add: advance_to_def clock_ok_def d due_spec(2) [OF s d])
qed

lemma clock_ok_cancel: "clock_ok c \<Longrightarrow> clock_ok (cancel n c)"
proof -
  have "sorted_wrt timer_before (map (\<lambda>t. if t_seq t = n then t\<lparr>t_active := False\<rparr> else t) ts)"
    if "sorted_wrt timer_before ts" for ts
    using that by (simp add: sorted_wrt_map) (erule sorted_wrt_mono_rel [rotated], auto simp: timer_before_def)
  then show "clock_ok c \<Longrightarrow> clock_ok (cancel n c)" by (auto simp: clock_ok_def cancel_def)
qed

section \<open>The calendar round trip\<close>

definition month_start :: "bool \<Rightarrow> int \<Rightarrow> int" where
  "month_start leap m = [0, 31, 59, 90, 120, 151, 181, 212, 243, 273, 304, 334] ! nat (m - 1)
     + (if m > 2 \<and> leap then 1 else 0)"

definition month_len :: "bool \<Rightarrow> int \<Rightarrow> int" where
  "month_len leap m = (if m = 2 then (if leap then 29 else 28) else if m \<in> {4, 6, 9, 11} then 30 else 31)"

lemma month_table:
  "list_all (\<lambda>leap. list_all (\<lambda>m. min (32 * m - 18) 365 \<le> month_start leap m + month_len leap m
     \<and> (2 \<le> m \<longrightarrow> month_start leap m = month_start leap (m - 1) + month_len leap (m - 1)
        \<and> month_start leap (m - 1) \<le> 32 * m - 50)) [1, 2, 3, 4, 5, 6, 7, 8, 9, 10, 11, 12 :: int]) [False, True]"
  by code_simp

lemma month_of_day_ok:
  assumes "0 \<le> n" "n < 365" "month_of_day leap n = (m, d)"
  shows "1 \<le> m \<and> m \<le> 12 \<and> 1 \<le> d \<and> d \<le> month_len leap m \<and> month_start leap m + d = n + 1"
proof -
  define m0 where "m0 = (n + 50) div 32"
  have r: "32 * m0 \<le> n + 50" "n + 50 < 32 * m0 + 32" by (simp_all add: m0_def)
  then have m0: "1 \<le> m0" "m0 \<le> 12" using assms by auto
  then have "m0 \<in> set [1, 2, 3, 4, 5, 6, 7, 8, 9, 10, 11, 12 :: int]"
    by (simp only: list.set insert_iff empty_iff) presburger
  moreover have "leap \<in> set [False, True]" by simp
  ultimately have t: "min (32 * m0 - 18) 365 \<le> month_start leap m0 + month_len leap m0"
    "2 \<le> m0 \<longrightarrow> month_start leap m0 = month_start leap (m0 - 1) + month_len leap (m0 - 1)
        \<and> month_start leap (m0 - 1) \<le> 32 * m0 - 50"
    using month_table unfolding list_all_iff by blast+
  have z: "m0 = 1 \<Longrightarrow> month_start leap m0 = 0" by (simp add: month_start_def)
  have "month_of_day leap n = (if month_start leap m0 > n
      then (m0 - 1, n - (month_start leap m0 - month_len leap (m0 - 1)) + 1)
      else (m0, n - month_start leap m0 + 1))"
    by (simp add: month_of_day_def m0_def [symmetric] Let_def month_start_def month_len_def)
  then show ?thesis
    using assms r t z m0 by (cases "m0 = 1") (auto split: if_splits)
qed

definition valid_ymd :: "int \<Rightarrow> int \<Rightarrow> int \<Rightarrow> bool" where
  "valid_ymd y m d \<longleftrightarrow> 1 \<le> y \<and> 1 \<le> m \<and> m \<le> 12 \<and> 1 \<le> d \<and> d \<le> days_in_month y m"

lemma ord_ymd_ordinal:
  assumes "1 \<le> n" "ord_ymd n = (y, m, d)"
  shows "ymd_ord y m d = n \<and> valid_ymd y m d"
proof -
  define a r1 where ar: "a = (n - 1) div 146097" "r1 = (n - 1) mod 146097"
  define b r2 where br: "b = r1 div 36524" "r2 = r1 mod 36524"
  define c r3 where cr: "c = r2 div 1461" "r3 = r2 mod 1461"
  define e r4 where er: "e = r3 div 365" "r4 = r3 mod 365"
  have n: "n - 1 = 146097 * a + 36524 * b + 1461 * c + 365 * e + r4"
    unfolding er cr br ar by simp
  have r1: "0 \<le> r1" "r1 < 146097" "0 \<le> a" using assms(1) by (auto simp: ar pos_imp_zdiv_nonneg_iff)
  have r2: "0 \<le> r2" "r2 < 36524" "0 \<le> b" "b \<le> 4" using r1 by (auto simp: br)
  have r3: "0 \<le> r3" "r3 < 1461" "0 \<le> c" "c \<le> 24" using r2 by (auto simp: cr)
  have r4: "0 \<le> r4" "r4 < 365" "0 \<le> e" "e \<le> 4" using r3 by (auto simp: er)
  have s1: "r1 = 36524 * b + r2" and s2: "r2 = 1461 * c + r3" and s3: "r3 = 365 * e + r4"
    by (simp_all add: br cr er)
  define year where "year = a * 400 + 1 + b * 100 + c * 4 + e"
  have o: "ord_ymd n = (if e = 4 \<or> b = 4 then (year - 1, 12, 31)
      else case month_of_day (e = 3 \<and> (c \<noteq> 24 \<or> b = 3)) r4 of (m, d) \<Rightarrow> (year, m, d))"
    by (simp add: ord_ymd_def Let_def ar br cr er year_def)
  show ?thesis
  proof (cases "e = 4 \<or> b = 4")
    case True
    then have y: "y = year - 1" "m = 12" "d = 31" using o assms(2) by auto
    have "b = 4 \<Longrightarrow> c = 0 \<and> e = 0 \<and> r4 = 0"
    proof -
      assume "b = 4"
      then have "r2 = 0" using s1 r1(2) r2(1) by linarith
      then have "c = 0" "r3 = 0" using s2 r3(1,3) by linarith+
      moreover from this have "e = 0" "r4 = 0" using s3 r4(1,3) by linarith+
      ultimately show ?thesis by blast
    qed
    moreover have "e = 4 \<Longrightarrow> r4 = 0 \<and> c \<le> 23"
    proof -
      assume "e = 4"
      then have "r4 = 0" "r3 = 1460" using s3 r3(2) r4(1) by linarith+
      moreover from this have "c < 24" using s2 r2(2) by linarith
      ultimately show ?thesis by linarith
    qed
    ultimately have k: "(b = 4 \<and> c = 0 \<and> e = 0 \<and> r4 = 0) \<or> (b < 4 \<and> e = 4 \<and> r4 = 0 \<and> c \<le> 23)"
      using True r2 r4 by linarith
    then have leap: "is_leap y"
    proof
      assume "b = 4 \<and> c = 0 \<and> e = 0 \<and> r4 = 0"
      then have "y = 400 * (a + 1)" by (simp add: y year_def)
      then show ?thesis by (simp add: is_leap_def)
    next
      assume h: "b < 4 \<and> e = 4 \<and> r4 = 0 \<and> c \<le> 23"
      then have q: "y = 100 * (4 * a + b) + (4 * c + 4)" by (simp add: y year_def)
      have "y mod 100 = (4 * c + 4) mod 100" unfolding q by (rule mod_mult_self4)
      then have "y mod 100 = 4 * c + 4" using h r3 by (simp add: mod_pos_pos_trivial)
      moreover have "y = 4 * (25 * (4 * a + b) + c + 1)" using q by simp
      ultimately show ?thesis using r3 by (simp add: is_leap_def)
    qed
    have z: "(y - 1) div 4 = 100 * a + 25 * b + c + (if b = 4 then -1 else 0)"
      "(y - 1) div 100 = 4 * a + b + (if b = 4 then -1 else 0)"
      "(y - 1) div 400 = a"
      using k r2 r3 by (auto simp: y year_def)
    have "days_before_year y = 365 * (y - 1) + (y - 1) div 4 - (y - 1) div 100 + (y - 1) div 400"
      by (simp add: days_before_year_def Let_def)
    then have "ymd_ord y m d = n"
      using k n leap z y by (auto simp: ymd_ord_def days_before_month_def year_def)
    then show ?thesis using r1 r2 r3 k y by (auto simp: valid_ymd_def days_in_month_def year_def)
  next
    case False
    then have be: "b \<le> 3" "e \<le> 3" using r2 r4 by auto
    let ?leap = "e = 3 \<and> (c \<noteq> 24 \<or> b = 3)"
    obtain m' d' where md: "month_of_day ?leap r4 = (m', d')" by force
    then have y: "y = year" "m = m'" "d = d'" using False o assms(2) by auto
    have "y = 400 * a + (100 * b + (4 * c + e + 1))" by (simp add: y year_def)
    then have y400: "y mod 400 = 100 * b + (4 * c + e + 1) \<or> (y mod 400 = 0 \<and> b = 3 \<and> c = 24 \<and> e = 3)"
    proof (cases "100 * b + (4 * c + e + 1) = 400")
      case True
      then have "b = 3" "c = 24" "e = 3" using be r3(4) by linarith+
      moreover have "y = 400 * (a + 1)" using \<open>y = 400 * a + (100 * b + (4 * c + e + 1))\<close> True by simp
      ultimately show ?thesis by simp
    next
      case False
      then have "0 \<le> 100 * b + (4 * c + e + 1)" "100 * b + (4 * c + e + 1) < 400"
        using be r2(3) r3(3,4) r4(3) by linarith+
      then have "(100 * b + (4 * c + e + 1)) mod 400 = 100 * b + (4 * c + e + 1)" by (rule mod_pos_pos_trivial)
      moreover have "y mod 400 = (100 * b + (4 * c + e + 1)) mod 400"
        using \<open>y = 400 * a + (100 * b + (4 * c + e + 1))\<close> by (metis mod_mult_self4)
      ultimately show ?thesis by simp
    qed
    have y100: "y = 100 * (4 * a + b) + (4 * c + e + 1)" by (simp add: y year_def)
    have "y mod 100 = (4 * c + e + 1) mod 100" unfolding y100 by (rule mod_mult_self4)
    have y100: "y mod 100 = 0 \<longleftrightarrow> c = 24 \<and> e = 3"
    proof (cases "4 * c + e + 1 = 100")
      case True
      then have "c = 24 \<and> e = 3" using be r3(4) by auto
      with True \<open>y mod 100 = (4 * c + e + 1) mod 100\<close> show ?thesis by simp
    next
      case False
      then have "(4 * c + e + 1) mod 100 = 4 * c + e + 1"
        using be r3(3,4) r4(3) by (intro mod_pos_pos_trivial) auto
      with False \<open>y mod 100 = (4 * c + e + 1) mod 100\<close> show ?thesis using r3(3) r4(3) by auto
    qed
    have "y = 4 * (25 * (4 * a + b) + c) + (e + 1)" by (simp add: y year_def)
    then have "y mod 4 = (e + 1) mod 4" by (metis mod_mult_self4)
    then have y4: "y mod 4 = 0 \<longleftrightarrow> e = 3"
    proof -
      have "e = 0 \<or> e = 1 \<or> e = 2 \<or> e = 3" using be r4(3) by auto
      with \<open>y mod 4 = (e + 1) mod 4\<close> show ?thesis by auto
    qed
    have leap: "is_leap y \<longleftrightarrow> ?leap"
      using y4 y100 y400 be r2(3) r3(3,4) r4(3) by (auto simp: is_leap_def)
    have "1 \<le> m' \<and> m' \<le> 12 \<and> 1 \<le> d' \<and> d' \<le> month_len ?leap m' \<and> month_start ?leap m' + d' = r4 + 1"
      by (rule month_of_day_ok [OF r4(1,2) md])
    then have mo: "1 \<le> m" "m \<le> 12" "1 \<le> d" "d \<le> days_in_month y m"
      "days_before_month y m + d = r4 + 1"
      using leap by (auto simp: y(2,3) days_in_month_def days_before_month_def month_start_def month_len_def)
    have z: "(y - 1) div 4 = 100 * a + 25 * b + c" "(y - 1) div 100 = 4 * a + b" "(y - 1) div 400 = a"
      using be r2(3) r3(3,4) r4(3) by (auto simp: y year_def)
    have "days_before_year y = 365 * (y - 1) + (y - 1) div 4 - (y - 1) div 100 + (y - 1) div 400"
      by (simp add: days_before_year_def Let_def)
    then have "ymd_ord y m d = n"
      using n z mo(5) y by (simp add: ymd_ord_def year_def)
    then show ?thesis using mo r1 r2 r3 r4 y by (auto simp: valid_ymd_def year_def)
  qed
qed

section \<open>The text round trip\<close>

lemma nat_str_length: "n < 10 ^ k \<Longrightarrow> 0 < k \<Longrightarrow> length (nat_str n) \<le> k"
proof (induction k arbitrary: n)
  case (Suc k)
  show ?case
  proof (cases "n < 10")
    case True
    then show ?thesis by (subst nat_str.simps) simp
  next
    case False
    then have "k > 0" using Suc.prems by (cases k) auto
    moreover have "n div 10 < 10 ^ k" using Suc.prems by (simp add: less_mult_imp_div_less mult.commute)
    ultimately have "length (nat_str (n div 10)) \<le> k" using Suc.IH by blast
    then show ?thesis using False by (subst nat_str.simps) simp
  qed
qed simp

lemma digits_val_padded: "digits_val (replicate k CHR ''0'' @ s) = digits_val s"
proof -
  have "foldl (\<lambda>n c. 10 * n + digit_val c) 0 (replicate k CHR ''0'') = 0"
    by (induction k) (simp_all add: digit_val_def)
  then show ?thesis by (simp add: digits_val_def)
qed

lemma padn_props:
  assumes "0 \<le> n" "n < 10 ^ k" "0 < k"
  shows "length (padn k n) = k" "list_all is_digit (padn k n)" "digits_val (padn k n) = nat n"
proof -
  have "nat n < 10 ^ k" using assms(1,2) by (simp add: nat_less_iff)
  then show "length (padn k n) = k" using nat_str_length assms(3) by (simp add: padn_def Let_def)
  show "list_all is_digit (padn k n)" "digits_val (padn k n) = nat n"
    using nat_str_digits [of "nat n"] by (auto simp: padn_def Let_def digits_val_padded list_all_iff is_digit_def)
qed

lemma ord_ymd_positive:
  assumes "ord_ymd n = (y, m, d)" "1 \<le> y"
  shows "1 \<le> n"
proof (rule ccontr)
  assume "\<not> 1 \<le> n"
  define a r1 where ar: "a = (n - 1) div 146097" "r1 = (n - 1) mod 146097"
  define b r2 where br: "b = r1 div 36524" "r2 = r1 mod 36524"
  define c r3 where cr: "c = r2 div 1461" "r3 = r2 mod 1461"
  define e where er: "e = r3 div 365"
  have a: "a \<le> - 1" using \<open>\<not> 1 \<le> n\<close> by (simp add: ar pos_zdiv_mult_2 div_neg_pos_less0 flip: zle_diff1_eq)
  have r1: "0 \<le> r1" "r1 < 146097" by (simp_all add: ar)
  have r2: "0 \<le> r2" "r2 < 36524" "b \<le> 4" "r1 = 36524 * b + r2" using r1 by (auto simp: br)
  have r3: "0 \<le> r3" "r3 < 1461" "0 \<le> c" "c \<le> 24" "r2 = 1461 * c + r3" using r2 by (auto simp: cr)
  have e: "0 \<le> e" "e \<le> 4" using r3 by (auto simp: er)
  have o: "ord_ymd n = (if e = 4 \<or> b = 4 then (a * 400 + 1 + b * 100 + c * 4 + e - 1, 12, 31)
      else case month_of_day (e = 3 \<and> (c \<noteq> 24 \<or> b = 3)) (r3 mod 365) of (m, d) \<Rightarrow> (a * 400 + 1 + b * 100 + c * 4 + e, m, d))"
    by (simp add: ord_ymd_def Let_def ar br cr er)
  have "y \<le> 400 * (a + 1)"
  proof (cases "b = 4")
    case True
    then have "r2 = 0" using r1(2) r2(1,4) by linarith
    then have "c = 0" "r3 = 0" using r3(1,3,5) by linarith+
    then have "e = 0" by (simp add: er)
    with True \<open>c = 0\<close> show ?thesis using o assms(1) by simp
  next
    case False
    then have "b \<le> 3" using r2(3) by linarith
    then show ?thesis using o assms(1) False r3(4) e by (auto split: if_splits prod.splits)
  qed
  moreover have "400 * (a + 1) \<le> 0" using a by simp
  ultimately have "y \<le> 0" by (rule order_trans)
  with assms(2) show False by simp
qed

lemma two_digits: "list_all is_digit [x, y] \<Longrightarrow> two (p @ x # y # q) (length p) = Some (int (digits_val [x, y]))"
  by (simp add: two_def)

lemma length_2: "length xs = 2 \<Longrightarrow> \<exists>a b. xs = [a, b]"
  by (auto simp: numeral_2_eq_2 length_Suc_conv)

lemma length_4: "length xs = 4 \<Longrightarrow> \<exists>a b c d. xs = [a, b, c, d]"
  by (auto simp: numeral_eq_Suc length_Suc_conv)

lemma parse_date_padn:
  assumes "valid_ymd y m d" "y \<le> 9999"
  shows "parse_date (padn 4 y @ ''-'' @ padn 2 m @ ''-'' @ padn 2 d) = Some (ymd_ord y m d)"
proof -
  have d31: "d \<le> 31" using assms(1) by (auto simp: valid_ymd_def days_in_month_def split: if_splits)
  note b = assms(1) [unfolded valid_ymd_def]
  note py = padn_props [of y 4] and pm = padn_props [of m 2] and pd = padn_props [of d 2]
  obtain y1 y2 y3 y4 where y: "padn 4 y = [y1, y2, y3, y4]" using length_4 py(1) b assms(2) by fastforce
  obtain m1 m2 where m: "padn 2 m = [m1, m2]" using length_2 pm(1) b by fastforce
  obtain d1 d2 where d: "padn 2 d = [d1, d2]" using length_2 pd(1) b d31 by fastforce
  have v: "digits_val [y1, y2, y3, y4] = nat y" "digits_val [m1, m2] = nat m" "digits_val [d1, d2] = nat d"
    "list_all is_digit [y1, y2, y3, y4]" "list_all is_digit [m1, m2]" "list_all is_digit [d1, d2]"
    using py(2,3) pm(2,3) pd(2,3) b assms(2) d31 unfolding y m d by simp_all
  then have "four [y1, y2, y3, y4, CHR ''-'', m1, m2, CHR ''-'', d1, d2] = Some y"
    "two [y1, y2, y3, y4, CHR ''-'', m1, m2, CHR ''-'', d1, d2] 5 = Some m"
    "two [y1, y2, y3, y4, CHR ''-'', m1, m2, CHR ''-'', d1, d2] 8 = Some d"
    using b by (simp_all add: four_def two_def)
  then show ?thesis using b by (simp add: parse_date_def y m d)
qed

lemma parse_tod_padn:
  assumes "0 \<le> h" "h \<le> 23" "0 \<le> m" "m \<le> 59" "0 \<le> c" "c \<le> 59"
  shows "parse_tod (padn 2 h @ '':'' @ padn 2 m @ '':'' @ padn 2 c) = Some (h * 3600 + m * 60 + c)"
proof -
  note ph = padn_props [of h 2] and pm = padn_props [of m 2] and pc = padn_props [of c 2]
  obtain h1 h2 where h: "padn 2 h = [h1, h2]" using length_2 ph(1) assms by fastforce
  obtain m1 m2 where m: "padn 2 m = [m1, m2]" using length_2 pm(1) assms by fastforce
  obtain c1 c2 where c: "padn 2 c = [c1, c2]" using length_2 pc(1) assms by fastforce
  have v: "digits_val [h1, h2] = nat h" "digits_val [m1, m2] = nat m" "digits_val [c1, c2] = nat c"
    "list_all is_digit [h1, h2]" "list_all is_digit [m1, m2]" "list_all is_digit [c1, c2]"
    using ph(2,3) pm(2,3) pc(2,3) assms unfolding h m c by simp_all
  then have "two [h1, h2, CHR '':'', m1, m2, CHR '':'', c1, c2] 0 = Some h"
    "two [h1, h2, CHR '':'', m1, m2, CHR '':'', c1, c2] 3 = Some m"
    "two [h1, h2, CHR '':'', m1, m2, CHR '':'', c1, c2] 6 = Some c"
    using assms by (simp_all add: two_def)
  then show ?thesis using assms by (simp add: parse_tod_def h m c)
qed

lemma padn_take:
  assumes "0 \<le> n" "n < 1000000"
  shows "takeWhile is_digit (padn 6 n @ ''Z'') = padn 6 n" "fraction_micros (padn 6 n) = n"
proof -
  have p: "length (padn 6 n) = 6" "list_all is_digit (padn 6 n)" "digits_val (padn 6 n) = nat n"
    using padn_props [of n 6] assms by simp_all
  have "\<not> is_digit CHR ''Z''" by (simp add: is_digit_def)
  with p(2) show "takeWhile is_digit (padn 6 n @ ''Z'') = padn 6 n"
    by (simp add: list_all_iff takeWhile_append2)
  show "fraction_micros (padn 6 n) = n" using p assms(1) by (simp add: fraction_micros_def)
qed

lemma parse_ts_parts:
  assumes "parse_date (take 10 s) = Some ordinal" "parse_tod (take 8 (drop 11 s)) = Some tod"
    and "drop 19 s = CHR ''.'' # f @ ''Z''" "takeWhile is_digit (f @ ''Z'') = f" "f \<noteq> []"
  shows "parse_ts_utc s = Ok (fl (of_int (((ordinal - EPOCH_ORD) * 86400 + tod - 0) * 1000000 + fraction_micros f) / 1000000))"
  using assms by (simp add: parse_ts_utc_def Let_def parse_offset_def)

lemma parse_text_of_micros:
  assumes "1 \<le> fst (ord_ymd (EPOCH_ORD + us div 86400000000))" "fst (ord_ymd (EPOCH_ORD + us div 86400000000)) \<le> 9999"
  shows "parse_ts_utc (text_of_micros us) = Ok (fl (of_int us / 1000000)) \<and> length (text_of_micros us) = 27"
proof -
  define day tod where dt: "day = us div 1000000 div 86400" "tod = us div 1000000 mod 86400"
  obtain y m d where ymd: "ord_ymd (EPOCH_ORD + day) = (y, m, d)" by (metis prod_cases3)
  have day: "us div 86400000000 = day" by (simp add: dt zdiv_zmult2_eq [symmetric])
  have y: "1 \<le> y" "y \<le> 9999" using assms ymd by (simp_all add: day)
  have valid: "ymd_ord y m d = EPOCH_ORD + day" "valid_ymd y m d"
    using ord_ymd_ordinal [OF ord_ymd_positive [OF ymd y(1)] ymd] by simp_all
  let ?D = "padn 4 y @ ''-'' @ padn 2 m @ ''-'' @ padn 2 d"
  let ?T = "padn 2 (tod div 3600) @ '':'' @ padn 2 (tod mod 3600 div 60) @ '':'' @ padn 2 (tod mod 60)"
  let ?f = "us mod 1000000"
  have s: "text_of_micros us = ?D @ CHR ''T'' # ?T @ CHR ''.'' # padn 6 ?f @ ''Z''"
    using ymd by (simp add: text_of_micros_def Let_def dt)
  have t: "0 \<le> tod" "tod < 86400" by (simp_all add: dt)
  have b: "m \<le> 12" "d \<le> 31" "1 \<le> m" "1 \<le> d"
    using valid(2) by (auto simp: valid_ymd_def days_in_month_def split: if_splits)
  have tb: "0 \<le> tod div 3600" "tod div 3600 \<le> 23" "0 \<le> tod mod 3600 div 60" "tod mod 3600 div 60 \<le> 59"
    "0 \<le> tod mod 60" "tod mod 60 \<le> 59"
    using t by (auto simp: pos_imp_zdiv_nonneg_iff)
  have l2: "length (padn 2 h) = 2" if "0 \<le> h" "h \<le> 59" for h
    by (rule padn_props(1)) (use that in auto)
  have l4: "length (padn 4 y) = 4" by (rule padn_props(1)) (use y in auto)
  have lT: "length (padn 2 (tod div 3600)) = 2" "length (padn 2 (tod mod 3600 div 60)) = 2"
    "length (padn 2 (tod mod 60)) = 2"
    by (rule l2, use tb in linarith, use tb in linarith)+
  have lD: "length (padn 2 m) = 2" "length (padn 2 d) = 2"
    by (rule l2, use b in linarith, use b in linarith)+
  have len: "length ?D = 10" "length ?T = 8"
    by (simp_all only: length_append l4 lT lD list.size)
  have parts: "take 10 (text_of_micros us) = ?D" "take 8 (drop 11 (text_of_micros us)) = ?T"
    "drop 19 (text_of_micros us) = CHR ''.'' # padn 6 ?f @ ''Z''"
  proof -
    have g: "take 10 (D @ c # T @ R) = D \<and> take 8 (drop 11 (D @ c # T @ R)) = T \<and> drop 19 (D @ c # T @ R) = R"
      if "length D = 10" "length T = 8" for D T R :: string and c
      using that by simp
    show "take 10 (text_of_micros us) = ?D" "take 8 (drop 11 (text_of_micros us)) = ?T"
      "drop 19 (text_of_micros us) = CHR ''.'' # padn 6 ?f @ ''Z''"
      unfolding s using g [OF len] by blast+
  qed
  have tod: "tod div 3600 * 3600 + tod mod 3600 div 60 * 60 + tod mod 60 = tod"
  proof -
    have "tod mod 3600 mod 60 = tod mod 60" by (simp add: mod_mod_cancel)
    then show ?thesis using div_mult_mod_eq [of tod 3600] div_mult_mod_eq [of "tod mod 3600" 60] by linarith
  qed
  have f: "takeWhile is_digit (padn 6 ?f @ ''Z'') = padn 6 ?f" "fraction_micros (padn 6 ?f) = ?f" "length (padn 6 ?f) = 6"
    using padn_take [of ?f] padn_props(1) [of ?f 6] by simp_all
  have total: "((EPOCH_ORD + day - EPOCH_ORD) * 86400 + tod - 0) * 1000000 + ?f = us"
    using div_mult_mod_eq [of us 1000000] div_mult_mod_eq [of "us div 1000000" 86400] by (simp add: dt)
  have "padn 6 ?f \<noteq> []" using f(3) by auto
  have "parse_date ?D = Some (EPOCH_ORD + day)" using parse_date_padn [OF valid(2) y(2)] valid(1) by simp
  moreover have "parse_tod ?T = Some tod" using parse_tod_padn [OF tb] tod by simp
  ultimately have "parse_ts_utc (text_of_micros us)
      = Ok (fl (of_int (((EPOCH_ORD + day - EPOCH_ORD) * 86400 + tod - 0) * 1000000 + fraction_micros (padn 6 ?f)) / 1000000))"
    by (intro parse_ts_parts) (simp_all only: parts f \<open>padn 6 ?f \<noteq> []\<close> not_False_eq_True)
  moreover have "length (text_of_micros us) = 27"
    unfolding s by (simp only: length_append list.size len [unfolded length_append] f(3) l4 lD lT)
  ultimately show ?thesis by (simp only: f(2) total)
qed

section \<open>Properties\<close>

text \<open>
  C33: ledger timestamps round trip. Whenever an epoch time renders to a ledger timestamp (its year is
  1 to 9999), reading the text back gives the float of that time rounded to whole microseconds, and the
  text is 27 characters long, so slicing off its day and comparing texts is sound.
\<close>

theorem timestamps_roundtrip:
  assumes "format_ts_utc t = Ok s"
  shows "parse_ts_utc s = Ok (fl (of_int (micros_of t) / 1000000)) \<and> length s = 27"
  using assms parse_text_of_micros [of "micros_of t"] by (auto simp: format_ts_utc_def Let_def split: if_splits)

theorem timestamps_roundtrip_witness:
  "format_ts_utc 1767225600 = Ok ''2026-01-01T00:00:00.000000Z''
   \<and> parse_ts_utc ''2026-01-01T00:00:00.000000Z'' = Ok (fl (of_int (micros_of 1767225600) / 1000000))"
proof -
  have "format_ts_utc 1767225600 = Ok ''2026-01-01T00:00:00.000000Z''" by code_simp
  with timestamps_roundtrip [OF this] show ?thesis by blast
qed

text \<open>
  C34: the virtual clock fires timers in order, once, and only when due. On a clock reached by scheduling,
  cancelling and advancing, moving time forward fires exactly the active timers whose deadline has come,
  in increasing order of deadline and then of scheduling; it keeps the others and never fires a
  cancelled one.
\<close>

theorem virtual_time_fires_in_order:
  assumes "clock_ok c" "advance_to ts c = (Ok fired, c')"
  shows "clock_ok c' \<and> fc_now c' = ts \<and> sorted_wrt (<) fired
    \<and> set fired = {timer_key t | t. t \<in> set (fc_timers c) \<and> t_active t \<and> t_when t \<le> ts}
    \<and> set (fc_timers c') = {t \<in> set (fc_timers c). ts < t_when t}"
proof -
  obtain left where d: "due ts (fc_timers c) = (fired, left)" "c' = c\<lparr>fc_now := ts, fc_timers := left\<rparr>"
    using assms(2) by (auto simp: advance_to_def split: if_splits prod.splits)
  have s: "sorted_wrt timer_before (fc_timers c)" using assms(1) by (simp add: clock_ok_def)
  have "sorted_wrt (<) fired"
    unfolding due_spec(1) [OF s d(1)] by (rule sorted_timer_keys) (rule sorted_wrt_filter [OF s])
  moreover have "clock_ok c'" using clock_ok_advance [OF assms(1), of ts] assms(2) by simp
  ultimately show ?thesis using due_spec [OF s d(1)] d(2) by (auto simp: not_le)
qed

theorem virtual_time_fires_in_order_witness:
  "\<exists>c c'. advance_to 5 c = (Ok [(2, 1), (5, 0)], c') \<and> clock_ok c' \<and> fc_now c' = 5"
proof -
  let ?c = "snd (schedule 2 (snd (schedule 5 \<lparr>fc_now = 0, fc_timers = [], fc_next = 0\<rparr>)))"
  have ok: "clock_ok ?c" by (intro clock_ok_schedule) (simp add: clock_ok_def)
  have "fst (advance_to 5 ?c) = Ok [(2, 1), (5, 0)]" by code_simp
  then obtain c' where a: "advance_to 5 ?c = (Ok [(2, 1), (5, 0)], c')" by (metis prod.collapse)
  show ?thesis using virtual_time_fires_in_order [OF ok a] a by blast
qed

end
