(* ===== verification/Breakers.thy ===== *)
theory Breakers
  imports Clock LedgerReads
begin

text \<open>
  The risk breakers (\<open>risk/breakers.py\<close>): the consecutive-failure breaker with cooldown, half-open
  probe and hysteresis, its three domain subclasses (a record holding the base breaker and the
  subclass's own fields), and the set that persists their transitions as ledger rows. The clock reading
  of an operation is its argument \<open>now\<close>; a property that updates the object when it is read
  (\<open>is_open\<close>, \<open>state\<close>) returns the new object. \<open>H\<close> is SHA-256.
\<close>

section \<open>The base breaker\<close>

record breaker =
  bk_threshold :: int
  bk_cooldown :: rat
  bk_reset_after_ok :: int
  bk_failures :: int
  bk_successes :: int
  bk_opened_at :: "rat option"
  bk_half_open :: bool
  bk_inflight :: bool
  bk_trips :: int

definition new_breaker :: "int \<Rightarrow> rat \<Rightarrow> int \<Rightarrow> breaker" where
  "new_breaker failures cooldown reset_after_ok =
     \<lparr>bk_threshold = max 1 failures, bk_cooldown = max 0 cooldown, bk_reset_after_ok = max 1 reset_after_ok,
      bk_failures = 0, bk_successes = 0, bk_opened_at = None, bk_half_open = False, bk_inflight = False,
      bk_trips = 0\<rparr>"

definition elapsed :: "rat \<Rightarrow> rat \<Rightarrow> rat" where
  "elapsed now t = fl (now - t)"

definition is_open :: "rat \<Rightarrow> breaker \<Rightarrow> bool \<times> breaker" where
  "is_open now b = (case bk_opened_at b of None \<Rightarrow> (False, b)
     | Some t \<Rightarrow> if elapsed now t \<ge> bk_cooldown b
         then (False, b\<lparr>bk_opened_at := None, bk_half_open := True, bk_failures := bk_threshold b - 1, bk_successes := 0\<rparr>)
         else (True, b))"

definition bk_state :: "rat \<Rightarrow> breaker \<Rightarrow> string \<times> breaker" where
  "bk_state now b = (case is_open now b of (opn, b') \<Rightarrow>
     (if opn then ''open'' else if bk_failures b' \<noteq> 0 then ''half-open'' else ''closed'', b'))"

definition remaining_cooldown :: "rat \<Rightarrow> breaker \<Rightarrow> rat" where
  "remaining_cooldown now b = (case bk_opened_at b of None \<Rightarrow> 0
     | Some t \<Rightarrow> max 0 (fl (bk_cooldown b - elapsed now t)))"

definition trip :: "rat \<Rightarrow> breaker \<Rightarrow> breaker" where
  "trip t b = b\<lparr>bk_opened_at := Some t, bk_trips := bk_trips b + 1, bk_half_open := False,
     bk_failures := bk_threshold b, bk_successes := 0\<rparr>"

definition record_success :: "breaker \<Rightarrow> breaker" where
  "record_success b =
     (if bk_successes b + 1 \<ge> bk_reset_after_ok b
      then b\<lparr>bk_failures := 0, bk_successes := 0, bk_opened_at := None, bk_half_open := False\<rparr>
      else b\<lparr>bk_successes := bk_successes b + 1\<rparr>)"

definition record_failure :: "rat \<Rightarrow> breaker \<Rightarrow> breaker" where
  "record_failure now b = (let b' = b\<lparr>bk_failures := bk_failures b + 1, bk_successes := 0\<rparr> in
     if bk_failures b' \<ge> bk_threshold b \<and> bk_opened_at b = None then trip now b' else b')"

definition bk_admit_probe :: "rat \<Rightarrow> breaker \<Rightarrow> bool \<times> breaker" where
  "bk_admit_probe now b = (case is_open now b of (opn, b') \<Rightarrow>
     if opn then (False, b')
     else if \<not> bk_half_open b' \<or> bk_inflight b' then (False, b')
     else (True, b'\<lparr>bk_inflight := True\<rparr>))"

definition bk_resolve_probe :: "rat \<Rightarrow> bool \<Rightarrow> breaker \<Rightarrow> unit result \<times> breaker" where
  "bk_resolve_probe now ok b =
     (if \<not> bk_inflight b then (Err (ValueError ''no probe inflight to resolve''), b)
      else let b' = b\<lparr>bk_inflight := False\<rparr> in
        (Ok (), if ok then record_success b'
                else b'\<lparr>bk_failures := bk_threshold b, bk_successes := 0, bk_opened_at := Some now,
                       bk_trips := bk_trips b + 1\<rparr>))"

section \<open>The domain breakers\<close>

record stale_breaker =
  ds_base :: breaker
  ds_stale_s :: rat
  ds_max_misses :: int
  ds_fresh_window :: rat
  ds_last_tick :: "rat option"
  ds_misses :: int
  ds_prev_tick :: "rat option"

definition new_stale :: stale_breaker where
  "new_stale = \<lparr>ds_base = new_breaker 3 60 3, ds_stale_s = 120, ds_max_misses = 3, ds_fresh_window = 30,
     ds_last_tick = None, ds_misses = 0, ds_prev_tick = None\<rparr>"

definition stale_note_tick :: "rat \<Rightarrow> stale_breaker \<Rightarrow> stale_breaker" where
  "stale_note_tick ts d =
     (let base = (case ds_prev_tick d of Some p \<Rightarrow> if fl (ts - p) > ds_fresh_window d
                    then (ds_base d)\<lparr>bk_successes := 0\<rparr> else ds_base d
                  | None \<Rightarrow> ds_base d)
      in d\<lparr>ds_prev_tick := Some ts, ds_last_tick := Some ts, ds_misses := 0, ds_base := record_success base\<rparr>)"

definition stale_note_miss :: "rat \<Rightarrow> stale_breaker \<Rightarrow> stale_breaker" where
  "stale_note_miss now d =
     (let d1 = d\<lparr>ds_misses := ds_misses d + 1\<rparr> in
      if ds_misses d1 \<ge> ds_max_misses d1
      then (case is_open now (ds_base d1) of (opn, b) \<Rightarrow>
              if opn then d1\<lparr>ds_base := b\<rparr> else d1\<lparr>ds_base := trip now b\<rparr>)
      else d1)"

definition stale_evaluate :: "rat \<Rightarrow> stale_breaker \<Rightarrow> string \<times> stale_breaker" where
  "stale_evaluate now d = (case is_open now (ds_base d) of (opn, b) \<Rightarrow>
     let b1 = (if opn \<or> bk_half_open b then b
               else case ds_last_tick d of
                  Some t \<Rightarrow> if elapsed now t \<ge> ds_stale_s d then trip now b else b
                | None \<Rightarrow> b);
         (st, b2) = bk_state now b1
     in (st, d\<lparr>ds_base := b2\<rparr>))"

record loss_breaker =
  lv_base :: breaker
  lv_fraction :: rat
  lv_window :: rat
  lv_reset_window :: rat
  lv_reset_fraction :: rat
  lv_points :: "(rat \<times> int) list"

definition new_loss :: loss_breaker where
  "new_loss = \<lparr>lv_base = new_breaker 1 1800 1, lv_fraction = fl (2 / 100), lv_window = 900, lv_reset_window = 300,
     lv_reset_fraction = fl (5 / 1000), lv_points = []\<rparr>"

fun prune_points :: "rat \<Rightarrow> (rat \<times> int) list \<Rightarrow> (rat \<times> int) list" where
  "prune_points horizon (p # q # ps) = (if fst p < horizon then prune_points horizon (q # ps) else p # q # ps)"
| "prune_points horizon ps = ps"

definition loss_note_equity :: "rat \<Rightarrow> int \<Rightarrow> loss_breaker \<Rightarrow> loss_breaker" where
  "loss_note_equity ts eq0 l =
     l\<lparr>lv_points := prune_points (fl (ts - max (lv_window l) (lv_reset_window l))) (lv_points l @ [(ts, eq0)])\<rparr>"

definition window_loss :: "rat \<Rightarrow> rat \<Rightarrow> loss_breaker \<Rightarrow> rat option" where
  "window_loss now w l =
     (let inw = List.filter (\<lambda>(ts, e). ts \<ge> fl (now - w)) (lv_points l) in
      if length inw < 2 then None
      else let old = snd (hd inw); new = snd (last inw) in
        if old \<le> 0 then None else Some (fl (of_int (old - new) / of_int old)))"

definition loss_evaluate :: "rat \<Rightarrow> loss_breaker \<Rightarrow> string \<times> loss_breaker" where
  "loss_evaluate now l = (case is_open now (lv_base l) of (opn, b) \<Rightarrow>
     let b1 = (if opn \<or> bk_half_open b
               then (case window_loss now (lv_reset_window l) l of
                       Some x \<Rightarrow> if x < lv_reset_fraction l then record_success b else b
                     | None \<Rightarrow> b)
               else (case window_loss now (lv_window l) l of
                       Some x \<Rightarrow> if x \<ge> lv_fraction l then trip now b else b
                     | None \<Rightarrow> b));
         (st, b2) = bk_state now b1
     in (st, l\<lparr>lv_base := b2\<rparr>))"

record exec_breaker =
  ex_base :: breaker
  ex_max_rejects :: nat
  ex_window :: rat
  ex_rejects :: "rat list"

definition new_exec :: exec_breaker where
  "new_exec = \<lparr>ex_base = new_breaker 3 900 1, ex_max_rejects = 3, ex_window = 600, ex_rejects = []\<rparr>"

definition EXEC_ERROR_REASONS :: "string list" where
  "EXEC_ERROR_REASONS = [''tx_dropped'', ''slippage_exceeded'', ''quote_unavailable'', ''rpc_error'']"

definition exec_note_reject :: "rat \<Rightarrow> rat \<Rightarrow> string \<Rightarrow> exec_breaker \<Rightarrow> exec_breaker" where
  "exec_note_reject now ts reason x =
     (if reason \<notin> set EXEC_ERROR_REASONS then x
      else let x1 = x\<lparr>ex_rejects := dropWhile (\<lambda>t. t < fl (ts - ex_window x)) (ex_rejects x @ [ts])\<rparr> in
        if length (ex_rejects x1) \<ge> ex_max_rejects x1
        then (case is_open now (ex_base x1) of (opn, b) \<Rightarrow>
                if opn then x1\<lparr>ex_base := b\<rparr> else x1\<lparr>ex_base := trip ts b\<rparr>)
        else x1)"

section \<open>The set and its ledger rows\<close>

record breaker_set =
  bs_stale :: stale_breaker
  bs_loss :: loss_breaker
  bs_exec :: exec_breaker
  bs_store :: store

definition new_breaker_set :: "store \<Rightarrow> breaker_set" where
  "new_breaker_set st = \<lparr>bs_stale = new_stale, bs_loss = new_loss, bs_exec = new_exec, bs_store = st\<rparr>"

definition BREAKER_NAMES :: "string list" where
  "BREAKER_NAMES = [''data_stale'', ''loss_velocity'', ''exec_errors'']"

definition THRESHOLDS :: "string \<Rightarrow> string" where
  "THRESHOLDS name = (if name = ''data_stale'' then ''120s-silence-or-3-misses''
     else if name = ''loss_velocity'' then ''2pct-over-15min'' else ''3-rejects-in-10min'')"

definition by_name :: "string \<Rightarrow> breaker_set \<Rightarrow> breaker result" where
  "by_name name s = (if name = ''data_stale'' then Ok (ds_base (bs_stale s))
     else if name = ''loss_velocity'' then Ok (lv_base (bs_loss s))
     else if name = ''exec_errors'' then Ok (ex_base (bs_exec s))
     else Err (KeyError ''unknown breaker''))"

definition put_name :: "string \<Rightarrow> breaker \<Rightarrow> breaker_set \<Rightarrow> breaker_set" where
  "put_name name b s = (if name = ''data_stale'' then s\<lparr>bs_stale := (bs_stale s)\<lparr>ds_base := b\<rparr>\<rparr>
     else if name = ''loss_velocity'' then s\<lparr>bs_loss := (bs_loss s)\<lparr>lv_base := b\<rparr>\<rparr>
     else if name = ''exec_errors'' then s\<lparr>bs_exec := (bs_exec s)\<lparr>ex_base := b\<rparr>\<rparr>
     else s)"

definition on_breaker :: "string \<Rightarrow> (breaker \<Rightarrow> 'a \<times> breaker) \<Rightarrow> (breaker_set, 'a) eff" where
  \<comment> \<open>run a method of the named breaker\<close>
  "on_breaker name f s = (case by_name name s of Inl e \<Rightarrow> (Err e, s)
     | Inr b \<Rightarrow> (case f b of (r, b') \<Rightarrow> (Ok r, put_name name b' s)))"

definition breaker_trip_key :: "(string \<Rightarrow> string) \<Rightarrow> string \<Rightarrow> int \<Rightarrow> string" where
  "breaker_trip_key H name n = H (''BreakerTripped|'' @ name @ ''|'' @ int_str n)"

definition breaker_reset_key :: "(string \<Rightarrow> string) \<Rightarrow> string \<Rightarrow> int \<Rightarrow> string" where
  "breaker_reset_key H name n = H (''BreakerReset|'' @ name @ ''|'' @ int_str n)"

definition names_breaker :: "string \<Rightarrow> event \<Rightarrow> bool result" where
  "names_breaker name e = (case e_payload e of
       JObj kvs \<Rightarrow> rbind (row_str kvs ''breaker'' []) (\<lambda>n. Ok (n = name)) | _ \<Rightarrow> Ok False)"

definition occurrence :: "string \<Rightarrow> string \<Rightarrow> store \<Rightarrow> int result" where
  "occurrence ty name st = rbind (read st 0 [ty] None None None) (\<lambda>es.
     rbind (rmap (names_breaker name) es) (\<lambda>bs. Ok (int (length (List.filter id bs)) + 1)))"

definition bs_append :: "(string \<Rightarrow> string) \<Rightarrow> entry \<Rightarrow> (breaker_set, unit) eff" where
  "bs_append H x s = (case append H (bs_store s) x of (r, st') \<Rightarrow>
     (rbind r (\<lambda>_. Ok ()), s\<lparr>bs_store := st'\<rparr>))"

definition trip_entry :: "(string \<Rightarrow> string) \<Rightarrow> string \<Rightarrow> int \<Rightarrow> int \<Rightarrow> string \<Rightarrow> string \<Rightarrow> string \<Rightarrow> entry" where
  "trip_entry H name n cooldown ts source cid =
     \<lparr>x_ts = ts, x_source = source, x_cid = cid, x_key = breaker_trip_key H name n, x_type = ''BreakerTripped'',
      x_payload = [(''source'', PStr source), (''breaker'', PStr name), (''metric'', PStr name),
        (''threshold'', PStr (THRESHOLDS name)), (''cooldown_s'', PInt cooldown)]\<rparr>"

definition reset_entry :: "(string \<Rightarrow> string) \<Rightarrow> string \<Rightarrow> int \<Rightarrow> bool \<Rightarrow> string \<Rightarrow> string \<Rightarrow> string \<Rightarrow> entry" where
  "reset_entry H name n probe_ok ts source cid =
     \<lparr>x_ts = ts, x_source = source, x_cid = cid, x_key = breaker_reset_key H name n, x_type = ''BreakerReset'',
      x_payload = [(''source'', PStr source), (''breaker'', PStr name), (''after_s'', PInt 0),
        (''probe_ok'', PBool probe_ok)]\<rparr>"

definition append_trip :: "(string \<Rightarrow> string) \<Rightarrow> string \<Rightarrow> string \<Rightarrow> string \<Rightarrow> string \<Rightarrow> (breaker_set, unit) eff" where
  "append_trip H name ts source cid = bind get (\<lambda>s. bind (lift (by_name name s)) (\<lambda>b.
     suppressing is_integrity (bind (lift (occurrence ''BreakerTripped'' name (bs_store s))) (\<lambda>n.
       bs_append H (trip_entry H name n \<lfloor>bk_cooldown b\<rfloor> ts source cid)))))"

definition append_reset :: "(string \<Rightarrow> string) \<Rightarrow> string \<Rightarrow> bool \<Rightarrow> string \<Rightarrow> string \<Rightarrow> string \<Rightarrow> (breaker_set, unit) eff" where
  "append_reset H name probe_ok ts source cid = bind get (\<lambda>s.
     suppressing is_integrity (bind (lift (occurrence ''BreakerReset'' name (bs_store s))) (\<lambda>n.
       bs_append H (reset_entry H name n probe_ok ts source cid))))"

definition transition :: "(string \<Rightarrow> string) \<Rightarrow> rat \<Rightarrow> string \<Rightarrow> string \<Rightarrow> bool \<Rightarrow> string \<Rightarrow> string \<Rightarrow> string
    \<Rightarrow> (breaker_set, unit) eff" where
  "transition H now name before probe_ok ts source cid = bind (on_breaker name (bk_state now)) (\<lambda>after.
     if after = before then ret ()
     else if after = ''open'' then append_trip H name ts source cid
     else if after = ''closed'' then append_reset H name probe_ok ts source cid
     else ret ())"

definition note_tick :: "(string \<Rightarrow> string) \<Rightarrow> rat \<Rightarrow> rat \<Rightarrow> string \<Rightarrow> string \<Rightarrow> string \<Rightarrow> (breaker_set, unit) eff" where
  "note_tick H now tick ts source cid = bind (on_breaker ''data_stale'' (bk_state now)) (\<lambda>before.
     bind (modify (\<lambda>s. s\<lparr>bs_stale := stale_note_tick tick (bs_stale s)\<rparr>)) (\<lambda>_.
     transition H now ''data_stale'' before False ts source cid))"

definition note_miss :: "(string \<Rightarrow> string) \<Rightarrow> rat \<Rightarrow> string \<Rightarrow> string \<Rightarrow> string \<Rightarrow> (breaker_set, unit) eff" where
  "note_miss H now ts source cid = bind (on_breaker ''data_stale'' (bk_state now)) (\<lambda>before.
     bind (modify (\<lambda>s. s\<lparr>bs_stale := stale_note_miss now (bs_stale s)\<rparr>)) (\<lambda>_.
     transition H now ''data_stale'' before False ts source cid))"

section \<open>Openness from the ledger\<close>

definition open_since_step :: "(string, rat) dict \<Rightarrow> event \<Rightarrow> (string, rat) dict result" where
  "open_since_step d e = (case e_payload e of
       JObj kvs \<Rightarrow> rbind (row_str kvs ''breaker'' []) (\<lambda>name.
         if name \<notin> set BREAKER_NAMES then Ok d
         else if e_type e = ''BreakerTripped''
         then (case parse_ts_utc (e_ts e) of Inr t \<Rightarrow> Ok (dict_set d name t) | Inl _ \<Rightarrow> Ok d)
         else if e_type e = ''BreakerReset'' then Ok (dict_pop d name)
         else Ok d)
     | _ \<Rightarrow> Ok d)"

definition open_since :: "store \<Rightarrow> (string, rat) dict result" where
  "open_since st = rbind (read st 0 [] None None None) (\<lambda>es. rfold open_since_step [] es)"

definition adopt :: "rat \<Rightarrow> string \<times> rat \<Rightarrow> (breaker_set, unit) eff" where
  "adopt now kt = (case kt of (name, since) \<Rightarrow> bind (on_breaker name (is_open now)) (\<lambda>opn.
     on_breaker name (\<lambda>b. if opn \<or> bk_half_open b \<or> bk_inflight b then ((), b)
       else ((), b\<lparr>bk_opened_at := Some since, bk_trips := bk_trips b + 1, bk_failures := bk_threshold b\<rparr>))))"

definition sync_from_ledger :: "rat \<Rightarrow> (breaker_set, unit) eff" where
  "sync_from_ledger now = bind get (\<lambda>s. bind (lift (open_since (bs_store s))) (\<lambda>d. for_each d (adopt now)))"

definition trips_step :: "(string, int) dict \<Rightarrow> event \<Rightarrow> (string, int) dict result" where
  "trips_step d e = (case e_payload e of
       JObj kvs \<Rightarrow> rbind (row_str kvs ''breaker'' []) (\<lambda>name.
         if name \<in> set BREAKER_NAMES \<and> e_type e = ''BreakerTripped'' \<and> is_ok (parse_ts_utc (e_ts e))
         then Ok (dict_set d name (dict_get_default d name 0 + 1)) else Ok d)
     | _ \<Rightarrow> Ok d)"

definition reopened :: "(string, int) dict \<Rightarrow> string \<times> rat \<Rightarrow> (breaker_set, unit) eff" where
  "reopened trips kt = (case kt of (name, since) \<Rightarrow> on_breaker name (\<lambda>b. ((),
     b\<lparr>bk_opened_at := Some since, bk_trips := dict_get_default trips name 1, bk_failures := bk_threshold b\<rparr>)))"

definition rebuild :: "store \<Rightarrow> unit result \<times> breaker_set" where
  "rebuild st = bind (lift (read st 0 [] None None None)) (\<lambda>es.
     bind (lift (rfold open_since_step [] es)) (\<lambda>d.
     bind (lift (rfold trips_step [] es)) (\<lambda>trips. for_each d (reopened trips)))) (new_breaker_set st)"

section \<open>Refresh and probes\<close>

definition observe_event :: "rat \<Rightarrow> event \<Rightarrow> (breaker_set, unit) eff" where
  "observe_event now e = (case e_payload e of
       JObj kvs \<Rightarrow> (case parse_ts_utc (e_ts e) of
           Inl _ \<Rightarrow> ret ()
         | Inr ts \<Rightarrow>
             if e_type e = ''OrderRejected'' then
               (if fl (now - ts) \<le> 600
                then bind (lift (row_str kvs ''reason'' [])) (\<lambda>reason.
                  modify (\<lambda>s. s\<lparr>bs_exec := exec_note_reject now ts reason (bs_exec s)\<rparr>))
                else ret ())
             else if e_type e = ''MarkToMarket'' then
               bind (lift (row_int kvs ''equity_lamports'' 0)) (\<lambda>eq0.
                 if eq0 > 0 then modify (\<lambda>s. s\<lparr>bs_loss := loss_note_equity ts eq0 (bs_loss s)\<rparr>) else ret ())
             else ret ())
     | _ \<Rightarrow> ret ())"

definition evaluate_named :: "rat \<Rightarrow> string \<Rightarrow> (breaker_set, unit) eff" where
  "evaluate_named now name =
     (if name = ''data_stale'' then modify (\<lambda>s. s\<lparr>bs_stale := snd (stale_evaluate now (bs_stale s))\<rparr>)
      else if name = ''loss_velocity'' then modify (\<lambda>s. s\<lparr>bs_loss := snd (loss_evaluate now (bs_loss s))\<rparr>)
      else ret ())"

primrec states :: "rat \<Rightarrow> string list \<Rightarrow> (breaker_set, (string \<times> string) list) eff" where
  "states now [] = ret []"
| "states now (name # names) = bind (on_breaker name (bk_state now)) (\<lambda>s.
     bind (states now names) (\<lambda>ss. ret ((name, s) # ss)))"

definition refresh :: "(string \<Rightarrow> string) \<Rightarrow> rat \<Rightarrow> string \<Rightarrow> string \<Rightarrow> string \<Rightarrow> int \<Rightarrow> (breaker_set, unit) eff" where
  "refresh H now ts source cid equity_now =
     bind (states now BREAKER_NAMES) (\<lambda>before.
     bind (modify (\<lambda>s. s\<lparr>bs_exec := (bs_exec s)\<lparr>ex_rejects := []\<rparr>, bs_loss := (bs_loss s)\<lparr>lv_points := []\<rparr>\<rparr>)) (\<lambda>_.
     bind get (\<lambda>s. bind (lift (read (bs_store s) 0 [] None None None)) (\<lambda>es.
     bind (for_each es (observe_event now)) (\<lambda>_.
     bind (modify (\<lambda>s. s\<lparr>bs_loss := loss_note_equity now equity_now (bs_loss s)\<rparr>)) (\<lambda>_.
     for_each before (\<lambda>(name, b). bind (evaluate_named now name) (\<lambda>_.
       transition H now name b False ts source cid))))))))"

primrec filter_open :: "rat \<Rightarrow> string list \<Rightarrow> (breaker_set, string list) eff" where
  "filter_open now [] = ret []"
| "filter_open now (name # names) = bind (on_breaker name (is_open now)) (\<lambda>opn.
     bind (filter_open now names) (\<lambda>ns. ret (if opn then name # ns else ns)))"

definition open_breakers :: "rat \<Rightarrow> (breaker_set, string list) eff" where
  "open_breakers now = filter_open now BREAKER_NAMES"

definition half_names :: "breaker_set \<Rightarrow> string list" where
  "half_names s = List.filter (\<lambda>name. case by_name name s of
     Inr b \<Rightarrow> bk_half_open b \<and> \<not> bk_inflight b | Inl _ \<Rightarrow> False) BREAKER_NAMES"

definition half_open_breakers :: "rat \<Rightarrow> (breaker_set, string list) eff" where
  "half_open_breakers now = bind (open_breakers now) (\<lambda>_. bind get (\<lambda>s. ret (half_names s)))"

definition admit_probe :: "rat \<Rightarrow> string \<Rightarrow> (breaker_set, bool) eff" where
  "admit_probe now name = on_breaker name (bk_admit_probe now)"

definition resolve_probe :: "(string \<Rightarrow> string) \<Rightarrow> rat \<Rightarrow> string \<Rightarrow> bool \<Rightarrow> string \<Rightarrow> string \<Rightarrow> string
    \<Rightarrow> (breaker_set, unit) eff" where
  "resolve_probe H now name ok ts source cid = bind (on_breaker name (bk_state now)) (\<lambda>before.
     bind (on_breaker name (bk_resolve_probe now ok)) (\<lambda>r. bind (lift r) (\<lambda>_.
     transition H now name before ok ts source cid)))"

section \<open>Named access\<close>

lemma by_name_put [simp]:
  "name \<in> set BREAKER_NAMES \<Longrightarrow> by_name name (put_name name b s) = Ok b"
  "name \<noteq> name' \<Longrightarrow> by_name name (put_name name' b s) = by_name name s"
  "bs_store (put_name name b s) = bs_store s"
  by (auto simp: by_name_def put_name_def BREAKER_NAMES_def)

lemma put_name_put_name [simp]: "put_name name b (put_name name b' s) = put_name name b s"
  by (simp add: put_name_def)

lemma by_name_Ok: "name \<in> set BREAKER_NAMES \<Longrightarrow> \<exists>b. by_name name s = Ok b"
  by (auto simp: by_name_def BREAKER_NAMES_def)

lemma on_breaker_Ok:
  "by_name name s = Ok b \<Longrightarrow> f b = (r, b') \<Longrightarrow> on_breaker name f s = (Ok r, put_name name b' s)"
  by (simp add: on_breaker_def)

lemma on_breaker_put:
  assumes "name \<in> set BREAKER_NAMES" "f b = (r, b')"
  shows "on_breaker name f (put_name name b s) = (Ok r, put_name name b' s)"
  using assms by (simp add: on_breaker_def)

lemma by_name_store [simp]: "by_name name (s\<lparr>bs_store := st\<rparr>) = by_name name s"
  by (simp add: by_name_def)

section \<open>The ledger is only appended to\<close>

lemma on_breaker_keeps [keeps_intros]: "keeps (\<lambda>s. P (bs_store s)) (on_breaker name f)"
  by (auto simp: keeps_def on_breaker_def split: sum.splits prod.splits)

lemma bs_append_keeps [keeps_intros]: "keeps (\<lambda>s. reachable H (bs_store s)) (bs_append H x)"
  unfolding keeps_def bs_append_def reachable_def
  by (auto split: prod.splits intro: rtranclp.rtrancl_into_rtrancl step_append)

lemma transition_keeps [keeps_intros]:
  "keeps (\<lambda>s. reachable H (bs_store s)) (transition H now name before probe_ok ts source cid)"
  unfolding transition_def append_trip_def append_reset_def by (intro keeps_intros)

lemma states_keeps [keeps_intros]: "keeps (\<lambda>s. P (bs_store s)) (states now names)"
  by (induction names; simp only: states.simps; intro keeps_intros)

lemma filter_open_keeps [keeps_intros]: "keeps (\<lambda>s. P (bs_store s)) (filter_open now names)"
  by (induction names; simp only: filter_open.simps; intro keeps_intros)

lemma observe_keeps [keeps_intros]: "keeps (\<lambda>s. P (bs_store s)) (observe_event now e)"
  unfolding observe_event_def
  by (auto split: json.splits sum.splits intro!: keeps_intros)

lemma evaluate_keeps [keeps_intros]: "keeps (\<lambda>s. P (bs_store s)) (evaluate_named now name)"
  unfolding evaluate_named_def by (intro keeps_intros) simp_all

lemma refresh_keeps [keeps_intros]:
  "keeps (\<lambda>s. reachable H (bs_store s)) (refresh H now ts source cid equity_now)"
  unfolding refresh_def by (auto intro!: keeps_intros split: prod.splits)

lemma sync_keeps [keeps_intros]: "keeps (\<lambda>s. P (bs_store s)) (sync_from_ledger now)"
  unfolding sync_from_ledger_def adopt_def by (auto intro!: keeps_intros split: prod.splits)

lemma probe_keeps [keeps_intros]:
  "keeps (\<lambda>s. P (bs_store s)) (admit_probe now name)"
  "keeps (\<lambda>s. reachable H (bs_store s)) (resolve_probe H now name ok ts source cid)"
  "keeps (\<lambda>s. P (bs_store s)) (open_breakers now)"
  "keeps (\<lambda>s. P (bs_store s)) (half_open_breakers now)"
  unfolding admit_probe_def resolve_probe_def open_breakers_def half_open_breakers_def
  by (intro keeps_intros)+

section \<open>Cooldown and probes\<close>

lemma open_while_cooling:
  assumes "bk_opened_at b = Some t"
  shows "is_open now b = (if elapsed now t < bk_cooldown b then (True, b)
    else (False, b\<lparr>bk_opened_at := None, bk_half_open := True, bk_failures := bk_threshold b - 1, bk_successes := 0\<rparr>))"
  using assms by (auto simp: is_open_def)

lemma admitted_probe:
  assumes "bk_admit_probe now b = (True, b')"
  shows "bk_inflight b' \<and> bk_half_open b' \<and> bk_opened_at b' = None \<and> \<not> bk_inflight b"
  using assms by (auto simp: bk_admit_probe_def is_open_def split: option.splits if_splits)

lemma no_second_probe: "bk_inflight b \<Longrightarrow> fst (bk_admit_probe now b) = False"
  by (auto simp: bk_admit_probe_def is_open_def split: option.splits)


lemma is_open_idem: "is_open now (snd (is_open now b)) = (fst (is_open now b), snd (is_open now b))"
  by (simp add: is_open_def split: option.split)

lemma filter_open_spec:
  assumes "set names \<subseteq> set BREAKER_NAMES"
  shows "\<exists>s'. filter_open now names s
      = (Ok (List.filter (\<lambda>n. \<exists>b. by_name n s = Ok b \<and> fst (is_open now b)) names), s')
    \<and> (\<forall>n b. by_name n s = Ok b \<longrightarrow>
        by_name n s' = Ok (if n \<in> set names then snd (is_open now b) else b))"
  using assms
proof (induction names arbitrary: s)
  case (Cons n ns)
  then obtain b where b: "by_name n s = Ok b" using by_name_Ok [of n s] by auto
  let ?s1 = "put_name n (snd (is_open now b)) s"
  have n: "n \<in> set BREAKER_NAMES" using Cons.prems by simp
  have step: "on_breaker n (is_open now) s = (Ok (fst (is_open now b)), ?s1)"
    by (rule on_breaker_Ok [OF b]) simp
  have same: "(\<exists>c. by_name m ?s1 = Ok c \<and> fst (is_open now c)) \<longleftrightarrow> (\<exists>c. by_name m s = Ok c \<and> fst (is_open now c))" for m
    using b n by (cases "m = n") (simp_all add: is_open_idem)
  obtain s' where s': "filter_open now ns ?s1
      = (Ok (List.filter (\<lambda>n. \<exists>b. by_name n ?s1 = Ok b \<and> fst (is_open now b)) ns), s')"
    and at: "\<And>m c. by_name m ?s1 = Ok c \<Longrightarrow> by_name m s' = Ok (if m \<in> set ns then snd (is_open now c) else c)"
    using Cons.IH [of ?s1] Cons.prems by auto
  have "by_name m s' = Ok (if m \<in> set (n # ns) then snd (is_open now c) else c)" if "by_name m s = Ok c" for m c
  proof (cases "m = n")
    case True
    then have "by_name m ?s1 = Ok (snd (is_open now b))" "c = b" using n b that by simp_all
    with at [OF this(1)] True show ?thesis by (simp add: is_open_idem)
  next
    case False
    then show ?thesis using at [of m c] that by simp
  qed
  with s' b step show ?case
    by (intro exI [of _ s']) (simp add: same)
qed simp

lemma open_breakers_spec:
  obtains s' where "open_breakers now s
      = (Ok (List.filter (\<lambda>n. \<exists>b. by_name n s = Ok b \<and> fst (is_open now b)) BREAKER_NAMES), s')"
    "\<And>n b. n \<in> set BREAKER_NAMES \<Longrightarrow> by_name n s = Ok b \<Longrightarrow> by_name n s' = Ok (snd (is_open now b))"
  using filter_open_spec [of BREAKER_NAMES now s] unfolding open_breakers_def by auto

section \<open>Openness from a validated ledger\<close>

definition breaker_of :: "event \<Rightarrow> string" where
  "breaker_of e = text_or ''breaker'' [] e"

definition since_step :: "(string, rat) dict \<Rightarrow> event \<Rightarrow> (string, rat) dict" where
  \<comment> \<open>\<open>open_since_step\<close> on a validated row\<close>
  "since_step d e =
     (if breaker_of e \<notin> set BREAKER_NAMES then d
      else if e_type e = ''BreakerTripped''
      then (case parse_ts_utc (e_ts e) of Inr t \<Rightarrow> dict_set d (breaker_of e) t | Inl _ \<Rightarrow> d)
      else if e_type e = ''BreakerReset'' then dict_pop d (breaker_of e)
      else d)"

lemma open_since_step_typed: "typed_event e \<Longrightarrow> open_since_step d e = Ok (since_step d e)"
  using typed_event_payload [of e]
  by (auto simp: open_since_step_def since_step_def breaker_of_def row_str_textual textual_breaker
      split: sum.splits)

lemma rfold_pure: "(\<And>s x. x \<in> set xs \<Longrightarrow> f s x = Ok (g s x)) \<Longrightarrow> rfold f s xs = Ok (foldl g s xs)"
  by (induction xs arbitrary: s) auto

lemma open_since_fold:
  "(\<And>e. e \<in> set es \<Longrightarrow> typed_event e) \<Longrightarrow> rfold open_since_step d es = Ok (foldl since_step d es)"
  by (rule rfold_pure) (rule open_since_step_typed)

lemma since_step_wf:
  "wf_dict d \<Longrightarrow> fst ` set d \<subseteq> set BREAKER_NAMES \<Longrightarrow>
     wf_dict (since_step d e) \<and> fst ` set (since_step d e) \<subseteq> set BREAKER_NAMES"
  using image_mono [OF set_dict_pop [where d = d and k = "breaker_of e"], where f = fst]
  by (simp add: since_step_def dom_update split: sum.splits) blast

lemma since_fold_wf:
  "wf_dict d \<Longrightarrow> fst ` set d \<subseteq> set BREAKER_NAMES \<Longrightarrow>
     wf_dict (foldl since_step d es) \<and> fst ` set (foldl since_step d es) \<subseteq> set BREAKER_NAMES"
  by (induction es arbitrary: d) (use since_step_wf in auto)

lemma since_fold_other:
  "(\<And>e. e \<in> set es \<Longrightarrow> breaker_of e \<noteq> name) \<Longrightarrow> map_of (foldl since_step d es) name = map_of d name"
proof (induction es arbitrary: d)
  case (Cons e es)
  have "map_of (since_step d e) name = map_of d name"
    using Cons.prems [of e] by (auto simp: since_step_def split: sum.splits)
  with Cons show ?case by simp
qed simp

lemma since_fold_tripped:
  assumes "e_type e = ''BreakerTripped''" "breaker_of e = name" "name \<in> set BREAKER_NAMES"
    and "parse_ts_utc (e_ts e) = Ok t" "\<And>e'. e' \<in> set post \<Longrightarrow> breaker_of e' \<noteq> name"
  shows "map_of (foldl since_step d (pre @ e # post)) name = Some t"
  using assms(1-4) since_fold_other [OF assms(5), where d = "since_step (foldl since_step d pre) e"]
  by (simp add: since_step_def)

lemma trips_fold_total:
  "(\<And>e. e \<in> set es \<Longrightarrow> typed_event e) \<Longrightarrow> \<exists>d'. rfold trips_step d es = Ok d'"
proof (induction es arbitrary: d)
  case (Cons e es)
  obtain row where "e_payload e = JObj row" using Cons.prems [of e] typed_event_payload by auto
  then have "\<exists>d1. trips_step d e = Ok d1"
    using Cons.prems [of e] by (simp add: trips_step_def row_str_textual textual_breaker)
  with Cons show ?case by auto
qed simp

lemma open_since_reachable:
  assumes "reachable H st"
  shows "open_since st = Ok (foldl since_step [] (map parsed (events st)))"
  unfolding open_since_def read_everything [OF reachable_store_ok [OF assms]] rbind_simps
  by (rule open_since_fold) (rule reachable_typed [OF assms])

section \<open>A restart rebuilds openness\<close>

lemma reopened_spec:
  assumes "name \<in> set BREAKER_NAMES"
  obtains b s' where "reopened trips (name, since) s = (Ok (), s')" "by_name name s = Ok b"
    "by_name name s' = Ok (b\<lparr>bk_opened_at := Some since, bk_trips := dict_get_default trips name 1, bk_failures := bk_threshold b\<rparr>)"
    "\<And>m. m \<noteq> name \<Longrightarrow> by_name m s' = by_name m s" "bs_store s' = bs_store s"
proof -
  obtain b where b: "by_name name s = Ok b" using by_name_Ok [OF assms] by blast
  show thesis
    by (rule that [of "put_name name (b\<lparr>bk_opened_at := Some since, bk_trips := dict_get_default trips name 1,
          bk_failures := bk_threshold b\<rparr>) s" b])
      (use b assms in \<open>simp_all add: reopened_def on_breaker_def\<close>)
qed

lemma reopen_all:
  assumes "wf_dict d" "fst ` set d \<subseteq> set BREAKER_NAMES"
  shows "\<exists>s'. for_each d (reopened trips) s = (Ok (), s') \<and> bs_store s' = bs_store s
    \<and> (\<forall>name b. by_name name s = Ok b \<longrightarrow> (\<exists>b'. by_name name s' = Ok b' \<and> bk_cooldown b' = bk_cooldown b
         \<and> bk_opened_at b' = (case map_of d name of Some t \<Rightarrow> Some t | None \<Rightarrow> bk_opened_at b)))"
  using assms
proof (induction d arbitrary: s)
  case (Cons kt d)
  obtain k t where kt: "kt = (k, t)" by (cases kt)
  have k: "k \<in> set BREAKER_NAMES" "k \<notin> fst ` set d" "wf_dict d"
    using Cons.prems kt by (auto simp: wf_dict_def)
  obtain b0 s1 where s1: "reopened trips (k, t) s = (Ok (), s1)" "by_name k s = Ok b0"
    "by_name k s1 = Ok (b0\<lparr>bk_opened_at := Some t, bk_trips := dict_get_default trips k 1, bk_failures := bk_threshold b0\<rparr>)"
    "\<And>m. m \<noteq> k \<Longrightarrow> by_name m s1 = by_name m s" "bs_store s1 = bs_store s"
    by (rule reopened_spec [OF k(1), of trips t s]) blast
  obtain s' where s': "for_each d (reopened trips) s1 = (Ok (), s')" "bs_store s' = bs_store s1"
    and at: "\<And>name b. by_name name s1 = Ok b \<Longrightarrow> (\<exists>b'. by_name name s' = Ok b' \<and> bk_cooldown b' = bk_cooldown b
         \<and> bk_opened_at b' = (case map_of d name of Some t \<Rightarrow> Some t | None \<Rightarrow> bk_opened_at b))"
    using Cons.IH [OF k(3), of s1] Cons.prems(2) by auto
  have "\<exists>b'. by_name name s' = Ok b' \<and> bk_cooldown b' = bk_cooldown b
      \<and> bk_opened_at b' = (case map_of (kt # d) name of Some t \<Rightarrow> Some t | None \<Rightarrow> bk_opened_at b)"
    if b: "by_name name s = Ok b" for name b
  proof (cases "name = k")
    case True
    then have "map_of d name = None" using k(2) by (simp add: map_of_eq_None_iff)
    with True show ?thesis using at [OF s1(3)] s1(2) b kt by auto
  next
    case False
    then show ?thesis using at [of name b] s1(4) b kt by simp
  qed
  with s1 s' show ?case by (auto simp: kt)
qed auto

lemma rebuild_spec:
  assumes "reachable H st"
  obtains s where "rebuild st = (Ok (), s)" "bs_store s = st"
    "\<And>name t. map_of (foldl since_step [] (map parsed (events st))) name = Some t \<Longrightarrow>
       \<exists>b b0. by_name name s = Ok b \<and> by_name name (new_breaker_set st) = Ok b0
         \<and> bk_cooldown b = bk_cooldown b0 \<and> bk_opened_at b = Some t"
proof -
  note ok = reachable_store_ok [OF assms]
  let ?es = "map parsed (events st)"
  let ?d = "foldl since_step [] ?es"
  have d: "rfold open_since_step [] ?es = Ok ?d" by (rule open_since_fold) (rule reachable_typed [OF assms])
  obtain trips where trips: "rfold trips_step [] ?es = Ok trips"
    using trips_fold_total reachable_typed [OF assms] by blast
  have wf: "wf_dict ?d" "fst ` set ?d \<subseteq> set BREAKER_NAMES" using since_fold_wf [of "[]" ?es] by auto
  obtain s where s: "for_each ?d (reopened trips) (new_breaker_set st) = (Ok (), s)"
    "bs_store s = bs_store (new_breaker_set st)"
    and at: "\<forall>name b. by_name name (new_breaker_set st) = Ok b \<longrightarrow> (\<exists>b'. by_name name s = Ok b' \<and> bk_cooldown b' = bk_cooldown b
         \<and> bk_opened_at b' = (case map_of ?d name of Some t \<Rightarrow> Some t | None \<Rightarrow> bk_opened_at b))"
    using reopen_all [OF wf, of trips "new_breaker_set st"] by auto
  show thesis
  proof (rule that [of s])
    show "rebuild st = (Ok (), s)"
      unfolding rebuild_def by (simp add: read_everything [OF ok] d trips s)
    show "bs_store s = st" using s(2) by (simp add: new_breaker_set_def)
  next
    fix name t assume m: "map_of ?d name = Some t"
    then have "name \<in> set BREAKER_NAMES" using wf(2) by (metis map_of_SomeD fst_conv image_eqI subsetD)
    then obtain b0 where "by_name name (new_breaker_set st) = Ok b0" using by_name_Ok by blast
    with at m show "\<exists>b b0. by_name name s = Ok b \<and> by_name name (new_breaker_set st) = Ok b0
         \<and> bk_cooldown b = bk_cooldown b0 \<and> bk_opened_at b = Some t" by force
  qed
qed

section \<open>Adopting openness from the ledger\<close>

lemma adopt_other:
  assumes "k \<in> set BREAKER_NAMES"
  shows "\<exists>s'. adopt now (k, t) s = (Ok (), s') \<and> (\<forall>m. m \<noteq> k \<longrightarrow> by_name m s' = by_name m s)"
proof -
  obtain b where b: "by_name k s = Ok b" using by_name_Ok [OF assms] by blast
  obtain opn b1 where o: "is_open now b = (opn, b1)" by force
  show ?thesis using assms
    by (simp add: adopt_def bind_def on_breaker_def b o)
qed

lemma adopt_closed:
  assumes "k \<in> set BREAKER_NAMES" "by_name k s = Ok b" "bk_opened_at b = None" "\<not> bk_half_open b" "\<not> bk_inflight b"
  shows "\<exists>s'. adopt now (k, t) s = (Ok (), s')
    \<and> by_name k s' = Ok (b\<lparr>bk_opened_at := Some t, bk_trips := bk_trips b + 1, bk_failures := bk_threshold b\<rparr>)
    \<and> (\<forall>m. m \<noteq> k \<longrightarrow> by_name m s' = by_name m s)"
  using assms by (simp add: adopt_def bind_def on_breaker_def is_open_def)

lemma adopt_all:
  assumes "wf_dict d" "fst ` set d \<subseteq> set BREAKER_NAMES"
  shows "\<exists>s'. for_each d (adopt now) s = (Ok (), s')
    \<and> (\<forall>m. map_of d m = None \<longrightarrow> by_name m s' = by_name m s)
    \<and> (\<forall>m t b. map_of d m = Some t \<and> by_name m s = Ok b \<and> bk_opened_at b = None \<and> \<not> bk_half_open b \<and> \<not> bk_inflight b
        \<longrightarrow> by_name m s' = Ok (b\<lparr>bk_opened_at := Some t, bk_trips := bk_trips b + 1, bk_failures := bk_threshold b\<rparr>))"
  using assms
proof (induction d arbitrary: s)
  case (Cons kt d)
  obtain k t where kt: "kt = (k, t)" by (cases kt)
  have k: "k \<in> set BREAKER_NAMES" "map_of d k = None" "wf_dict d" "fst ` set d \<subseteq> set BREAKER_NAMES"
    using Cons.prems kt by (auto simp: wf_dict_def map_of_eq_None_iff)
  obtain s1 where s1: "adopt now (k, t) s = (Ok (), s1)" "\<And>m. m \<noteq> k \<Longrightarrow> by_name m s1 = by_name m s"
    using adopt_other [OF k(1)] by blast
  have here: "by_name k s1 = Ok (b\<lparr>bk_opened_at := Some t, bk_trips := bk_trips b + 1, bk_failures := bk_threshold b\<rparr>)"
    if "by_name k s = Ok b" "bk_opened_at b = None" "\<not> bk_half_open b" "\<not> bk_inflight b" for b
    using adopt_closed [OF k(1) that, of now t] s1(1) by auto
  obtain s' where s': "for_each d (adopt now) s1 = (Ok (), s')"
    "\<And>m. map_of d m = None \<Longrightarrow> by_name m s' = by_name m s1"
    "\<And>m t b. map_of d m = Some t \<Longrightarrow> by_name m s1 = Ok b \<Longrightarrow> bk_opened_at b = None \<Longrightarrow> \<not> bk_half_open b \<Longrightarrow> \<not> bk_inflight b
        \<Longrightarrow> by_name m s' = Ok (b\<lparr>bk_opened_at := Some t, bk_trips := bk_trips b + 1, bk_failures := bk_threshold b\<rparr>)"
    using Cons.IH [OF k(3,4), of s1] by blast
  have "for_each (kt # d) (adopt now) s = (Ok (), s')" using s1(1) s'(1) by (simp add: kt)
  moreover have "by_name m s' = by_name m s" if "map_of (kt # d) m = None" for m
    using that s'(2) s1(2) by (auto simp: kt split: if_splits)
  moreover have "by_name m s' = Ok (b\<lparr>bk_opened_at := Some u, bk_trips := bk_trips b + 1, bk_failures := bk_threshold b\<rparr>)"
    if "map_of (kt # d) m = Some u" "by_name m s = Ok b" "bk_opened_at b = None" "\<not> bk_half_open b" "\<not> bk_inflight b" for m u b
  proof (cases "m = k")
    case True
    then show ?thesis using that here s'(2) [of k] k(2) by (auto simp: kt)
  next
    case False
    then show ?thesis using that s'(3) [of m u b] s1(2) [of m] by (auto simp: kt)
  qed
  ultimately show ?case by blast
qed auto

lemma sync_from_ledger_spec:
  assumes "reachable H (bs_store s)" "map_of (foldl since_step [] (map parsed (events (bs_store s)))) name = Some t"
    and "by_name name s = Ok b" "bk_opened_at b = None" "\<not> bk_half_open b" "\<not> bk_inflight b"
  obtains s' where "sync_from_ledger now s = (Ok (), s')"
    "by_name name s' = Ok (b\<lparr>bk_opened_at := Some t, bk_trips := bk_trips b + 1, bk_failures := bk_threshold b\<rparr>)"
proof -
  let ?d = "foldl since_step [] (map parsed (events (bs_store s)))"
  note since = open_since_reachable [OF assms(1)]
  have wf: "wf_dict ?d" "fst ` set ?d \<subseteq> set BREAKER_NAMES" using since_fold_wf [of "[]"] by auto
  obtain s' where "for_each ?d (adopt now) s = (Ok (), s')"
    "by_name name s' = Ok (b\<lparr>bk_opened_at := Some t, bk_trips := bk_trips b + 1, bk_failures := bk_threshold b\<rparr>)"
    using adopt_all [OF wf, of now s] assms(2-) by blast
  with that since show thesis by (simp add: sync_from_ledger_def)
qed

lemma half_open_breakers_spec:
  assumes "name \<in> set BREAKER_NAMES" "by_name name s = Ok b"
  obtains ns s' where "half_open_breakers now s = (Ok ns, s')"
    "name \<in> set ns \<longleftrightarrow> bk_half_open (snd (is_open now b)) \<and> \<not> bk_inflight (snd (is_open now b))"
proof -
  obtain s' where s': "open_breakers now s
      = (Ok (List.filter (\<lambda>n. \<exists>b. by_name n s = Ok b \<and> fst (is_open now b)) BREAKER_NAMES), s')"
    and at: "\<And>n b. n \<in> set BREAKER_NAMES \<Longrightarrow> by_name n s = Ok b \<Longrightarrow> by_name n s' = Ok (snd (is_open now b))"
    by (rule open_breakers_spec [of now s]) blast
  have b: "by_name name s' = Ok (snd (is_open now b))" by (rule at [OF assms])
  have "half_open_breakers now s = (Ok (half_names s'), s')"
    using s' by (simp add: half_open_breakers_def bind_def)
  moreover have "name \<in> set (half_names s') \<longleftrightarrow> bk_half_open (snd (is_open now b)) \<and> \<not> bk_inflight (snd (is_open now b))"
    using assms(1) by (simp add: half_names_def b)
  ultimately show thesis by (rule that)
qed

section \<open>Properties\<close>

text \<open>
  C35: an open breaker stays open for exactly its cooldown and then lets one probe through. A tripped
  breaker is listed as open, and refuses a probe, exactly while less than the cooldown has passed; once
  a probe is admitted no second one is, at any time, until the first is resolved.
\<close>

theorem cooldown_then_one_probe:
  assumes "name \<in> set BREAKER_NAMES" "by_name name s = Ok b" "bk_opened_at b = Some t" "\<not> bk_inflight b"
  shows "(\<exists>ns s'. open_breakers now s = (Ok ns, s') \<and> (name \<in> set ns \<longleftrightarrow> elapsed now t < bk_cooldown b))
    \<and> fst (admit_probe now name s) = Ok (bk_cooldown b \<le> elapsed now t)
    \<and> (bk_cooldown b \<le> elapsed now t \<longrightarrow> fst (admit_probe later name (snd (admit_probe now name s))) = Ok False)"
proof -
  obtain s' where "open_breakers now s
      = (Ok (List.filter (\<lambda>n. \<exists>b. by_name n s = Ok b \<and> fst (is_open now b)) BREAKER_NAMES), s')"
    by (rule open_breakers_spec)
  then have "\<exists>ns s'. open_breakers now s = (Ok ns, s') \<and> (name \<in> set ns \<longleftrightarrow> elapsed now t < bk_cooldown b)"
    using assms by (auto simp: open_while_cooling split: if_splits)
  moreover have "fst (admit_probe now name s) = Ok (bk_cooldown b \<le> elapsed now t)"
    using assms by (simp add: admit_probe_def on_breaker_def bk_admit_probe_def open_while_cooling not_le)
  moreover have "fst (admit_probe later name (snd (admit_probe now name s))) = Ok False" if "bk_cooldown b \<le> elapsed now t"
    using assms that
    by (simp add: admit_probe_def on_breaker_def bk_admit_probe_def is_open_def)
  ultimately show ?thesis by blast
qed

theorem cooldown_then_one_probe_witness:
  "let s = put_name ''exec_errors'' (trip 0 (new_breaker 3 900 1)) (new_breaker_set empty_store) in
     fst (admit_probe 899 ''exec_errors'' s) = Ok False \<and> fst (admit_probe 900 ''exec_errors'' s) = Ok True
     \<and> fst (admit_probe 901 ''exec_errors'' (snd (admit_probe 900 ''exec_errors'' s))) = Ok False"
proof -
  let ?b = "trip 0 (new_breaker 3 900 1)"
  let ?s = "put_name ''exec_errors'' ?b (new_breaker_set empty_store)"
  have h: "''exec_errors'' \<in> set BREAKER_NAMES" "by_name ''exec_errors'' ?s = Ok ?b" "bk_opened_at ?b = Some 0" "\<not> bk_inflight ?b"
    by (simp_all add: BREAKER_NAMES_def trip_def new_breaker_def)
  have n: "\<not> bk_cooldown ?b \<le> elapsed 899 0" "bk_cooldown ?b \<le> elapsed 900 0" by code_simp+
  from cooldown_then_one_probe [OF h, of 899 0] cooldown_then_one_probe [OF h, of 900 901] n
  show ?thesis unfolding Let_def by metis
qed

text \<open>
  C36: a restart cannot bypass a cooldown (R24). When a validated ledger holds a trip of a breaker and no
  later row naming that breaker, the set rebuilt from the ledger lists the breaker as open, and refuses
  a probe, at every time less than the cooldown after the trip's timestamp.
\<close>

theorem restart_keeps_cooldown:
  assumes "reachable H st" "map parsed (events st) = pre @ e # post" "e_type e = ''BreakerTripped''"
    and "breaker_of e = name" "name \<in> set BREAKER_NAMES" "parse_ts_utc (e_ts e) = Ok t"
    and "\<And>e'. e' \<in> set post \<Longrightarrow> breaker_of e' \<noteq> name"
    and "by_name name (new_breaker_set st) = Ok b0" "elapsed now t < bk_cooldown b0"
  shows "\<exists>s ns s'. rebuild st = (Ok (), s) \<and> open_breakers now s = (Ok ns, s') \<and> name \<in> set ns
    \<and> fst (admit_probe now name s) = Ok False"
proof -
  have since: "map_of (foldl since_step [] (map parsed (events st))) name = Some t"
    unfolding assms(2) by (rule since_fold_tripped [OF assms(3-7)])
  obtain s b where s: "rebuild st = (Ok (), s)" "by_name name s = Ok b" "bk_cooldown b = bk_cooldown b0" "bk_opened_at b = Some t"
    using rebuild_spec [OF assms(1)] since assms(8) by (metis Inr_inject)
  obtain s' where "open_breakers now s
      = (Ok (List.filter (\<lambda>n. \<exists>b. by_name n s = Ok b \<and> fst (is_open now b)) BREAKER_NAMES), s')"
    by (rule open_breakers_spec)
  moreover have "fst (is_open now b)" using s assms(9) by (simp add: open_while_cooling)
  moreover have "fst (admit_probe now name s) = Ok False"
    using s assms(9) by (simp add: admit_probe_def on_breaker_def bk_admit_probe_def open_while_cooling)
  ultimately show ?thesis using s assms(5) by fastforce
qed

definition sample_trip :: entry where
  "sample_trip = trip_entry (\<lambda>s. s) ''exec_errors'' 1 900 ''2026-01-01T00:00:00.000000Z'' ''paper'' ''c1''"

definition tripped_store :: store where
  "tripped_store = snd (append (\<lambda>s. s) empty_store sample_trip)"

lemma tripped_store_event:
  "\<exists>e. map parsed (events tripped_store) = [] @ e # [] \<and> e_type e = ''BreakerTripped''
    \<and> breaker_of e = ''exec_errors'' \<and> parse_ts_utc (e_ts e) = Ok 1767225600"
proof -
  have "let es = map parsed (events tripped_store); e = hd es in length es = 1 \<and> e_type e = ''BreakerTripped''
    \<and> breaker_of e = ''exec_errors'' \<and> parse_ts_utc (e_ts e) = Ok 1767225600" by code_simp
  then show ?thesis by (cases "map parsed (events tripped_store)") (auto simp: Let_def)
qed

lemma tripped_store_reachable: "reachable (\<lambda>s. s) tripped_store"
  unfolding tripped_store_def by (rule reachable_append [OF reachable_empty])

theorem restart_keeps_cooldown_witness:
  "\<exists>s ns s'. rebuild tripped_store = (Ok (), s) \<and> open_breakers 1767226000 s = (Ok ns, s') \<and> ''exec_errors'' \<in> set ns
    \<and> fst (admit_probe 1767226000 ''exec_errors'' s) = Ok False"
proof -
  obtain e where e: "map parsed (events tripped_store) = [] @ e # []" "e_type e = ''BreakerTripped''"
    "breaker_of e = ''exec_errors''" "parse_ts_utc (e_ts e) = Ok 1767225600"
    using tripped_store_event by blast
  have n: "''exec_errors'' \<in> set BREAKER_NAMES"
    "by_name ''exec_errors'' (new_breaker_set tripped_store) = Ok (new_breaker 3 900 1)"
    by (simp_all add: BREAKER_NAMES_def by_name_def new_breaker_set_def new_exec_def)
  have c: "elapsed 1767226000 1767225600 < bk_cooldown (new_breaker 3 900 1)" by code_simp
  show ?thesis
    by (rule restart_keeps_cooldown [OF tripped_store_reachable e(1,2,3) n(1) e(4) _ n(2) c]) simp
qed

text \<open>
  C37: the recovery of a breaker with threshold 1 is never recorded. \<open>loss_velocity\<close> has threshold 1 and
  closes after one success, so the half-open breaker already reads \<open>closed\<close>: when its probe succeeds
  there is no change of state to record and the ledger gains no row. The trip stays the last row
  naming the breaker, and the next synchronisation with the ledger puts the breaker back to half-open,
  as if the probe had never been made.
\<close>

theorem unrecorded_recovery_rearms:
  assumes "reachable H (bs_store s)" "by_name name s = Ok b" "name \<in> set BREAKER_NAMES"
    and "bk_threshold b = 1" "bk_reset_after_ok b = 1" "bk_opened_at b = Some t" "\<not> bk_inflight b"
    and "bk_cooldown b \<le> elapsed now t" "open_since (bs_store s) = Ok d" "map_of d name = Some t"
  shows "\<exists>s1 s2 s3 ns s4. admit_probe now name s = (Ok True, s1)
    \<and> resolve_probe H now name True ts source cid s1 = (Ok (), s2)
    \<and> fst (on_breaker name (bk_state now) s2) = Ok ''closed'' \<and> bs_store s2 = bs_store s
    \<and> sync_from_ledger now s2 = (Ok (), s3)
    \<and> half_open_breakers now s3 = (Ok ns, s4) \<and> name \<in> set ns"
proof -
  let ?b1 = "b\<lparr>bk_opened_at := None, bk_half_open := True, bk_failures := 0, bk_successes := 0, bk_inflight := True\<rparr>"
  let ?b2 = "b\<lparr>bk_opened_at := None, bk_failures := 0, bk_successes := 0, bk_half_open := False, bk_inflight := False\<rparr>"
  let ?s1 = "put_name name ?b1 s"
  have s1: "admit_probe now name s = (Ok True, ?s1)"
    using assms by (simp add: admit_probe_def on_breaker_def bk_admit_probe_def open_while_cooling)
  have st: "bk_state now ?b1 = (''closed'', ?b1)" "bk_state now ?b2 = (''closed'', ?b2)"
    by (simp_all add: bk_state_def is_open_def)
  have res: "bk_resolve_probe now True ?b1 = (Ok (), ?b2)"
    using assms(5) by (simp add: bk_resolve_probe_def record_success_def)
  have n1: "by_name name ?s1 = Ok ?b1" using assms(3) by simp
  let ?s2 = "put_name name ?b2 s"
  have r: "on_breaker name (bk_state now) ?s1 = (Ok ''closed'', ?s1)"
    "on_breaker name (bk_resolve_probe now True) ?s1 = (Ok (Ok ()), ?s2)"
    "on_breaker name (bk_state now) ?s2 = (Ok ''closed'', ?s2)"
    by (rule on_breaker_put [OF assms(3)], rule st res)+
  have s2: "resolve_probe H now name True ts source cid ?s1 = (Ok (), ?s2)"
    by (simp add: resolve_probe_def transition_def r bind_def)
  have b2: "by_name name ?s2 = Ok ?b2" "bs_store ?s2 = bs_store s" using assms(3) by simp_all
  have "d = foldl since_step [] (map parsed (events (bs_store s)))"
    using assms(9) by (simp add: open_since_reachable [OF assms(1)])
  then have d: "map_of (foldl since_step [] (map parsed (events (bs_store ?s2)))) name = Some t"
    using assms(10) b2(2) by simp
  have reach: "reachable H (bs_store ?s2)" using assms(1) b2(2) by simp
  let ?b3 = "?b2\<lparr>bk_opened_at := Some t, bk_trips := bk_trips ?b2 + 1, bk_failures := bk_threshold ?b2\<rparr>"
  obtain s3 where s3: "sync_from_ledger now ?s2 = (Ok (), s3)" "by_name name s3 = Ok ?b3"
    by (rule sync_from_ledger_spec [OF reach d b2(1)]) simp_all
  have "bk_half_open (snd (is_open now ?b3)) \<and> \<not> bk_inflight (snd (is_open now ?b3))"
    using assms(8) by (simp add: is_open_def)
  moreover obtain ns s4 where "half_open_breakers now s3 = (Ok ns, s4)"
    "name \<in> set ns \<longleftrightarrow> bk_half_open (snd (is_open now ?b3)) \<and> \<not> bk_inflight (snd (is_open now ?b3))"
    by (rule half_open_breakers_spec [OF assms(3) s3(2)])
  ultimately show ?thesis using s1 s2 s3(1) r(3) b2(2) by (metis fst_conv)
qed

definition sample_loss_trip :: entry where
  "sample_loss_trip = trip_entry (\<lambda>s. s) ''loss_velocity'' 1 1800 ''2026-01-01T00:00:00.000000Z'' ''paper'' ''c1''"

definition loss_store :: store where
  "loss_store = snd (append (\<lambda>s. s) empty_store sample_loss_trip)"

theorem unrecorded_recovery_rearms_witness:
  "\<exists>s s1 s2 s3 ns s4. by_name ''loss_velocity'' s = Ok (trip 1767225600 (new_breaker 1 1800 1))
    \<and> admit_probe 1767227400 ''loss_velocity'' s = (Ok True, s1)
    \<and> resolve_probe (\<lambda>s. s) 1767227400 ''loss_velocity'' True ''2026-01-01T00:30:00.000000Z'' ''paper'' ''c2'' s1 = (Ok (), s2)
    \<and> bs_store s2 = loss_store \<and> sync_from_ledger 1767227400 s2 = (Ok (), s3)
    \<and> half_open_breakers 1767227400 s3 = (Ok ns, s4) \<and> ''loss_velocity'' \<in> set ns"
proof -
  let ?b = "trip 1767225600 (new_breaker 1 1800 1)"
  let ?s = "put_name ''loss_velocity'' ?b (new_breaker_set loss_store)"
  have n: "''loss_velocity'' \<in> set BREAKER_NAMES" by (simp add: BREAKER_NAMES_def)
  have st: "bs_store ?s = loss_store" unfolding by_name_put(3) by (simp add: new_breaker_set_def)
  have r: "reachable (\<lambda>s. s) (bs_store ?s)"
    unfolding st unfolding loss_store_def by (rule reachable_append [OF reachable_empty])
  have o: "open_since (bs_store ?s) = Ok [(''loss_velocity'', 1767225600)]" unfolding st by code_simp
  have b: "bk_threshold ?b = 1" "bk_reset_after_ok ?b = 1" "bk_opened_at ?b = Some 1767225600" "\<not> bk_inflight ?b"
    by (simp_all add: trip_def new_breaker_def)
  have c: "bk_cooldown ?b \<le> elapsed 1767227400 1767225600" by code_simp
  have by_n: "by_name ''loss_velocity'' ?s = Ok ?b" using n by simp
  from unrecorded_recovery_rearms [OF r by_n n b c o, of "''2026-01-01T00:30:00.000000Z''" "''paper''" "''c2''"] by_n st
  show ?thesis by simp metis
qed

end
