(* ===== verification/KillSwitch.thy ===== *)
theory KillSwitch
  imports Clock LedgerReads Effects Approvals
begin

text \<open>
  The kill switch (\<open>risk/killswitch.py\<close>): the env, latch-file, alert and ledger sources with their
  precedence, the alert lines and their escalation, the rows of a set and of a human clear, and the
  in-flight barrier. The latch file is an optional text (\<open>ks_file\<close>) with a flag that says whether a
  write to it succeeds (\<open>ks_writable\<close>, an \<open>OSError\<close> otherwise); the alert channel is the list of texts
  received since its last commit (\<open>ks_inbox\<close>): a poll returns them all and a commit drops them, which
  is the contract its protocol states. \<open>H\<close> is SHA-256.
\<close>

section \<open>Alert lines and the latch text\<close>

definition is_break :: "char \<Rightarrow> bool" where
  "is_break c \<longleftrightarrow> (let n = (of_char c :: nat) in (10 \<le> n \<and> n \<le> 13) \<or> (28 \<le> n \<and> n \<le> 30) \<or> n = 133)"

function splitlines :: "string \<Rightarrow> string list" where
  \<comment> \<open>\<open>str.splitlines()\<close> on code points below 256; \<open>\r\n\<close> is one break\<close>
  "splitlines s = (if s = [] then []
     else let line = takeWhile (\<lambda>c. \<not> is_break c) s; rest = dropWhile (\<lambda>c. \<not> is_break c) s
       in line # splitlines (drop (if take 2 rest = [CHR 0x0D, CHR 0x0A] then 2 else 1) rest))"
  by pat_completeness auto

termination splitlines
proof (relation "measure length")
  fix s rest :: string and line :: string
  assume s: "s \<noteq> []" and rest: "rest = dropWhile (\<lambda>c. \<not> is_break c) s"
  have "length rest \<le> length s" unfolding rest by (rule length_dropWhile_le)
  with s have "length (drop (if take 2 rest = [CHR 0x0D, CHR 0x0A] then 2 else 1) rest) < length s"
    by (cases s) auto
  then show "(drop (if take 2 rest = [CHR 0x0D, CHR 0x0A] then 2 else 1) rest, s) \<in> measure length" by simp
qed simp

declare splitlines.simps [simp del]

definition parse_kill_line :: "string \<Rightarrow> (bool \<times> string) option" where
  \<comment> \<open>the match of \<open>KILL_LINE_RE\<close> written out: after the optional flag a reason that no newline breaks\<close>
  "parse_kill_line raw =
     (let line = strip raw; body = drop 4 line in
      if \<not> startswith line ''KILL'' \<or> body = [] \<or> \<not> is_space (hd body) then None
      else let plain = lstrip body; flag = drop 7 plain;
               reason = (if startswith plain ''FLATTEN'' \<and> flag \<noteq> [] \<and> is_space (hd flag) then lstrip flag else plain)
           in if CHR 0x0A \<in> set reason then None
              else Some (''FLATTEN'' \<in> set (take 2 (split_ws line)), strip reason))"

definition kill_file_text :: "string \<Rightarrow> bool \<Rightarrow> string" where
  "kill_file_text reason flat = (if flat then ''FLATTEN '' @ reason else reason)"

record kill_state =
  kl_active :: bool
  kl_source :: string
  kl_reason :: string
  kl_flatten :: bool

definition kill_off :: kill_state where
  "kill_off = \<lparr>kl_active = False, kl_source = [], kl_reason = [], kl_flatten = False\<rparr>"

definition kill_on :: "string \<Rightarrow> string \<Rightarrow> bool \<Rightarrow> kill_state" where
  "kill_on source reason flat = \<lparr>kl_active = True, kl_source = source, kl_reason = reason, kl_flatten = flat\<rparr>"

definition env_engaged :: "string option \<Rightarrow> bool" where
  "env_engaged raw = (case raw of None \<Rightarrow> False | Some v \<Rightarrow> strip v \<notin> {[], ''0'', ''false''})"

definition file_state :: "string \<Rightarrow> kill_state" where
  "file_state line =
     (if line = ''FLATTEN'' \<or> line = ''FLATTEN:'' then kill_on ''file'' ''flatten requested'' True
      else if startswith line ''FLATTEN '' \<or> startswith line ''FLATTEN:''
      then kill_on ''file'' (dropWhile (\<lambda>c. c = CHR '' '' \<or> c = CHR '':'') (drop 7 line)) True
      else kill_on ''file'' line False)"

definition first_line :: "string \<Rightarrow> string" where
  "first_line s = (case splitlines s of [] \<Rightarrow> [] | l # ls \<Rightarrow> strip l)"

section \<open>The switch\<close>

record kill_switch =
  ks_store :: store
  ks_path :: bool
  ks_file :: "string option"
  ks_writable :: bool
  ks_env_start :: string
  ks_inbox :: "string list"
  ks_alert_latch :: "(bool \<times> string) option"
  ks_pending :: "string option"
  ks_escalated :: bool

definition new_switch :: "store \<Rightarrow> bool \<Rightarrow> string option \<Rightarrow> string \<Rightarrow> string list \<Rightarrow> kill_switch" where
  "new_switch st path latch env inbox =
     \<lparr>ks_store = st, ks_path = path, ks_file = latch, ks_writable = True, ks_env_start = env, ks_inbox = inbox,
      ks_alert_latch = None, ks_pending = None, ks_escalated = False\<rparr>"

definition latched :: "kill_switch \<Rightarrow> bool" where
  \<comment> \<open>\<open>self._path is not None and self._path.is_file()\<close>\<close>
  "latched k \<longleftrightarrow> ks_path k \<and> ks_file k \<noteq> None"

definition latch_line :: "kill_switch \<Rightarrow> string" where
  "latch_line k = first_line (case ks_file k of Some s \<Rightarrow> s | None \<Rightarrow> [])"

definition kill_switch_key :: "(string \<Rightarrow> string) \<Rightarrow> string \<Rightarrow> string \<Rightarrow> string \<Rightarrow> bool \<Rightarrow> int \<Rightarrow> string" where
  "kill_switch_key H origin reason day flat epoch =
     H (''KillSwitchSet|'' @ origin @ ''|'' @ reason @ ''|'' @ day @ (if flat then ''|flatten'' else [])
        @ (if epoch \<noteq> 0 then ''|epoch='' @ int_str epoch else []))"

definition latch_from_alert :: "string \<Rightarrow> kill_switch \<Rightarrow> (bool \<times> string) option \<times> kill_switch" where
  "latch_from_alert line k = (case parse_kill_line line of None \<Rightarrow> (None, k)
     | Some (flat, reason) \<Rightarrow> (Some (flat, reason), k\<lparr>ks_file := Some (kill_file_text reason flat)\<rparr>))"

definition save_pending :: "kill_switch \<Rightarrow> bool \<times> kill_switch" where
  "save_pending k = (case ks_pending k of None \<Rightarrow> (False, k)
     | Some raw \<Rightarrow>
         if \<not> ks_path k \<or> (\<not> ks_writable k \<and> parse_kill_line raw \<noteq> None) then (False, k)
         else case latch_from_alert raw k of (latch, k') \<Rightarrow>
           (True, k'\<lparr>ks_alert_latch := latch, ks_pending := None\<rparr>))"

definition escalate :: "string \<Rightarrow> kill_switch \<Rightarrow> bool \<times> kill_switch" where
  "escalate reason k =
     (if ks_path k \<and> \<not> ks_writable k then (False, k)
      else let k' = (if ks_path k
             then k\<lparr>ks_file := Some (kill_file_text reason True), ks_alert_latch := Some (True, reason)\<rparr> else k)
        in (True, k'\<lparr>ks_escalated := True\<rparr>))"

fun absorb_lines :: "string list \<Rightarrow> kill_switch \<Rightarrow> bool \<times> kill_switch" where
  \<comment> \<open>the lines of one poll in order; False when a latch write failed and the rest is left for redelivery\<close>
  "absorb_lines [] k = (True, k)"
| "absorb_lines (raw # raws) k = (case parse_kill_line raw of None \<Rightarrow> absorb_lines raws k
     | Some (flat, reason) \<Rightarrow>
         if env_engaged (Some (ks_env_start k)) \<or> latched k
         then (if flat \<and> \<not> ks_escalated k
               then (case escalate reason k of (done, k') \<Rightarrow> if done then absorb_lines raws k' else (False, k'))
               else absorb_lines raws k)
         else if \<not> ks_path k then absorb_lines raws k
         else (case save_pending (k\<lparr>ks_pending := Some raw\<rparr>) of (done, k') \<Rightarrow>
                 if done then absorb_lines raws k' else (False, k')))"

definition absorb_alerts :: "kill_switch \<Rightarrow> kill_switch" where
  "absorb_alerts k =
     (case (if ks_pending k \<noteq> None then save_pending k else (True, k)) of (ready, k1) \<Rightarrow>
        if \<not> ready then k1
        else case absorb_lines (concat (map splitlines (ks_inbox k1))) k1 of (handled, k2) \<Rightarrow>
          if handled then k2\<lparr>ks_inbox := []\<rparr> else k2)"

definition file_requests_flatten :: "kill_switch \<Rightarrow> bool" where
  "file_requests_flatten k \<longleftrightarrow> latched k \<and> (case ks_file k of Some s \<Rightarrow> splitlines s \<noteq> [] | None \<Rightarrow> False)
     \<and> kl_flatten (file_state (latch_line k))"

definition latest_set_step :: "event option \<Rightarrow> event \<Rightarrow> event option" where
  "latest_set_step latest e =
     (if e_type e = ''KillSwitchSet'' then (case e_payload e of JObj kvs \<Rightarrow> Some e | _ \<Rightarrow> latest)
      else if e_type e = ''KillSwitchCleared'' then None
      else latest)"

definition latest_set :: "store \<Rightarrow> event option result" where
  "latest_set st = rbind (read st 0 [] None None None) (\<lambda>es. Ok (foldl latest_set_step None es))"

definition clear_epoch :: "store \<Rightarrow> int result" where
  "clear_epoch st = rbind (read st 0 [''KillSwitchCleared''] None None None) (\<lambda>es. Ok (int (length es)))"

definition event_obj :: "event \<Rightarrow> (string, json) dict" where
  "event_obj e = (case e_payload e of JObj kvs \<Rightarrow> kvs | _ \<Rightarrow> [])"

definition ledger_state :: "event option \<Rightarrow> kill_state result" where
  "ledger_state row = (case row of None \<Rightarrow> Ok kill_off
     | Some e \<Rightarrow> rbind (row_str (event_obj e) ''origin'' ''command'') (\<lambda>origin.
         rbind (row_str (event_obj e) ''reason'' []) (\<lambda>reason.
         rbind (row_bool (event_obj e) ''flatten_requested'' False) (\<lambda>flat. Ok (kill_on origin reason flat)))))"

definition engaged_state :: "(kill_switch, kill_state) eff" where
  "engaged_state k =
     (if env_engaged (Some (ks_env_start k))
      then (Ok (kill_on ''env'' (strip (ks_env_start k)) (file_requests_flatten k)), k)
      else if latched k
      then (let line = latch_line k in
            case ks_alert_latch k of
               Some (flat, reason) \<Rightarrow> if line = kill_file_text reason flat
                 then (Ok (kill_on ''alert_command'' reason flat), k) else (Ok (file_state line), k)
             | None \<Rightarrow> (Ok (file_state line), k))
      else case ks_pending k of
          Some raw \<Rightarrow> (case parse_kill_line raw of
               Some (flat, reason) \<Rightarrow> (Ok (kill_on ''alert_command'' reason flat), k)
             | None \<Rightarrow> bind (lift (latest_set (ks_store k))) (\<lambda>row. lift (ledger_state row)) (k\<lparr>ks_alert_latch := None\<rparr>))
        | None \<Rightarrow> bind (lift (latest_set (ks_store k))) (\<lambda>row. lift (ledger_state row)) (k\<lparr>ks_alert_latch := None\<rparr>))"

definition kill_poll :: "(kill_switch, kill_state) eff" where
  "kill_poll = bind engaged_state (\<lambda>state. bind get (\<lambda>k.
     if \<not> kl_active state then bind (modify (\<lambda>k. k\<lparr>ks_escalated := False\<rparr>)) (\<lambda>_. ret state)
     else ret (if ks_escalated k \<and> \<not> kl_flatten state
               then kill_on (kl_source state) (kl_reason state) True else state)))"

definition kill_set_entry :: "(string \<Rightarrow> string) \<Rightarrow> kill_state \<Rightarrow> int \<Rightarrow> string \<Rightarrow> string \<Rightarrow> string \<Rightarrow> entry" where
  "kill_set_entry H state epoch ts source cid =
     \<lparr>x_ts = ts, x_source = source, x_cid = cid,
      x_key = kill_switch_key H (kl_source state) (kl_reason state) (take 10 ts) (kl_flatten state) epoch,
      x_type = ''KillSwitchSet'',
      x_payload = [(''source'', PStr source), (''origin'', PStr (kl_source state)), (''reason'', PStr (kl_reason state)),
        (''flatten_requested'', PBool (kl_flatten state)), (''set_by'', PStr ''risk_engine'')]\<rparr>"

definition ks_append :: "(string \<Rightarrow> string) \<Rightarrow> entry \<Rightarrow> (kill_switch, unit) eff" where
  "ks_append H x k = (case append H (ks_store k) x of (r, st') \<Rightarrow> (rbind r (\<lambda>_. Ok ()), k\<lparr>ks_store := st'\<rparr>))"

definition already_recorded :: "event option \<Rightarrow> kill_state \<Rightarrow> bool result" where
  "already_recorded latest state = (case latest of None \<Rightarrow> Ok False
     | Some e \<Rightarrow> rbind (row_bool (event_obj e) ''flatten_requested'' False) (\<lambda>flat. Ok (flat \<or> \<not> kl_flatten state)))"

definition kill_observe :: "(string \<Rightarrow> string) \<Rightarrow> string \<Rightarrow> string \<Rightarrow> string \<Rightarrow> (kill_switch, entry option) eff" where
  "kill_observe H ts source cid =
     bind get (\<lambda>k0. bind (lift (clear_epoch (ks_store k0))) (\<lambda>epoch. bind kill_poll (\<lambda>state.
     if \<not> kl_active state then ret None
     else bind get (\<lambda>k. bind (lift (latest_set (ks_store k))) (\<lambda>latest.
       bind (lift (already_recorded latest state)) (\<lambda>known.
       if known then ret None
       else bind (lift (clear_epoch (ks_store k))) (\<lambda>epoch'.
         if epoch' \<noteq> epoch then ret None
         else let row = kill_set_entry H state epoch ts source cid in
           bind (suppressing is_integrity (ks_append H row)) (\<lambda>_. ret (Some row)))))))))"

section \<open>The human clear\<close>

definition seat_pattern :: "string \<Rightarrow> bool" where
  \<comment> \<open>\<open>^bot-0[0-9]-[a-z-]+$\<close>, whose \<open>$\<close> also matches before one final newline\<close>
  "seat_pattern s \<longleftrightarrow> startswith s ''bot-0'' \<and> length s > 7 \<and> is_digit (s ! 5) \<and> s ! 6 = CHR ''-''
     \<and> (let w = drop 7 s; w' = (if last w = CHR 0x0A then butlast w else w)
        in w' \<noteq> [] \<and> list_all (\<lambda>c. c = CHR ''-'' \<or> (97 \<le> (of_char c :: nat) \<and> (of_char c :: nat) \<le> 122)) w')"

definition human_signer :: "string \<Rightarrow> bool" where
  "human_signer by \<longleftrightarrow> startswith by ''human:'' \<and> \<not> seat_pattern (drop 6 by)"

definition live_sources :: "string option \<Rightarrow> kill_switch \<Rightarrow> string list" where
  \<comment> \<open>\<open>env_now\<close> is the process environment when the clear is asked for\<close>
  "live_sources env_now k =
     (if env_engaged env_now \<or> env_engaged (Some (ks_env_start k)) then [''env''] else [])
     @ (if latched k then [''file''] else [])
     @ (if ks_pending k \<noteq> None then [''alert_command''] else [])"

definition consumed_entry :: "approval \<Rightarrow> string \<Rightarrow> string \<Rightarrow> string \<Rightarrow> string \<Rightarrow> entry" where
  "consumed_entry a reason ts source cid =
     (approval_entry a ts source cid)\<lparr>x_key := ''consumed|'' @ ap_id a,
       x_payload := [(''source'', PStr source), (''id'', PStr (ap_id a)), (''kind'', PStr (kind_value (ap_kind a))),
        (''approved_by'', PStr (ap_approved_by a)), (''at'', PStr (ap_at a)),
        (''ticket_id'', PStr (or_default [] (ap_ticket_id a))), (''mint'', PStr (or_default [] (ap_mint a))),
        (''size_lamports'', PInt (or_default 0 (ap_size_lamports a))),
        (''token_units'', PInt (or_default 0 (ap_token_units a))),
        (''max_slippage_bps'', PInt (or_default 0 (ap_max_slippage_bps a))),
        (''exit_rule_id'', PStr (or_default [] (ap_exit_rule_id a))),
        (''raw_message'', PStr reason), (''consumed'', PBool True)]\<rparr>"

definition cleared_entry :: "(string \<Rightarrow> string) \<Rightarrow> approval \<Rightarrow> string \<Rightarrow> string \<Rightarrow> string \<Rightarrow> string \<Rightarrow> entry" where
  "cleared_entry H a reason ts source cid =
     \<lparr>x_ts = ts, x_source = source, x_cid = cid, x_key = kill_switch_key H ''clear'' reason (take 10 ts) False 0,
      x_type = ''KillSwitchCleared'',
      x_payload = [(''source'', PStr source), (''cleared_by'', PStr (ap_approved_by a)), (''approval_id'', PStr (ap_id a)),
        (''sources_now_clear'', PList [])]\<rparr>"

definition key_spent :: "store \<Rightarrow> string \<Rightarrow> bool result" where
  "key_spent st key = rbind (by_key st key) (\<lambda>e. Ok (e \<noteq> None))"

definition request_clear :: "(string \<Rightarrow> string) \<Rightarrow> string option \<Rightarrow> approval \<Rightarrow> string \<Rightarrow> string \<Rightarrow> string \<Rightarrow> string
    \<Rightarrow> (kill_switch, entry) eff" where
  "request_clear H env_now a reason ts source cid = bind get (\<lambda>k.
     if \<not> human_signer (ap_approved_by a) then raise (ClearRefused ''clear must come from a human'')
     else if ap_kind a \<noteq> Killswitch_clear then raise (ClearRefused ''clear needs a killswitch_clear approval'')
     else if live_sources env_now k \<noteq> [] then raise (ClearRefused ''live sources still set'')
     else let cleared = cleared_entry H a reason ts source cid; consumed = consumed_entry a reason ts source cid in
       bind (lift (key_spent (ks_store k) (x_key cleared))) (\<lambda>spent.
       if spent then raise (ClearRefused ''kill switch already cleared: re-poll state'')
       else bind (lift (key_spent (ks_store k) (x_key consumed))) (\<lambda>used.
         if used then raise (ClearRefused ''killswitch_clear approval is already consumed'')
         else (\<lambda>k. case append_batch H (ks_store k) [envelope cleared, envelope consumed] of (r, st') \<Rightarrow>
           (rbind r (\<lambda>_. Ok cleared), k\<lparr>ks_store := st'\<rparr>)))))"

section \<open>The in-flight barrier\<close>

type_synonym barrier = "string list"

definition register_order :: "string \<Rightarrow> barrier \<Rightarrow> barrier" where
  "register_order key b = (if key \<in> set b then b else b @ [key])"

definition order_done :: "string \<Rightarrow> barrier \<Rightarrow> barrier" where
  "order_done key b = removeAll key b"

definition barrier_empty :: "barrier \<Rightarrow> bool" where
  "barrier_empty b \<longleftrightarrow> b = []"

section \<open>What the ledger says\<close>

definition last_set :: "store \<Rightarrow> event option" where
  \<comment> \<open>\<open>latest_set\<close> on a validated ledger\<close>
  "last_set st = foldl latest_set_step None (map parsed (events st))"

definition clears :: "store \<Rightarrow> int" where
  "clears st = int (length (List.filter (\<lambda>r. r_type r = ''KillSwitchCleared'') (events st)))"

lemma latest_set_reachable: "reachable H st \<Longrightarrow> latest_set st = Ok (last_set st)"
  by (simp add: latest_set_def last_set_def read_everything [OF reachable_store_ok])

lemma clear_epoch_reachable: "reachable H st \<Longrightarrow> clear_epoch st = Ok (clears st)"
  by (simp add: clear_epoch_def clears_def read_types [OF reachable_store_ok])

lemma latest_set_member:
  "foldl latest_set_step None es = Some e \<Longrightarrow> e \<in> set es \<and> e_type e = ''KillSwitchSet''"
  by (induction es arbitrary: e rule: rev_induct) (auto simp: latest_set_step_def split: if_splits json.splits)

lemma latest_set_kept:
  "l \<noteq> None \<Longrightarrow> \<forall>e \<in> set es. e_type e \<noteq> ''KillSwitchCleared'' \<Longrightarrow> foldl latest_set_step l es \<noteq> None"
  by (induction es arbitrary: l) (auto simp: latest_set_step_def split: json.splits)

lemma ledger_state_typed:
  assumes "typed_event e" "e_type e = ''KillSwitchSet''"
  obtains state flat where "ledger_state (Some e) = Ok state" "kl_active state"
    "row_bool (event_obj e) ''flatten_requested'' False = Ok flat"
proof -
  obtain row where row: "e_payload e = JObj row" using assms(1) typed_event_payload by blast
  have "event_type_of_str ''KillSwitchSet'' = Some KillSwitchSet" by code_simp
  then have "typed_row kill_switch_set_fields row"
    using assms row by (auto simp: typed_event_def event_model_def)
  then obtain flat where flat: "row_bool row ''flatten_requested'' False = Ok flat"
    using typed_row_bool_ok [of kill_switch_set_fields row "''flatten_requested''" "Some (JBool False)" False]
    by (auto simp: kill_switch_set_fields_def)
  show thesis
    by (rule that [of "kill_on (text_or ''origin'' ''command'' e) (text_or ''reason'' [] e) flat" flat])
      (simp_all add: ledger_state_def event_obj_def row row_str_textual [OF assms(1) row]
        textual_reason textual_origin flat, simp add: kill_on_def)
qed

lemma ledger_state_last:
  assumes "reachable H st"
  obtains state where "ledger_state (last_set st) = Ok state" "kl_active state \<longleftrightarrow> last_set st \<noteq> None"
proof (cases "last_set st")
  case None
  then show thesis using that [of kill_off] by (simp add: ledger_state_def kill_off_def)
next
  case (Some e)
  then have e: "e \<in> set (map parsed (events st))" "e_type e = ''KillSwitchSet''"
    unfolding last_set_def using latest_set_member by blast+
  obtain state where "ledger_state (Some e) = Ok state" "kl_active state"
    by (rule ledger_state_typed [OF reachable_typed [OF assms e(1)] e(2)])
  then show thesis by (intro that [of state]) (simp_all add: Some)
qed

section \<open>Polling\<close>

definition engaged :: "kill_switch \<Rightarrow> bool" where
  "engaged k \<longleftrightarrow> env_engaged (Some (ks_env_start k)) \<or> latched k
     \<or> (case ks_pending k of Some raw \<Rightarrow> parse_kill_line raw \<noteq> None | None \<Rightarrow> False) \<or> last_set (ks_store k) \<noteq> None"

lemma kill_on_active [simp]: "kl_active (kill_on s r f)" "kl_active (file_state line)"
  by (simp_all add: kill_on_def file_state_def)

lemma engaged_state_spec:
  assumes "reachable H (ks_store k)"
  obtains state k' where "engaged_state k = (Ok state, k')" "kl_active state \<longleftrightarrow> engaged k"
    "k' = k \<or> k' = k\<lparr>ks_alert_latch := None\<rparr>"
proof -
  obtain state where "ledger_state (last_set (ks_store k)) = Ok state" "kl_active state \<longleftrightarrow> last_set (ks_store k) \<noteq> None"
    by (rule ledger_state_last [OF assms])
  then have "\<exists>state k'. engaged_state k = (Ok state, k') \<and> (kl_active state \<longleftrightarrow> engaged k)
      \<and> (k' = k \<or> k' = k\<lparr>ks_alert_latch := None\<rparr>)"
    by (auto simp: engaged_state_def engaged_def Let_def latest_set_reachable [OF assms] split: option.splits)
  then show thesis using that by blast
qed

lemma kill_poll_spec:
  assumes "reachable H (ks_store k)"
  obtains state k' where "kill_poll k = (Ok state, k')" "kl_active state \<longleftrightarrow> engaged k" "ks_store k' = ks_store k"
proof -
  obtain state k1 where e: "engaged_state k = (Ok state, k1)" "kl_active state \<longleftrightarrow> engaged k"
    "k1 = k \<or> k1 = k\<lparr>ks_alert_latch := None\<rparr>"
    by (rule engaged_state_spec [OF assms])
  then have "ks_store k1 = ks_store k" by auto
  with e that show thesis by (cases "kl_active state") (auto simp: kill_poll_def bind_def)
qed

lemma last_set_appended:
  assumes "reachable H st" "append H st x = (Ok r, st')" "x_type x = ''KillSwitchSet''"
  shows "last_set st' \<noteq> None"
proof -
  note p = ledger.put_ok [OF assms(2)]
  have "typed_event (parsed r)"
    using p reachable_typed [OF reachable_append_ok [OF assms(1,2)]] by simp
  then obtain row where "e_payload (parsed r) = JObj row" using typed_event_payload by blast
  moreover have "e_type (parsed r) = ''KillSwitchSet''" using p assms(3) by simp
  ultimately show ?thesis using p by (simp add: last_set_def latest_set_step_def)
qed

lemma last_set_later:
  assumes "last_set st \<noteq> None" "events st' = events st @ rs" "\<forall>r \<in> set rs. r_type r \<noteq> ''KillSwitchCleared''"
  shows "last_set st' \<noteq> None"
  using assms latest_set_kept [of "foldl latest_set_step None (map parsed (events st))" "map parsed rs"]
  by (auto simp: last_set_def)

lemma already_recorded_total:
  assumes "reachable H st"
  shows "\<exists>b. already_recorded (last_set st) state = Ok b \<and> (b \<longrightarrow> last_set st \<noteq> None)"
proof (cases "last_set st")
  case None
  then show ?thesis by (intro exI [of _ False]) (simp add: already_recorded_def)
next
  case (Some e)
  then have e: "e \<in> set (map parsed (events st))" "e_type e = ''KillSwitchSet''"
    unfolding last_set_def using latest_set_member by blast+
  obtain flat where "row_bool (event_obj e) ''flatten_requested'' False = Ok flat"
    by (rule ledger_state_typed [OF reachable_typed [OF assms e(1)] e(2)])
  with Some show ?thesis by (simp add: already_recorded_def)
qed

lemma kill_observe_latches:
  assumes "reachable H (ks_store k)" "engaged k" "kill_observe H ts source cid k = (Ok row, k')"
    and "\<And>x m. row = Some x \<Longrightarrow> fst (append H (ks_store k) x) \<noteq> Err (IntegrityError m)"
  shows "last_set (ks_store k') \<noteq> None" "reachable H (ks_store k')"
proof -
  obtain state k1 where poll: "kill_poll k = (Ok state, k1)" "kl_active state" "ks_store k1 = ks_store k"
    using kill_poll_spec [OF assms(1)] assms(2) by metis
  obtain known where known: "already_recorded (last_set (ks_store k)) state = Ok known"
    "known \<Longrightarrow> last_set (ks_store k) \<noteq> None"
    using already_recorded_total [OF assms(1)] by blast
  let ?x = "kill_set_entry H state (clears (ks_store k)) ts source cid"
  have run: "kill_observe H ts source cid k =
      (if known then (Ok None, k1)
       else bind (suppressing is_integrity (ks_append H ?x)) (\<lambda>_. ret (Some ?x)) k1)"
    using poll known(1)
    by (simp add: kill_observe_def clear_epoch_reachable [OF assms(1)] latest_set_reachable [OF assms(1)]
        bind_def Let_def)
  show "last_set (ks_store k') \<noteq> None" "reachable H (ks_store k')"
  proof (atomize (full), cases known)
    case True
    then show "last_set (ks_store k') \<noteq> None \<and> reachable H (ks_store k')"
      using assms(1,3) run known(2) poll(3) by simp
  next
    case False
    obtain r st' where a: "append H (ks_store k) ?x = (r, st')" by force
    have "row = Some ?x" using assms(3) False run
      by (auto simp: bind_def split: sum.splits prod.splits)
    then have "\<And>m. r \<noteq> Err (IntegrityError m)" using assms(4) a by fastforce
    moreover have "r = Err e \<Longrightarrow> is_integrity e" for e
      using assms(3) False run a poll(3)
      by (auto simp: bind_def suppressing_def ks_append_def split: if_splits)
    ultimately obtain r' where r: "r = Ok r'"
      by (cases r) (auto simp: is_integrity_def split: err.splits)
    then have "ks_store k' = st'"
      using assms(3) False run a poll(3) by (auto simp: bind_def suppressing_def ks_append_def)
    moreover have "x_type ?x = ''KillSwitchSet''" by (simp add: kill_set_entry_def)
    ultimately show "last_set (ks_store k') \<noteq> None \<and> reachable H (ks_store k')"
      using last_set_appended [OF assms(1)] reachable_append_ok [OF assms(1) a] a r by metis
  qed
qed

section \<open>Clearing\<close>

lemma key_spent_reachable:
  assumes "reachable H st"
  shows "key_spent st key = Ok (key \<in> r_key ` set (events st))"
proof -
  have "List.find (\<lambda>r. r_key r = key) rows \<noteq> None \<longleftrightarrow> key \<in> r_key ` set rows" for rows
    by (auto simp: find_None_iff)
  then show ?thesis
    by (simp add: key_spent_def by_key_valid [OF store_ok_valid [OF reachable_store_ok [OF assms]]])
qed

lemma request_clear_Ok:
  assumes "reachable H (ks_store k)" "request_clear H env_now a reason ts source cid k = (Ok row, k')"
  obtains r1 r2 st1 where "human_signer (ap_approved_by a)" "ap_kind a = Killswitch_clear" "live_sources env_now k = []"
    "append H (ks_store k) (cleared_entry H a reason ts source cid) = (Ok r1, st1)"
    "append H st1 (consumed_entry a reason ts source cid) = (Ok r2, ks_store k')"
    "k' = k\<lparr>ks_store := ks_store k'\<rparr>" "row = cleared_entry H a reason ts source cid"
proof -
  let ?c = "cleared_entry H a reason ts source cid" and ?u = "consumed_entry a reason ts source cid"
  have g: "human_signer (ap_approved_by a)" "ap_kind a = Killswitch_clear" "live_sources env_now k = []"
    using assms(2) by (auto simp: request_clear_def bind_def split: if_splits)
  obtain r st' where b: "append_batch H (ks_store k) [envelope ?c, envelope ?u] = (r, st')" by force
  have "rbind r (\<lambda>_. Ok ?c) = Ok row \<and> k' = k\<lparr>ks_store := st'\<rparr>"
    using assms(2) g b
    by (auto simp: request_clear_def bind_def Let_def key_spent_reachable [OF assms(1)] split: if_splits)
  then have k: "k' = k\<lparr>ks_store := st'\<rparr>" "row = ?c" and "\<exists>rs. r = Ok rs" by (auto simp: rbind_Ok_iff)
  then obtain r1 r2 st1 where "append H (ks_store k) ?c = (Ok r1, st1)" "append H st1 ?u = (Ok r2, st')"
    using append_batch_pair b by metis
  with g k that show thesis by simp
qed

lemma request_clear_run:
  assumes "reachable H (ks_store k)" "human_signer (ap_approved_by a)" "ap_kind a = Killswitch_clear" "live_sources env_now k = []"
    and "append H (ks_store k) (cleared_entry H a reason ts source cid) = (Ok r1, st1)"
    and "append H st1 (consumed_entry a reason ts source cid) = (Ok r2, st2)"
  shows "request_clear H env_now a reason ts source cid k
    = (Ok (cleared_entry H a reason ts source cid), k\<lparr>ks_store := st2\<rparr>)"
proof -
  note p = ledger.put_ok [OF assms(5)] ledger.put_ok [OF assms(6)]
  show ?thesis
    using p assms(2-4)
    by (simp add: request_clear_def bind_def Let_def key_spent_reachable [OF assms(1)]
        append_batch_pair_intro [OF assms(5,6)])
qed

lemma request_clear_refused:
  assumes "reachable H (ks_store k)"
    and "x_key (cleared_entry H a reason ts source cid) \<in> r_key ` set (events (ks_store k))
       \<or> x_key (consumed_entry a reason ts source cid) \<in> r_key ` set (events (ks_store k))"
  shows "\<exists>m. request_clear H env_now a reason ts source cid k = (Err (ClearRefused m), k)"
  using assms(2)
  by (auto simp: request_clear_def bind_def Let_def key_spent_reachable [OF assms(1)])

section \<open>Properties\<close>

text \<open>
  C38: an observed kill outlives its source and the process. Once an engaged switch has been observed, and
  the row it writes was not refused as a duplicate, every switch on any later state of the ledger polls
  as active, whatever its own sources say, until a \<open>KillSwitchCleared\<close> row is appended.
\<close>

theorem observed_kill_latches:
  assumes "reachable H (ks_store k)" "engaged k" "kill_observe H ts source cid k = (Ok row, k')"
    and "\<And>x m. row = Some x \<Longrightarrow> fst (append H (ks_store k) x) \<noteq> Err (IntegrityError m)"
    and "(store_step H)\<^sup>*\<^sup>* (ks_store k') (ks_store later)"
    and "\<forall>r \<in> set (drop (length (events (ks_store k'))) (events (ks_store later))). r_type r \<noteq> ''KillSwitchCleared''"
  shows "\<exists>state k2. kill_poll later = (Ok state, k2) \<and> kl_active state"
proof -
  note l = kill_observe_latches [OF assms(1-4)]
  obtain rs where "events (ks_store later) = events (ks_store k') @ rs" using store_steps_prefix [OF assms(5)] by blast
  with assms(6) have "\<forall>r \<in> set rs. r_type r \<noteq> ''KillSwitchCleared''" and e: "events (ks_store later) = events (ks_store k') @ rs"
    by simp_all
  then have "last_set (ks_store later) \<noteq> None" by (intro last_set_later [OF l(1) e])
  moreover have "reachable H (ks_store later)" using l(2) assms(5) unfolding reachable_def by simp
  ultimately show ?thesis using kill_poll_spec engaged_def by metis
qed

definition sample_switch :: kill_switch where
  "sample_switch = new_switch empty_store True (Some ''rug pull'') [] []"

theorem observed_kill_latches_witness:
  "\<exists>k' state k2. fst (kill_observe (\<lambda>s. s) ''2026-01-01T00:00:00.000000Z'' ''paper'' ''desk'' sample_switch) = Ok (Some k')
    \<and> kill_poll (new_switch (ks_store (snd (kill_observe (\<lambda>s. s) ''2026-01-01T00:00:00.000000Z'' ''paper'' ''desk'' sample_switch)))
        False None [] []) = (Ok state, k2) \<and> kl_active state"
proof -
  let ?run = "kill_observe (\<lambda>s. s) ''2026-01-01T00:00:00.000000Z'' ''paper'' ''desk'' sample_switch"
  have ok: "case fst ?run of Inr (Some x) \<Rightarrow> is_ok (fst (append (\<lambda>s. s) (ks_store sample_switch) x)) | _ \<Rightarrow> False"
    by code_simp
  then obtain x where x: "fst ?run = Ok (Some x)" "is_ok (fst (append (\<lambda>s. s) (ks_store sample_switch) x))"
    by (auto split: sum.splits option.splits)
  have r: "reachable (\<lambda>s. s) (ks_store sample_switch)" by (simp add: sample_switch_def new_switch_def reachable_empty)
  have e: "engaged sample_switch" by (simp add: engaged_def latched_def sample_switch_def new_switch_def)
  have run: "?run = (Ok (Some x), snd ?run)" using x(1) by (metis prod.collapse)
  let ?later = "new_switch (ks_store (snd ?run)) False None [] []"
  have s: "ks_store ?later = ks_store (snd ?run)" by (simp add: new_switch_def)
  have n: "\<And>y m. Some x = Some y \<Longrightarrow> fst (append (\<lambda>s. s) (ks_store sample_switch) y) \<noteq> Err (IntegrityError m)"
    using x(2) by (auto simp: is_ok_def split: sum.splits)
  have "\<exists>state k2. kill_poll ?later = (Ok state, k2) \<and> kl_active state"
    by (rule observed_kill_latches [OF r e run n]) (simp_all add: s)
  with x(1) show ?thesis by blast
qed

text \<open>
  C39: only a human clears the switch, with a fresh approval, and only when nothing live holds it. A clear
  that succeeds was signed by a human who is not a seat, with a \<open>killswitch_clear\<close> approval, while
  neither env nor the latch file nor a pending alert was set; afterwards the switch polls as off; and
  that approval is spent for good: on every later state of the ledger, after any appends, batches and
  snapshots, every switch object refuses a clear that presents it again, for whatever reason and at
  whatever time.
\<close>

theorem clear_is_human_and_single_use:
  assumes "reachable H (ks_store k)" "request_clear H env_now a reason ts source cid k = (Ok row, k')"
    and "(store_step H)\<^sup>*\<^sup>* (ks_store k') (ks_store later)"
  shows "human_signer (ap_approved_by a) \<and> ap_kind a = Killswitch_clear
    \<and> \<not> env_engaged env_now \<and> \<not> latched k \<and> ks_pending k = None
    \<and> fst (kill_poll k') = Ok kill_off
    \<and> (\<exists>m. request_clear H env' a reason' ts' source' cid' later = (Err (ClearRefused m), later))"
proof -
  let ?c = "cleared_entry H a reason ts source cid" and ?u = "consumed_entry a reason ts source cid"
  obtain r1 r2 st1 where c: "human_signer (ap_approved_by a)" "ap_kind a = Killswitch_clear" "live_sources env_now k = []"
    "append H (ks_store k) ?c = (Ok r1, st1)" "append H st1 ?u = (Ok r2, ks_store k')" "k' = k\<lparr>ks_store := ks_store k'\<rparr>"
    by (rule request_clear_Ok [OF assms(1,2)])
  note p = ledger.put_ok [OF c(4)] ledger.put_ok [OF c(5)]
  have reach: "reachable H (ks_store k')" by (rule reachable_append_ok [OF reachable_append_ok [OF assms(1) c(4)] c(5)])
  have live: "\<not> env_engaged env_now" "\<not> env_engaged (Some (ks_env_start k))" "\<not> latched k" "ks_pending k = None"
    using c(3) by (auto simp: live_sources_def split: if_splits)
  have ty: "x_type ?c = ''KillSwitchCleared''" "x_type ?u = ''ApprovalRecorded''"
    by (simp_all add: cleared_entry_def consumed_entry_def approval_entry_def)
  have last: "last_set (ks_store k') = None"
    using p ty by (simp add: last_set_def latest_set_step_def)
  have same: "ks_env_start k' = ks_env_start k" "latched k' = latched k" "ks_pending k' = ks_pending k"
    by (subst c(6); simp add: latched_def)+
  have "fst (engaged_state k') = Ok kill_off"
    using live by (simp add: engaged_state_def same latest_set_reachable [OF reach] last ledger_state_def bind_def)
  then have "fst (kill_poll k') = Ok kill_off"
    by (auto simp: kill_poll_def bind_def kill_off_def split: prod.splits)
  moreover have "reachable H (ks_store later)" using reach assms(3) unfolding reachable_def by simp
  then have "\<exists>m. request_clear H env' a reason' ts' source' cid' later = (Err (ClearRefused m), later)"
    using p(2) store_steps_prefix [OF assms(3)]
    by (intro request_clear_refused) (auto simp: consumed_entry_def approval_entry_def)
  ultimately show ?thesis using c live by blast
qed

text \<open>
  C40: a reason clears the switch once per UTC day. After a clear, whatever is appended later, even a new
  engagement of the switch, a second clear with the same reason text on the same day is refused with
  "already cleared", whoever signs it: the key of a clear carries no epoch, unlike the key of a set.
\<close>

theorem same_reason_clears_once_a_day:
  assumes "reachable H (ks_store k)" "request_clear H env_now a reason ts source cid k = (Ok row, k')"
    and "(store_step H)\<^sup>*\<^sup>* (ks_store k') (ks_store later)" "take 10 ts' = take 10 ts"
  shows "\<exists>m. request_clear H env' b reason ts' source' cid' later = (Err (ClearRefused m), later)"
proof -
  let ?c = "cleared_entry H a reason ts source cid" and ?u = "consumed_entry a reason ts source cid"
  obtain r1 r2 st1 where c: "append H (ks_store k) ?c = (Ok r1, st1)" "append H st1 ?u = (Ok r2, ks_store k')"
    by (rule request_clear_Ok [OF assms(1,2)])
  note p = ledger.put_ok [OF c(1)] ledger.put_ok [OF c(2)]
  have reach: "reachable H (ks_store later)"
    using reachable_append_ok [OF reachable_append_ok [OF assms(1) c(1)] c(2)] assms(3) unfolding reachable_def by simp
  have "x_key (cleared_entry H b reason ts' source' cid') = r_key r1" using p(1) assms(4) by (simp add: cleared_entry_def)
  moreover have "r1 \<in> set (events (ks_store later))" using p store_steps_prefix [OF assms(3)] by auto
  ultimately show ?thesis by (intro request_clear_refused [OF reach]) force
qed

definition sample_clear :: "string \<Rightarrow> approval" where
  "sample_clear i = \<lparr>ap_id = i, ap_kind = Killswitch_clear, ap_ticket_id = None, ap_mint = None, ap_size_lamports = None,
     ap_token_units = None, ap_max_slippage_bps = None, ap_exit_rule_id = None, ap_approved_by = ''human:ann'',
     ap_raw_message = ''clear'', ap_at = ''2026-01-01T00:00:00+00:00'', ap_consumed = False\<rparr>"

definition quiet_switch :: "store \<Rightarrow> kill_switch" where
  "quiet_switch st = new_switch st True None [] []"

definition cleared_sample :: entry where
  "cleared_sample = cleared_entry (take 60) (sample_clear ''apr-1'') ''checked'' ''2026-01-01T00:00:00.000000Z'' ''paper'' ''desk''"

definition consumed_sample :: entry where
  "consumed_sample = consumed_entry (sample_clear ''apr-1'') ''checked'' ''2026-01-01T00:00:00.000000Z'' ''paper'' ''desk''"

definition reengaged_sample :: entry where
  "reengaged_sample = kill_set_entry (take 60) (kill_on ''file'' ''again'' False) 1 ''2026-01-01T08:00:00.000000Z'' ''paper'' ''desk''"

definition clear_store_1 :: store where "clear_store_1 = snd (append (take 60) empty_store cleared_sample)"
definition clear_store_2 :: store where "clear_store_2 = snd (append (take 60) clear_store_1 consumed_sample)"

lemma cleared_sample_Ok: "\<exists>r. append (take 60) empty_store cleared_sample = (Ok r, clear_store_1)"
proof -
  have "is_ok (fst (append (take 60) empty_store cleared_sample))" by code_simp
  then show ?thesis unfolding clear_store_1_def by (metis is_ok_iff prod.collapse)
qed

lemma consumed_sample_Ok: "\<exists>r. append (take 60) clear_store_1 consumed_sample = (Ok r, clear_store_2)"
proof -
  have "is_ok (fst (append (take 60) clear_store_1 consumed_sample))" by code_simp
  then show ?thesis unfolding clear_store_2_def by (metis is_ok_iff prod.collapse)
qed

lemma reengaged_sample_Ok: "\<exists>r st. append (take 60) clear_store_2 reengaged_sample = (Ok r, st)"
proof -
  have "is_ok (fst (append (take 60) clear_store_2 reengaged_sample))" by code_simp
  then show ?thesis by (metis is_ok_iff prod.collapse)
qed

lemma quiet_switch_simps [simp]:
  "ks_store (quiet_switch st) = st" "live_sources None (quiet_switch st) = []"
  by (simp_all add: quiet_switch_def new_switch_def live_sources_def env_engaged_def latched_def strip_def lstrip_def)

lemma clear_run:
  "request_clear (take 60) None (sample_clear ''apr-1'') ''checked'' ''2026-01-01T00:00:00.000000Z'' ''paper'' ''desk'' (quiet_switch empty_store)
    = (Ok cleared_sample, quiet_switch clear_store_2)"
proof -
  have "human_signer (ap_approved_by (sample_clear ''apr-1''))" "ap_kind (sample_clear ''apr-1'') = Killswitch_clear"
    by code_simp+
  note signer = this
  obtain r1 r2 where r: "append (take 60) (ks_store (quiet_switch empty_store)) cleared_sample = (Ok r1, clear_store_1)"
    "append (take 60) clear_store_1 consumed_sample = (Ok r2, clear_store_2)"
    using cleared_sample_Ok consumed_sample_Ok by auto
  have reach: "reachable (take 60) (ks_store (quiet_switch empty_store))" by (simp add: reachable_empty)
  have "(quiet_switch empty_store)\<lparr>ks_store := clear_store_2\<rparr> = quiet_switch clear_store_2"
    by (simp add: quiet_switch_def new_switch_def)
  then show ?thesis
    using request_clear_run [OF reach signer quiet_switch_simps(2)
        r(1) [unfolded cleared_sample_def] r(2) [unfolded consumed_sample_def]]
    by (simp add: cleared_sample_def)
qed

lemma reengaged_switch:
  obtains later :: kill_switch where "(store_step (take 60))\<^sup>*\<^sup>* (ks_store (quiet_switch clear_store_2)) (ks_store later)" "last_set (ks_store later) \<noteq> None"
proof -
  obtain x st where a: "append (take 60) clear_store_2 reengaged_sample = (Ok x, st)" using reengaged_sample_Ok by blast
  have "reachable (take 60) clear_store_2"
    unfolding clear_store_2_def clear_store_1_def by (intro reachable_append reachable_empty)
  then have "last_set (ks_store (quiet_switch st)) \<noteq> None"
    using last_set_appended [OF _ a] by (simp add: reengaged_sample_def kill_set_entry_def)
  with that [of "quiet_switch st"] show thesis by (simp add: r_into_rtranclp step_append [OF a])
qed

theorem clear_is_human_and_single_use_witness:
  \<comment> \<open>the switch is cleared, engaged again, and the next day the same approval is presented once more\<close>
  "human_signer ''human:ann'' \<and> fst (kill_poll (quiet_switch clear_store_2)) = Ok kill_off
    \<and> (\<exists>later m. last_set (ks_store later) \<noteq> None
        \<and> request_clear (take 60) None (sample_clear ''apr-1'') ''again'' ''2026-01-02T00:00:00.000000Z'' ''paper'' ''desk'' later
          = (Err (ClearRefused m), later))"
proof -
  have reach: "reachable (take 60) (ks_store (quiet_switch empty_store))" by (simp add: reachable_empty)
  obtain later :: kill_switch where l: "(store_step (take 60))\<^sup>*\<^sup>* (ks_store (quiet_switch clear_store_2)) (ks_store later)" "last_set (ks_store later) \<noteq> None"
    by (rule reengaged_switch)
  note c = clear_is_human_and_single_use [OF reach clear_run l(1)]
  have "human_signer ''human:ann'' \<and> fst (kill_poll (quiet_switch clear_store_2)) = Ok kill_off"
    using c by (simp add: sample_clear_def)
  then show ?thesis using c l(2) by blast
qed

theorem same_reason_clears_once_a_day_witness:
  "\<exists>later m. last_set (ks_store later) \<noteq> None
    \<and> request_clear (take 60) None (sample_clear ''apr-2'') ''checked'' ''2026-01-01T09:00:00.000000Z'' ''paper'' ''desk'' later
      = (Err (ClearRefused m), later)"
proof -
  obtain later :: kill_switch where l: "(store_step (take 60))\<^sup>*\<^sup>* (ks_store (quiet_switch clear_store_2)) (ks_store later)" "last_set (ks_store later) \<noteq> None"
    by (rule reengaged_switch)
  have reach: "reachable (take 60) (ks_store (quiet_switch empty_store))" by (simp add: reachable_empty)
  have "take 10 ''2026-01-01T09:00:00.000000Z'' = take 10 ''2026-01-01T00:00:00.000000Z''" by simp
  then show ?thesis using same_reason_clears_once_a_day [OF reach clear_run l(1)] l(2) by blast
qed

end
