(* ===== verification/RiskSteps.thy ===== *)
theory RiskSteps
  imports Breakers KillSwitch Views
begin

text \<open>
  The risk engine's data and its 19 steps (\<open>risk/engine/constants.py\<close>, \<open>model.py\<close>, \<open>steps.py\<close>,
  \<open>rules.py\<close>, \<open>risk/limits.py\<close>, \<open>core/risk_budget.py\<close>). The engine, the kill switch and the breakers
  hold one ledger handle: \<open>en_store\<close> is that ledger, and \<open>with_kill\<close> and \<open>with_breakers\<close> run a
  component on it. A refusal of a step is \<open>StepFail reason detail\<close>. The clock reading of a check is
  \<open>cl_now\<close>; the seat bound to the calling task is \<open>cl_calling\<close>; curve reserves and the live gate's
  unmet conditions are the callbacks of the configuration.
\<close>

section \<open>Vocabulary\<close>

definition STEP_IDS :: "string list" where
  "STEP_IDS = [''ledger_inconsistent'', ''kill_switch'', ''halted'', ''breaker_open'', ''live_gate'',
     ''approval_missing'', ''approval_mismatch'', ''seat_may_trade'', ''max_trades_per_day'',
     ''max_open_positions'', ''already_open'', ''creator_already_open'', ''max_trade_fraction'',
     ''max_token_fraction'', ''daily_loss_halt'', ''drawdown_halt'', ''data_stale'', ''size_too_small'',
     ''below_liquidity_floor'']"

definition EXIT_SKIP_STEPS :: "string list" where
  "EXIT_SKIP_STEPS = [''kill_switch'', ''halted'', ''breaker_open'', ''max_trades_per_day'',
     ''max_open_positions'', ''already_open'', ''creator_already_open'', ''max_trade_fraction'',
     ''max_token_fraction'', ''daily_loss_halt'', ''drawdown_halt'', ''data_stale'', ''size_too_small'',
     ''below_liquidity_floor'']"

definition EXIT_SELL_REASONS :: "string list" where
  "EXIT_SELL_REASONS = [''exit_rule'', ''rug_alert'', ''kill_flatten'', ''blind_flatten'', ''graduated''] @ EXIT_RULE_REASONS"

definition RULE_EXIT_REASONS :: "string list" where
  "RULE_EXIT_REASONS = EXIT_RULE_REASONS"

definition SYSTEM_EXIT_REASONS :: "string list" where
  "SYSTEM_EXIT_REASONS = [''kill_flatten'', ''rug_alert'']"

definition BUY_SEAT :: string where "BUY_SEAT = ''bot-04-sniper''"
definition SELL_SEAT :: string where "SELL_SEAT = ''bot-06-exit''"

definition FLOOR_HALTED_DAILY :: string where
  \<comment> \<open>the dash is U+2013, above the modelled code points, and is written as a hyphen\<close>
  "FLOOR_HALTED_DAILY = ''FLOOR HALTED - DAILY LOSS LIMIT''"

definition RECHECK_STEPS :: "string list" where
  "RECHECK_STEPS = [''ledger_inconsistent'', ''kill_switch'', ''halted'', ''breaker_open'',
     ''max_open_positions'', ''already_open'', ''creator_already_open'', ''max_trade_fraction'',
     ''max_token_fraction'', ''daily_loss_halt'', ''drawdown_halt'', ''data_stale'', ''size_too_small'',
     ''below_liquidity_floor'']"

definition kill_verdict_mint :: "string \<Rightarrow> string option" where
  \<comment> \<open>the \<open>mint\<close> group of \<open>KILL_VERDICT_RE\<close>; a final newline is outside \<open>$\<close>\<close>
  "kill_verdict_mint s =
     (let pre = ''RISK verdict=KILL mint=''; body = drop (length pre) s;
          mint = takeWhile (\<lambda>c. \<not> is_space c) body; rest = dropWhile (\<lambda>c. \<not> is_space c) body;
          arg = drop 7 (lstrip rest); arg' = (if arg \<noteq> [] \<and> last arg = CHR 0x0A then butlast arg else arg)
      in if \<not> startswith s pre \<or> mint = [] then None
         else if rest = [] \<or> rest = [CHR 0x0A] then Some mint
         else if startswith (lstrip rest) ''reason='' \<and> CHR 0x0A \<notin> set arg' then Some mint
         else None)"

section \<open>Budget and limits\<close>

record risk_budget =
  rb_max_trade_fraction :: dec
  rb_max_token_fraction :: dec
  rb_daily_loss_halt_fraction :: dec
  rb_drawdown_halt_fraction :: dec
  rb_max_open_positions :: int
  rb_max_trades_per_day :: int
  rb_liquidity_floor_multiple :: int
  rb_partial_fill_fraction :: dec
  rb_paper_equity_sol :: dec

definition fraction_ok :: "dec \<Rightarrow> bool" where
  "fraction_ok d \<longleftrightarrow> is_finite d \<and> 0 \<le> dec_val d \<and> dec_val d \<le> 1"

definition budget_ok :: "risk_budget \<Rightarrow> bool" where
  \<comment> \<open>what validation of a budget accepts\<close>
  "budget_ok b \<longleftrightarrow> fraction_ok (rb_max_trade_fraction b) \<and> fraction_ok (rb_max_token_fraction b)
     \<and> fraction_ok (rb_daily_loss_halt_fraction b) \<and> dec_val (rb_daily_loss_halt_fraction b) \<le> 5 / 100
     \<and> fraction_ok (rb_drawdown_halt_fraction b) \<and> 0 \<le> rb_max_open_positions b \<and> 0 \<le> rb_max_trades_per_day b
     \<and> 1 \<le> rb_liquidity_floor_multiple b \<and> fraction_ok (rb_partial_fill_fraction b)
     \<and> 0 < dec_val (rb_partial_fill_fraction b) \<and> is_finite (rb_paper_equity_sol b) \<and> 0 < dec_val (rb_paper_equity_sol b)"

definition default_budget :: risk_budget where
  "default_budget = \<lparr>rb_max_trade_fraction = DFin False 2 (-2), rb_max_token_fraction = DFin False 5 (-2),
     rb_daily_loss_halt_fraction = DFin False 5 (-2), rb_drawdown_halt_fraction = DFin False 15 (-2),
     rb_max_open_positions = 3, rb_max_trades_per_day = 20, rb_liquidity_floor_multiple = 10,
     rb_partial_fill_fraction = DFin False 2 (-2), rb_paper_equity_sol = DFin False 10 0\<rparr>"

definition budget_equity_lamports :: "risk_budget \<Rightarrow> int result" where
  "budget_equity_lamports b = of_option (ValueError ''paper_equity_sol'') (sol_to_lamports (rb_paper_equity_sol b))"

definition may_open_exposure :: "risk_budget \<Rightarrow> bool" where
  "may_open_exposure b \<longleftrightarrow> dec_val (rb_max_trade_fraction b) > 0 \<and> rb_max_open_positions b > 0"

record engine_limits =
  lm_min_trade_lamports :: int
  lm_max_slippage_bps :: int
  lm_one_position_per_creator :: bool
  lm_realized_basis :: bool
  lm_blind_max_s :: rat
  lm_mtm_interval_s :: rat
  lm_confirm_timeout_s :: rat

definition default_limits :: engine_limits where
  "default_limits = \<lparr>lm_min_trade_lamports = 10000000, lm_max_slippage_bps = 300, lm_one_position_per_creator = True,
     lm_realized_basis = False, lm_blind_max_s = 300, lm_mtm_interval_s = 60, lm_confirm_timeout_s = 30\<rparr>"

definition dec_trunc :: "dec \<Rightarrow> int result" where
  \<comment> \<open>\<open>int(d)\<close>\<close>
  "dec_trunc d = (case d of DFin s c e \<Rightarrow> Ok (dec_signed s (if e \<ge> 0 then c * 10 ^ nat e else c div 10 ^ nat (- e)))
     | _ \<Rightarrow> Err (ValueError ''cannot convert to integer''))"

definition fixed :: "nat \<Rightarrow> rat \<Rightarrow> string" where
  \<comment> \<open>the format \<open>.nf\<close> of a number that is not negative\<close>
  "fixed n x = (let m = rhe (x * 10 ^ n) in int_str (m div 10 ^ n) @ ''.'' @ padn n (m mod 10 ^ n))"

section \<open>Decisions, engine and walk state\<close>

datatype stage = ACCEPTED | CONFIRMING

definition stage_value :: "stage \<Rightarrow> string" where
  "stage_value s = (case s of ACCEPTED \<Rightarrow> ''ACCEPTED'' | CONFIRMING \<Rightarrow> ''CONFIRMING'')"

record decision =
  d_passed :: bool
  d_reason :: string
  d_order_hash :: string
  d_decision_id :: string
  d_approval_id :: "string option"
  d_approval :: "approval option"
  d_size_lamports :: "int option"
  d_token_units :: "int option"
  d_capped :: bool
  d_caps :: "(string, int) dict"
  d_probe :: bool
  d_evaluated :: "(string \<times> string) list"

record engine =
  en_store :: store
  en_kill :: kill_switch
  en_breakers :: breaker_set
  en_decisions :: "(string, decision) dict"
  en_owners :: "(string, string) dict"
  en_last_ulid :: int
  en_bits :: "nat \<Rightarrow> int"
  en_drawn :: nat
  en_observe_only :: "string list"
  en_degraded :: "bool option"

record engine_config =
  cf_budget :: risk_budget
  cf_limits :: engine_limits
  cf_paper :: bool
  cf_autonomous :: bool
  cf_scan_verdicts :: bool
  cf_reserves :: "(string \<Rightarrow> (int \<times> int) option) option"
  cf_live_check :: "string list option"

record call =
  cl_now :: rat
  cl_calling :: "string option"

record step_ctx =
  cx_order :: order_request
  cx_seat :: "string option"
  cx_exit_reason :: "string option"
  cx_creator :: "string option"
  cx_source :: string
  cx_cid :: string
  cx_stage :: stage
  cx_is_buy :: bool
  cx_is_exit_sell :: bool
  cx_wanted :: "approval_kind list"
  cx_state :: lstate
  cx_kill :: "(string \<times> string \<times> bool) option"
  cx_open :: "string list"
  cx_killed :: "string list"
  cx_equity :: int
  cx_approvals :: "(string, approval) dict"
  cx_half_blocked :: bool
  cx_evaluated :: "(string, string) dict"
  cx_approval :: "approval option"
  cx_approval_id :: "string option"
  cx_final_size :: "int option"
  cx_caps :: "(string, int) dict"
  cx_capped :: bool
  cx_probe :: bool

record walk =
  wk_engine :: engine
  wk_ctx :: step_ctx

definition with_kill :: "(kill_switch, 'a) eff \<Rightarrow> (engine, 'a) eff" where
  "with_kill m s = (case m ((en_kill s)\<lparr>ks_store := en_store s\<rparr>) of (r, k) \<Rightarrow> (r, s\<lparr>en_kill := k, en_store := ks_store k\<rparr>))"

definition with_breakers :: "(breaker_set, 'a) eff \<Rightarrow> (engine, 'a) eff" where
  "with_breakers m s = (case m ((en_breakers s)\<lparr>bs_store := en_store s\<rparr>) of
     (r, b) \<Rightarrow> (r, s\<lparr>en_breakers := b, en_store := bs_store b\<rparr>))"

definition in_engine :: "(engine, 'a) eff \<Rightarrow> (walk, 'a) eff" where
  "in_engine m w = (case m (wk_engine w) of (r, s) \<Rightarrow> (r, w\<lparr>wk_engine := s\<rparr>))"

definition get_ctx :: "(walk, step_ctx) eff" where
  "get_ctx w = (Ok (wk_ctx w), w)"

definition modify_ctx :: "(step_ctx \<Rightarrow> step_ctx) \<Rightarrow> (walk, unit) eff" where
  "modify_ctx f w = (Ok (), w\<lparr>wk_ctx := f (wk_ctx w)\<rparr>)"

definition mark :: "string \<Rightarrow> (walk, unit) eff" where
  "mark step = modify_ctx (\<lambda>c. c\<lparr>cx_evaluated := dict_set (cx_evaluated c) step ''pass''\<rparr>)"

definition fail :: "string \<Rightarrow> string \<Rightarrow> ('s, 'a) eff" where
  "fail reason detail = raise (StepFail reason detail)"

definition en_append :: "(string \<Rightarrow> string) \<Rightarrow> entry \<Rightarrow> (engine, unit) eff" where
  "en_append H x s = (case append H (en_store s) x of (r, st') \<Rightarrow> (rbind r (\<lambda>_. Ok ()), s\<lparr>en_store := st'\<rparr>))"

definition suppressed :: "err \<Rightarrow> bool" where
  \<comment> \<open>\<open>_suppress_integrity\<close>\<close>
  "suppressed e = (case e of IntegrityError _ \<Rightarrow> True | LedgerInconsistent _ _ \<Rightarrow> True | _ \<Rightarrow> False)"

definition order_hash_for :: "(string \<Rightarrow> string) \<Rightarrow> order_request \<Rightarrow> string result" where
  "order_hash_for H r =
     (let oi = (\<lambda>x. case x of None \<Rightarrow> PNone | Some i \<Rightarrow> PInt i) in
      rbind (canonical_json [(''ticket_id'', PStr (o_ticket_id r)), (''side'', PStr (side_value (o_side r))),
        (''decision_id'', PStr (o_decision_id r)), (''mint'', PStr (o_mint r)), (''size_lamports'', oi (o_size_lamports r)),
        (''token_units'', oi (o_token_units r)), (''max_slippage_bps'', PInt (o_max_slippage_bps r))]) (\<lambda>s. Ok (H s)))"

definition halt_key :: "(string \<Rightarrow> string) \<Rightarrow> string \<Rightarrow> string \<Rightarrow> string" where
  "halt_key H reason day = H (''HaltSet|'' @ reason @ ''|'' @ day)"

definition utc_day :: "rat \<Rightarrow> string result" where
  "utc_day now = rbind (format_ts_utc now) (\<lambda>s. Ok (take 10 s))"

section \<open>Reading the ledger\<close>

definition engine_fold :: "engine_config \<Rightarrow> rat \<Rightarrow> store \<Rightarrow> lstate result" where
  "engine_fold cf now st =
     rbind (read st 1 [] None None None) (\<lambda>es.
     rbind (case get_meta st ''initial_equity_lamports'' None of
        Some m \<Rightarrow> of_option (ValueError ''invalid literal for int()'') (int_of_str m)
      | None \<Rightarrow> budget_equity_lamports (cf_budget cf)) (\<lambda>e0.
     let source = (case get_meta st ''source'' None of
        Some (c # cs) \<Rightarrow> c # cs
      | _ \<Rightarrow> (case es of e # _ \<Rightarrow> e_source e | [] \<Rightarrow> ''paper'')) in
     rbind (utc_day now) (\<lambda>day. fold_events (initial_state source e0 day) es)))"

definition equity_for_halts :: "engine_config \<Rightarrow> lstate \<Rightarrow> int" where
  "equity_for_halts cf s = (if lm_realized_basis (cf_limits cf)
     then l_cash s + c_realized_today (l_counters s) else equity_lamports s)"

definition cleared_today :: "string \<Rightarrow> store \<Rightarrow> bool result" where
  "cleared_today today st = rbind (read st 0 [] None None None) (\<lambda>es.
     Ok (list_ex (\<lambda>e. e_type e = ''HaltCleared'' \<and> take 10 (e_ts e) = today) es))"

definition creator_open :: "string \<Rightarrow> lstate \<Rightarrow> bool" where
  "creator_open creator s = list_ex (\<lambda>p. p_token_units p > 0 \<and> p_creator p = creator) (dict_values (l_positions s))"

definition opened_creator :: "string \<Rightarrow> string option \<Rightarrow> event \<Rightarrow> string option result" where
  "opened_creator mint found e = (case found of Some c \<Rightarrow> Ok (Some c)
     | None \<Rightarrow> if e_type e \<noteq> ''PositionOpened'' then Ok None
         else (case e_payload e of
            JObj kvs \<Rightarrow> rbind (row_str kvs ''mint'' []) (\<lambda>m.
              if m = mint then rbind (row_str kvs ''creator'' []) (\<lambda>c. Ok (Some c)) else Ok None)
          | _ \<Rightarrow> Ok None))"

definition creator_of :: "string \<Rightarrow> lstate \<Rightarrow> store \<Rightarrow> string result" where
  "creator_of mint s st =
     (case map_of (l_positions s) mint of
        Some p \<Rightarrow> if p_creator p \<noteq> [] then Ok (p_creator p)
          else rbind (read st 0 [] None None None) (\<lambda>es. rbind (rfold (opened_creator mint) None es) (\<lambda>c. Ok (or_default [] c)))
      | None \<Rightarrow> rbind (read st 0 [] None None None) (\<lambda>es. rbind (rfold (opened_creator mint) None es) (\<lambda>c. Ok (or_default [] c))))"

section \<open>Halt detection\<close>

definition halt_entry :: "(string \<Rightarrow> string) \<Rightarrow> string \<Rightarrow> string \<Rightarrow> int \<Rightarrow> int \<Rightarrow> string \<Rightarrow> string \<Rightarrow> string \<Rightarrow> entry" where
  "halt_entry H reason detail equity0 day_start ts source cid =
     \<lparr>x_ts = ts, x_source = source, x_cid = cid, x_key = halt_key H reason (take 10 ts), x_type = ''HaltSet'',
      x_payload = [(''source'', PStr source), (''reason'', PStr reason), (''detail'', PStr detail),
        (''equity_lamports'', PInt equity0), (''day_start_equity_lamports'', PInt day_start), (''set_by'', PStr ''risk_engine'')]\<rparr>"

definition daily_loss_met :: "dec \<Rightarrow> int \<Rightarrow> int \<Rightarrow> bool" where
  "daily_loss_met limit day_start equity0 =
     (case quotient_of (dec_val limit) of (n, d) \<Rightarrow> (day_start - equity0) * d \<ge> day_start * n)"

definition drawdown_of :: "int \<Rightarrow> int \<Rightarrow> rat" where
  "drawdown_of peak equity0 = (if peak > 0 then fl (of_int (peak - equity0) / of_int peak) else 0)"

definition detect_breach :: "(string \<Rightarrow> string) \<Rightarrow> engine_config \<Rightarrow> lstate \<Rightarrow> int \<Rightarrow> string \<Rightarrow> string \<Rightarrow> string
    \<Rightarrow> (engine, string option) eff" where
  "detect_breach H cf state equity0 ts source cid = bind get (\<lambda>s.
     bind (lift (cleared_today (take 10 ts) (en_store s))) (\<lambda>cleared.
     if cleared then ret None
     else let day_start = l_day_start_equity state; peak = l_peak_equity state in
       if day_start \<le> 0 then raise (CorruptState ''daily-loss check failed: day-start equity is not positive'')
       else let limit = fl (dec_val (rb_drawdown_halt_fraction (cf_budget cf))); drawdown = drawdown_of peak equity0 in
         if daily_loss_met (rb_daily_loss_halt_fraction (cf_budget cf)) day_start equity0
         then bind (suppressing suppressed (en_append H
             (halt_entry H ''daily_loss'' FLOOR_HALTED_DAILY equity0 day_start ts source cid))) (\<lambda>_. ret (Some ''daily_loss''))
         else if drawdown \<ge> limit
         then bind (suppressing suppressed (en_append H
             (halt_entry H ''drawdown'' (''drawdown '' @ fixed 4 drawdown @ '' >= '' @ fixed 2 limit @ '' of peak'')
                equity0 day_start ts source cid))) (\<lambda>_. ret (Some ''drawdown''))
         else ret None))"

definition en_verify :: "(string \<Rightarrow> string) \<Rightarrow> (engine, bool) eff" where
  "en_verify H s = (case verify H (en_store s) of (r, st') \<Rightarrow> (r, s\<lparr>en_store := st'\<rparr>))"

definition evaluate_halts :: "(string \<Rightarrow> string) \<Rightarrow> engine_config \<Rightarrow> rat \<Rightarrow> string \<Rightarrow> string \<Rightarrow> (engine, string option) eff" where
  "evaluate_halts H cf now source cid s =
     (case en_verify H s of
        (Inl (LedgerInconsistent n m), s1) \<Rightarrow> (Ok None, s1)
      | (Inl e, s1) \<Rightarrow> (Err e, s1)
      | (Inr _, s1) \<Rightarrow> bind (lift (engine_fold cf now (en_store s1))) (\<lambda>state.
          if h_active (l_halt state) then ret None
          else bind (lift (format_ts_utc now)) (\<lambda>ts. detect_breach H cf state (equity_for_halts cf state) ts source cid)) s1)"

section \<open>The stop steps\<close>

definition now_ts :: "call \<Rightarrow> string result" where
  "now_ts cl = format_ts_utc (cl_now cl)"

definition step_ledger_inconsistent :: "(string \<Rightarrow> string) \<Rightarrow> call \<Rightarrow> (walk, unit) eff" where
  "step_ledger_inconsistent H cl = bind (mark ''ledger_inconsistent'') (\<lambda>_. bind get_ctx (\<lambda>c. (\<lambda>w.
     case in_engine (en_verify H) w of
        (Inl (LedgerInconsistent n m), w1) \<Rightarrow>
          bind (suppressing suppressed (bind (lift (now_ts cl)) (\<lambda>ts.
            in_engine (en_append H (halt_entry H ''ledger_inconsistent'' (''chain verify failed: '' @ m) 0 0 ts (cx_source c) (cx_cid c))))))
            (\<lambda>_. fail ''ledger_inconsistent'' ''chain verify failed'') w1
      | (Inl e, w1) \<Rightarrow> (Err e, w1)
      | (Inr _, w1) \<Rightarrow> (Ok (), w1))))"

definition step_kill_switch :: "(walk, unit) eff" where
  "step_kill_switch = bind (mark ''kill_switch'') (\<lambda>_. bind get_ctx (\<lambda>c.
     case cx_kill c of None \<Rightarrow> ret () | Some (source, _, _) \<Rightarrow> fail ''kill_switch'' (''source='' @ source)))"

definition step_halted :: "(walk, unit) eff" where
  "step_halted = bind (mark ''halted'') (\<lambda>_. bind get_ctx (\<lambda>c.
     if h_active (l_halt (cx_state c)) then fail ''halted'' (''reason='' @ h_reason (l_halt (cx_state c))) else ret ()))"

definition escalation_entry :: "string \<Rightarrow> string \<Rightarrow> string \<Rightarrow> entry" where
  "escalation_entry ts source cid =
     \<lparr>x_ts = ts, x_source = source, x_cid = cid, x_key = ''reputation-degraded|'' @ take 10 ts, x_type = ''Escalation'',
      x_payload = [(''source'', PStr source), (''kind'', PStr ''reputation_degraded''), (''seat'', PStr ''bot-02-risk''),
        (''detail'', PStr ''reputation book degraded: buys refused until restore or rebuild'')]\<rparr>"

definition write_reputation_escalation :: "(string \<Rightarrow> string) \<Rightarrow> call \<Rightarrow> step_ctx \<Rightarrow> (walk, unit) eff" where
  "write_reputation_escalation H cl c =
     (let source = (if cx_source c \<in> {''paper'', ''replay'', ''manual''} then cx_source c else ''paper'') in
      bind (lift (now_ts cl)) (\<lambda>ts. suppressing suppressed (in_engine (en_append H (escalation_entry ts source (cx_cid c))))))"

definition step_breaker_open :: "(string \<Rightarrow> string) \<Rightarrow> call \<Rightarrow> (walk, unit) eff" where
  "step_breaker_open H cl = bind (mark ''breaker_open'') (\<lambda>_. bind get_ctx (\<lambda>c. bind (in_engine get) (\<lambda>s.
     if cx_is_buy c \<and> en_degraded s = Some True
     then bind (write_reputation_escalation H cl c) (\<lambda>_. fail ''reputation_degraded'' ''reputation book degraded'')
     else if cx_open c \<noteq> [] then fail ''breaker_open'' (''breaker='' @ hd (sort (cx_open c)))
     else if o_mint (cx_order c) \<in> set (cx_killed c) then fail ''breaker_open'' (''risk_kill:'' @ o_mint (cx_order c))
     else if cx_half_blocked c then fail ''breaker_open'' ''probe inflight''
     else ret ())))"

definition commas :: "string list \<Rightarrow> string" where
  "commas ss = (case ss of [] \<Rightarrow> [] | x # xs \<Rightarrow> x @ concat (map (\<lambda>y. '','' @ y) xs))"

definition step_live_gate :: "engine_config \<Rightarrow> (walk, unit) eff" where
  "step_live_gate cf = bind (mark ''live_gate'') (\<lambda>_.
     if cf_paper cf then ret ()
     else let unmet = (case cf_live_check cf of Some u \<Rightarrow> u | None \<Rightarrow> [''adapter_registered'']) in
       if unmet \<noteq> [] then fail ''live_gate'' (''unmet='' @ commas unmet) else ret ())"

section \<open>The approval and seat steps\<close>

definition fresh_ulid :: "rat \<Rightarrow> (engine, string) eff" where
  "fresh_ulid now = bind get (\<lambda>s. case ulid (en_last_ulid s) \<lfloor>fl (now * 1000)\<rfloor> (en_bits s (en_drawn s)) of (u, newest) \<Rightarrow>
     bind (modify (\<lambda>s. s\<lparr>en_last_ulid := newest, en_drawn := Suc (en_drawn s)\<rparr>)) (\<lambda>_. ret u))"

definition iso_now :: "rat \<Rightarrow> string result" where
  \<comment> \<open>\<open>datetime.fromtimestamp(now, UTC).isoformat()\<close>\<close>
  "iso_now now = rbind (format_ts_utc now) (\<lambda>t.
     Ok (take 19 t @ (if micros_of now mod 1000000 = 0 then [] else take 7 (drop 19 t)) @ ''+00:00''))"

definition mint_autonomous :: "call \<Rightarrow> order_request \<Rightarrow> string option \<Rightarrow> (engine, approval) eff" where
  "mint_autonomous cl r exit_reason = bind (lift (iso_now (cl_now cl))) (\<lambda>at_time. bind (fresh_ulid (cl_now cl)) (\<lambda>u.
     lift (validate_approval (if o_side r = BUY
       then \<lparr>ap_id = ''apr-'' @ u, ap_kind = Autonomous_paper, ap_ticket_id = Some (o_ticket_id r), ap_mint = Some (o_mint r),
          ap_size_lamports = o_size_lamports r, ap_token_units = None, ap_max_slippage_bps = Some (o_max_slippage_bps r),
          ap_exit_rule_id = None, ap_approved_by = ''risk_engine'',
          ap_raw_message = ''autonomous-paper buy '' @ o_ticket_id r @ '' '' @ o_mint r, ap_at = at_time, ap_consumed = False\<rparr>
       else \<lparr>ap_id = ''apr-'' @ u, ap_kind = Autonomous_paper, ap_ticket_id = Some (o_ticket_id r), ap_mint = Some (o_mint r),
          ap_size_lamports = (if o_token_units r = None then o_size_lamports r else None), ap_token_units = o_token_units r,
          ap_max_slippage_bps = Some (o_max_slippage_bps r),
          ap_exit_rule_id = (case exit_reason of Some x \<Rightarrow> if x \<in> set RULE_EXIT_REASONS then Some x else None | None \<Rightarrow> None),
          ap_approved_by = ''risk_engine'',
          ap_raw_message = ''autonomous-paper sell '' @ (case exit_reason of Some (c # cs) \<Rightarrow> c # cs | _ \<Rightarrow> ''exit'') @ '' '' @ o_mint r,
          ap_at = at_time, ap_consumed = False\<rparr>))))"

definition reason_in :: "string option \<Rightarrow> string list \<Rightarrow> bool" where
  "reason_in r xs \<longleftrightarrow> (case r of None \<Rightarrow> False | Some x \<Rightarrow> x \<in> set xs)"

definition step_approval_missing :: "engine_config \<Rightarrow> call \<Rightarrow> (walk, unit) eff" where
  "step_approval_missing cf cl = bind (mark ''approval_missing'') (\<lambda>_. bind get_ctx (\<lambda>c.
     if reason_in (cx_exit_reason c) SYSTEM_EXIT_REASONS \<or> cf_autonomous cf
     then bind (in_engine (mint_autonomous cl (cx_order c) (cx_exit_reason c))) (\<lambda>a.
       modify_ctx (\<lambda>c. c\<lparr>cx_approval := Some a, cx_approval_id := Some (ap_id a)\<rparr>))
     else let presented = o_approval_id (cx_order c);
              found = (if presented \<noteq> [] then map_of (cx_approvals c) presented else None) in
       case found of None \<Rightarrow> fail ''approval_missing'' ''no unconsumed approval for the presented id''
       | Some a \<Rightarrow> if ap_ticket_id a \<noteq> Some (o_ticket_id (cx_order c))
           then fail ''approval_missing'' ''no unconsumed approval for the presented id''
           else modify_ctx (\<lambda>c. c\<lparr>cx_approval := Some a, cx_approval_id := Some (ap_id a)\<rparr>)))"

definition by_engine :: "approval option \<Rightarrow> bool" where
  "by_engine a \<longleftrightarrow> (case a of Some x \<Rightarrow> ap_approved_by x = ''risk_engine'' | None \<Rightarrow> False)"

definition step_approval_mismatch :: "(walk, unit) eff" where
  "step_approval_mismatch = bind (mark ''approval_mismatch'') (\<lambda>_. bind get_ctx (\<lambda>c.
     if by_engine (cx_approval c) then ret ()
     else if (case cx_approval c of None \<Rightarrow> False
        | Some a \<Rightarrow> ap_kind a = Exit_rule \<and> reason_in (cx_exit_reason c) RULE_EXIT_REASONS \<and> ap_exit_rule_id a \<noteq> cx_exit_reason c)
     then fail ''approval_mismatch'' ''exit_rule approval names another rule''
     else if (case cx_approval c of None \<Rightarrow> True
        | Some a \<Rightarrow> ap_kind a \<notin> set (cx_wanted c) \<or> \<not> matches a (cx_order c))
     then fail ''approval_mismatch'' ''approval does not bind this order''
     else ret ()))"

definition step_seat_may_trade :: "call \<Rightarrow> (walk, unit) eff" where
  "step_seat_may_trade cl = bind (mark ''seat_may_trade'') (\<lambda>_. bind get_ctx (\<lambda>c. bind (in_engine get) (\<lambda>s.
     if cx_exit_reason c = Some ''kill_flatten'' \<and> by_engine (cx_approval c) then ret ()
     else case (case cx_seat c of Some x \<Rightarrow> Some x | None \<Rightarrow> cl_calling cl) of
         None \<Rightarrow> fail ''seat_may_trade'' ''no seat bound''
       | Some acting \<Rightarrow>
           if acting \<in> set (en_observe_only s) then fail ''seat_may_trade'' (''seat observe-only: '' @ acting)
           else if ''bot-02-risk'' \<in> set (en_observe_only s) \<and> cx_is_buy c
           then fail ''seat_may_trade'' ''risk seat latched: buys off desk-wide''
           else if ''bot-06-exit'' \<in> set (en_observe_only s) \<and> cx_is_buy c
           then fail ''seat_may_trade'' ''exit seat latched: buys off desk-wide''
           else if cx_is_buy c \<and> acting \<noteq> BUY_SEAT then fail ''seat_may_trade'' (''buys only from '' @ BUY_SEAT)
           else if \<not> cx_is_buy c \<and> acting \<noteq> SELL_SEAT then fail ''seat_may_trade'' (''sells only from '' @ SELL_SEAT)
           else ret ())))"

section \<open>The position and size steps\<close>

definition step_max_trades_per_day :: "engine_config \<Rightarrow> (walk, unit) eff" where
  "step_max_trades_per_day cf = bind (mark ''max_trades_per_day'') (\<lambda>_. bind get_ctx (\<lambda>c.
     let trades = c_trades_today (l_counters (cx_state c)) in
     if trades \<ge> rb_max_trades_per_day (cf_budget cf)
     then fail ''max_trades_per_day'' (''trades_today='' @ int_str trades) else ret ()))"

definition open_count :: "lstate \<Rightarrow> int" where
  "open_count s = int (length (List.filter (\<lambda>p. p_token_units p > 0) (dict_values (l_positions s))))"

definition step_max_open_positions :: "engine_config \<Rightarrow> (walk, unit) eff" where
  "step_max_open_positions cf = bind (mark ''max_open_positions'') (\<lambda>_. bind get_ctx (\<lambda>c.
     if \<not> cx_is_buy c then ret ()
     else if open_count (cx_state c) \<ge> rb_max_open_positions (cf_budget cf)
     then fail ''max_open_positions'' (''open='' @ int_str (open_count (cx_state c))) else ret ()))"

definition holds :: "lstate \<Rightarrow> string \<Rightarrow> bool" where
  "holds s mint \<longleftrightarrow> (case map_of (l_positions s) mint of Some p \<Rightarrow> p_token_units p > 0 | None \<Rightarrow> False)"

definition step_already_open :: "(walk, unit) eff" where
  "step_already_open = bind (mark ''already_open'') (\<lambda>_. bind get_ctx (\<lambda>c.
     if cx_is_buy c \<and> holds (cx_state c) (o_mint (cx_order c))
     then fail ''already_open'' (''mint='' @ o_mint (cx_order c)) else ret ()))"

definition step_creator_already_open :: "engine_config \<Rightarrow> (walk, unit) eff" where
  "step_creator_already_open cf = bind (mark ''creator_already_open'') (\<lambda>_. bind get_ctx (\<lambda>c. bind (in_engine get) (\<lambda>s.
     if \<not> cx_is_buy c \<or> \<not> lm_one_position_per_creator (cf_limits cf) then ret ()
     else bind (lift (case cx_creator c of Some (x # xs) \<Rightarrow> Ok (x # xs)
        | _ \<Rightarrow> creator_of (o_mint (cx_order c)) (cx_state c) (en_store s))) (\<lambda>creator.
       if creator \<noteq> [] \<and> creator_open creator (cx_state c)
       then fail ''creator_already_open'' (''creator='' @ creator) else ret ()))))"

definition sized :: "step_ctx \<Rightarrow> int result" where
  "sized c = (case cx_final_size c of None \<Rightarrow> Err AssertionError | Some n \<Rightarrow> Ok n)"

definition cap_size :: "string \<Rightarrow> int \<Rightarrow> step_ctx \<Rightarrow> step_ctx" where
  "cap_size name cap c = c\<lparr>cx_final_size := Some cap, cx_capped := True, cx_caps := dict_set (cx_caps c) name cap\<rparr>"

definition step_max_trade_fraction :: "engine_config \<Rightarrow> (walk, unit) eff" where
  "step_max_trade_fraction cf = bind (mark ''max_trade_fraction'') (\<lambda>_. bind get_ctx (\<lambda>c.
     if \<not> cx_is_buy c then ret ()
     else bind (lift (sized c)) (\<lambda>n.
       bind (lift (dec_trunc (dec_mul_int (rb_max_trade_fraction (cf_budget cf)) (cx_equity c)))) (\<lambda>cap.
       if n > cap then modify_ctx (cap_size ''max_trade_fraction'' cap) else ret ()))))"

definition step_max_token_fraction :: "engine_config \<Rightarrow> (walk, unit) eff" where
  "step_max_token_fraction cf = bind (mark ''max_token_fraction'') (\<lambda>_. bind get_ctx (\<lambda>c.
     if \<not> cx_is_buy c then ret ()
     else bind (lift (sized c)) (\<lambda>n.
       let basis = (case map_of (l_positions (cx_state c)) (o_mint (cx_order c)) of Some p \<Rightarrow> p_cost_basis p | None \<Rightarrow> 0) in
       bind (lift (dec_trunc (dec_mul_int (rb_max_token_fraction (cf_budget cf)) (cx_equity c)))) (\<lambda>total.
       let cap = total - basis in
       if n > cap
       then if cap < lm_min_trade_lamports (cf_limits cf)
            then fail ''max_token_fraction'' (''cap='' @ int_str cap @ '' below minimum'')
            else modify_ctx (cap_size ''max_token_fraction'' cap)
       else ret ()))))"

section \<open>The halt, mark and liquidity steps\<close>

definition step_daily_loss_halt :: "(string \<Rightarrow> string) \<Rightarrow> engine_config \<Rightarrow> call \<Rightarrow> (walk, unit) eff" where
  "step_daily_loss_halt H cf cl = bind (mark ''daily_loss_halt'') (\<lambda>_. bind get_ctx (\<lambda>c. bind (lift (now_ts cl)) (\<lambda>ts.
     bind (in_engine (detect_breach H cf (cx_state c) (cx_equity c) ts (cx_source c) (cx_cid c))) (\<lambda>breach.
     if breach = Some ''daily_loss'' then fail ''daily_loss_halt'' FLOOR_HALTED_DAILY else ret ()))))"

definition step_drawdown_halt :: "(string \<Rightarrow> string) \<Rightarrow> engine_config \<Rightarrow> call \<Rightarrow> (walk, unit) eff" where
  "step_drawdown_halt H cf cl = bind (mark ''drawdown_halt'') (\<lambda>_. bind (in_engine get) (\<lambda>s.
     bind (lift (engine_fold cf (cl_now cl) (en_store s))) (\<lambda>state.
     bind (modify_ctx (\<lambda>c. c\<lparr>cx_state := state, cx_equity := equity_for_halts cf state\<rparr>)) (\<lambda>_.
     bind get_ctx (\<lambda>c. bind (lift (now_ts cl)) (\<lambda>ts.
     bind (in_engine (detect_breach H cf state (cx_equity c) ts (cx_source c) (cx_cid c))) (\<lambda>breach.
     if breach = Some ''drawdown'' then fail ''drawdown_halt'' ''drawdown halt'' else ret ())))))))"

definition mark_fresh :: "engine_config \<Rightarrow> call \<Rightarrow> string \<times> position \<Rightarrow> (walk, unit) eff" where
  "mark_fresh cf cl mp = (case mp of (mint, p) \<Rightarrow>
     if p_token_units p \<le> 0 then ret ()
     else if p_last_mtm_ts p = [] then fail ''data_stale'' (''mint='' @ mint @ '' no MarkToMarket yet'')
     else bind (lift (parse_ts_utc (p_last_mtm_ts p))) (\<lambda>t.
       let age = fl (cl_now cl - t) in
       if age > lm_mtm_interval_s (cf_limits cf)
       then fail ''data_stale'' (''mint='' @ mint @ '' mtm age '' @ fixed 1 age @ ''s'') else ret ()))"

definition step_data_stale :: "engine_config \<Rightarrow> call \<Rightarrow> (walk, unit) eff" where
  "step_data_stale cf cl = bind (mark ''data_stale'') (\<lambda>_. bind get_ctx (\<lambda>c.
     for_each (l_positions (cx_state c)) (mark_fresh cf cl)))"

definition step_size_too_small :: "engine_config \<Rightarrow> (walk, unit) eff" where
  "step_size_too_small cf = bind (mark ''size_too_small'') (\<lambda>_. bind get_ctx (\<lambda>c.
     if \<not> cx_is_buy c then ret ()
     else bind (lift (sized c)) (\<lambda>n.
       if n < lm_min_trade_lamports (cf_limits cf) then fail ''size_too_small'' (''size='' @ int_str n) else ret ())))"

definition step_below_liquidity_floor :: "engine_config \<Rightarrow> (walk, unit) eff" where
  "step_below_liquidity_floor cf = bind (mark ''below_liquidity_floor'') (\<lambda>_. bind get_ctx (\<lambda>c.
     if \<not> cx_is_buy c then ret ()
     else bind (lift (sized c)) (\<lambda>n.
       case (case cf_reserves cf of None \<Rightarrow> None | Some f \<Rightarrow> f (o_mint (cx_order c))) of
         None \<Rightarrow> fail ''below_liquidity_floor'' ''no curve reserves''
       | Some (s0, t0) \<Rightarrow> let flr = rb_liquidity_floor_multiple (cf_budget cf) * n in
           if s0 < flr then fail ''below_liquidity_floor'' (''S0='' @ int_str s0 @ '' floor='' @ int_str flr) else ret ())))"

section \<open>The walk\<close>

definition run_step :: "(string \<Rightarrow> string) \<Rightarrow> engine_config \<Rightarrow> call \<Rightarrow> string \<Rightarrow> (walk, unit) eff" where
  \<comment> \<open>the method \<open>_step_<name>\<close>\<close>
  "run_step H cf cl step =
     (if step = ''ledger_inconsistent'' then step_ledger_inconsistent H cl
      else if step = ''kill_switch'' then step_kill_switch
      else if step = ''halted'' then step_halted
      else if step = ''breaker_open'' then step_breaker_open H cl
      else if step = ''live_gate'' then step_live_gate cf
      else if step = ''approval_missing'' then step_approval_missing cf cl
      else if step = ''approval_mismatch'' then step_approval_mismatch
      else if step = ''seat_may_trade'' then step_seat_may_trade cl
      else if step = ''max_trades_per_day'' then step_max_trades_per_day cf
      else if step = ''max_open_positions'' then step_max_open_positions cf
      else if step = ''already_open'' then step_already_open
      else if step = ''creator_already_open'' then step_creator_already_open cf
      else if step = ''max_trade_fraction'' then step_max_trade_fraction cf
      else if step = ''max_token_fraction'' then step_max_token_fraction cf
      else if step = ''daily_loss_halt'' then step_daily_loss_halt H cf cl
      else if step = ''drawdown_halt'' then step_drawdown_halt H cf cl
      else if step = ''data_stale'' then step_data_stale cf cl
      else if step = ''size_too_small'' then step_size_too_small cf
      else step_below_liquidity_floor cf)"

definition skip_step :: "string \<Rightarrow> step_ctx \<Rightarrow> bool" where
  "skip_step step c = (if cx_stage c = CONFIRMING \<and> step \<notin> set RECHECK_STEPS then True
     else cx_is_exit_sell c \<and> step \<in> set EXIT_SKIP_STEPS)"

definition walk_steps :: "(string \<Rightarrow> string) \<Rightarrow> engine_config \<Rightarrow> call \<Rightarrow> (walk, unit) eff" where
  "walk_steps H cf cl = for_each STEP_IDS (\<lambda>step. bind get_ctx (\<lambda>c.
     if skip_step step c then ret () else run_step H cf cl step))"

definition confirm_holding :: "(walk, unit) eff" where
  "confirm_holding = bind get_ctx (\<lambda>c.
     if cx_stage c \<noteq> CONFIRMING \<or> cx_is_buy c then ret ()
     else if holds (cx_state c) (o_mint (cx_order c)) then ret ()
     else fail ''no_position'' (''mint='' @ o_mint (cx_order c) @ '' holding closed before fill''))"

record probe_view =
  pv_half_all :: "string list"
  pv_owned :: "string list"
  pv_half_avail :: "string list"

definition probe_inflight :: "breaker_set \<Rightarrow> string \<Rightarrow> bool" where
  "probe_inflight b name = (case by_name name b of Inr x \<Rightarrow> bk_inflight x | Inl _ \<Rightarrow> False)"

definition half_opened :: "breaker_set \<Rightarrow> string \<Rightarrow> bool" where
  "half_opened b name = (case by_name name b of Inr x \<Rightarrow> bk_half_open x | Inl _ \<Rightarrow> False)"

definition drop_settled :: "engine \<Rightarrow> engine" where
  "drop_settled s = s\<lparr>en_owners := List.filter (\<lambda>(name, h). probe_inflight (en_breakers s) name) (en_owners s)\<rparr>"

definition snapshot_probes :: "rat \<Rightarrow> string \<Rightarrow> (engine, probe_view) eff" where
  "snapshot_probes now order_hash = bind (modify drop_settled) (\<lambda>_. bind get (\<lambda>s.
     let half_all = List.filter (half_opened (en_breakers s)) BREAKER_NAMES;
         owned = List.filter (\<lambda>name. map_of (en_owners s) name = Some order_hash) half_all in
     bind (with_breakers (half_open_breakers now)) (\<lambda>avail.
       ret \<lparr>pv_half_all = half_all, pv_owned = owned, pv_half_avail = avail\<rparr>)))"

definition claim_probe :: "rat \<Rightarrow> string \<Rightarrow> probe_view \<Rightarrow> (walk, unit) eff" where
  "claim_probe now order_hash v = bind get_ctx (\<lambda>c.
     if \<not> (cx_is_buy c \<and> \<not> cx_is_exit_sell c \<and> pv_half_all v \<noteq> []) then ret ()
     else if pv_owned v \<noteq> [] then modify_ctx (\<lambda>c. c\<lparr>cx_probe := True\<rparr>)
     else case pv_half_avail v of
         name # _ \<Rightarrow> bind (in_engine (with_breakers (admit_probe now name))) (\<lambda>admitted.
           if admitted
           then bind (in_engine (modify (\<lambda>s. s\<lparr>en_owners := dict_set (en_owners s) name order_hash\<rparr>)))
             (\<lambda>_. modify_ctx (\<lambda>c. c\<lparr>cx_probe := True\<rparr>))
           else fail ''breaker_open'' ''probe inflight'')
       | [] \<Rightarrow> fail ''breaker_open'' ''probe inflight'')"

end
