(* ===== verification/RiskEngine.thy ===== *)
theory RiskEngine
  imports RiskSteps
begin

text \<open>
  The risk engine's orchestration (\<open>risk/engine/core.py\<close>): the poll of the kill sources, the standing
  approvals and kill verdicts read from the ledger, the walk and its decision, the decision cache with
  its gate generation, the halt clear, the probes and the flatten plan. A flatten hook is the caller's;
  \<open>poll_kill_sources\<close> returns whether it is to run.
\<close>

section \<open>Gates read from the ledger\<close>

definition poll_kill :: "(string \<Rightarrow> string) \<Rightarrow> call \<Rightarrow> string \<Rightarrow> string \<Rightarrow> (engine, (string \<times> string \<times> bool) option) eff" where
  "poll_kill H cl source cid = bind (lift (now_ts cl)) (\<lambda>ts.
     bind (with_kill (kill_observe H ts source cid)) (\<lambda>_.
     bind (with_kill kill_poll) (\<lambda>k.
       ret (if kl_active k then Some (kl_source k, kl_reason k, kl_flatten k) else None))))"

definition poll_kill_sources :: "(string \<Rightarrow> string) \<Rightarrow> call \<Rightarrow> bool \<Rightarrow> (engine, kill_state \<times> bool) eff" where
  \<comment> \<open>\<open>hooked\<close> says that a flatten hook is attached; the result says that it runs\<close>
  "poll_kill_sources H cl hooked = bind (with_kill (modify absorb_alerts)) (\<lambda>_.
     bind (with_kill kill_poll) (\<lambda>state. bind (lift (now_ts cl)) (\<lambda>ts.
     bind (with_kill (kill_observe H ts ''paper'' ''desk'')) (\<lambda>_.
       if kl_active state \<and> kl_flatten state
       then (if hooked then ret (state, True)
             else raise (RuntimeError ''kill flatten requested but no flatten hook is attached''))
       else ret (state, False)))))"

definition verdict_of :: "event \<Rightarrow> string option result" where
  "verdict_of e = (if e_type e \<noteq> ''JournalNote'' then Ok None else case e_payload e of
      JObj kvs \<Rightarrow> rbind (row_str kvs ''note_kind'' []) (\<lambda>k.
        if k \<noteq> ''verdict'' then Ok None
        else rbind (row_str kvs ''text'' []) (\<lambda>t. Ok (kill_verdict_mint t)))
    | _ \<Rightarrow> Ok None)"

definition killed_mints :: "engine_config \<Rightarrow> store \<Rightarrow> string list result" where
  "killed_mints cf st = (if \<not> cf_scan_verdicts cf then Ok []
     else rbind (read st 0 [] None None None) (\<lambda>es. rbind (rmap verdict_of es) (\<lambda>ms.
       Ok (concat (map (\<lambda>m. case m of Some x \<Rightarrow> [x] | None \<Rightarrow> []) ms)))))"

definition kind_of_value :: "string \<Rightarrow> approval_kind option" where
  "kind_of_value s = List.find (\<lambda>k. kind_value k = s)
     [Human_buy, Human_sell, Exit_rule, Autonomous_paper, Killswitch_clear, Halt_clear, Live_gate]"

definition opt_str :: "json \<Rightarrow> string option result" where
  \<comment> \<open>\<open>payload.get(k) or None\<close> for a field stored as text\<close>
  "opt_str j = (case j of JStr s \<Rightarrow> Ok (if s = [] then None else Some s) | JNull \<Rightarrow> Ok None
     | _ \<Rightarrow> Err (Unrepresentable ''text field''))"

definition opt_int :: "json \<Rightarrow> int option result" where
  "opt_int j = (case j of JInt i \<Rightarrow> Ok (if i = 0 then None else Some i) | JNull \<Rightarrow> Ok None
     | _ \<Rightarrow> Err (Unrepresentable ''integer field''))"

definition iso_ok :: "string \<Rightarrow> bool" where
  \<comment> \<open>\<open>datetime.fromisoformat\<close> accepts the text; an offset may be missing\<close>
  "iso_ok s \<longleftrightarrow> (let rest = drop 19 s;
          frac = (if rest \<noteq> [] \<and> hd rest = CHR ''.'' then takeWhile is_digit (tl rest) else []);
          tail = (if rest \<noteq> [] \<and> hd rest = CHR ''.'' then drop (length frac) (tl rest) else rest)
      in parse_date (take 10 s) \<noteq> None \<and> parse_tod (take 8 (drop 11 s)) \<noteq> None \<and> parse_offset tail \<noteq> None
         \<and> (rest \<noteq> [] \<and> hd rest = CHR ''.'' \<longrightarrow> frac \<noteq> []))"

definition approval_of_row :: "string \<Rightarrow> (string, json) dict \<Rightarrow> approval option result" where
  \<comment> \<open>None when the row does not validate and is skipped\<close>
  "approval_of_row i kvs =
     rbind (row_str kvs ''kind'' []) (\<lambda>kind.
     rbind (opt_str (row_get kvs ''ticket_id'' JNull)) (\<lambda>ticket.
     rbind (opt_str (row_get kvs ''mint'' JNull)) (\<lambda>mint.
     rbind (opt_int (row_get kvs ''size_lamports'' JNull)) (\<lambda>size.
     rbind (opt_int (row_get kvs ''token_units'' JNull)) (\<lambda>units.
     rbind (opt_int (row_get kvs ''max_slippage_bps'' JNull)) (\<lambda>bps.
     rbind (opt_str (row_get kvs ''exit_rule_id'' JNull)) (\<lambda>rule.
     rbind (row_str kvs ''approved_by'' []) (\<lambda>by.
     rbind (row_str kvs ''raw_message'' []) (\<lambda>raw.
     rbind (row_str kvs ''at'' []) (\<lambda>at_time.
     Ok (case kind_of_value kind of None \<Rightarrow> None
       | Some k \<Rightarrow> if \<not> iso_ok at_time then None
           else case validate_approval \<lparr>ap_id = i, ap_kind = k, ap_ticket_id = ticket, ap_mint = mint, ap_size_lamports = size,
               ap_token_units = units, ap_max_slippage_bps = bps, ap_exit_rule_id = rule, ap_approved_by = by,
               ap_raw_message = raw, ap_at = at_time, ap_consumed = False\<rparr> of
             Inr a \<Rightarrow> Some a | Inl _ \<Rightarrow> None)))))))))))"

definition latest_approval :: "(string, (string, json) dict) dict \<Rightarrow> event \<Rightarrow> (string, (string, json) dict) dict result" where
  "latest_approval d e = (if e_type e \<noteq> ''ApprovalRecorded'' then Ok d else case e_payload e of
      JObj kvs \<Rightarrow> rbind (row_str kvs ''id'' []) (\<lambda>i. Ok (if i = [] then d else dict_set d i kvs))
    | _ \<Rightarrow> Ok d)"

definition keep_approval :: "(string, approval) dict \<Rightarrow> string \<times> (string, json) dict \<Rightarrow> (string, approval) dict result" where
  "keep_approval d ik = (case ik of (i, kvs) \<Rightarrow>
     rbind (row_bool kvs ''consumed'' False) (\<lambda>used.
       if used then Ok d
       else rbind (approval_of_row i kvs) (\<lambda>a. Ok (case a of None \<Rightarrow> d | Some a \<Rightarrow> dict_set d i a))))"

definition standing_approvals :: "store \<Rightarrow> (string, approval) dict result" where
  "standing_approvals st = rbind (read st 0 [] None None None) (\<lambda>es.
     rbind (rfold latest_approval [] es) (\<lambda>latest. rfold keep_approval [] latest))"

section \<open>The decision\<close>

definition cache_key :: "rat \<Rightarrow> order_request \<Rightarrow> string \<Rightarrow> stage \<Rightarrow> (engine, string) eff" where
  "cache_key now r order_hash stage = bind (with_kill kill_poll) (\<lambda>k. bind get (\<lambda>s.
     bind (with_breakers (open_breakers now)) (\<lambda>opened.
     bind (with_breakers (half_open_breakers now)) (\<lambda>half.
       ret (stage_value stage @ ''|'' @ order_hash @ ''|'' @ o_approval_id r @ ''|'' @ nat_str (length (events (en_store s)))
         @ ''|'' @ (if kl_active k then ''1'' else ''0'') @ ''|'' @ kl_source k @ ''|'' @ kl_reason k
         @ ''|'' @ commas (sort opened) @ ''|'' @ commas (sort half))))))"

definition is_exit_sell :: "order_request \<Rightarrow> string option \<Rightarrow> bool" where
  "is_exit_sell r exit_reason \<longleftrightarrow> o_side r \<noteq> BUY \<and> reason_in exit_reason EXIT_SELL_REASONS"

definition new_ctx :: "(string \<Rightarrow> string) \<Rightarrow> engine_config \<Rightarrow> call \<Rightarrow> order_request \<Rightarrow> string option \<Rightarrow> string option
    \<Rightarrow> string option \<Rightarrow> string \<Rightarrow> string \<Rightarrow> stage \<Rightarrow> lstate \<Rightarrow> int \<Rightarrow> probe_view \<Rightarrow> (engine, step_ctx) eff" where
  "new_ctx H cf cl r seat exit_reason creator source cid stage state equity0 v =
     (let is_buy = (o_side r = BUY) in
      bind (poll_kill H cl source cid) (\<lambda>kill.
      bind (with_breakers (open_breakers (cl_now cl))) (\<lambda>opened. bind get (\<lambda>s.
      bind (lift (if is_buy then killed_mints cf (en_store s) else Ok [])) (\<lambda>killed.
      bind (lift (standing_approvals (en_store s))) (\<lambda>approvals.
      ret \<lparr>cx_order = r, cx_seat = seat, cx_exit_reason = exit_reason, cx_creator = creator, cx_source = source, cx_cid = cid,
        cx_stage = stage, cx_is_buy = is_buy, cx_is_exit_sell = is_exit_sell r exit_reason,
        cx_wanted = (if is_buy then [Human_buy] else [Human_sell, Exit_rule]), cx_state = state, cx_kill = kill,
        cx_open = opened, cx_killed = killed, cx_equity = equity0, cx_approvals = approvals,
        cx_half_blocked = (is_buy \<and> pv_half_all v \<noteq> [] \<and> pv_half_avail v = [] \<and> pv_owned v = []),
        cx_evaluated = [], cx_approval = None, cx_approval_id = (if o_approval_id r = [] then None else Some (o_approval_id r)),
        cx_final_size = (if is_buy then o_size_lamports r else None), cx_caps = [], cx_capped = False, cx_probe = False\<rparr>))))))"

definition evaluated_rows :: "step_ctx \<Rightarrow> string option \<Rightarrow> (string \<times> string) list" where
  "evaluated_rows c failed =
     (let fail_key = (if failed = Some ''reputation_degraded'' then Some ''breaker_open'' else failed) in
      map (\<lambda>step. (step, if Some step = fail_key then ''fail'' else dict_get_default (cx_evaluated c) step ''skip'')) STEP_IDS)"

definition decide :: "string \<Rightarrow> step_ctx \<Rightarrow> string option \<Rightarrow> decision" where
  "decide order_hash c failed =
     \<lparr>d_passed = (failed = None), d_reason = (case failed of None \<Rightarrow> ''pass'' | Some x \<Rightarrow> x), d_order_hash = order_hash,
      d_decision_id = o_decision_id (cx_order c), d_approval_id = cx_approval_id c, d_approval = cx_approval c,
      d_size_lamports = (if cx_is_buy c then cx_final_size c else None),
      d_token_units = (if cx_is_buy c then None else o_token_units (cx_order c)), d_capped = cx_capped c, d_caps = cx_caps c,
      d_probe = cx_probe c, d_evaluated = evaluated_rows c failed\<rparr>"

definition stages_of_walk :: "(string \<Rightarrow> string) \<Rightarrow> engine_config \<Rightarrow> call \<Rightarrow> string \<Rightarrow> probe_view \<Rightarrow> (walk, unit) eff" where
  "stages_of_walk H cf cl order_hash v = bind (walk_steps H cf cl) (\<lambda>_. bind confirm_holding (\<lambda>_.
     claim_probe (cl_now cl) order_hash v))"

definition walked :: "(string \<Rightarrow> string) \<Rightarrow> engine_config \<Rightarrow> call \<Rightarrow> string \<Rightarrow> probe_view \<Rightarrow> step_ctx \<Rightarrow> (engine, decision) eff" where
  "walked H cf cl order_hash v c s =
     (case stages_of_walk H cf cl order_hash v \<lparr>wk_engine = s, wk_ctx = c\<rparr> of
        (Inr _, w) \<Rightarrow> (Ok (decide order_hash (wk_ctx w) None), wk_engine w)
      | (Inl (StepFail reason _), w) \<Rightarrow> (Ok (decide order_hash (wk_ctx w) (Some reason)), wk_engine w)
      | (Inl e, w) \<Rightarrow> (Err e, wk_engine w))"

definition evaluate :: "(string \<Rightarrow> string) \<Rightarrow> engine_config \<Rightarrow> call \<Rightarrow> order_request \<Rightarrow> string \<Rightarrow> string option \<Rightarrow> string option
    \<Rightarrow> string option \<Rightarrow> string \<Rightarrow> string \<Rightarrow> stage \<Rightarrow> (engine, decision) eff" where
  "evaluate H cf cl r order_hash seat exit_reason creator source cid stage =
     bind get (\<lambda>s. bind (lift (engine_fold cf (cl_now cl) (en_store s))) (\<lambda>state.
     bind (with_breakers (sync_from_ledger (cl_now cl))) (\<lambda>_. bind (lift (now_ts cl)) (\<lambda>ts.
     bind (with_breakers (refresh H (cl_now cl) ts source cid (equity_for_halts cf state))) (\<lambda>_.
     bind (snapshot_probes (cl_now cl) order_hash) (\<lambda>v.
     bind (new_ctx H cf cl r seat exit_reason creator source cid stage state (equity_for_halts cf state) v) (\<lambda>c.
     walked H cf cl order_hash v c)))))))"

definition DECISION_CACHE_MAX :: nat where "DECISION_CACHE_MAX = 1024"

definition remember :: "string \<Rightarrow> decision \<Rightarrow> engine \<Rightarrow> engine" where
  "remember key d s = (let ds = dict_set (en_decisions s) key d in s\<lparr>en_decisions := drop (length ds - DECISION_CACHE_MAX) ds\<rparr>)"

definition check :: "(string \<Rightarrow> string) \<Rightarrow> engine_config \<Rightarrow> call \<Rightarrow> order_request \<Rightarrow> string option \<Rightarrow> string option
    \<Rightarrow> string option \<Rightarrow> string \<Rightarrow> string \<Rightarrow> stage \<Rightarrow> (engine, decision) eff" where
  "check H cf cl r seat exit_reason creator source cid stage =
     bind (with_kill (modify absorb_alerts)) (\<lambda>_. bind (lift (order_hash_for H r)) (\<lambda>order_hash.
     bind (cache_key (cl_now cl) r order_hash stage) (\<lambda>key. bind get (\<lambda>s.
       case map_of (en_decisions s) key of
         Some d \<Rightarrow> ret d
       | None \<Rightarrow> bind (evaluate H cf cl r order_hash seat exit_reason creator source cid stage) (\<lambda>d.
           bind (modify (remember key d)) (\<lambda>_. ret d))))))"

section \<open>Observations, probes, verdicts and clears\<close>

definition set_observe_only :: "string list \<Rightarrow> (engine, unit) eff" where
  "set_observe_only seats = modify (\<lambda>s. s\<lparr>en_observe_only := seats\<rparr>)"

definition set_reputation :: "bool option \<Rightarrow> (engine, unit) eff" where
  \<comment> \<open>of an attached book the engine reads \<open>degraded\<close> alone\<close>
  "set_reputation book = modify (\<lambda>s. s\<lparr>en_degraded := book\<rparr>)"

definition engine_note_tick :: "(string \<Rightarrow> string) \<Rightarrow> rat \<Rightarrow> rat \<Rightarrow> string \<Rightarrow> string \<Rightarrow> string \<Rightarrow> (engine, unit) eff" where
  "engine_note_tick H now tick ts source cid = with_breakers (note_tick H now tick ts source cid)"

definition engine_note_miss :: "(string \<Rightarrow> string) \<Rightarrow> rat \<Rightarrow> string \<Rightarrow> string \<Rightarrow> string \<Rightarrow> (engine, unit) eff" where
  "engine_note_miss H now ts source cid = with_breakers (note_miss H now ts source cid)"

definition engine_resolve_probe :: "(string \<Rightarrow> string) \<Rightarrow> rat \<Rightarrow> string \<Rightarrow> bool \<Rightarrow> string \<Rightarrow> string \<Rightarrow> (engine, unit) eff" where
  "engine_resolve_probe H now name ok source cid = bind (lift (format_ts_utc now)) (\<lambda>ts.
     bind (with_breakers (resolve_probe H now name ok ts source cid)) (\<lambda>_.
     modify (\<lambda>s. s\<lparr>en_owners := dict_pop (en_owners s) name\<rparr>)))"

definition release_order_probes :: "(string \<Rightarrow> string) \<Rightarrow> rat \<Rightarrow> string \<Rightarrow> bool \<Rightarrow> string \<Rightarrow> string \<Rightarrow> (engine, unit) eff" where
  "release_order_probes H now order_hash ok source cid = bind get (\<lambda>s0. for_each (en_owners s0) (\<lambda>(name, owner).
     if owner \<noteq> order_hash then ret ()
     else bind get (\<lambda>s. if \<not> probe_inflight (en_breakers s) name
       then modify (\<lambda>s. s\<lparr>en_owners := dict_pop (en_owners s) name\<rparr>)
       else engine_resolve_probe H now name ok source cid)))"

definition verdict_entry :: "string \<Rightarrow> string \<Rightarrow> string \<Rightarrow> string \<Rightarrow> string \<Rightarrow> entry" where
  "verdict_entry mint reason ts source cid =
     \<lparr>x_ts = ts, x_source = source, x_cid = cid, x_key = ''kill-verdict|'' @ mint @ ''|'' @ take 10 ts, x_type = ''JournalNote'',
      x_payload = [(''source'', PStr source), (''seat'', PStr ''bot-02-risk''), (''note_kind'', PStr ''verdict''),
        (''text'', PStr (''RISK verdict=KILL mint='' @ mint @ '' reason='' @ reason)), (''refs'', PList [])]\<rparr>"

definition record_kill_verdict :: "(string \<Rightarrow> string) \<Rightarrow> rat \<Rightarrow> string \<Rightarrow> string \<Rightarrow> string \<Rightarrow> string \<Rightarrow> (engine, unit) eff" where
  "record_kill_verdict H now mint reason source cid = bind (lift (format_ts_utc now)) (\<lambda>ts.
     en_append H (verdict_entry mint reason ts source cid))"

definition halt_cleared_entry :: "approval \<Rightarrow> string \<Rightarrow> string \<Rightarrow> string \<Rightarrow> string \<Rightarrow> entry" where
  "halt_cleared_entry a reason ts source cid =
     \<lparr>x_ts = ts, x_source = source, x_cid = cid, x_key = ''halt-clear|'' @ ap_id a, x_type = ''HaltCleared'',
      x_payload = [(''source'', PStr source), (''reason'', PStr reason), (''cleared_by'', PStr (ap_approved_by a)),
        (''approval_id'', PStr (ap_id a)), (''note'', PStr reason)]\<rparr>"

definition request_halt_clear :: "(string \<Rightarrow> string) \<Rightarrow> engine_config \<Rightarrow> rat \<Rightarrow> approval \<Rightarrow> string \<Rightarrow> string \<Rightarrow> string \<Rightarrow> (engine, unit) eff" where
  "request_halt_clear H cf now a reason source cid = bind get (\<lambda>s.
     if \<not> human_signer (ap_approved_by a) then raise (ValueError ''halt clear must come from a human'')
     else if ap_kind a \<noteq> Halt_clear then raise (ValueError ''halt clear needs a halt_clear approval'')
     else bind (lift (engine_fold cf now (en_store s))) (\<lambda>state.
       if \<not> h_active (l_halt state) then raise (ValueError ''no active halt to clear'')
       else bind (lift (key_spent (en_store s) (''consumed|'' @ ap_id a))) (\<lambda>used.
         if used then raise (ValueError ''halt_clear approval is already consumed'')
         else bind (lift (format_ts_utc now)) (\<lambda>ts. (\<lambda>s.
           case append_batch H (en_store s) [envelope (halt_cleared_entry a reason ts source cid),
               envelope (consumed_entry a reason ts source cid)] of
             (r, st') \<Rightarrow> (rbind r (\<lambda>_. Ok ()), s\<lparr>en_store := st'\<rparr>))))))"

section \<open>The flatten plan\<close>

definition flatten_approval :: "engine_config \<Rightarrow> string \<Rightarrow> string \<Rightarrow> string \<times> position \<Rightarrow> approval" where
  "flatten_approval cf i at_time mp =
     \<lparr>ap_id = i, ap_kind = Autonomous_paper, ap_ticket_id = Some (p_ticket_id (snd mp)), ap_mint = Some (fst mp),
      ap_size_lamports = None, ap_token_units = Some (p_token_units (snd mp)),
      ap_max_slippage_bps = Some (lm_max_slippage_bps (cf_limits cf)), ap_exit_rule_id = None, ap_approved_by = ''risk_engine'',
      ap_raw_message = ''autonomous-paper kill_flatten '' @ fst mp, ap_at = at_time, ap_consumed = False\<rparr>"

definition flatten_request :: "engine_config \<Rightarrow> string \<Rightarrow> string \<Rightarrow> string \<Rightarrow> string \<times> position \<Rightarrow> order_request" where
  "flatten_request cf approval_id decision cid mp =
     \<lparr>o_ticket_id = p_ticket_id (snd mp), o_mint = fst mp, o_side = SELL, o_decision_id = decision, o_size_lamports = None,
      o_token_units = Some (p_token_units (snd mp)), o_max_slippage_bps = lm_max_slippage_bps (cf_limits cf),
      o_approval_id = approval_id, o_quote_id = None, o_exit_reason = None, o_correlation_id = cid\<rparr>"

definition flatten_order :: "engine_config \<Rightarrow> call \<Rightarrow> string \<Rightarrow> string \<Rightarrow> string \<times> position \<Rightarrow> (engine, order_request \<times> approval) eff" where
  "flatten_order cf cl at_time cid mp = bind (fresh_ulid (cl_now cl)) (\<lambda>u.
     bind (lift (validate_approval (flatten_approval cf (''apr-'' @ u) at_time mp))) (\<lambda>a.
     bind (fresh_ulid (cl_now cl)) (\<lambda>d.
     bind (lift (validate_order (flatten_request cf (ap_id a) d cid mp))) (\<lambda>r. ret (r, a)))))"

fun flatten_orders :: "engine_config \<Rightarrow> call \<Rightarrow> string \<Rightarrow> string \<Rightarrow> (string \<times> position) list
    \<Rightarrow> (engine, (order_request \<times> approval) list) eff" where
  "flatten_orders cf cl at_time cid [] = ret []"
| "flatten_orders cf cl at_time cid (mp # mps) =
     (if p_token_units (snd mp) \<le> 0 then flatten_orders cf cl at_time cid mps
      else bind (flatten_order cf cl at_time cid mp) (\<lambda>ra.
        bind (flatten_orders cf cl at_time cid mps) (\<lambda>ras. ret (ra # ras))))"

definition plan_flatten :: "engine_config \<Rightarrow> call \<Rightarrow> string \<Rightarrow> (engine, (order_request \<times> approval) list) eff" where
  "plan_flatten cf cl cid = bind (lift (iso_now (cl_now cl))) (\<lambda>at_time. bind get (\<lambda>s.
     bind (lift (engine_fold cf (cl_now cl) (en_store s))) (\<lambda>state. flatten_orders cf cl at_time cid (l_positions state))))"

end
