(* ===== verification/RiskWalk.thy ===== *)
theory RiskWalk
  imports RiskEngine
begin

text \<open>
  What it means that a step lets an order pass. Each lemma reads off the condition a step checked and
  what it changed of the walk's context; the chain of the nineteen gives the conditions a passed order
  met, the ones an exit sell meets, and the shape of every decision's evaluated rows.
\<close>

section \<open>Evaluation of the walk's primitives\<close>

definition marked :: "string \<Rightarrow> walk \<Rightarrow> walk" where
  "marked step w = w\<lparr>wk_ctx := (wk_ctx w)\<lparr>cx_evaluated := dict_set (cx_evaluated (wk_ctx w)) step ''pass''\<rparr>\<rparr>"

lemma walk_prims [simp]:
  "mark step w = (Inr (), marked step w)"
  "get_ctx w = (Inr (wk_ctx w), w)"
  "modify_ctx f w = (Inr (), w\<lparr>wk_ctx := f (wk_ctx w)\<rparr>)"
  "fail reason detail w = (Inl (StepFail reason detail), w)"
  "in_engine get w = (Inr (wk_engine w), w)"
  by (simp_all add: mark_def marked_def modify_ctx_def get_ctx_def fail_def in_engine_def)

lemma in_engine_ctx: "in_engine m w = (r, w') \<Longrightarrow> wk_ctx w' = wk_ctx w"
  by (auto simp: in_engine_def split: prod.splits)

definition core where
  "core c = (cx_order c, cx_seat c, cx_exit_reason c, cx_creator c, cx_stage c, cx_is_buy c, cx_is_exit_sell c,
     cx_wanted c, cx_kill c, cx_open c, cx_killed c, cx_approvals c, cx_half_blocked c, cx_source c, cx_cid c)"

lemma core_fields:
  assumes "core c = core c'"
  shows "cx_order c = cx_order c'" "cx_seat c = cx_seat c'" "cx_exit_reason c = cx_exit_reason c'"
    "cx_creator c = cx_creator c'" "cx_stage c = cx_stage c'" "cx_is_buy c = cx_is_buy c'"
    "cx_is_exit_sell c = cx_is_exit_sell c'" "cx_wanted c = cx_wanted c'" "cx_kill c = cx_kill c'"
    "cx_open c = cx_open c'" "cx_killed c = cx_killed c'" "cx_approvals c = cx_approvals c'"
    "cx_half_blocked c = cx_half_blocked c'" "cx_source c = cx_source c'" "cx_cid c = cx_cid c'"
  using assms by (simp_all add: core_def)

definition quiet :: "walk \<Rightarrow> walk \<Rightarrow> bool" where
  \<comment> \<open>only the record of evaluated steps may differ, and the engine\<close>
  "quiet w w' \<longleftrightarrow> core (wk_ctx w') = core (wk_ctx w) \<and> cx_state (wk_ctx w') = cx_state (wk_ctx w)
     \<and> cx_equity (wk_ctx w') = cx_equity (wk_ctx w) \<and> cx_final_size (wk_ctx w') = cx_final_size (wk_ctx w)
     \<and> cx_approval (wk_ctx w') = cx_approval (wk_ctx w)"

lemma quiet_marked [simp]: "quiet w (marked step w)"
  by (simp add: quiet_def marked_def core_def)

lemma marked_fields [simp]:
  "wk_engine (marked step w) = wk_engine w" "core (wk_ctx (marked step w)) = core (wk_ctx w)"
  "cx_order (wk_ctx (marked step w)) = cx_order (wk_ctx w)" "cx_seat (wk_ctx (marked step w)) = cx_seat (wk_ctx w)"
  "cx_exit_reason (wk_ctx (marked step w)) = cx_exit_reason (wk_ctx w)" "cx_creator (wk_ctx (marked step w)) = cx_creator (wk_ctx w)"
  "cx_stage (wk_ctx (marked step w)) = cx_stage (wk_ctx w)" "cx_is_buy (wk_ctx (marked step w)) = cx_is_buy (wk_ctx w)"
  "cx_is_exit_sell (wk_ctx (marked step w)) = cx_is_exit_sell (wk_ctx w)" "cx_wanted (wk_ctx (marked step w)) = cx_wanted (wk_ctx w)"
  "cx_kill (wk_ctx (marked step w)) = cx_kill (wk_ctx w)" "cx_open (wk_ctx (marked step w)) = cx_open (wk_ctx w)"
  "cx_killed (wk_ctx (marked step w)) = cx_killed (wk_ctx w)" "cx_approvals (wk_ctx (marked step w)) = cx_approvals (wk_ctx w)"
  "cx_half_blocked (wk_ctx (marked step w)) = cx_half_blocked (wk_ctx w)" "cx_state (wk_ctx (marked step w)) = cx_state (wk_ctx w)"
  "cx_equity (wk_ctx (marked step w)) = cx_equity (wk_ctx w)" "cx_final_size (wk_ctx (marked step w)) = cx_final_size (wk_ctx w)"
  "cx_approval (wk_ctx (marked step w)) = cx_approval (wk_ctx w)" "cx_source (wk_ctx (marked step w)) = cx_source (wk_ctx w)"
  "cx_cid (wk_ctx (marked step w)) = cx_cid (wk_ctx w)"
  by (simp_all add: marked_def core_def)

section \<open>What a passed step has checked\<close>

lemma ledger_step_Ok: "step_ledger_inconsistent H cl w = (Inr u, w') \<Longrightarrow> quiet w w'"
  by (auto simp: step_ledger_inconsistent_def bind_def quiet_def split: prod.splits sum.splits err.splits
      dest!: in_engine_ctx)

lemma kill_step_Ok: "step_kill_switch w = (Inr u, w') \<Longrightarrow> cx_kill (wk_ctx w) = None \<and> quiet w w'"
  by (auto simp: step_kill_switch_def split: option.splits)

lemma halted_step_Ok: "step_halted w = (Inr u, w') \<Longrightarrow> \<not> h_active (l_halt (cx_state (wk_ctx w))) \<and> quiet w w'"
  by (auto simp: step_halted_def split: if_splits)

lemma breaker_step_Ok:
  "step_breaker_open H cl w = (Inr u, w') \<Longrightarrow> cx_open (wk_ctx w) = [] \<and> o_mint (cx_order (wk_ctx w)) \<notin> set (cx_killed (wk_ctx w))
     \<and> \<not> cx_half_blocked (wk_ctx w) \<and> (cx_is_buy (wk_ctx w) \<longrightarrow> en_degraded (wk_engine w) \<noteq> Some True) \<and> quiet w w'"
  by (auto simp: step_breaker_open_def bind_def split: if_splits prod.splits sum.splits)

lemma live_step_Ok:
  "step_live_gate cf w = (Inr u, w') \<Longrightarrow> (cf_paper cf \<or> cf_live_check cf = Some []) \<and> quiet w w'"
  by (auto simp: step_live_gate_def split: if_splits option.splits)

lemma missing_step_Ok:
  assumes "step_approval_missing cf cl w = (Inr u, w')"
  shows "core (wk_ctx w') = core (wk_ctx w)" "cx_state (wk_ctx w') = cx_state (wk_ctx w)"
    "cx_equity (wk_ctx w') = cx_equity (wk_ctx w)" "cx_final_size (wk_ctx w') = cx_final_size (wk_ctx w)"
    "\<not> cf_autonomous cf \<Longrightarrow> \<not> reason_in (cx_exit_reason (wk_ctx w)) SYSTEM_EXIT_REASONS \<Longrightarrow>
      \<exists>a. cx_approval (wk_ctx w') = Some a \<and> map_of (cx_approvals (wk_ctx w)) (o_approval_id (cx_order (wk_ctx w))) = Some a
        \<and> ap_ticket_id a = Some (o_ticket_id (cx_order (wk_ctx w)))"
  using assms
  by (auto simp: step_approval_missing_def bind_def core_def Let_def dest!: in_engine_ctx
      split: if_splits prod.splits sum.splits option.splits)

lemma mismatch_step_Ok:
  "step_approval_mismatch w = (Inr u, w') \<Longrightarrow> quiet w w' \<and> (by_engine (cx_approval (wk_ctx w))
     \<or> (\<exists>a. cx_approval (wk_ctx w) = Some a \<and> ap_kind a \<in> set (cx_wanted (wk_ctx w)) \<and> matches a (cx_order (wk_ctx w))))"
  by (auto simp: step_approval_mismatch_def split: if_splits option.splits)

lemma seat_step_Ok:
  assumes "step_seat_may_trade cl w = (Inr u, w')"
  shows "quiet w w'" "cx_exit_reason (wk_ctx w) \<noteq> Some ''kill_flatten'' \<Longrightarrow> \<exists>acting.
      (case cx_seat (wk_ctx w) of Some x \<Rightarrow> Some x | None \<Rightarrow> cl_calling cl) = Some acting
      \<and> acting = (if cx_is_buy (wk_ctx w) then BUY_SEAT else SELL_SEAT)
      \<and> acting \<notin> set (en_observe_only (wk_engine w))
      \<and> (cx_is_buy (wk_ctx w) \<longrightarrow> set (en_observe_only (wk_engine w)) \<inter> {''bot-02-risk'', ''bot-06-exit''} = {})"
  using assms by (auto simp: step_seat_may_trade_def split: if_splits option.splits)

lemma trades_step_Ok:
  "step_max_trades_per_day cf w = (Inr u, w') \<Longrightarrow>
     c_trades_today (l_counters (cx_state (wk_ctx w))) < rb_max_trades_per_day (cf_budget cf) \<and> quiet w w'"
  by (auto simp: step_max_trades_per_day_def Let_def split: if_splits)

lemma positions_step_Ok:
  "step_max_open_positions cf w = (Inr u, w') \<Longrightarrow>
     (cx_is_buy (wk_ctx w) \<longrightarrow> open_count (cx_state (wk_ctx w)) < rb_max_open_positions (cf_budget cf)) \<and> quiet w w'"
  by (auto simp: step_max_open_positions_def split: if_splits)

lemma already_step_Ok:
  "step_already_open w = (Inr u, w') \<Longrightarrow>
     (cx_is_buy (wk_ctx w) \<longrightarrow> \<not> holds (cx_state (wk_ctx w)) (o_mint (cx_order (wk_ctx w)))) \<and> quiet w w'"
  by (auto simp: step_already_open_def split: if_splits)

lemma creator_step_Ok:
  "step_creator_already_open cf w = (Inr u, w') \<Longrightarrow> quiet w w'
     \<and> (cx_is_buy (wk_ctx w) \<and> lm_one_position_per_creator (cf_limits cf) \<longrightarrow>
        (\<forall>x xs. cx_creator (wk_ctx w) = Some (x # xs) \<longrightarrow> \<not> creator_open (x # xs) (cx_state (wk_ctx w))))"
  by (auto simp: step_creator_already_open_def bind_def split: if_splits option.splits list.splits sum.splits)

definition resized :: "walk \<Rightarrow> walk \<Rightarrow> bool" where
  "resized w w' \<longleftrightarrow> core (wk_ctx w') = core (wk_ctx w) \<and> cx_state (wk_ctx w') = cx_state (wk_ctx w)
     \<and> cx_equity (wk_ctx w') = cx_equity (wk_ctx w) \<and> cx_approval (wk_ctx w') = cx_approval (wk_ctx w)"

lemma trade_cap_step_Ok:
  assumes "step_max_trade_fraction cf w = (Inr u, w')" "cx_is_buy (wk_ctx w)"
  obtains n n' cap where "resized w w'" "cx_final_size (wk_ctx w) = Some n" "cx_final_size (wk_ctx w') = Some n'"
    "dec_trunc (dec_mul_int (rb_max_trade_fraction (cf_budget cf)) (cx_equity (wk_ctx w))) = Ok cap" "n' = min n cap"
  using assms
  by (auto simp: step_max_trade_fraction_def bind_def sized_def cap_size_def resized_def core_def
      split: sum.splits option.splits if_splits)

lemma token_cap_step_Ok:
  assumes "step_max_token_fraction cf w = (Inr u, w')" "cx_is_buy (wk_ctx w)"
  obtains n n' total where "resized w w'" "cx_final_size (wk_ctx w) = Some n" "cx_final_size (wk_ctx w') = Some n'"
    "dec_trunc (dec_mul_int (rb_max_token_fraction (cf_budget cf)) (cx_equity (wk_ctx w))) = Ok total"
    "n' = min n (total - (case map_of (l_positions (cx_state (wk_ctx w))) (o_mint (cx_order (wk_ctx w))) of Some p \<Rightarrow> p_cost_basis p | None \<Rightarrow> 0))"
  using assms
  by (auto simp: step_max_token_fraction_def bind_def sized_def cap_size_def resized_def core_def Let_def
      split: sum.splits option.splits if_splits)

lemma cap_steps_sell:
  "step_max_trade_fraction cf w = (Inr u, w') \<Longrightarrow> \<not> cx_is_buy (wk_ctx w) \<Longrightarrow> quiet w w'"
  "step_max_token_fraction cf w = (Inr u, w') \<Longrightarrow> \<not> cx_is_buy (wk_ctx w) \<Longrightarrow> quiet w w'"
  by (auto simp: step_max_trade_fraction_def step_max_token_fraction_def)

lemma daily_step_Ok: "step_daily_loss_halt H cf cl w = (Inr u, w') \<Longrightarrow> quiet w w'"
  by (auto simp: step_daily_loss_halt_def bind_def quiet_def split: prod.splits sum.splits if_splits
      dest!: in_engine_ctx)

lemma drawdown_step_Ok:
  assumes "step_drawdown_halt H cf cl w = (Inr u, w')"
  shows "core (wk_ctx w') = core (wk_ctx w)" "cx_final_size (wk_ctx w') = cx_final_size (wk_ctx w)"
    "cx_approval (wk_ctx w') = cx_approval (wk_ctx w)"
    "\<exists>s. engine_fold cf (cl_now cl) s = Ok (cx_state (wk_ctx w')) \<and> s = en_store (wk_engine w)"
  using assms
  by (auto simp: step_drawdown_halt_def bind_def core_def split: prod.splits sum.splits if_splits
      dest!: in_engine_ctx)

lemma for_each_quiet:
  assumes "\<And>x w w' u. f x w = (Inr u, w') \<Longrightarrow> w' = w"
  shows "for_each xs f w = (Inr u, w') \<Longrightarrow> w' = w"
  using assms by (induction xs arbitrary: w) (auto simp: bind_Ok_iff)

lemma mark_fresh_Ok:
  "mark_fresh cf cl mp w = (Inr u, w') \<Longrightarrow> w' = w \<and> (0 < p_token_units (snd mp) \<longrightarrow>
     (\<exists>t. parse_ts_utc (p_last_mtm_ts (snd mp)) = Ok t \<and> fl (cl_now cl - t) \<le> lm_mtm_interval_s (cf_limits cf)))"
  by (auto simp: mark_fresh_def bind_def Let_def not_less split: prod.splits sum.splits if_splits)

lemma fresh_marks_Ok:
  "for_each mps (mark_fresh cf cl) w = (Inr u, w') \<Longrightarrow> w' = w \<and> (\<forall>mp \<in> set mps. 0 < p_token_units (snd mp) \<longrightarrow>
     (\<exists>t. parse_ts_utc (p_last_mtm_ts (snd mp)) = Ok t \<and> fl (cl_now cl - t) \<le> lm_mtm_interval_s (cf_limits cf)))"
  by (induction mps arbitrary: w) (auto simp: bind_Ok_iff dest!: mark_fresh_Ok)

definition marks_fresh :: "engine_config \<Rightarrow> call \<Rightarrow> lstate \<Rightarrow> bool" where
  "marks_fresh cf cl s \<longleftrightarrow> (\<forall>mp \<in> set (l_positions s). 0 < p_token_units (snd mp) \<longrightarrow>
     (\<exists>t. parse_ts_utc (p_last_mtm_ts (snd mp)) = Ok t \<and> fl (cl_now cl - t) \<le> lm_mtm_interval_s (cf_limits cf)))"

lemma stale_step_Ok:
  "step_data_stale cf cl w = (Inr u, w') \<Longrightarrow> quiet w w' \<and> marks_fresh cf cl (cx_state (wk_ctx w))"
  unfolding marks_fresh_def by (auto simp: step_data_stale_def dest!: fresh_marks_Ok)

lemma small_step_Ok:
  "step_size_too_small cf w = (Inr u, w') \<Longrightarrow> quiet w w' \<and> (cx_is_buy (wk_ctx w) \<longrightarrow>
     (\<exists>n. cx_final_size (wk_ctx w) = Some n \<and> lm_min_trade_lamports (cf_limits cf) \<le> n))"
  by (auto simp: step_size_too_small_def bind_def sized_def split: if_splits option.splits sum.splits)

lemma floor_step_Ok:
  "step_below_liquidity_floor cf w = (Inr u, w') \<Longrightarrow> quiet w w' \<and> (cx_is_buy (wk_ctx w) \<longrightarrow>
     (\<exists>n f s0 t0. cx_final_size (wk_ctx w) = Some n \<and> cf_reserves cf = Some f \<and> f (o_mint (cx_order (wk_ctx w))) = Some (s0, t0)
        \<and> rb_liquidity_floor_multiple (cf_budget cf) * n \<le> s0))"
  by (auto simp: step_below_liquidity_floor_def bind_def sized_def Let_def not_less split: if_splits option.splits sum.splits prod.splits)

section \<open>The chain of steps\<close>

lemma run_step_core:
  assumes "run_step H cf cl step w = (Inr u, w')"
  shows "core (wk_ctx w') = core (wk_ctx w)"
proof -
  have q: "quiet w w' \<Longrightarrow> core (wk_ctx w') = core (wk_ctx w)" by (simp add: quiet_def)
  have caps: "step_max_trade_fraction cf w = (Inr u, w') \<Longrightarrow> core (wk_ctx w') = core (wk_ctx w)"
    "step_max_token_fraction cf w = (Inr u, w') \<Longrightarrow> core (wk_ctx w') = core (wk_ctx w)"
    using trade_cap_step_Ok token_cap_step_Ok cap_steps_sell q resized_def by metis+
  show ?thesis
    using assms caps unfolding run_step_def
    by (auto split: if_splits simp: missing_step_Ok(1) drawdown_step_Ok(1)
        dest!: ledger_step_Ok kill_step_Ok halted_step_Ok breaker_step_Ok live_step_Ok mismatch_step_Ok seat_step_Ok(1)
          trades_step_Ok positions_step_Ok already_step_Ok creator_step_Ok daily_step_Ok stale_step_Ok small_step_Ok floor_step_Ok
        intro: q)
qed

lemma skip_step_core: "core c = core c' \<Longrightarrow> skip_step step c = skip_step step c'"
  by (simp add: skip_step_def core_def)

lemma for_each_Ok_iff:
  "for_each [] f s = (Inr u, s') \<longleftrightarrow> s' = s"
  "for_each (x # xs) f s = (Inr u, s') \<longleftrightarrow> (\<exists>s1. f x s = (Inr (), s1) \<and> for_each xs f s1 = (Inr u, s'))"
  by (auto simp: bind_Ok_iff)

lemma walk_unskipped:
  assumes "\<And>step w. \<not> skip_step step (wk_ctx w) \<Longrightarrow> f step w = run_step H cf cl step w"
    and "for_each steps f w = (Inr u, w')" "\<And>step. step \<in> set steps \<Longrightarrow> \<not> skip_step step (wk_ctx w)"
  shows "for_each steps (run_step H cf cl) w = (Inr u, w')"
  using assms(2,3)
proof (induction steps arbitrary: w)
  case (Cons step steps)
  have "\<not> skip_step step (wk_ctx w)" using Cons.prems(2) by simp
  with Cons.prems(1) obtain w1 where w1: "run_step H cf cl step w = (Inr (), w1)" "for_each steps f w1 = (Inr u, w')"
    using assms(1) [of step w] by (auto simp: for_each_Ok_iff simp del: for_each.simps)
  have "\<not> skip_step x (wk_ctx w1)" if "x \<in> set steps" for x
    using Cons.prems(2) that skip_step_core [OF run_step_core [OF w1(1)]] by simp
  with Cons.IH [OF w1(2)] w1(1) show ?case by (auto simp: for_each_Ok_iff simp del: for_each.simps)
qed simp

lemma run_step_simps:
  "run_step H cf cl ''ledger_inconsistent'' = step_ledger_inconsistent H cl"
  "run_step H cf cl ''kill_switch'' = step_kill_switch"
  "run_step H cf cl ''halted'' = step_halted"
  "run_step H cf cl ''breaker_open'' = step_breaker_open H cl"
  "run_step H cf cl ''live_gate'' = step_live_gate cf"
  "run_step H cf cl ''approval_missing'' = step_approval_missing cf cl"
  "run_step H cf cl ''approval_mismatch'' = step_approval_mismatch"
  "run_step H cf cl ''seat_may_trade'' = step_seat_may_trade cl"
  "run_step H cf cl ''max_trades_per_day'' = step_max_trades_per_day cf"
  "run_step H cf cl ''max_open_positions'' = step_max_open_positions cf"
  "run_step H cf cl ''already_open'' = step_already_open"
  "run_step H cf cl ''creator_already_open'' = step_creator_already_open cf"
  "run_step H cf cl ''max_trade_fraction'' = step_max_trade_fraction cf"
  "run_step H cf cl ''max_token_fraction'' = step_max_token_fraction cf"
  "run_step H cf cl ''daily_loss_halt'' = step_daily_loss_halt H cf cl"
  "run_step H cf cl ''drawdown_halt'' = step_drawdown_halt H cf cl"
  "run_step H cf cl ''data_stale'' = step_data_stale cf cl"
  "run_step H cf cl ''size_too_small'' = step_size_too_small cf"
  "run_step H cf cl ''below_liquidity_floor'' = step_below_liquidity_floor cf"
  by (simp_all add: run_step_def)

record readings =
  \<comment> \<open>what a check of a buy reads before its walk\<close>
  rd_state :: lstate
  rd_view :: probe_view
  rd_kill :: "(string \<times> string \<times> bool) option"
  rd_open :: "string list"
  rd_killed :: "string list"
  rd_approvals :: "(string, approval) dict"

definition loss_gates_met :: "(string \<Rightarrow> string) \<Rightarrow> engine_config \<Rightarrow> call \<Rightarrow> string \<Rightarrow> string \<Rightarrow> lstate \<Rightarrow> engine \<Rightarrow> bool" where
  \<comment> \<open>steps 15 to 17: no daily loss on the state read first; then the ledger is folded again, behind the halt row
     step 15 may have written, and that state shows no drawdown and fresh marks\<close>
  "loss_gates_met H cf cl source cid state s \<longleftrightarrow> (\<exists>ts later. now_ts cl = Ok ts
     \<and> (let equity0 = equity_for_halts cf state;
            s' = snd (detect_breach H cf state equity0 ts source cid s) in
        (cleared_today (take 10 ts) (en_store s) = Ok True
         \<or> 0 < l_day_start_equity state \<and> \<not> daily_loss_met (rb_daily_loss_halt_fraction (cf_budget cf)) (l_day_start_equity state) equity0)
        \<and> engine_fold cf (cl_now cl) (en_store s') = Ok later
        \<and> (cleared_today (take 10 ts) (en_store s') = Ok True
           \<or> daily_loss_met (rb_daily_loss_halt_fraction (cf_budget cf)) (l_day_start_equity later) (equity_for_halts cf later)
           \<or> drawdown_of (l_peak_equity later) (equity_for_halts cf later) < fl (dec_val (rb_drawdown_halt_fraction (cf_budget cf))))
        \<and> marks_fresh cf cl later))"

definition gates_met :: "(string \<Rightarrow> string) \<Rightarrow> engine_config \<Rightarrow> call \<Rightarrow> order_request \<Rightarrow> string option \<Rightarrow> string option \<Rightarrow> string option
    \<Rightarrow> string \<Rightarrow> string \<Rightarrow> readings \<Rightarrow> engine \<Rightarrow> approval option \<Rightarrow> int \<Rightarrow> bool" where
  \<comment> \<open>what the nineteen steps establish of a buy \<open>r\<close>: \<open>rd\<close> the readings, \<open>s\<close> the engine when the walk starts, \<open>a\<close> the
     approval bound, \<open>n\<close> the final size\<close>
  "gates_met H cf cl r seat exit_reason creator source cid rd s a n \<longleftrightarrow>
     (let state = rd_state rd; equity0 = equity_for_halts cf state; verified = snd (en_verify H s) in
     fst (en_verify H s) = Ok True
     \<and> rd_kill rd = None \<and> \<not> h_active (l_halt state) \<and> rd_open rd = []
     \<and> o_mint r \<notin> set (rd_killed rd) \<and> en_degraded s \<noteq> Some True
     \<and> (pv_half_all (rd_view rd) = [] \<or> pv_owned (rd_view rd) \<noteq> [] \<or> pv_half_avail (rd_view rd) \<noteq> [])
     \<and> (cf_paper cf \<or> cf_live_check cf = Some [])
     \<and> (by_engine a \<or> (\<exists>x. a = Some x \<and> ap_kind x \<in> {Human_buy} \<and> matches x r))
     \<and> (cf_autonomous cf \<or> reason_in exit_reason SYSTEM_EXIT_REASONS
        \<or> (\<exists>x. a = Some x \<and> map_of (rd_approvals rd) (o_approval_id r) = Some x \<and> ap_ticket_id x = Some (o_ticket_id r)))
     \<and> (exit_reason = Some ''kill_flatten''
        \<or> (case seat of Some x \<Rightarrow> Some x | None \<Rightarrow> cl_calling cl) = Some BUY_SEAT
          \<and> {BUY_SEAT, ''bot-02-risk'', ''bot-06-exit''} \<inter> set (en_observe_only s) = {})
     \<and> c_trades_today (l_counters state) < rb_max_trades_per_day (cf_budget cf)
     \<and> open_count state < rb_max_open_positions (cf_budget cf)
     \<and> \<not> holds state (o_mint r)
     \<and> (lm_one_position_per_creator (cf_limits cf) \<longrightarrow>
         (\<exists>who. (case creator of Some (x # xs) \<Rightarrow> Ok (x # xs) | _ \<Rightarrow> creator_of (o_mint r) state (en_store verified)) = Ok who
           \<and> (who = [] \<or> \<not> creator_open who state)))
     \<and> loss_gates_met H cf cl source cid state verified
     \<and> lm_min_trade_lamports (cf_limits cf) \<le> n
     \<and> (\<exists>m cap total. o_size_lamports r = Some m \<and> n \<le> m
        \<and> dec_trunc (dec_mul_int (rb_max_trade_fraction (cf_budget cf)) equity0) = Ok cap \<and> n \<le> cap
        \<and> dec_trunc (dec_mul_int (rb_max_token_fraction (cf_budget cf)) equity0) = Ok total
        \<and> n + (case map_of (l_positions state) (o_mint r) of Some p \<Rightarrow> p_cost_basis p | None \<Rightarrow> 0) \<le> total)
     \<and> (\<exists>f s0 t0. cf_reserves cf = Some f \<and> f (o_mint r) = Some (s0, t0)
        \<and> rb_liquidity_floor_multiple (cf_budget cf) * n \<le> s0))"

definition reads_of :: "step_ctx \<Rightarrow> order_request \<Rightarrow> string option \<Rightarrow> string option \<Rightarrow> string option \<Rightarrow> string \<Rightarrow> string
    \<Rightarrow> engine_config \<Rightarrow> readings \<Rightarrow> bool" where
  \<comment> \<open>the context of a buy built from these readings\<close>
  "reads_of c r seat exit_reason creator source cid cf rd \<longleftrightarrow> cx_order c = r \<and> cx_seat c = seat \<and> cx_exit_reason c = exit_reason
     \<and> cx_creator c = creator \<and> cx_source c = source \<and> cx_cid c = cid \<and> cx_wanted c = [Human_buy] \<and> cx_state c = rd_state rd
     \<and> cx_kill c = rd_kill rd \<and> cx_open c = rd_open rd \<and> cx_killed c = rd_killed rd \<and> cx_equity c = equity_for_halts cf (rd_state rd)
     \<and> cx_approvals c = rd_approvals rd
     \<and> (cx_half_blocked c \<longleftrightarrow> pv_half_all (rd_view rd) \<noteq> [] \<and> pv_half_avail (rd_view rd) = [] \<and> pv_owned (rd_view rd) = [])
     \<and> cx_final_size c = o_size_lamports r"

section \<open>The engine along the walk\<close>

lemma step_engine:
  "step_kill_switch w = (Inr u, w') \<Longrightarrow> wk_engine w' = wk_engine w"
  "step_halted w = (Inr u, w') \<Longrightarrow> wk_engine w' = wk_engine w"
  "step_breaker_open H cl w = (Inr u, w') \<Longrightarrow> wk_engine w' = wk_engine w"
  "step_live_gate cf w = (Inr u, w') \<Longrightarrow> wk_engine w' = wk_engine w"
  "step_approval_mismatch w = (Inr u, w') \<Longrightarrow> wk_engine w' = wk_engine w"
  "step_seat_may_trade cl w = (Inr u, w') \<Longrightarrow> wk_engine w' = wk_engine w"
  "step_max_trades_per_day cf w = (Inr u, w') \<Longrightarrow> wk_engine w' = wk_engine w"
  "step_max_open_positions cf w = (Inr u, w') \<Longrightarrow> wk_engine w' = wk_engine w"
  "step_already_open w = (Inr u, w') \<Longrightarrow> wk_engine w' = wk_engine w"
  "step_creator_already_open cf w = (Inr u, w') \<Longrightarrow> wk_engine w' = wk_engine w"
  "step_max_trade_fraction cf w = (Inr u, w') \<Longrightarrow> wk_engine w' = wk_engine w"
  "step_max_token_fraction cf w = (Inr u, w') \<Longrightarrow> wk_engine w' = wk_engine w"
  by (auto simp: step_kill_switch_def step_halted_def step_breaker_open_def step_live_gate_def step_approval_mismatch_def
      step_seat_may_trade_def step_max_trades_per_day_def step_max_open_positions_def step_already_open_def
      step_creator_already_open_def step_max_trade_fraction_def step_max_token_fraction_def bind_def Let_def
      split: if_splits option.splits sum.splits prod.splits)

definition same_ledger :: "engine \<Rightarrow> engine \<Rightarrow> bool" where
  "same_ledger s s' \<longleftrightarrow> en_store s' = en_store s \<and> en_observe_only s' = en_observe_only s \<and> en_degraded s' = en_degraded s"

lemma missing_step_engine: "step_approval_missing cf cl w = (Inr u, w') \<Longrightarrow> same_ledger (wk_engine w) (wk_engine w')"
  by (auto simp: step_approval_missing_def bind_def Let_def in_engine_def mint_autonomous_def fresh_ulid_def same_ledger_def
      split: if_splits prod.splits sum.splits option.splits)

lemma verify_step_engine:
  "step_ledger_inconsistent H cl w = (Inr u, w') \<Longrightarrow> en_verify H (wk_engine w) = (Ok True, wk_engine w')"
  by (auto simp: step_ledger_inconsistent_def bind_def in_engine_def en_verify_def verify_def split: prod.splits sum.splits err.splits)

lemma en_verify_same: "en_verify H s = (r, s') \<Longrightarrow> en_observe_only s' = en_observe_only s \<and> en_degraded s' = en_degraded s"
  by (auto simp: en_verify_def split: prod.splits)

lemma detect_breach_same:
  assumes "same_ledger s s'"
  shows "fst (detect_breach H cf state equity0 ts source cid s') = fst (detect_breach H cf state equity0 ts source cid s)"
    "en_store (snd (detect_breach H cf state equity0 ts source cid s')) = en_store (snd (detect_breach H cf state equity0 ts source cid s))"
  using assms
  by (auto simp: same_ledger_def detect_breach_def bind_def suppressing_def en_append_def Let_def split: sum.splits prod.splits if_splits)

lemma detect_breach_Ok:
  assumes "detect_breach H cf state equity0 ts source cid s = (Ok b, s')"
  shows "cleared_today (take 10 ts) (en_store s) = Ok True
    \<or> 0 < l_day_start_equity state
      \<and> (daily_loss_met (rb_daily_loss_halt_fraction (cf_budget cf)) (l_day_start_equity state) equity0 \<and> b = Some ''daily_loss''
        \<or> \<not> daily_loss_met (rb_daily_loss_halt_fraction (cf_budget cf)) (l_day_start_equity state) equity0
          \<and> (b = Some ''drawdown'' \<or> drawdown_of (l_peak_equity state) equity0 < fl (dec_val (rb_drawdown_halt_fraction (cf_budget cf)))))"
  using assms
  by (auto simp: detect_breach_def bind_def Let_def not_less not_le split: sum.splits prod.splits if_splits)

lemma daily_step_engine:
  assumes "step_daily_loss_halt H cf cl w = (Inr u, w')"
  obtains ts b where "now_ts cl = Ok ts" "detect_breach H cf (cx_state (wk_ctx w)) (cx_equity (wk_ctx w)) ts (cx_source (wk_ctx w))
      (cx_cid (wk_ctx w)) (wk_engine w) = (Ok b, wk_engine w')" "b \<noteq> Some ''daily_loss''"
  using assms by (auto simp: step_daily_loss_halt_def bind_def in_engine_def split: prod.splits sum.splits if_splits)

lemma drawdown_step_engine:
  assumes "step_drawdown_halt H cf cl w = (Inr u, w')"
  obtains ts b where "now_ts cl = Ok ts" "engine_fold cf (cl_now cl) (en_store (wk_engine w)) = Ok (cx_state (wk_ctx w'))"
    "detect_breach H cf (cx_state (wk_ctx w')) (equity_for_halts cf (cx_state (wk_ctx w'))) ts (cx_source (wk_ctx w))
      (cx_cid (wk_ctx w)) (wk_engine w) = (Ok b, wk_engine w')" "b \<noteq> Some ''drawdown''"
  using assms by (auto simp: step_drawdown_halt_def bind_def in_engine_def split: prod.splits sum.splits if_splits)

lemma creator_step_who:
  assumes "step_creator_already_open cf w = (Inr u, w')" "cx_is_buy (wk_ctx w)" "lm_one_position_per_creator (cf_limits cf)"
  shows "\<exists>who. (case cx_creator (wk_ctx w) of Some (x # xs) \<Rightarrow> Ok (x # xs)
      | _ \<Rightarrow> creator_of (o_mint (cx_order (wk_ctx w))) (cx_state (wk_ctx w)) (en_store (wk_engine w))) = Ok who
    \<and> (who = [] \<or> \<not> creator_open who (cx_state (wk_ctx w)))"
  using assms by (auto simp: step_creator_already_open_def bind_def split: if_splits option.splits list.splits sum.splits)

lemma seat_step_latched:
  assumes "step_seat_may_trade cl w = (Inr u, w')" "cx_exit_reason (wk_ctx w) \<noteq> Some ''kill_flatten''" "cx_is_buy (wk_ctx w)"
  shows "(case cx_seat (wk_ctx w) of Some x \<Rightarrow> Some x | None \<Rightarrow> cl_calling cl) = Some BUY_SEAT
    \<and> {BUY_SEAT, ''bot-02-risk'', ''bot-06-exit''} \<inter> set (en_observe_only (wk_engine w)) = {}"
  using assms by (auto simp: step_seat_may_trade_def split: if_splits option.splits)

lemma buy_walk_Ok:
  assumes "walk_steps H cf cl w = (Inr u, w')" "cx_stage (wk_ctx w) = ACCEPTED" "cx_is_buy (wk_ctx w)" "\<not> cx_is_exit_sell (wk_ctx w)"
    and reads: "reads_of (wk_ctx w) r seat exit_reason creator source cid cf rd"
  shows "\<exists>n. cx_final_size (wk_ctx w') = Some n
    \<and> gates_met H cf cl r seat exit_reason creator source cid rd (wk_engine w) (cx_approval (wk_ctx w')) n
    \<and> core (wk_ctx w') = core (wk_ctx w)"
proof -
  have "for_each STEP_IDS (run_step H cf cl) w = (Inr u, w')"
    by (rule walk_unskipped [OF _ assms(1) [unfolded walk_steps_def]]) (use assms(2,4) in \<open>simp_all add: skip_step_def\<close>)
  then obtain w1 w2 w3 w4 w5 w6 w7 w8 w9 w10 w11 w12 w13 w14 w15 w16 w17 w18 where
    s1: "step_ledger_inconsistent H cl w = (Inr (), w1)" and s2: "step_kill_switch w1 = (Inr (), w2)"
    and s3: "step_halted w2 = (Inr (), w3)" and s4: "step_breaker_open H cl w3 = (Inr (), w4)"
    and s5: "step_live_gate cf w4 = (Inr (), w5)" and s6: "step_approval_missing cf cl w5 = (Inr (), w6)"
    and s7: "step_approval_mismatch w6 = (Inr (), w7)" and s8: "step_seat_may_trade cl w7 = (Inr (), w8)"
    and s9: "step_max_trades_per_day cf w8 = (Inr (), w9)" and s10: "step_max_open_positions cf w9 = (Inr (), w10)"
    and s11: "step_already_open w10 = (Inr (), w11)" and s12: "step_creator_already_open cf w11 = (Inr (), w12)"
    and s13: "step_max_trade_fraction cf w12 = (Inr (), w13)" and s14: "step_max_token_fraction cf w13 = (Inr (), w14)"
    and s15: "step_daily_loss_halt H cf cl w14 = (Inr (), w15)" and s16: "step_drawdown_halt H cf cl w15 = (Inr (), w16)"
    and s17: "step_data_stale cf cl w16 = (Inr (), w17)" and s18: "step_size_too_small cf w17 = (Inr (), w18)"
    and s19: "step_below_liquidity_floor cf w18 = (Inr (), w')"
    unfolding STEP_IDS_def by (simp only: for_each_Ok_iff run_step_simps) blast
  note q1 = ledger_step_Ok [OF s1] and q2 = kill_step_Ok [OF s2] and q3 = halted_step_Ok [OF s3]
    and q4 = breaker_step_Ok [OF s4] and q5 = live_step_Ok [OF s5] and q7 = mismatch_step_Ok [OF s7]
    and q8 = seat_step_Ok(1) [OF s8] and q9 = trades_step_Ok [OF s9] and q10 = positions_step_Ok [OF s10]
    and q11 = already_step_Ok [OF s11] and q12 = creator_step_Ok [OF s12] and q15 = daily_step_Ok [OF s15]
    and q17 = stale_step_Ok [OF s17] and q18 = small_step_Ok [OF s18] and q19 = floor_step_Ok [OF s19]
  note pre = q1 q2 q3 q4 q5 missing_step_Ok(1-4) [OF s6] q7 q8 q9 q10 q11 q12
  have c12: "core (wk_ctx w12) = core (wk_ctx w)" "cx_state (wk_ctx w12) = cx_state (wk_ctx w)"
    "cx_equity (wk_ctx w12) = cx_equity (wk_ctx w)" "cx_final_size (wk_ctx w12) = cx_final_size (wk_ctx w)"
    "cx_approval (wk_ctx w12) = cx_approval (wk_ctx w6)"
    using pre unfolding quiet_def by presburger+
  note f12 = core_fields [OF c12(1)]
  have buy: "cx_is_buy (wk_ctx w12)" using f12 assms(3) by simp
  obtain n n1 cap where t: "resized w12 w13" "cx_final_size (wk_ctx w12) = Some n" "cx_final_size (wk_ctx w13) = Some n1"
    "dec_trunc (dec_mul_int (rb_max_trade_fraction (cf_budget cf)) (cx_equity (wk_ctx w12))) = Ok cap" "n1 = min n cap"
    by (rule trade_cap_step_Ok [OF s13 buy])
  have r: "core (wk_ctx w13) = core (wk_ctx w12)" "cx_state (wk_ctx w13) = cx_state (wk_ctx w12)"
    "cx_equity (wk_ctx w13) = cx_equity (wk_ctx w12)" "cx_approval (wk_ctx w13) = cx_approval (wk_ctx w12)"
    using t(1) by (simp_all add: resized_def)
  have buy13: "cx_is_buy (wk_ctx w13)" using core_fields(6) [OF r(1)] buy by simp
  obtain n1' n2 total where k: "resized w13 w14" "cx_final_size (wk_ctx w13) = Some n1'" "cx_final_size (wk_ctx w14) = Some n2"
    "dec_trunc (dec_mul_int (rb_max_token_fraction (cf_budget cf)) (cx_equity (wk_ctx w13))) = Ok total"
    "n2 = min n1' (total - (case map_of (l_positions (cx_state (wk_ctx w13))) (o_mint (cx_order (wk_ctx w13))) of Some p \<Rightarrow> p_cost_basis p | None \<Rightarrow> 0))"
    by (rule token_cap_step_Ok [OF s14 buy13])
  note d = drawdown_step_Ok [OF s16]
  have post: "core (wk_ctx w') = core (wk_ctx w13)" "cx_final_size (wk_ctx w') = Some n2" "cx_approval (wk_ctx w') = cx_approval (wk_ctx w12)"
    "cx_state (wk_ctx w') = cx_state (wk_ctx w16)" "core (wk_ctx w17) = core (wk_ctx w13)" "core (wk_ctx w18) = core (wk_ctx w13)"
    "cx_final_size (wk_ctx w17) = Some n2" "cx_final_size (wk_ctx w18) = Some n2"
    using k(1,3) q15 d(1-3) q17 q18 q19 r(4) unfolding quiet_def resized_def by presburger+
  have b17: "cx_is_buy (wk_ctx w17)" "cx_is_buy (wk_ctx w18)" "o_mint (cx_order (wk_ctx w18)) = o_mint (cx_order (wk_ctx w))"
    using core_fields(6,1) [OF post(5)] core_fields(6,1) [OF post(6)] core_fields(1) [OF r(1)] f12(1) buy13 by simp_all
  have c: "core (wk_ctx w1) = core (wk_ctx w)" "core (wk_ctx w2) = core (wk_ctx w)" "core (wk_ctx w3) = core (wk_ctx w)"
    "core (wk_ctx w6) = core (wk_ctx w)" "core (wk_ctx w8) = core (wk_ctx w)" "core (wk_ctx w9) = core (wk_ctx w)"
    "core (wk_ctx w10) = core (wk_ctx w)"
    using pre unfolding quiet_def by presburger+
  have st: "cx_state (wk_ctx w2) = cx_state (wk_ctx w)" "cx_state (wk_ctx w8) = cx_state (wk_ctx w)"
    "cx_state (wk_ctx w9) = cx_state (wk_ctx w)" "cx_state (wk_ctx w10) = cx_state (wk_ctx w)"
    using pre unfolding quiet_def by presburger+
  have c57: "core (wk_ctx w5) = core (wk_ctx w)" "core (wk_ctx w7) = core (wk_ctx w)" "core (wk_ctx w11) = core (wk_ctx w)"
    using pre unfolding quiet_def by presburger+
  have x14: "core (wk_ctx w14) = core (wk_ctx w)" "cx_state (wk_ctx w14) = cx_state (wk_ctx w)" "cx_equity (wk_ctx w14) = cx_equity (wk_ctx w)"
    "core (wk_ctx w15) = core (wk_ctx w)" "cx_state (wk_ctx w11) = cx_state (wk_ctx w)"
    using k(1) r c12 q15 pre unfolding quiet_def resized_def by presburger+
  have a6: "cx_approval (wk_ctx w') = cx_approval (wk_ctx w6)" using post(3) c12(5) by simp
  note rd = reads [unfolded reads_of_def]
  note v = verify_step_engine [OF s1]
  have v2: "fst (en_verify H (wk_engine w)) = Ok True" "snd (en_verify H (wk_engine w)) = wk_engine w1" using v by simp_all
  note en = step_engine(1) [OF s2] step_engine(2) [OF s3] step_engine(3) [OF s4] step_engine(4) [OF s5] step_engine(5) [OF s7]
    step_engine(6) [OF s8] step_engine(7) [OF s9] step_engine(8) [OF s10] step_engine(9) [OF s11] step_engine(10) [OF s12]
    step_engine(11) [OF s13] step_engine(12) [OF s14] missing_step_engine [OF s6]
  have e3: "wk_engine w3 = wk_engine w1" using en by simp
  have e7: "same_ledger (wk_engine w1) (wk_engine w7)" "same_ledger (wk_engine w1) (wk_engine w11)" "same_ledger (wk_engine w1) (wk_engine w14)"
    using en by simp_all
  have e1: "en_observe_only (wk_engine w1) = en_observe_only (wk_engine w)" "en_degraded (wk_engine w1) = en_degraded (wk_engine w)"
    using en_verify_same [OF v] by simp_all
  have g1: "rd_kill rd = None" using q2 core_fields(9) [OF c(1)] rd by simp
  have g2: "\<not> h_active (l_halt (rd_state rd))" using q3 st(1) rd by simp
  have g3: "rd_open rd = []" "o_mint r \<notin> set (rd_killed rd)" "en_degraded (wk_engine w) \<noteq> Some True"
    "pv_half_all (rd_view rd) = [] \<or> pv_owned (rd_view rd) \<noteq> [] \<or> pv_half_avail (rd_view rd) \<noteq> []"
    using q4 core_fields [OF c(3)] rd e3 e1 assms(3) by auto
  have g4: "by_engine (cx_approval (wk_ctx w')) \<or> (\<exists>x. cx_approval (wk_ctx w') = Some x \<and> ap_kind x \<in> {Human_buy} \<and> matches x r)"
    using q7 core_fields [OF c(4)] post(3) c12(5) rd by auto
  have m1: "cf_autonomous cf \<or> reason_in exit_reason SYSTEM_EXIT_REASONS
      \<or> (\<exists>x. cx_approval (wk_ctx w') = Some x \<and> map_of (rd_approvals rd) (o_approval_id r) = Some x
        \<and> ap_ticket_id x = Some (o_ticket_id r))"
    using missing_step_Ok(5) [OF s6] core_fields(1,3,12) [OF c57(1)] a6 rd by auto
  have m2: "exit_reason = Some ''kill_flatten''
      \<or> (case seat of Some x \<Rightarrow> Some x | None \<Rightarrow> cl_calling cl) = Some BUY_SEAT
        \<and> {BUY_SEAT, ''bot-02-risk'', ''bot-06-exit''} \<inter> set (en_observe_only (wk_engine w)) = {}"
    using seat_step_latched [OF s8] core_fields(2,3,6) [OF c57(2)] assms(3) rd e7(1) e1(1) by (auto simp: same_ledger_def)
  have g5: "c_trades_today (l_counters (rd_state rd)) < rb_max_trades_per_day (cf_budget cf)"
    "open_count (rd_state rd) < rb_max_open_positions (cf_budget cf)" "\<not> holds (rd_state rd) (o_mint r)"
    using q9 q10 q11 st core_fields [OF c(6)] core_fields [OF c(7)] assms(3) rd by simp_all
  have b11: "cx_is_buy (wk_ctx w11)" "cx_order (wk_ctx w11) = r" "cx_creator (wk_ctx w11) = creator" "cx_state (wk_ctx w11) = rd_state rd"
    "en_store (wk_engine w11) = en_store (wk_engine w1)"
    using core_fields(1,4,6) [OF c57(3)] x14(5) assms(3) rd e7(2) by (simp_all add: same_ledger_def)
  note g6 = creator_step_who [OF s12 b11(1), unfolded b11(2-5)]
  obtain ts b where d15: "now_ts cl = Ok ts" "detect_breach H cf (cx_state (wk_ctx w14)) (cx_equity (wk_ctx w14)) ts
      (cx_source (wk_ctx w14)) (cx_cid (wk_ctx w14)) (wk_engine w14) = (Ok b, wk_engine w15)" "b \<noteq> Some ''daily_loss''"
    by (rule daily_step_engine [OF s15])
  obtain ts' b' where d16: "now_ts cl = Ok ts'" "engine_fold cf (cl_now cl) (en_store (wk_engine w15)) = Ok (cx_state (wk_ctx w16))"
    "detect_breach H cf (cx_state (wk_ctx w16)) (equity_for_halts cf (cx_state (wk_ctx w16))) ts' (cx_source (wk_ctx w15))
      (cx_cid (wk_ctx w15)) (wk_engine w15) = (Ok b', wk_engine w16)" "b' \<noteq> Some ''drawdown''"
    by (rule drawdown_step_engine [OF s16])
  let ?q = "equity_for_halts cf (rd_state rd)"
  let ?s = "snd (detect_breach H cf (rd_state rd) ?q ts source cid (wk_engine w1))"
  have d: "detect_breach H cf (rd_state rd) ?q ts source cid (wk_engine w14) = (Ok b, wk_engine w15)"
    using d15(2) x14 core_fields(14,15) [OF x14(1)] rd by simp
  have st15: "en_store ?s = en_store (wk_engine w15)" using detect_breach_same(2) [OF e7(3), of H cf "rd_state rd" ?q ts source cid] d by simp
  have g7: "loss_gates_met H cf cl source cid (rd_state rd) (wk_engine w1)"
    unfolding loss_gates_met_def Let_def
  proof (intro exI conjI)
    show "now_ts cl = Ok ts" by (rule d15(1))
    show "cleared_today (take 10 ts) (en_store (wk_engine w1)) = Ok True \<or> 0 < l_day_start_equity (rd_state rd)
        \<and> \<not> daily_loss_met (rb_daily_loss_halt_fraction (cf_budget cf)) (l_day_start_equity (rd_state rd)) ?q"
      using detect_breach_Ok [OF d] d15(3) e7(3) by (auto simp: same_ledger_def)
    show "engine_fold cf (cl_now cl) (en_store ?s) = Ok (cx_state (wk_ctx w16))" using d16(2) st15 by simp
    show "cleared_today (take 10 ts) (en_store ?s) = Ok True
        \<or> daily_loss_met (rb_daily_loss_halt_fraction (cf_budget cf)) (l_day_start_equity (cx_state (wk_ctx w16))) (equity_for_halts cf (cx_state (wk_ctx w16)))
        \<or> drawdown_of (l_peak_equity (cx_state (wk_ctx w16))) (equity_for_halts cf (cx_state (wk_ctx w16))) < fl (dec_val (rb_drawdown_halt_fraction (cf_budget cf)))"
      using detect_breach_Ok [OF d16(3)] d16(1,4) d15(1) st15 by auto
    show "marks_fresh cf cl (cx_state (wk_ctx w16))" using q17 by simp
  qed
  have g8: "lm_min_trade_lamports (cf_limits cf) \<le> n2" using q18 b17(1) post(7) by auto
  have g9: "\<exists>f s0 t0. cf_reserves cf = Some f \<and> f (o_mint r) = Some (s0, t0) \<and> rb_liquidity_floor_multiple (cf_budget cf) * n2 \<le> s0"
    using q19 b17 post(8) rd by auto
  have g10: "o_size_lamports r = Some n" "n2 \<le> n" "n2 \<le> cap"
    "dec_trunc (dec_mul_int (rb_max_trade_fraction (cf_budget cf)) ?q) = Ok cap"
    "dec_trunc (dec_mul_int (rb_max_token_fraction (cf_budget cf)) ?q) = Ok total"
    "n2 + (case map_of (l_positions (rd_state rd)) (o_mint r) of Some p \<Rightarrow> p_cost_basis p | None \<Rightarrow> 0) \<le> total"
    using t k c12 r core_fields(1) [OF r(1)] f12(1) rd by auto
  have g11: "\<exists>m cap total. o_size_lamports r = Some m \<and> n2 \<le> m
      \<and> dec_trunc (dec_mul_int (rb_max_trade_fraction (cf_budget cf)) ?q) = Ok cap \<and> n2 \<le> cap
      \<and> dec_trunc (dec_mul_int (rb_max_token_fraction (cf_budget cf)) ?q) = Ok total
      \<and> n2 + (case map_of (l_positions (rd_state rd)) (o_mint r) of Some p \<Rightarrow> p_cost_basis p | None \<Rightarrow> 0) \<le> total"
    by (intro exI conjI) (fact g10)+
  have "core (wk_ctx w') = core (wk_ctx w)" using post(1) r(1) c12(1) by simp
  moreover have "gates_met H cf cl r seat exit_reason creator source cid rd (wk_engine w) (cx_approval (wk_ctx w')) n2"
    unfolding gates_met_def Let_def v2(2)
    by (intro conjI) (fact v2 g1 g2 g3 conjunct1 [OF q5] g4 m1 m2 g5 g7 g8 g9 g11 | rule impI, erule g6)+
  ultimately show ?thesis using post(2) by blast
qed

end
