(* ===== verification/Refusals.thy ===== *)
theory Refusals
  imports RiskWalk
begin

text \<open>
  Which reasons an order can be refused with. \<open>refuses R m\<close> says that if \<open>m\<close> stops the walk it does so
  with a reason in \<open>R\<close>; what raises any other exception refuses nothing. The rules follow the
  structure of the code, so the reasons of a stage are read off its definition.
\<close>

named_theorems plain_intros \<open>computations that raise no step refusal\<close>
named_theorems refuses_intros \<open>rules for the reasons of a refusal\<close>

section \<open>Exceptions that are not refusals\<close>

definition refusal :: "err \<Rightarrow> string option" where
  "refusal e = (case e of StepFail reason d \<Rightarrow> Some reason | _ \<Rightarrow> None)"

definition plain :: "'a result \<Rightarrow> bool" where
  "plain r \<longleftrightarrow> (case r of Inl e \<Rightarrow> refusal e = None | Inr _ \<Rightarrow> True)"

lemma refusal_simps [simp]:
  "refusal (ValueError m) = None" "refusal (TypeError m) = None" "refusal (KeyError m) = None"
  "refusal AssertionError = None" "refusal (IntegrityError m) = None" "refusal (CorruptState m) = None"
  "refusal (LedgerInconsistent n m) = None" "refusal (ClearRefused m) = None" "refusal (RuntimeError m) = None"
  "refusal (Unrepresentable m) = None" "refusal (PermissionDenied m) = None"
  "refusal (StepFail reason d) = Some reason" "refusal (OrderRejectedError a b c f) = None"
  "refusal (OrderUnknownError a b c f) = None" "refusal (ArithmeticError m) = None"
  by (simp_all add: refusal_def)

lemma plain_Ok [simp, plain_intros]: "plain (Inr x)"
  and plain_Err [simp]: "plain (Inl e) \<longleftrightarrow> refusal e = None"
  by (simp_all add: plain_def)

lemma plain_rbind [plain_intros]: "plain m \<Longrightarrow> (\<And>x. plain (f x)) \<Longrightarrow> plain (rbind m f)"
  by (cases m) simp_all

lemma plain_if [plain_intros]: "(b \<Longrightarrow> plain x) \<Longrightarrow> (\<not> b \<Longrightarrow> plain y) \<Longrightarrow> plain (if b then x else y)"
  by simp

lemma plain_guards [plain_intros]:
  "refusal e = None \<Longrightarrow> plain (rguard b e)" "refusal e = None \<Longrightarrow> plain (of_option e x)"
  by (simp_all add: rguard_def of_option_def split: option.splits)

lemma plain_rmap [plain_intros]: "(\<And>x. plain (f x)) \<Longrightarrow> plain (rmap f xs)"
  by (induction xs) (auto intro!: plain_intros)

lemma plain_rfold [plain_intros]: "(\<And>s x. plain (f s x)) \<Longrightarrow> plain (rfold f s xs)"
  by (induction xs arbitrary: s) (auto intro!: plain_intros)

lemma plain_normalize:
  "plain (normalize v path)" "plain (normalize_list vs path i)" "plain (normalize_items kvs path)"
  by (induction v path and vs path i and kvs path rule: normalize_normalize_list_normalize_items.induct)
    (auto intro!: plain_intros)

lemma plain_canonical [plain_intros]: "plain (canonical_json payload)"
  unfolding canonical_json_def by (intro plain_intros plain_normalize)

lemma plain_validated [plain_intros]: "plain (validated_payload ty payload)"
  unfolding validated_payload_def model_dump_def dump_field_def
  by (intro plain_intros) (auto split: prod.splits option.splits)

lemma plain_envelope [plain_intros]: "plain (check_envelope e)"
  unfolding check_envelope_def Let_def assert_str_def
  by (intro plain_intros) (auto intro!: plain_intros split: option.splits pyval.splits)

lemma plain_append [plain_intros]: "plain (fst (append H st x))"
proof -
  let ?m = "rbind (check_envelope (envelope x)) (\<lambda>_. rbind (validated_payload (x_type x) (x_payload x)) (\<lambda>pj.
      let (sq, prev) = head_of (events st) in rbind (row_hash H prev sq x pj) (\<lambda>h.
      let r = stored_row sq prev x pj h in rbind (insert_row r (events st)) (\<lambda>rows. Ok (r, rows)))))"
  have "plain ?m"
    unfolding row_hash_def insert_row_def Let_def
    by (intro plain_intros) (auto intro!: plain_intros split: prod.splits)
  then show ?thesis by (cases ?m) (auto simp: append_def)
qed

lemma plain_verify [plain_intros]: "plain (fst (verify H st))"
proof -
  have "plain (verify_rows H h rows)" for h rows
    by (induction rows arbitrary: h) (auto simp: row_hash_def intro!: plain_intros)
  from this [of GENESIS_PREV_HASH "events st"] show ?thesis
    by (cases "verify_rows H GENESIS_PREV_HASH (events st)") (simp_all add: verify_def)
qed

lemma plain_format [plain_intros]: "plain (format_ts_utc t)"
  by (simp add: format_ts_utc_def Let_def)

lemma plain_times [plain_intros]: "plain (now_ts cl)" and plain_iso [plain_intros]: "plain (iso_now t)"
  unfolding now_ts_def iso_now_def by (intro plain_intros)+

lemma plain_approval [plain_intros]: "plain (validate_approval a)"
  unfolding validate_approval_def
  by (intro plain_intros) (auto simp: human_kinds_need_human_def Let_def)

section \<open>Refusals of a stateful operation\<close>

definition refuses :: "string set \<Rightarrow> ('s, 'a) eff \<Rightarrow> bool" where
  "refuses R m \<longleftrightarrow> (\<forall>s e. fst (m s) = Inl e \<longrightarrow> refusal e \<in> {None} \<union> Some ` R)"

lemma refusesD: "refuses R m \<Longrightarrow> m s = (Inl (StepFail reason d), s') \<Longrightarrow> reason \<in> R"
  unfolding refuses_def by (metis (no_types, lifting) UnE fst_conv image_iff option.distinct(1) option.inject
      refusal_simps(12) singletonD)

lemma refuses_mono: "refuses R m \<Longrightarrow> R \<subseteq> R' \<Longrightarrow> refuses R' m"
  unfolding refuses_def by blast

lemma refuses_basic [refuses_intros]:
  "refuses R (ret x)" "refuses R get" "refuses R (modify f)" "refuses R get_ctx" "refuses R (modify_ctx g)" "refuses R (mark step)"
  by (simp_all add: refuses_def)

lemma refuses_lift [refuses_intros]: "plain r \<Longrightarrow> refuses R (lift r)"
  by (cases r) (auto simp: refuses_def)

lemma refuses_raise [refuses_intros]: "refusal e = None \<Longrightarrow> refuses R (raise e)"
  by (simp add: refuses_def)

lemma refuses_fail [refuses_intros]: "reason \<in> R \<Longrightarrow> refuses R (fail reason d)"
  by (simp add: refuses_def fail_def)

lemma refuses_bind [refuses_intros]: "refuses R m \<Longrightarrow> (\<And>x. refuses R (f x)) \<Longrightarrow> refuses R (bind m f)"
  by (auto simp: refuses_def bind_def split: prod.splits sum.splits) (metis fst_conv)+

lemma refuses_if [refuses_intros]: "(b \<Longrightarrow> refuses R m) \<Longrightarrow> (\<not> b \<Longrightarrow> refuses R n) \<Longrightarrow> refuses R (if b then m else n)"
  by simp

lemma refuses_option [refuses_intros]:
  "(x = None \<Longrightarrow> refuses R m) \<Longrightarrow> (\<And>y. x = Some y \<Longrightarrow> refuses R (n y)) \<Longrightarrow> refuses R (case x of None \<Rightarrow> m | Some y \<Rightarrow> n y)"
  by (cases x) simp_all

lemma refuses_suppressing [refuses_intros]: "refuses R m \<Longrightarrow> refuses R (suppressing P m)"
  by (auto simp: refuses_def suppressing_def split: prod.splits sum.splits if_splits) (metis fst_conv)+

lemma refuses_in_engine [refuses_intros]: "refuses R m \<Longrightarrow> refuses R (in_engine m)"
  by (auto simp: refuses_def in_engine_def split: prod.splits) (metis fst_conv)

lemma refuses_for_each [refuses_intros]: "(\<And>x. x \<in> set xs \<Longrightarrow> refuses R (f x)) \<Longrightarrow> refuses R (for_each xs f)"
  by (induction xs) (auto intro!: refuses_intros)

lemma refuses_append [refuses_intros]: "refuses R (en_append H x)"
  unfolding refuses_def
proof (intro allI impI)
  fix s e assume "fst (en_append H x s) = Inl e"
  then have "fst (append H (en_store s) x) = Inl e" by (auto simp: en_append_def rbind_Err_iff split: prod.splits)
  with plain_append [of H "en_store s" x] show "refusal e \<in> {None} \<union> Some ` R" by simp
qed

lemma refuses_mint [refuses_intros]: "refuses R (mint_autonomous cl r exit_reason)"
  unfolding mint_autonomous_def fresh_ulid_def
  by (intro refuses_intros plain_intros) (auto intro!: refuses_intros split: prod.splits)

section \<open>The steps an exit sell meets\<close>

lemma ledger_step_refuses: "refuses {''ledger_inconsistent''} (step_ledger_inconsistent H cl)"
proof -
  have "refuses {''ledger_inconsistent''} (\<lambda>w. case in_engine (en_verify H) w of
        (Inl (LedgerInconsistent n m), w1) \<Rightarrow>
          bind (suppressing suppressed (bind (lift (now_ts cl)) (\<lambda>ts.
            in_engine (en_append H (halt_entry H ''ledger_inconsistent'' (''chain verify failed: '' @ m) 0 0 ts (cx_source c) (cx_cid c))))))
            (\<lambda>_. fail ''ledger_inconsistent'' ''chain verify failed'') w1
      | (Inl e, w1) \<Rightarrow> (Err e, w1)
      | (Inr _, w1) \<Rightarrow> (Ok (), w1))" (is "refuses ?R ?m") for c
    unfolding refuses_def
  proof (intro allI impI)
    fix w e assume e: "fst (?m w) = Inl e"
    let ?f = "\<lambda>m. bind (suppressing suppressed (bind (lift (now_ts cl)) (\<lambda>ts.
            in_engine (en_append H (halt_entry H ''ledger_inconsistent'' (''chain verify failed: '' @ m) 0 0 ts (cx_source c) (cx_cid c))))))
            (\<lambda>_. fail ''ledger_inconsistent'' ''chain verify failed'' :: (walk, unit) eff)"
    have f: "refuses {''ledger_inconsistent''} (?f m)" for m
      by (intro refuses_intros plain_intros) simp
    obtain r w1 where v: "in_engine (en_verify H) w = (r, w1)" by force
    have "r = fst (verify H (en_store (wk_engine w)))"
      using v by (auto simp: in_engine_def en_verify_def split: prod.splits)
    then have p: "plain r" using plain_verify by simp
    show "refusal e \<in> {None} \<union> Some ` {''ledger_inconsistent''}"
    proof (cases r)
      case (Inl e1)
      show ?thesis
      proof (cases "\<exists>n m. e1 = LedgerInconsistent n m")
        case True
        then obtain n m where "e1 = LedgerInconsistent n m" by blast
        then have "fst (?f m w1) = Inl e" using e v Inl by simp
        then show ?thesis using f [of m] unfolding refuses_def by blast
      next
        case False
        then have "e = e1" using e v Inl by (auto split: err.splits)
        then show ?thesis using p Inl by simp
      qed
    next
      case (Inr b)
      then show ?thesis using e v by simp
    qed
  qed
  then show ?thesis unfolding step_ledger_inconsistent_def by (intro refuses_intros)
qed

lemma exit_steps_refuse:
  "refuses {''live_gate''} (step_live_gate cf)"
  "refuses {''approval_missing''} (step_approval_missing cf cl)"
  "refuses {''approval_mismatch''} step_approval_mismatch"
  "refuses {''seat_may_trade''} (step_seat_may_trade cl)"
  "refuses {''no_position''} confirm_holding"
  unfolding step_live_gate_def step_approval_missing_def step_approval_mismatch_def step_seat_may_trade_def
    confirm_holding_def Let_def
  by (intro refuses_intros; simp)+

definition EXIT_REFUSALS :: "string list" where
  "EXIT_REFUSALS = [''ledger_inconsistent'', ''live_gate'', ''approval_missing'', ''approval_mismatch'', ''seat_may_trade'', ''no_position'']"

lemma exit_run_step_refuses:
  assumes "step \<in> set STEP_IDS" "step \<notin> set EXIT_SKIP_STEPS"
  shows "refuses (set EXIT_REFUSALS) (run_step H cf cl step)"
proof -
  have "step \<in> {''ledger_inconsistent'', ''live_gate'', ''approval_missing'', ''approval_mismatch'', ''seat_may_trade''}"
    using assms by (auto simp: STEP_IDS_def EXIT_SKIP_STEPS_def)
  then show ?thesis
    by (elim insertE) (simp_all add: run_step_simps EXIT_REFUSALS_def
        refuses_mono [OF ledger_step_refuses] refuses_mono [OF exit_steps_refuse(1)] refuses_mono [OF exit_steps_refuse(2)]
        refuses_mono [OF exit_steps_refuse(3)] refuses_mono [OF exit_steps_refuse(4)])
qed

end
