(* ===== verification/RiskSafety.thy ===== *)
theory RiskSafety
  imports Refusals
begin

text \<open>
  The guarantees of the risk engine's decisions: what a passed buy met, what can still stop an exit
  sell, when the daily loss is detected, which kill verdicts are enforced, and what the decision cache
  does not look at.
\<close>

section \<open>The context of a check\<close>

lemma new_ctx_fields:
  assumes "new_ctx H cf cl r seat exit_reason creator source cid stage state equity0 v s = (Ok c, s')"
  shows "cx_order c = r" "cx_is_buy c \<longleftrightarrow> o_side r = BUY" "cx_is_exit_sell c = is_exit_sell r exit_reason"
    "cx_stage c = stage" "cx_state c = state" "cx_equity c = equity0" "cx_exit_reason c = exit_reason" "cx_seat c = seat"
  using assms by (auto simp: new_ctx_def Let_def bind_Ok_iff)

lemma evaluate_Ok:
  assumes "evaluate H cf cl r order_hash seat exit_reason creator source cid stage s = (Ok d, s')"
  obtains state v s1 c s2 where "engine_fold cf (cl_now cl) (en_store s) = Ok state"
    "new_ctx H cf cl r seat exit_reason creator source cid stage state (equity_for_halts cf state) v s1 = (Ok c, s2)"
    "walked H cf cl order_hash v c s2 = (Ok d, s')"
  using assms by (auto simp: evaluate_def bind_Ok_iff)

definition take_readings :: "(string \<Rightarrow> string) \<Rightarrow> engine_config \<Rightarrow> call \<Rightarrow> string \<Rightarrow> string \<Rightarrow> string \<Rightarrow> (engine, readings) eff" where
  \<comment> \<open>what a check of a buy reads before its walk, in order: the folded state, the breakers synchronised and refreshed,
     the probes, the kill sources, the open breakers, the kill verdicts and the standing approvals\<close>
  "take_readings H cf cl order_hash source cid = bind get (\<lambda>s. bind (lift (engine_fold cf (cl_now cl) (en_store s))) (\<lambda>state.
     bind (with_breakers (sync_from_ledger (cl_now cl))) (\<lambda>_. bind (lift (now_ts cl)) (\<lambda>ts.
     bind (with_breakers (refresh H (cl_now cl) ts source cid (equity_for_halts cf state))) (\<lambda>_.
     bind (snapshot_probes (cl_now cl) order_hash) (\<lambda>v. bind (poll_kill H cl source cid) (\<lambda>kill.
     bind (with_breakers (open_breakers (cl_now cl))) (\<lambda>opened. bind get (\<lambda>s1.
     bind (lift (killed_mints cf (en_store s1))) (\<lambda>killed. bind (lift (standing_approvals (en_store s1))) (\<lambda>approvals.
       ret \<lparr>rd_state = state, rd_view = v, rd_kill = kill, rd_open = opened, rd_killed = killed, rd_approvals = approvals\<rparr>)))))))))))"

lemma evaluate_buy_Ok:
  assumes "evaluate H cf cl r order_hash seat exit_reason creator source cid stage s = (Ok d, s')" "o_side r = BUY"
  obtains rd c s0 where "take_readings H cf cl order_hash source cid s = (Ok rd, s0)"
    "reads_of c r seat exit_reason creator source cid cf rd" "cx_stage c = stage" "cx_is_buy c" "\<not> cx_is_exit_sell c"
    "walked H cf cl order_hash (rd_view rd) c s0 = (Ok d, s')"
proof -
  obtain state ts v s1 s2 s3 c s0 where e: "engine_fold cf (cl_now cl) (en_store s) = Ok state"
    "with_breakers (sync_from_ledger (cl_now cl)) s = (Ok (), s1)" "now_ts cl = Ok ts"
    "with_breakers (refresh H (cl_now cl) ts source cid (equity_for_halts cf state)) s1 = (Ok (), s2)"
    "snapshot_probes (cl_now cl) order_hash s2 = (Ok v, s3)"
    "new_ctx H cf cl r seat exit_reason creator source cid stage state (equity_for_halts cf state) v s3 = (Ok c, s0)"
    "walked H cf cl order_hash v c s0 = (Ok d, s')"
    using assms(1) by (auto simp: evaluate_def bind_Ok_iff)
  obtain kill s4 opened killed approvals where n: "poll_kill H cl source cid s3 = (Ok kill, s4)"
    "with_breakers (open_breakers (cl_now cl)) s4 = (Ok opened, s0)" "killed_mints cf (en_store s0) = Ok killed"
    "standing_approvals (en_store s0) = Ok approvals"
    and c: "reads_of c r seat exit_reason creator source cid cf
      \<lparr>rd_state = state, rd_view = v, rd_kill = kill, rd_open = opened, rd_killed = killed, rd_approvals = approvals\<rparr>"
    "cx_stage c = stage" "cx_is_buy c" "\<not> cx_is_exit_sell c"
    using e(6) assms(2) by (auto simp: new_ctx_def Let_def bind_Ok_iff reads_of_def is_exit_sell_def)
  have "take_readings H cf cl order_hash source cid s
      = (Ok \<lparr>rd_state = state, rd_view = v, rd_kill = kill, rd_open = opened, rd_killed = killed, rd_approvals = approvals\<rparr>, s0)"
    using e(1-5) n by (simp add: take_readings_def)
  from that [OF this c] e(7) show thesis by simp
qed

lemma confirm_Ok: "confirm_holding w = (Inr u, w') \<Longrightarrow> w' = w"
  by (auto simp: confirm_holding_def split: if_splits)

lemma claim_ctx:
  assumes "claim_probe now order_hash v w = (Inr u, w')"
  shows "cx_final_size (wk_ctx w') = cx_final_size (wk_ctx w)" "cx_approval (wk_ctx w') = cx_approval (wk_ctx w)"
    "core (wk_ctx w') = core (wk_ctx w)"
  using assms
  by (auto simp: claim_probe_def bind_def core_def split: if_splits list.splits prod.splits sum.splits dest!: in_engine_ctx)

lemma walked_passed:
  assumes "walked H cf cl order_hash v c s = (Ok d, s')" "d_passed d"
  obtains w' where "stages_of_walk H cf cl order_hash v \<lparr>wk_engine = s, wk_ctx = c\<rparr> = (Inr (), w')"
    "d = decide order_hash (wk_ctx w') None"
  using assms by (auto simp: walked_def decide_def split: prod.splits sum.splits err.splits)

section \<open>The walk of an exit sell\<close>

lemma exit_walk_refuses:
  assumes "cx_is_exit_sell (wk_ctx w)" "set steps \<subseteq> set STEP_IDS"
    "for_each steps (\<lambda>step. bind get_ctx (\<lambda>c. if skip_step step c then ret () else run_step H cf cl step)) w = (out, w')"
  shows "(case out of Inl e \<Rightarrow> refusal e \<in> {None} \<union> Some ` set EXIT_REFUSALS | Inr u \<Rightarrow> core (wk_ctx w') = core (wk_ctx w))"
  using assms
proof (induction steps arbitrary: w)
  case (Cons step steps)
  let ?f = "\<lambda>step. bind get_ctx (\<lambda>c. if skip_step step c then ret () else run_step H cf cl step)"
  show ?case
  proof (cases "skip_step step (wk_ctx w)")
    case True
    then show ?thesis using Cons by simp
  next
    case False
    then have f: "?f step w = run_step H cf cl step w" by simp
    have "step \<notin> set EXIT_SKIP_STEPS" using False Cons.prems(1) by (auto simp: skip_step_def split: if_splits)
    then have r: "refuses (set EXIT_REFUSALS) (run_step H cf cl step)" using exit_run_step_refuses Cons.prems(2) by simp
    show ?thesis
    proof (cases "run_step H cf cl step w")
      case (Pair q w1)
      show ?thesis
      proof (cases q)
        case (Inl e)
        then show ?thesis using r Pair f Cons.prems(3) unfolding refuses_def by (auto dest: spec [of _ w])
      next
        case (Inr u)
        have k: "core (wk_ctx w1) = core (wk_ctx w)" using run_step_core Pair Inr by blast
        then have "cx_is_exit_sell (wk_ctx w1)" using core_fields(7) [OF k] Cons.prems(1) by simp
        then show ?thesis using Cons.IH [of w1] Cons.prems(2,3) Pair Inr f k by (auto split: sum.splits)
      qed
    qed
  qed
qed auto

lemma exit_stages_refuse:
  assumes "cx_is_exit_sell (wk_ctx w)" "stages_of_walk H cf cl order_hash v w = (Inl e, w')"
  shows "refusal e \<in> {None} \<union> Some ` set EXIT_REFUSALS"
proof (cases "walk_steps H cf cl w")
  case (Pair out w1)
  note walk = exit_walk_refuses [OF assms(1) subset_refl Pair [unfolded walk_steps_def]]
  show ?thesis
  proof (cases out)
    case (Inl e1)
    then show ?thesis using walk Pair assms(2) by (simp add: stages_of_walk_def)
  next
    case (Inr u)
    then have k: "core (wk_ctx w1) = core (wk_ctx w)" using walk by simp
    have x: "cx_is_exit_sell (wk_ctx w1)" using core_fields(7) [OF k] assms(1) by simp
    show ?thesis
    proof (cases "confirm_holding w1")
      case (Pair out2 w2)
      show ?thesis
      proof (cases out2)
        case (Inl e2)
        have "refusal e2 \<in> {None} \<union> Some ` {''no_position''}"
          using exit_steps_refuse(5) Pair Inl unfolding refuses_def by (metis fst_conv)
        moreover have "e = e2" using assms(2) \<open>walk_steps H cf cl w = (out, w1)\<close> Inr Pair Inl by (simp add: stages_of_walk_def)
        ultimately show ?thesis by (auto simp: EXIT_REFUSALS_def)
      next
        case (Inr u2)
        then have "w2 = w1" using confirm_Ok Pair by blast
        then have "claim_probe (cl_now cl) order_hash v w2 = (Inr (), w2)" using x by (simp add: claim_probe_def)
        then show ?thesis using assms(2) \<open>walk_steps H cf cl w = (out, w1)\<close> \<open>out = Inr u\<close> Pair Inr by (simp add: stages_of_walk_def)
      qed
    qed
  qed
qed

end
