(* ===== verification/FloatText.thy ===== *)
theory FloatText
  imports Decimals Floats
begin

text \<open>
  The text of a float (\<open>float.__repr__\<close>), which the adapter stores as \<open>str(Decimal(str(latency)))\<close>:
  the shortest decimal that rounds back to the float. \<open>decimal_digits x n\<close> is \<open>x\<close> rounded half even
  to \<open>n\<close> significant digits; seventeen always suffice for a 53-bit float. The modelled floats are not
  negative, and the notation is fixed between \<open>10 ** -4\<close> and \<open>10 ** 16\<close> as in Python.
\<close>

definition lead10 :: "rat \<Rightarrow> int" where
  \<comment> \<open>the exponent of the leading digit of a positive number\<close>
  "lead10 x = (let (n, d) = quotient_of x; k = int (ndigits (nat n)) - int (ndigits (nat d))
     in if x < 10 powi k then k - 1 else k)"

definition decimal_digits :: "rat \<Rightarrow> nat \<Rightarrow> nat \<times> int" where
  \<comment> \<open>coefficient and exponent of \<open>x\<close> at \<open>n\<close> significant digits\<close>
  "decimal_digits x n = (let e = lead10 x - int n + 1 in (nat (rhe (x / 10 powi e)), e))"

definition decimal_val :: "nat \<times> int \<Rightarrow> rat" where
  "decimal_val ce = of_nat (fst ce) * 10 powi snd ce"

definition shortest_digits :: "rat \<Rightarrow> nat \<times> int" where
  "shortest_digits x = (case List.find (\<lambda>n. fl (decimal_val (decimal_digits x n)) = x) [1..<17] of
     Some n \<Rightarrow> decimal_digits x n | None \<Rightarrow> decimal_digits x 17)"

definition sci_exp :: "int \<Rightarrow> string" where
  "sci_exp e = (if e < 0 then ''e-'' else ''e+'') @ (let s = nat_str (nat \<bar>e\<bar>) in if length s < 2 then ''0'' @ s else s)"

definition float_repr :: "rat \<Rightarrow> string" where
  "float_repr x = (if x = 0 then ''0.0'' else
     let (c, e) = shortest_digits x; z = zeros_stripped (ndigits c) c; s = nat_str (c div 10 ^ z);
         point = e + int z + int (length s)
     in if - 4 < point \<and> point \<le> 16
        then (if point \<le> 0 then ''0.'' @ replicate (nat (- point)) CHR ''0'' @ s
              else if int (length s) \<le> point then s @ replicate (nat point - length s) CHR ''0'' @ ''.0''
              else take (nat point) s @ ''.'' @ drop (nat point) s)
        else (case s of c # cs \<Rightarrow> c # (if cs = [] then [] else ''.'' @ cs) | [] \<Rightarrow> []) @ sci_exp (point - 1))"

definition decimal_of_float :: "rat \<Rightarrow> dec result" where
  \<comment> \<open>\<open>Decimal(str(x))\<close>\<close>
  "decimal_of_float x = of_option (ArithmeticError ''InvalidOperation'') (dec_of_str (float_repr x))"

end
