(* ===== verification/Adapter.thy ===== *)
theory Adapter
  imports RiskEngine FloatText
begin

text \<open>
  The shell of the paper adapter (\<open>execution/paper_adapter/adapter.py\<close>, \<open>models.py\<close>, \<open>quote.py\<close>):
  its state, the values it shares between stages, the reads of the ledger fold, quotes and previews.
  An \<open>await\<close> that can suspend is \<open>suspend w n\<close>: the other tasks of the desk are an arbitrary
  transformer of the adapter's state, and the clock and the calling seat are read anew per stage. A
  fresh Python object that only serves as a token is a counter.
\<close>

section \<open>Values\<close>

record curve_snapshot =
  cs_mint :: string
  cs_s :: int
  cs_t :: int
  cs_complete :: bool
  cs_source :: string
  cs_slot :: "int option"
  cs_ts :: "rat option"

datatype fill_status = FILLED | PARTIAL | REJECTED | UNKNOWN

record fill =
  fi_order_id :: string
  fi_decision_id :: string
  fi_status :: fill_status
  fi_venue_tx_ref :: string
  fi_filled_lamports :: int
  fi_filled_units :: int
  fi_filled_fraction :: dec
  fi_price_avg :: dec
  fi_slippage_bps :: int
  fi_venue_fee :: int
  fi_network_cost :: int
  fi_route :: string
  fi_seq :: int

definition dry_run_ref :: "string \<Rightarrow> bool" where
  \<comment> \<open>\<open>^dry_run:[0-9A-HJKMNP-TV-Z]{26}$\<close>\<close>
  "dry_run_ref s \<longleftrightarrow> take 8 s = ''dry_run:'' \<and> ULID_RE (drop 8 s)"

definition validate_fill :: "fill \<Rightarrow> fill result" where
  "validate_fill f = (if ULID_RE (fi_order_id f) \<and> ULID_RE (fi_decision_id f) \<and> dry_run_ref (fi_venue_tx_ref f)
     then Ok f else Err (ValueError ''field constraint''))"

record adapter_config =
  ac_engine :: engine_config
  ac_budget :: risk_budget
  ac_limits :: engine_limits
  ac_fees :: fee_model
  ac_priced :: bool
  ac_source :: string
  ac_p_drop :: rat

record adapter =
  pa_engine :: engine
  pa_inflight :: "string list"
  pa_barrier :: barrier
  pa_cancelled :: "string list"
  pa_last_price_ts :: "(string, rat) dict"
  pa_last_reserves :: "(string, int \<times> int) dict"
  pa_frozen_marks :: "(string, int) dict"
  pa_active_places :: "string list"
  pa_owned :: "(nat, string) dict"
  pa_tokens :: nat

record outside =
  ou_call :: "nat \<Rightarrow> call"
  ou_curve :: "nat \<Rightarrow> string \<Rightarrow> curve_snapshot option"
  ou_tasks :: "nat \<Rightarrow> adapter \<Rightarrow> adapter"
  ou_lognormal :: rat
  ou_uniform :: rat

section \<open>Access to the parts of the state\<close>

abbreviation pa_store :: "adapter \<Rightarrow> store" where "pa_store s \<equiv> en_store (pa_engine s)"

definition on_engine :: "(engine, 'a) eff \<Rightarrow> (adapter, 'a) eff" where
  "on_engine m s = (case m (pa_engine s) of (r, e) \<Rightarrow> (r, s\<lparr>pa_engine := e\<rparr>))"

definition get_store :: "(adapter, store) eff" where
  "get_store s = (Ok (pa_store s), s)"

definition pa_append :: "(string \<Rightarrow> string) \<Rightarrow> entry \<Rightarrow> (adapter, ledger_row) eff" where
  "pa_append H x s = (case append H (pa_store s) x of (r, st') \<Rightarrow> (r, s\<lparr>pa_engine := (pa_engine s)\<lparr>en_store := st'\<rparr>\<rparr>))"

definition pa_append_batch :: "(string \<Rightarrow> string) \<Rightarrow> entry list \<Rightarrow> (adapter, ledger_row list) eff" where
  "pa_append_batch H xs s = (case append_batch H (pa_store s) (map envelope xs) of
     (r, st') \<Rightarrow> (r, s\<lparr>pa_engine := (pa_engine s)\<lparr>en_store := st'\<rparr>\<rparr>))"

definition stored :: "string \<Rightarrow> (adapter, event option) eff" where
  \<comment> \<open>\<open>self._store.by_key(key)\<close>\<close>
  "stored key = bind get_store (\<lambda>st. lift (by_key st key))"

definition new_owner :: "(adapter, nat) eff" where
  "new_owner s = (Ok (pa_tokens s), s\<lparr>pa_tokens := Suc (pa_tokens s)\<rparr>)"

definition suspend :: "outside \<Rightarrow> nat \<Rightarrow> (adapter, unit) eff" where
  "suspend w n = modify (ou_tasks w n)"

definition pa_ulid :: "call \<Rightarrow> (adapter, string) eff" where
  "pa_ulid cl = on_engine (fresh_ulid (cl_now cl))"

definition inflight_add :: "string \<Rightarrow> adapter \<Rightarrow> adapter" where
  "inflight_add key s = s\<lparr>pa_inflight := List.insert key (pa_inflight s), pa_barrier := register_order key (pa_barrier s)\<rparr>"

definition inflight_discard :: "string \<Rightarrow> adapter \<Rightarrow> adapter" where
  "inflight_discard key s = s\<lparr>pa_inflight := removeAll key (pa_inflight s), pa_barrier := order_done key (pa_barrier s)\<rparr>"

section \<open>Reads of the ledger fold\<close>

definition fold_of :: "adapter_config \<Rightarrow> call \<Rightarrow> store \<Rightarrow> lstate result" where
  "fold_of cf cl st =
     rbind (case get_meta st ''initial_equity_lamports'' None of
        Some m \<Rightarrow> of_option (ValueError ''invalid literal for int()'') (int_of_str m)
      | None \<Rightarrow> budget_equity_lamports (ac_budget cf)) (\<lambda>e0.
     rbind (utc_day (cl_now cl)) (\<lambda>day.
     rbind (read st 0 [] None None None) (\<lambda>es. fold_events (initial_state (ac_source cf) e0 day) es)))"

definition fold_state :: "adapter_config \<Rightarrow> call \<Rightarrow> (adapter, lstate) eff" where
  "fold_state cf cl = bind get_store (\<lambda>st. lift (fold_of cf cl st))"

definition fill_cap :: "adapter_config \<Rightarrow> int \<Rightarrow> int result" where
  "fill_cap cf reserve = dec_trunc (dec_mul_int (rb_partial_fill_fraction (ac_budget cf)) reserve)"

definition floor_of :: "adapter_config \<Rightarrow> int \<Rightarrow> int" where
  "floor_of cf size0 = rb_liquidity_floor_multiple (ac_budget cf) * size0"

definition slippage_bps :: "adapter_config \<Rightarrow> order_request \<Rightarrow> int" where
  "slippage_bps cf r = min (o_max_slippage_bps r) (lm_max_slippage_bps (ac_limits cf))"

definition sell_preview_units :: "int option \<Rightarrow> int option \<Rightarrow> curve_snapshot \<Rightarrow> int" where
  "sell_preview_units size_lamports token_units curve = (case token_units of Some u \<Rightarrow> u
     | None \<Rightarrow> let size0 = or_default 0 size_lamports in
         if size0 \<le> 0 \<or> cs_s curve \<le> 0 then 0 else size0 * cs_t curve div cs_s curve)"

definition sell_units :: "order_request \<Rightarrow> curve_snapshot \<Rightarrow> int" where
  "sell_units r curve = sell_preview_units (o_size_lamports r) (o_token_units r) curve"

definition units_held :: "lstate \<Rightarrow> string \<Rightarrow> int" where
  "units_held state mint = (case map_of (l_positions state) mint of None \<Rightarrow> 0 | Some p \<Rightarrow> p_token_units p)"

definition open_units :: "adapter_config \<Rightarrow> call \<Rightarrow> string \<Rightarrow> (adapter, int) eff" where
  "open_units cf cl mint = bind (fold_state cf cl) (\<lambda>state. ret (units_held state mint))"

definition pa_cash :: "adapter_config \<Rightarrow> call \<Rightarrow> (adapter, int) eff" where
  "pa_cash cf cl = bind (fold_state cf cl) (\<lambda>state. ret (l_cash state))"

definition pa_equity :: "adapter_config \<Rightarrow> call \<Rightarrow> (adapter, int) eff" where
  "pa_equity cf cl = bind (fold_state cf cl) (\<lambda>state. ret (l_cash state
     + sum_list (map position_value (List.filter (\<lambda>p. p_token_units p > 0) (dict_values (l_positions state))))))"

definition read_curve :: "adapter_config \<Rightarrow> outside \<Rightarrow> nat \<Rightarrow> string \<Rightarrow> (adapter, curve_snapshot option) eff" where
  "read_curve cf w n mint = (if \<not> ac_priced cf then ret None else bind (suspend w n) (\<lambda>_. ret (ou_curve w n mint)))"

definition cancel_order :: "string \<Rightarrow> (adapter, bool) eff" where
  \<comment> \<open>\<open>cancel\<close>: true only while the order is in flight\<close>
  "cancel_order order_id = bind get (\<lambda>s. if order_id \<notin> set (pa_inflight s) then ret False
     else bind (modify (\<lambda>s. s\<lparr>pa_cancelled := List.insert order_id (pa_cancelled s)\<rparr>)) (\<lambda>_. ret True))"

record held_position =
  hp_ticket_id :: string
  hp_mint :: string
  hp_correlation_id :: string
  hp_price_entry :: dec
  hp_price_peak :: dec
  hp_cost_basis :: int
  hp_token_units :: int
  hp_opened_at :: "string option"
  hp_last_mtm :: int
  hp_unrealised_pnl :: int
  hp_mtm_frozen :: bool

definition held_position_of :: "string \<times> position \<Rightarrow> held_position" where
  \<comment> \<open>\<open>opened_at\<close> is None where the opening text does not parse and the clock is used\<close>
  "held_position_of mp = (case mp of (mint, p) \<Rightarrow>
     \<lparr>hp_ticket_id = p_ticket_id p, hp_mint = mint, hp_correlation_id = p_correlation_id p, hp_price_entry = p_price_entry p,
      hp_price_peak = p_price_peak p, hp_cost_basis = p_cost_basis p, hp_token_units = p_token_units p,
      hp_opened_at = (if iso_ok (p_opened_ts p) then Some (p_opened_ts p) else None), hp_last_mtm = p_last_mtm p,
      hp_unrealised_pnl = p_last_mtm p - p_cost_basis p, hp_mtm_frozen = p_mtm_frozen p\<rparr>)"

definition held_positions :: "adapter_config \<Rightarrow> call \<Rightarrow> string option \<Rightarrow> (adapter, held_position list) eff" where
  "held_positions cf cl mint = bind (fold_state cf cl) (\<lambda>state. ret (map held_position_of
     (List.filter (\<lambda>(m, p). p_token_units p > 0 \<and> (case mint of None \<Rightarrow> True | Some x \<Rightarrow> m = x)) (l_positions state))))"

section \<open>Quotes and previews\<close>

record quote =
  qt_id :: string
  qt_in_amount :: int
  qt_out_amount :: int
  qt_threshold :: int
  qt_impact :: dec
  qt_slot :: "int option"
  qt_expires :: rat

definition dec_ratio :: "int \<Rightarrow> int \<Rightarrow> dec result" where
  \<comment> \<open>\<open>Decimal(a) / Decimal(b)\<close>\<close>
  "dec_ratio a b = of_option (ArithmeticError ''DivisionByZero'') (dec_div (dec_of_int a) (dec_of_int b))"

definition threshold_of :: "int \<Rightarrow> int \<Rightarrow> int" where
  "threshold_of out bps = out * (10000 - bps) div 10000"

definition quote_buy :: "adapter_config \<Rightarrow> outside \<Rightarrow> string \<Rightarrow> int \<Rightarrow> int \<Rightarrow> (adapter, quote) eff" where
  "quote_buy cf w mint amount bps = bind (read_curve cf w 0 mint) (\<lambda>c. case c of
       None \<Rightarrow> raise (OrderRejectedError ''no_reserves'' (''mint='' @ mint) ''ACCEPTED'' 0)
     | Some curve \<Rightarrow> bind (lift (buy_out (cs_s curve) (cs_t curve) amount)) (\<lambda>out.
         bind (pa_ulid (ou_call w 1)) (\<lambda>u. bind (lift (impact_buy (cs_s curve) amount)) (\<lambda>impact.
         ret \<lparr>qt_id = u, qt_in_amount = amount, qt_out_amount = out, qt_threshold = threshold_of out bps, qt_impact = impact,
           qt_slot = cs_slot curve, qt_expires = fl (cl_now (ou_call w 1) + 60)\<rparr>))))"

record simulation =
  si_would_fill :: bool
  si_fill_kind :: string
  si_price :: dec
  si_out :: int
  si_impact :: dec
  si_venue_fee :: int
  si_network_cost :: int
  si_liquidity_ratio :: dec
  si_reason :: "string option"

definition sim_reject :: "adapter_config \<Rightarrow> string \<Rightarrow> int \<Rightarrow> int \<Rightarrow> simulation result" where
  "sim_reject cf reason reserve size0 =
     rbind (if size0 \<noteq> 0 then dec_ratio reserve size0 else Ok (DFin False 0 0)) (\<lambda>ratio.
     Ok \<lparr>si_would_fill = False, si_fill_kind = ''rejected'', si_price = DFin False 0 0, si_out = 0, si_impact = DFin False 0 0,
       si_venue_fee = 0, si_network_cost = network_cost (ac_fees cf), si_liquidity_ratio = ratio, si_reason = Some reason\<rparr>)"

definition simulate_buy :: "adapter_config \<Rightarrow> curve_snapshot \<Rightarrow> int \<Rightarrow> simulation result" where
  "simulate_buy cf curve size0 =
     (if cs_s curve < floor_of cf size0 then sim_reject cf ''below_liquidity_floor'' (cs_s curve) size0
      else rbind (fill_cap cf (cs_s curve)) (\<lambda>cap. let filled = min size0 cap; venue = venue_fee (ac_fees cf) filled in
        rbind (buy_out (cs_s curve) (cs_t curve) (filled - venue)) (\<lambda>out.
        rbind (spot (cs_s curve) (cs_t curve)) (\<lambda>price. rbind (impact_buy (cs_s curve) filled) (\<lambda>impact.
        rbind (dec_ratio (cs_s curve) size0) (\<lambda>ratio.
        Ok \<lparr>si_would_fill = True, si_fill_kind = (if filled = size0 then ''full'' else ''partial''), si_price = price, si_out = out,
          si_impact = impact, si_venue_fee = venue, si_network_cost = network_cost (ac_fees cf), si_liquidity_ratio = ratio,
          si_reason = None\<rparr>))))))"

definition simulate_sell :: "adapter_config \<Rightarrow> curve_snapshot \<Rightarrow> int \<Rightarrow> simulation result" where
  "simulate_sell cf curve units =
     (if units \<le> 0 \<or> cs_t curve < floor_of cf units then sim_reject cf ''below_liquidity_floor'' (cs_t curve) units
      else rbind (fill_cap cf (cs_t curve)) (\<lambda>cap. let filled = min units cap in
        rbind (sell_out (cs_s curve) (cs_t curve) filled) (\<lambda>gross. let venue = venue_fee (ac_fees cf) gross in
        rbind (spot (cs_s curve) (cs_t curve)) (\<lambda>price. rbind (impact_sell (cs_t curve) filled) (\<lambda>impact.
        rbind (dec_ratio (cs_t curve) units) (\<lambda>ratio.
        Ok \<lparr>si_would_fill = True, si_fill_kind = (if filled = units then ''full'' else ''partial''), si_price = price,
          si_out = gross - venue, si_impact = impact, si_venue_fee = venue, si_network_cost = network_cost (ac_fees cf),
          si_liquidity_ratio = ratio, si_reason = None\<rparr>))))))"

definition simulate :: "adapter_config \<Rightarrow> outside \<Rightarrow> string \<Rightarrow> side \<Rightarrow> int option \<Rightarrow> int option \<Rightarrow> (adapter, simulation) eff" where
  "simulate cf w mint sd size_lamports token_units = bind (read_curve cf w 0 mint) (\<lambda>c. lift (case c of
       None \<Rightarrow> sim_reject cf ''no_reserves'' 0 0
     | Some curve \<Rightarrow> if sd = BUY then simulate_buy cf curve (or_default 0 size_lamports)
         else simulate_sell cf curve (sell_preview_units size_lamports token_units curve)))"

end
