(* ===== verification/AdapterBatch.thy ===== *)
theory AdapterBatch
  imports Adapter
begin

text \<open>
  The rows an order writes before it is confirmed (\<open>execution/paper_adapter/batch.py\<close>,
  \<open>batch_stages.py\<close>), the recorded refusal and the outcome of a repeated decision. \<open>await self._reject\<close>
  does not suspend: it appends and returns the error its caller raises.
\<close>

section \<open>Refusals\<close>

record rejection =
  rj_reason :: string
  rj_detail :: string
  rj_stage :: string
  rj_order_id :: "string option"
  rj_quote_out :: int
  rj_threshold :: int
  rj_confirm_out :: int
  rj_fees :: int

definition accepted_refusal :: "string \<Rightarrow> string \<Rightarrow> rejection" where
  "accepted_refusal reason detail = \<lparr>rj_reason = reason, rj_detail = detail, rj_stage = ''ACCEPTED'', rj_order_id = None,
     rj_quote_out = 0, rj_threshold = 0, rj_confirm_out = 0, rj_fees = 0\<rparr>"

definition confirming_refusal :: "string \<Rightarrow> string \<Rightarrow> string \<Rightarrow> rejection" where
  "confirming_refusal order_id reason detail = \<lparr>rj_reason = reason, rj_detail = detail, rj_stage = ''CONFIRMING'',
     rj_order_id = Some order_id, rj_quote_out = 0, rj_threshold = 0, rj_confirm_out = 0, rj_fees = 0\<rparr>"

definition rejection_error :: "rejection \<Rightarrow> err" where
  "rejection_error j = OrderRejectedError (rj_reason j) (rj_detail j) (rj_stage j) (rj_fees j)"

definition outcome_error :: "string \<Rightarrow> string \<Rightarrow> string \<Rightarrow> int \<Rightarrow> err" where
  "outcome_error reason detail stage fees = (if reason = ''confirmation_timeout''
     then OrderUnknownError reason detail stage fees else OrderRejectedError reason detail stage fees)"

definition fees_of_row :: "(string, json) dict \<Rightarrow> int \<Rightarrow> int result" where
  \<comment> \<open>\<open>int(payload.get("fees_lamports", d))\<close>, or \<open>d\<close> where that raises \<open>TypeError\<close> or \<open>ValueError\<close>\<close>
  "fees_of_row kvs d = (case row_int kvs ''fees_lamports'' d of
       Inl (ValueError m) \<Rightarrow> Ok d | Inl (TypeError m) \<Rightarrow> Ok d | r \<Rightarrow> r)"

definition rejection_from_row :: "event \<Rightarrow> rejection \<Rightarrow> err result" where
  "rejection_from_row e j = (case e_payload e of
       JObj kvs \<Rightarrow> rbind (row_str kvs ''reason'' (rj_reason j)) (\<lambda>reason.
         rbind (row_str kvs ''detail'' (rj_detail j)) (\<lambda>detail.
         rbind (row_str kvs ''stage'' (rj_stage j)) (\<lambda>stage.
         rbind (fees_of_row kvs (rj_fees j)) (\<lambda>fees. Ok (outcome_error reason detail stage fees)))))
     | _ \<Rightarrow> Ok (rejection_error j))"

definition reject_key :: "order_request \<Rightarrow> string \<Rightarrow> rejection \<Rightarrow> string" where
  "reject_key r decision_id j = ''reject|'' @ o_ticket_id r @ ''|'' @ side_value (o_side r) @ ''|'' @ decision_id @ ''|''
     @ rj_stage j @ ''|'' @ rj_reason j"

definition reject_entry :: "order_request \<Rightarrow> string \<Rightarrow> rejection \<Rightarrow> string \<Rightarrow> string \<Rightarrow> string \<Rightarrow> entry" where
  "reject_entry r decision_id j ts source cid =
     \<lparr>x_ts = ts, x_source = source, x_cid = cid, x_key = reject_key r decision_id j, x_type = ''OrderRejected'',
      x_payload = [(''source'', PStr source),
        (''order_id'', PStr (case rj_order_id j of Some i \<Rightarrow> if i = [] then ''unplaced-'' @ decision_id else i
           | None \<Rightarrow> ''unplaced-'' @ decision_id)),
        (''decision_id'', PStr decision_id), (''reason'', PStr (rj_reason j)),
        (''detail'', PStr (rj_detail j @ '' ticket='' @ o_ticket_id r @ '' mint='' @ o_mint r)), (''stage'', PStr (rj_stage j)),
        (''fees_lamports'', PInt (rj_fees j)), (''quote_out'', PInt (rj_quote_out j)),
        (''other_amount_threshold'', PInt (rj_threshold j)), (''confirm_out'', PInt (rj_confirm_out j))]\<rparr>"

definition reject :: "(string \<Rightarrow> string) \<Rightarrow> call \<Rightarrow> order_request \<Rightarrow> string \<Rightarrow> rejection \<Rightarrow> string \<Rightarrow> string \<Rightarrow> (adapter, err) eff" where
  "reject H cl r decision_id j source cid =
     catching is_integrity (\<lambda>e. bind (stored (reject_key r decision_id j)) (\<lambda>row. case row of
         None \<Rightarrow> raise e
       | Some ev \<Rightarrow> lift (rejection_from_row ev j)))
     (bind (lift (now_ts cl)) (\<lambda>ts. bind (pa_append H (reject_entry r decision_id j ts source cid)) (\<lambda>_.
       ret (rejection_error j))))"

definition refuse :: "(string \<Rightarrow> string) \<Rightarrow> call \<Rightarrow> order_request \<Rightarrow> string \<Rightarrow> rejection \<Rightarrow> string \<Rightarrow> string \<Rightarrow> (adapter, 'a) eff" where
  \<comment> \<open>\<open>raise await self._reject(...)\<close>\<close>
  "refuse H cl r decision_id j source cid = bind (reject H cl r decision_id j source cid) (\<lambda>e. raise e)"

section \<open>Repeated decisions\<close>

datatype repeat = Repeat_fill fill | Repeat_error err

definition placed_key :: "(string \<Rightarrow> string) \<Rightarrow> order_request \<Rightarrow> string result" where
  "placed_key H r = exec_place_key H (o_ticket_id r) (side_value (o_side r)) (o_decision_id r)"

definition price_field :: "(string, json) dict \<Rightarrow> string \<Rightarrow> string \<Rightarrow> dec result" where
  \<comment> \<open>\<open>Decimal(str(body.get(k, d)))\<close>\<close>
  "price_field kvs k d = rbind (row_str kvs k d) (\<lambda>s. of_option (ArithmeticError ''InvalidOperation'') (dec_of_str s))"

definition fill_of_row :: "string \<Rightarrow> event \<Rightarrow> (string, json) dict \<Rightarrow> fill result" where
  "fill_of_row order_id e kvs =
     rbind (row_str kvs ''decision_id'' []) (\<lambda>decision.
     rbind (price_field kvs ''filled_fraction'' ''1'') (\<lambda>fraction.
     rbind (of_option (ArithmeticError ''InvalidOperation'') (dec_less fraction (dec_of_int 1))) (\<lambda>less.
     rbind (row_str kvs ''venue_tx_ref'' []) (\<lambda>tx.
     rbind (row_int kvs ''filled_lamports'' 0) (\<lambda>lamports.
     rbind (row_int kvs ''filled_units'' 0) (\<lambda>units.
     rbind (price_field kvs ''price_avg'' ''0'') (\<lambda>price.
     rbind (row_int kvs ''realised_slippage_bps'' 0) (\<lambda>slipped.
     rbind (row_int kvs ''venue_fee_lamports'' 0) (\<lambda>venue.
     rbind (row_int kvs ''network_cost_lamports'' 0) (\<lambda>network.
     rbind (row_str kvs ''route'' ''curve'') (\<lambda>route.
     validate_fill \<lparr>fi_order_id = order_id, fi_decision_id = decision, fi_status = (if less then PARTIAL else FILLED),
       fi_venue_tx_ref = tx, fi_filled_lamports = lamports, fi_filled_units = units, fi_filled_fraction = fraction,
       fi_price_avg = price, fi_slippage_bps = slipped, fi_venue_fee = venue, fi_network_cost = network,
       fi_route = route, fi_seq = e_seq e\<rparr>)))))))))))"

definition outcome_of_row :: "string \<Rightarrow> event \<Rightarrow> repeat option result" where
  \<comment> \<open>the outcome this row records for the order, if it records one\<close>
  "outcome_of_row order_id e = (if e_type e \<notin> {''FillRecorded'', ''OrderRejected''} then Ok None else case e_payload e of
       JObj kvs \<Rightarrow> rbind (row_str kvs ''order_id'' []) (\<lambda>i.
         if i \<noteq> order_id then Ok None
         else if e_type e = ''FillRecorded'' then rbind (fill_of_row order_id e kvs) (\<lambda>f. Ok (Some (Repeat_fill f)))
         else rbind (row_str kvs ''reason'' []) (\<lambda>reason. rbind (row_str kvs ''detail'' []) (\<lambda>detail.
           rbind (row_str kvs ''stage'' ''ACCEPTED'') (\<lambda>stage. rbind (row_int kvs ''fees_lamports'' 0) (\<lambda>fees.
           Ok (Some (Repeat_error (outcome_error reason detail stage fees))))))))
     | _ \<Rightarrow> Ok None)"

fun first_outcome :: "string \<Rightarrow> event list \<Rightarrow> repeat option result" where
  "first_outcome order_id [] = Ok None"
| "first_outcome order_id (e # es) = rbind (outcome_of_row order_id e) (\<lambda>x. case x of
     Some y \<Rightarrow> Ok (Some y) | None \<Rightarrow> first_outcome order_id es)"

definition in_flight_error :: err where
  "in_flight_error = OrderRejectedError ''in_flight'' ''prior attempt recorded no outcome'' ''ACCEPTED'' 0"

definition repeat_of :: "(string \<Rightarrow> string) \<Rightarrow> store \<Rightarrow> order_request \<Rightarrow> repeat option result" where
  "repeat_of H st r = rbind (placed_key H r) (\<lambda>key. rbind (by_key st key) (\<lambda>placed. case placed of
       None \<Rightarrow> Ok None
     | Some p \<Rightarrow> (case e_payload p of
         JObj kvs \<Rightarrow> rbind (row_str kvs ''order_id'' []) (\<lambda>order_id.
           rbind (read st 0 [] None None None) (\<lambda>es. rbind (first_outcome order_id es) (\<lambda>x.
           Ok (Some (case x of Some y \<Rightarrow> y | None \<Rightarrow> Repeat_error in_flight_error)))))
       | _ \<Rightarrow> Ok None)))"

definition repeat_outcome :: "(string \<Rightarrow> string) \<Rightarrow> order_request \<Rightarrow> (adapter, repeat option) eff" where
  "repeat_outcome H r = bind get_store (\<lambda>st. lift (repeat_of H st r))"

section \<open>The ACCEPTED batch\<close>

definition quote_json_for :: "order_request \<Rightarrow> string \<Rightarrow> int \<Rightarrow> int \<Rightarrow> dec \<Rightarrow> string result" where
  "quote_json_for r quote_id out0 threshold impact = canonical_json
     [(''in_amount'', PInt (or_default 0 (o_size_lamports r))), (''out_amount'', PInt out0),
      (''other_amount_threshold'', PInt threshold), (''price_impact_pct'', PDec impact), (''source'', PStr ''curve''),
      (''quote_id'', PStr quote_id), (''jupiter_quote_id'', case o_quote_id r of None \<Rightarrow> PNone | Some q \<Rightarrow> PStr q)]"

definition risk_json_for :: "decision \<Rightarrow> string result" where
  "risk_json_for d = canonical_json [(''reason'', PStr (d_reason d)), (''order_hash'', PStr (d_order_hash d)),
     (''capped'', PBool (d_capped d)), (''caps'', PDict (map (\<lambda>(k, v). (k, PInt v)) (d_caps d)))]"

definition pa_check :: "(string \<Rightarrow> string) \<Rightarrow> adapter_config \<Rightarrow> call \<Rightarrow> order_request \<Rightarrow> string option \<Rightarrow> string option
    \<Rightarrow> string option \<Rightarrow> string \<Rightarrow> string \<Rightarrow> stage \<Rightarrow> (adapter, decision) eff" where
  "pa_check H cf cl r seat exit_reason creator source cid stage =
     on_engine (check H (ac_engine cf) cl r seat exit_reason creator source cid stage)"

definition accepted_decision :: "(string \<Rightarrow> string) \<Rightarrow> adapter_config \<Rightarrow> call \<Rightarrow> order_request \<Rightarrow> string option
    \<Rightarrow> string option \<Rightarrow> string option \<Rightarrow> string \<Rightarrow> string \<Rightarrow> (adapter, decision) eff" where
  "accepted_decision H cf cl r seat exit_reason creator source cid =
     bind (pa_check H cf cl r seat exit_reason creator source cid ACCEPTED) (\<lambda>d. if d_passed d then ret d
       else refuse H cl r (o_decision_id r) (accepted_refusal (d_reason d) ''ACCEPTED re-check refused; no order written'') source cid)"

definition consume_entry :: "approval \<Rightarrow> string \<Rightarrow> string \<Rightarrow> string \<Rightarrow> string \<Rightarrow> entry" where
  "consume_entry a approval_id ts source cid =
     \<lparr>x_ts = ts, x_source = source, x_cid = cid, x_key = ''consume|'' @ approval_id, x_type = ''ApprovalRecorded'',
      x_payload = [(''source'', PStr source), (''id'', PStr (ap_id a)), (''kind'', PStr (kind_value (ap_kind a))),
        (''approved_by'', PStr (ap_approved_by a)), (''at'', PStr (ap_at a)),
        (''ticket_id'', PStr (or_default [] (ap_ticket_id a))), (''mint'', PStr (or_default [] (ap_mint a))),
        (''size_lamports'', PInt (or_default 0 (ap_size_lamports a))), (''token_units'', PInt (or_default 0 (ap_token_units a))),
        (''max_slippage_bps'', PInt (or_default 0 (ap_max_slippage_bps a))),
        (''exit_rule_id'', PStr (or_default [] (ap_exit_rule_id a))), (''raw_message'', PStr (ap_raw_message a)),
        (''consumed'', PBool True)]\<rparr>"

definition consume_rows :: "decision \<Rightarrow> string option \<Rightarrow> string \<Rightarrow> string \<Rightarrow> string \<Rightarrow> string option \<times> entry list" where
  "consume_rows d exit_reason ts source cid = (case (d_approval d, d_approval_id d) of
       (Some a, Some i) \<Rightarrow> if ap_approved_by a = ''risk_engine'' \<and> \<not> reason_in exit_reason RULE_EXIT_REASONS then (None, [])
         else (Some (''consume|'' @ i), [consume_entry a i ts source cid])
     | _ \<Rightarrow> (None, []))"

definition order_placed_entry :: "order_request \<Rightarrow> string \<Rightarrow> string \<Rightarrow> string \<Rightarrow> string \<Rightarrow> string \<Rightarrow> string \<Rightarrow> string \<Rightarrow> string \<Rightarrow> entry" where
  "order_placed_entry r key order_id quote_json approval_json risk_json ts source cid =
     \<lparr>x_ts = ts, x_source = source, x_cid = cid, x_key = key, x_type = ''OrderPlaced'',
      x_payload = [(''source'', PStr source), (''order_id'', PStr order_id), (''decision_id'', PStr (o_decision_id r)),
        (''ticket_id'', PStr (o_ticket_id r)), (''side'', PStr (side_value (o_side r))), (''mint'', PStr (o_mint r)),
        (''slippage_bps'', PInt (o_max_slippage_bps r)),
        (''size_lamports'', PInt (if o_side r = BUY then or_default 0 (o_size_lamports r) else 0)),
        (''token_units'', PInt (if o_side r = SELL then or_default 0 (o_token_units r) else 0)),
        (''quote_json'', PStr quote_json), (''approval_json'', PStr approval_json), (''risk_json'', PStr risk_json)]\<rparr>"

definition order_placed_row :: "(string \<Rightarrow> string) \<Rightarrow> order_request \<Rightarrow> string \<Rightarrow> decision \<Rightarrow> string \<Rightarrow> string \<Rightarrow> string \<Rightarrow> string \<Rightarrow> string \<Rightarrow> entry result" where
  "order_placed_row H r order_id d quote_json risk_json ts source cid =
     rbind (placed_key H r) (\<lambda>key. rbind (canonical_json [(''approval_id'', PStr (or_default [] (d_approval_id d))),
       (''kind'', PStr (case d_approval d of Some a \<Rightarrow> kind_value (ap_kind a) | None \<Rightarrow> []))]) (\<lambda>approval_json.
     Ok (order_placed_entry r key order_id quote_json approval_json risk_json ts source cid)))"

definition lost_approval :: "store \<Rightarrow> string option \<Rightarrow> string \<Rightarrow> bool result" where
  \<comment> \<open>a concurrent order consumed the approval and this decision was not placed\<close>
  "lost_approval st consume_key placed = (case consume_key of None \<Rightarrow> Ok False
     | Some k \<Rightarrow> rbind (by_key st k) (\<lambda>c. if c = None then Ok False else rbind (by_key st placed) (\<lambda>p. Ok (p = None))))"

definition write_order_batch :: "(string \<Rightarrow> string) \<Rightarrow> call \<Rightarrow> order_request \<Rightarrow> entry list \<Rightarrow> string option \<Rightarrow> string option
    \<Rightarrow> string \<Rightarrow> string \<Rightarrow> (adapter, unit) eff" where
  "write_order_batch H cl r rows consume_key approval_id source cid =
     catching is_integrity (\<lambda>e. bind (lift (placed_key H r)) (\<lambda>placed. bind get_store (\<lambda>st.
       bind (lift (lost_approval st consume_key placed)) (\<lambda>lost. if lost
         then refuse H cl r (o_decision_id r) (accepted_refusal ''approval_missing''
           (''approval '' @ (case approval_id of None \<Rightarrow> ''None'' | Some i \<Rightarrow> i) @ '' consumed by a concurrent order'')) source cid
         else raise e))))
     (bind (pa_append_batch H rows) (\<lambda>_. ret ()))"

definition append_order_batch :: "(string \<Rightarrow> string) \<Rightarrow> adapter_config \<Rightarrow> call \<Rightarrow> order_request \<Rightarrow> string \<Rightarrow> string \<Rightarrow> int \<Rightarrow> int \<Rightarrow> dec
    \<Rightarrow> string option \<Rightarrow> string option \<Rightarrow> string option \<Rightarrow> string \<Rightarrow> string \<Rightarrow> (adapter, unit) eff" where
  "append_order_batch H cf cl r order_id quote_id out0 threshold impact seat exit_reason creator source cid =
     bind (lift (quote_json_for r quote_id out0 threshold impact)) (\<lambda>quote_json.
     bind (accepted_decision H cf cl r seat exit_reason creator source cid) (\<lambda>d.
     bind (lift (risk_json_for d)) (\<lambda>risk_json. bind (lift (now_ts cl)) (\<lambda>ts.
     let (consume_key, rows) = consume_rows d exit_reason ts source cid in
     bind (lift (order_placed_row H r order_id d quote_json risk_json ts source cid)) (\<lambda>placed.
     write_order_batch H cl r (rows @ [placed]) consume_key (d_approval_id d) source cid)))))"

section \<open>Submitting: a conflict replays the stored outcome\<close>

definition submit :: "(string \<Rightarrow> string) \<Rightarrow> order_request \<Rightarrow> (adapter, unit) eff \<Rightarrow> (adapter, fill option) eff" where
  \<comment> \<open>the \<open>try\<close> around the batch of a buy and of a sell: the stored fill of a repeat, or None when written\<close>
  "submit H r m = catching is_integrity (\<lambda>e. bind (repeat_outcome H r) (\<lambda>x. case x of
       Some (Repeat_fill f) \<Rightarrow> ret (Some f)
     | Some (Repeat_error e') \<Rightarrow> raise e'
     | None \<Rightarrow> raise in_flight_error))
     (bind m (\<lambda>_. ret None))"

end
