(* ===== verification/AdapterBuy.thy ===== *)
theory AdapterBuy
  imports AdapterBatch
begin

text \<open>
  Confirmation and the buy pipeline (\<open>execution/paper_adapter/confirm.py\<close>, \<open>confirm_stages.py\<close>,
  \<open>buy.py\<close>). The suspensions of one \<open>place\<close> are the first read of the curve (0), the latency sleep (1)
  and the second read (2); \<open>ou_call w n\<close> is the clock and seat after \<open>n\<close> of them. The sleep times out
  when the deadline timer, scheduled first, is due no later than the sleep's.
\<close>

section \<open>Confirmation\<close>

definition rpc_curve_price_allowed :: "string \<Rightarrow> bool" where
  \<comment> \<open>\<open>LAYOUT_STATUS\<close> is \<open>ASSUMED\<close>\<close>
  "rpc_curve_price_allowed curve_source \<longleftrightarrow> curve_source \<noteq> ''rpc''"

definition timed_out :: "rat \<Rightarrow> rat \<Rightarrow> rat \<Rightarrow> bool" where
  "timed_out now limit latency \<longleftrightarrow> fl (now + limit) \<le> fl (now + latency)"

definition confirm_latency :: "(string \<Rightarrow> string) \<Rightarrow> adapter_config \<Rightarrow> outside \<Rightarrow> order_request \<Rightarrow> string \<Rightarrow> nat \<Rightarrow> string \<Rightarrow> string
    \<Rightarrow> (adapter, rat \<times> bool) eff" where
  "confirm_latency H cf w r order_id owner source cid =
     bind (modify (\<lambda>s. s\<lparr>pa_owned := dict_set (pa_owned s) owner order_id\<rparr>)) (\<lambda>_.
     bind (modify (inflight_add order_id)) (\<lambda>_.
     let (latency, dropped) = fst (draw_latency (\<lambda>g. (ou_lognormal w, g)) (\<lambda>g. (ou_uniform w, g)) () (ac_p_drop cf));
         limit = lm_confirm_timeout_s (ac_limits cf) in
     bind (suspend w 1) (\<lambda>_.
     if timed_out (cl_now (ou_call w 1)) limit latency
     then bind (modify (inflight_discard order_id)) (\<lambda>_.
       bind (reject H (ou_call w 2) r (o_decision_id r) (confirming_refusal order_id ''confirmation_timeout''
           (''confirm wait '' @ fixed 3 latency @ ''s exceeded '' @ fixed 3 limit @ ''s'')) source cid) (\<lambda>_.
       raise (OrderUnknownError ''confirmation_timeout'' (''order_id='' @ order_id @ '' outcome UNKNOWN; never retried'') ''CONFIRMING'' 0)))
     else ret (latency, dropped))))"

definition confirm_refuse :: "(string \<Rightarrow> string) \<Rightarrow> call \<Rightarrow> order_request \<Rightarrow> string \<Rightarrow> rejection \<Rightarrow> string \<Rightarrow> string \<Rightarrow> (adapter, 'a) eff" where
  \<comment> \<open>\<open>raise await self._confirm_refuse(...)\<close>\<close>
  "confirm_refuse H cl r order_id j source cid = bind (modify (inflight_discard order_id)) (\<lambda>_.
     refuse H cl r (o_decision_id r) j source cid)"

definition confirm_cancel_check :: "(string \<Rightarrow> string) \<Rightarrow> call \<Rightarrow> order_request \<Rightarrow> string \<Rightarrow> string \<Rightarrow> string \<Rightarrow> (adapter, unit) eff" where
  "confirm_cancel_check H cl r order_id source cid = bind get (\<lambda>s.
     if order_id \<notin> set (pa_cancelled s) then ret ()
     else bind (modify (\<lambda>s. (inflight_discard order_id s)\<lparr>pa_cancelled := removeAll order_id (pa_cancelled s)\<rparr>)) (\<lambda>_.
       refuse H cl r (o_decision_id r) (confirming_refusal order_id ''cancelled'' (''order_id='' @ order_id)) source cid))"

definition confirm_curve :: "(string \<Rightarrow> string) \<Rightarrow> adapter_config \<Rightarrow> outside \<Rightarrow> order_request \<Rightarrow> string \<Rightarrow> bool \<Rightarrow> string \<Rightarrow> string
    \<Rightarrow> (adapter, curve_snapshot) eff" where
  "confirm_curve H cf w r order_id forbid_complete source cid = bind (read_curve cf w 2 (o_mint r)) (\<lambda>c. case c of
       None \<Rightarrow> confirm_refuse H (ou_call w 3) r order_id (confirming_refusal order_id ''no_reserves'' (''mint='' @ o_mint r)) source cid
     | Some curve \<Rightarrow>
         if o_side r = BUY \<and> \<not> rpc_curve_price_allowed (cs_source curve)
         then confirm_refuse H (ou_call w 3) r order_id (confirming_refusal order_id ''data_unavailable''
           (''curve layout '' @ cs_source curve @ '' reads are ASSUMED'')) source cid
         else if forbid_complete \<and> cs_complete curve
         then confirm_refuse H (ou_call w 3) r order_id (confirming_refusal order_id ''post_graduation_no_reserves''
           (''mint='' @ o_mint r @ '' curve complete at CONFIRMING'')) source cid
         else ret curve)"

definition confirm_recheck :: "(string \<Rightarrow> string) \<Rightarrow> adapter_config \<Rightarrow> call \<Rightarrow> order_request \<Rightarrow> string \<Rightarrow> bool \<Rightarrow> string option \<Rightarrow> string option
    \<Rightarrow> string option \<Rightarrow> string \<Rightarrow> string \<Rightarrow> (adapter, decision) eff" where
  "confirm_recheck H cf cl r order_id dropped seat exit_reason creator source cid =
     bind (pa_check H cf cl r seat exit_reason creator source cid CONFIRMING) (\<lambda>d.
     if \<not> d_passed d
     then confirm_refuse H cl r order_id (confirming_refusal order_id (d_reason d) ''CONFIRMING re-check'') source cid
     else if dropped
     then confirm_refuse H cl r order_id (confirming_refusal order_id ''tx_dropped'' ''seeded drop; no retry'') source cid
     else ret d)"

definition await_confirmation :: "(string \<Rightarrow> string) \<Rightarrow> adapter_config \<Rightarrow> outside \<Rightarrow> order_request \<Rightarrow> string \<Rightarrow> bool \<Rightarrow> string option \<Rightarrow> string option
    \<Rightarrow> string option \<Rightarrow> nat \<Rightarrow> string \<Rightarrow> string \<Rightarrow> (adapter, curve_snapshot \<times> rat \<times> int option) eff" where
  "await_confirmation H cf w r order_id forbid_complete seat exit_reason creator owner source cid =
     bind (confirm_latency H cf w r order_id owner source cid) (\<lambda>(latency, dropped).
     bind (confirm_cancel_check H (ou_call w 2) r order_id source cid) (\<lambda>_.
     bind (confirm_curve H cf w r order_id forbid_complete source cid) (\<lambda>curve1.
     bind (confirm_recheck H cf (ou_call w 3) r order_id dropped seat exit_reason creator source cid) (\<lambda>d.
       ret (curve1, latency, d_size_lamports d)))))"

section \<open>The priced buy\<close>

record buy_quote =
  bq_size :: int
  bq_filled :: int
  bq_fraction :: dec
  bq_venue_fee :: int
  bq_x_net :: int
  bq_slippage_bps :: int
  bq_out0 :: int
  bq_threshold :: int

record buy_confirmed =
  bc_curve1 :: curve_snapshot
  bc_latency :: rat
  bc_filled :: int
  bc_fraction :: dec
  bc_venue_fee :: int
  bc_x_net :: int
  bc_out0 :: int
  bc_threshold :: int
  bc_out1 :: int

definition order_risk_decision :: "(string \<Rightarrow> string) \<Rightarrow> adapter_config \<Rightarrow> call \<Rightarrow> order_request \<Rightarrow> string option \<Rightarrow> string option \<Rightarrow> string option
    \<Rightarrow> string \<Rightarrow> string \<Rightarrow> (adapter, decision) eff" where
  "order_risk_decision H cf cl r seat exit_reason creator source cid =
     bind (lift (order_hash_for H r)) (\<lambda>order_hash.
     bind (pa_check H cf cl r seat exit_reason creator source cid ACCEPTED) (\<lambda>d.
     if d_order_hash d \<noteq> order_hash then raise (RuntimeError ''risk decision is not bound to this order'')
     else if \<not> d_passed d then refuse H cl r (d_decision_id d) (accepted_refusal (d_reason d) ''risk refused'') source cid
     else ret d))"

definition order_curve :: "(string \<Rightarrow> string) \<Rightarrow> adapter_config \<Rightarrow> outside \<Rightarrow> order_request \<Rightarrow> string \<Rightarrow> string \<Rightarrow> (adapter, curve_snapshot) eff" where
  "order_curve H cf w r source cid = bind (read_curve cf w 0 (o_mint r)) (\<lambda>c. case c of
       None \<Rightarrow> refuse H (ou_call w 1) r (o_decision_id r) (accepted_refusal ''no_reserves'' (''mint='' @ o_mint r)) source cid
     | Some curve \<Rightarrow>
         if o_side r = BUY \<and> \<not> rpc_curve_price_allowed (cs_source curve)
         then refuse H (ou_call w 1) r (o_decision_id r) (accepted_refusal ''data_unavailable''
           (''curve layout '' @ cs_source curve @ '' reads are ASSUMED'')) source cid
         else if cs_complete curve
         then refuse H (ou_call w 1) r (o_decision_id r) (accepted_refusal ''post_graduation_no_reserves''
           (''mint='' @ o_mint r @ '' curve complete'')) source cid
         else ret curve)"

definition price_buy :: "adapter_config \<Rightarrow> curve_snapshot \<Rightarrow> int \<Rightarrow> int \<Rightarrow> int \<Rightarrow> buy_quote result" where
  \<comment> \<open>the fill of \<open>filled\<close> out of \<open>size0\<close> lamports at the decision reserves\<close>
  "price_buy cf curve0 size0 bps filled =
     rbind (dec_ratio filled size0) (\<lambda>fraction. let venue = venue_fee (ac_fees cf) filled; x_net = filled - venue in
     rbind (buy_out (cs_s curve0) (cs_t curve0) x_net) (\<lambda>out0.
     Ok \<lparr>bq_size = size0, bq_filled = filled, bq_fraction = fraction, bq_venue_fee = venue, bq_x_net = x_net,
       bq_slippage_bps = bps, bq_out0 = out0, bq_threshold = threshold_of out0 bps\<rparr>))"

definition buy_sizing :: "(string \<Rightarrow> string) \<Rightarrow> adapter_config \<Rightarrow> call \<Rightarrow> order_request \<Rightarrow> int \<Rightarrow> curve_snapshot \<Rightarrow> string \<Rightarrow> string \<Rightarrow> (adapter, buy_quote) eff" where
  "buy_sizing H cf cl r size0 curve0 source cid =
     (if cs_s curve0 < floor_of cf size0
      then refuse H cl r (o_decision_id r) (accepted_refusal ''below_liquidity_floor''
        (''S0='' @ int_str (cs_s curve0) @ '' floor='' @ int_str (floor_of cf size0))) source cid
      else bind (lift (fill_cap cf (cs_s curve0))) (\<lambda>cap.
        lift (price_buy cf curve0 size0 (slippage_bps cf r) (min size0 cap))))"

definition buy_append_batch :: "(string \<Rightarrow> string) \<Rightarrow> adapter_config \<Rightarrow> call \<Rightarrow> order_request \<Rightarrow> buy_quote \<Rightarrow> curve_snapshot \<Rightarrow> string option \<Rightarrow> string option
    \<Rightarrow> string option \<Rightarrow> string \<Rightarrow> string \<Rightarrow> (adapter, fill + string) eff" where
  "buy_append_batch H cf cl r q curve0 seat exit_reason creator source cid =
     bind (pa_ulid cl) (\<lambda>order_id. bind (pa_ulid cl) (\<lambda>quote_id.
     bind (submit H r (bind (lift (impact_buy (cs_s curve0) (bq_filled q))) (\<lambda>impact.
         append_order_batch H cf cl r order_id quote_id (bq_out0 q) (bq_threshold q) impact seat exit_reason creator source cid))) (\<lambda>x.
     ret (case x of Some f \<Rightarrow> Inl f | None \<Rightarrow> Inr order_id))))"

definition buy_recap :: "adapter_config \<Rightarrow> buy_quote \<Rightarrow> curve_snapshot \<Rightarrow> int option \<Rightarrow> buy_quote result" where
  "buy_recap cf q curve0 cap_now = (case cap_now of None \<Rightarrow> Ok q
     | Some cap \<Rightarrow> if cap \<ge> bq_filled q then Ok q
         else let venue = venue_fee (ac_fees cf) cap; x_net = cap - venue in
           rbind (buy_out (cs_s curve0) (cs_t curve0) x_net) (\<lambda>out0.
           rbind (dec_ratio cap (bq_size q)) (\<lambda>fraction.
           Ok (q\<lparr>bq_filled := cap, bq_fraction := fraction, bq_venue_fee := venue, bq_x_net := x_net, bq_out0 := out0,
             bq_threshold := threshold_of out0 (bq_slippage_bps q)\<rparr>))))"

definition buy_guard_slippage :: "(string \<Rightarrow> string) \<Rightarrow> adapter_config \<Rightarrow> call \<Rightarrow> order_request \<Rightarrow> string \<Rightarrow> buy_quote \<Rightarrow> int \<Rightarrow> string \<Rightarrow> string \<Rightarrow> (adapter, unit) eff" where
  "buy_guard_slippage H cf cl r order_id q out1 source cid =
     (if out1 \<ge> bq_threshold q then ret ()
      else confirm_refuse H cl r order_id ((confirming_refusal order_id ''slippage_exceeded''
          (''confirm '' @ int_str out1 @ '' < threshold '' @ int_str (bq_threshold q)))
          \<lparr>rj_quote_out := bq_out0 q, rj_threshold := bq_threshold q, rj_confirm_out := out1, rj_fees := network_cost (ac_fees cf)\<rparr>)
        source cid)"

definition buy_confirm :: "(string \<Rightarrow> string) \<Rightarrow> adapter_config \<Rightarrow> outside \<Rightarrow> order_request \<Rightarrow> buy_quote \<Rightarrow> curve_snapshot \<Rightarrow> string \<Rightarrow> string option \<Rightarrow> string option
    \<Rightarrow> string option \<Rightarrow> nat \<Rightarrow> string \<Rightarrow> string \<Rightarrow> (adapter, buy_confirmed) eff" where
  "buy_confirm H cf w r q curve0 order_id seat exit_reason creator owner source cid =
     bind (await_confirmation H cf w r order_id True seat exit_reason creator owner source cid) (\<lambda>(curve1, latency, cap_now).
     bind (lift (buy_recap cf q curve0 cap_now)) (\<lambda>p.
     bind (lift (buy_out (cs_s curve1) (cs_t curve1) (bq_x_net p))) (\<lambda>out1.
     bind (buy_guard_slippage H cf (ou_call w 3) r order_id p out1 source cid) (\<lambda>_.
     ret \<lparr>bc_curve1 = curve1, bc_latency = latency, bc_filled = bq_filled p, bc_fraction = bq_fraction p,
       bc_venue_fee = bq_venue_fee p, bc_x_net = bq_x_net p, bc_out0 = bq_out0 p, bc_threshold = bq_threshold p, bc_out1 = out1\<rparr>))))"

section \<open>Settling a buy\<close>

definition buy_fill_entry :: "order_request \<Rightarrow> string \<Rightarrow> string \<Rightarrow> curve_snapshot \<Rightarrow> buy_confirmed \<Rightarrow> dec \<Rightarrow> int \<Rightarrow> int \<Rightarrow> int \<Rightarrow> string \<Rightarrow> string \<Rightarrow> string \<Rightarrow> string \<Rightarrow> entry" where
  "buy_fill_entry r order_id tx curve0 c price network debit slipped latency_text ts source cid =
     \<lparr>x_ts = ts, x_source = source, x_cid = cid, x_key = ''fill|'' @ order_id, x_type = ''FillRecorded'',
      x_payload = [(''source'', PStr source), (''order_id'', PStr order_id), (''decision_id'', PStr (o_decision_id r)),
        (''side'', PStr ''buy''), (''mint'', PStr (o_mint r)), (''filled_lamports'', PInt (bc_filled c)),
        (''filled_units'', PInt (bc_out1 c)), (''filled_fraction'', PStr (dec_str (bc_fraction c))),
        (''price_avg'', PStr (dec_str price)), (''venue_fee_lamports'', PInt (bc_venue_fee c)),
        (''network_cost_lamports'', PInt network), (''cash_delta_lamports'', PInt (- debit)),
        (''latency_s'', PStr latency_text), (''venue_tx_ref'', PStr tx), (''curve_before_s'', PInt (cs_s curve0)),
        (''curve_before_t'', PInt (cs_t curve0)), (''curve_after_s'', PInt (cs_s (bc_curve1 c))),
        (''curve_after_t'', PInt (cs_t (bc_curve1 c))), (''route'', PStr ''curve''), (''realised_slippage_bps'', PInt slipped)]\<rparr>"

definition buy_position_entry :: "order_request \<Rightarrow> string \<Rightarrow> string option \<Rightarrow> buy_confirmed \<Rightarrow> dec \<Rightarrow> int \<Rightarrow> string \<Rightarrow> string \<Rightarrow> string \<Rightarrow> entry" where
  "buy_position_entry r order_id creator c price debit ts source cid =
     \<lparr>x_ts = ts, x_source = source, x_cid = cid, x_key = ''position|'' @ order_id, x_type = ''PositionOpened'',
      x_payload = [(''source'', PStr source), (''mint'', PStr (o_mint r)), (''price_entry'', PStr (dec_str price)),
        (''token_units'', PInt (bc_out1 c)), (''cost_basis_lamports'', PInt debit), (''opened_ts_utc'', PStr ts),
        (''symbol'', PStr []), (''creator'', PStr (or_default [] creator)), (''ticket_id'', PStr (o_ticket_id r)),
        (''score'', PStr ''0'')]\<rparr>"

definition buy_slippage_bps :: "buy_confirmed \<Rightarrow> int" where
  "buy_slippage_bps c = (if bc_out1 c < bc_out0 c \<and> bc_out0 c \<noteq> 0 then (bc_out0 c - bc_out1 c) * 10000 div bc_out0 c else 0)"

definition buy_rows :: "adapter_config \<Rightarrow> call \<Rightarrow> order_request \<Rightarrow> string \<Rightarrow> string \<Rightarrow> string option \<Rightarrow> curve_snapshot \<Rightarrow> buy_confirmed \<Rightarrow> bool \<Rightarrow> string \<Rightarrow> string
    \<Rightarrow> (dec \<times> entry list) result" where
  \<comment> \<open>the average price and the rows of \<open>_buy_fill_rows\<close>\<close>
  "buy_rows cf cl r order_id tx creator curve0 c had_position source cid =
     (let network = network_cost (ac_fees cf); debit = bc_filled c + network in
      rbind (dec_ratio (bc_x_net c) (bc_out1 c)) (\<lambda>price. rbind (now_ts cl) (\<lambda>ts.
      rbind (decimal_of_float (bc_latency c)) (\<lambda>latency.
      Ok (price, buy_fill_entry r order_id tx curve0 c price network debit (buy_slippage_bps c) (dec_str latency) ts source cid
        # (if had_position then [] else [buy_position_entry r order_id creator c price debit ts source cid]))))))"

definition note_reading :: "string \<Rightarrow> rat \<Rightarrow> int \<times> int \<Rightarrow> adapter \<Rightarrow> adapter" where
  "note_reading mint ts reserves s = s\<lparr>pa_last_price_ts := dict_set (pa_last_price_ts s) mint ts,
     pa_last_reserves := dict_set (pa_last_reserves s) mint reserves\<rparr>"

definition seq_of_first :: "ledger_row list \<Rightarrow> int" where
  "seq_of_first rows = (case rows of r # _ \<Rightarrow> r_seq r | [] \<Rightarrow> 0)"

definition buy_settle :: "(string \<Rightarrow> string) \<Rightarrow> adapter_config \<Rightarrow> call \<Rightarrow> order_request \<Rightarrow> buy_quote \<Rightarrow> buy_confirmed \<Rightarrow> curve_snapshot \<Rightarrow> string option \<Rightarrow> string
    \<Rightarrow> string \<Rightarrow> string \<Rightarrow> (adapter, fill) eff" where
  "buy_settle H cf cl r q c curve0 creator order_id source cid =
     bind (lift (dec_ratio (bc_x_net c) (bc_out1 c))) (\<lambda>price.
     bind (pa_ulid cl) (\<lambda>u. let tx = ''dry_run:'' @ u in
     bind (fold_state cf cl) (\<lambda>state.
     bind (lift (buy_rows cf cl r order_id tx creator curve0 c (holds state (o_mint r)) source cid)) (\<lambda>(_, rows).
     bind (pa_append_batch H rows) (\<lambda>done_rows.
     bind (modify (inflight_discard order_id)) (\<lambda>_.
     bind (modify (note_reading (o_mint r) (cl_now cl) (cs_s (bc_curve1 c), cs_t (bc_curve1 c)))) (\<lambda>_.
     lift (validate_fill \<lparr>fi_order_id = order_id, fi_decision_id = o_decision_id r,
       fi_status = (if bc_filled c = bq_size q then FILLED else PARTIAL), fi_venue_tx_ref = tx, fi_filled_lamports = bc_filled c,
       fi_filled_units = bc_out1 c, fi_filled_fraction = bc_fraction c, fi_price_avg = price,
       fi_slippage_bps = buy_slippage_bps c, fi_venue_fee = bc_venue_fee c, fi_network_cost = network_cost (ac_fees cf),
       fi_route = ''curve'', fi_seq = seq_of_first done_rows\<rparr>))))))))"

definition place_buy :: "(string \<Rightarrow> string) \<Rightarrow> adapter_config \<Rightarrow> outside \<Rightarrow> order_request \<Rightarrow> int \<Rightarrow> curve_snapshot \<Rightarrow> string option \<Rightarrow> string option
    \<Rightarrow> string option \<Rightarrow> nat \<Rightarrow> string \<Rightarrow> string \<Rightarrow> (adapter, fill) eff" where
  "place_buy H cf w r decision_size curve0 seat exit_reason creator owner source cid =
     bind (buy_sizing H cf (ou_call w 1) r decision_size curve0 source cid) (\<lambda>q.
     bind (buy_append_batch H cf (ou_call w 1) r q curve0 seat exit_reason creator source cid) (\<lambda>placed. case placed of
       Inl f \<Rightarrow> ret f
     | Inr order_id \<Rightarrow> bind (buy_confirm H cf w r q curve0 order_id seat exit_reason creator owner source cid) (\<lambda>c.
         buy_settle H cf (ou_call w 3) r q c curve0 creator order_id source cid)))"

end
