(* ===== verification/AdapterSell.thy ===== *)
theory AdapterSell
  imports AdapterBuy
begin

text \<open>
  The sell pipeline (\<open>execution/paper_adapter/sell.py\<close>, \<open>sell_stages.py\<close>) and \<open>place\<close>, which runs
  one order and settles its breaker probe and its barrier entry on every outcome (\<open>buy.py\<close>).
  Cancelling the task that runs \<open>place\<close> is not modelled.
\<close>

section \<open>Plan and submission\<close>

record sell_plan =
  sp_units :: int
  sp_filled_units :: int
  sp_fraction :: dec
  sp_out0 :: int
  sp_threshold :: int
  sp_impact :: dec
  sp_order_id :: string
  sp_quote_id :: string

record sell_figures =
  sf_fraction :: dec
  sf_gross1 :: int
  sf_proceeds :: int
  sf_network_cost :: int
  sf_venue_fee :: int
  sf_price_avg :: dec
  sf_slipped :: int
  sf_tx :: string

definition sell_targets :: "(string \<Rightarrow> string) \<Rightarrow> adapter_config \<Rightarrow> call \<Rightarrow> order_request \<Rightarrow> curve_snapshot \<Rightarrow> string \<Rightarrow> string \<Rightarrow> (adapter, int \<times> int) eff" where
  "sell_targets H cf cl r curve0 source cid = (let units = sell_units r curve0 in
     bind (open_units cf cl (o_mint r)) (\<lambda>held.
     if held \<le> 0
     then refuse H cl r (o_decision_id r) (accepted_refusal ''no_position''
       (''mint='' @ o_mint r @ '' sells need an open position'')) source cid
     else if units \<le> 0
     then refuse H cl r (o_decision_id r) (accepted_refusal ''below_liquidity_floor''
       (''T0='' @ int_str (cs_t curve0) @ '' derived_units=0'')) source cid
     else if cs_t curve0 < floor_of cf units
     then refuse H cl r (o_decision_id r) (accepted_refusal ''below_liquidity_floor''
       (''T0='' @ int_str (cs_t curve0) @ '' floor='' @ int_str (floor_of cf units))) source cid
     else bind (lift (fill_cap cf (cs_t curve0))) (\<lambda>cap. ret (units, min (min units cap) held))))"

definition plan_sell :: "adapter_config \<Rightarrow> call \<Rightarrow> order_request \<Rightarrow> curve_snapshot \<Rightarrow> int \<Rightarrow> int \<Rightarrow> (adapter, sell_plan) eff" where
  "plan_sell cf cl r curve0 units filled =
     bind (lift (dec_ratio filled units)) (\<lambda>fraction.
     bind (lift (sell_out (cs_s curve0) (cs_t curve0) filled)) (\<lambda>gross0.
     let out0 = gross0 - venue_fee (ac_fees cf) gross0 in
     bind (pa_ulid cl) (\<lambda>order_id. bind (pa_ulid cl) (\<lambda>quote_id.
     bind (lift (impact_sell (cs_t curve0) filled)) (\<lambda>impact.
     ret \<lparr>sp_units = units, sp_filled_units = filled, sp_fraction = fraction, sp_out0 = out0,
       sp_threshold = threshold_of out0 (slippage_bps cf r), sp_impact = impact, sp_order_id = order_id, sp_quote_id = quote_id\<rparr>)))))"

definition submit_sell :: "(string \<Rightarrow> string) \<Rightarrow> adapter_config \<Rightarrow> call \<Rightarrow> order_request \<Rightarrow> sell_plan \<Rightarrow> string option \<Rightarrow> string option \<Rightarrow> string option
    \<Rightarrow> string \<Rightarrow> string \<Rightarrow> (adapter, fill option) eff" where
  "submit_sell H cf cl r p seat exit_reason creator source cid = submit H r
     (append_order_batch H cf cl r (sp_order_id p) (sp_quote_id p) (sp_out0 p) (sp_threshold p) (sp_impact p) seat exit_reason creator source cid)"

section \<open>Confirming a sell\<close>

definition sell_holding_at_confirming :: "(string \<Rightarrow> string) \<Rightarrow> adapter_config \<Rightarrow> call \<Rightarrow> order_request \<Rightarrow> sell_plan \<Rightarrow> string \<Rightarrow> string \<Rightarrow> (adapter, position option) eff" where
  "sell_holding_at_confirming H cf cl r p source cid = bind (fold_state cf cl) (\<lambda>state.
     let pos = map_of (l_positions state) (o_mint r); held = max 0 (units_held state (o_mint r)) in
     if sp_filled_units p > held
     then confirm_refuse H cl r (sp_order_id p) (confirming_refusal (sp_order_id p) ''no_position''
       (''mint='' @ o_mint r @ '' exit of '' @ int_str (sp_filled_units p) @ '' exceeds holding '' @ int_str held @ '' at CONFIRMING''))
       source cid
     else ret pos)"

definition sell_slippage_at_confirming :: "(string \<Rightarrow> string) \<Rightarrow> adapter_config \<Rightarrow> call \<Rightarrow> order_request \<Rightarrow> sell_plan \<Rightarrow> curve_snapshot \<Rightarrow> string \<Rightarrow> string
    \<Rightarrow> (adapter, int \<times> int) eff" where
  "sell_slippage_at_confirming H cf cl r p curve1 source cid =
     bind (lift (sell_out (cs_s curve1) (cs_t curve1) (sp_filled_units p))) (\<lambda>gross1.
     let out1 = gross1 - venue_fee (ac_fees cf) gross1 in
     if out1 < sp_threshold p
     then confirm_refuse H cl r (sp_order_id p) ((confirming_refusal (sp_order_id p) ''slippage_exceeded''
         (''confirm '' @ int_str out1 @ '' < threshold '' @ int_str (sp_threshold p)))
         \<lparr>rj_quote_out := sp_out0 p, rj_threshold := sp_threshold p, rj_confirm_out := out1, rj_fees := network_cost (ac_fees cf)\<rparr>)
       source cid
     else ret (gross1, out1))"

definition sell_figures_of :: "adapter_config \<Rightarrow> call \<Rightarrow> sell_plan \<Rightarrow> int \<Rightarrow> int \<Rightarrow> (adapter, sell_figures) eff" where
  "sell_figures_of cf cl p gross1 out1 =
     bind (lift (dec_ratio gross1 (sp_filled_units p))) (\<lambda>price. bind (pa_ulid cl) (\<lambda>u.
     ret \<lparr>sf_fraction = sp_fraction p, sf_gross1 = gross1, sf_proceeds = out1 - network_cost (ac_fees cf),
       sf_network_cost = network_cost (ac_fees cf), sf_venue_fee = venue_fee (ac_fees cf) gross1, sf_price_avg = price,
       sf_slipped = (if out1 < sp_out0 p \<and> sp_out0 p \<noteq> 0 then (sp_out0 p - out1) * 10000 div sp_out0 p else 0),
       sf_tx = ''dry_run:'' @ u\<rparr>))"

section \<open>Settling a sell\<close>

definition sell_fill_entry :: "order_request \<Rightarrow> sell_plan \<Rightarrow> curve_snapshot \<Rightarrow> curve_snapshot \<Rightarrow> string \<Rightarrow> sell_figures \<Rightarrow> string \<Rightarrow> string \<Rightarrow> string \<Rightarrow> entry" where
  "sell_fill_entry r p curve0 curve1 latency_text f ts source cid =
     \<lparr>x_ts = ts, x_source = source, x_cid = cid, x_key = ''fill|'' @ sp_order_id p, x_type = ''FillRecorded'',
      x_payload = [(''source'', PStr source), (''order_id'', PStr (sp_order_id p)), (''decision_id'', PStr (o_decision_id r)),
        (''side'', PStr ''sell''), (''mint'', PStr (o_mint r)), (''filled_lamports'', PInt (sf_proceeds f)),
        (''filled_units'', PInt (sp_filled_units p)), (''filled_fraction'', PStr (dec_str (sf_fraction f))),
        (''price_avg'', PStr (dec_str (sf_price_avg f))), (''venue_fee_lamports'', PInt (sf_venue_fee f)),
        (''network_cost_lamports'', PInt (sf_network_cost f)), (''cash_delta_lamports'', PInt (sf_proceeds f)),
        (''latency_s'', PStr latency_text), (''venue_tx_ref'', PStr (sf_tx f)), (''curve_before_s'', PInt (cs_s curve0)),
        (''curve_before_t'', PInt (cs_t curve0)), (''curve_after_s'', PInt (cs_s curve1)), (''curve_after_t'', PInt (cs_t curve1)),
        (''route'', PStr ''curve''), (''realised_slippage_bps'', PInt (sf_slipped f))]\<rparr>"

definition hold_seconds :: "call \<Rightarrow> string \<Rightarrow> int result" where
  \<comment> \<open>seconds since the opening, cut to an integer and floored at zero; zero where the text does not parse\<close>
  "hold_seconds cl opened = (case parse_ts_utc opened of
       Inr t \<Rightarrow> Ok (max 0 \<lfloor>fl (cl_now cl - t)\<rfloor>) | Inl (ValueError m) \<Rightarrow> Ok 0 | Inl e \<Rightarrow> Err e)"

definition pnl_fraction :: "int \<Rightarrow> int \<Rightarrow> dec result" where
  "pnl_fraction realized basis = (if basis \<noteq> 0 then dec_ratio realized basis else Ok (DFin False 0 0))"

definition closed_entry :: "string \<Rightarrow> string \<Rightarrow> string \<Rightarrow> int \<Rightarrow> int \<Rightarrow> string \<Rightarrow> dec \<Rightarrow> int \<Rightarrow> string \<Rightarrow> string \<Rightarrow> string \<Rightarrow> string \<Rightarrow> entry" where
  \<comment> \<open>the \<open>PositionClosed\<close> row of a sell and of a forced close\<close>
  "closed_entry key mint price_exit proceeds realized reason pnl_pct hold_s tx ts source cid =
     \<lparr>x_ts = ts, x_source = source, x_cid = cid, x_key = key, x_type = ''PositionClosed'',
      x_payload = [(''source'', PStr source), (''mint'', PStr mint), (''price_exit'', PStr price_exit),
        (''proceeds_lamports'', PInt proceeds), (''realized_pnl_lamports'', PInt realized), (''reason'', PStr reason),
        (''pnl_pct'', PStr (dec_str pnl_pct)), (''hold_seconds'', PInt hold_s), (''venue_tx_ref'', PStr tx)]\<rparr>"

definition position_closed_entry :: "call \<Rightarrow> order_request \<Rightarrow> sell_plan \<Rightarrow> position \<Rightarrow> sell_figures \<Rightarrow> string option \<Rightarrow> string \<Rightarrow> string \<Rightarrow> entry result" where
  "position_closed_entry cl r p pos f exit_reason source cid =
     (let realized = sf_proceeds f - p_cost_basis pos in
      rbind (pnl_fraction realized (p_cost_basis pos)) (\<lambda>pnl. rbind (hold_seconds cl (p_opened_ts pos)) (\<lambda>hold_s.
      rbind (now_ts cl) (\<lambda>ts.
      Ok (closed_entry (''close|'' @ sp_order_id p) (o_mint r) (dec_str (sf_price_avg f)) (sf_proceeds f) realized
        (case exit_reason of Some (c # cs) \<Rightarrow> c # cs | _ \<Rightarrow> ''manual'') pnl hold_s (sf_tx f) ts source cid)))))"

definition sell_rows :: "call \<Rightarrow> order_request \<Rightarrow> sell_plan \<Rightarrow> curve_snapshot \<Rightarrow> curve_snapshot \<Rightarrow> rat \<Rightarrow> position option \<Rightarrow> sell_figures \<Rightarrow> string option
    \<Rightarrow> string \<Rightarrow> string \<Rightarrow> entry list result" where
  "sell_rows cl r p curve0 curve1 latency pos f exit_reason source cid =
     rbind (now_ts cl) (\<lambda>ts. rbind (decimal_of_float latency) (\<lambda>lat.
     let row = sell_fill_entry r p curve0 curve1 (dec_str lat) f ts source cid in
     case pos of
       Some q \<Rightarrow> if p_token_units q > 0 \<and> sp_filled_units p \<ge> p_token_units q
         then rbind (position_closed_entry cl r p q f exit_reason source cid) (\<lambda>closed. Ok [row, closed])
         else Ok [row]
     | None \<Rightarrow> Ok [row]))"

definition settle_sell :: "(string \<Rightarrow> string) \<Rightarrow> call \<Rightarrow> order_request \<Rightarrow> sell_plan \<Rightarrow> curve_snapshot \<Rightarrow> curve_snapshot \<Rightarrow> rat \<Rightarrow> position option \<Rightarrow> sell_figures
    \<Rightarrow> string option \<Rightarrow> string \<Rightarrow> string \<Rightarrow> (adapter, fill) eff" where
  "settle_sell H cl r p curve0 curve1 latency pos f exit_reason source cid =
     bind (lift (sell_rows cl r p curve0 curve1 latency pos f exit_reason source cid)) (\<lambda>rows.
     bind (pa_append_batch H rows) (\<lambda>done_rows.
     bind (modify (inflight_discard (sp_order_id p))) (\<lambda>_.
     bind (modify (note_reading (o_mint r) (cl_now cl) (cs_s curve1, cs_t curve1))) (\<lambda>_.
     lift (validate_fill \<lparr>fi_order_id = sp_order_id p, fi_decision_id = o_decision_id r,
       fi_status = (if sp_filled_units p = sp_units p then FILLED else PARTIAL), fi_venue_tx_ref = sf_tx f,
       fi_filled_lamports = sf_proceeds f, fi_filled_units = sp_filled_units p, fi_filled_fraction = sf_fraction f,
       fi_price_avg = sf_price_avg f, fi_slippage_bps = sf_slipped f, fi_venue_fee = sf_venue_fee f,
       fi_network_cost = sf_network_cost f, fi_route = ''curve'', fi_seq = seq_of_first done_rows\<rparr>)))))"

definition finish_sell :: "(string \<Rightarrow> string) \<Rightarrow> adapter_config \<Rightarrow> outside \<Rightarrow> order_request \<Rightarrow> sell_plan \<Rightarrow> curve_snapshot \<Rightarrow> string option \<Rightarrow> string option
    \<Rightarrow> string option \<Rightarrow> nat \<Rightarrow> string \<Rightarrow> string \<Rightarrow> (adapter, fill) eff" where
  "finish_sell H cf w r p curve0 seat exit_reason creator owner source cid =
     bind (await_confirmation H cf w r (sp_order_id p) False seat exit_reason creator owner source cid) (\<lambda>(curve1, latency, _).
     bind (sell_holding_at_confirming H cf (ou_call w 3) r p source cid) (\<lambda>pos.
     bind (sell_slippage_at_confirming H cf (ou_call w 3) r p curve1 source cid) (\<lambda>(gross1, out1).
     bind (sell_figures_of cf (ou_call w 3) p gross1 out1) (\<lambda>f.
     settle_sell H (ou_call w 3) r p curve0 curve1 latency pos f exit_reason source cid))))"

definition place_sell :: "(string \<Rightarrow> string) \<Rightarrow> adapter_config \<Rightarrow> outside \<Rightarrow> order_request \<Rightarrow> curve_snapshot \<Rightarrow> string option \<Rightarrow> string option
    \<Rightarrow> string option \<Rightarrow> nat \<Rightarrow> string \<Rightarrow> string \<Rightarrow> (adapter, fill) eff" where
  "place_sell H cf w r curve0 seat exit_reason creator owner source cid =
     bind (sell_targets H cf (ou_call w 1) r curve0 source cid) (\<lambda>(units, filled).
     bind (plan_sell cf (ou_call w 1) r curve0 units filled) (\<lambda>p.
     bind (submit_sell H cf (ou_call w 1) r p seat exit_reason creator source cid) (\<lambda>x. case x of
       Some f \<Rightarrow> ret f
     | None \<Rightarrow> finish_sell H cf w r p curve0 seat exit_reason creator owner source cid)))"

section \<open>Placing an order\<close>

definition place_order :: "(string \<Rightarrow> string) \<Rightarrow> adapter_config \<Rightarrow> outside \<Rightarrow> order_request \<Rightarrow> string option \<Rightarrow> string option
    \<Rightarrow> string option \<Rightarrow> nat \<Rightarrow> string \<Rightarrow> string \<Rightarrow> (adapter, fill) eff" where
  "place_order H cf w r seat exit_reason creator owner source cid =
     bind (repeat_outcome H r) (\<lambda>x. case x of
       Some (Repeat_fill f) \<Rightarrow> ret f
     | Some (Repeat_error e) \<Rightarrow> raise e
     | None \<Rightarrow> bind (order_risk_decision H cf (ou_call w 0) r seat exit_reason creator source cid) (\<lambda>d.
         bind (order_curve H cf w r source cid) (\<lambda>curve0.
         if o_side r = BUY
         then place_buy H cf w r (or_default 0 (d_size_lamports d)) curve0 seat exit_reason creator owner source cid
         else place_sell H cf w r curve0 seat exit_reason creator owner source cid)))"

definition settle_probes :: "(string \<Rightarrow> string) \<Rightarrow> call \<Rightarrow> string \<Rightarrow> nat \<Rightarrow> string \<Rightarrow> bool \<Rightarrow> string \<Rightarrow> string \<Rightarrow> (adapter, unit) eff" where
  "settle_probes H cl order_hash owner key ok source cid = bind get (\<lambda>s.
     bind (if map_of (pa_owned s) owner \<noteq> None then ret True else bind (stored key) (\<lambda>x. ret (x = None))) (\<lambda>settles.
     if settles then on_engine (release_order_probes H (cl_now cl) order_hash ok source cid) else ret ()))"

definition clear_owned :: "nat \<Rightarrow> adapter \<Rightarrow> adapter" where
  "clear_owned owner s = (case map_of (pa_owned s) owner of None \<Rightarrow> s
     | Some order_id \<Rightarrow> inflight_discard order_id (s\<lparr>pa_owned := dict_pop (pa_owned s) owner\<rparr>))"

definition settled_outcome :: "(bool \<Rightarrow> (adapter, unit) eff) \<Rightarrow> (adapter, fill) eff \<Rightarrow> (adapter, fill) eff" where
  \<comment> \<open>\<open>except BaseException: settle(False); raise / else: settle(True); return fill\<close>\<close>
  "settled_outcome settle m s = (case m s of
       (Inr f, s') \<Rightarrow> bind (settle True) (\<lambda>_. ret f) s'
     | (Inl e, s') \<Rightarrow> bind (settle False) (\<lambda>_. raise e) s')"

definition place :: "(string \<Rightarrow> string) \<Rightarrow> adapter_config \<Rightarrow> outside \<Rightarrow> order_request \<Rightarrow> string option \<Rightarrow> string option
    \<Rightarrow> string option \<Rightarrow> string option \<Rightarrow> string \<Rightarrow> (adapter, fill) eff" where
  "place H cf w r seat exit_arg creator source_arg cid =
     (let exit_reason = (case exit_arg of None \<Rightarrow> o_exit_reason r | Some x \<Rightarrow> Some x);
          source = (case source_arg of None \<Rightarrow> ac_source cf | Some x \<Rightarrow> x) in
      bind (lift (order_hash_for H r)) (\<lambda>order_hash. bind (lift (placed_key H r)) (\<lambda>key.
      bind new_owner (\<lambda>owner. bind get (\<lambda>s0. let owns_key = key \<notin> set (pa_active_places s0) in
      bind (modify (\<lambda>s. if owns_key then s\<lparr>pa_active_places := key # pa_active_places s\<rparr> else s)) (\<lambda>_.
      ensuring (modify (\<lambda>s. clear_owned owner (if owns_key then s\<lparr>pa_active_places := removeAll key (pa_active_places s)\<rparr> else s)))
        (settled_outcome (\<lambda>ok. settle_probes H (ou_call w 3) order_hash owner key ok source cid)
          (place_order H cf w r seat exit_reason creator owner source cid))))))))"

end
