(* ===== verification/AdapterMarks.thy ===== *)
theory AdapterMarks
  imports AdapterSell
begin

text \<open>
  Marks and forced closes (\<open>execution/paper_adapter/marks.py\<close>): the liquidation value of a position,
  the mark rows, the close on graduation, on blindness and on a system exit.
\<close>

section \<open>Values of a full exit\<close>

type_synonym valued = "int \<times> int \<times> int"

definition curve_exit :: "adapter_config \<Rightarrow> int \<Rightarrow> int \<Rightarrow> int \<Rightarrow> valued result" where
  \<comment> \<open>proceeds, venue fee, network cost\<close>
  "curve_exit cf s t units = rbind (sell_out s t units) (\<lambda>gross.
     let venue = venue_fee (ac_fees cf) gross; network = network_cost (ac_fees cf) in Ok (gross - venue - network, venue, network))"

definition last_good_value :: "adapter_config \<Rightarrow> string \<Rightarrow> position \<Rightarrow> (string, int \<times> int) dict \<Rightarrow> valued option result" where
  "last_good_value cf mint pos reserves =
     (if p_last_mtm pos > 0
      then let network = network_cost (ac_fees cf) in Ok (Some (p_last_mtm pos - network, p_last_mtm_venue_fee pos, network))
      else case map_of reserves mint of
          Some (s, t) \<Rightarrow> rbind (curve_exit cf s t (p_token_units pos)) (\<lambda>v. Ok (Some v))
        | None \<Rightarrow> Ok None)"

definition live_value :: "adapter_config \<Rightarrow> string \<Rightarrow> position \<Rightarrow> curve_snapshot option \<Rightarrow> (string, int \<times> int) dict \<Rightarrow> valued option result" where
  "live_value cf mint pos curve reserves = (case curve of
       Some c \<Rightarrow> if \<not> cs_complete c then rbind (curve_exit cf (cs_s c) (cs_t c) (p_token_units pos)) (\<lambda>v. Ok (Some v))
         else last_good_value cf mint pos reserves
     | None \<Rightarrow> last_good_value cf mint pos reserves)"

definition ledger_mark_epoch :: "position \<Rightarrow> rat option result" where
  "ledger_mark_epoch pos = (if p_last_mtm_ts pos = [] then Ok None else case parse_ts_utc (p_last_mtm_ts pos) of
       Inr t \<Rightarrow> Ok (Some t) | Inl (ValueError m) \<Rightarrow> Ok None | Inl e \<Rightarrow> Err e)"

definition held_position_in :: "lstate \<Rightarrow> string \<Rightarrow> position option" where
  \<comment> \<open>the open position, if any\<close>
  "held_position_in state mint = (case map_of (l_positions state) mint of
       Some p \<Rightarrow> if p_token_units p \<le> 0 then None else Some p | None \<Rightarrow> None)"

section \<open>The forced close\<close>

definition force_fill_entry :: "string \<Rightarrow> string \<Rightarrow> string \<Rightarrow> valued \<Rightarrow> int \<Rightarrow> string \<Rightarrow> string \<Rightarrow> string \<Rightarrow> string \<Rightarrow> entry" where
  "force_fill_entry mint order_id tx v units price_exit ts source cid = (case v of (proceeds, venue, network) \<Rightarrow>
     \<lparr>x_ts = ts, x_source = source, x_cid = cid, x_key = ''fill|'' @ order_id, x_type = ''FillRecorded'',
      x_payload = [(''source'', PStr source), (''order_id'', PStr order_id), (''decision_id'', PStr []), (''side'', PStr ''sell''),
        (''mint'', PStr mint), (''filled_lamports'', PInt proceeds), (''filled_units'', PInt units),
        (''filled_fraction'', PStr ''1''), (''price_avg'', PStr price_exit), (''venue_fee_lamports'', PInt venue),
        (''network_cost_lamports'', PInt network), (''cash_delta_lamports'', PInt proceeds), (''venue_tx_ref'', PStr tx),
        (''route'', PStr ''curve'')]\<rparr>)"

definition force_escalation_entry :: "string \<Rightarrow> string \<Rightarrow> int \<Rightarrow> string \<Rightarrow> string \<Rightarrow> string \<Rightarrow> string \<Rightarrow> entry" where
  "force_escalation_entry mint reason proceeds ticket_id ts source cid =
     \<lparr>x_ts = ts, x_source = source, x_cid = cid, x_key = ''escalation|'' @ reason @ ''|'' @ mint @ ''|'' @ ts, x_type = ''Escalation'',
      x_payload = [(''source'', PStr source), (''kind'', PStr reason), (''seat'', PStr ''bot-06-exit''),
        (''detail'', PStr (reason @ '' mint='' @ mint @ '' mtm_lamports='' @ int_str proceeds @ '' frozen=true''
          @ (if ticket_id = [] then [] else '' ticket='' @ ticket_id)))]\<rparr>"

definition force_rows :: "call \<Rightarrow> string \<Rightarrow> position \<Rightarrow> string \<Rightarrow> valued \<Rightarrow> string \<Rightarrow> string \<Rightarrow> string \<Rightarrow> string \<Rightarrow> string \<Rightarrow> entry list result" where
  "force_rows cl mint pos reason v order_id tx ticket_id source cid = (let proceeds = fst v; realized = proceeds - p_cost_basis pos in
     rbind (pnl_fraction realized (p_cost_basis pos)) (\<lambda>pnl. rbind (hold_seconds cl (p_opened_ts pos)) (\<lambda>hold_s.
     rbind (if p_token_units pos \<noteq> 0 then dec_ratio proceeds (p_token_units pos) else Ok (DFin False 0 0)) (\<lambda>price.
     rbind (now_ts cl) (\<lambda>ts.
     Ok [force_fill_entry mint order_id tx v (p_token_units pos) (dec_str price) ts source cid,
         closed_entry (''close|'' @ reason @ ''|'' @ mint @ ''|'' @ ts) mint (dec_str price) proceeds realized reason pnl hold_s tx ts source cid,
         force_escalation_entry mint reason proceeds ticket_id ts source cid])))))"

definition force_close :: "(string \<Rightarrow> string) \<Rightarrow> adapter_config \<Rightarrow> call \<Rightarrow> string \<Rightarrow> string \<Rightarrow> valued \<Rightarrow> string option \<Rightarrow> string \<Rightarrow> string
    \<Rightarrow> (adapter, ledger_row option) eff" where
  \<comment> \<open>the \<open>PositionClosed\<close> row, or None when nothing is open\<close>
  "force_close H cf cl mint reason v source_arg cid ticket_id =
     (let source = (case source_arg of None \<Rightarrow> ac_source cf | Some x \<Rightarrow> x) in
      bind (fold_state cf cl) (\<lambda>state. case held_position_in state mint of
        None \<Rightarrow> ret None
      | Some pos \<Rightarrow> bind (pa_ulid cl) (\<lambda>u. bind (pa_ulid cl) (\<lambda>order_id.
          bind (lift (force_rows cl mint pos reason v order_id (''dry_run:'' @ u) ticket_id source cid)) (\<lambda>rows.
          bind (pa_append_batch H rows) (\<lambda>done_rows.
          bind (modify (\<lambda>s. s\<lparr>pa_frozen_marks := dict_set (pa_frozen_marks s) mint (fst v),
             pa_last_price_ts := dict_pop (pa_last_price_ts s) mint\<rparr>)) (\<lambda>_.
          ret (case done_rows of _ # r # _ \<Rightarrow> Some r | _ \<Rightarrow> None))))))))"

definition close_on_graduation :: "(string \<Rightarrow> string) \<Rightarrow> adapter_config \<Rightarrow> call \<Rightarrow> string \<Rightarrow> int \<Rightarrow> int \<Rightarrow> string option \<Rightarrow> string
    \<Rightarrow> (adapter, ledger_row option) eff" where
  "close_on_graduation H cf cl mint last_s last_t source cid =
     bind (fold_state cf cl) (\<lambda>state. case held_position_in state mint of
       None \<Rightarrow> ret None
     | Some pos \<Rightarrow> bind (lift (curve_exit cf last_s last_t (p_token_units pos))) (\<lambda>v.
         force_close H cf cl mint ''graduated'' v source cid []))"

definition blind_since :: "adapter \<Rightarrow> string \<Rightarrow> position \<Rightarrow> rat option result" where
  "blind_since s mint pos = (case map_of (pa_last_price_ts s) mint of Some t \<Rightarrow> Ok (Some t) | None \<Rightarrow> ledger_mark_epoch pos)"

definition check_blind :: "(string \<Rightarrow> string) \<Rightarrow> adapter_config \<Rightarrow> call \<Rightarrow> string \<Rightarrow> string option \<Rightarrow> string \<Rightarrow> (adapter, ledger_row option) eff" where
  "check_blind H cf cl mint source cid =
     bind (fold_state cf cl) (\<lambda>state. case held_position_in state mint of
       None \<Rightarrow> ret None
     | Some pos \<Rightarrow> bind get (\<lambda>s. bind (lift (blind_since s mint pos)) (\<lambda>since. case since of
         None \<Rightarrow> ret None
       | Some last_ts \<Rightarrow> if fl (cl_now cl - last_ts) \<le> lm_blind_max_s (ac_limits cf) then ret None
           else bind (lift (last_good_value cf mint pos (pa_last_reserves s))) (\<lambda>v. case v of
             None \<Rightarrow> ret None
           | Some v \<Rightarrow> force_close H cf cl mint ''blind_flatten'' v source cid []))))"

definition frozen_mark :: "string \<Rightarrow> adapter \<Rightarrow> int option" where
  "frozen_mark mint s = map_of (pa_frozen_marks s) mint"

datatype close_status = Closed string int int int | No_position | No_mark | Ledger_inconsistent

definition pa_verify :: "(string \<Rightarrow> string) \<Rightarrow> (adapter, bool) eff" where
  \<comment> \<open>False: verification failed\<close>
  "pa_verify H = catching (\<lambda>e. case e of LedgerInconsistent _ _ \<Rightarrow> True | _ \<Rightarrow> False) (\<lambda>_. ret False)
     (bind (on_engine (en_verify H)) (\<lambda>_. ret True))"

definition close_position :: "(string \<Rightarrow> string) \<Rightarrow> adapter_config \<Rightarrow> outside \<Rightarrow> string \<Rightarrow> string \<Rightarrow> string \<Rightarrow> (adapter, close_status) eff" where
  "close_position H cf w mint ticket_id reason =
     (if reason \<notin> set SYSTEM_EXIT_REASONS then raise (ValueError ''unsupported close reason'')
      else bind (pa_verify H) (\<lambda>sound. if \<not> sound then ret Ledger_inconsistent
        else bind (read_curve cf w 0 mint) (\<lambda>curve. bind (fold_state cf (ou_call w 1)) (\<lambda>state.
        case held_position_in state mint of
          None \<Rightarrow> ret No_position
        | Some pos \<Rightarrow> bind get (\<lambda>s. bind (lift (live_value cf mint pos curve (pa_last_reserves s))) (\<lambda>v. case v of
            None \<Rightarrow> ret No_mark
          | Some v \<Rightarrow> bind (force_close H cf (ou_call w 1) mint reason v None ticket_id ticket_id) (\<lambda>row. case row of
              None \<Rightarrow> ret No_position
            | Some row \<Rightarrow> ret (Closed reason (fst v) (fst v - p_cost_basis pos) (r_seq row)))))))))"

section \<open>Marks\<close>

definition mark_entry :: "string \<Rightarrow> int \<Rightarrow> int \<Rightarrow> int \<Rightarrow> string \<Rightarrow> string \<Rightarrow> string \<Rightarrow> string \<Rightarrow> entry" where
  "mark_entry key cash equity0 unrealized prices_json ts source cid =
     \<lparr>x_ts = ts, x_source = source, x_cid = cid, x_key = key, x_type = ''MarkToMarket'',
      x_payload = [(''source'', PStr source), (''ts_source'', PStr ts), (''cash_lamports'', PInt cash),
        (''equity_lamports'', PInt equity0), (''unrealized_lamports'', PInt unrealized), (''prices_json'', PStr prices_json)]\<rparr>"

definition mark_fields :: "int \<Rightarrow> int \<Rightarrow> dec \<Rightarrow> (string, pyval) dict" where
  "mark_fields mtm venue price = [(''mtm_lamports'', PInt mtm), (''venue_fee_lamports'', PInt venue),
     (''spot'', PStr (dec_str price)), (''source'', PStr ''curve'')]"

definition mark_to_market :: "(string \<Rightarrow> string) \<Rightarrow> adapter_config \<Rightarrow> outside \<Rightarrow> string \<Rightarrow> string option \<Rightarrow> string \<Rightarrow> (adapter, ledger_row option) eff" where
  "mark_to_market H cf w mint source_arg cid =
     (let source = (case source_arg of None \<Rightarrow> ac_source cf | Some x \<Rightarrow> x); cl = ou_call w 1 in
      bind (fold_state cf (ou_call w 0)) (\<lambda>state. case held_position_in state mint of
        None \<Rightarrow> ret None
      | Some pos \<Rightarrow> if p_mtm_frozen pos then ret None else bind (read_curve cf w 0 mint) (\<lambda>curve. case curve of
          None \<Rightarrow> ret None
        | Some c \<Rightarrow> if cs_complete c then ret None else
            bind (lift (sell_out (cs_s c) (cs_t c) (p_token_units pos))) (\<lambda>gross.
            let venue = venue_fee (ac_fees cf) gross; mtm = gross - venue; cash = l_cash state;
                others = List.filter (\<lambda>(m, p). m \<noteq> mint \<and> p_token_units p > 0) (l_positions state);
                book = mtm + sum_list (map (\<lambda>mp. p_last_mtm (snd mp)) others);
                basis = p_cost_basis pos + sum_list (map (\<lambda>mp. p_cost_basis (snd mp)) others) in
            bind (lift (spot (cs_s c) (cs_t c))) (\<lambda>price.
            bind (lift (canonical_json [(mint, PDict (mark_fields mtm venue price))])) (\<lambda>prices_json.
            bind (lift (now_ts cl)) (\<lambda>ts.
            bind (pa_append H (mark_entry (''mtm|'' @ mint @ ''|'' @ ts) cash (cash + book) (book - basis) prices_json ts source cid)) (\<lambda>row.
            bind (modify (note_reading mint (cl_now cl) (cs_s c, cs_t c))) (\<lambda>_. ret (Some row))))))))))"

record priced =
  pr_marks :: "(string, pyval) dict"
  pr_values :: "(string, int) dict"

fun price_held :: "adapter_config \<Rightarrow> outside \<Rightarrow> nat \<Rightarrow> rat \<Rightarrow> (string \<times> position) list \<Rightarrow> (adapter, priced) eff" where
  \<comment> \<open>the \<open>n\<close>-th read on; \<open>now\<close> was taken before the first\<close>
  "price_held cf w n now [] = ret \<lparr>pr_marks = [], pr_values = []\<rparr>"
| "price_held cf w n now ((mint, pos) # rest) = bind (read_curve cf w n mint) (\<lambda>curve.
     case (case curve of Some c \<Rightarrow> if cs_complete c then None else Some c | None \<Rightarrow> None) of
       None \<Rightarrow> bind (price_held cf w (Suc n) now rest) (\<lambda>p.
         ret (p\<lparr>pr_values := (mint, p_last_mtm pos) # pr_values p\<rparr>))
     | Some c \<Rightarrow> let recorded = (case cs_ts c of Some t \<Rightarrow> t | None \<Rightarrow> now) in
         bind (lift (sell_out (cs_s c) (cs_t c) (p_token_units pos))) (\<lambda>gross. let venue = venue_fee (ac_fees cf) gross in
         bind (lift (spot (cs_s c) (cs_t c))) (\<lambda>price. bind (lift (format_ts_utc recorded)) (\<lambda>ts.
         bind (modify (note_reading mint recorded (cs_s c, cs_t c))) (\<lambda>_.
         bind (price_held cf w (Suc n) now rest) (\<lambda>p.
         ret (p\<lparr>pr_marks := (mint, PDict (mark_fields (gross - venue) venue price @ [(''ts_utc'', PStr ts)])) # pr_marks p,
              pr_values := (mint, gross - venue) # pr_values p\<rparr>)))))))"

definition append_mark_row :: "(string \<Rightarrow> string) \<Rightarrow> call \<Rightarrow> lstate \<Rightarrow> (string \<times> position) list \<Rightarrow> priced \<Rightarrow> string \<Rightarrow> string \<Rightarrow> (adapter, ledger_row option) eff" where
  "append_mark_row H cl state held p source cid =
     (let cash = l_cash state; total = sum_list (map snd (pr_values p));
          basis = sum_list (map (\<lambda>mp. p_cost_basis (snd mp)) held) in
      bind (lift (canonical_json (pr_marks p))) (\<lambda>prices_json. bind (lift (now_ts cl)) (\<lambda>ts.
      bind (lift (canonical_json [(''at'', PStr ts), (''prices'', PDict (pr_marks p)),
        (''basis'', PDict (map (\<lambda>mp. (fst mp, PInt (p_cost_basis (snd mp)))) held))])) (\<lambda>key.
      bind (stored (''mtm|'' @ key)) (\<lambda>old. if old \<noteq> None then ret None
        else bind (pa_append H (mark_entry (''mtm|'' @ key) cash (cash + total) (total - basis) prices_json ts source cid)) (\<lambda>row.
          ret (Some row)))))))"

definition mark_open_positions :: "(string \<Rightarrow> string) \<Rightarrow> adapter_config \<Rightarrow> outside \<Rightarrow> string option \<Rightarrow> string \<Rightarrow> (adapter, ledger_row option) eff" where
  "mark_open_positions H cf w source_arg cid =
     (let source = (case source_arg of None \<Rightarrow> ac_source cf | Some x \<Rightarrow> x) in
      bind (fold_state cf (ou_call w 0)) (\<lambda>state.
      let held = List.filter (\<lambda>(m, p). p_token_units p > 0 \<and> \<not> p_mtm_frozen p) (l_positions state) in
      if held = [] then ret None
      else bind (price_held cf w 0 (cl_now (ou_call w 0)) held) (\<lambda>p.
        if pr_marks p = [] then ret None
        else append_mark_row H (ou_call w (length held)) state held p source cid)))"

end
