(* ===== verification/LedgerGrowth.thy ===== *)
theory LedgerGrowth
  imports RiskEngine
begin

text \<open>
  The risk engine reaches the ledger only through the store's own operations. The locale takes a
  property of stores that every store operation keeps, and concludes that every operation of the
  breakers, the kill switch and the engine keeps it, whether it returns or raises. It is interpreted
  for reachability, for the ledger's prefix and for a stored row.
\<close>

locale ledger_invariant =
  fixes H :: "string \<Rightarrow> string" and I :: "store \<Rightarrow> bool"
  assumes step: "I st \<Longrightarrow> store_step H st st' \<Longrightarrow> I st'"
begin

lemma appendI: "I st \<Longrightarrow> append H st x = (r, st') \<Longrightarrow> I st'"
  using step step_append by metis

lemma batchI: "I st \<Longrightarrow> append_batch H st xs = (r, st') \<Longrightarrow> I st'"
  using step step_batch by metis

lemma verifyI: "I st \<Longrightarrow> verify H st = (r, st') \<Longrightarrow> I st'"
  using step step_verify by metis

lemma breakers_keep [keeps_intros]:
  "keeps (\<lambda>s. I (bs_store s)) (bs_append H x)"
  "keeps (\<lambda>s. I (bs_store s)) (transition H now name before probe_ok ts source cid)"
proof -
  show a: "keeps (\<lambda>s. I (bs_store s)) (bs_append H x)" for x
    unfolding keeps_def bs_append_def by (auto split: prod.splits intro: appendI)
  show "keeps (\<lambda>s. I (bs_store s)) (transition H now name before probe_ok ts source cid)"
    unfolding transition_def append_trip_def append_reset_def by (intro keeps_intros a)
qed

lemma breaker_set_keeps [keeps_intros]:
  "keeps (\<lambda>s. I (bs_store s)) (refresh H now ts source cid equity_now)"
  "keeps (\<lambda>s. I (bs_store s)) (resolve_probe H now name ok ts source cid)"
  "keeps (\<lambda>s. I (bs_store s)) (note_tick H now tick ts source cid)"
  "keeps (\<lambda>s. I (bs_store s)) (note_miss H now ts source cid)"
  unfolding refresh_def resolve_probe_def note_tick_def note_miss_def
  by (auto intro!: keeps_intros split: prod.splits)

lemma engaged_keeps: "keeps (\<lambda>k. P (ks_store k)) engaged_state"
proof -
  have "snd (bind (lift (latest_set st)) (\<lambda>row. lift (ledger_state row)) k) = k" for st and k :: kill_switch
    by (cases "latest_set st") (simp_all add: bind_def)
  then have "ks_store (snd (engaged_state k)) = ks_store k" for k
    by (simp add: engaged_state_def Let_def split: option.split)
  then show ?thesis by (simp add: keeps_def)
qed

lemma kill_keeps [keeps_intros]:
  "keeps (\<lambda>k. P (ks_store k)) kill_poll"
  "keeps (\<lambda>k. I (ks_store k)) (kill_observe H ts source cid)"
proof -
  show p: "keeps (\<lambda>k. P (ks_store k)) kill_poll" for P
    unfolding kill_poll_def by (intro keeps_intros engaged_keeps) simp
  have a: "keeps (\<lambda>k. I (ks_store k)) (ks_append H x)" for x
    unfolding keeps_def ks_append_def by (auto split: prod.splits intro: appendI)
  show "keeps (\<lambda>k. I (ks_store k)) (kill_observe H ts source cid)"
    unfolding kill_observe_def Let_def by (intro keeps_intros p a)
qed

lemma absorb_store [simp]: "ks_store (absorb_alerts k) = ks_store k"
proof -
  have s: "ks_store (snd (save_pending k)) = ks_store k" for k
    by (auto simp: save_pending_def latch_from_alert_def split: option.splits prod.splits)
  have e: "ks_store (snd (escalate reason k)) = ks_store k" for reason k
    by (simp add: escalate_def Let_def)
  have l: "ks_store (snd (absorb_lines raws k)) = ks_store k" for raws k
  proof (induction raws k rule: absorb_lines.induct)
    case (2 raw raws k)
    show ?case
    proof (cases "parse_kill_line raw")
      case (Some fr)
      obtain flat reason where fr: "fr = (flat, reason)" by force
      obtain d1 k1 where e1: "escalate reason k = (d1, k1)" by force
      obtain d2 k2 where s2: "save_pending (k\<lparr>ks_pending := Some raw\<rparr>) = (d2, k2)" by force
      have "ks_store k1 = ks_store k" "ks_store k2 = ks_store k"
        using e [of reason k] s [of "k\<lparr>ks_pending := Some raw\<rparr>"] e1 s2 by simp_all
      then show ?thesis
        using 2(2-) Some fr e1 s2 2(1)
        by (simp add: 2 Some fr e1 s2 split: if_splits)
    qed (use 2 in simp)
  qed simp
  obtain ready k1 where r: "(if ks_pending k \<noteq> None then save_pending k else (True, k)) = (ready, k1)" by force
  then have "ks_store k1 = ks_store k" using s [of k] by (auto split: if_splits)
  moreover obtain handled k2 where "absorb_lines (concat (map splitlines (ks_inbox k1))) k1 = (handled, k2)" by force
  moreover from this have "ks_store k2 = ks_store k1" using l by (metis snd_conv)
  ultimately show ?thesis unfolding absorb_alerts_def r by simp
qed

section \<open>The engine\<close>

abbreviation engine_inv :: "engine \<Rightarrow> bool" where "engine_inv s \<equiv> I (en_store s)"
abbreviation walk_inv :: "walk \<Rightarrow> bool" where "walk_inv w \<equiv> I (en_store (wk_engine w))"

lemma with_kill_keeps [keeps_intros]: "keeps (\<lambda>k. I (ks_store k)) m \<Longrightarrow> keeps engine_inv (with_kill m)"
  unfolding keeps_def
proof (intro allI impI)
  fix s assume m: "\<forall>k. I (ks_store k) \<longrightarrow> I (ks_store (snd (m k)))" and s: "engine_inv s"
  have "I (ks_store (snd (m ((en_kill s)\<lparr>ks_store := en_store s\<rparr>))))" using m s by simp
  then show "engine_inv (snd (with_kill m s))"
    by (cases "m ((en_kill s)\<lparr>ks_store := en_store s\<rparr>)") (simp add: with_kill_def)
qed

lemma with_breakers_keeps [keeps_intros]: "keeps (\<lambda>b. I (bs_store b)) m \<Longrightarrow> keeps engine_inv (with_breakers m)"
  unfolding keeps_def
proof (intro allI impI)
  fix s assume m: "\<forall>b. I (bs_store b) \<longrightarrow> I (bs_store (snd (m b)))" and s: "engine_inv s"
  have "I (bs_store (snd (m ((en_breakers s)\<lparr>bs_store := en_store s\<rparr>))))" using m s by simp
  then show "engine_inv (snd (with_breakers m s))"
    by (cases "m ((en_breakers s)\<lparr>bs_store := en_store s\<rparr>)") (simp add: with_breakers_def)
qed

lemma engine_prims_keep [keeps_intros]:
  "keeps engine_inv (en_append H x)" "keeps engine_inv (en_verify H)" "keeps engine_inv (fresh_ulid now)"
proof -
  show "keeps engine_inv (en_append H x)"
    unfolding keeps_def en_append_def by (auto split: prod.splits intro: appendI)
  show "keeps engine_inv (en_verify H)"
    unfolding keeps_def en_verify_def by (auto split: prod.splits intro: verifyI)
  show "keeps engine_inv (fresh_ulid now)"
    unfolding fresh_ulid_def by (auto intro!: keeps_intros split: prod.splits)
qed

lemma detect_keeps [keeps_intros]: "keeps engine_inv (detect_breach H cf state equity0 ts source cid)"
  unfolding detect_breach_def Let_def by (intro keeps_intros)

lemma mint_keeps [keeps_intros]: "keeps engine_inv (mint_autonomous cl r exit_reason)"
  unfolding mint_autonomous_def by (intro keeps_intros)

lemma in_engine_keeps [keeps_intros]: "keeps engine_inv m \<Longrightarrow> keeps walk_inv (in_engine m)"
  unfolding keeps_def in_engine_def by (auto split: prod.splits)

lemma walk_prims_keep [keeps_intros]:
  "keeps walk_inv get_ctx" "keeps walk_inv (modify_ctx f)" "keeps walk_inv (mark step)" "keeps walk_inv (fail reason d)"
  by (simp_all add: keeps_def get_ctx_def modify_ctx_def mark_def fail_def)

lemma ledger_step_keeps [keeps_intros]: "keeps walk_inv (step_ledger_inconsistent H cl)"
proof -
  have f: "keeps walk_inv (bind (suppressing suppressed (bind (lift (now_ts cl)) (\<lambda>ts. in_engine (en_append H (x ts)))))
      (\<lambda>_. fail reason d :: (walk, unit) eff))" for x reason d
    by (intro keeps_intros)
  have k: "keeps walk_inv (\<lambda>w. case in_engine (en_verify H) w of
        (Inl (LedgerInconsistent n m), w1) \<Rightarrow>
          bind (suppressing suppressed (bind (lift (now_ts cl)) (\<lambda>ts.
            in_engine (en_append H (halt_entry H ''ledger_inconsistent'' (''chain verify failed: '' @ m) 0 0 ts (cx_source c) (cx_cid c))))))
            (\<lambda>_. fail ''ledger_inconsistent'' ''chain verify failed'') w1
      | (Inl e, w1) \<Rightarrow> (Err e, w1)
      | (Inr _, w1) \<Rightarrow> (Ok (), w1))" (is "keeps _ ?m") for c
    unfolding keeps_def
  proof (intro allI impI)
    fix w assume w: "walk_inv w"
    obtain r w1 where v: "in_engine (en_verify H) w = (r, w1)" by force
    have w1: "walk_inv w1" using keepsD [OF in_engine_keeps [OF engine_prims_keep(2)] w v] .
    show "walk_inv (snd (?m w))"
    proof (cases r)
      case (Inl e)
      then show ?thesis using w1 f [unfolded keeps_def, rule_format, OF w1] v by (cases e) simp_all
    qed (use v w1 in simp)
  qed
  show ?thesis unfolding step_ledger_inconsistent_def by (intro keeps_intros k)
qed

lemma steps_keep [keeps_intros]:
  "keeps walk_inv step_kill_switch" "keeps walk_inv step_halted" "keeps walk_inv (step_breaker_open H cl)"
  "keeps walk_inv (step_live_gate cf)" "keeps walk_inv (step_approval_missing cf cl)" "keeps walk_inv step_approval_mismatch"
  "keeps walk_inv (step_seat_may_trade cl)" "keeps walk_inv (step_max_trades_per_day cf)"
  "keeps walk_inv (step_max_open_positions cf)" "keeps walk_inv step_already_open" "keeps walk_inv (step_creator_already_open cf)"
  "keeps walk_inv (step_max_trade_fraction cf)" "keeps walk_inv (step_max_token_fraction cf)"
  "keeps walk_inv (step_daily_loss_halt H cf cl)" "keeps walk_inv (step_drawdown_halt H cf cl)"
  "keeps walk_inv (step_data_stale cf cl)" "keeps walk_inv (step_size_too_small cf)" "keeps walk_inv (step_below_liquidity_floor cf)"
  unfolding step_kill_switch_def step_halted_def step_breaker_open_def step_live_gate_def step_approval_missing_def
    step_approval_mismatch_def step_seat_may_trade_def step_max_trades_per_day_def step_max_open_positions_def
    step_already_open_def step_creator_already_open_def step_max_trade_fraction_def step_max_token_fraction_def
    step_daily_loss_halt_def step_drawdown_halt_def step_data_stale_def step_size_too_small_def step_below_liquidity_floor_def
    write_reputation_escalation_def mark_fresh_def Let_def
  by (intro keeps_intros; (auto intro!: keeps_intros split: option.splits prod.splits)?)+

lemma run_step_keeps [keeps_intros]: "keeps walk_inv (run_step H cf cl step)"
  unfolding run_step_def by (intro keeps_intros)

lemma walk_keeps [keeps_intros]: "keeps walk_inv (walk_steps H cf cl)" "keeps walk_inv confirm_holding"
  unfolding walk_steps_def confirm_holding_def by (intro keeps_intros)+

lemma probe_claims_keep [keeps_intros]:
  "keeps engine_inv (snapshot_probes now order_hash)" "keeps walk_inv (claim_probe now order_hash v)"
proof -
  show "keeps engine_inv (snapshot_probes now order_hash)"
    unfolding snapshot_probes_def Let_def by (intro keeps_intros) (simp add: drop_settled_def)
  show "keeps walk_inv (claim_probe now order_hash v)"
    unfolding claim_probe_def by (intro keeps_intros) (auto intro!: keeps_intros split: list.splits)
qed

lemma polls_keep [keeps_intros]:
  "keeps engine_inv (poll_kill H cl source cid)" "keeps engine_inv (poll_kill_sources H cl hooked)"
  "keeps engine_inv (cache_key now r order_hash stage)"
  unfolding poll_kill_def poll_kill_sources_def cache_key_def by (intro keeps_intros; simp)+

lemma new_ctx_keeps [keeps_intros]:
  "keeps engine_inv (new_ctx H cf cl r seat exit_reason creator source cid stage state equity0 v)"
  unfolding new_ctx_def Let_def by (intro keeps_intros)

lemma walked_keeps [keeps_intros]: "keeps engine_inv (walked H cf cl order_hash v c)"
  unfolding keeps_def
proof (intro allI impI)
  fix s assume s: "engine_inv s"
  obtain out w where w: "stages_of_walk H cf cl order_hash v \<lparr>wk_engine = s, wk_ctx = c\<rparr> = (out, w)" by force
  have "keeps walk_inv (stages_of_walk H cf cl order_hash v)"
    unfolding stages_of_walk_def by (intro keeps_intros)
  from keepsD [OF this _ w] s have "walk_inv w" by simp
  moreover have "snd (walked H cf cl order_hash v c s) = wk_engine w"
    by (simp add: walked_def w split: sum.split err.split)
  ultimately show "engine_inv (snd (walked H cf cl order_hash v c s))" by simp
qed

lemma evaluation_keeps [keeps_intros]:
  "keeps engine_inv (evaluate H cf cl r order_hash seat exit_reason creator source cid stage)"
  unfolding evaluate_def by (intro keeps_intros)

lemma check_keeps [keeps_intros]: "keeps engine_inv (check H cf cl r seat exit_reason creator source cid stage)"
  unfolding check_def
  by (intro keeps_intros) (auto intro!: keeps_intros simp: remember_def Let_def split: option.splits)

lemma resolve_keeps [keeps_intros]:
  "keeps engine_inv (engine_resolve_probe H now name ok source cid)"
  "keeps engine_inv (release_order_probes H now order_hash ok source cid)"
proof -
  show r: "keeps engine_inv (engine_resolve_probe H now name ok source cid)" for name ok
    unfolding engine_resolve_probe_def by (intro keeps_intros) simp
  show "keeps engine_inv (release_order_probes H now order_hash ok source cid)"
    unfolding release_order_probes_def
    by (intro keeps_intros) (auto intro!: keeps_intros r split: prod.splits)
qed

lemma engine_operations_keep [keeps_intros]:
  "keeps engine_inv (record_kill_verdict H now mint reason source cid)"
  "keeps engine_inv (request_halt_clear H cf now a reason source cid)"
  "keeps engine_inv (engine_note_tick H now tick ts source cid)"
  "keeps engine_inv (engine_note_miss H now ts source cid)"
proof -
  show "keeps engine_inv (request_halt_clear H cf now a reason source cid)"
    unfolding request_halt_clear_def
    by (intro keeps_intros) (auto simp: keeps_def split: prod.splits intro: batchI)
qed (unfold record_kill_verdict_def engine_note_tick_def engine_note_miss_def, (intro keeps_intros)+)

end

section \<open>The invariants the properties use\<close>

lemma reachable_step: "reachable H st \<Longrightarrow> store_step H st st' \<Longrightarrow> reachable H st'"
  unfolding reachable_def by (rule rtranclp.rtrancl_into_rtrancl)

definition extends_rows :: "ledger_row list \<Rightarrow> store \<Rightarrow> bool" where
  "extends_rows rows st \<longleftrightarrow> (\<exists>more. events st = rows @ more)"

interpretation reach: ledger_invariant H "reachable H" for H
  by unfold_locales (rule reachable_step)

interpretation grow: ledger_invariant H "\<lambda>st. reachable H st \<and> extends_rows rows st" for H rows
proof
  fix st st' assume st: "reachable H st \<and> extends_rows rows st" "store_step H st st'"
  from st have "reachable H st'" using reachable_step by blast
  moreover have "\<exists>more. events st' = events st @ more" using store_step_prefix [OF st(2)] by simp
  ultimately show "reachable H st' \<and> extends_rows rows st'" using st(1) by (auto simp: extends_rows_def)
qed

end
