(* ===== verification/AdapterGrowth.thy ===== *)
theory AdapterGrowth
  imports AdapterMarks LedgerGrowth
begin

text \<open>
  What the adapter's operations preserve. The adapter reaches the ledger only through the store's own
  operations, and its other fields only through a handful of updates: the locale takes a property of
  the adapter that those keep, and concludes that every stage of an order keeps it, whatever its
  outcome. An order is then put together in \<open>place_leads\<close>, which allows one property before the order is
  registered in the barrier and another after it. The other tasks of the desk are assumed to keep
  both while the adapter waits.
\<close>

definition tasks_keep :: "(adapter \<Rightarrow> bool) \<Rightarrow> outside \<Rightarrow> bool" where
  "tasks_keep J w \<longleftrightarrow> (\<forall>n s. J s \<longrightarrow> J (ou_tasks w n s))"

section \<open>From one property to another\<close>

definition leads :: "('s \<Rightarrow> bool) \<Rightarrow> ('s, 'a) eff \<Rightarrow> ('s \<Rightarrow> bool) \<Rightarrow> bool" where
  "leads K m J \<longleftrightarrow> (\<forall>s. K s \<longrightarrow> J (snd (m s)))"

lemma leadsD: "leads K m J \<Longrightarrow> K s \<Longrightarrow> m s = (r, s') \<Longrightarrow> J s'"
  by (metis leads_def snd_conv)

lemma leads_keeps: "leads J m J \<longleftrightarrow> keeps J m"
  by (simp add: leads_def keeps_def)

lemma leads_early: "keeps K m \<Longrightarrow> (\<And>s. K s \<Longrightarrow> J s) \<Longrightarrow> leads K m J"
  by (simp add: leads_def keeps_def)

lemma leads_before:
  assumes "keeps K m" "\<And>s. K s \<Longrightarrow> J s" "\<And>x. leads K (f x) J"
  shows "leads K (bind m f) J"
  using assms by (auto simp: leads_def keeps_def bind_def split: prod.splits sum.splits)

lemma leads_after:
  assumes "leads K m J" "\<And>x. keeps J (f x)"
  shows "leads K (bind m f) J"
  using assms by (auto simp: leads_def keeps_def bind_def split: prod.splits sum.splits)

lemma leads_if: "(b \<Longrightarrow> leads K m J) \<Longrightarrow> (\<not> b \<Longrightarrow> leads K n J) \<Longrightarrow> leads K (if b then m else n) J"
  by simp

lemma inflight_fields [simp]:
  "pa_engine (inflight_add key s) = pa_engine s" "pa_engine (inflight_discard key s) = pa_engine s"
  "pa_engine (note_reading mint ts rs s) = pa_engine s" "pa_engine (clear_owned owner s) = pa_engine s"
  "pa_owned (inflight_add key s) = pa_owned s" "pa_owned (inflight_discard key s) = pa_owned s"
  by (simp_all add: inflight_add_def inflight_discard_def note_reading_def clear_owned_def split: option.split)

section \<open>The stages of an order\<close>

locale adapter_invariant =
  fixes H :: "string \<Rightarrow> string" and J :: "adapter \<Rightarrow> bool"
  assumes ledger: "J s \<Longrightarrow> (store_step H)\<^sup>*\<^sup>* (pa_store s) (en_store e) \<Longrightarrow> J (s\<lparr>pa_engine := e\<rparr>)"
    and tokens: "J s \<Longrightarrow> J (s\<lparr>pa_tokens := n\<rparr>)"
    and discard: "J s \<Longrightarrow> J (inflight_discard key s)"
    and cancelled: "J s \<Longrightarrow> J (s\<lparr>pa_cancelled := c\<rparr>)"
    and reading: "J s \<Longrightarrow> J (note_reading mint t rs s)"
    and frozen: "J s \<Longrightarrow> J (s\<lparr>pa_frozen_marks := d, pa_last_price_ts := d'\<rparr>)"

interpretation steps: ledger_invariant H "(store_step H)\<^sup>*\<^sup>* st" for H st
  by unfold_locales (rule rtranclp.rtrancl_into_rtrancl)

context adapter_invariant
begin

lemma on_engine_keeps:
  assumes "\<And>st. keeps (\<lambda>e. (store_step H)\<^sup>*\<^sup>* st (en_store e)) m"
  shows "keeps J (on_engine m)"
  unfolding keeps_def
proof (intro allI impI)
  fix s assume s: "J s"
  obtain r e where m: "m (pa_engine s) = (r, e)" by force
  have "(store_step H)\<^sup>*\<^sup>* (pa_store s) (en_store e)" by (rule keepsD [OF assms _ m]) simp
  then show "J (snd (on_engine m s))" using ledger [OF s] by (simp add: on_engine_def m)
qed

lemma engine_calls_keep [keeps_intros]:
  "keeps J (pa_check H cf cl r seat exit_reason creator source cid stage)" "keeps J (pa_ulid cl)"
  "keeps J (on_engine (release_order_probes H now order_hash ok source cid))" "keeps J (on_engine (en_verify H))"
  unfolding pa_check_def pa_ulid_def
  by (intro on_engine_keeps steps.check_keeps steps.engine_prims_keep steps.resolve_keeps)+

lemma adapter_prims_keep [keeps_intros]:
  "keeps P get_store" "keeps J (pa_append H x)" "keeps J (pa_append_batch H xs)"
  "keeps P (stored key)" "keeps J new_owner" "keeps P (fold_state cf cl)"
  "keeps P (open_units cf cl mint)" "keeps P (repeat_outcome H r)"
proof -
  have a: "(store_step H)\<^sup>*\<^sup>* st (snd (append H st x))" "(store_step H)\<^sup>*\<^sup>* st (snd (append_batch H st ys))" for st x ys
    by (metis prod.collapse r_into_rtranclp step_append step_batch)+
  show "keeps J (pa_append H x)" "keeps J (pa_append_batch H xs)"
    unfolding keeps_def pa_append_def pa_append_batch_def
    using a by (auto split: prod.splits intro!: ledger) (metis snd_conv)+
  show "keeps J new_owner" using tokens by (simp add: keeps_def new_owner_def)
qed (unfold stored_def open_units_def repeat_outcome_def fold_state_def keeps_def,
     auto simp: bind_def get_store_def split: prod.splits sum.splits)

lemma updates_keep [keeps_intros]:
  "keeps J (modify (inflight_discard key))" "keeps J (modify (note_reading mint t rs))"
  by (intro keeps_modify discard reading; assumption)+

lemma suspend_keeps: "tasks_keep J w \<Longrightarrow> keeps J (suspend w n)"
  unfolding suspend_def tasks_keep_def by (intro keeps_intros) simp

lemma read_curve_keeps: "tasks_keep J w \<Longrightarrow> keeps J (read_curve cf w n mint)"
  unfolding read_curve_def by (intro keeps_intros suspend_keeps)

lemma reject_keeps [keeps_intros]:
  "keeps J (reject H cl r decision j source cid)" "keeps J (refuse H cl r decision j source cid)"
  "keeps J (confirm_refuse H cl r order_id j source cid)"
proof -
  show a: "keeps J (reject H cl r decision j source cid)" for decision
    unfolding reject_def by (intro keeps_intros) (auto intro!: keeps_intros split: option.splits)
  show b: "keeps J (refuse H cl r decision j source cid)" for decision
    unfolding refuse_def by (intro keeps_intros a)
  show "keeps J (confirm_refuse H cl r order_id j source cid)"
    unfolding confirm_refuse_def by (intro keeps_intros b discard)
qed

lemma batch_keeps [keeps_intros]:
  "keeps J (write_order_batch H cl r rows consume_key approval_id source cid)"
  "keeps J (append_order_batch H cf cl r order_id quote_id out0 threshold impact seat exit_reason creator source cid)"
proof -
  show b: "keeps J (write_order_batch H cl r rows consume_key approval_id source cid)" for rows consume_key approval_id
    unfolding write_order_batch_def by (intro keeps_intros)
  show "keeps J (append_order_batch H cf cl r order_id quote_id out0 threshold impact seat exit_reason creator source cid)"
    unfolding append_order_batch_def accepted_decision_def
    by (intro keeps_intros) (auto intro!: keeps_intros b split: prod.splits)
qed

lemma submit_keeps [keeps_intros]: "keeps J m \<Longrightarrow> keeps J (submit H r m)"
  unfolding submit_def by (intro keeps_intros) (auto intro!: keeps_intros split: option.splits repeat.splits)

lemma confirm_checks_keep:
  assumes "tasks_keep J w"
  shows "keeps J (confirm_cancel_check H cl r order_id source cid)"
    "keeps J (confirm_curve H cf w r order_id forbid_complete source cid)"
    "keeps J (confirm_recheck H cf cl r order_id dropped seat exit_reason creator source cid)"
proof -
  show "keeps J (confirm_cancel_check H cl r order_id source cid)"
    unfolding confirm_cancel_check_def by (intro keeps_intros cancelled discard)
  show "keeps J (confirm_curve H cf w r order_id forbid_complete source cid)"
    unfolding confirm_curve_def
    by (intro keeps_intros read_curve_keeps [OF assms]) (auto intro!: keeps_intros split: option.splits)
  show "keeps J (confirm_recheck H cf cl r order_id dropped seat exit_reason creator source cid)"
    unfolding confirm_recheck_def by (intro keeps_intros)
qed

lemma decision_keeps:
  assumes "tasks_keep J w"
  shows "keeps J (order_risk_decision H cf cl r seat exit_reason creator source cid)"
    "keeps J (order_curve H cf w r source cid)"
proof -
  show "keeps J (order_risk_decision H cf cl r seat exit_reason creator source cid)"
    unfolding order_risk_decision_def by (intro keeps_intros)
  show "keeps J (order_curve H cf w r source cid)"
    unfolding order_curve_def
    by (intro keeps_intros read_curve_keeps [OF assms]) (auto intro!: keeps_intros split: option.splits)
qed

lemma buy_stages_keep:
  "keeps J (buy_sizing H cf cl r size0 curve0 source cid)"
  "keeps J (buy_append_batch H cf cl r q curve0 seat exit_reason creator source cid)"
  "keeps J (buy_guard_slippage H cf cl r order_id q out1 source cid)"
  "keeps J (buy_settle H cf cl r q c curve0 creator order_id source cid)"
proof -
  show "keeps J (buy_sizing H cf cl r size0 curve0 source cid)" unfolding buy_sizing_def by (intro keeps_intros)
  show "keeps J (buy_append_batch H cf cl r q curve0 seat exit_reason creator source cid)"
    unfolding buy_append_batch_def by (intro keeps_intros)
  show "keeps J (buy_guard_slippage H cf cl r order_id q out1 source cid)"
    unfolding buy_guard_slippage_def by (intro keeps_intros)
  show "keeps J (buy_settle H cf cl r q c curve0 creator order_id source cid)"
    unfolding buy_settle_def Let_def by (intro keeps_intros) (auto intro!: keeps_intros split: prod.splits)
qed

lemma sell_stages_keep:
  "keeps J (sell_targets H cf cl r curve0 source cid)"
  "keeps J (plan_sell cf cl r curve0 units filled)"
  "keeps J (submit_sell H cf cl r p seat exit_reason creator source cid)"
  "keeps J (sell_holding_at_confirming H cf cl r p source cid)"
  "keeps J (sell_slippage_at_confirming H cf cl r p curve1 source cid)"
  "keeps J (sell_figures_of cf cl p gross1 out1)"
  "keeps J (settle_sell H cl r p curve0 curve1 latency pos f exit_reason source cid)"
  unfolding sell_targets_def plan_sell_def submit_sell_def sell_holding_at_confirming_def sell_slippage_at_confirming_def
    sell_figures_of_def settle_sell_def Let_def
  by (intro keeps_intros)+

lemma probes_keep: "keeps J (settle_probes H cl order_hash owner key ok source cid)"
  unfolding settle_probes_def by (intro keeps_intros)

section \<open>Marks and forced closes\<close>

lemma force_close_keeps [keeps_intros]: "keeps J (force_close H cf cl mint reason v source cid ticket_id)"
  unfolding force_close_def Let_def
  by (intro keeps_intros) (auto intro!: keeps_intros frozen split: option.splits)

lemma close_position_keeps:
  assumes "tasks_keep J w"
  shows "keeps J (close_position H cf w mint ticket_id reason)"
proof -
  have v: "keeps J (pa_verify H)" unfolding pa_verify_def by (intro keeps_intros)
  show ?thesis
    unfolding close_position_def
    by (intro keeps_intros v read_curve_keeps [OF assms]) (auto intro!: keeps_intros split: option.splits)
qed

lemma closes_keep:
  "keeps J (close_on_graduation H cf cl mint last_s last_t source cid)" "keeps J (check_blind H cf cl mint source cid)"
  unfolding close_on_graduation_def check_blind_def
  by (intro keeps_intros; auto intro!: keeps_intros split: option.splits)+

lemma marks_keep:
  assumes "tasks_keep J w"
  shows "keeps J (mark_to_market H cf w mint source_arg cid)" "keeps J (mark_open_positions H cf w source_arg cid)"
proof -
  show "keeps J (mark_to_market H cf w mint source_arg cid)"
    unfolding mark_to_market_def Let_def
    by (intro keeps_intros) (auto intro!: keeps_intros read_curve_keeps [OF assms] split: option.splits)
  have p: "keeps J (price_held cf w n now held)" for n now held
  proof (induction held arbitrary: n)
    case (Cons mp held)
    show ?case
      by (cases mp) (auto simp: Let_def intro!: keeps_intros Cons.IH read_curve_keeps [OF assms] split: option.splits)
  qed simp
  show "keeps J (mark_open_positions H cf w source_arg cid)"
    unfolding mark_open_positions_def append_mark_row_def Let_def by (intro keeps_intros p)
qed

end

section \<open>Placing an order\<close>

locale order_invariants = before: adapter_invariant H K + after: adapter_invariant H J for H K J +
  assumes before_after: "K s \<Longrightarrow> J s"
begin

lemma confirmation_leads:
  assumes "tasks_keep J w" "leads K (confirm_latency H cf w r order_id owner source cid) J"
  shows "leads K (await_confirmation H cf w r order_id forbid_complete seat exit_reason creator owner source cid) J"
  unfolding await_confirmation_def
  by (rule leads_after [OF assms(2)])
    (auto intro!: keeps_intros after.confirm_checks_keep [OF assms(1)] split: prod.splits)

lemma buy_leads:
  assumes "tasks_keep K w" "tasks_keep J w" "\<And>order_id. leads K (confirm_latency H cf w r order_id owner source cid) J"
  shows "leads K (place_buy H cf w r decision_size curve0 seat exit_reason creator owner source cid) J"
proof -
  have c: "leads K (buy_confirm H cf w r q curve0 order_id seat exit_reason creator owner source cid) J" for q order_id
    unfolding buy_confirm_def
    by (rule leads_after [OF confirmation_leads [OF assms(2,3)]])
      (auto intro!: keeps_intros after.buy_stages_keep split: prod.splits)
  have t: "leads K (case placed of Inl f \<Rightarrow> ret f
     | Inr order_id \<Rightarrow> bind (buy_confirm H cf w r q curve0 order_id seat exit_reason creator owner source cid) (\<lambda>c.
         buy_settle H cf (ou_call w 3) r q c curve0 creator order_id source cid)) J" for q placed
    by (cases placed) (auto intro: leads_early keeps_basic before_after intro!: leads_after [OF c] after.buy_stages_keep)
  show ?thesis
    unfolding place_buy_def by (intro leads_before before.buy_stages_keep before_after t)
qed

lemma sell_leads:
  assumes "tasks_keep K w" "tasks_keep J w" "\<And>order_id. leads K (confirm_latency H cf w r order_id owner source cid) J"
  shows "leads K (place_sell H cf w r curve0 seat exit_reason creator owner source cid) J"
proof -
  have e: "leads K (finish_sell H cf w r p curve0 seat exit_reason creator owner source cid) J" for p
    unfolding finish_sell_def
    by (rule leads_after [OF confirmation_leads [OF assms(2,3)]])
      (auto intro!: keeps_intros after.sell_stages_keep split: prod.splits)
  have t: "leads K (case x of Some f \<Rightarrow> ret f
      | None \<Rightarrow> finish_sell H cf w r p curve0 seat exit_reason creator owner source cid) J" for x p
    by (cases x) (auto intro: leads_early keeps_basic before_after e)
  have u: "leads K (case y of (units, filled) \<Rightarrow> bind (plan_sell cf (ou_call w 1) r curve0 units filled) (\<lambda>p.
     bind (submit_sell H cf (ou_call w 1) r p seat exit_reason creator source cid) (\<lambda>x. case x of
       Some f \<Rightarrow> ret f
     | None \<Rightarrow> finish_sell H cf w r p curve0 seat exit_reason creator owner source cid))) J" for y
    by (cases y) (simp, intro leads_before before.sell_stages_keep before_after t)
  show ?thesis
    unfolding place_sell_def by (intro leads_before before.sell_stages_keep before_after u)
qed

lemma place_order_leads:
  assumes "tasks_keep K w" "tasks_keep J w" "\<And>order_id. leads K (confirm_latency H cf w r order_id owner source cid) J"
  shows "leads K (place_order H cf w r seat exit_reason creator owner source cid) J"
proof -
  have m: "leads K (bind (order_risk_decision H cf (ou_call w 0) r seat exit_reason creator source cid) (\<lambda>d.
      bind (order_curve H cf w r source cid) (\<lambda>curve0.
         if o_side r = BUY
         then place_buy H cf w r (or_default 0 (d_size_lamports d)) curve0 seat exit_reason creator owner source cid
         else place_sell H cf w r curve0 seat exit_reason creator owner source cid))) J"
    by (intro leads_before before.decision_keeps [OF assms(1)] before_after leads_if buy_leads sell_leads assms)
  have t: "leads K (case x of Some (Repeat_fill f) \<Rightarrow> ret f | Some (Repeat_error e) \<Rightarrow> raise e | None \<Rightarrow>
     bind (order_risk_decision H cf (ou_call w 0) r seat exit_reason creator source cid) (\<lambda>d.
      bind (order_curve H cf w r source cid) (\<lambda>curve0.
         if o_side r = BUY
         then place_buy H cf w r (or_default 0 (d_size_lamports d)) curve0 seat exit_reason creator owner source cid
         else place_sell H cf w r curve0 seat exit_reason creator owner source cid))) J" for x
    by (auto intro: leads_early keeps_basic before_after m split: option.split repeat.split)
  show ?thesis
    unfolding place_order_def by (intro leads_before before.adapter_prims_keep before_after t)
qed

lemma outcome_leads:
  assumes "leads K m J"
  shows "leads K (settled_outcome (\<lambda>ok. settle_probes H cl order_hash owner key ok source cid) m) J"
  unfolding leads_def
proof (intro allI impI)
  fix s assume s: "K s"
  obtain out s1 where m: "m s = (out, s1)" by force
  have s1: "J s1" using leadsD [OF assms s m] .
  have k: "keeps J (bind (settle_probes H cl order_hash owner key ok source cid) (\<lambda>_. ret f))"
    "keeps J (bind (settle_probes H cl order_hash owner key ok source cid) (\<lambda>_. raise e :: (_, fill) eff))" for f :: fill and e ok
    by (intro keeps_intros after.probes_keep)+
  show "J (snd (settled_outcome (\<lambda>ok. settle_probes H cl order_hash owner key ok source cid) m s))"
    using k s1 by (cases out) (simp_all add: settled_outcome_def m keeps_def)
qed

end

end
