(* ===== verification/QuietDesk.thy ===== *)
theory QuietDesk
  imports RiskSafety
begin

text \<open>
  A desk on which nothing is wrong: an empty ledger, no kill source, no open breaker, an autonomous
  paper account. The walk of a buy on it runs through all nineteen steps, so the gates of the engine
  can be met; it is the closed instance the properties of passed orders use.
\<close>

section \<open>A buy on a quiet desk\<close>

lemma quiet_steps:
  "cx_kill (wk_ctx w) = None \<Longrightarrow> step_kill_switch w = (Inr (), marked ''kill_switch'' w)"
  "\<not> h_active (l_halt (cx_state (wk_ctx w))) \<Longrightarrow> step_halted w = (Inr (), marked ''halted'' w)"
  "cx_open (wk_ctx w) = [] \<Longrightarrow> cx_killed (wk_ctx w) = [] \<Longrightarrow> \<not> cx_half_blocked (wk_ctx w) \<Longrightarrow> en_degraded (wk_engine w) = None
     \<Longrightarrow> step_breaker_open H cl w = (Inr (), marked ''breaker_open'' w)"
  "cf_paper cf \<Longrightarrow> step_live_gate cf w = (Inr (), marked ''live_gate'' w)"
  "by_engine (cx_approval (wk_ctx w)) \<Longrightarrow> step_approval_mismatch w = (Inr (), marked ''approval_mismatch'' w)"
  "c_trades_today (l_counters (cx_state (wk_ctx w))) < rb_max_trades_per_day (cf_budget cf)
     \<Longrightarrow> step_max_trades_per_day cf w = (Inr (), marked ''max_trades_per_day'' w)"
  "open_count (cx_state (wk_ctx w)) < rb_max_open_positions (cf_budget cf)
     \<Longrightarrow> step_max_open_positions cf w = (Inr (), marked ''max_open_positions'' w)"
  "\<not> holds (cx_state (wk_ctx w)) (o_mint (cx_order (wk_ctx w))) \<Longrightarrow> step_already_open w = (Inr (), marked ''already_open'' w)"
  "l_positions (cx_state (wk_ctx w)) = [] \<Longrightarrow> step_data_stale cf cl w = (Inr (), marked ''data_stale'' w)"
  by (simp_all add: step_kill_switch_def step_halted_def step_breaker_open_def step_live_gate_def step_approval_mismatch_def
      step_max_trades_per_day_def step_max_open_positions_def step_already_open_def step_data_stale_def Let_def)

lemma quiet_seat:
  "cl_calling cl = Some BUY_SEAT \<Longrightarrow> cx_seat (wk_ctx w) = None \<Longrightarrow> cx_is_buy (wk_ctx w) \<Longrightarrow> en_observe_only (wk_engine w) = []
     \<Longrightarrow> step_seat_may_trade cl w = (Inr (), marked ''seat_may_trade'' w)"
  by (simp add: step_seat_may_trade_def)

lemma quiet_sizes:
  "cx_is_buy (wk_ctx w) \<Longrightarrow> cx_final_size (wk_ctx w) = Some n \<Longrightarrow> lm_min_trade_lamports (cf_limits cf) \<le> n
     \<Longrightarrow> step_size_too_small cf w = (Inr (), marked ''size_too_small'' w)"
  "cx_is_buy (wk_ctx w) \<Longrightarrow> cx_final_size (wk_ctx w) = Some n \<Longrightarrow> cf_reserves cf = Some f \<Longrightarrow> f (o_mint (cx_order (wk_ctx w))) = Some (s0, t0)
     \<Longrightarrow> rb_liquidity_floor_multiple (cf_budget cf) * n \<le> s0 \<Longrightarrow> step_below_liquidity_floor cf w = (Inr (), marked ''below_liquidity_floor'' w)"
  by (simp_all add: step_size_too_small_def step_below_liquidity_floor_def sized_def bind_def Let_def)

definition idle_engine :: engine where
  "idle_engine = \<lparr>en_store = empty_store, en_kill = quiet_switch empty_store, en_breakers = new_breaker_set empty_store,
     en_decisions = [], en_owners = [], en_last_ulid = 0, en_bits = (\<lambda>n. 7), en_drawn = 0, en_observe_only = [], en_degraded = None\<rparr>"

definition auto_config :: engine_config where
  "auto_config = \<lparr>cf_budget = default_budget, cf_limits = default_limits, cf_paper = True, cf_autonomous = True,
     cf_scan_verdicts = True, cf_reserves = Some (\<lambda>m. Some (100000000000, 1000000000000)), cf_live_check = None\<rparr>"

definition sample_mint :: string where "sample_mint = ''So11111111111111111111111111111111111111112''"

definition sample_buy :: order_request where
  "sample_buy = \<lparr>o_ticket_id = ''SOL-20260101-001'', o_mint = sample_mint, o_side = BUY,
     o_decision_id = ''01ARZ3NDEKTSV4RRFFQ69G5FAV'', o_size_lamports = Some 500000000, o_token_units = None,
     o_max_slippage_bps = 100, o_approval_id = [], o_quote_id = None, o_exit_reason = None, o_correlation_id = ''c''\<rparr>"

definition sample_call :: call where "sample_call = \<lparr>cl_now = 1767225600, cl_calling = Some BUY_SEAT\<rparr>"

definition sample_ts :: string where "sample_ts = ''2026-01-01T00:00:00.000000Z''"
definition sample_state :: lstate where "sample_state = initial_state ''paper'' 10000000000 ''2026-01-01''"

definition fed_breakers :: breaker_set where
  "fed_breakers = (new_breaker_set empty_store)\<lparr>bs_loss := new_loss\<lparr>lv_points := [(1767225600, 10000000000)]\<rparr>\<rparr>"

lemma idle_parts:
  "format_ts_utc 1767225600 = Ok sample_ts"
  "sync_from_ledger 1767225600 (new_breaker_set empty_store) = (Inr (), new_breaker_set empty_store)"
  "refresh H 1767225600 sample_ts ''paper'' ''c'' 10000000000 (new_breaker_set empty_store) = (Inr (), fed_breakers)"
  "half_open_breakers 1767225600 fed_breakers = (Inr [], fed_breakers)"
  "open_breakers 1767225600 fed_breakers = (Inr [], fed_breakers)"
  "kill_observe H sample_ts ''paper'' ''c'' (quiet_switch empty_store) = (Inr None, quiet_switch empty_store)"
  "kill_poll (quiet_switch empty_store) = (Inr kill_off, quiet_switch empty_store)"
  "killed_mints auto_config empty_store = Ok []"
  "standing_approvals empty_store = Ok []"
proof -
  show "format_ts_utc 1767225600 = Ok sample_ts" by code_simp
  show "sync_from_ledger 1767225600 (new_breaker_set empty_store) = (Inr (), new_breaker_set empty_store)" by code_simp
  show "refresh H 1767225600 sample_ts ''paper'' ''c'' 10000000000 (new_breaker_set empty_store) = (Inr (), fed_breakers)" by code_simp
  show "half_open_breakers 1767225600 fed_breakers = (Inr [], fed_breakers)" by code_simp
  show "open_breakers 1767225600 fed_breakers = (Inr [], fed_breakers)" by code_simp
  show "kill_observe H sample_ts ''paper'' ''c'' (quiet_switch empty_store) = (Inr None, quiet_switch empty_store)" by code_simp
  show "kill_poll (quiet_switch empty_store) = (Inr kill_off, quiet_switch empty_store)" by code_simp
  show "killed_mints auto_config empty_store = Ok []" by code_simp
  show "standing_approvals empty_store = Ok []" by code_simp
qed

lemma idle_fold: "engine_fold auto_config 1767225600 empty_store = Ok sample_state"
proof -
  have p: "read empty_store 1 [] None None None = Ok []" "get_meta empty_store ''initial_equity_lamports'' None = None"
    "get_meta empty_store ''source'' None = None"
    by (simp_all add: read_def empty_store_def get_meta_def sql_limit_def)
  have "sol_to_lamports (rb_paper_equity_sol default_budget) = Some 10000000000"
    by (simp add: default_budget_def sol_to_lamports_def dec_mul_int_def LAMPORTS_PER_SOL_def dec_fix_def ndigits_def dec_prec_def
      dec_to_int_half_up_def nat_str.simps half_up_div_def dec_signed_def)
  then have q: "budget_equity_lamports (cf_budget auto_config) = Ok 10000000000"
    by (simp add: budget_equity_lamports_def of_option_def auto_config_def)
  have "take 10 sample_ts = ''2026-01-01''" by (simp add: sample_ts_def)
  then show ?thesis
    by (simp add: engine_fold_def p q utc_day_def idle_parts(1) fold_events_def sample_state_def)
qed

lemma sample_state_simps [simp]:
  "\<not> h_active (l_halt sample_state)" "l_positions sample_state = []" "c_trades_today (l_counters sample_state) = 0"
  "l_day_start_equity sample_state = 10000000000" "l_peak_equity sample_state = 10000000000"
  "open_count sample_state = 0" "\<not> holds sample_state m"
  by (simp_all add: sample_state_def initial_state_def no_halt_def zero_counters_def open_count_def holds_def dict_values_def)

lemma sample_equity [simp]: "equity_for_halts auto_config sample_state = 10000000000"
  by code_simp

lemma auto_config_simps [simp]:
  "cf_paper auto_config" "cf_autonomous auto_config" "cf_limits auto_config = default_limits" "cf_budget auto_config = default_budget"
  "rb_max_trades_per_day default_budget = 20" "rb_max_open_positions default_budget = 3"
  "lm_min_trade_lamports default_limits = 10000000" "rb_liquidity_floor_multiple default_budget = 10"
  "rb_max_trade_fraction default_budget = DFin False 2 (-2)" "rb_max_token_fraction default_budget = DFin False 5 (-2)"
  "rb_daily_loss_halt_fraction default_budget = DFin False 5 (-2)" "rb_drawdown_halt_fraction default_budget = DFin False 15 (-2)"
  "cf_reserves auto_config = Some (\<lambda>m. Some (100000000000, 1000000000000))" "lm_one_position_per_creator default_limits"
  by (simp_all add: auto_config_def default_limits_def default_budget_def)

definition idle_ctx :: step_ctx where
  "idle_ctx = \<lparr>cx_order = sample_buy, cx_seat = None, cx_exit_reason = None, cx_creator = None, cx_source = ''paper'', cx_cid = ''c'',
     cx_stage = ACCEPTED, cx_is_buy = True, cx_is_exit_sell = False, cx_wanted = [Human_buy], cx_state = sample_state, cx_kill = None,
     cx_open = [], cx_killed = [], cx_equity = 10000000000, cx_approvals = [], cx_half_blocked = False, cx_evaluated = [],
     cx_approval = None, cx_approval_id = None, cx_final_size = Some 500000000, cx_caps = [], cx_capped = False, cx_probe = False\<rparr>"

definition fed_engine :: engine where
  "fed_engine = idle_engine\<lparr>en_breakers := fed_breakers\<rparr>"

definition idle_probes :: probe_view where
  "idle_probes = \<lparr>pv_half_all = [], pv_owned = [], pv_half_avail = []\<rparr>"

lemma idle_self:
  "bs_store (new_breaker_set empty_store) = empty_store" "bs_store fed_breakers = empty_store"
  "(new_breaker_set empty_store)\<lparr>bs_store := empty_store\<rparr> = new_breaker_set empty_store"
  "fed_breakers\<lparr>bs_store := empty_store\<rparr> = fed_breakers"
  "(quiet_switch empty_store)\<lparr>ks_store := empty_store\<rparr> = quiet_switch empty_store"
  by (simp_all add: new_breaker_set_def fed_breakers_def quiet_switch_def new_switch_def)

lemma idle_evaluate:
  assumes "engine_fold cf 1767225600 empty_store = Ok sample_state" "equity_for_halts cf sample_state = 10000000000"
    "new_ctx H cf sample_call r None exit_reason None ''paper'' ''c'' ACCEPTED sample_state 10000000000 idle_probes fed_engine
      = (Inr c, fed_engine)"
  shows "evaluate H cf sample_call r h None exit_reason None ''paper'' ''c'' ACCEPTED idle_engine
    = walked H cf sample_call h idle_probes c fed_engine"
proof -
  have half: "List.filter (half_opened fed_breakers) BREAKER_NAMES = []" by code_simp
  have e1: "with_breakers (sync_from_ledger 1767225600) idle_engine = (Inr (), idle_engine)"
    by (simp add: with_breakers_def idle_engine_def idle_self idle_parts(2))
  have e2: "with_breakers (refresh H 1767225600 sample_ts ''paper'' ''c'' 10000000000) idle_engine = (Inr (), fed_engine)"
    by (simp add: with_breakers_def idle_engine_def fed_engine_def idle_self idle_parts(3))
  have e3: "snapshot_probes 1767225600 h fed_engine = (Inr idle_probes, fed_engine)"
    by (simp add: snapshot_probes_def drop_settled_def with_breakers_def idle_engine_def fed_engine_def idle_self idle_parts(4)
        half idle_probes_def bind_def)
  have c: "cl_now sample_call = 1767225600" "en_store idle_engine = empty_store" by (simp_all add: sample_call_def idle_engine_def)
  have t: "now_ts sample_call = Ok sample_ts" by (simp add: now_ts_def c idle_parts(1))
  show ?thesis unfolding evaluate_def by (simp add: bind_def c t e1 e2 e3 assms)
qed

lemma idle_buy_ctx: "new_ctx H auto_config sample_call sample_buy None None None ''paper'' ''c'' ACCEPTED sample_state 10000000000 idle_probes fed_engine
      = (Inr idle_ctx, fed_engine)"
  by (simp add: new_ctx_def poll_kill_def now_ts_def with_kill_def with_breakers_def idle_engine_def fed_engine_def idle_self idle_parts
      sample_call_def sample_buy_def idle_ctx_def idle_probes_def kill_off_def is_exit_sell_def reason_in_def bind_def Let_def)

section \<open>The walk\<close>

definition on_course :: "walk \<Rightarrow> bool" where
  \<comment> \<open>what every step leaves of the idle walk\<close>
  "on_course w \<longleftrightarrow> en_store (wk_engine w) = empty_store \<and> en_observe_only (wk_engine w) = [] \<and> en_degraded (wk_engine w) = None
     \<and> core (wk_ctx w) = core idle_ctx \<and> cx_state (wk_ctx w) = sample_state \<and> cx_equity (wk_ctx w) = 10000000000
     \<and> cx_final_size (wk_ctx w) \<in> {Some 500000000, Some 200000000}"

lemma for_each_passes:
  assumes "\<And>x w. x \<in> set xs \<Longrightarrow> P w \<Longrightarrow> \<exists>w'. f x w = (Inr (), w') \<and> P w'" "P w"
  obtains w' where "for_each xs f w = (Inr (), w')" "P w'"
proof -
  have "\<exists>w'. for_each xs f w = (Inr (), w') \<and> P w'" using assms
  proof (induction xs arbitrary: w)
    case (Cons x xs)
    obtain w1 where w1: "f x w = (Inr (), w1)" "P w1" using Cons.prems by (meson list.set_intros(1))
    show ?case using Cons.IH [OF _ w1(2)] Cons.prems(1) w1(1) by simp
  qed simp
  then show thesis using that by blast
qed

lemma idle_fields:
  "core (wk_ctx w) = core idle_ctx \<Longrightarrow> cx_order (wk_ctx w) = sample_buy \<and> cx_is_buy (wk_ctx w) \<and> \<not> cx_is_exit_sell (wk_ctx w)
     \<and> cx_stage (wk_ctx w) = ACCEPTED \<and> cx_seat (wk_ctx w) = None \<and> cx_exit_reason (wk_ctx w) = None \<and> cx_kill (wk_ctx w) = None
     \<and> cx_open (wk_ctx w) = [] \<and> cx_killed (wk_ctx w) = [] \<and> \<not> cx_half_blocked (wk_ctx w) \<and> cx_creator (wk_ctx w) = None"
  by (simp add: core_def idle_ctx_def)

lemma on_course_marked [simp]: "on_course (marked step w) = on_course w"
  by (simp add: on_course_def)

lemma caps: "dec_trunc (dec_mul_int (DFin False 2 (-2)) 10000000000) = Ok 200000000"
  "dec_trunc (dec_mul_int (DFin False 5 (-2)) 10000000000) = Ok 500000000"
  by (simp_all add: dec_trunc_def dec_mul_int_def dec_fix_def ndigits_def dec_prec_def nat_str.simps dec_signed_def)

lemma early_steps:
  assumes "on_course w" "step \<in> {''ledger_inconsistent'', ''kill_switch'', ''halted'', ''breaker_open'', ''live_gate''}"
  shows "\<exists>w'. run_step H auto_config sample_call step w = (Inr (), w') \<and> on_course w'"
proof -
  note w = assms(1) [unfolded on_course_def] idle_fields [of w]
  have v: "verify H empty_store = (Ok True, empty_store)" by (simp add: verify_def empty_store_def)
  have "step_ledger_inconsistent H sample_call w = (Inr (), marked ''ledger_inconsistent'' w)"
    using w by (simp add: step_ledger_inconsistent_def in_engine_def en_verify_def v)
  then show ?thesis
    using assms(2) w assms(1) by (elim insertE) (auto simp: run_step_simps quiet_steps)
qed

definition approved :: "walk \<Rightarrow> bool" where
  "approved w \<longleftrightarrow> on_course w \<and> by_engine (cx_approval (wk_ctx w))"

lemma approved_marked [simp]: "approved (marked step w) = approved w"
  by (simp add: approved_def)

lemma crockford_out_chars: "length (crockford_out n v) = n \<and> set (crockford_out n v) \<subseteq> set CROCKFORD"
proof (induction n arbitrary: v)
  case (Suc n)
  have "v AND 31 = v mod 32" using take_bit_eq_mask [of 5 v] by (simp add: take_bit_eq_mod mask_eq_exp_minus_1)
  then have "nat (v AND 31) < length CROCKFORD" by (simp add: CROCKFORD_def)
  then have "CROCKFORD ! nat (v AND 31) \<in> set CROCKFORD" by (rule nth_mem)
  then show ?case using Suc [of "drop_bit 5 v"] by simp
qed simp

lemma ulid_pattern: "ULID_RE (fst (ulid newest ms bits))"
proof -
  have "ULID_RE (crockford v 26)" for v
    using crockford_out_chars [of 26 v] by (auto simp: ULID_RE_def crockford_def list_all_iff)
  then show ?thesis by (simp add: ulid_def Let_def)
qed

lemma minted:
  obtains a s' where "mint_autonomous sample_call sample_buy None s = (Inr a, s')" "ap_approved_by a = ''risk_engine''"
    "en_store s' = en_store s" "en_observe_only s' = en_observe_only s" "en_degraded s' = en_degraded s"
proof -
  have t: "iso_now (cl_now sample_call) = Ok ''2026-01-01T00:00:00+00:00''" by code_simp
  define a where "a u = \<lparr>ap_id = ''apr-'' @ u, ap_kind = Autonomous_paper, ap_ticket_id = Some (o_ticket_id sample_buy), ap_mint = Some (o_mint sample_buy),
          ap_size_lamports = o_size_lamports sample_buy, ap_token_units = None, ap_max_slippage_bps = Some (o_max_slippage_bps sample_buy),
          ap_exit_rule_id = None, ap_approved_by = ''risk_engine'',
          ap_raw_message = ''autonomous-paper buy '' @ o_ticket_id sample_buy @ '' '' @ o_mint sample_buy,
          ap_at = ''2026-01-01T00:00:00+00:00'', ap_consumed = False\<rparr>" for u
  obtain u n where u: "ulid (en_last_ulid s) \<lfloor>fl (cl_now sample_call * 1000)\<rfloor> (en_bits s (en_drawn s)) = (u, n)" by force
  have "ULID_RE u" using ulid_pattern [of "en_last_ulid s" "\<lfloor>fl (cl_now sample_call * 1000)\<rfloor>" "en_bits s (en_drawn s)"] u by simp
  moreover have "ticket_pattern (o_ticket_id sample_buy)" by code_simp
  ultimately have ok: "validate_approval (a u) = Ok (a u)"
    by (simp add: validate_approval_def a_def approval_id_pattern_def rguard_def positive_if_given_def sample_buy_def
        human_kinds_need_human_def human_kind_def)
  have "mint_autonomous sample_call sample_buy None s = (Inr (a u), s\<lparr>en_last_ulid := n, en_drawn := Suc (en_drawn s)\<rparr>)"
    using ok by (simp add: mint_autonomous_def t fresh_ulid_def u bind_def a_def sample_buy_def)
  then show thesis using that by (simp add: a_def)
qed

lemma approval_step:
  assumes "on_course w"
  obtains w' where "run_step H auto_config sample_call ''approval_missing'' w = (Inr (), w')" "approved w'"
proof -
  note w = assms [unfolded on_course_def] idle_fields [of w]
  obtain a s' where a: "mint_autonomous sample_call sample_buy None (wk_engine w) = (Inr a, s')" "ap_approved_by a = ''risk_engine''"
    "en_store s' = en_store (wk_engine w)" "en_observe_only s' = en_observe_only (wk_engine w)" "en_degraded s' = en_degraded (wk_engine w)"
    by (rule minted)
  have "in_engine (mint_autonomous sample_call sample_buy None) (marked ''approval_missing'' w)
      = (Inr a, (marked ''approval_missing'' w)\<lparr>wk_engine := s'\<rparr>)"
    by (simp add: in_engine_def a(1))
  then have "run_step H auto_config sample_call ''approval_missing'' w = (Inr (), (marked ''approval_missing'' w)\<lparr>wk_engine := s',
      wk_ctx := (wk_ctx (marked ''approval_missing'' w))\<lparr>cx_approval := Some a, cx_approval_id := Some (ap_id a)\<rparr>\<rparr>)"
    using w by (simp add: run_step_simps step_approval_missing_def)
  moreover have "approved ((marked ''approval_missing'' w)\<lparr>wk_engine := s',
      wk_ctx := (wk_ctx (marked ''approval_missing'' w))\<lparr>cx_approval := Some a, cx_approval_id := Some (ap_id a)\<rparr>\<rparr>)"
    using assms a by (simp add: approved_def on_course_def by_engine_def core_def)
  ultimately show thesis by (rule that)
qed

lemma no_breach: "en_store s = empty_store
  \<Longrightarrow> detect_breach H auto_config sample_state 10000000000 sample_ts source cid s = (Inr None, s)"
proof -
  assume s: "en_store s = empty_store"
  have "cleared_today d empty_store = Ok False" for d
    by (simp add: cleared_today_def read_def empty_store_def sql_limit_def)
  moreover have "\<not> daily_loss_met (DFin False 5 (-2)) 10000000000 10000000000"
    "\<not> fl (dec_val (DFin False 15 (-2))) \<le> drawdown_of 10000000000 10000000000" by code_simp+
  ultimately show ?thesis using s by (simp add: detect_breach_def bind_def Let_def)
qed

lemma sample_now: "now_ts sample_call = Ok sample_ts" "engine_fold auto_config (cl_now sample_call) empty_store = Ok sample_state"
  "creator_of m sample_state empty_store = Ok []"
  using idle_fold by (simp_all add: now_ts_def sample_call_def idle_parts(1) creator_of_def read_def empty_store_def
      sql_limit_def or_default_def)

lemma breach_step: "en_store (wk_engine w) = empty_store
  \<Longrightarrow> in_engine (detect_breach H auto_config sample_state 10000000000 sample_ts source cid) w = (Inr None, w)"
  using no_breach by (simp add: in_engine_def)

lemma approved_ctx: "approved w \<Longrightarrow> on_course (w\<lparr>wk_ctx := c\<rparr>) \<Longrightarrow> cx_approval c = cx_approval (wk_ctx w) \<Longrightarrow> approved (w\<lparr>wk_ctx := c\<rparr>)"
  by (simp add: approved_def)

lemma size_steps:
  assumes "approved w"
  shows "\<exists>w'. step_creator_already_open auto_config w = (Inr (), w') \<and> approved w'"
    "\<exists>w'. step_max_trade_fraction auto_config w = (Inr (), w') \<and> approved w'"
    "\<exists>w'. step_max_token_fraction auto_config w = (Inr (), w') \<and> approved w'"
    "\<exists>w'. step_size_too_small auto_config w = (Inr (), w') \<and> approved w'"
    "\<exists>w'. step_below_liquidity_floor auto_config w = (Inr (), w') \<and> approved w'"
proof -
  note w = assms [unfolded approved_def on_course_def]
  then have c: "core (wk_ctx w) = core idle_ctx" by simp
  note i = idle_fields [OF c]
  obtain n where n: "cx_final_size (wk_ctx w) = Some n" "n = 500000000 \<or> n = 200000000" using w by auto
  show "\<exists>w'. step_creator_already_open auto_config w = (Inr (), w') \<and> approved w'"
    using w i assms by (simp add: step_creator_already_open_def sample_now)
  have capped: "approved ((marked step w)\<lparr>wk_ctx := cap_size name 200000000 (wk_ctx (marked step w))\<rparr>)" for step name
    using assms by (simp add: approved_def on_course_def cap_size_def core_def)
  show "\<exists>w'. step_max_trade_fraction auto_config w = (Inr (), w') \<and> approved w'"
    using w i n assms capped by (auto simp: step_max_trade_fraction_def sized_def caps)
  show "\<exists>w'. step_max_token_fraction auto_config w = (Inr (), w') \<and> approved w'"
    using w i n assms by (auto simp: step_max_token_fraction_def sized_def caps Let_def)
  show "\<exists>w'. step_size_too_small auto_config w = (Inr (), w') \<and> approved w'"
    using w i n assms by (auto simp: step_size_too_small_def sized_def)
  show "\<exists>w'. step_below_liquidity_floor auto_config w = (Inr (), w') \<and> approved w'"
    using w i n assms by (auto simp: step_below_liquidity_floor_def sized_def Let_def)
qed

lemma halt_steps:
  assumes "approved w"
  shows "\<exists>w'. step_daily_loss_halt H auto_config sample_call w = (Inr (), w') \<and> approved w'"
    "\<exists>w'. step_drawdown_halt H auto_config sample_call w = (Inr (), w') \<and> approved w'"
proof -
  note w = assms [unfolded approved_def on_course_def]
  show "\<exists>w'. step_daily_loss_halt H auto_config sample_call w = (Inr (), w') \<and> approved w'"
    using w assms by (simp add: step_daily_loss_halt_def sample_now breach_step)
  let ?c = "(wk_ctx (marked ''drawdown_halt'' w))\<lparr>cx_state := sample_state, cx_equity := 10000000000\<rparr>"
  have "approved ((marked ''drawdown_halt'' w)\<lparr>wk_ctx := ?c\<rparr>)"
    using assms by (simp add: approved_def on_course_def core_def)
  then show "\<exists>w'. step_drawdown_halt H auto_config sample_call w = (Inr (), w') \<and> approved w'"
    using w by (simp add: step_drawdown_halt_def sample_now breach_step)
qed

lemma late_steps:
  assumes "approved w" "step \<in> set (drop 6 STEP_IDS)"
  shows "\<exists>w'. run_step H auto_config sample_call step w = (Inr (), w') \<and> approved w'"
proof -
  note w = assms(1) [unfolded approved_def on_course_def]
  then have c: "core (wk_ctx w) = core idle_ctx" by simp
  note i = idle_fields [OF c]
  have "step \<in> {''approval_mismatch'', ''seat_may_trade'', ''max_trades_per_day'', ''max_open_positions'', ''already_open'', ''data_stale''}
     \<or> step \<in> {''creator_already_open'', ''max_trade_fraction'', ''max_token_fraction'', ''size_too_small'', ''below_liquidity_floor''}
     \<or> step \<in> {''daily_loss_halt'', ''drawdown_halt''}"
    using assms(2) by (auto simp: STEP_IDS_def)
  then show ?thesis
  proof (elim disjE)
    assume "step \<in> {''approval_mismatch'', ''seat_may_trade'', ''max_trades_per_day'', ''max_open_positions'', ''already_open'', ''data_stale''}"
    then show ?thesis using w i assms(1)
      by (elim insertE) (simp_all add: run_step_simps quiet_steps quiet_seat sample_call_def)
  next
    assume "step \<in> {''creator_already_open'', ''max_trade_fraction'', ''max_token_fraction'', ''size_too_small'', ''below_liquidity_floor''}"
    then show ?thesis using size_steps [OF assms(1)] by (elim insertE) (simp_all add: run_step_simps)
  next
    assume "step \<in> {''daily_loss_halt'', ''drawdown_halt''}"
    then show ?thesis using halt_steps [OF assms(1)] by (elim insertE) (simp_all add: run_step_simps)
  qed
qed

lemma quiet_stages:
  obtains w' where "stages_of_walk H auto_config sample_call h idle_probes \<lparr>wk_engine = fed_engine, wk_ctx = idle_ctx\<rparr> = (Inr (), w')"
proof -
  let ?run = "\<lambda>step. bind get_ctx (\<lambda>c. if skip_step step c then ret () else run_step H auto_config sample_call step)"
  have noskip: "?run step w = run_step H auto_config sample_call step w" if "on_course w" for step w
    using idle_fields [of w] that by (simp add: on_course_def skip_step_def)
  have split: "STEP_IDS = take 5 STEP_IDS @ ''approval_missing'' # drop 6 STEP_IDS" by (simp add: STEP_IDS_def)
  have start: "on_course \<lparr>wk_engine = fed_engine, wk_ctx = idle_ctx\<rparr>"
    by (simp add: on_course_def fed_engine_def idle_engine_def idle_ctx_def)
  obtain w1 where w1: "for_each (take 5 STEP_IDS) ?run \<lparr>wk_engine = fed_engine, wk_ctx = idle_ctx\<rparr> = (Inr (), w1)" "on_course w1"
  proof (rule for_each_passes [of _ on_course ?run])
    show "\<exists>w'. ?run step w = (Inr (), w') \<and> on_course w'" if "step \<in> set (take 5 STEP_IDS)" "on_course w" for step w
      using early_steps [OF that(2), of step] that noskip by (auto simp: STEP_IDS_def)
  qed (rule start)
  obtain w2 where w2: "?run ''approval_missing'' w1 = (Inr (), w2)" "approved w2"
    using approval_step [OF w1(2)] noskip [OF w1(2)] by metis
  obtain w3 where w3: "for_each (drop 6 STEP_IDS) ?run w2 = (Inr (), w3)" "approved w3"
  proof (rule for_each_passes [of _ approved ?run])
    show "\<exists>w'. ?run step w = (Inr (), w') \<and> approved w'" if "step \<in> set (drop 6 STEP_IDS)" "approved w" for step w
      using late_steps [OF that(2,1)] noskip [of w] that(2) by (simp add: approved_def)
  qed (rule w2(2))
  have app: "for_each (xs @ ys) f = bind (for_each xs f) (\<lambda>_. for_each ys f)" for xs ys and f :: "string \<Rightarrow> (walk, unit) eff"
    by (induction xs) (auto simp: bind_def fun_eq_iff split: prod.splits sum.splits)
  have "walk_steps H auto_config sample_call \<lparr>wk_engine = fed_engine, wk_ctx = idle_ctx\<rparr> = (Inr (), w3)"
    unfolding walk_steps_def by (subst split) (simp add: app w1(1) w2(1) w3(1))
  moreover have "confirm_holding w3 = (Inr (), w3)"
    using idle_fields [of w3] w3(2) by (simp add: confirm_holding_def approved_def on_course_def)
  moreover have "claim_probe (cl_now sample_call) h idle_probes w3 = (Inr (), w3)"
    by (simp add: claim_probe_def idle_probes_def)
  ultimately have "stages_of_walk H auto_config sample_call h idle_probes \<lparr>wk_engine = fed_engine, wk_ctx = idle_ctx\<rparr> = (Inr (), w3)"
    by (simp add: stages_of_walk_def)
  then show thesis by (rule that)
qed

lemma quiet_buy_passes:
  obtains d s' where "evaluate H auto_config sample_call sample_buy h None None None ''paper'' ''c'' ACCEPTED idle_engine = (Ok d, s')"
    "d_passed d"
proof -
  obtain w' where "stages_of_walk H auto_config sample_call h idle_probes \<lparr>wk_engine = fed_engine, wk_ctx = idle_ctx\<rparr> = (Inr (), w')"
    by (rule quiet_stages)
  then have "walked H auto_config sample_call h idle_probes idle_ctx fed_engine = (Ok (decide h (wk_ctx w') None), wk_engine w')"
    by (simp add: walked_def)
  then show thesis using that [of "decide h (wk_ctx w') None" "wk_engine w'"] by (simp add: idle_evaluate [OF idle_fold sample_equity idle_buy_ctx] decide_def)
qed

section \<open>Properties\<close>

text \<open>
  C6: a passed buy met every gate. When an accepted-stage evaluation of a buy passes, the readings it took
  of that engine (\<open>take_readings\<close>) succeeded and met the nineteen steps: the chain verified, no kill source,
  halt, open breaker, kill verdict on the mint, blocked probe or degraded reputation book; the live gate
  clear; the approval minted by the engine, or on the ledger under the presented id and binding the order;
  the buying seat asked, and neither it nor the risk or exit seat is latched to observing; the day's trades,
  the open positions, the mint and the creator below their limits; no daily loss on the state read, and on
  the ledger folded again behind it no drawdown (unless halts were cleared today, or a daily loss shows first)
  and a fresh mark on every held mint; and the size granted is at least the minimum, at most what was asked
  and the two caps of the budget, and at most the curve's reserves over the liquidity multiple.
\<close>

theorem passed_buy_met_every_gate:
  assumes "evaluate H cf cl r order_hash seat exit_reason creator source cid ACCEPTED s = (Ok d, s')" "d_passed d" "o_side r = BUY"
  shows "\<exists>rd s0 n. take_readings H cf cl order_hash source cid s = (Ok rd, s0)
    \<and> d_size_lamports d = Some n \<and> d_token_units d = None
    \<and> gates_met H cf cl r seat exit_reason creator source cid rd s0 (d_approval d) n"
proof -
  obtain rd c s0 where e: "take_readings H cf cl order_hash source cid s = (Ok rd, s0)"
    "reads_of c r seat exit_reason creator source cid cf rd" "cx_stage c = ACCEPTED" "cx_is_buy c" "\<not> cx_is_exit_sell c"
    "walked H cf cl order_hash (rd_view rd) c s0 = (Ok d, s')"
    by (rule evaluate_buy_Ok [OF assms(1,3)])
  obtain w' where w': "stages_of_walk H cf cl order_hash (rd_view rd) \<lparr>wk_engine = s0, wk_ctx = c\<rparr> = (Inr (), w')"
    "d = decide order_hash (wk_ctx w') None"
    by (rule walked_passed [OF e(6) assms(2)])
  then obtain w1 w2 where w: "walk_steps H cf cl \<lparr>wk_engine = s0, wk_ctx = c\<rparr> = (Inr (), w1)"
    "confirm_holding w1 = (Inr (), w2)" "claim_probe (cl_now cl) order_hash (rd_view rd) w2 = (Inr (), w')"
    by (auto simp: stages_of_walk_def bind_Ok_iff)
  obtain n where n: "cx_final_size (wk_ctx w1) = Some n" "core (wk_ctx w1) = core c"
    "gates_met H cf cl r seat exit_reason creator source cid rd s0 (cx_approval (wk_ctx w1)) n"
    using buy_walk_Ok [OF w(1), of r seat exit_reason creator source cid rd] e(2-5) by auto
  note fin = claim_ctx [OF w(3)] confirm_Ok [OF w(2)]
  have "cx_is_buy (wk_ctx w')" using core_fields(6) [OF fin(3)] core_fields(6) [OF n(2)] e(4) fin(4) by simp
  then have "d_size_lamports d = Some n" "d_token_units d = None" "d_approval d = cx_approval (wk_ctx w1)"
    using w'(2) n(1) fin by (simp_all add: decide_def)
  then show ?thesis using e(1) n(3) by metis
qed

theorem passed_buy_met_every_gate_witness:
  "\<exists>d s'. evaluate (\<lambda>s. s) auto_config sample_call sample_buy ''h'' None None None ''paper'' ''c'' ACCEPTED idle_engine = (Ok d, s')
    \<and> d_passed d \<and> d_token_units d = None"
proof -
  obtain d s' where d: "evaluate (\<lambda>s. s) auto_config sample_call sample_buy ''h'' None None None ''paper'' ''c'' ACCEPTED idle_engine = (Ok d, s')"
    "d_passed d" by (rule quiet_buy_passes)
  have "o_side sample_buy = BUY" by (simp add: sample_buy_def)
  from passed_buy_met_every_gate [OF d this] d show ?thesis by blast
qed

section \<open>An exit sell\<close>

text \<open>
  C8: an exit is never stopped by the guards that stop a buy. When a sell asked for by an exit reason is
  evaluated, at either stage and whatever the state of the desk, it passes or is refused for one of six
  reasons: a broken ledger chain, the live gate, a missing or mismatched approval, the wrong seat, or a
  holding already gone. Kill switch, halts, breakers, stale marks and size limits do not block it.
\<close>

theorem exit_sell_blocked_only_by:
  assumes "evaluate H cf cl r order_hash seat exit_reason creator source cid stage s = (Ok d, s')"
    "o_side r = SELL" "reason_in exit_reason EXIT_SELL_REASONS"
  shows "d_passed d \<or> d_reason d \<in> set EXIT_REFUSALS"
proof -
  obtain state v s1 c s2 where e:
    "new_ctx H cf cl r seat exit_reason creator source cid stage state (equity_for_halts cf state) v s1 = (Ok c, s2)"
    "walked H cf cl order_hash v c s2 = (Ok d, s')"
    by (rule evaluate_Ok [OF assms(1)])
  have c: "cx_is_exit_sell c" using new_ctx_fields(3) [OF e(1)] assms(2,3) by (simp add: is_exit_sell_def)
  show ?thesis
  proof (cases "stages_of_walk H cf cl order_hash v \<lparr>wk_engine = s2, wk_ctx = c\<rparr>")
    case (Pair out w)
    show ?thesis
    proof (cases out)
      case (Inl err)
      then have "refusal err \<in> {None} \<union> Some ` set EXIT_REFUSALS"
        using exit_stages_refuse [of "\<lparr>wk_engine = s2, wk_ctx = c\<rparr>" H cf cl order_hash v err w] Pair c by simp
      then show ?thesis using e(2) Pair Inl by (cases err) (auto simp: walked_def decide_def)
    qed (use e(2) Pair in \<open>auto simp: walked_def decide_def\<close>)
  qed
qed

definition sample_exit :: order_request where
  "sample_exit = sample_buy\<lparr>o_side := SELL, o_size_lamports := None, o_token_units := Some 5\<rparr>"

definition gated_config :: engine_config where
  "gated_config = auto_config\<lparr>cf_paper := False\<rparr>"

theorem exit_sell_blocked_only_by_witness:
  "\<exists>d s'. evaluate (\<lambda>s. s) gated_config sample_call sample_exit ''h'' None (Some ''kill_flatten'') None ''paper'' ''c'' ACCEPTED idle_engine
      = (Ok d, s') \<and> \<not> d_passed d \<and> d_reason d = ''live_gate'' \<and> d_reason d \<in> set EXIT_REFUSALS"
proof -
  have "engine_fold gated_config = engine_fold auto_config"
    by (simp add: engine_fold_def gated_config_def fun_eq_iff cong: option.case_cong)
  then have f: "engine_fold gated_config 1767225600 empty_store = Ok sample_state" using idle_fold by simp
  have q: "equity_for_halts gated_config sample_state = 10000000000"
    using sample_equity by (simp add: equity_for_halts_def gated_config_def)
  define c where "c = idle_ctx\<lparr>cx_order := sample_exit, cx_exit_reason := Some ''kill_flatten'', cx_is_buy := False, cx_is_exit_sell := True,
    cx_wanted := [Human_sell, Exit_rule], cx_final_size := None\<rparr>"
  have n: "new_ctx (\<lambda>s. s) gated_config sample_call sample_exit None (Some ''kill_flatten'') None ''paper'' ''c'' ACCEPTED sample_state
      10000000000 idle_probes fed_engine = (Inr c, fed_engine)"
    by (simp add: new_ctx_def poll_kill_def now_ts_def with_kill_def with_breakers_def idle_engine_def fed_engine_def idle_self idle_parts
      sample_call_def sample_exit_def sample_buy_def idle_ctx_def c_def idle_probes_def kill_off_def is_exit_sell_def reason_in_def
      EXIT_SELL_REASONS_def bind_def Let_def)
  have v: "verify (\<lambda>s. s) empty_store = (Ok True, empty_store)" by (simp add: verify_def empty_store_def)
  have x: "cx_is_exit_sell c" "cx_stage c = ACCEPTED" by (simp_all add: c_def idle_ctx_def)
  have "\<exists>w. walk_steps (\<lambda>s. s) gated_config sample_call \<lparr>wk_engine = fed_engine, wk_ctx = c\<rparr> = (Inl (StepFail ''live_gate'' ''unmet=adapter_registered''), w)"
    unfolding walk_steps_def STEP_IDS_def
    by (simp add: skip_step_def x EXIT_SKIP_STEPS_def run_step_simps step_ledger_inconsistent_def in_engine_def en_verify_def
        v fed_engine_def idle_engine_def step_live_gate_def gated_config_def auto_config_def commas_def bind_def)
  then obtain d s' where d: "evaluate (\<lambda>s. s) gated_config sample_call sample_exit ''h'' None (Some ''kill_flatten'') None ''paper'' ''c'' ACCEPTED
      idle_engine = (Ok d, s')" "\<not> d_passed d" "d_reason d = ''live_gate''"
    using idle_evaluate [OF f q n, of "''h''"] by (auto simp: walked_def stages_of_walk_def decide_def)
  have "o_side sample_exit = SELL" "reason_in (Some ''kill_flatten'') EXIT_SELL_REASONS"
    by (simp_all add: sample_exit_def reason_in_def EXIT_SELL_REASONS_def)
  from exit_sell_blocked_only_by [OF d(1) this] d show ?thesis by blast
qed

end
