(* ===== verification/Settlement.thy ===== *)
theory Settlement
  imports AdapterGrowth LedgerReads
begin

text \<open>
  What the rows of a settled order do to the ledger fold: a batch that is accepted is read back behind
  the old rows, with the payload it was given, and the fold of the new ledger is the old fold carried
  through the new rows.
\<close>

section \<open>Rows read back\<close>

definition carries :: "ledger_row \<Rightarrow> entry \<Rightarrow> bool" where
  "carries r x \<longleftrightarrow> r_type r = x_type x \<and> r_ts r = x_ts x \<and> r_cid r = x_cid x
     \<and> validated_payload (x_type x) (x_payload x) = Ok (r_payload r)"

lemma envelope_Ok: "check_envelope (envelope x) = Ok y \<Longrightarrow> y = x"
  by (auto simp: check_envelope_def envelope_def assert_str_def rbind_Ok_iff rguard_def split: if_splits)

lemma append_all_carries:
  assumes "append_all H st (map envelope xs) = Ok (rows, st')"
  shows "events st' = events st @ rows \<and> list_all2 carries rows xs \<and> meta st' = meta st"
  using assms
proof (induction xs arbitrary: st rows)
  case (Cons x xs)
  obtain y where "check_envelope (envelope x) = Ok y"
    using Cons.prems by (cases "check_envelope (envelope x)") simp_all
  then have y: "check_envelope (envelope x) = Ok x" using envelope_Ok by blast
  obtain res st1 where a: "append H st x = (res, st1)" by force
  obtain r where r: "res = Inr r" using Cons.prems y a by (cases res) simp_all
  obtain rows1 where t: "append_all H st1 (map envelope xs) = Ok (rows1, st')" "rows = r # rows1"
    using Cons.prems y a r by (auto simp: rbind_Ok_iff)
  have p: "events st1 = events st @ [r]" "carries r x"
    using ledger.put_ok [of H st x r st1] a r by (simp_all add: carries_def)
  have "meta st1 = meta st" using a r by (auto elim: append_Ok)
  then show ?case using Cons.IH [OF t(1)] t(2) p by simp
qed simp

lemma batch_carries:
  assumes "append_batch H st (map envelope xs) = (Ok rows, st')"
  shows "events st' = events st @ rows" "list_all2 carries rows xs" "meta st' = meta st"
proof -
  have "append_all H st (map envelope xs) = Ok (rows, st')"
  proof (cases "inconsistent st")
    case True
    then have "xs = []" using assms by (auto simp: append_batch_def split: if_splits)
    then show ?thesis using assms by (simp add: append_batch_def)
  next
    case False
    from append_batch_sequential [OF this, of H "map envelope xs"] assms show ?thesis by (auto split: sum.splits)
  qed
  from append_all_carries [OF this]
  show "events st' = events st @ rows" "list_all2 carries rows xs" "meta st' = meta st" by simp_all
qed

lemma carried_row:
  assumes "carries r x" "event_type_of_str (x_type x) = Some t"
  obtains "event_type_of_str (e_type (parsed r)) = Some t" "payload_of t (x_payload x) (event_row (parsed r))"
    "typed_row (event_model t) (event_row (parsed r))"
proof -
  have v: "validated_payload (r_type r) (x_payload x) = Ok (r_payload r)" "event_type_of_str (r_type r) = Some t"
    using assms by (simp_all add: carries_def)
  obtain kvs where "e_payload (parsed r) = JObj kvs" "payload_of t (x_payload x) kvs" "typed_row (event_model t) kvs"
    by (rule stored_payload [OF v])
  then show thesis using v(2) that by (simp add: event_row_def)
qed

section \<open>The fold carried on\<close>

lemma fold_of_more:
  assumes "reachable H st" "reachable H st'" "events st' = events st @ rows" "meta st' = meta st"
    "fold_of cf cl st = Ok s"
  shows "fold_of cf cl st' = fold_events s (map parsed rows)"
proof -
  note r = read_everything [OF reachable_store_ok [OF assms(1)]] read_everything [OF reachable_store_ok [OF assms(2)]]
  have m: "get_meta st' = get_meta st" using assms(4) by (simp add: get_meta_def fun_eq_iff)
  obtain e0 day where "(case get_meta st ''initial_equity_lamports'' None of
        Some m \<Rightarrow> of_option (ValueError ''invalid literal for int()'') (int_of_str m)
      | None \<Rightarrow> budget_equity_lamports (ac_budget cf)) = Ok e0" "utc_day (cl_now cl) = Ok day"
    "fold_events (initial_state (ac_source cf) e0 day) (map parsed (events st)) = Ok s"
    using assms(5) by (auto simp: fold_of_def rbind_Ok_iff r)
  then show ?thesis using assms(3) by (simp add: fold_of_def m r fold_events_def rfold_append)
qed

section \<open>Position rows\<close>

lemma stored_field:
  assumes "payload_of t payload kvs" "(name, ty, dflt) \<in> set (event_model t)" "map_of payload name = Some v" "dump_value ty v = Some j"
  shows "map_of kvs name = Some j"
  using payload_of_field [OF assms(1,2)] assms(3,4) by auto

lemma fill_fields:
  "(''side'', FStr, None) \<in> set (event_model FillRecorded)" "(''mint'', FStr, None) \<in> set (event_model FillRecorded)"
  "(''filled_units'', FMoney, None) \<in> set (event_model FillRecorded)"
  "(''venue_fee_lamports'', FMoney, Some (JInt 0)) \<in> set (event_model FillRecorded)"
  "(''network_cost_lamports'', FMoney, Some (JInt 0)) \<in> set (event_model FillRecorded)"
  "(''cash_delta_lamports'', FMoney, Some (JInt 0)) \<in> set (event_model FillRecorded)"
  by (simp_all add: event_model_def fill_recorded_fields_def)

lemma fill_row:
  assumes "payload_of FillRecorded payload kvs"
    "map_of payload ''side'' = Some (PStr sd)" "map_of payload ''mint'' = Some (PStr mint)"
    "map_of payload ''filled_units'' = Some (PInt units)" "map_of payload ''venue_fee_lamports'' = Some (PInt venue)"
    "map_of payload ''network_cost_lamports'' = Some (PInt network)" "map_of payload ''cash_delta_lamports'' = Some (PInt delta)"
  shows "row_str kvs ''side'' d = Ok sd" "row_str kvs ''mint'' d = Ok mint" "row_int kvs ''filled_units'' i = Ok units"
    "row_int kvs ''venue_fee_lamports'' i = Ok venue" "row_int kvs ''network_cost_lamports'' i = Ok network"
    "row_int kvs ''cash_delta_lamports'' i = Ok delta"
proof -
  note f = stored_field [OF assms(1)]
  show "row_str kvs ''side'' d = Ok sd" using f [OF fill_fields(1) assms(2)] by (simp add: dump_value_def)
  show "row_str kvs ''mint'' d = Ok mint" using f [OF fill_fields(2) assms(3)] by (simp add: dump_value_def)
  show "row_int kvs ''filled_units'' i = Ok units" using f [OF fill_fields(3) assms(4)] by (simp add: dump_value_def)
  show "row_int kvs ''venue_fee_lamports'' i = Ok venue" using f [OF fill_fields(4) assms(5)] by (simp add: dump_value_def)
  show "row_int kvs ''network_cost_lamports'' i = Ok network" using f [OF fill_fields(5) assms(6)] by (simp add: dump_value_def)
  show "row_int kvs ''cash_delta_lamports'' i = Ok delta" using f [OF fill_fields(6) assms(7)] by (simp add: dump_value_def)
qed

lemma sale_reduced:
  assumes "carries r x" "x_type x = ''FillRecorded''"
    "map_of (x_payload x) ''side'' = Some (PStr ''sell'')" "map_of (x_payload x) ''mint'' = Some (PStr mint)"
    "map_of (x_payload x) ''filled_units'' = Some (PInt units)" "map_of (x_payload x) ''venue_fee_lamports'' = Some (PInt venue)"
    "map_of (x_payload x) ''network_cost_lamports'' = Some (PInt network)"
    "map_of (x_payload x) ''cash_delta_lamports'' = Some (PInt delta)"
    "map_of (l_positions s) mint = Some q" "p_token_units q > 0" "units > 0"
  obtains s' where "reduce s (parsed r) = Ok s'" "l_cash s' = l_cash s + delta"
    "l_positions s' = dict_set (l_positions s) mint (sold_position q units (delta + network))"
proof -
  have ty: "event_type_of_str (x_type x) = Some FillRecorded" unfolding assms(2) by code_simp
  obtain row: "event_type_of_str (e_type (parsed r)) = Some FillRecorded" "payload_of FillRecorded (x_payload x) (event_row (parsed r))"
    by (rule carried_row [OF assms(1) ty])
  note k = fill_row [OF row(2) assms(3-8)]
  obtain s1 where "handler FillRecorded s (event_row (parsed r)) (e_ts (parsed r)) (e_cid (parsed r)) = Ok s1" "l_cash s1 = l_cash s + delta"
    "l_positions s1 = dict_set (l_positions s) mint (sold_position q units (delta + network))"
    by (simp add: handler_def on_fill_def k fill_position_def assms(9-11) Let_def track_peak_eq)
  then show thesis using that [of "s1\<lparr>l_seq := e_seq (parsed r)\<rparr>"] by (simp add: reduce_def row(1) del: parsed_simps)
qed

lemma closed_reduced:
  assumes "carries r x" "x_type x = ''PositionClosed''"
    "map_of (x_payload x) ''mint'' = Some (PStr mint)" "map_of (x_payload x) ''realized_pnl_lamports'' = Some (PInt realized)"
  obtains s' where "reduce s (parsed r) = Ok s'" "l_cash s' = l_cash s" "l_positions s' = dict_pop (l_positions s) mint"
proof -
  have ty: "event_type_of_str (x_type x) = Some PositionClosed" unfolding assms(2) by code_simp
  obtain row: "event_type_of_str (e_type (parsed r)) = Some PositionClosed" "payload_of PositionClosed (x_payload x) (event_row (parsed r))"
    by (rule carried_row [OF assms(1) ty])
  have "map_of (event_row (parsed r)) ''mint'' = Some (JStr mint)"
    by (rule stored_field [OF row(2) _ assms(3), of FStr None]) (simp_all add: event_model_def position_closed_fields_def dump_value_def)
  moreover have "map_of (event_row (parsed r)) ''realized_pnl_lamports'' = Some (JInt realized)"
    by (rule stored_field [OF row(2) _ assms(4), of FMoney None]) (simp_all add: event_model_def position_closed_fields_def dump_value_def)
  ultimately obtain s1 where "handler PositionClosed s (event_row (parsed r)) (e_ts (parsed r)) (e_cid (parsed r)) = Ok s1"
    "l_cash s1 = l_cash s" "l_positions s1 = dict_pop (l_positions s) mint"
    by (simp add: handler_def on_position_closed_def Let_def track_peak_eq)
  then show thesis using that [of "s1\<lparr>l_seq := e_seq (parsed r)\<rparr>"] by (simp add: reduce_def row(1) del: parsed_simps)
qed

lemma bought_reduced:
  assumes "carries r x" "x_type x = ''FillRecorded''"
    "map_of (x_payload x) ''side'' = Some (PStr ''buy'')" "map_of (x_payload x) ''mint'' = Some (PStr mint)"
    "map_of (x_payload x) ''filled_units'' = Some (PInt units)" "map_of (x_payload x) ''venue_fee_lamports'' = Some (PInt venue)"
    "map_of (x_payload x) ''network_cost_lamports'' = Some (PInt network)"
    "map_of (x_payload x) ''cash_delta_lamports'' = Some (PInt delta)"
  obtains s' where "reduce s (parsed r) = Ok s'" "l_cash s' = l_cash s + delta"
    "map_of (l_positions s') = (case map_of (l_positions s) mint of None \<Rightarrow> map_of (l_positions s)
       | Some q \<Rightarrow> (map_of (l_positions s))(mint \<mapsto> bought_position q units delta (venue + network)))"
proof -
  have ty: "event_type_of_str (x_type x) = Some FillRecorded" unfolding assms(2) by code_simp
  obtain row: "event_type_of_str (e_type (parsed r)) = Some FillRecorded" "payload_of FillRecorded (x_payload x) (event_row (parsed r))"
    by (rule carried_row [OF assms(1) ty])
  note k = fill_row [OF row(2) assms(3-8)]
  obtain s1 where "handler FillRecorded s (event_row (parsed r)) (e_ts (parsed r)) (e_cid (parsed r)) = Ok s1" "l_cash s1 = l_cash s + delta"
    "map_of (l_positions s1) = (case map_of (l_positions s) mint of None \<Rightarrow> map_of (l_positions s)
       | Some q \<Rightarrow> (map_of (l_positions s))(mint \<mapsto> bought_position q units delta (venue + network)))"
    by (cases "map_of (l_positions s) mint")
      (simp_all add: handler_def on_fill_def k fill_position_def Let_def track_peak_eq update_conv')
  then show thesis using that [of "s1\<lparr>l_seq := e_seq (parsed r)\<rparr>"] by (simp add: reduce_def row(1) del: parsed_simps)
qed

lemma opened_reduced:
  assumes "carries r x" "x_type x = ''PositionOpened''"
    "map_of (x_payload x) ''mint'' = Some (PStr mint)" "mint \<noteq> []" "map_of (x_payload x) ''token_units'' = Some (PInt units)"
    "map_of (x_payload x) ''cost_basis_lamports'' = Some (PInt cost)" "map_of (x_payload x) ''opened_ts_utc'' = Some (PStr opened)"
  obtains s' q where "reduce s (parsed r) = Ok s'" "l_cash s' = l_cash s"
    "map_of (l_positions s') = (map_of (l_positions s))(mint \<mapsto> q)" "p_token_units q = units" "p_cost_basis q = cost"
    "p_opened_ts q = opened" "\<not> p_mtm_frozen q"
proof -
  have ty: "event_type_of_str (x_type x) = Some PositionOpened" unfolding assms(2) by code_simp
  obtain row: "event_type_of_str (e_type (parsed r)) = Some PositionOpened" "payload_of PositionOpened (x_payload x) (event_row (parsed r))"
    and typed: "typed_row position_opened_fields (event_row (parsed r))"
    by (rule carried_row [OF assms(1) ty]) (simp add: event_model_def)
  have f: "map_of (event_row (parsed r)) ''mint'' = Some (JStr mint)"
    by (rule stored_field [OF row(2) _ assms(3), of FStr None]) (simp_all add: event_model_def position_opened_fields_def dump_value_def)
  have g: "map_of (event_row (parsed r)) ''token_units'' = Some (JInt units)"
    by (rule stored_field [OF row(2) _ assms(5), of FMoney None]) (simp_all add: event_model_def position_opened_fields_def dump_value_def)
  have h: "map_of (event_row (parsed r)) ''cost_basis_lamports'' = Some (JInt cost)"
    by (rule stored_field [OF row(2) _ assms(6), of FMoney None]) (simp_all add: event_model_def position_opened_fields_def dump_value_def)
  have i: "map_of (event_row (parsed r)) ''opened_ts_utc'' = Some (JStr opened)"
    by (rule stored_field [OF row(2) _ assms(7), of FStr None]) (simp_all add: event_model_def position_opened_fields_def dump_value_def)
  note st = typed_row_str_ok [OF typed]
  obtain symbol where symbol: "row_str (event_row (parsed r)) ''symbol'' [] = Ok symbol"
    using st by (fastforce simp: position_opened_fields_def)
  obtain creator where creator: "row_str (event_row (parsed r)) ''creator'' [] = Ok creator"
    using st by (fastforce simp: position_opened_fields_def)
  obtain ticket where ticket: "row_str (event_row (parsed r)) ''ticket_id'' [] = Ok ticket"
    using st by (fastforce simp: position_opened_fields_def)
  obtain price where price: "price_of_json (row_get (event_row (parsed r)) ''price_entry'' (JStr ''0'')) = Ok price"
    using typed_row_price_ok [OF typed, of "''price_entry''" None] by (auto simp: position_opened_fields_def)
  obtain s1 q where "handler PositionOpened s (event_row (parsed r)) (e_ts (parsed r)) (e_cid (parsed r)) = Ok s1" "l_cash s1 = l_cash s"
    "map_of (l_positions s1) = (map_of (l_positions s))(mint \<mapsto> q)" "p_token_units q = units" "p_cost_basis q = cost" "p_opened_ts q = opened"
    "\<not> p_mtm_frozen q"
    using f g h i assms(4)
    by (simp add: handler_def on_position_opened_def symbol creator ticket price Let_def track_peak_eq update_conv')
  then show thesis using that [of "s1\<lparr>l_seq := e_seq (parsed r)\<rparr>" q] by (simp add: reduce_def row(1) del: parsed_simps)
qed

lemma noted_reduced:
  assumes "carries r x" "x_type x = ''Escalation''"
  obtains s' where "reduce s (parsed r) = Ok s'" "l_cash s' = l_cash s" "l_positions s' = l_positions s"
proof -
  have ty: "event_type_of_str (x_type x) = Some Escalation" unfolding assms(2) by code_simp
  obtain row: "event_type_of_str (e_type (parsed r)) = Some Escalation"
    by (rule carried_row [OF assms(1) ty])
  show thesis
    by (rule that [of "s\<lparr>l_seq := e_seq (parsed r)\<rparr>"]) (simp_all add: reduce_def row handler_def on_noop_def del: parsed_simps)
qed

section \<open>Settling a sell\<close>

lemma settle_sell_cases:
  assumes "settle_sell H cl r p curve0 curve1 latency pos f exit_reason source cid s = (Ok fill, s')"
  obtains rows done_rows st' where "sell_rows cl r p curve0 curve1 latency pos f exit_reason source cid = Ok rows"
    "append_batch H (pa_store s) (map envelope rows) = (Ok done_rows, st')" "pa_store s' = st'"
    "fi_order_id fill = sp_order_id p" "fi_filled_lamports fill = sf_proceeds f" "fi_filled_units fill = sp_filled_units p"
    "fi_seq fill = seq_of_first done_rows"
proof -
  obtain rows where rows: "sell_rows cl r p curve0 curve1 latency pos f exit_reason source cid = Ok rows"
    using assms by (cases "sell_rows cl r p curve0 curve1 latency pos f exit_reason source cid")
      (simp_all add: settle_sell_def bind_def)
  obtain res st' where b: "append_batch H (pa_store s) (map envelope rows) = (res, st')" by force
  obtain done_rows where d: "res = Inr done_rows"
    using assms rows b by (cases res) (simp_all add: settle_sell_def pa_append_batch_def bind_def)
  have "pa_store s' = st' \<and> fi_order_id fill = sp_order_id p \<and> fi_filled_lamports fill = sf_proceeds f
      \<and> fi_filled_units fill = sp_filled_units p \<and> fi_seq fill = seq_of_first done_rows"
    using assms rows b d by (auto simp: settle_sell_def pa_append_batch_def bind_def validate_fill_def split: if_splits)
  then show thesis using that rows b d by blast
qed

lemma sell_rows_cases:
  assumes "sell_rows cl r p curve0 curve1 latency pos f exit_reason source cid = Ok rows"
  obtains (left_open) lat ts where "rows = [sell_fill_entry r p curve0 curve1 lat f ts source cid]"
      "\<And>q. pos = Some q \<Longrightarrow> 0 < p_token_units q \<Longrightarrow> sp_filled_units p < p_token_units q"
    | (closed) lat ts q c where "rows = [sell_fill_entry r p curve0 curve1 lat f ts source cid, c]" "pos = Some q"
      "p_token_units q \<le> sp_filled_units p" "0 < p_token_units q" "x_type c = ''PositionClosed''"
      "map_of (x_payload c) ''mint'' = Some (PStr (o_mint r))"
      "\<exists>realized. map_of (x_payload c) ''realized_pnl_lamports'' = Some (PInt realized)"
  using assms
  by (auto simp: sell_rows_def rbind_Ok_iff Let_def position_closed_entry_def closed_entry_def not_le
      split: option.splits if_splits)

lemma sell_fill_payload:
  assumes "x = sell_fill_entry r p curve0 curve1 lat f ts source cid"
  shows "x_type x = ''FillRecorded''" "map_of (x_payload x) ''side'' = Some (PStr ''sell'')"
    "map_of (x_payload x) ''mint'' = Some (PStr (o_mint r))"
    "map_of (x_payload x) ''filled_units'' = Some (PInt (sp_filled_units p))"
    "map_of (x_payload x) ''venue_fee_lamports'' = Some (PInt (sf_venue_fee f))"
    "map_of (x_payload x) ''network_cost_lamports'' = Some (PInt (sf_network_cost f))"
    "map_of (x_payload x) ''cash_delta_lamports'' = Some (PInt (sf_proceeds f))"
    "map_of (x_payload x) ''order_id'' = Some (PStr (sp_order_id p))"
  by (simp_all add: assms sell_fill_entry_def)

lemma sell_settles:
  assumes "reachable H (pa_store s)" "fold_of cf cl0 (pa_store s) = Ok state"
    "map_of (l_positions state) (o_mint r) = pos" "0 < sp_filled_units p" "sp_filled_units p \<le> units_held state (o_mint r)"
    "settle_sell H cl r p curve0 curve1 latency pos f exit_reason source cid s = (Ok fill, s')"
  obtains state' where "fold_of cf cl0 (pa_store s') = Ok state'" "l_cash state' = l_cash state + fi_filled_lamports fill"
    "units_held state' (o_mint r) = units_held state (o_mint r) - fi_filled_units fill"
    "fi_filled_units fill = units_held state (o_mint r) \<Longrightarrow> map_of (l_positions state') (o_mint r) = None"
    "\<And>m. m \<noteq> o_mint r \<Longrightarrow> map_of (l_positions state') m = map_of (l_positions state) m"
proof -
  obtain rows done_rows st' where b: "sell_rows cl r p curve0 curve1 latency pos f exit_reason source cid = Ok rows"
    "append_batch H (pa_store s) (map envelope rows) = (Ok done_rows, st')" "pa_store s' = st'"
    and fill: "fi_filled_lamports fill = sf_proceeds f" "fi_filled_units fill = sp_filled_units p"
    by (rule settle_sell_cases [OF assms(6)])
  have reach: "reachable H st'" using assms(1) b(2) by (meson reachable_step step_batch)
  note c = batch_carries [OF b(2)]
  have fold: "fold_of cf cl0 (pa_store s') = fold_events state (map parsed done_rows)"
    using fold_of_more [OF assms(1) reach c(1,3) assms(2)] b(3) by simp
  obtain q where q: "pos = Some q" "p_token_units q = units_held state (o_mint r)" "0 < p_token_units q"
    using assms(3-5) by (auto simp: units_held_def split: option.splits)
  have held: "map_of (l_positions state) (o_mint r) = Some q" using assms(3) q(1) by simp
  from b(1) show thesis
  proof (cases rule: sell_rows_cases)
    case (left_open lat ts)
    then obtain d where d: "done_rows = [d]" "carries d (sell_fill_entry r p curve0 curve1 lat f ts source cid)"
      using c(2) by (auto simp: list_all2_Cons2)
    obtain s1 where s1: "reduce state (parsed d) = Ok s1" "l_cash s1 = l_cash state + sf_proceeds f"
      "l_positions s1 = dict_set (l_positions state) (o_mint r) (sold_position q (sp_filled_units p) (sf_proceeds f + sf_network_cost f))"
      by (rule sale_reduced [OF d(2) sell_fill_payload(1-7) [OF refl] held q(3) assms(4)])
    have "sp_filled_units p \<noteq> units_held state (o_mint r)" using left_open(2) [OF q(1,3)] q(2) by simp
    have "fold_of cf cl0 (pa_store s') = Ok s1" using fold d(1) s1(1) by (simp add: fold_events_def)
    moreover have "map_of (l_positions s1) = (map_of (l_positions state))(o_mint r \<mapsto> sold_position q (sp_filled_units p) (sf_proceeds f + sf_network_cost f))"
      unfolding s1(3) by (rule update_conv')
    moreover have "p_token_units (sold_position q (sp_filled_units p) (sf_proceeds f + sf_network_cost f)) = p_token_units q - sp_filled_units p"
      by (simp add: sold_position_def Let_def)
    ultimately show thesis
      using that [of s1] s1(2) fill q(2) \<open>sp_filled_units p \<noteq> units_held state (o_mint r)\<close> by (simp add: units_held_def)
  next
    case (closed lat ts q' c1)
    then obtain d1 d2 where d: "done_rows = [d1, d2]" "carries d1 (sell_fill_entry r p curve0 curve1 lat f ts source cid)" "carries d2 c1"
      using c(2) by (auto simp: list_all2_Cons2)
    obtain s1 where s1: "reduce state (parsed d1) = Ok s1" "l_cash s1 = l_cash state + sf_proceeds f"
      "l_positions s1 = dict_set (l_positions state) (o_mint r) (sold_position q (sp_filled_units p) (sf_proceeds f + sf_network_cost f))"
      by (rule sale_reduced [OF d(2) sell_fill_payload(1-7) [OF refl] held q(3) assms(4)])
    obtain realized where re: "map_of (x_payload c1) ''realized_pnl_lamports'' = Some (PInt realized)" using closed(7) by blast
    obtain s2 where s2: "reduce s1 (parsed d2) = Ok s2" "l_cash s2 = l_cash s1" "l_positions s2 = dict_pop (l_positions s1) (o_mint r)"
      by (rule closed_reduced [OF d(3) closed(5,6) re])
    have "sp_filled_units p = units_held state (o_mint r)" using closed(2,3) q assms(5) by simp
    have "fold_of cf cl0 (pa_store s') = Ok s2" using fold d(1) s1(1) s2(1) by (simp add: fold_events_def)
    moreover have "map_of (l_positions s2) = (map_of (l_positions state))(o_mint r := None)"
      unfolding s1(3) s2(3) delete_conv' update_conv' by simp
    ultimately show thesis
      using that [of s2] s1(2) s2(2) fill \<open>sp_filled_units p = units_held state (o_mint r)\<close> by (simp add: units_held_def)
  qed
qed

section \<open>Settling a buy\<close>

lemma pa_ulid_store: "pa_ulid cl s = (out, s1) \<Longrightarrow> pa_store s1 = pa_store s"
  by (auto simp: pa_ulid_def on_engine_def fresh_ulid_def bind_def split: prod.splits)

lemma fold_state_run: "fold_state cf cl s = (fold_of cf cl (pa_store s), s)"
  by (simp add: fold_state_def get_store_def bind_def)

lemma fold_state_Ok: "fold_state cf cl s = (Ok state, s1) \<longleftrightarrow> fold_of cf cl (pa_store s) = Ok state \<and> s1 = s"
  by (auto simp: fold_state_run)

lemma buy_settle_cases:
  assumes "buy_settle H cf cl r q c curve0 creator order_id source cid s = (Ok fill, s')"
  obtains state price tx latency ts rows done_rows st' where "fold_of cf cl (pa_store s) = Ok state"
    "rows = buy_fill_entry r order_id tx curve0 c price (network_cost (ac_fees cf)) (bc_filled c + network_cost (ac_fees cf))
        (buy_slippage_bps c) latency ts source cid
      # (if holds state (o_mint r) then []
         else [buy_position_entry r order_id creator c price (bc_filled c + network_cost (ac_fees cf)) ts source cid])"
    "append_batch H (pa_store s) (map envelope rows) = (Ok done_rows, st')" "pa_store s' = st'"
    "fi_order_id fill = order_id" "fi_filled_lamports fill = bc_filled c" "fi_filled_units fill = bc_out1 c"
    "fi_network_cost fill = network_cost (ac_fees cf)" "fi_seq fill = seq_of_first done_rows"
proof -
  obtain price where price: "dec_ratio (bc_x_net c) (bc_out1 c) = Ok price"
    using assms by (cases "dec_ratio (bc_x_net c) (bc_out1 c)") (simp_all add: buy_settle_def bind_def)
  obtain u s1 where u: "pa_ulid cl s = (Inr u, s1)"
    using assms price by (cases "pa_ulid cl s"; cases "fst (pa_ulid cl s)") (auto simp: buy_settle_def)
  have s1: "pa_store s1 = pa_store s" using pa_ulid_store [OF u] .
  obtain state where state: "fold_of cf cl (pa_store s1) = Ok state"
    using assms price u
    by (cases "fold_of cf cl (pa_store s1)") (auto simp: buy_settle_def fold_state_run Let_def bind_def)
  then have f: "fold_state cf cl s1 = (Inr state, s1)" by (simp add: fold_state_Ok)
  obtain x where x: "buy_rows cf cl r order_id (''dry_run:'' @ u) creator curve0 c (holds state (o_mint r)) source cid = Ok x"
    using assms price u f
    by (cases "buy_rows cf cl r order_id (''dry_run:'' @ u) creator curve0 c (holds state (o_mint r)) source cid")
      (simp_all add: buy_settle_def Let_def bind_def [of "lift _"])
  obtain pr rows where "x = (pr, rows)" by force
  with x have rows: "buy_rows cf cl r order_id (''dry_run:'' @ u) creator curve0 c (holds state (o_mint r)) source cid = Ok (pr, rows)"
    by simp
  obtain res st' where b: "append_batch H (pa_store s1) (map envelope rows) = (res, st')" by force
  obtain done_rows where d: "res = Inr done_rows"
    using assms price u f rows b by (cases res) (simp_all add: buy_settle_def Let_def pa_append_batch_def)
  have "pa_store s' = st' \<and> fi_order_id fill = order_id \<and> fi_filled_lamports fill = bc_filled c \<and> fi_filled_units fill = bc_out1 c
      \<and> fi_network_cost fill = network_cost (ac_fees cf) \<and> fi_seq fill = seq_of_first done_rows"
    using assms price u f rows b d by (auto simp: buy_settle_def Let_def pa_append_batch_def validate_fill_def split: if_splits)
  moreover obtain ts latency where "rows = buy_fill_entry r order_id (''dry_run:'' @ u) curve0 c price (network_cost (ac_fees cf))
        (bc_filled c + network_cost (ac_fees cf)) (buy_slippage_bps c) latency ts source cid
      # (if holds state (o_mint r) then []
         else [buy_position_entry r order_id creator c price (bc_filled c + network_cost (ac_fees cf)) ts source cid])"
    using rows price by (auto simp: buy_rows_def rbind_Ok_iff Let_def)
  ultimately show thesis using that state b d s1 by simp
qed

lemma buy_fill_payload:
  assumes "x = buy_fill_entry r order_id tx curve0 c price network debit slipped latency ts source cid"
  shows "x_type x = ''FillRecorded''" "map_of (x_payload x) ''side'' = Some (PStr ''buy'')"
    "map_of (x_payload x) ''mint'' = Some (PStr (o_mint r))" "map_of (x_payload x) ''filled_units'' = Some (PInt (bc_out1 c))"
    "map_of (x_payload x) ''venue_fee_lamports'' = Some (PInt (bc_venue_fee c))"
    "map_of (x_payload x) ''network_cost_lamports'' = Some (PInt network)"
    "map_of (x_payload x) ''cash_delta_lamports'' = Some (PInt (- debit))"
  by (simp_all add: assms buy_fill_entry_def)

lemma buy_position_payload:
  assumes "x = buy_position_entry r order_id creator c price debit ts source cid"
  shows "x_type x = ''PositionOpened''" "map_of (x_payload x) ''mint'' = Some (PStr (o_mint r))"
    "map_of (x_payload x) ''token_units'' = Some (PInt (bc_out1 c))"
    "map_of (x_payload x) ''cost_basis_lamports'' = Some (PInt debit)" "map_of (x_payload x) ''opened_ts_utc'' = Some (PStr ts)"
  by (simp_all add: assms buy_position_entry_def)

lemma buy_settles:
  assumes "reachable H (pa_store s)" "o_mint r \<noteq> []" "0 \<le> bc_filled c + network_cost (ac_fees cf)"
    "buy_settle H cf cl r q c curve0 creator order_id source cid s = (Ok fill, s')"
  obtains state state' p' where "fold_of cf cl (pa_store s) = Ok state" "fold_of cf cl (pa_store s') = Ok state'"
    "l_cash state' = l_cash state - (fi_filled_lamports fill + fi_network_cost fill)"
    "map_of (l_positions state') = (map_of (l_positions state))(o_mint r \<mapsto> p')"
    "p_token_units p' = (if holds state (o_mint r) then units_held state (o_mint r) else 0) + fi_filled_units fill"
    "p_cost_basis p' = (case map_of (l_positions state) (o_mint r) of Some p \<Rightarrow> if holds state (o_mint r) then p_cost_basis p else 0
       | None \<Rightarrow> 0) + (fi_filled_lamports fill + fi_network_cost fill)"
proof -
  obtain state price tx latency ts rows done_rows st' where b: "fold_of cf cl (pa_store s) = Ok state"
    "rows = buy_fill_entry r order_id tx curve0 c price (network_cost (ac_fees cf)) (bc_filled c + network_cost (ac_fees cf))
        (buy_slippage_bps c) latency ts source cid
      # (if holds state (o_mint r) then []
         else [buy_position_entry r order_id creator c price (bc_filled c + network_cost (ac_fees cf)) ts source cid])"
    "append_batch H (pa_store s) (map envelope rows) = (Ok done_rows, st')" "pa_store s' = st'"
    "fi_filled_lamports fill = bc_filled c" "fi_filled_units fill = bc_out1 c" "fi_network_cost fill = network_cost (ac_fees cf)"
    by (rule buy_settle_cases [OF assms(4)]) blast
  have reach: "reachable H st'" using assms(1) b(3) by (meson reachable_step step_batch)
  note c = batch_carries [OF b(3)]
  have fold: "fold_of cf cl (pa_store s') = fold_events state (map parsed done_rows)"
    using fold_of_more [OF assms(1) reach c(1,3) b(1)] b(4) by simp
  let ?debit = "bc_filled c + network_cost (ac_fees cf)"
  obtain d ds where d: "done_rows = d # ds"
    "carries d (buy_fill_entry r order_id tx curve0 c price (network_cost (ac_fees cf)) ?debit (buy_slippage_bps c) latency ts source cid)"
    "list_all2 carries ds (if holds state (o_mint r) then [] else [buy_position_entry r order_id creator c price ?debit ts source cid])"
    using c(2) unfolding b(2) by (auto simp: list_all2_Cons2)
  obtain s1 where s1: "reduce state (parsed d) = Ok s1" "l_cash s1 = l_cash state + - ?debit"
    "map_of (l_positions s1) = (case map_of (l_positions state) (o_mint r) of None \<Rightarrow> map_of (l_positions state)
       | Some q \<Rightarrow> (map_of (l_positions state))(o_mint r \<mapsto> bought_position q (bc_out1 c) (- ?debit) (bc_venue_fee c + network_cost (ac_fees cf))))"
    by (rule bought_reduced [OF d(2) buy_fill_payload [OF refl]])
  show thesis
  proof (cases "holds state (o_mint r)")
    case True
    then obtain p where p: "map_of (l_positions state) (o_mint r) = Some p" by (auto simp: holds_def split: option.splits)
    have "ds = []" using d(3) True by simp
    then have "fold_of cf cl (pa_store s') = Ok s1" using fold d(1) s1(1) by (simp add: fold_events_def)
    then show thesis
      using that [OF b(1), of s1 "bought_position p (bc_out1 c) (- ?debit) (bc_venue_fee c + network_cost (ac_fees cf))"]
        s1(2,3) p True b(5-7) assms(3)
      by (simp add: bought_position_def units_held_def min_def)
  next
    case False
    then obtain d2 where d2: "ds = [d2]" "carries d2 (buy_position_entry r order_id creator c price ?debit ts source cid)"
      using d(3) by (auto simp: list_all2_Cons2)
    obtain s2 p' where s2: "reduce s1 (parsed d2) = Ok s2" "l_cash s2 = l_cash s1"
      "map_of (l_positions s2) = (map_of (l_positions s1))(o_mint r \<mapsto> p')" "p_token_units p' = bc_out1 c" "p_cost_basis p' = ?debit"
      by (rule opened_reduced [OF d2(2) buy_position_payload(1,2) [OF refl] assms(2) buy_position_payload(3-5) [OF refl]])
    have "fold_of cf cl (pa_store s') = Ok s2" using fold d(1) d2(1) s1(1) s2(1) by (simp add: fold_events_def)
    moreover have "map_of (l_positions s2) = (map_of (l_positions state))(o_mint r \<mapsto> p')"
      unfolding s2(3) s1(3) by (auto split: option.split)
    ultimately show thesis
      using that [OF b(1), of s2 p'] s1(2) s2(2,4,5) False b(5-7) by (simp split: option.split)
  qed
qed

section \<open>Forced closes\<close>

lemma force_close_cases:
  assumes "force_close H cf cl mint reason v source_arg cid ticket_id s = (Ok out, s')"
  obtains (flat) state where "fold_of cf cl (pa_store s) = Ok state" "held_position_in state mint = None" "out = None" "s' = s"
    | (closed) state pos order_id tx source rows done_rows st' where "fold_of cf cl (pa_store s) = Ok state"
      "held_position_in state mint = Some pos" "force_rows cl mint pos reason v order_id tx ticket_id source cid = Ok rows"
      "append_batch H (pa_store s) (map envelope rows) = (Ok done_rows, st')" "pa_store s' = st'"
      "frozen_mark mint s' = Some (fst v)"
proof -
  obtain state where state: "fold_of cf cl (pa_store s) = Ok state"
    using assms by (cases "fold_of cf cl (pa_store s)") (simp_all add: force_close_def Let_def fold_state_run bind_def)
  then have f: "fold_state cf cl s = (Inr state, s)" by (simp add: fold_state_Ok)
  show thesis
  proof (cases "held_position_in state mint")
    case None
    then have "out = None \<and> s' = s" using assms f by (simp add: force_close_def Let_def)
    then show thesis using flat [OF state None] by blast
  next
    case (Some pos)
    define source where "source = (case source_arg of None \<Rightarrow> ac_source cf | Some x \<Rightarrow> x)"
    have run: "force_close H cf cl mint reason v source_arg cid ticket_id s = bind (pa_ulid cl) (\<lambda>u. bind (pa_ulid cl) (\<lambda>order_id.
          bind (lift (force_rows cl mint pos reason v order_id (''dry_run:'' @ u) ticket_id source cid)) (\<lambda>rows.
          bind (pa_append_batch H rows) (\<lambda>done_rows.
          bind (modify (\<lambda>s. s\<lparr>pa_frozen_marks := dict_set (pa_frozen_marks s) mint (fst v),
             pa_last_price_ts := dict_pop (pa_last_price_ts s) mint\<rparr>)) (\<lambda>_.
          ret (case done_rows of _ # r # _ \<Rightarrow> Some r | _ \<Rightarrow> None)))))) s"
      using f Some by (simp add: force_close_def Let_def source_def)
    obtain u s1 where u: "pa_ulid cl s = (Inr u, s1)"
      using assms run by (cases "pa_ulid cl s"; cases "fst (pa_ulid cl s)") auto
    obtain i s2 where i: "pa_ulid cl s1 = (Inr i, s2)"
      using assms run u by (cases "pa_ulid cl s1"; cases "fst (pa_ulid cl s1)") auto
    have st: "pa_store s2 = pa_store s" using pa_ulid_store [OF u] pa_ulid_store [OF i] by simp
    obtain rows where rows: "force_rows cl mint pos reason v i (''dry_run:'' @ u) ticket_id source cid = Ok rows"
      using assms run u i by (cases "force_rows cl mint pos reason v i (''dry_run:'' @ u) ticket_id source cid") (auto simp: bind_def)
    obtain res st' where b: "append_batch H (pa_store s2) (map envelope rows) = (res, st')" by force
    obtain done_rows where d: "res = Inr done_rows"
      using assms run u i rows b by (cases res) (simp_all add: pa_append_batch_def)
    have s': "s' = s2\<lparr>pa_engine := (pa_engine s2)\<lparr>en_store := st'\<rparr>, pa_frozen_marks := dict_set (pa_frozen_marks s2) mint (fst v),
        pa_last_price_ts := dict_pop (pa_last_price_ts s2) mint\<rparr>"
      using assms run u i rows b d by (auto simp: pa_append_batch_def)
    show thesis
      using closed [OF state Some rows] b d st s' by (simp add: frozen_mark_def update_conv')
  qed
qed

lemma force_rows_cases:
  assumes "force_rows cl mint pos reason v order_id tx ticket_id source cid = Ok rows"
  obtains price ts c e where "rows = [force_fill_entry mint order_id tx v (p_token_units pos) price ts source cid, c, e]"
    "x_type c = ''PositionClosed''" "map_of (x_payload c) ''mint'' = Some (PStr mint)"
    "map_of (x_payload c) ''realized_pnl_lamports'' = Some (PInt (fst v - p_cost_basis pos))" "x_type e = ''Escalation''"
  using assms
  by (auto simp: force_rows_def rbind_Ok_iff Let_def closed_entry_def force_escalation_entry_def)

lemma force_fill_payload:
  assumes "x = force_fill_entry mint order_id tx v units price ts source cid"
  shows "x_type x = ''FillRecorded''" "map_of (x_payload x) ''side'' = Some (PStr ''sell'')"
    "map_of (x_payload x) ''mint'' = Some (PStr mint)" "map_of (x_payload x) ''filled_units'' = Some (PInt units)"
    "map_of (x_payload x) ''venue_fee_lamports'' = Some (PInt (fst (snd v)))"
    "map_of (x_payload x) ''network_cost_lamports'' = Some (PInt (snd (snd v)))"
    "map_of (x_payload x) ''cash_delta_lamports'' = Some (PInt (fst v))"
  by (cases v; simp add: assms force_fill_entry_def)+

lemma forced_close_settles:
  assumes "reachable H (pa_store s)" "held_position_in state mint = Some pos" "fold_of cf cl (pa_store s) = Ok state"
    "force_close H cf cl mint reason v source_arg cid ticket_id s = (Ok out, s')"
  obtains state' where "fold_of cf cl (pa_store s') = Ok state'" "l_cash state' = l_cash state + fst v"
    "map_of (l_positions state') = (map_of (l_positions state))(mint := None)" "frozen_mark mint s' = Some (fst v)"
  using assms(4)
proof (cases rule: force_close_cases)
  case (flat state0)
  then show thesis using assms(2,3) by simp
next
  case (closed state0 pos0 order_id tx source rows done_rows st')
  have eq: "state0 = state" "pos0 = pos" using closed(1,2) assms(2,3) by simp_all
  have held: "map_of (l_positions state) mint = Some pos" "0 < p_token_units pos"
    using assms(2) by (auto simp: held_position_in_def split: option.splits if_splits)
  obtain price ts c e where rows: "rows = [force_fill_entry mint order_id tx v (p_token_units pos) price ts source cid, c, e]"
    "x_type c = ''PositionClosed''" "map_of (x_payload c) ''mint'' = Some (PStr mint)"
    "map_of (x_payload c) ''realized_pnl_lamports'' = Some (PInt (fst v - p_cost_basis pos))" "x_type e = ''Escalation''"
    using closed(3) unfolding eq by (rule force_rows_cases)
  have reach: "reachable H st'" using assms(1) closed(4) by (meson reachable_step step_batch)
  note b = batch_carries [OF closed(4)]
  have fold: "fold_of cf cl (pa_store s') = fold_events state (map parsed done_rows)"
    using fold_of_more [OF assms(1) reach b(1,3) assms(3)] closed(5) by simp
  obtain d1 d2 d3 where d: "done_rows = [d1, d2, d3]"
    "carries d1 (force_fill_entry mint order_id tx v (p_token_units pos) price ts source cid)" "carries d2 c" "carries d3 e"
    using b(2) unfolding rows(1) by (auto simp: list_all2_Cons2)
  obtain s1 where s1: "reduce state (parsed d1) = Ok s1" "l_cash s1 = l_cash state + fst v"
    "l_positions s1 = dict_set (l_positions state) mint (sold_position pos (p_token_units pos) (fst v + snd (snd v)))"
    by (rule sale_reduced [OF d(2) force_fill_payload [OF refl] held held(2)])
  obtain s2 where s2: "reduce s1 (parsed d2) = Ok s2" "l_cash s2 = l_cash s1" "l_positions s2 = dict_pop (l_positions s1) mint"
    by (rule closed_reduced [OF d(3) rows(2-4)])
  obtain s3 where s3: "reduce s2 (parsed d3) = Ok s3" "l_cash s3 = l_cash s2" "l_positions s3 = l_positions s2"
    by (rule noted_reduced [OF d(4) rows(5)])
  have "fold_of cf cl (pa_store s') = Ok s3" using fold d(1) s1(1) s2(1) s3(1) by (simp add: fold_events_def)
  moreover have "map_of (l_positions s3) = (map_of (l_positions state))(mint := None)"
    unfolding s3(3) s2(3) s1(3) delete_conv' update_conv' by simp
  ultimately show thesis using that [of s3] s1(2) s2(2) s3(2) closed(6) by simp
qed

section \<open>Rows a store accepts\<close>

lemma fresh_hash:
  assumes "inj H" "store_ok H st" "int (length (events st)) < sq" "r \<in> set (events st)"
  shows "r_hash r \<noteq> H (row_text prev sq x pj)"
proof
  assume h: "r_hash r = H (row_text prev sq x pj)"
  have v: "verify_rows H GENESIS_PREV_HASH (events st) = Ok ()" "seqs_ok (events st)"
    using assms(2) by (simp_all add: store_ok_def rows_ok_def)
  have t: "\<forall>r \<in> set rows. H (text_of_row r) = r_hash r" if "verify_rows H p rows = Ok ()" for p rows
    using that by (induction rows arbitrary: p) (auto simp: verify_rows_Ok_Cons simp del: verify_rows.simps)
  have "H (text_of_row r) = r_hash r" using t [OF v(1)] assms(4) by blast
  then have "text_of_row r = row_text prev sq x pj" using h assms(1) by (simp add: inj_eq)
  then have "r_seq r = sq" using row_text_inject by blast
  moreover have "r_seq r \<in> set (map int [1..<Suc (length (events st))])"
    using v(2) assms(4) unfolding seqs_ok_def by (metis image_eqI list.set_map)
  ultimately show False using assms(3) by auto
qed

lemma append_accepts:
  assumes "inj H" "reachable H st" "\<not> inconsistent st" "check_envelope (envelope x) = Ok x"
    "validated_payload (x_type x) (x_payload x) = Ok pj" "x_key x \<notin> r_key ` set (events st)"
  obtains r where "append H st x = (Ok r, st\<lparr>events := events st @ [r]\<rparr>)"
proof -
  obtain sq prev where h: "head_of (events st) = (sq, prev)" by force
  note ok = reachable_store_ok [OF assms(2)]
  have sq: "sq = int (length (events st)) + 1"
    using head_of_seq [of "events st"] ok h by (simp add: store_ok_def rows_ok_def)
  let ?r = "stored_row sq prev x pj (H (row_text prev sq x pj))"
  have "r_seq ?r \<notin> r_seq ` set (events st)"
  proof
    assume "r_seq ?r \<in> r_seq ` set (events st)"
    then have "sq \<in> set (map r_seq (events st))" by (simp add: stored_row_def)
    moreover have "map r_seq (events st) = map int [1..<Suc (length (events st))]"
      using ok by (simp add: store_ok_def rows_ok_def seqs_ok_def)
    ultimately show False using sq by auto
  qed
  moreover have "r_hash ?r \<notin> r_hash ` set (events st)"
  proof
    assume "r_hash ?r \<in> r_hash ` set (events st)"
    then obtain r where "r \<in> set (events st)" "r_hash r = H (row_text prev sq x pj)" by (auto simp: stored_row_def)
    then show False using fresh_hash [OF assms(1) ok] sq by simp
  qed
  ultimately have "insert_row ?r (events st) = Ok (events st @ [?r])"
    using assms(6) by (simp add: insert_row_def) (simp add: stored_row_def)
  then show thesis using that [of ?r] assms(3-5) h by (simp add: append_def row_hash_eq Let_def)
qed

lemma batch_accepts:
  assumes "inj H" "reachable H st" "\<not> inconsistent st"
    "\<And>x. x \<in> set xs \<Longrightarrow> check_envelope (envelope x) = Ok x \<and> is_ok (validated_payload (x_type x) (x_payload x))
      \<and> x_key x \<notin> r_key ` set (events st)" "distinct (map x_key xs)"
  obtains rows st' where "append_batch H st (map envelope xs) = (Ok rows, st')" "reachable H st'" "\<not> inconsistent st'"
proof -
  have "\<exists>rows st'. append_all H st (map envelope xs) = Ok (rows, st') \<and> inconsistent st' = inconsistent st"
    using assms
  proof (induction xs arbitrary: st)
    case (Cons x xs)
    have x: "check_envelope (envelope x) = Ok x" "x_key x \<notin> r_key ` set (events st)" using Cons.prems(4) by simp_all
    obtain pj where pj: "validated_payload (x_type x) (x_payload x) = Ok pj" using Cons.prems(4) [of x] by (auto simp: is_ok_iff)
    obtain r where r: "append H st x = (Ok r, st\<lparr>events := events st @ [r]\<rparr>)"
      by (rule append_accepts [OF Cons.prems(1-3) x(1) pj x(2)])
    have k: "r_key r = x_key x" using ledger.put_ok [OF r] by simp
    have "\<exists>rows st'. append_all H (st\<lparr>events := events st @ [r]\<rparr>) (map envelope xs) = Ok (rows, st')
        \<and> inconsistent st' = inconsistent (st\<lparr>events := events st @ [r]\<rparr>)"
    proof (rule Cons.IH [OF Cons.prems(1)])
      show "reachable H (st\<lparr>events := events st @ [r]\<rparr>)" using Cons.prems(2) r by (meson reachable_step step_append)
      show "check_envelope (envelope y) = Ok y \<and> is_ok (validated_payload (x_type y) (x_payload y))
          \<and> x_key y \<notin> r_key ` set (events (st\<lparr>events := events st @ [r]\<rparr>))" if "y \<in> set xs" for y
        using Cons.prems(4) [of y] Cons.prems(5) that k by (auto simp: image_iff)
    qed (use Cons.prems(3,5) in simp_all)
    then show ?case using x(1) r by auto
  qed simp
  then obtain rows st' where a: "append_all H st (map envelope xs) = Ok (rows, st')" "\<not> inconsistent st'"
    using assms(3) by blast
  have b: "append_batch H st (map envelope xs) = (Ok rows, st')"
    using append_batch_sequential [OF assms(3), of H "map envelope xs"] a(1) by simp
  then have "reachable H st'" using assms(2) by (meson reachable_step step_batch)
  then show thesis using that b a(2) by blast
qed

end
