(* ===== verification/AdapterSafety.thy ===== *)
theory AdapterSafety
  imports Settlement QuietDesk
begin

text \<open>
  The guarantees of placing an order: what any outcome leaves behind, what a fill costs and yields,
  and what a repeated decision gets.
\<close>

section \<open>One run of \<open>place\<close>\<close>

lemma place_cases:
  assumes "place H cf w r seat exit_arg creator source_arg cid s = (out, s')"
  obtains (unkeyed) e where "out = Inl e" "s' = s"
  | (run) order_hash key exit_reason source active active' s2 where
    "settled_outcome (\<lambda>ok. settle_probes H (ou_call w 3) order_hash (pa_tokens s) key ok source cid)
       (place_order H cf w r seat exit_reason creator (pa_tokens s) source cid)
       (s\<lparr>pa_tokens := Suc (pa_tokens s), pa_active_places := active\<rparr>) = (out, s2)"
    "s' = clear_owned (pa_tokens s) (s2\<lparr>pa_active_places := active'\<rparr>)"
proof (cases "order_hash_for H r")
  case (Inl e)
  then show ?thesis using assms unkeyed [of e] by (auto simp: place_def Let_def bind_def)
next
  case h: (Inr order_hash)
  show ?thesis
  proof (cases "placed_key H r")
    case (Inl e)
    then show ?thesis using assms h unkeyed [of e] by (auto simp: place_def Let_def bind_def)
  next
    case k: (Inr key)
    define new where "new \<longleftrightarrow> key \<notin> set (pa_active_places s)"
    define exit_reason where "exit_reason = (case exit_arg of None \<Rightarrow> o_exit_reason r | Some x \<Rightarrow> Some x)"
    define source where "source = (case source_arg of None \<Rightarrow> ac_source cf | Some x \<Rightarrow> x)"
    define s1 where "s1 = s\<lparr>pa_tokens := Suc (pa_tokens s),
      pa_active_places := (if new then key # pa_active_places s else pa_active_places s)\<rparr>"
    obtain out2 s2 where run: "settled_outcome (\<lambda>ok. settle_probes H (ou_call w 3) order_hash (pa_tokens s) key ok source cid)
        (place_order H cf w r seat exit_reason creator (pa_tokens s) source cid) s1 = (out2, s2)" by force
    have "place H cf w r seat exit_arg creator source_arg cid s
        = (out2, clear_owned (pa_tokens s) (s2\<lparr>pa_active_places := (if new then removeAll key (pa_active_places s2) else pa_active_places s2)\<rparr>))"
      unfolding place_def Let_def exit_reason_def [symmetric] source_def [symmetric]
      using h k run
      by (cases new) (simp_all add: bind_def new_owner_def ensuring_def new_def [symmetric] s1_def)
    then show ?thesis using assms run that(2) unfolding s1_def by auto
  qed
qed

section \<open>The ledger and the barrier under an order\<close>

lemma confirm_latency_leads:
  assumes "adapter_invariant H J" "tasks_keep J w"
    "\<And>s. K s \<Longrightarrow> J (inflight_add order_id (s\<lparr>pa_owned := dict_set (pa_owned s) owner order_id\<rparr>))"
  shows "leads K (confirm_latency H cf w r order_id owner source cid) J"
  unfolding leads_def
proof (intro allI impI)
  fix s assume "K s"
  define m where "m = (let (latency, dropped) = fst (draw_latency (\<lambda>g. (ou_lognormal w, g)) (\<lambda>g. (ou_uniform w, g)) () (ac_p_drop cf));
         limit = lm_confirm_timeout_s (ac_limits cf) in
     bind (suspend w 1) (\<lambda>_.
     if timed_out (cl_now (ou_call w 1)) limit latency
     then bind (modify (inflight_discard order_id)) (\<lambda>_.
       bind (reject H (ou_call w 2) r (o_decision_id r) (confirming_refusal order_id ''confirmation_timeout''
           (''confirm wait '' @ fixed 3 latency @ ''s exceeded '' @ fixed 3 limit @ ''s'')) source cid) (\<lambda>_.
       raise (OrderUnknownError ''confirmation_timeout'' (''order_id='' @ order_id @ '' outcome UNKNOWN; never retried'') ''CONFIRMING'' 0)))
     else ret (latency, dropped)))"
  have k: "keeps J m"
    unfolding m_def Let_def
    by (auto intro!: keeps_intros adapter_invariant.suspend_keeps [OF assms(1,2)] adapter_invariant.updates_keep [OF assms(1)]
        adapter_invariant.reject_keeps [OF assms(1)] split: prod.splits)
  have "confirm_latency H cf w r order_id owner source cid s
      = m (inflight_add order_id (s\<lparr>pa_owned := dict_set (pa_owned s) owner order_id\<rparr>))"
    by (simp add: confirm_latency_def m_def)
  then show "J (snd (confirm_latency H cf w r order_id owner source cid s))"
    using k assms(3) [OF \<open>K s\<close>] by (simp add: keeps_def)
qed

definition tasks_step_ledger :: "(string \<Rightarrow> string) \<Rightarrow> outside \<Rightarrow> bool" where
  \<comment> \<open>the other tasks reach the ledger only through the store's operations\<close>
  "tasks_step_ledger H w \<longleftrightarrow> (\<forall>n s. (store_step H)\<^sup>*\<^sup>* (pa_store s) (pa_store (ou_tasks w n s)))"

definition pending_in :: "string set \<Rightarrow> adapter \<Rightarrow> bool" where
  "pending_in X s \<longleftrightarrow> set (pa_inflight s) \<union> set (pa_barrier s) \<subseteq> X"

definition pending_or_own :: "string set \<Rightarrow> nat \<Rightarrow> adapter \<Rightarrow> bool" where
  \<comment> \<open>the one order the call registered may be pending besides\<close>
  "pending_or_own X owner s \<longleftrightarrow> pending_in (X \<union> set_option (map_of (pa_owned s) owner)) s"

definition tasks_spare :: "string set \<Rightarrow> nat \<Rightarrow> outside \<Rightarrow> bool" where
  \<comment> \<open>the other tasks register only orders in \<open>X\<close> and leave this call's token alone\<close>
  "tasks_spare X owner w \<longleftrightarrow> (\<forall>n s. set (pa_inflight (ou_tasks w n s)) \<subseteq> set (pa_inflight s) \<union> X
     \<and> set (pa_barrier (ou_tasks w n s)) \<subseteq> set (pa_barrier s) \<union> X
     \<and> map_of (pa_owned (ou_tasks w n s)) owner = map_of (pa_owned s) owner)"

interpretation on_ledger: order_invariants H "\<lambda>s. (store_step H)\<^sup>*\<^sup>* st (pa_store s)" "\<lambda>s. (store_step H)\<^sup>*\<^sup>* st (pa_store s)" for H st
  by unfold_locales (auto intro: rtranclp_trans)

interpretation on_barrier: order_invariants H "pending_in X" "pending_or_own X owner" for H X owner
proof -
  show "order_invariants H (pending_in X) (pending_or_own X owner)"
    by unfold_locales
      (auto simp: pending_or_own_def pending_in_def inflight_discard_def order_done_def note_reading_def)
qed

lemma place_leads:
  assumes "order_invariants H K J" "tasks_keep K w" "tasks_keep J w"
    and register: "\<And>s order_id. K s \<Longrightarrow> J (inflight_add order_id (s\<lparr>pa_owned := dict_set (pa_owned s) (pa_tokens s0) order_id\<rparr>))"
    and enter: "\<And>s n active. K s \<Longrightarrow> K (s\<lparr>pa_tokens := n, pa_active_places := active\<rparr>)"
    and run: "K s0" "place H cf w r seat exit_arg creator source_arg cid s0 = (out, s')"
  obtains "s' = s0" | s2 active where "J s2" "s' = clear_owned (pa_tokens s0) (s2\<lparr>pa_active_places := active\<rparr>)"
  using run(2)
proof (cases rule: place_cases)
  case (run order_hash key exit_reason source active active' s2)
  note oi = assms(1)
  have J: "adapter_invariant H J" using oi by (simp add: order_invariants_def)
  have "leads K (settled_outcome (\<lambda>ok. settle_probes H (ou_call w 3) order_hash (pa_tokens s0) key ok source cid)
       (place_order H cf w r seat exit_reason creator (pa_tokens s0) source cid)) J"
    by (intro order_invariants.outcome_leads [OF oi] order_invariants.place_order_leads [OF oi] assms(2,3)
        confirm_latency_leads [OF J] register)
  from leadsD [OF this enter [OF assms(6)] run(1)] show ?thesis using run(2) that(2) by blast
qed (rule that(1))

section \<open>Properties\<close>

definition adapter_on :: "engine \<Rightarrow> adapter" where
  "adapter_on e = \<lparr>pa_engine = e, pa_inflight = [], pa_barrier = [], pa_cancelled = [],
     pa_last_price_ts = [], pa_last_reserves = [], pa_frozen_marks = [], pa_active_places = [], pa_owned = [], pa_tokens = 0\<rparr>"

definition sample_adapter_config :: adapter_config where
  "sample_adapter_config = \<lparr>ac_engine = auto_config, ac_budget = default_budget, ac_limits = default_limits, ac_fees = default_fees,
     ac_priced = True, ac_source = ''paper'', ac_p_drop = 0\<rparr>"

definition sample_curve :: curve_snapshot where
  "sample_curve = \<lparr>cs_mint = sample_mint, cs_s = 100000000000, cs_t = 1000000000000, cs_complete = False, cs_source = ''pumpportal'',
     cs_slot = None, cs_ts = None\<rparr>"

definition sample_outside :: outside where
  \<comment> \<open>nothing else runs, and the clock stands\<close>
  "sample_outside = \<lparr>ou_call = (\<lambda>n. sample_call), ou_curve = (\<lambda>n m. Some sample_curve), ou_tasks = (\<lambda>n s. s), ou_lognormal = 1,
     ou_uniform = 1\<rparr>"

text \<open>
  C10: placing an order only ever appends to the ledger. Whatever the order, the clock, the curve and the
  outcome (fill, refusal, unknown, or an exception), and whatever the other tasks of the desk do through
  the store while the order waits, the ledger after \<open>place\<close> is reachable and starts with the rows it had.
\<close>

theorem place_only_appends:
  assumes "reachable H (pa_store s)" "tasks_step_ledger H w"
    "place H cf w r seat exit_arg creator source_arg cid s = (out, s')"
  shows "reachable H (pa_store s') \<and> (\<exists>more. events (pa_store s') = events (pa_store s) @ more)"
proof -
  let ?J = "\<lambda>s'. (store_step H)\<^sup>*\<^sup>* (pa_store s) (pa_store s')"
  have k: "tasks_keep ?J w" using assms(2) by (auto simp: tasks_keep_def tasks_step_ledger_def intro: rtranclp_trans)
  have "?J s'"
    by (rule place_leads [OF on_ledger.order_invariants_axioms k k _ _ _ assms(3)]) simp_all
  then show ?thesis using assms(1) store_steps_prefix unfolding reachable_def by (metis rtranclp_trans)
qed

theorem place_only_appends_witness:
  "\<exists>out s'. place (\<lambda>s. s) sample_adapter_config sample_outside sample_buy None None None None ''c'' (adapter_on idle_engine) = (out, s')
    \<and> reachable (\<lambda>s. s) (pa_store s') \<and> (\<exists>more. events (pa_store s') = more)"
proof -
  obtain out s' where p: "place (\<lambda>s. s) sample_adapter_config sample_outside sample_buy None None None None ''c'' (adapter_on idle_engine) = (out, s')"
    by force
  have "reachable (\<lambda>s. s) (pa_store (adapter_on idle_engine))" by (simp add: reachable_def adapter_on_def idle_engine_def)
  moreover have "tasks_step_ledger (\<lambda>s. s) sample_outside" by (simp add: tasks_step_ledger_def sample_outside_def)
  ultimately show ?thesis using place_only_appends [OF _ _ p] p by blast
qed

text \<open>
  C9: no order stays in the barrier behind its call. However \<open>place\<close> ends, the in-flight set and the
  barrier the flatten waits on hold nothing but what was pending before or what other calls registered
  meanwhile: when all calls have ended, the barrier is empty.
\<close>

theorem place_clears_barrier:
  assumes "place H cf w r seat exit_arg creator source_arg cid s = (out, s')"
    "tasks_spare X (pa_tokens s) w" "set (pa_inflight s) \<union> set (pa_barrier s) \<subseteq> X"
  shows "set (pa_inflight s') \<union> set (pa_barrier s') \<subseteq> X"
proof -
  have k: "tasks_keep (pending_in X) w" "tasks_keep (pending_or_own X (pa_tokens s)) w"
    using assms(2) by (fastforce simp: tasks_keep_def tasks_spare_def pending_or_own_def pending_in_def)+
  have "pending_in X s'"
  proof (rule place_leads [OF on_barrier.order_invariants_axioms k _ _ _ assms(1)])
    show "pending_or_own X (pa_tokens s) (inflight_add order_id (s1\<lparr>pa_owned := dict_set (pa_owned s1) (pa_tokens s) order_id\<rparr>))"
      if "pending_in X s1" for s1 order_id
      using that by (auto simp: pending_or_own_def pending_in_def inflight_add_def register_order_def)
    show "pending_in X s'" if "pending_or_own X (pa_tokens s) s2" "s' = clear_owned (pa_tokens s) (s2\<lparr>pa_active_places := active\<rparr>)"
      for s2 active
      using that by (auto simp: pending_or_own_def pending_in_def clear_owned_def inflight_discard_def order_done_def split: option.splits)
  qed (use assms(3) in \<open>auto simp: pending_in_def\<close>)
  then show ?thesis by (simp add: pending_in_def)
qed

theorem place_clears_barrier_witness:
  "\<exists>out s'. place (\<lambda>s. s) sample_adapter_config sample_outside sample_buy None None None None ''c'' (adapter_on idle_engine) = (out, s')
    \<and> barrier_empty (pa_barrier s')"
proof -
  obtain out s' where p: "place (\<lambda>s. s) sample_adapter_config sample_outside sample_buy None None None None ''c'' (adapter_on idle_engine) = (out, s')"
    by force
  have "tasks_spare {} (pa_tokens (adapter_on idle_engine)) sample_outside" by (simp add: tasks_spare_def sample_outside_def)
  moreover have "set (pa_inflight (adapter_on idle_engine)) \<union> set (pa_barrier (adapter_on idle_engine)) \<subseteq> {}" by (simp add: adapter_on_def)
  ultimately have "set (pa_barrier s') \<subseteq> {}" using place_clears_barrier [OF p] by blast
  then show ?thesis using p by (simp add: barrier_empty_def)
qed

lemma refuse_never [simp]: "refuse H cl r decision j source cid s \<noteq> (Inr x, s')"
  by (auto simp: refuse_def bind_Ok_iff)

lemma price_buy_Ok:
  assumes "price_buy cf curve0 size0 bps filled = Ok q"
  shows "bq_filled q = filled" "bq_x_net q = filled - bq_venue_fee q" "buy_out (cs_s curve0) (cs_t curve0) (bq_x_net q) = Ok (bq_out0 q)"
    "bq_threshold q = threshold_of (bq_out0 q) bps" "bq_slippage_bps q = bps"
  using assms by (auto simp: price_buy_def rbind_Ok_iff Let_def)

lemma dec_ratio_total: "b \<noteq> 0 \<Longrightarrow> \<exists>d. dec_ratio a b = Ok d"
  by (auto simp: dec_ratio_def dec_div_def dec_of_int_def of_option_def Let_def)

lemma less_div_succ: "0 < d \<Longrightarrow> (x :: int) < (x div d + 1) * d"
proof -
  assume "0 < d"
  then have "x mod d < d" by simp
  moreover have "(x div d + 1) * d = x - x mod d + d" by (simp add: algebra_simps minus_mod_eq_mult_div)
  ultimately show ?thesis by linarith
qed

text \<open>
  C7: what a filled buy paid and got is bounded by what was decided. A buy that is sized, re-capped by
  the confirming decision and let through by the slippage guard spends no more than the size decided,
  the share of the pool a fill may take and the cap of the second decision; the pool held the required
  multiple of the size; the fee comes out of the spend; and the tokens received, plus one, are worth the
  quoted output less the slippage allowed, which neither the order's nor the desk's limit exceeds.
\<close>

theorem filled_buy_bounded:
  assumes "buy_sizing H cf cl r size0 curve0 source cid s = (Ok q, s1)" "buy_recap cf q curve0 cap_now = Ok p"
    "buy_guard_slippage H cf cl' r order_id p out1 source' cid' s2 = (Ok (), s3)"
  shows "bq_filled p \<le> size0 \<and> (\<exists>share. fill_cap cf (cs_s curve0) = Ok share \<and> bq_filled p \<le> share)
    \<and> (\<forall>cap. cap_now = Some cap \<longrightarrow> bq_filled p \<le> cap)
    \<and> rb_liquidity_floor_multiple (ac_budget cf) * size0 \<le> cs_s curve0
    \<and> 0 < bq_x_net p \<and> bq_x_net p = bq_filled p - bq_venue_fee p \<and> buy_out (cs_s curve0) (cs_t curve0) (bq_x_net p) = Ok (bq_out0 p)
    \<and> bq_out0 p * (10000 - bq_slippage_bps p) < (out1 + 1) * 10000
    \<and> bq_slippage_bps p \<le> o_max_slippage_bps r \<and> bq_slippage_bps p \<le> lm_max_slippage_bps (ac_limits cf)
    \<and> s1 = s \<and> s3 = s2"
proof -
  let ?bps = "slippage_bps cf r"
  obtain share where q: "fill_cap cf (cs_s curve0) = Ok share" "price_buy cf curve0 size0 ?bps (min size0 share) = Ok q"
    "floor_of cf size0 \<le> cs_s curve0" "s1 = s"
    using assms(1) by (auto simp: buy_sizing_def bind_Ok_iff split: if_splits)
  note bq = price_buy_Ok [OF q(2)]
  have p: "bq_x_net p = bq_filled p - bq_venue_fee p" "buy_out (cs_s curve0) (cs_t curve0) (bq_x_net p) = Ok (bq_out0 p)"
    "bq_threshold p = threshold_of (bq_out0 p) ?bps" "bq_slippage_bps p = ?bps" "bq_filled p \<le> bq_filled q"
    "\<And>cap. cap_now = Some cap \<Longrightarrow> bq_filled p \<le> cap"
    using assms(2) bq by (auto simp: buy_recap_def Let_def rbind_Ok_iff split: option.splits if_splits)
  have g: "bq_threshold p \<le> out1" "s3 = s2"
    using assms(3) by (auto simp: buy_guard_slippage_def confirm_refuse_def bind_Ok_iff split: if_splits)
  have "bq_out0 p * (10000 - ?bps) < (threshold_of (bq_out0 p) ?bps + 1) * 10000"
    unfolding threshold_of_def by (rule less_div_succ) simp
  also have "\<dots> \<le> (out1 + 1) * 10000" using g(1) p(3) by simp
  finally have "bq_out0 p * (10000 - bq_slippage_bps p) < (out1 + 1) * 10000" using p(4) by simp
  moreover have "0 < bq_x_net p" using p(2) buy_out_Ok by blast
  moreover have "bq_filled p \<le> size0" "bq_filled p \<le> share" using p(5) bq(1) by simp_all
  ultimately show ?thesis
    using p q g by (auto simp: floor_of_def slippage_bps_def)
qed

theorem filled_buy_bounded_witness:
  "\<exists>q p. buy_sizing (\<lambda>s. s) sample_adapter_config sample_call sample_buy 200000000 sample_curve ''paper'' ''c'' (adapter_on idle_engine)
      = (Ok q, adapter_on idle_engine)
    \<and> buy_recap sample_adapter_config q sample_curve (Some 100000000) = Ok p \<and> bq_filled p \<le> 100000000 \<and> 0 < bq_x_net p"
proof -
  have v: "fill_cap sample_adapter_config (cs_s sample_curve) = Ok 2000000000" "floor_of sample_adapter_config 200000000 = 2000000000"
    "venue_fee (ac_fees sample_adapter_config) 200000000 = 2000000" "venue_fee (ac_fees sample_adapter_config) 100000000 = 1000000"
    "buy_out (cs_s sample_curve) (cs_t sample_curve) 198000000 = Ok 1976087347"
    "buy_out (cs_s sample_curve) (cs_t sample_curve) 99000000 = Ok 989020869"
    by (simp_all add: fill_cap_def floor_of_def sample_adapter_config_def sample_curve_def default_budget_def dec_trunc_def dec_mul_int_def
        dec_fix_def ndigits_def dec_prec_def nat_str.simps dec_signed_def venue_fee_def default_fees_def buy_out_def)
  obtain d where d: "dec_ratio 200000000 200000000 = Ok d" using dec_ratio_total [of 200000000 200000000] by auto
  obtain d' where d': "dec_ratio 100000000 200000000 = Ok d'" using dec_ratio_total [of 200000000 100000000] by auto
  obtain q where q: "buy_sizing (\<lambda>s. s) sample_adapter_config sample_call sample_buy 200000000 sample_curve ''paper'' ''c'' (adapter_on idle_engine)
      = (Ok q, adapter_on idle_engine)" "bq_filled q = 200000000" "bq_size q = 200000000"
    using v d by (simp add: buy_sizing_def price_buy_def bind_def Let_def sample_curve_def)
  obtain p where p: "buy_recap sample_adapter_config q sample_curve (Some 100000000) = Ok p"
    using v d' q(2,3) by (simp add: buy_recap_def Let_def)
  have g: "buy_guard_slippage (\<lambda>s. s) sample_adapter_config sample_call sample_buy ''o'' p (bq_threshold p) ''paper'' ''c'' (adapter_on idle_engine)
      = (Ok (), adapter_on idle_engine)"
    by (simp add: buy_guard_slippage_def)
  from filled_buy_bounded [OF q(1) p g] q(1) p show ?thesis by blast
qed

end
