(* ===== verification/HeldDesk.thy ===== *)
theory HeldDesk
  imports AdapterSafety
begin

text \<open>
  A desk that holds one position: the closed instance on which the settlements of a sell and of a
  forced close are run.
\<close>

section \<open>Rows the store takes\<close>

lemma payload_accepted:
  assumes "event_type_of_str ty = Some t" "is_ok (model_dump (event_model t) payload)"
  shows "is_ok (validated_payload ty payload)"
proof -
  obtain kvs where kvs: "model_dump (event_model t) payload = Ok kvs" using assms(2) by (auto simp: is_ok_iff)
  note typed = model_dump_typed [OF kvs model_ok_event_model]
  then have "list_all (\<lambda>(k, v). json_sorted v = v \<and> wf_json v) kvs" using typed_row_values by blast
  then have wf: "wf_json (JObj kvs)" using typed by (auto simp: typed_row_def wf_json_items_iff list_all_iff)
  show ?thesis
    using assms(1) kvs normalize_py_of_json(1) [OF wf, of "''$''"] by (simp add: validated_payload_def canonical_json_def of_option_def)
qed

lemma price_accepted: "is_finite d \<Longrightarrow> dump_value FPrice (PStr (dec_str d)) = Some (JStr (dec_str d))"
  by (simp add: dump_value_def price_decimal_def dec_roundtrip)

lemma dec_fix_finite: "is_finite d \<Longrightarrow> is_finite (dec_fix d)"
  by (simp add: dec_fix_def is_finite_def Let_def split: dec.splits)

lemma dec_div_finite:
  assumes "d \<noteq> 0"
  obtains q where "dec_div (DFin s c e) (DFin t d f) = Some q" "is_finite q"
proof (cases "c = 0")
  case True
  then show thesis using assms that by (simp add: dec_div_def is_finite_def)
next
  case False
  have "\<exists>u. dec_div (DFin s c e) (DFin t d f) = Some (dec_fix u) \<and> is_finite u"
    unfolding dec_div_def using assms False by (simp only: prod.case dec.case if_False Let_def) (simp only: option.inject, rule exI, rule conjI, rule refl, simp add: is_finite_def)
  then show thesis using that dec_fix_finite by blast
qed

lemma dec_ratio_finite: "b \<noteq> 0 \<Longrightarrow> \<exists>d. dec_ratio a b = Ok d \<and> is_finite d"
  by (rule dec_div_finite [of "nat \<bar>b\<bar>" "a < 0" "nat \<bar>a\<bar>" 0 "b < 0" 0]) (simp_all add: dec_ratio_def dec_of_int_def of_option_def)

section \<open>A desk with one position\<close>

definition held_entry :: entry where
  "held_entry = \<lparr>x_ts = sample_ts, x_source = ''paper'', x_cid = ''c'', x_key = ''position|1'', x_type = ''PositionOpened'',
     x_payload = [(''source'', PStr ''paper''), (''mint'', PStr sample_mint), (''price_entry'', PStr ''2''), (''token_units'', PInt 900000000),
       (''cost_basis_lamports'', PInt 80000000), (''opened_ts_utc'', PStr sample_ts)]\<rparr>"

lemma held_appended:
  obtains r where "append (\<lambda>s. s) empty_store held_entry = (Ok r, empty_store\<lparr>events := [r]\<rparr>)"
proof -
  have x: "check_envelope (envelope held_entry) = Ok held_entry" by code_simp
  have "dec_of_str ''2'' = Some (DFin False 2 0)" by code_simp
  then have "is_ok (model_dump (event_model PositionOpened) (x_payload held_entry))"
    by (simp add: model_dump_def event_model_def position_opened_fields_def held_entry_def dump_field_def dump_value_def
        price_decimal_def is_finite_def event_sources_def)
  moreover have "event_type_of_str (x_type held_entry) = Some PositionOpened" unfolding held_entry_def by code_simp
  ultimately obtain pj where pj: "validated_payload (x_type held_entry) (x_payload held_entry) = Ok pj"
    using payload_accepted by (metis is_ok_iff)
  have reach: "reachable (\<lambda>s. s) empty_store" by (simp add: reachable_def)
  obtain r where "append (\<lambda>s. s) empty_store held_entry = (Ok r, empty_store\<lparr>events := events empty_store @ [r]\<rparr>)"
    by (rule append_accepts [OF _ reach _ x pj]) (auto simp: empty_store_def inj_def)
  then show thesis using that by (simp add: empty_store_def)
qed

lemma empty_fold: "fold_of sample_adapter_config sample_call empty_store = Ok sample_state"
proof -
  have p: "read empty_store 0 [] None None None = Ok []" "get_meta empty_store ''initial_equity_lamports'' None = None"
    by (simp_all add: read_def empty_store_def get_meta_def sql_limit_def)
  have "sol_to_lamports (rb_paper_equity_sol default_budget) = Some 10000000000"
    by (simp add: default_budget_def sol_to_lamports_def dec_mul_int_def LAMPORTS_PER_SOL_def dec_fix_def ndigits_def dec_prec_def
      dec_to_int_half_up_def nat_str.simps half_up_div_def dec_signed_def)
  then have q: "budget_equity_lamports default_budget = Ok 10000000000"
    by (simp add: budget_equity_lamports_def of_option_def)
  have "take 10 sample_ts = ''2026-01-01''" by (simp add: sample_ts_def)
  then show ?thesis
    by (simp add: fold_of_def p q utc_day_def sample_call_def idle_parts(1) fold_events_def sample_state_def sample_adapter_config_def)
qed

lemma held_desk:
  obtains st r state pos where "events st = [r]" "reachable (\<lambda>s. s) st" "\<not> inconsistent st" "r_key r = ''position|1''"
    "fold_of sample_adapter_config sample_call st = Ok state" "map_of (l_positions state) sample_mint = Some pos"
    "p_token_units pos = 900000000" "p_cost_basis pos = 80000000" "p_opened_ts pos = sample_ts" "l_cash state = l_cash sample_state"
    "\<not> p_mtm_frozen pos" "r_type r = ''PositionOpened''"
proof -
  obtain r where a: "append (\<lambda>s. s) empty_store held_entry = (Ok r, empty_store\<lparr>events := [r]\<rparr>)" by (rule held_appended)
  let ?st = "empty_store\<lparr>events := [r]\<rparr>"
  have reach: "reachable (\<lambda>s. s) empty_store" "reachable (\<lambda>s. s) ?st"
    using a by (auto simp: reachable_def intro: step_append)
  have x: "check_envelope (envelope held_entry) = Ok held_entry" by code_simp
  have "append_all (\<lambda>s. s) empty_store (map envelope [held_entry]) = Ok ([r], ?st)" using a x by simp
  then have "append_batch (\<lambda>s. s) empty_store (map envelope [held_entry]) = (Ok [r], ?st)"
    using append_batch_sequential [of empty_store "\<lambda>s. s" "map envelope [held_entry]"] by (simp add: empty_store_def)
  from batch_carries [OF this] have c: "carries r held_entry" by simp
  have fold: "fold_of sample_adapter_config sample_call ?st = fold_events sample_state (map parsed [r])"
    by (rule fold_of_more [OF reach _ _ empty_fold]) (simp_all add: empty_store_def)
  obtain s1 q where s1: "reduce sample_state (parsed r) = Ok s1" "l_cash s1 = l_cash sample_state"
    "map_of (l_positions s1) = (map_of (l_positions sample_state))(sample_mint \<mapsto> q)" "p_token_units q = 900000000" "p_cost_basis q = 80000000"
    "p_opened_ts q = sample_ts" "\<not> p_mtm_frozen q"
    by (rule opened_reduced [OF c, of sample_mint 900000000 80000000 sample_ts sample_state]) (simp_all add: held_entry_def sample_mint_def)
  have "r_key r = ''position|1''" "r_type r = ''PositionOpened''" using ledger.put_ok [OF a] by (simp_all add: held_entry_def)
  then show thesis using that [of ?st r s1 q] reach s1 fold by (simp add: fold_events_def empty_store_def)
qed

section \<open>A settled sell\<close>

text \<open>
  C11: a sell never sells more than is held, and the books say what it did. When the checks of the
  confirming stage pass and the sell settles, the units filled are positive and at most the position's
  units at that moment; the fold of the ledger afterwards has exactly those units less and the proceeds
  more; a position sold out is gone; no other mint changes; and the proceeds before the network cost
  meet the threshold of the quote.
\<close>

theorem sold_at_most_held:
  assumes "reachable H (pa_store s)"
    "sell_holding_at_confirming H cf cl r p source cid s = (Ok pos, s1)"
    "sell_slippage_at_confirming H cf cl r p curve1 source cid s1 = (Ok (gross1, out1), s2)"
    "sell_figures_of cf cl p gross1 out1 s2 = (Ok f, s3)"
    "settle_sell H cl r p curve0 curve1 latency pos f exit_reason source cid s3 = (Ok fill, s')"
  shows "\<exists>state state'. fold_of cf cl (pa_store s) = Ok state \<and> fold_of cf cl (pa_store s') = Ok state'
    \<and> 0 < fi_filled_units fill \<and> fi_filled_units fill \<le> units_held state (o_mint r)
    \<and> units_held state' (o_mint r) = units_held state (o_mint r) - fi_filled_units fill
    \<and> l_cash state' = l_cash state + fi_filled_lamports fill
    \<and> (fi_filled_units fill = units_held state (o_mint r) \<longrightarrow> map_of (l_positions state') (o_mint r) = None)
    \<and> (\<forall>m. m \<noteq> o_mint r \<longrightarrow> map_of (l_positions state') m = map_of (l_positions state) m)
    \<and> sp_threshold p \<le> fi_filled_lamports fill + network_cost (ac_fees cf)"
proof -
  obtain state where h: "fold_of cf cl (pa_store s) = Ok state" "map_of (l_positions state) (o_mint r) = pos" "s1 = s"
    "sp_filled_units p \<le> max 0 (units_held state (o_mint r))"
    using assms(2) by (auto simp: sell_holding_at_confirming_def confirm_refuse_def bind_Ok_iff fold_state_Ok Let_def split: if_splits)
  have g: "sell_out (cs_s curve1) (cs_t curve1) (sp_filled_units p) = Ok gross1" "sp_threshold p \<le> out1" "s2 = s1"
    using assms(3) by (auto simp: sell_slippage_at_confirming_def confirm_refuse_def bind_Ok_iff Let_def split: if_splits)
  have f: "sf_proceeds f = out1 - network_cost (ac_fees cf)" "pa_store s3 = pa_store s2"
    using assms(4) pa_ulid_store by (auto simp: sell_figures_of_def bind_Ok_iff)
  have pos: "0 < sp_filled_units p" using g(1) sell_out_Ok by blast
  then have held: "sp_filled_units p \<le> units_held state (o_mint r)" using h(4) by simp
  have st: "pa_store s3 = pa_store s" using f(2) g(3) h(3) by simp
  obtain state' where s': "fold_of cf cl (pa_store s') = Ok state'" "l_cash state' = l_cash state + fi_filled_lamports fill"
    "units_held state' (o_mint r) = units_held state (o_mint r) - fi_filled_units fill"
    "fi_filled_units fill = units_held state (o_mint r) \<Longrightarrow> map_of (l_positions state') (o_mint r) = None"
    "\<And>m. m \<noteq> o_mint r \<Longrightarrow> map_of (l_positions state') m = map_of (l_positions state) m"
    by (rule sell_settles [OF _ _ h(2) pos held assms(5), unfolded st, OF assms(1) h(1)]) blast
  have "fi_filled_lamports fill = sf_proceeds f" "fi_filled_units fill = sp_filled_units p"
    by (rule settle_sell_cases [OF assms(5)], simp)+
  then show ?thesis using h(1) s' pos held g(2) f(1) by (intro exI conjI) auto
qed

subsection \<open>The sell of the whole position\<close>

definition sample_sell :: order_request where
  "sample_sell = sample_buy\<lparr>o_side := SELL, o_size_lamports := None, o_token_units := Some 900000000\<rparr>"

definition sample_order_id :: string where "sample_order_id = ''01ARZ3NDEKTSV4RRFFQ69G5FAV''"

definition sample_plan :: sell_plan where
  "sample_plan = \<lparr>sp_units = 900000000, sp_filled_units = 900000000, sp_fraction = DFin False 1 0, sp_out0 = 89019882, sp_threshold = 88129683,
     sp_impact = DFin False 0 0, sp_order_id = sample_order_id, sp_quote_id = sample_order_id\<rparr>"

lemma fresh_reference:
  obtains u s1 where "pa_ulid cl s = (Inr u, s1)" "ULID_RE u" "pa_store s1 = pa_store s"
    "pa_inflight s1 = pa_inflight s"
proof -
  let ?e = "pa_engine s"
  obtain u n where u: "ulid (en_last_ulid ?e) \<lfloor>fl (cl_now cl * 1000)\<rfloor> (en_bits ?e (en_drawn ?e)) = (u, n)" by force
  have "ULID_RE u" using ulid_pattern [of "en_last_ulid ?e" "\<lfloor>fl (cl_now cl * 1000)\<rfloor>" "en_bits ?e (en_drawn ?e)"] u by simp
  then show thesis using that u by (simp add: pa_ulid_def on_engine_def fresh_ulid_def bind_def)
qed

lemma dry_run_ulid: "ULID_RE u \<Longrightarrow> dry_run_ref (''dry_run:'' @ u)"
  by (simp add: dry_run_ref_def)

lemma sample_times:
  "parse_ts_utc sample_ts = Ok 1767225600" "decimal_of_float 1 = Ok (DFin False 10 (-1))" "ULID_RE sample_order_id" "fl 0 = 0"
  "event_type_of_str ''FillRecorded'' = Some FillRecorded" "event_type_of_str ''PositionClosed'' = Some PositionClosed"
proof -
  show "parse_ts_utc sample_ts = Ok 1767225600" by code_simp
  show "decimal_of_float 1 = Ok (DFin False 10 (-1))" by code_simp
  show "ULID_RE sample_order_id" by code_simp
  show "fl 0 = 0" by (simp add: fl_def)
  show "event_type_of_str ''FillRecorded'' = Some FillRecorded" by code_simp
  show "event_type_of_str ''PositionClosed'' = Some PositionClosed" by code_simp
qed

lemma sample_sell_rows:
  assumes "is_finite q" "is_finite d" "is_finite lat" "is_finite pnl" "ts \<noteq> []"
  shows "is_ok (validated_payload ''FillRecorded'' (x_payload (sell_fill_entry sample_sell sample_plan sample_curve sample_curve (dec_str lat)
      \<lparr>sf_fraction = q, sf_gross1 = g, sf_proceeds = pr, sf_network_cost = n, sf_venue_fee = v, sf_price_avg = d,
        sf_slipped = sl, sf_tx = tx\<rparr> ts ''paper'' ''c'')))"
    "is_ok (validated_payload ''PositionClosed'' (x_payload (closed_entry key sample_mint (dec_str d) pr realized ''manual'' pnl h tx ts ''paper'' ''c'')))"
proof -
  show "is_ok (validated_payload ''FillRecorded'' (x_payload (sell_fill_entry sample_sell sample_plan sample_curve sample_curve (dec_str lat)
      \<lparr>sf_fraction = q, sf_gross1 = g, sf_proceeds = pr, sf_network_cost = n, sf_venue_fee = v, sf_price_avg = d,
        sf_slipped = sl, sf_tx = tx\<rparr> ts ''paper'' ''c'')))"
    by (rule payload_accepted [OF sample_times(5)])
      (simp add: model_dump_def event_model_def fill_recorded_fields_def sell_fill_entry_def dump_field_def
        price_accepted [OF assms(1)] price_accepted [OF assms(2)] price_accepted [OF assms(3)], simp add: dump_value_def event_sources_def)
  show "is_ok (validated_payload ''PositionClosed'' (x_payload (closed_entry key sample_mint (dec_str d) pr realized ''manual'' pnl h tx ts ''paper'' ''c'')))"
    by (rule payload_accepted [OF sample_times(6)])
      (simp add: model_dump_def event_model_def position_closed_fields_def closed_entry_def dump_field_def
        price_accepted [OF assms(2)] price_accepted [OF assms(4)], simp add: dump_value_def event_sources_def)
qed

lemma entry_envelope:
  assumes "x_source x = ''paper''" "x_ts x \<noteq> []" "x_cid x \<noteq> []" "x_key x \<noteq> []" "x_type x \<noteq> []"
  shows "check_envelope (envelope x) = Ok x"
  using assms by (simp add: check_envelope_def envelope_def assert_str_def truthy_def event_sources_def)

theorem sold_at_most_held_witness:
  "\<exists>s pos s1 gross1 out1 s2 f s3 fill s'.
     sell_holding_at_confirming (\<lambda>s. s) sample_adapter_config sample_call sample_sell sample_plan ''paper'' ''c'' s = (Ok pos, s1)
    \<and> settle_sell (\<lambda>s. s) sample_call sample_sell sample_plan sample_curve sample_curve 1 pos f None ''paper'' ''c'' s3 = (Ok fill, s')
    \<and> fi_filled_units fill = 900000000 \<and> fi_filled_lamports fill + network_cost default_fees \<ge> 88129683
    \<and> (\<exists>state. fold_of sample_adapter_config sample_call (pa_store s') = Ok state \<and> map_of (l_positions state) sample_mint = None)"
proof -
  obtain st r state pos where st: "events st = [r]" "reachable (\<lambda>s. s) st" "\<not> inconsistent st" "r_key r = ''position|1''"
    "fold_of sample_adapter_config sample_call st = Ok state" "map_of (l_positions state) sample_mint = Some pos"
    "p_token_units pos = 900000000" "p_cost_basis pos = 80000000" "p_opened_ts pos = sample_ts"
    by (rule held_desk)
  define s where "s = adapter_on (idle_engine\<lparr>en_store := st\<rparr>)"
  have s: "pa_store s = st" by (simp add: s_def adapter_on_def)
  have mint: "o_mint sample_sell = sample_mint" by (simp add: sample_sell_def sample_buy_def)
  have h: "sell_holding_at_confirming (\<lambda>s. s) sample_adapter_config sample_call sample_sell sample_plan ''paper'' ''c'' s = (Ok (Some pos), s)"
    using st(5-7) s mint by (simp add: sell_holding_at_confirming_def fold_state_run bind_def units_held_def sample_plan_def Let_def)
  have v: "sell_out (cs_s sample_curve) (cs_t sample_curve) (sp_filled_units sample_plan) = Ok 89919072"
    "venue_fee (ac_fees sample_adapter_config) 89919072 = 899190" "sp_threshold sample_plan = 88129683"
    by (simp_all add: sell_out_def sample_curve_def sample_plan_def venue_fee_def sample_adapter_config_def default_fees_def)
  have g: "sell_slippage_at_confirming (\<lambda>s. s) sample_adapter_config sample_call sample_sell sample_plan sample_curve ''paper'' ''c'' s
      = (Ok (89919072, 89019882), s)"
    using v by (simp add: sell_slippage_at_confirming_def bind_def Let_def)
  obtain u s3 where u: "pa_ulid sample_call s = (Inr u, s3)" "ULID_RE u" "pa_store s3 = pa_store s" by (rule fresh_reference)
  obtain price where price: "dec_ratio 89919072 900000000 = Ok price" "is_finite price" using dec_ratio_finite [of 900000000 89919072] by auto
  obtain f where f: "sell_figures_of sample_adapter_config sample_call sample_plan 89919072 89019882 s = (Ok f, s3)"
    "f = \<lparr>sf_fraction = DFin False 1 0, sf_gross1 = 89919072, sf_proceeds = sf_proceeds f, sf_network_cost = sf_network_cost f,
        sf_venue_fee = sf_venue_fee f, sf_price_avg = price, sf_slipped = sf_slipped f, sf_tx = ''dry_run:'' @ u\<rparr>"
    using price u by (simp add: sell_figures_of_def bind_def sample_plan_def)
  have ts: "now_ts sample_call = Ok sample_ts" "sample_ts \<noteq> []" by (simp_all add: now_ts_def sample_call_def idle_parts(1) sample_ts_def)
  obtain pnl where pnl: "dec_ratio (sf_proceeds f - 80000000) 80000000 = Ok pnl" "is_finite pnl"
    using dec_ratio_finite [of 80000000 "sf_proceeds f - 80000000"] by auto
  define row where "row = sell_fill_entry sample_sell sample_plan sample_curve sample_curve (dec_str (DFin False 10 (-1))) f sample_ts ''paper'' ''c''"
  define close where "close = closed_entry (''close|'' @ sample_order_id) sample_mint (dec_str price) (sf_proceeds f) (sf_proceeds f - 80000000)
    ''manual'' pnl 0 (sf_tx f) sample_ts ''paper'' ''c''"
  have f3: "sf_price_avg f = price" "sf_tx f = ''dry_run:'' @ u" by (subst f(2), simp)+
  have rows: "sell_rows sample_call sample_sell sample_plan sample_curve sample_curve 1 (Some pos) f None ''paper'' ''c'' = Ok [row, close]"
    using st(7-9) ts pnl(1) sample_times(1,2,4)
    by (simp add: sell_rows_def position_closed_entry_def pnl_fraction_def hold_seconds_def row_def close_def Let_def f3
        sample_plan_def sample_call_def mint)
  have "is_ok (validated_payload ''FillRecorded'' (x_payload row))"
    unfolding row_def by (subst f(2), rule sample_sell_rows(1) [OF _ price(2) _ pnl(2) ts(2)]) (simp_all add: is_finite_def)
  moreover have "is_ok (validated_payload ''PositionClosed'' (x_payload close))"
    unfolding close_def by (rule sample_sell_rows(2) [OF price(2) price(2) price(2) pnl(2) ts(2)])
  moreover have "x_type row = ''FillRecorded''" "x_type close = ''PositionClosed''" "x_key row = ''fill|'' @ sample_order_id"
    "x_key close = ''close|'' @ sample_order_id"
    by (simp_all add: row_def close_def sell_fill_entry_def closed_entry_def sample_plan_def)
  moreover have "check_envelope (envelope row) = Ok row" "check_envelope (envelope close) = Ok close"
    using ts(2) by (auto intro!: entry_envelope simp: row_def close_def sell_fill_entry_def closed_entry_def)
  ultimately have ok: "x \<in> set [row, close] \<Longrightarrow> check_envelope (envelope x) = Ok x \<and> is_ok (validated_payload (x_type x) (x_payload x))
      \<and> x_key x \<notin> r_key ` set (events st)" and d: "distinct (map x_key [row, close])" for x
    using st(1,4) by auto
  obtain done_rows st' where b: "append_batch (\<lambda>s. s) st (map envelope [row, close]) = (Ok done_rows, st')"
    by (rule batch_accepts [OF _ st(2,3) ok d]) (simp_all add: inj_def)
  have s3: "pa_store s3 = st" using u(3) s by simp
  obtain fill s' where fill: "settle_sell (\<lambda>s. s) sample_call sample_sell sample_plan sample_curve sample_curve 1 (Some pos) f None ''paper'' ''c'' s3
      = (Ok fill, s')" "fi_filled_units fill = 900000000"
    using rows b s3 dry_run_ulid [OF u(2)] sample_times(3)
    by (simp add: settle_sell_def bind_def pa_append_batch_def validate_fill_def sample_plan_def f3 sample_sell_def sample_buy_def sample_order_id_def)
  have "reachable (\<lambda>s. s) (pa_store s)" using st(2) s by simp
  from sold_at_most_held [OF this h g f(1) fill(1)] obtain state0 state' where
    "fold_of sample_adapter_config sample_call (pa_store s) = Ok state0" "fold_of sample_adapter_config sample_call (pa_store s') = Ok state'"
    "fi_filled_units fill = units_held state0 sample_mint \<longrightarrow> map_of (l_positions state') sample_mint = None"
    "sp_threshold sample_plan \<le> fi_filled_lamports fill + network_cost (ac_fees sample_adapter_config)"
    unfolding mint by blast
  moreover from this(1) have "units_held state0 sample_mint = 900000000" using st(5-7) s by (simp add: units_held_def)
  ultimately show ?thesis using h fill v(3) by (intro exI conjI) (auto simp: sample_adapter_config_def)
qed

end
