(* ===== verification/ExitRules.thy ===== *)
theory ExitRules
  imports Adapter
begin

text \<open>
  When an open position is sold without a seat asking: the exit rules (\<open>engine/exits.py\<close>), the watcher
  that runs them over a book of positions (\<open>engine/watcher.py\<close>) and the book kept over the ledger
  (\<open>supervisor/exit_rules.py\<close>). Curve reads, the place tool and the graduation close are callbacks of
  the program: they are a record of operations on a world the theory leaves open, in which the ledger
  lives too. Writing peaks to disk is a no-op of this book and is left out; so are the log lines.
\<close>

section \<open>The rules\<close>

record exits_settings =
  es_stop_loss_pct :: rat
  es_take_profit_pct :: rat
  es_trailing_stop_pct :: rat
  es_max_hold_seconds :: rat
  es_stop_loss_poll_seconds :: rat

definition default_exits :: exits_settings where
  "default_exits = \<lparr>es_stop_loss_pct = 30, es_take_profit_pct = 120, es_trailing_stop_pct = 35,
     es_max_hold_seconds = 3600, es_stop_loss_poll_seconds = 15\<rparr>"

record exit_position =
  \<comment> \<open>the fields the rules read; the others keep their defaults\<close>
  xp_mint :: string
  xp_entry_price :: int
  xp_peak_price :: int
  xp_token_amount :: int
  xp_opened_at :: rat

record exit_signal =
  xs_reason :: string
  xs_detail :: string

definition EXIT_REASONS :: "string list" where
  "EXIT_REASONS = [''stop_loss'', ''take_profit'', ''trailing_stop'', ''max_hold'']"

definition PRICE_SCALE :: int where
  "PRICE_SCALE = 1000000000"

definition float_fixed :: "nat \<Rightarrow> rat \<Rightarrow> string" where
  \<comment> \<open>\<open>f"{x:.nf}"\<close> of either sign\<close>
  "float_fixed n x = (if x < 0 then ''-'' else []) @ (if n = 0 then int_str (rhe \<bar>x\<bar>) else fixed n \<bar>x\<bar>)"

definition float_signed :: "nat \<Rightarrow> rat \<Rightarrow> string" where
  \<comment> \<open>\<open>f"{x:+.nf}"\<close>\<close>
  "float_signed n x = (if x < 0 then float_fixed n x else ''+'' @ float_fixed n x)"

definition pnl_pct :: "exit_position \<Rightarrow> int \<Rightarrow> rat" where
  "pnl_pct p price = (if xp_entry_price p \<le> 0 then 0
     else fl (fl (of_int (price - xp_entry_price p) / of_int (xp_entry_price p)) * 100))"

definition stop_loss_triggered :: "exit_position \<Rightarrow> int \<Rightarrow> rat \<Rightarrow> bool" where
  "stop_loss_triggered p price stop_loss_pct =
     (if xp_entry_price p \<le> 0 \<or> price \<le> 0 \<or> stop_loss_pct \<le> 0 then False else - pnl_pct p price \<ge> stop_loss_pct)"

definition drawdown_pct :: "int \<Rightarrow> int \<Rightarrow> rat" where
  "drawdown_pct peak price = fl (fl (of_int (peak - price) / of_int peak) * 100)"

definition exit_signal :: "exit_position \<Rightarrow> int \<Rightarrow> exits_settings \<Rightarrow> rat \<Rightarrow> exit_signal option" where
  "exit_signal p price cfg now =
     (if price \<le> 0 \<or> xp_entry_price p \<le> 0 then None
      else let change = pnl_pct p price; peak = max (xp_peak_price p) price;
               drawdown = drawdown_pct peak price; held = fl (now - xp_opened_at p) in
      if es_stop_loss_pct cfg \<noteq> 0 \<and> - change \<ge> es_stop_loss_pct cfg
      then Some \<lparr>xs_reason = ''stop_loss'', xs_detail = float_signed 1 change @ ''% from entry''\<rparr>
      else if es_take_profit_pct cfg \<noteq> 0 \<and> change \<ge> es_take_profit_pct cfg
      then Some \<lparr>xs_reason = ''take_profit'', xs_detail = float_signed 1 change @ ''% from entry''\<rparr>
      else if es_trailing_stop_pct cfg \<noteq> 0 \<and> peak > xp_entry_price p \<and> drawdown \<ge> es_trailing_stop_pct cfg
      then Some \<lparr>xs_reason = ''trailing_stop'',
        xs_detail = ''drawdown '' @ float_fixed 1 drawdown @ ''% from peak '' @ float_signed 1 (pnl_pct p peak) @ ''%''\<rparr>
      else if es_max_hold_seconds cfg \<noteq> 0 \<and> xp_opened_at p \<noteq> 0 \<and> held \<ge> es_max_hold_seconds cfg
      then Some \<lparr>xs_reason = ''max_hold'', xs_detail = float_fixed 0 (fl (held / 60)) @ '' min in position, '' @ float_signed 1 change @ ''%''\<rparr>
      else None)"

definition apply_price :: "exit_position \<Rightarrow> int \<Rightarrow> exits_settings \<Rightarrow> rat \<Rightarrow> exit_position \<times> exit_signal option" where
  "apply_price p price cfg now = (let p' = p\<lparr>xp_peak_price := max (xp_peak_price p) price\<rparr> in (p', exit_signal p' price cfg now))"

definition scaled_price :: "dec \<Rightarrow> int result" where
  "scaled_price d = of_option (ValueError ''cannot convert to integer'') (dec_to_int_half_up (dec_mul_int d PRICE_SCALE))"

definition restore_peak :: "int \<Rightarrow> dec \<Rightarrow> int result" where
  "restore_peak entry_price ledger_peak = rbind (scaled_price ledger_peak) (\<lambda>scaled. Ok (max entry_price scaled))"

section \<open>The book over the ledger\<close>

record rule_sell =
  rs_mint :: string
  rs_rule :: string
  rs_status :: string
  rs_reason :: string

record 'w exit_rules =
  er_world :: 'w
  er_exits :: exits_settings
  er_positions :: "(string, exit_position) dict"
  er_tickets :: "(string, string) dict"
  er_identity :: "(string, int) dict"
  er_held_out :: "(string \<times> int) list"
  er_sold :: "rule_sell list"
  er_price_failures :: "(string, int) dict"

record 'w exit_io =
  \<comment> \<open>the store, the curves and the callbacks an \<open>ExitRules\<close> is built with\<close>
  io_store :: "'w \<Rightarrow> store"
  io_curve :: "string \<Rightarrow> ('w, curve_snapshot option) eff"
  io_last_open :: "string \<Rightarrow> 'w \<Rightarrow> (int \<times> int) option"
  io_place_sell :: "string \<Rightarrow> string \<Rightarrow> int \<Rightarrow> string \<Rightarrow> ('w, string \<times> string) eff"
  io_graduate :: "(string \<Rightarrow> int \<Rightarrow> int \<Rightarrow> ('w, bool) eff) option"

definition new_exit_rules :: "'w \<Rightarrow> exits_settings \<Rightarrow> 'w exit_rules" where
  "new_exit_rules w exits = \<lparr>er_world = w, er_exits = exits, er_positions = [], er_tickets = [], er_identity = [],
     er_held_out = [], er_sold = [], er_price_failures = []\<rparr>"

definition reload_exits :: "exits_settings \<Rightarrow> 'w exit_rules \<Rightarrow> 'w exit_rules" where
  "reload_exits exits s = s\<lparr>er_exits := exits\<rparr>"

definition on_world :: "('w, 'a) eff \<Rightarrow> ('w exit_rules, 'a) eff" where
  "on_world m s = (case m (er_world s) of (r, w) \<Rightarrow> (r, s\<lparr>er_world := w\<rparr>))"

definition book_ticket :: "string \<Rightarrow> 'w exit_rules \<Rightarrow> string result" where
  "book_ticket mint s = of_option (KeyError mint) (map_of (er_tickets s) mint)"

definition hold_out :: "string \<Rightarrow> ('w exit_rules, unit) eff" where
  "hold_out mint s = (case map_of (er_identity s) mint of
       None \<Rightarrow> (Err (KeyError mint), s)
     | Some sq \<Rightarrow> (Ok (), s\<lparr>er_held_out := List.insert (mint, sq) (er_held_out s)\<rparr>))"

definition opened_mint :: "event \<Rightarrow> string result" where
  "opened_mint e = (if map_of (event_row e) ''mint'' = None then Err (KeyError ''mint'') else row_str (event_row e) ''mint'' [])"

definition sync_step :: "(string, int) dict \<times> lstate \<Rightarrow> event \<Rightarrow> ((string, int) dict \<times> lstate) result" where
  "sync_step x e = (case x of (opened, state) \<Rightarrow>
     rbind (if e_type e = ''PositionOpened'' then rbind (opened_mint e) (\<lambda>m. Ok (dict_set opened m (e_seq e))) else Ok opened) (\<lambda>opened'.
     rbind (reduce state e) (\<lambda>state'. Ok (opened', state'))))"

definition ledger_view :: "store \<Rightarrow> ((string, int) dict \<times> lstate) result" where
  "ledger_view st = rbind (read st 0 [] None None None) (\<lambda>es. rfold sync_step ([], initial_state ''replay'' 0 []) es)"

definition tracked :: "'w exit_rules \<Rightarrow> string \<Rightarrow> int \<Rightarrow> position \<Rightarrow> exit_position result" where
  "tracked s mint sq view =
     rbind (scaled_price (p_price_entry view)) (\<lambda>entry.
     rbind (restore_peak entry (p_price_peak view)) (\<lambda>persisted.
     let peak = (case map_of (er_positions s) mint of
           Some prior \<Rightarrow> if map_of (er_identity s) mint = Some sq then max (xp_peak_price prior) persisted else persisted
         | None \<Rightarrow> persisted) in
     rbind (parse_ts_utc (p_opened_ts view)) (\<lambda>opened_at.
     Ok \<lparr>xp_mint = mint, xp_entry_price = entry, xp_peak_price = peak, xp_token_amount = p_token_units view, xp_opened_at = opened_at\<rparr>)))"

fun sync_views :: "'w exit_rules \<Rightarrow> (string, int) dict \<Rightarrow> (string \<times> position) list \<Rightarrow> (string, exit_position) dict \<Rightarrow> (string, int) dict
    \<Rightarrow> (string, string) dict \<Rightarrow> ((string, exit_position) dict \<times> (string, int) dict) result \<times> (string, string) dict" where
  \<comment> \<open>the loop over the open positions: the fresh book and its identities, and the tickets it noted\<close>
  "sync_views s opened [] fresh ident tickets = (Ok (fresh, ident), tickets)"
| "sync_views s opened ((mint, view) # views) fresh ident tickets =
     (let sq = dict_get_default opened mint 0 in
      if p_token_units view \<le> 0 \<or> (mint, sq) \<in> set (er_held_out s) then sync_views s opened views fresh ident tickets
      else case tracked s mint sq view of
          Inl e \<Rightarrow> (Err e, tickets)
        | Inr x \<Rightarrow> sync_views s opened views (dict_set fresh mint x) (dict_set ident mint sq) (dict_set tickets mint (p_ticket_id view)))"

definition sync :: "'w exit_io \<Rightarrow> ('w exit_rules, unit) eff" where
  "sync io s = (case ledger_view (io_store io (er_world s)) of
       Inl e \<Rightarrow> (Err e, s)
     | Inr (opened, state) \<Rightarrow> (case sync_views s opened (l_positions state) [] [] (er_tickets s) of
         (Inl e, tickets) \<Rightarrow> (Err e, s\<lparr>er_tickets := tickets\<rparr>)
       | (Inr (fresh, ident), tickets) \<Rightarrow> (Ok (), s\<lparr>er_tickets := tickets, er_positions := fresh, er_identity := ident\<rparr>)))"

section \<open>The watcher's pass\<close>

definition rule_price :: "'w exit_io \<Rightarrow> string \<Rightarrow> ('w exit_rules, int) eff" where
  "rule_price io mint = bind (on_world (io_curve io mint)) (\<lambda>c. case c of
       None \<Rightarrow> ret 0
     | Some snapshot \<Rightarrow> if cs_t snapshot \<le> 0 then ret 0 else lift (rbind (spot (cs_s snapshot) (cs_t snapshot)) scaled_price))"

definition rule_sell :: "'w exit_io \<Rightarrow> exit_position \<Rightarrow> string \<Rightarrow> ('w exit_rules, unit) eff" where
  "rule_sell io p reason = bind get (\<lambda>s. bind (lift (book_ticket (xp_mint p) s)) (\<lambda>ticket.
     bind (on_world (io_place_sell io (xp_mint p) ticket (xp_token_amount p) reason)) (\<lambda>(status, why).
     bind (if status = ''unknown'' then hold_out (xp_mint p) else ret ()) (\<lambda>_.
     modify (\<lambda>s. s\<lparr>er_sold := er_sold s @ [\<lparr>rs_mint = xp_mint p, rs_rule = reason, rs_status = status, rs_reason = why\<rparr>]\<rparr>)))))"

definition BLIND_AFTER :: int where
  "BLIND_AFTER = 3"

definition miss :: "string \<Rightarrow> 'w exit_rules \<Rightarrow> 'w exit_rules" where
  "miss mint s = s\<lparr>er_price_failures := dict_set (er_price_failures s) mint (dict_get_default (er_price_failures s) mint 0 + 1)\<rparr>"

definition blind :: "'w exit_rules \<Rightarrow> string list" where
  "blind s = map fst (List.filter (\<lambda>(mint, misses). misses \<ge> BLIND_AFTER \<and> mint \<in> fst ` set (er_positions s)) (er_price_failures s))"

definition watch_position :: "'w exit_io \<Rightarrow> rat \<Rightarrow> exit_position \<Rightarrow> ('w exit_rules, bool) eff" where
  \<comment> \<open>one turn of \<open>check_once\<close>; whether the position was handed to the sell callback\<close>
  "watch_position io now p =
     bind (catching (\<lambda>e. True) (\<lambda>e. ret 0) (rule_price io (xp_mint p))) (\<lambda>price.
     if price \<le> 0 then bind (modify (miss (xp_mint p))) (\<lambda>_. ret False)
     else bind (modify (\<lambda>s. s\<lparr>er_price_failures := dict_pop (er_price_failures s) (xp_mint p)\<rparr>)) (\<lambda>_.
       bind get (\<lambda>s. case apply_price p price (er_exits s) now of (p', signal) \<Rightarrow>
       bind (modify (\<lambda>s. s\<lparr>er_positions := dict_set (er_positions s) (xp_mint p) p'\<rparr>)) (\<lambda>_. case signal of
           None \<Rightarrow> ret False
         | Some x \<Rightarrow> bind (rule_sell io p' (xs_reason x)) (\<lambda>_. ret True)))))"

fun watch_all :: "'w exit_io \<Rightarrow> rat \<Rightarrow> exit_position list \<Rightarrow> ('w exit_rules, string list) eff" where
  "watch_all io now [] = ret []"
| "watch_all io now (p # ps) = bind (watch_position io now p) (\<lambda>hit.
     bind (watch_all io now ps) (\<lambda>rest. ret (if hit then xp_mint p # rest else rest)))"

definition check_once :: "'w exit_io \<Rightarrow> rat \<Rightarrow> ('w exit_rules, string list) eff" where
  "check_once io now = bind get (\<lambda>s. watch_all io now (map snd (er_positions s)))"

section \<open>One pass of the exit seat\<close>

definition close_one :: "'w exit_io \<Rightarrow> (string \<Rightarrow> int \<Rightarrow> int \<Rightarrow> ('w, bool) eff) \<Rightarrow> string \<Rightarrow> ('w exit_rules, unit) eff" where
  "close_one io graduate mint = bind (on_world (io_curve io mint)) (\<lambda>c. case c of
       None \<Rightarrow> ret ()
     | Some snapshot \<Rightarrow> if \<not> cs_complete snapshot then ret ()
         else bind get (\<lambda>s. case io_last_open io mint (er_world s) of
             None \<Rightarrow> ret ()
           | Some (s0, t0) \<Rightarrow> bind (on_world (graduate mint s0 t0)) (\<lambda>row. if row
               then modify (\<lambda>s. s\<lparr>er_sold := er_sold s @ [\<lparr>rs_mint = mint, rs_rule = ''graduated'', rs_status = ''filled'', rs_reason = []\<rparr>]\<rparr>)
               else ret ())))"

definition close_graduated :: "'w exit_io \<Rightarrow> ('w exit_rules, unit) eff" where
  "close_graduated io = (case io_graduate io of
       None \<Rightarrow> ret ()
     | Some graduate \<Rightarrow> bind get (\<lambda>s. for_each (map fst (er_positions s)) (close_one io graduate)))"

definition holding :: "'w exit_io \<Rightarrow> ('w exit_rules, bool) eff" where
  "holding io = bind (sync io) (\<lambda>_. bind get (\<lambda>s. ret (er_positions s \<noteq> [])))"

definition check_exits :: "'w exit_io \<Rightarrow> rat \<Rightarrow> ('w exit_rules, rule_sell list) eff" where
  "check_exits io now = bind (sync io) (\<lambda>_. bind (modify (\<lambda>s. s\<lparr>er_sold := []\<rparr>)) (\<lambda>_.
     bind (close_graduated io) (\<lambda>_. bind (sync io) (\<lambda>_. bind (check_once io now) (\<lambda>_.
     bind get (\<lambda>s. ret (er_sold s)))))))"

section \<open>Rounding keeps order\<close>

lemma powi_step: "(e :: int) < e' \<Longrightarrow> (2 :: rat) ^ 53 * 2 powi e \<le> 2 ^ 52 * 2 powi e'"
proof -
  assume "e < e'"
  have "(2 :: rat) ^ 53 * 2 powi e = 2 powi (53 + e)" by (simp add: power_int_add)
  also have "\<dots> \<le> 2 powi (52 + e')" using \<open>e < e'\<close> by (intro power_int_increasing) auto
  also have "\<dots> = 2 ^ 52 * 2 powi e'" by (simp add: power_int_add)
  finally show ?thesis .
qed

lemma fl_exp_mono:
  assumes "0 < x" "x \<le> y"
  shows "fl_exp x \<le> fl_exp y"
proof (rule ccontr)
  assume "\<not> fl_exp x \<le> fl_exp y"
  then have "(2 :: rat) ^ 53 * 2 powi fl_exp y \<le> 2 ^ 52 * 2 powi fl_exp x" by (intro powi_step) simp
  also have "\<dots> \<le> \<bar>x\<bar>" using assms by (intro fl_exp_lower) simp
  finally show False using fl_exp_upper [of y] assms by simp
qed

lemma fl_mono_pos:
  assumes "0 < x" "x \<le> y"
  shows "fl x \<le> fl y"
proof (cases "fl_exp x = fl_exp y")
  case True
  have "x / 2 powi fl_exp x \<le> y / 2 powi fl_exp x" using assms by (intro divide_right_mono) simp_all
  then have "rhe (x / 2 powi fl_exp x) \<le> rhe (y / 2 powi fl_exp y)" unfolding True by (rule rhe_mono)
  then show ?thesis using assms True by (simp add: fl_def mult_right_mono)
next
  case False
  then have e: "fl_exp x < fl_exp y" using fl_exp_mono [OF assms] by simp
  have "x / 2 powi fl_exp x \<le> of_int (2 ^ 53)"
    using fl_exp_upper [of x] assms by (simp add: pos_divide_le_eq)
  then have "rhe (x / 2 powi fl_exp x) \<le> 2 ^ 53" by (rule rhe_le)
  then have "(of_int (rhe (x / 2 powi fl_exp x)) :: rat) \<le> 2 ^ 53" by (metis of_int_le_iff of_int_numeral of_int_power)
  then have "fl x \<le> 2 ^ 53 * 2 powi fl_exp x" using assms by (simp add: fl_def mult_right_mono)
  also have "\<dots> \<le> 2 ^ 52 * 2 powi fl_exp y" by (rule powi_step [OF e])
  also have "\<dots> \<le> fl y"
  proof -
    have "of_int (2 ^ 52) \<le> y / 2 powi fl_exp y"
      using fl_exp_lower [of y] assms by (simp add: pos_le_divide_eq)
    then have "2 ^ 52 \<le> rhe (y / 2 powi fl_exp y)" by (rule rhe_ge)
    then have "(2 :: rat) ^ 52 \<le> of_int (rhe (y / 2 powi fl_exp y))" by (metis of_int_le_iff of_int_numeral of_int_power)
    then show ?thesis using assms by (simp add: fl_def mult_right_mono)
  qed
  finally show ?thesis .
qed

lemma rhe_minus: "rhe (- x) = - rhe x"
proof (cases "x = of_int \<lfloor>x\<rfloor>")
  case True
  then obtain m where "x = of_int m" by blast
  then show ?thesis using rhe_of_int [of "- m"] by simp
next
  case False
  then have lt: "of_int \<lfloor>x\<rfloor> < x" using of_int_floor_le [of x] by (metis order_less_le)
  moreover have "x < of_int \<lfloor>x\<rfloor> + 1" using floor_correct [of x] by simp
  ultimately have f: "\<lfloor>- x\<rfloor> = - \<lfloor>x\<rfloor> - 1" by (intro floor_unique) simp_all
  define d where "d = x - of_int \<lfloor>x\<rfloor>"
  have d: "- x - of_int (- \<lfloor>x\<rfloor> - 1) = 1 - d" by (simp add: d_def)
  have "rhe (- x) = (if 1 - d > 1 / 2 \<or> (1 - d = 1 / 2 \<and> even \<lfloor>x\<rfloor>) then - \<lfloor>x\<rfloor> else - \<lfloor>x\<rfloor> - 1)"
    unfolding rhe_def Let_def f d by simp
  moreover have "rhe x = (if d > 1 / 2 \<or> (d = 1 / 2 \<and> odd \<lfloor>x\<rfloor>) then \<lfloor>x\<rfloor> + 1 else \<lfloor>x\<rfloor>)"
    by (simp add: rhe_def Let_def d_def)
  ultimately show ?thesis by (cases "d = 1 / 2") auto
qed

lemma fl_minus: "fl (- x) = - fl x"
  by (simp add: fl_def fl_exp_def rhe_minus)

lemma fl_mono: "x \<le> y \<Longrightarrow> fl x \<le> fl y"
proof -
  assume xy: "x \<le> y"
  consider "0 < x" | "x \<le> 0" "0 \<le> y" | "y < 0" using xy by linarith
  then show ?thesis
  proof cases
    case 2
    then show ?thesis using fl_nonneg [of "- x"] fl_nonneg [of y] by (simp add: fl_minus)
  next
    case 3
    then show ?thesis using fl_mono_pos [of "- y" "- x"] xy by (simp add: fl_minus)
  qed (use xy fl_mono_pos in blast)
qed

section \<open>Rebuilding the book\<close>

definition book_ok :: "'w exit_rules \<Rightarrow> bool" where
  \<comment> \<open>every tracked position is filed under its mint, known by its opening row and not held out\<close>
  "book_ok s \<longleftrightarrow> (\<forall>(m, p) \<in> set (er_positions s). xp_mint p = m
     \<and> (\<exists>sq. map_of (er_identity s) m = Some sq \<and> (m, sq) \<notin> set (er_held_out s)))"

lemma tracked_Ok:
  assumes "tracked s mint sq view = Ok x"
  shows "xp_mint x = mint" "xp_entry_price x \<le> xp_peak_price x"
    "map_of (er_positions s) mint = Some q \<Longrightarrow> map_of (er_identity s) mint = Some sq \<Longrightarrow> xp_peak_price q \<le> xp_peak_price x"
  using assms by (auto simp: tracked_def restore_peak_def rbind_Ok_iff Let_def split: option.splits if_splits)

lemma sync_views_spec:
  assumes "sync_views s opened views fresh ident tickets = (Ok (fresh', ident'), tickets')"
    "\<forall>m p. map_of fresh m = Some p \<longrightarrow> (\<exists>sq. map_of ident m = Some sq \<and> P m sq p)"
    "\<And>m sq view p. tracked s m sq view = Ok p \<Longrightarrow> (m, sq) \<notin> set (er_held_out s) \<Longrightarrow> P m sq p"
  shows "\<forall>m p. map_of fresh' m = Some p \<longrightarrow> (\<exists>sq. map_of ident' m = Some sq \<and> P m sq p)"
  using assms(1,2)
proof (induction views arbitrary: fresh ident tickets)
  case (Cons mv views)
  obtain mint view where mv: "mv = (mint, view)" by force
  let ?sq = "dict_get_default opened mint 0"
  show ?case
  proof (cases "p_token_units view \<le> 0 \<or> (mint, ?sq) \<in> set (er_held_out s)")
    case True
    then show ?thesis using Cons mv by (simp add: Let_def)
  next
    case False
    then obtain x where x: "tracked s mint ?sq view = Ok x" "sync_views s opened views (dict_set fresh mint x) (dict_set ident mint ?sq)
        (dict_set tickets mint (p_ticket_id view)) = (Ok (fresh', ident'), tickets')"
      using Cons.prems(1) mv by (auto simp: Let_def split: sum.splits)
    have "P mint ?sq x" using assms(3) x(1) False by blast
    then show ?thesis using Cons.prems(2) by (intro Cons.IH [OF x(2)]) (simp add: update_conv')
  qed
qed simp

lemma sync_views_keys:
  assumes "sync_views s opened views fresh ident tickets = (Ok (fresh', ident'), tickets')" "wf_dict fresh"
  shows "wf_dict fresh'"
  using assms
  by (induction views arbitrary: fresh ident tickets) (auto simp: Let_def split: if_splits sum.splits)

lemma sync_Ok:
  assumes "sync io s = (Ok u, s')"
  shows "book_ok s'" "er_held_out s' = er_held_out s" "er_sold s' = er_sold s" "wf_dict (er_positions s')"
    "map_of (er_positions s') m = Some p \<Longrightarrow> \<exists>sq. map_of (er_identity s') m = Some sq \<and> xp_entry_price p \<le> xp_peak_price p
       \<and> (\<forall>q. map_of (er_positions s) m = Some q \<and> map_of (er_identity s) m = Some sq \<longrightarrow> xp_peak_price q \<le> xp_peak_price p)"
proof -
  obtain opened fresh ident tickets and state :: lstate where v: "sync_views s opened (l_positions state) [] [] (er_tickets s) = (Ok (fresh, ident), tickets)"
    and s': "s' = s\<lparr>er_tickets := tickets, er_positions := fresh, er_identity := ident\<rparr>"
  proof (cases "ledger_view (io_store io (er_world s))")
    case (Inr x)
    obtain opened state where x: "x = (opened, state)" by force
    obtain r tickets where v: "sync_views s opened (l_positions state) [] [] (er_tickets s) = (r, tickets)" by force
    show thesis
    proof (cases r)
      case r: (Inr y)
      obtain fresh ident where y: "y = (fresh, ident)" by force
      have "sync_views s opened (l_positions state) [] [] (er_tickets s) = (Ok (fresh, ident), tickets)" using v r y by simp
      moreover have "s' = s\<lparr>er_tickets := tickets, er_positions := fresh, er_identity := ident\<rparr>"
        using assms Inr x v r y by (simp add: sync_def)
      ultimately show thesis by (rule that)
    qed (use assms Inr x v in \<open>simp add: sync_def\<close>)
  qed (use assms in \<open>simp add: sync_def\<close>)
  let ?P = "\<lambda>m sq p. (m, sq) \<notin> set (er_held_out s) \<and> xp_mint p = m \<and> xp_entry_price p \<le> xp_peak_price p
       \<and> (\<forall>q. map_of (er_positions s) m = Some q \<and> map_of (er_identity s) m = Some sq \<longrightarrow> xp_peak_price q \<le> xp_peak_price p)"
  have all: "\<forall>m p. map_of fresh m = Some p \<longrightarrow> (\<exists>sq. map_of ident m = Some sq \<and> ?P m sq p)"
    by (rule sync_views_spec [OF v]) (use tracked_Ok in \<open>auto\<close>)
  show "wf_dict (er_positions s')" using sync_views_keys [OF v] s' by simp
  then have "map_of fresh m = Some p" if "(m, p) \<in> set fresh" for m p using that s' by (simp add: wf_dict_def)
  then show "book_ok s'" using all s' by (fastforce simp: book_ok_def)
  show "er_held_out s' = er_held_out s" "er_sold s' = er_sold s" using s' by simp_all
  show "map_of (er_positions s') m = Some p \<Longrightarrow> \<exists>sq. map_of (er_identity s') m = Some sq \<and> xp_entry_price p \<le> xp_peak_price p
       \<and> (\<forall>q. map_of (er_positions s) m = Some q \<and> map_of (er_identity s) m = Some sq \<longrightarrow> xp_peak_price q \<le> xp_peak_price p)"
    using all s' by fastforce
qed

lemma sync_Err: "sync io s = (Err e, s') \<Longrightarrow> er_held_out s' = er_held_out s \<and> er_sold s' = er_sold s
    \<and> er_positions s' = er_positions s \<and> er_identity s' = er_identity s"
  by (auto simp: sync_def split: sum.splits prod.splits)

section \<open>The pass\<close>

definition sold_once :: "(string \<times> int) set \<Rightarrow> (string, int) dict \<Rightarrow> rule_sell list \<Rightarrow> 'w exit_rules \<Rightarrow> bool" where
  \<comment> \<open>what every step of a pass keeps: nothing leaves \<open>held\<close>, and each new rule sell is of a position
      outside it that is held out when its outcome is unknown\<close>
  "sold_once held ident sold0 s \<longleftrightarrow> er_identity s = ident \<and> held \<subseteq> set (er_held_out s)
     \<and> (\<forall>x \<in> set (er_sold s). x \<in> set sold0 \<or> rs_rule x = ''graduated''
          \<or> (\<exists>sq. map_of ident (rs_mint x) = Some sq \<and> (rs_mint x, sq) \<notin> held
               \<and> (rs_status x = ''unknown'' \<longrightarrow> (rs_mint x, sq) \<in> set (er_held_out s))))"

lemma on_world_keeps [keeps_intros]: "(\<And>s w. I s \<Longrightarrow> I (s\<lparr>er_world := w\<rparr>)) \<Longrightarrow> keeps I (on_world m)"
  by (auto simp: keeps_def on_world_def split: prod.splits)

lemma rule_price_keeps [keeps_intros]: "(\<And>s w. I s \<Longrightarrow> I (s\<lparr>er_world := w\<rparr>)) \<Longrightarrow> keeps I (rule_price io mint)"
  unfolding rule_price_def by (intro keeps_intros) (auto split: option.splits intro!: keeps_intros)

lemma rule_sell_once:
  fixes io :: "'w exit_io"
  assumes "map_of ident (xp_mint p) = Some sq" "(xp_mint p, sq) \<notin> held" "reason \<noteq> ''graduated''"
  shows "keeps (sold_once held ident sold0) (rule_sell io p reason)"
  unfolding keeps_def
proof (intro allI impI)
  fix s :: "'w exit_rules"
  assume j: "sold_once held ident sold0 s"
  let ?m = "\<lambda>t. on_world (io_place_sell io (xp_mint p) t (xp_token_amount p) reason) s"
  define out s1 where "out t = fst (?m t)" and "s1 t = snd (?m t)" for t
  then have p: "?m t = (out t, s1 t)" for t by simp
  have j1: "sold_once held ident sold0 (s1 t)" for t
    by (rule keepsD [where I = "sold_once held ident sold0", OF on_world_keeps j p]) (simp add: sold_once_def)
  show "sold_once held ident sold0 (snd (rule_sell io p reason s))"
  proof (cases "book_ticket (xp_mint p) s")
    case (Inr t)
    show ?thesis
    proof (cases "out t")
      case (Inr x)
      obtain status why where x: "x = (status, why)" by force
      have "map_of (er_identity (s1 t)) (xp_mint p) = Some sq" using j1 [of t] assms(1) by (simp add: sold_once_def)
      then show ?thesis
        using j1 [of t] Inr \<open>book_ticket (xp_mint p) s = Inr t\<close> p [of t] x assms
        by (auto simp: rule_sell_def bind_def hold_out_def sold_once_def)
    qed (use j1 \<open>book_ticket (xp_mint p) s = Inr t\<close> p in \<open>simp add: rule_sell_def bind_def\<close>)
  qed (use j in \<open>simp add: rule_sell_def bind_def\<close>)
qed

lemma signal_reason: "exit_signal p price cfg now = Some x \<Longrightarrow> xs_reason x \<in> set EXIT_REASONS"
  by (auto simp: exit_signal_def EXIT_REASONS_def Let_def split: if_splits)

lemma not_graduated: "''graduated'' \<notin> set EXIT_REASONS"
  by (simp add: EXIT_REASONS_def)

lemma watch_position_once:
  assumes "map_of ident (xp_mint p) = Some sq" "(xp_mint p, sq) \<notin> held"
  shows "keeps (sold_once held ident sold0) (watch_position io now p)"
proof -
  have sell: "keeps (sold_once held ident sold0) (rule_sell io p' (xs_reason x))"
    if "apply_price p price cfg now = (p', Some x)" for price cfg p' x
  proof (rule rule_sell_once)
    have "xs_reason x \<in> set EXIT_REASONS" using that signal_reason by (auto simp: apply_price_def Let_def)
    then show "xs_reason x \<noteq> ''graduated''" using not_graduated by metis
  qed (use assms that in \<open>auto simp: apply_price_def Let_def\<close>)
  show ?thesis
    unfolding watch_position_def
    by (auto intro!: keeps_intros sell simp: sold_once_def miss_def split: prod.splits option.splits)
qed

lemma watch_all_once:
  assumes "\<And>p. p \<in> set ps \<Longrightarrow> \<exists>sq. map_of ident (xp_mint p) = Some sq \<and> (xp_mint p, sq) \<notin> held"
  shows "keeps (sold_once held ident sold0) (watch_all io now ps)"
  using assms
proof (induction ps)
  case (Cons p ps)
  obtain sq where "map_of ident (xp_mint p) = Some sq" "(xp_mint p, sq) \<notin> held" using Cons.prems by auto
  from watch_position_once [OF this] show ?case using Cons by (auto intro!: keeps_intros)
qed simp

lemma close_graduated_once:
  "keeps (\<lambda>s. er_held_out s = held \<and> er_identity s = ident \<and> (\<forall>x \<in> set (er_sold s). rs_rule x = ''graduated'')) (close_graduated io)"
proof -
  have "keeps (\<lambda>s. er_held_out s = held \<and> er_identity s = ident \<and> (\<forall>x \<in> set (er_sold s). rs_rule x = ''graduated''))
      (close_one io graduate mint)" for graduate mint
    unfolding close_one_def by (auto intro!: keeps_intros split: option.splits)
  then show ?thesis unfolding close_graduated_def by (auto intro!: keeps_intros split: option.splits)
qed

text \<open>
  C12: a sell whose outcome is unknown is never sent again. Whatever the curves, the venue and the
  graduation close do, and also when the pass ends in an exception, a pass of the exit seat only adds to
  the set of positions held out; every sell it places by a rule is of a tracked position (a mint with its
  opening row) that was not held out before, and is held out afterwards if the venue answered unknown.
\<close>

theorem unknown_sell_not_repeated:
  assumes "check_exits io now s = (out, s')"
  shows "set (er_held_out s) \<subseteq> set (er_held_out s')
    \<and> (\<forall>x \<in> set (er_sold s'). x \<in> set (er_sold s) \<or> rs_rule x = ''graduated''
        \<or> (\<exists>sq. map_of (er_identity s') (rs_mint x) = Some sq \<and> (rs_mint x, sq) \<notin> set (er_held_out s)
             \<and> (rs_status x = ''unknown'' \<longrightarrow> (rs_mint x, sq) \<in> set (er_held_out s'))))"
proof -
  obtain r1 s1 where s1: "sync io s = (r1, s1)" by force
  show ?thesis
  proof (cases r1)
    case (Inl e)
    then show ?thesis using assms s1 sync_Err [of io s e s1] by (auto simp: check_exits_def)
  next
    case (Inr u)
    let ?s1 = "s1\<lparr>er_sold := []\<rparr>"
    obtain r2 s2 where s2: "close_graduated io ?s1 = (r2, s2)" by force
    have h2: "er_held_out s2 = er_held_out s" "\<forall>x \<in> set (er_sold s2). rs_rule x = ''graduated''"
      using keepsD [OF close_graduated_once [of "er_held_out s" "er_identity s1" io] _ s2] sync_Ok(2) [of io s u s1] s1 Inr by auto
    show ?thesis
    proof (cases r2)
      case (Inl e)
      then show ?thesis using assms s1 Inr s2 h2 by (simp add: check_exits_def)
    next
      case (Inr u2)
      obtain r3 s3 where s3: "sync io s2 = (r3, s3)" by force
      show ?thesis
      proof (cases r3)
        case (Inl e)
        then show ?thesis
          using assms s1 \<open>r1 = Inr u\<close> s2 Inr s3 h2 sync_Err [of io s2 e s3] by (auto simp: check_exits_def)
      next
        case (Inr u3)
        note b = sync_Ok [OF s3 [unfolded Inr]]
        obtain r4 s4 where s4: "check_once io now s3 = (r4, s4)" by force
        have "keeps (sold_once (set (er_held_out s)) (er_identity s3) []) (watch_all io now (map snd (er_positions s3)))"
          by (rule watch_all_once) (use b(1,2) h2(1) in \<open>fastforce simp: book_ok_def\<close>)
        moreover have "sold_once (set (er_held_out s)) (er_identity s3) [] s3"
          using b(2,3) h2 by (simp add: sold_once_def)
        ultimately have "sold_once (set (er_held_out s)) (er_identity s3) [] s4"
          using s4 by (auto simp: check_once_def keeps_def bind_def split: prod.splits)
        moreover have "s' = s4"
          using assms s1 \<open>r1 = Inr u\<close> s2 \<open>r2 = Inr u2\<close> s3 Inr s4 by (cases r4) (simp_all add: check_exits_def)
        ultimately show ?thesis by (auto simp: sold_once_def)
      qed
    qed
  qed
qed

definition idle_io :: "store exit_io" where
  "idle_io = \<lparr>io_store = (\<lambda>w. w), io_curve = (\<lambda>m. ret None), io_last_open = (\<lambda>m w. None),
     io_place_sell = (\<lambda>m t n r. ret (''unknown'', [])), io_graduate = None\<rparr>"

definition held_rules :: "store exit_rules" where
  "held_rules = (new_exit_rules empty_store default_exits)\<lparr>er_held_out := [(''m'', 7)]\<rparr>"

theorem unknown_sell_not_repeated_witness:
  "\<exists>s'. check_exits idle_io 0 held_rules = (Ok [], s') \<and> (''m'', 7) \<in> set (er_held_out s')"
proof -
  have v: "ledger_view empty_store = Ok ([], initial_state ''replay'' 0 [])"
    by (simp add: ledger_view_def read_def empty_store_def sql_limit_def)
  obtain s' where r: "check_exits idle_io 0 held_rules = (Ok [], s')"
    by (simp add: check_exits_def sync_def v idle_io_def held_rules_def new_exit_rules_def initial_state_def close_graduated_def
        check_once_def bind_def)
  have "(''m'', 7) \<in> set (er_held_out held_rules)" by (simp add: held_rules_def)
  then have "(''m'', 7) \<in> set (er_held_out s')" using unknown_sell_not_repeated [OF r] by blast
  then show ?thesis using r by blast
qed

section \<open>Peaks\<close>

inductive book_step :: "'w exit_io \<Rightarrow> 'w exit_rules \<Rightarrow> 'w exit_rules \<Rightarrow> bool" for io where
  \<comment> \<open>what happens to the book: a rebuild, a watcher's pass, graduation closes, the world moving on, new thresholds\<close>
  step_sync: "sync io s = (out, s') \<Longrightarrow> book_step io s s'"
| step_watch: "check_once io now s = (out, s') \<Longrightarrow> book_step io s s'"
| step_graduate: "close_graduated io s = (out, s') \<Longrightarrow> book_step io s s'"
| step_world: "book_step io s (s\<lparr>er_world := w, er_sold := sold\<rparr>)"
| step_reload: "book_step io s (reload_exits exits s)"

definition peaks_from :: "'w exit_rules \<Rightarrow> 'w exit_rules \<Rightarrow> bool" where
  \<comment> \<open>no tracked position has a lower peak than before\<close>
  "peaks_from s s' \<longleftrightarrow> (\<forall>m p sq p'. map_of (er_positions s) m = Some p \<and> map_of (er_identity s) m = Some sq
     \<and> map_of (er_positions s') m = Some p' \<and> map_of (er_identity s') m = Some sq \<longrightarrow> xp_peak_price p \<le> xp_peak_price p')"

definition at_least :: "(string, exit_position) dict \<Rightarrow> (string, int) dict \<Rightarrow> 'w exit_rules \<Rightarrow> bool" where
  "at_least ps ident s \<longleftrightarrow> er_identity s = ident
     \<and> (\<forall>m p p'. map_of ps m = Some p \<and> map_of (er_positions s) m = Some p' \<longrightarrow> xp_peak_price p \<le> xp_peak_price p')"

lemma rule_sell_positions: "keeps (at_least ps ident) (rule_sell io p reason)"
proof -
  have "keeps (at_least ps ident) (hold_out m)" for m
    by (auto simp: keeps_def hold_out_def at_least_def split: option.splits)
  then show ?thesis
    unfolding rule_sell_def by (auto intro!: keeps_intros simp: at_least_def split: prod.splits)
qed

lemma watch_position_peaks:
  assumes "map_of ps (xp_mint p) = Some p"
  shows "keeps (at_least ps ident) (watch_position io now p)"
proof -
  have peak: "apply_price p price cfg now = (p', x) \<Longrightarrow> xp_peak_price p \<le> xp_peak_price p'" for price cfg p' x
    by (auto simp: apply_price_def Let_def)
  show ?thesis
    unfolding watch_position_def using assms
    by (auto intro!: keeps_intros rule_sell_positions simp: at_least_def miss_def split: prod.splits option.splits) (rule peak, assumption)+
qed

lemma watch_all_peaks:
  assumes "\<And>p. p \<in> set xs \<Longrightarrow> map_of ps (xp_mint p) = Some p"
  shows "keeps (at_least ps ident) (watch_all io now xs)"
  using assms by (induction xs) (auto intro!: keeps_intros watch_position_peaks)

text \<open>
  C13: the peak of a tracked position never falls. Whatever happens to the book (a rebuild from the ledger,
  a watcher's pass, a graduation close, new thresholds, any change of the ledger and the market in
  between), while a mint stays the same position (the same opening row) its peak price does not decrease,
  so a trailing stop never gives ground; and right after a rebuild it is at least the entry price.
\<close>

theorem peaks_never_fall:
  assumes "book_step io s s'" "wf_dict (er_positions s)" "\<forall>(m, p) \<in> set (er_positions s). xp_mint p = m"
  shows "peaks_from s s'
    \<and> (\<forall>out m p. sync io s = (Ok out, s') \<and> map_of (er_positions s') m = Some p \<longrightarrow> xp_entry_price p \<le> xp_peak_price p)"
proof
  have refl: "peaks_from s s'" if "er_positions s' = er_positions s" "er_identity s' = er_identity s"
    using that by (auto simp: peaks_from_def)
  show "peaks_from s s'"
    using assms(1)
  proof cases
    case (step_sync out)
    show ?thesis
    proof (cases out)
      case (Inl e)
      then show ?thesis using refl sync_Err [of io s e s'] step_sync by blast
    next
      case (Inr u)
      then show ?thesis using sync_Ok(5) [of io s u s'] step_sync by (fastforce simp: peaks_from_def)
    qed
  next
    case (step_watch now out)
    have self: "map_of (er_positions s) (xp_mint p) = Some p" if "p \<in> set (map snd (er_positions s))" for p
      using that assms(2,3) by (fastforce simp: wf_dict_def)
    have "keeps (at_least (er_positions s) (er_identity s)) (watch_all io now (map snd (er_positions s)))"
      by (rule watch_all_peaks) (rule self)
    moreover have "at_least (er_positions s) (er_identity s) s" by (auto simp: at_least_def)
    ultimately have "at_least (er_positions s) (er_identity s) s'"
      using step_watch by (auto simp: check_once_def keeps_def bind_def split: prod.splits)
    then show ?thesis by (auto simp: at_least_def peaks_from_def)
  next
    case (step_graduate out)
    have one: "keeps (\<lambda>t. er_positions t = er_positions s \<and> er_identity t = er_identity s) (close_one io graduate mint)" for graduate mint
      unfolding close_one_def by (auto intro!: keeps_intros split: option.splits)
    have "keeps (\<lambda>t. er_positions t = er_positions s \<and> er_identity t = er_identity s) (close_graduated io)"
      unfolding close_graduated_def by (auto intro!: keeps_intros one split: option.splits)
    from keepsD [OF this _ step_graduate] show ?thesis using refl by simp
  qed (use refl in \<open>simp_all add: reload_exits_def\<close>)
  show "\<forall>out m p. sync io s = (Ok out, s') \<and> map_of (er_positions s') m = Some p \<longrightarrow> xp_entry_price p \<le> xp_peak_price p"
    using sync_Ok(5) by fastforce
qed

definition tracking_rules :: "store exit_rules" where
  "tracking_rules = (new_exit_rules empty_store default_exits)\<lparr>er_positions := [(''m'', \<lparr>xp_mint = ''m'', xp_entry_price = 10,
     xp_peak_price = 12, xp_token_amount = 5, xp_opened_at = 1\<rparr>)], er_identity := [(''m'', 7)]\<rparr>"

theorem peaks_never_fall_witness:
  "\<exists>s'. check_once idle_io 100 tracking_rules = (Ok [], s') \<and> peaks_from tracking_rules s'
    \<and> map_of (er_positions s') ''m'' = map_of (er_positions tracking_rules) ''m''"
proof -
  obtain s' where r: "check_once idle_io 100 tracking_rules = (Ok [], s')" "er_positions s' = er_positions tracking_rules"
    by (simp add: check_once_def tracking_rules_def new_exit_rules_def bind_def watch_position_def catching_def rule_price_def on_world_def
        idle_io_def miss_def)
  have "peaks_from tracking_rules s'"
    using peaks_never_fall [OF step_watch [OF r(1)]] by (simp add: tracking_rules_def wf_dict_def)
  then show ?thesis using r by simp
qed

section \<open>Deeper losses\<close>

text \<open>
  A stop loss that fires keeps firing on the way down. If the rules close a position at some price
  for its stop loss, they close it for its stop loss at every lower positive price, at any time and with
  any peak: the float arithmetic of the percentage cannot lift a deeper loss back over the threshold, and
  no other rule takes the exit over.
\<close>

theorem stop_loss_is_monotone:
  assumes "exit_signal p price cfg now = Some x" "xs_reason x = ''stop_loss''" "0 < price'" "price' \<le> price"
  shows "\<exists>y. exit_signal (p\<lparr>xp_peak_price := peak\<rparr>) price' cfg now' = Some y \<and> xs_reason y = ''stop_loss''"
proof -
  have e: "0 < xp_entry_price p" "es_stop_loss_pct cfg \<noteq> 0" "- pnl_pct p price \<ge> es_stop_loss_pct cfg"
    using assms(1,2) by (auto simp: exit_signal_def Let_def split: if_splits)
  have "pnl_pct p price' \<le> pnl_pct p price"
    using assms(4) e(1) by (auto simp: pnl_pct_def intro!: fl_mono mult_right_mono divide_right_mono)
  then have "- pnl_pct p price' \<ge> es_stop_loss_pct cfg" using e(3) by simp
  then show ?thesis using e assms(3) by (simp add: exit_signal_def pnl_pct_def Let_def)
qed

theorem stop_loss_is_monotone_witness:
  "\<exists>y. exit_signal \<lparr>xp_mint = ''m'', xp_entry_price = 1000, xp_peak_price = 1500, xp_token_amount = 5, xp_opened_at = 1\<rparr> 500 default_exits 9000
     = Some y \<and> xs_reason y = ''stop_loss''"
proof -
  let ?p = "\<lparr>xp_mint = ''m'', xp_entry_price = 1000, xp_peak_price = 1000, xp_token_amount = 5, xp_opened_at = 1\<rparr> :: exit_position"
  have v: "pnl_pct ?p 600 = -40" by code_simp
  then obtain x where x: "exit_signal ?p 600 default_exits 2 = Some x" "xs_reason x = ''stop_loss''"
    by (simp add: exit_signal_def Let_def default_exits_def)
  from stop_loss_is_monotone [OF x, of 500 1500 9000] show ?thesis by simp
qed

end
