(* ===== verification/Fixtures.thy ===== *)
theory Fixtures
  imports ExitRules LedgerClients
begin

text \<open>
  Recorded datasets: the manifest-gated loader (\<open>replay/fixtures.py\<close>) and the curve reads a replay
  prices from (\<open>replay/sources.py\<close>). A directory is its entries by name; a file is its text (the decoded
  bytes), and SHA-256 of a file is the argument \<open>H\<close>. Splitting a text into lines is at line feeds, with
  the carriage returns of universal newlines taken as line ends too.
\<close>

section \<open>Directories and their files\<close>

datatype entry_kind = Symlink | Folder | Regular string

type_synonym directory = "(string, entry_kind) dict"

definition corrupt :: "string \<Rightarrow> string \<Rightarrow> err" where
  \<comment> \<open>\<open>CorruptFixture\<close> with the file it names\<close>
  "corrupt what file = PumpgrokError ''corrupt_fixture'' (what @ '': '' @ file)"

definition name_char :: "char \<Rightarrow> bool" where
  "name_char c \<longleftrightarrow> c \<in> set ''ABCDEFGHIJKLMNOPQRSTUVWXYZabcdefghijklmnopqrstuvwxyz0123456789_''"

definition plain_name :: "string \<Rightarrow> bool" where
  \<comment> \<open>\<open>_NAME_RE\<close> and no dot-dot inside\<close>
  "plain_name s \<longleftrightarrow> (case s of [] \<Rightarrow> False
     | c # cs \<Rightarrow> name_char c \<and> list_all (\<lambda>d. name_char d \<or> d = CHR ''.'' \<or> d = CHR ''-'') cs)
     \<and> list_all (\<lambda>(a, b). \<not> (a = CHR ''.'' \<and> b = CHR ''.'')) (zip s (tl s))"

fun no_constants :: "json \<Rightarrow> bool"
  and no_constants_list :: "json list \<Rightarrow> bool"
  and no_constants_items :: "(string \<times> json) list \<Rightarrow> bool" where
  "no_constants (JFloat t) = (t \<notin> {''NaN'', ''Infinity'', ''-Infinity''})"
| "no_constants (JArr vs) = no_constants_list vs"
| "no_constants (JObj kvs) = no_constants_items kvs"
| "no_constants j = True"
| "no_constants_list [] = True"
| "no_constants_list (v # vs) = (no_constants v \<and> no_constants_list vs)"
| "no_constants_items [] = True"
| "no_constants_items ((k, v) # kvs) = (no_constants v \<and> no_constants_items kvs)"

definition loads_strict :: "string \<Rightarrow> json option" where
  \<comment> \<open>\<open>json.loads\<close> with \<open>_reject_constant\<close>; a constant overwritten by a repeated key is not seen here\<close>
  "loads_strict s = (case loads s of Some j \<Rightarrow> if no_constants j then Some j else None | None \<Rightarrow> None)"

record fixture_manifest =
  fm_dataset :: string
  fm_recorded_from :: string
  fm_recorded_to :: string
  fm_seed_hint :: int
  fm_sources :: "(string, string) dict"
  fm_sha256 :: "(string, string) dict"
  fm_notes :: string

definition json_text :: "json option \<Rightarrow> string option" where
  "json_text j = (case j of Some (JStr s) \<Rightarrow> Some s | _ \<Rightarrow> None)"

definition json_text_dict :: "json option \<Rightarrow> (string, string) dict option" where
  "json_text_dict j = (case j of Some (JObj kvs) \<Rightarrow>
       if list_all (\<lambda>(k, v). json_text (Some v) \<noteq> None) kvs then Some (map (\<lambda>(k, v). (k, the (json_text (Some v)))) kvs) else None
     | _ \<Rightarrow> None)"

definition manifest_fields :: "string list" where
  "manifest_fields = [''dataset'', ''recorded_from_utc'', ''recorded_to_utc'', ''seed_hint'', ''sources'', ''sha256'', ''notes'']"

definition parse_manifest :: "json \<Rightarrow> fixture_manifest option" where
  \<comment> \<open>\<open>FixtureManifest.model_validate\<close>: None where it refuses\<close>
  "parse_manifest j = (case j of JObj kvs \<Rightarrow>
       (let sources = (case map_of kvs ''sources'' of None \<Rightarrow> Some [] | x \<Rightarrow> json_text_dict x);
            notes = (case map_of kvs ''notes'' of None \<Rightarrow> Some [] | x \<Rightarrow> json_text x)
        in case (json_text (map_of kvs ''dataset''), json_text (map_of kvs ''recorded_from_utc''), json_text (map_of kvs ''recorded_to_utc''),
                 map_of kvs ''seed_hint'', sources, json_text_dict (map_of kvs ''sha256''), notes) of
          (Some d, Some f, Some t, Some (JInt n), Some src, Some sha, Some note) \<Rightarrow>
            if fst ` set kvs \<subseteq> set manifest_fields \<and> plain_name d \<and> sha \<noteq> []
               \<and> list_all (\<lambda>(name, digest). plain_name name \<and> hash_pattern digest) sha
            then Some \<lparr>fm_dataset = d, fm_recorded_from = f, fm_recorded_to = t, fm_seed_hint = n, fm_sources = src,
                fm_sha256 = sha, fm_notes = note\<rparr>
            else None
        | _ \<Rightarrow> None)
     | _ \<Rightarrow> None)"

definition MANIFEST_NAME :: string where "MANIFEST_NAME = ''manifest.json''"
definition EVENTS_NAME :: string where "EVENTS_NAME = ''events.jsonl''"

definition load_manifest :: "directory \<Rightarrow> fixture_manifest result" where
  "load_manifest dir = (case map_of dir MANIFEST_NAME of
       Some (Regular text) \<Rightarrow> (case loads_strict text of
           None \<Rightarrow> Err (corrupt ''manifest is missing or not valid JSON'' MANIFEST_NAME)
         | Some j \<Rightarrow> of_option (corrupt ''manifest is invalid'' MANIFEST_NAME) (parse_manifest j))
     | _ \<Rightarrow> Err (corrupt ''manifest is missing or not valid JSON'' MANIFEST_NAME))"

definition checked_file :: "(string \<Rightarrow> string) \<Rightarrow> directory \<Rightarrow> string \<times> string \<Rightarrow> (string \<times> string) result" where
  "checked_file H dir listed = (case listed of (name, expected) \<Rightarrow> (case map_of dir name of
       Some Symlink \<Rightarrow> Err (corrupt ''listed file is a symlink'' name)
     | Some (Regular data) \<Rightarrow> if H data \<noteq> expected then Err (corrupt ''sha256 does not match manifest'' name) else Ok (name, data)
     | _ \<Rightarrow> Err (corrupt ''listed file is missing'' name)))"

definition ends_with :: "string \<Rightarrow> string \<Rightarrow> bool" where
  "ends_with s suffix \<longleftrightarrow> length suffix \<le> length s \<and> drop (length s - length suffix) s = suffix"

definition verify_dataset :: "(string \<Rightarrow> string) \<Rightarrow> directory \<Rightarrow> (fixture_manifest \<times> (string, string) dict) result" where
  "verify_dataset H dir = rbind (load_manifest dir) (\<lambda>m.
     rbind (rmap (checked_file H dir) (sort_key fst (fm_sha256 m))) (\<lambda>contents.
     case List.find (\<lambda>n. ends_with n ''.jsonl'' \<and> n \<notin> fst ` set (fm_sha256 m)) (sort_key (\<lambda>n. n) (map fst dir)) of
       Some stray \<Rightarrow> Err (corrupt ''data file is not listed in the manifest'' stray)
     | None \<Rightarrow> Ok (m, contents)))"

definition verify_manifest :: "(string \<Rightarrow> string) \<Rightarrow> directory \<Rightarrow> fixture_manifest result" where
  "verify_manifest H dir = rbind (verify_dataset H dir) (\<lambda>x. Ok (fst x))"

section \<open>Events\<close>

function lines_of :: "string \<Rightarrow> string \<Rightarrow> string list" where
  \<comment> \<open>the lines of a text with universal newlines; \<open>acc\<close> is the current line, reversed\<close>
  "lines_of acc [] = (if acc = [] then [] else [rev acc])"
| "lines_of acc (c # cs) = (if c = CHR 0x0D then rev acc # lines_of [] (case cs of d # ds \<Rightarrow> if d = CHR 0x0A then ds else cs | [] \<Rightarrow> [])
     else if c = CHR 0x0A then rev acc # lines_of [] cs else lines_of (c # acc) cs)"
  by pat_completeness auto
termination
  by (relation "measure (\<lambda>(acc, cs). length cs)") (auto split: list.splits)

definition parse_line :: "string \<Rightarrow> string \<Rightarrow> (string, json) dict result" where
  "parse_line name line = (let text = strip line in
     if text = [] then Err (corrupt ''blank line'' name)
     else case loads_strict text of
         None \<Rightarrow> Err (corrupt ''line is not valid JSON'' name)
       | Some (JObj kvs) \<Rightarrow> Ok kvs
       | Some _ \<Rightarrow> Err (corrupt ''line is not a JSON object'' name))"

definition parse_jsonl :: "string \<Rightarrow> string \<Rightarrow> (string, json) dict list result" where
  "parse_jsonl data name = rmap (parse_line name) (lines_of [] data)"

definition event_epoch :: "(string, json) dict \<Rightarrow> rat result" where
  \<comment> \<open>of an event already loaded: its \<open>ts_utc\<close> is a text\<close>
  "event_epoch e = (case map_of e ''ts_utc'' of Some (JStr t) \<Rightarrow> parse_ts_utc t | _ \<Rightarrow> Err (KeyError ''ts_utc''))"

definition order_step :: "rat option \<Rightarrow> (string, json) dict \<Rightarrow> rat option result" where
  "order_step previous e = (case map_of e ''ts_utc'' of
       Some (JStr t) \<Rightarrow> (case parse_ts_utc t of
           Inl (ValueError m) \<Rightarrow> Err (corrupt ''event ts_utc is not a UTC timestamp'' EVENTS_NAME)
         | Inl x \<Rightarrow> Err x
         | Inr stamp \<Rightarrow> if (case previous of None \<Rightarrow> False | Some p \<Rightarrow> stamp < p)
             then Err (corrupt ''event timestamps go backwards'' EVENTS_NAME) else Ok (Some stamp))
     | _ \<Rightarrow> Err (corrupt ''event has no ts_utc'' EVENTS_NAME))"

record fixture_dataset =
  fd_manifest :: fixture_manifest
  fd_events :: "(string, json) dict list"

definition read_jsonl :: "directory \<Rightarrow> string \<Rightarrow> (string, json) dict list result" where
  "read_jsonl dir name = (case map_of dir name of
       Some (Regular data) \<Rightarrow> parse_jsonl data name | _ \<Rightarrow> Err (RuntimeError ''no such file''))"

definition load_dataset :: "(string \<Rightarrow> string) \<Rightarrow> directory \<Rightarrow> fixture_dataset result" where
  "load_dataset H dir = rbind (verify_dataset H dir) (\<lambda>(m, contents). case map_of contents EVENTS_NAME of
       None \<Rightarrow> Err (corrupt ''manifest does not list events.jsonl'' MANIFEST_NAME)
     | Some data \<Rightarrow> rbind (parse_jsonl data EVENTS_NAME) (\<lambda>events.
         rbind (rfold order_step None events) (\<lambda>_. Ok \<lparr>fd_manifest = m, fd_events = events\<rparr>)))"

definition timestamps :: "fixture_dataset \<Rightarrow> rat list result" where
  "timestamps d = rmap event_epoch (fd_events d)"

section \<open>Curve reads\<close>

type_synonym tick = "rat \<times> (string, json) dict"

definition has_reserves :: "(string, json) dict \<Rightarrow> bool" where
  "has_reserves e \<longleftrightarrow> list_all (\<lambda>k. case map_of e k of Some (JInt _) \<Rightarrow> True | _ \<Rightarrow> False) [''S'', ''T'']"

definition ticks_of :: "fixture_dataset \<Rightarrow> tick list result" where
  \<comment> \<open>\<open>FixtureCurveSource.__init__\<close>\<close>
  "ticks_of d = rmap (\<lambda>e. rbind (event_epoch e) (\<lambda>t. Ok (t, e))) (List.filter has_reserves (fd_events d))"

definition event_truthy :: "json option \<Rightarrow> bool" where
  "event_truthy j = (case j of None \<Rightarrow> False | Some JNull \<Rightarrow> False | Some (JBool b) \<Rightarrow> b | Some (JInt i) \<Rightarrow> i \<noteq> 0
     | Some (JStr s) \<Rightarrow> s \<noteq> [] | Some (JArr vs) \<Rightarrow> vs \<noteq> [] | Some (JObj kvs) \<Rightarrow> kvs \<noteq> []
     | Some (JFloat t) \<Rightarrow> (case dec_of_str t of Some d \<Rightarrow> dec_val d \<noteq> 0 | None \<Rightarrow> True))"

fun best_tick :: "rat \<Rightarrow> ((string, json) dict \<Rightarrow> bool) \<Rightarrow> tick option \<Rightarrow> tick list \<Rightarrow> tick option" where
  \<comment> \<open>the loop of both readers: stop at the first tick after \<open>now\<close>, keep the last that passes\<close>
  "best_tick now ok best [] = best"
| "best_tick now ok best ((stamp, e) # ticks) =
     (if stamp > now then best else best_tick now ok (if ok e then Some (stamp, e) else best) ticks)"

definition event_int :: "(string, json) dict \<Rightarrow> string \<Rightarrow> int" where
  "event_int e k = (case map_of e k of Some (JInt i) \<Rightarrow> i | _ \<Rightarrow> 0)"

definition latest_tick :: "rat \<Rightarrow> tick list \<Rightarrow> string \<Rightarrow> curve_snapshot option" where
  "latest_tick now ticks mint = (case best_tick now (\<lambda>e. map_of e ''mint'' = Some (JStr mint)) None ticks of
       None \<Rightarrow> None
     | Some (stamp, e) \<Rightarrow> Some \<lparr>cs_mint = mint, cs_s = event_int e ''S'', cs_t = event_int e ''T'',
         cs_complete = event_truthy (map_of e ''complete''), cs_source = ''fixture'', cs_slot = None, cs_ts = Some stamp\<rparr>)"

definition fixture_reserves :: "rat \<Rightarrow> tick list \<Rightarrow> string \<Rightarrow> (int \<times> int) option" where
  "fixture_reserves now ticks mint = map_option (\<lambda>c. (cs_s c, cs_t c)) (latest_tick now ticks mint)"

definition last_open_reserves :: "rat \<Rightarrow> tick list \<Rightarrow> string \<Rightarrow> (int \<times> int) option" where
  "last_open_reserves now ticks mint =
     map_option (\<lambda>(stamp, e). (event_int e ''S'', event_int e ''T''))
       (best_tick now (\<lambda>e. map_of e ''mint'' = Some (JStr mint) \<and> \<not> event_truthy (map_of e ''complete'')) None ticks)"

section \<open>A loaded dataset\<close>

lemma rmap_Ok_iff: "rmap f xs = Ok ys \<longleftrightarrow> length ys = length xs \<and> (\<forall>i < length xs. f (xs ! i) = Ok (ys ! i))"
proof (induction xs arbitrary: ys)
  case (Cons x xs)
  show ?case
  proof (cases ys)
    case (Cons y ys')
    have "(\<forall>i < length (x # xs). f ((x # xs) ! i) = Ok ((y # ys') ! i)) \<longleftrightarrow> f x = Ok y \<and> (\<forall>i < length xs. f (xs ! i) = Ok (ys' ! i))"
      by (auto simp: less_Suc_eq_0_disj)
    then show ?thesis using Cons.IH [of ys'] Cons by (auto simp: rbind_Ok_iff)
  qed (auto simp: rbind_Ok_iff)
qed auto

lemma order_step_Ok:
  assumes "order_step previous e = Ok q"
  shows "\<exists>t stamp. map_of e ''ts_utc'' = Some (JStr t) \<and> parse_ts_utc t = Ok stamp \<and> q = Some stamp
    \<and> (\<forall>p. previous = Some p \<longrightarrow> p \<le> stamp)"
proof -
  obtain t where t: "map_of e ''ts_utc'' = Some (JStr t)"
    using assms by (cases "map_of e ''ts_utc''") (auto simp: order_step_def split: json.splits)
  show ?thesis
  proof (cases "parse_ts_utc t")
    case (Inl x)
    then show ?thesis using assms t by (cases x) (simp_all add: order_step_def)
  next
    case (Inr stamp)
    then show ?thesis using assms t by (cases previous) (simp_all add: order_step_def split: if_splits)
  qed
qed

lemma order_sorted:
  assumes "rfold order_step previous es = Ok last_stamp"
  shows "\<exists>stamps. rmap event_epoch es = Ok stamps \<and> sorted stamps \<and> (\<forall>p. previous = Some p \<longrightarrow> (\<forall>t \<in> set stamps. p \<le> t))"
  using assms
proof (induction es arbitrary: previous)
  case (Cons e es)
  obtain q where q: "order_step previous e = Ok q" "rfold order_step q es = Ok last_stamp" using Cons.prems by (auto simp: rbind_Ok_iff)
  obtain t stamp where t: "map_of e ''ts_utc'' = Some (JStr t)" "parse_ts_utc t = Ok stamp" "q = Some stamp"
    "\<forall>p. previous = Some p \<longrightarrow> p \<le> stamp"
    using order_step_Ok [OF q(1)] by blast
  obtain stamps where s: "rmap event_epoch es = Ok stamps" "sorted stamps" "\<forall>p. q = Some p \<longrightarrow> (\<forall>t \<in> set stamps. p \<le> t)"
    using Cons.IH [OF q(2)] by blast
  have "rmap event_epoch (e # es) = Ok (stamp # stamps)" using s(1) t(1,2) by (simp add: event_epoch_def)
  then show ?case using s t(3,4) by (intro exI [of _ "stamp # stamps"]) (auto intro: order_trans)
qed simp

lemma verify_dataset_Ok:
  assumes "verify_dataset H dir = Ok (m, contents)"
  shows "\<And>name digest. (name, digest) \<in> set (fm_sha256 m) \<Longrightarrow> \<exists>data. map_of dir name = Some (Regular data) \<and> H data = digest"
    "\<And>name data. (name, data) \<in> set contents \<Longrightarrow> map_of dir name = Some (Regular data) \<and> (name, H data) \<in> set (fm_sha256 m)"
    "\<And>name. name \<in> fst ` set dir \<Longrightarrow> ends_with name ''.jsonl'' \<Longrightarrow> name \<in> fst ` set (fm_sha256 m)"
    "load_manifest dir = Ok m"
proof -
  have l: "load_manifest dir = Ok m" and c: "rmap (checked_file H dir) (sort_key fst (fm_sha256 m)) = Ok contents"
    and f: "List.find (\<lambda>n. ends_with n ''.jsonl'' \<and> n \<notin> fst ` set (fm_sha256 m)) (sort_key (\<lambda>n. n) (map fst dir)) = None"
    using assms by (auto simp: verify_dataset_def rbind_Ok_iff split: option.splits)
  have one: "checked_file H dir (name, digest) = Ok x \<Longrightarrow> \<exists>data. map_of dir name = Some (Regular data) \<and> H data = digest \<and> x = (name, data)"
    for name digest x
    by (auto simp: checked_file_def split: option.splits entry_kind.splits if_splits)
  have all: "\<forall>i < length contents. checked_file H dir (sort_key fst (fm_sha256 m) ! i) = Ok (contents ! i)"
    "length contents = length (sort_key fst (fm_sha256 m))"
    using c by (auto simp: rmap_Ok_iff)
  show "\<exists>data. map_of dir name = Some (Regular data) \<and> H data = digest" if "(name, digest) \<in> set (fm_sha256 m)" for name digest
  proof -
    have "(name, digest) \<in> set (sort_key fst (fm_sha256 m))" using that by simp
    then obtain i where i: "i < length contents" "sort_key fst (fm_sha256 m) ! i = (name, digest)"
      unfolding in_set_conv_nth all(2) by blast
    then have "checked_file H dir (name, digest) = Ok (contents ! i)" using all(1) [rule_format, OF i(1)] by simp
    from one [OF this] show ?thesis by blast
  qed
  show "map_of dir name = Some (Regular data) \<and> (name, H data) \<in> set (fm_sha256 m)" if given: "(name, data) \<in> set contents" for name data
  proof -
    obtain i where i: "i < length contents" "contents ! i = (name, data)" using given by (auto simp: in_set_conv_nth)
    obtain n d where nd: "sort_key fst (fm_sha256 m) ! i = (n, d)" by force
    have "sort_key fst (fm_sha256 m) ! i \<in> set (sort_key fst (fm_sha256 m))" using i(1) unfolding all(2) by (rule nth_mem)
    then have mem: "(n, d) \<in> set (fm_sha256 m)" using nd by simp
    have "checked_file H dir (n, d) = Ok (name, data)" using all(1) [rule_format, OF i(1)] i(2) nd by simp
    from one [OF this] show ?thesis using mem by auto
  qed
  show "name \<in> fst ` set (fm_sha256 m)" if "name \<in> fst ` set dir" "ends_with name ''.jsonl''" for name
    using f that by (auto simp: find_None_iff)
  show "load_manifest dir = Ok m" by (rule l)
qed

text \<open>A recorded dataset of two ticks, with a digest function that tells its event file from every other text.\<close>

definition sample_events :: string where
  "sample_events = ''{\"ts_utc\":\"2024-01-01T00:00:00.000Z\",\"mint\":\"m\",\"S\":5,\"T\":7}'' @ [CHR 0x0A]
     @ ''{\"ts_utc\":\"2024-01-01T00:00:01.000Z\",\"mint\":\"m\",\"S\":6,\"T\":8}'' @ [CHR 0x0A]"

definition sample_digest :: "string \<Rightarrow> string" where
  "sample_digest s = replicate 64 (if s = sample_events then CHR ''a'' else CHR ''b'')"

definition sample_dir :: directory where
  "sample_dir = [(''manifest.json'', Regular (''{\"dataset\":\"d\",\"recorded_from_utc\":\"a\",\"recorded_to_utc\":\"b\",\"seed_hint\":1,\"sha256\":{\"events.jsonl\":\"''
     @ replicate 64 CHR ''a'' @ ''\"}}'')), (''events.jsonl'', Regular sample_events)]"

lemma sample_loads: "\<exists>d. load_dataset sample_digest sample_dir = Ok d \<and> length (fd_events d) = 2"
proof -
  have "(case load_dataset sample_digest sample_dir of Inl x \<Rightarrow> False | Inr d \<Rightarrow> length (fd_events d) = 2)" by code_simp
  then show ?thesis by (auto split: sum.splits)
qed

lemma sample_tampered:
  "load_dataset sample_digest (dict_set sample_dir ''events.jsonl'' (Regular (tl sample_events)))
    = Err (corrupt ''sha256 does not match manifest'' ''events.jsonl'')"
  by code_simp

text \<open>
  C14: a dataset is loaded only as it was recorded. When \<open>load_dataset\<close> returns, every file the manifest
  lists is a plain file whose digest is the listed one, no unlisted data file lies beside them, every
  event has a stamp and the stamps never go back, and the events are those of the event file. Another
  directory with the same manifest text that loads has an event file of the same digest, and loads to the
  same dataset unless that file is a different text: the two event files themselves would then clash.
\<close>

theorem dataset_is_as_recorded:
  assumes "load_dataset H dir = Ok d"
  shows "(\<forall>(name, digest) \<in> set (fm_sha256 (fd_manifest d)). \<exists>data. map_of dir name = Some (Regular data) \<and> H data = digest)
    \<and> (\<forall>name \<in> fst ` set dir. ends_with name ''.jsonl'' \<longrightarrow> name \<in> fst ` set (fm_sha256 (fd_manifest d)))
    \<and> (\<exists>stamps. rmap event_epoch (fd_events d) = Ok stamps \<and> sorted stamps)
    \<and> (\<exists>data. map_of dir EVENTS_NAME = Some (Regular data) \<and> parse_jsonl data EVENTS_NAME = Ok (fd_events d)
        \<and> (\<forall>dir' d'. load_dataset H dir' = Ok d' \<and> map_of dir' MANIFEST_NAME = map_of dir MANIFEST_NAME
             \<and> distinct (map fst (fm_sha256 (fd_manifest d)))
             \<longrightarrow> (\<exists>data'. map_of dir' EVENTS_NAME = Some (Regular data') \<and> H data' = H data \<and> (d' = d \<or> data' \<noteq> data))))"
proof -
  have split: "\<exists>contents data. verify_dataset H dir = Ok (fd_manifest d, contents) \<and> map_of contents EVENTS_NAME = Some data
      \<and> parse_jsonl data EVENTS_NAME = Ok (fd_events d) \<and> (\<exists>x. rfold order_step None (fd_events d) = Ok x)"
    if "load_dataset H dir = Ok d" for dir d
    using that by (auto simp: load_dataset_def rbind_Ok_iff split: option.splits)
  obtain contents data where l: "verify_dataset H dir = Ok (fd_manifest d, contents)" "map_of contents EVENTS_NAME = Some data"
    "parse_jsonl data EVENTS_NAME = Ok (fd_events d)" "\<exists>x. rfold order_step None (fd_events d) = Ok x"
    using split [OF assms] by blast
  note v = verify_dataset_Ok [OF l(1)]
  note here = v(2) [OF map_of_SomeD [OF l(2)]]
  have "\<exists>data'. map_of dir' EVENTS_NAME = Some (Regular data') \<and> H data' = H data \<and> (d' = d \<or> data' \<noteq> data)"
    if d': "load_dataset H dir' = Ok d'" "map_of dir' MANIFEST_NAME = map_of dir MANIFEST_NAME"
      "distinct (map fst (fm_sha256 (fd_manifest d)))" for dir' d'
  proof -
    obtain contents' data' where l': "verify_dataset H dir' = Ok (fd_manifest d', contents')" "map_of contents' EVENTS_NAME = Some data'"
      "parse_jsonl data' EVENTS_NAME = Ok (fd_events d')"
      using split [OF d'(1)] by blast
    note v' = verify_dataset_Ok [OF l'(1)]
    note there = v'(2) [OF map_of_SomeD [OF l'(2)]]
    have m: "fd_manifest d' = fd_manifest d" using v(4) v'(4) d'(2) by (simp add: load_manifest_def)
    have "H data' = H data" using here there m d'(3) by (metis eq_key_imp_eq_value)
    moreover have "d' = d" if "data' = data" using that l(3) l'(3) m by simp
    ultimately show ?thesis using there by blast
  qed
  with here l(3) have f: "\<exists>data. map_of dir EVENTS_NAME = Some (Regular data) \<and> parse_jsonl data EVENTS_NAME = Ok (fd_events d)
      \<and> (\<forall>dir' d'. load_dataset H dir' = Ok d' \<and> map_of dir' MANIFEST_NAME = map_of dir MANIFEST_NAME
           \<and> distinct (map fst (fm_sha256 (fd_manifest d)))
           \<longrightarrow> (\<exists>data'. map_of dir' EVENTS_NAME = Some (Regular data') \<and> H data' = H data \<and> (d' = d \<or> data' \<noteq> data)))"
    by (intro exI [of _ data]) simp
  have o: "\<exists>stamps. rmap event_epoch (fd_events d) = Ok stamps \<and> sorted stamps" using order_sorted l(4) by blast
  show ?thesis using v(1,3) o by (intro conjI f) auto
qed

theorem dataset_is_as_recorded_witness:
  "\<exists>d stamps. load_dataset sample_digest sample_dir = Ok d \<and> rmap event_epoch (fd_events d) = Ok stamps \<and> sorted stamps
    \<and> length (fd_events d) = 2"
  using sample_loads dataset_is_as_recorded [of sample_digest sample_dir] by blast

section \<open>No look-ahead\<close>

lemma best_tick_last:
  assumes "sorted (map fst ticks)"
  shows "best_tick now ok best ticks =
    (let seen = List.filter (\<lambda>(t, e). t \<le> now \<and> ok e) ticks in if seen = [] then best else Some (last seen))"
  using assms
proof (induction ticks arbitrary: best)
  case (Cons x ticks)
  obtain t e where x: "x = (t, e)" by force
  show ?case
  proof (cases "t > now")
    case True
    then have "List.filter (\<lambda>(t, e). t \<le> now \<and> ok e) ticks = []" using Cons.prems x by (auto simp: filter_empty_conv)
    then show ?thesis using True x by simp
  next
    case False
    then show ?thesis using Cons x by (auto simp: Let_def)
  qed
qed simp

lemma ticks_of_sorted:
  assumes "rmap event_epoch es = Ok stamps" and "sorted stamps"
  shows "\<exists>ticks. rmap (\<lambda>e. rbind (event_epoch e) (\<lambda>t. Ok (t, e))) (List.filter has_reserves es) = Ok ticks
    \<and> sorted (map fst ticks) \<and> fst ` set ticks \<subseteq> set stamps"
  using assms
proof (induction es arbitrary: stamps)
  case (Cons e es)
  obtain t ts where t: "event_epoch e = Ok t" "rmap event_epoch es = Ok ts" "stamps = t # ts"
    using Cons.prems(1) by (auto simp: rbind_Ok_iff)
  obtain ticks where ticks: "rmap (\<lambda>e. rbind (event_epoch e) (\<lambda>t. Ok (t, e))) (List.filter has_reserves es) = Ok ticks"
    "sorted (map fst ticks)" "fst ` set ticks \<subseteq> set ts"
    using Cons.IH [OF t(2)] Cons.prems(2) t(3) by auto
  show ?case
  proof (cases "has_reserves e")
    case True
    then show ?thesis using ticks t Cons.prems(2) by (intro exI [of _ "(t, e) # ticks"]) (auto simp: rbind_def)
  next
    case False
    then show ?thesis using ticks t by auto
  qed
qed auto

lemma loaded_ticks:
  assumes "load_dataset H dir = Ok d"
  shows "\<exists>ticks. ticks_of d = Ok ticks \<and> sorted (map fst ticks)"
proof -
  obtain x where "rfold order_step None (fd_events d) = Ok x"
    using assms by (auto simp: load_dataset_def rbind_Ok_iff split: option.splits)
  then show ?thesis using order_sorted ticks_of_sorted unfolding ticks_of_def by blast
qed

definition quote_of :: "string \<Rightarrow> tick \<Rightarrow> bool" where
  "quote_of mint x \<longleftrightarrow> map_of (snd x) ''mint'' = Some (JStr mint)"

text \<open>
  C15: a curve read of a replay is the newest recorded tick of its mint that is not in the future. For
  every loaded dataset the ticks can be built; the loop that stops at the first later tick returns the
  last tick of the mint at or before the reading (none where there is none), with its integer reserves
  and a stamp not after it; and whatever is recorded after the reading changes no answer.
\<close>

theorem curve_reads_never_look_ahead:
  assumes "load_dataset H dir = Ok d"
  shows "\<exists>ticks. ticks_of d = Ok ticks \<and> (\<forall>now mint.
      (let seen = List.filter (\<lambda>x. fst x \<le> now \<and> quote_of mint x) ticks in
         fixture_reserves now ticks mint = (if seen = [] then None
           else Some (event_int (snd (last seen)) ''S'', event_int (snd (last seen)) ''T'')))
      \<and> (\<forall>c. latest_tick now ticks mint = Some c \<longrightarrow> cs_mint c = mint \<and> (\<exists>t \<le> now. cs_ts c = Some t))
      \<and> latest_tick now (List.filter (\<lambda>x. fst x \<le> now) ticks) mint = latest_tick now ticks mint
      \<and> last_open_reserves now (List.filter (\<lambda>x. fst x \<le> now) ticks) mint = last_open_reserves now ticks mint)"
proof -
  obtain ticks where ticks: "ticks_of d = Ok ticks" "sorted (map fst ticks)" using loaded_ticks [OF assms] by blast
  have sf: "sorted (map fst (List.filter P ticks))" for P using ticks(2) by (rule sorted_filter)
  note b = best_tick_last [OF ticks(2)]
  have cut: "best_tick now ok None (List.filter (\<lambda>x. fst x \<le> now) ticks) = best_tick now ok None ticks" for now ok
  proof -
    have "List.filter (\<lambda>(t, e). t \<le> now \<and> ok e) (List.filter (\<lambda>x. fst x \<le> now) ticks) = List.filter (\<lambda>(t, e). t \<le> now \<and> ok e) ticks"
      unfolding filter_filter by (rule filter_cong) auto
    then show ?thesis unfolding b best_tick_last [OF sf] by simp
  qed
  have "(\<exists>t \<le> now. cs_ts c = Some t) \<and> cs_mint c = mint" if c: "latest_tick now ticks mint = Some c" for now mint c
  proof -
    let ?seen = "List.filter (\<lambda>(t, e). t \<le> now \<and> map_of e ''mint'' = Some (JStr mint)) ticks"
    have ne: "?seen \<noteq> []" using c by (auto simp: latest_tick_def b)
    then have "last ?seen \<in> set ?seen" by (rule last_in_set)
    then show ?thesis using c ne by (auto simp: latest_tick_def b split: prod.splits)
  qed
  moreover have "let seen = List.filter (\<lambda>x. fst x \<le> now \<and> quote_of mint x) ticks in
         fixture_reserves now ticks mint = (if seen = [] then None
           else Some (event_int (snd (last seen)) ''S'', event_int (snd (last seen)) ''T''))" for now mint
    unfolding fixture_reserves_def latest_tick_def b quote_of_def Let_def by (auto simp: case_prod_unfold)
  moreover have "latest_tick now (List.filter (\<lambda>x. fst x \<le> now) ticks) mint = latest_tick now ticks mint"
    "last_open_reserves now (List.filter (\<lambda>x. fst x \<le> now) ticks) mint = last_open_reserves now ticks mint" for now mint
    unfolding latest_tick_def last_open_reserves_def cut by (rule refl)+
  ultimately show ?thesis using ticks(1) by (intro exI [of _ ticks]) simp
qed

theorem curve_reads_never_look_ahead_witness:
  "\<exists>d ticks. load_dataset sample_digest sample_dir = Ok d \<and> ticks_of d = Ok ticks
    \<and> latest_tick 0 (List.filter (\<lambda>x. fst x \<le> 0) ticks) ''m'' = latest_tick 0 ticks ''m''"
  using sample_loads curve_reads_never_look_ahead [of sample_digest sample_dir] by blast

end
