(* ===== verification/Candidate.thy ===== *)
theory Candidate
  imports FloatText LedgerClients
begin

text \<open>
  Candidate parameter sets: the override mappings and their content hash (\<open>backtest/candidate.py\<close>,
  \<open>upgrade/params.py\<close>) and the stored content of the active set (\<open>ledger/active_set.py\<close>). A \<open>knob\<close> is a
  value as a TOML or JSON reader returns it; its floats are finite, any other value is \<open>KOther\<close> with the
  name of its type. Pydantic's conversion of a value to the type of a settings field is an argument
  (\<open>coerce\<close>): the value it yields, or None where it refuses.
\<close>

section \<open>Values\<close>

datatype knob = KBool bool | KInt int | KFloat rat | KStr string | KList "knob list" | KTable "(string \<times> knob) list"
  | KOther string

datatype field_type = Bool_field | Int_field | Float_field

type_synonym coercion = "field_type \<Rightarrow> knob \<Rightarrow> knob option"

definition filter_fields :: "(string \<times> field_type \<times> knob) list" where
  "filter_fields = [(''min_unique_buyers'', Int_field, KInt 5), (''max_curve_progress'', Float_field, KFloat (2 / 5)),
     (''require_metadata'', Bool_field, KBool True), (''min_age_seconds'', Float_field, KFloat 120),
     (''max_risk_score'', Float_field, KFloat 7), (''min_total_score'', Float_field, KFloat (13 / 20)),
     (''block_creator_after_rugs'', Int_field, KInt 1), (''rug_loss_pct'', Float_field, KFloat 60),
     (''one_position_per_creator'', Bool_field, KBool True), (''forget_creators_after_days'', Float_field, KFloat 30)]"

definition exits_fields :: "(string \<times> field_type \<times> knob) list" where
  "exits_fields = [(''stop_loss_pct'', Float_field, KFloat 30), (''take_profit_pct'', Float_field, KFloat 120),
     (''trailing_stop_pct'', Float_field, KFloat 35), (''max_hold_seconds'', Float_field, KFloat 3600),
     (''stop_loss_poll_seconds'', Float_field, KFloat 15)]"

definition non_negative :: "knob \<Rightarrow> bool" where
  "non_negative k = (case k of KInt i \<Rightarrow> 0 \<le> i | KFloat x \<Rightarrow> 0 \<le> x | _ \<Rightarrow> True)"

definition settings_of :: "coercion \<Rightarrow> (string \<times> field_type \<times> knob) list \<Rightarrow> (string \<times> knob) list \<Rightarrow> (string, knob) dict result" where
  \<comment> \<open>the settings model built from overrides: no unknown key, every value of its type and not negative\<close>
  "settings_of coerce spec overrides =
     rbind (rguard (list_all (\<lambda>(k, v). k \<in> fst ` set spec) overrides) (ValueError ''extra fields forbidden'')) (\<lambda>_.
     rmap (\<lambda>(name, t, dflt). case map_of overrides name of
         None \<Rightarrow> Ok (name, dflt)
       | Some v \<Rightarrow> (case coerce t v of
             Some k \<Rightarrow> if non_negative k then Ok (name, k) else Err (ValueError (''negative '' @ name))
           | None \<Rightarrow> Err (ValueError (''invalid '' @ name)))) spec)"

section \<open>Candidate parameters\<close>

record param_set =
  ps_filter :: "(string \<times> knob) list option"
  ps_exits :: "(string \<times> knob) list option"

definition SCORING_KNOBS :: "string list" where
  "SCORING_KNOBS = [''audit'', ''narrative'', ''timing'', ''metrics'', ''weights'', ''timing_cache_seconds'', ''min_total_score'']"

definition reject_scoring_knobs :: "string \<Rightarrow> (string \<times> knob) list \<Rightarrow> unit result" where
  "reject_scoring_knobs section_name mapping = (case List.find (\<lambda>(k, v). k \<in> set SCORING_KNOBS) mapping of
       None \<Rightarrow> Ok ()
     | Some (k, _) \<Rightarrow> Err (ValueError (''scoring knob '' @ k @ '' in '' @ section_name @ '' is not tunable'')))"

definition check_section_model :: "coercion \<Rightarrow> string \<Rightarrow> (string \<times> field_type \<times> knob) list \<Rightarrow> (string \<times> knob) list option \<Rightarrow> unit result" where
  "check_section_model coerce name spec value = (case value of
       None \<Rightarrow> Ok ()
     | Some m \<Rightarrow> rbind (reject_scoring_knobs name m) (\<lambda>_. rbind (settings_of coerce spec m) (\<lambda>_. Ok ())))"

definition candidate_params :: "coercion \<Rightarrow> param_set \<Rightarrow> param_set result" where
  "candidate_params coerce ps =
     rbind (check_section_model coerce ''filter'' filter_fields (ps_filter ps)) (\<lambda>_.
     rbind (check_section_model coerce ''exits'' exits_fields (ps_exits ps)) (\<lambda>_. Ok ps))"

definition filter_settings :: "coercion \<Rightarrow> param_set \<Rightarrow> (string, knob) dict result" where
  "filter_settings coerce ps = settings_of coerce filter_fields (case ps_filter ps of None \<Rightarrow> [] | Some m \<Rightarrow> m)"

definition exits_settings_of :: "coercion \<Rightarrow> param_set \<Rightarrow> (string, knob) dict result" where
  "exits_settings_of coerce ps = settings_of coerce exits_fields (case ps_exits ps of None \<Rightarrow> [] | Some m \<Rightarrow> m)"

definition float_text :: "rat \<Rightarrow> string" where
  \<comment> \<open>\<open>repr\<close> of a float of either sign\<close>
  "float_text x = (if x < 0 then CHR ''-'' # float_repr (- x) else float_repr x)"

fun normalized_leaf :: "knob \<Rightarrow> pyval result"
  and normalized_list :: "knob list \<Rightarrow> pyval list result"
  and normalized_table :: "(string \<times> knob) list \<Rightarrow> (string \<times> pyval) list result" where
  "normalized_leaf (KBool b) = Ok (PBool b)"
| "normalized_leaf (KInt i) = Ok (PInt i)"
| "normalized_leaf (KStr s) = Ok (PStr s)"
| "normalized_leaf (KFloat x) = rbind (of_option (ArithmeticError ''InvalidOperation'') (dec_of_str (float_text x))) (\<lambda>d. Ok (PDec d))"
| "normalized_leaf (KList vs) = rbind (normalized_list vs) (\<lambda>ps. Ok (PList ps))"
| "normalized_leaf (KTable kvs) = rbind (normalized_table kvs) (\<lambda>ps. Ok (PDict ps))"
| "normalized_leaf (KOther ty) = Err (TypeError (''override leaf of type '' @ ty @ '' is not supported''))"
| "normalized_list [] = Ok []"
| "normalized_list (v # vs) = rbind (normalized_leaf v) (\<lambda>p. rbind (normalized_list vs) (\<lambda>ps. Ok (p # ps)))"
| "normalized_table [] = Ok []"
| "normalized_table ((k, v) # kvs) = rbind (normalized_leaf v) (\<lambda>p. rbind (normalized_table kvs) (\<lambda>ps. Ok ((k, p) # ps)))"

definition normalized_mapping :: "(string \<times> knob) list option \<Rightarrow> (string \<times> pyval) list result" where
  "normalized_mapping m = (case m of None \<Rightarrow> Ok [] | Some kvs \<Rightarrow> normalized_table kvs)"

definition content_hash :: "(string \<Rightarrow> string) \<Rightarrow> param_set \<Rightarrow> string result" where
  "content_hash H ps =
     rbind (normalized_mapping (ps_exits ps)) (\<lambda>exits. rbind (normalized_mapping (ps_filter ps)) (\<lambda>filters.
     rbind (canonical_json [(''exits'', PDict exits), (''filter'', PDict filters)]) (\<lambda>text. Ok (H text))))"

fun knob_of_json :: "json \<Rightarrow> knob"
  and knobs_of_json :: "json list \<Rightarrow> knob list"
  and table_of_json :: "(string \<times> json) list \<Rightarrow> (string \<times> knob) list" where
  "knob_of_json JNull = KOther ''NoneType''"
| "knob_of_json (JBool b) = KBool b"
| "knob_of_json (JInt i) = KInt i"
| "knob_of_json (JFloat t) = (case dec_of_str t of
       Some d \<Rightarrow> if is_finite d then KFloat (fl (dec_val d)) else KOther ''float'' | None \<Rightarrow> KOther ''float'')"
| "knob_of_json (JStr s) = KStr s"
| "knob_of_json (JArr vs) = KList (knobs_of_json vs)"
| "knob_of_json (JObj kvs) = KTable (table_of_json kvs)"
| "knobs_of_json [] = []"
| "knobs_of_json (v # vs) = knob_of_json v # knobs_of_json vs"
| "table_of_json [] = []"
| "table_of_json ((k, v) # kvs) = (k, knob_of_json v) # table_of_json kvs"

definition param_set_mapping :: "string \<Rightarrow> (string \<times> knob) list result" where
  \<comment> \<open>a parameter-set file: one JSON object without float leaves\<close>
  "param_set_mapping text = (case loads text of
       Some (JObj kvs) \<Rightarrow> (case canonical_json (py_of_json_items kvs) of
           Inl (TypeError m) \<Rightarrow> Err (ValueError ''parameter-set JSON must hold ints, strings and bools'')
         | Inl e \<Rightarrow> Err e
         | Inr _ \<Rightarrow> Ok (table_of_json kvs))
     | _ \<Rightarrow> Err (ValueError ''parameter-set bytes must hold a JSON mapping''))"

section \<open>Stored content of an active set\<close>

fun json_of_knob :: "knob \<Rightarrow> json result"
  and json_of_knobs :: "knob list \<Rightarrow> json list result"
  and json_of_table :: "(string \<times> knob) list \<Rightarrow> (string \<times> json) list result" where
  "json_of_knob (KBool b) = Ok (JBool b)"
| "json_of_knob (KInt i) = Ok (JInt i)"
| "json_of_knob (KFloat x) = Ok (JFloat (float_text x))"
| "json_of_knob (KStr s) = Ok (JStr s)"
| "json_of_knob (KList vs) = rbind (json_of_knobs vs) (\<lambda>js. Ok (JArr js))"
| "json_of_knob (KTable kvs) = rbind (json_of_table kvs) (\<lambda>js. Ok (JObj js))"
| "json_of_knob (KOther ty) = (if ty = ''NoneType'' then Ok JNull else Err (ValueError (''Unable to serialize unknown type: '' @ ty)))"
| "json_of_knobs [] = Ok []"
| "json_of_knobs (v # vs) = rbind (json_of_knob v) (\<lambda>j. rbind (json_of_knobs vs) (\<lambda>js. Ok (j # js)))"
| "json_of_table [] = Ok []"
| "json_of_table ((k, v) # kvs) = rbind (json_of_knob v) (\<lambda>j. rbind (json_of_table kvs) (\<lambda>js. Ok ((k, j) # js)))"

definition dump_section :: "(string \<times> knob) list option \<Rightarrow> json result" where
  "dump_section m = (case m of None \<Rightarrow> Ok JNull | Some kvs \<Rightarrow> rbind (json_of_table kvs) (\<lambda>js. Ok (JObj js)))"

definition section_of_json :: "json option \<Rightarrow> (string \<times> knob) list option result" where
  "section_of_json j = (case j of None \<Rightarrow> Ok None | Some JNull \<Rightarrow> Ok None | Some (JObj kvs) \<Rightarrow> Ok (Some (table_of_json kvs))
     | _ \<Rightarrow> Err (ValueError ''Input should be a valid dictionary''))"

definition decode_param_set :: "coercion \<Rightarrow> string \<Rightarrow> param_set result" where
  "decode_param_set coerce raw = (case loads raw of
       Some (JObj kvs) \<Rightarrow>
         rbind (rguard (fst ` set kvs \<subseteq> {''filter'', ''exits''}) (ValueError ''extra fields forbidden'')) (\<lambda>_.
         rbind (section_of_json (map_of kvs ''filter'')) (\<lambda>f. rbind (section_of_json (map_of kvs ''exits'')) (\<lambda>x.
         candidate_params coerce \<lparr>ps_filter = f, ps_exits = x\<rparr>)))
     | _ \<Rightarrow> Err (ValueError ''Input should be a valid dictionary''))"

definition canonical_param_set :: "(string \<Rightarrow> string) \<Rightarrow> coercion \<Rightarrow> param_set \<Rightarrow> string result" where
  "canonical_param_set H coerce ps =
     rbind (dump_section (ps_filter ps)) (\<lambda>f. rbind (dump_section (ps_exits ps)) (\<lambda>x.
     let raw = dumps_sorted (JObj [(''filter'', f), (''exits'', x)]) in
     rbind (decode_param_set coerce raw) (\<lambda>ps'. rbind (content_hash H ps') (\<lambda>h'. rbind (content_hash H ps) (\<lambda>h.
     if h' \<noteq> h then Err (ValueError ''param set does not round-trip through canonical JSON'') else Ok raw)))))"

definition content_key :: "string \<Rightarrow> string" where
  "content_key h = ''active_param_set_content:'' @ h"

definition undecodable :: "err \<Rightarrow> bool" where
  "undecodable e = (case e of TypeError _ \<Rightarrow> True | ValueError _ \<Rightarrow> True | _ \<Rightarrow> False)"

definition load_verified_param_set :: "(string \<Rightarrow> string) \<Rightarrow> coercion \<Rightarrow> store \<Rightarrow> string \<Rightarrow> param_set result" where
  "load_verified_param_set H coerce st h = (case get_meta st (content_key h) None of
       None \<Rightarrow> Err (CorruptState (''param set '' @ h @ '' is recorded without its content''))
     | Some raw \<Rightarrow> (case rbind (decode_param_set coerce raw) (\<lambda>ps. rbind (content_hash H ps) (\<lambda>h'. Ok (ps, h'))) of
           Inl e \<Rightarrow> if undecodable e then Err (CorruptState (''param set '' @ h @ '' content is undecodable'')) else Err e
         | Inr (ps, h') \<Rightarrow> if h' \<noteq> h then Err (CorruptState (''param set '' @ h @ '' content does not match its hash'')) else Ok ps))"

definition read_active_param_set :: "(string \<Rightarrow> string) \<Rightarrow> coercion \<Rightarrow> store \<Rightarrow> param_set option result" where
  "read_active_param_set H coerce st = rbind (read_active_set st) (\<lambda>active. case active of
       None \<Rightarrow> Ok None
     | Some h \<Rightarrow> rbind (load_verified_param_set H coerce st h) (\<lambda>ps. Ok (Some ps)))"

definition verify_stored_content :: "(string \<Rightarrow> string) \<Rightarrow> coercion \<Rightarrow> store \<Rightarrow> string \<Rightarrow> unit result" where
  \<comment> \<open>every refusal is a \<open>ValueError\<close>: the genesis one is a subclass\<close>
  "verify_stored_content H coerce st h = (case get_meta st (content_key h) None of
       None \<Rightarrow> rbind (content_hash H \<lparr>ps_filter = None, ps_exits = None\<rparr>) (\<lambda>no_override.
         if h = no_override
         then Err (ValueError (''rollback to the pre-promotion desk settings refused: '' @ h
           @ '' has no recorded content; the ledger never records the config they run''))
         else Err (ValueError (''active param set '' @ h @ '' has no stored content'')))
     | Some raw \<Rightarrow> (case rbind (decode_param_set coerce raw) (content_hash H) of
           Inl e \<Rightarrow> if undecodable e then Err (ValueError (''active param set '' @ h @ '' content is undecodable'')) else Err e
         | Inr h' \<Rightarrow> if h' \<noteq> h then Err (ValueError (''active param set '' @ h @ '' content does not match its hash'')) else Ok ()))"

definition record_active_set :: "(string \<Rightarrow> string) \<Rightarrow> coercion \<Rightarrow> store \<Rightarrow> param_set \<Rightarrow> string \<Rightarrow> string \<Rightarrow> string \<Rightarrow> string
    \<Rightarrow> string result \<times> store" where
  "record_active_set H coerce st ps signer ts source cid =
     (case rbind (content_hash H ps) (\<lambda>h. rbind (canonical_param_set H coerce ps) (\<lambda>raw. Ok (h, raw))) of
        Inl e \<Rightarrow> (Err e, st)
      | Inr (h, raw) \<Rightarrow> (let st1 = set_meta st (content_key h) raw in
         case read_active_set st1 of
           Inl e \<Rightarrow> (Err e, st1)
         | Inr previous \<Rightarrow>
             (case append_batch H st1 (active_set_rows h signer (case previous of None \<Rightarrow> [] | Some p \<Rightarrow> p) ts source cid) of
                (Inl e, st2) \<Rightarrow> (Err e, st2)
              | (Inr _, st2) \<Rightarrow> (Ok h, st2))))"

end
