(* ===== verification/BacktestMetrics.thy ===== *)
theory BacktestMetrics
  imports FloatText Adapter
begin

text \<open>
  Scoring a backtest window: the valuation of equity (\<open>backtest/equity.py\<close>), the metrics of a list of
  fills (\<open>backtest/metrics.py\<close>) and the divergence between a backtest and the paper desk
  (\<open>backtest/divergence.py\<close>). Decimal sums, products and square roots are those of the default context:
  28 digits, half to even; a power is computed with three more digits and rounded again, as the C
  decimal module does.
\<close>

section \<open>Decimal arithmetic\<close>

definition dec_fix_to :: "nat \<Rightarrow> dec \<Rightarrow> dec" where
  "dec_fix_to prec d = (case d of DFin s c e \<Rightarrow>
      (if ndigits c \<le> prec then d
       else let k = ndigits c - prec; q = half_even_div c (10 ^ k)
            in if ndigits q > prec then DFin s (q div 10) (e + int k + 1) else DFin s q (e + int k))
     | _ \<Rightarrow> d)"

definition dec_add :: "dec \<Rightarrow> dec \<Rightarrow> dec" where
  \<comment> \<open>of finite decimals; a zero sum is negative only if both terms are\<close>
  "dec_add a b = (case (a, b) of
       (DFin s c e, DFin t d f) \<Rightarrow>
         (let m = min e f; v = dec_scaled s c e m + dec_scaled t d f m
          in dec_fix (DFin (if v = 0 then s \<and> t else v < 0) (nat \<bar>v\<bar>) m))
     | _ \<Rightarrow> DNaN)"

definition dec_minus :: "dec \<Rightarrow> dec" where
  "dec_minus d = (case d of DFin s c e \<Rightarrow> DFin (\<not> s) c e | DInf s \<Rightarrow> DInf (\<not> s) | DNaN \<Rightarrow> DNaN)"

definition dec_sub :: "dec \<Rightarrow> dec \<Rightarrow> dec" where
  "dec_sub a b = dec_add a (dec_minus b)"

definition dec_mul :: "dec \<Rightarrow> dec \<Rightarrow> dec" where
  "dec_mul a b = (case (a, b) of (DFin s c e, DFin t d f) \<Rightarrow> dec_fix (DFin (s \<noteq> t) (c * d) (e + f)) | _ \<Rightarrow> DNaN)"

definition dec_square :: "dec \<Rightarrow> dec" where
  "dec_square a = (case a of DFin s c e \<Rightarrow> if c = 0 then DFin False 0 0 else dec_fix (dec_fix_to (dec_prec + 3) (DFin False (c * c) (e + e)))
     | DInf s \<Rightarrow> DInf False | DNaN \<Rightarrow> DNaN)"

function isqrt :: "nat \<Rightarrow> nat" where
  "isqrt n = (if n = 0 then 0 else let r = 2 * isqrt (n div 4) in if (r + 1) * (r + 1) \<le> n then r + 1 else r)"
  by pat_completeness auto

termination by (relation "measure (\<lambda>n. n)") auto

declare isqrt.simps [simp del]

definition dec_sqrt :: "dec \<Rightarrow> dec" where
  \<comment> \<open>of a finite decimal that is not negative, correctly rounded; exact roots keep the ideal exponent\<close>
  "dec_sqrt d = (case d of DFin s c e \<Rightarrow>
       (if c = 0 then DFin s 0 (e div 2)
        else let c1 = (if odd e then c * 10 else c);
                 l = (if odd e then ndigits c div 2 + 1 else (ndigits c + 1) div 2);
                 shift = int (dec_prec + 1) - int l;
                 c2 = (if shift \<ge> 0 then c1 * 100 ^ nat shift else c1 div 100 ^ nat (- shift));
                 n = isqrt c2;
                 exact = (n * n = c2 \<and> (shift \<ge> 0 \<or> c1 mod 100 ^ nat (- shift) = 0))
             in if exact
                then dec_fix (if shift \<ge> 0 then DFin False (n div 10 ^ nat shift) (e div 2) else DFin False (n * 10 ^ nat (- shift)) (e div 2))
                else dec_fix (DFin False (if n mod 5 = 0 then n + 1 else n) (e div 2 - shift)))
     | _ \<Rightarrow> d)"

section \<open>Equity of a window\<close>

definition window_equity :: "lstate \<Rightarrow> int" where
  \<comment> \<open>\<open>equity_lamports\<close> of \<open>backtest/equity.py\<close>\<close>
  "window_equity s = l_cash s + sum_list (map (\<lambda>p. if p_last_mtm_ts p \<noteq> [] then p_last_mtm p else p_cost_basis p)
     (List.filter (\<lambda>p. p_token_units p > 0) (dict_values (l_positions s))))"

definition net_lamports :: "lstate \<Rightarrow> event list \<Rightarrow> int result" where
  "net_lamports genesis rows = rbind (fold_events genesis rows) (\<lambda>s. Ok (window_equity s - window_equity genesis))"

section \<open>Metrics\<close>

record metrics_context =
  mc_initial_equity :: int
  mc_equity_curve :: "int list"
  mc_elapsed_days :: dec

record metrics_report =
  mr_total_return :: dec
  mr_max_drawdown :: dec
  mr_sharpe_ratio :: dec
  mr_win_rate :: dec
  mr_trade_count :: int
  mr_exposure :: int
  mr_turnover :: int

definition ANNUALIZATION_DAYS_PER_YEAR :: int where "ANNUALIZATION_DAYS_PER_YEAR = 365"

definition dec_positive :: "dec \<Rightarrow> bool result" where
  "dec_positive d = of_option (ArithmeticError ''InvalidOperation'') (dec_less dec_zero d)"

definition dec_negative :: "dec \<Rightarrow> bool result" where
  "dec_negative d = of_option (ArithmeticError ''InvalidOperation'') (dec_less d dec_zero)"

definition dec_quotient :: "dec \<Rightarrow> dec \<Rightarrow> dec result" where
  "dec_quotient a b = of_option (ArithmeticError ''DivisionByZero'') (dec_div a b)"

fun step_returns :: "int \<Rightarrow> int list \<Rightarrow> dec list result" where
  "step_returns previous [] = Ok []"
| "step_returns previous (e # es) =
     rbind (if previous > 0 then dec_quotient (dec_of_int (e - previous)) (dec_of_int previous) else Ok dec_zero) (\<lambda>r.
     rbind (step_returns e es) (\<lambda>rs. Ok (r # rs)))"

definition dec_sum :: "dec list \<Rightarrow> dec" where
  "dec_sum ds = foldl dec_add dec_zero ds"

definition sharpe_ratio :: "dec list \<Rightarrow> dec \<Rightarrow> dec result" where
  "sharpe_ratio returns elapsed_days = (let n = int (length returns) in
     rbind (dec_positive elapsed_days) (\<lambda>some_days.
     if n < 2 \<or> \<not> some_days then Ok dec_zero
     else rbind (dec_quotient (dec_sum returns) (dec_of_int n)) (\<lambda>mean.
       rbind (dec_quotient (dec_sum (map (\<lambda>item. dec_square (dec_sub item mean)) returns)) (dec_of_int n)) (\<lambda>variance.
       rbind (dec_positive variance) (\<lambda>spread.
       if \<not> spread then Ok dec_zero
       else let dispersion = dec_sqrt variance in
         if dec_val dispersion = 0 then Ok dec_zero
         else rbind (dec_quotient (dec_of_int (ANNUALIZATION_DAYS_PER_YEAR * n)) elapsed_days) (\<lambda>years.
           rbind (dec_quotient mean dispersion) (\<lambda>ratio. Ok (dec_mul ratio (dec_sqrt years)))))))))"

definition drawdown_step :: "int \<times> dec \<Rightarrow> int \<Rightarrow> (int \<times> dec) result" where
  "drawdown_step x point = (case x of (peak0, worst) \<Rightarrow> let peak = max peak0 point in
     if peak > 0
     then rbind (dec_quotient (dec_of_int (peak - point)) (dec_of_int peak)) (\<lambda>decline.
       rbind (of_option (ArithmeticError ''InvalidOperation'') (dec_max worst decline)) (\<lambda>m. Ok (peak, m)))
     else Ok (peak, worst))"

definition max_drawdown :: "int \<Rightarrow> int list \<Rightarrow> dec result" where
  "max_drawdown initial curve = rbind (rfold drawdown_step (initial, dec_zero) curve) (\<lambda>x. Ok (snd x))"

definition winners :: "int \<Rightarrow> int list \<Rightarrow> int" where
  "winners initial curve = int (length (List.filter (\<lambda>(e, previous). e - previous > 0) (zip curve (initial # butlast curve))))"

definition summarize :: "fill list \<Rightarrow> metrics_context \<Rightarrow> metrics_report result" where
  "summarize fills ctx = (let initial = mc_initial_equity ctx; curve = mc_equity_curve ctx in
     if length curve \<noteq> length fills
     then Err (ValueError (''equity curve length does not match fill count: '' @ nat_str (length curve) @ '' != '' @ nat_str (length fills)))
     else if initial < 0 then Err (ValueError ''initial equity must be zero or positive'')
     else rbind (dec_negative (mc_elapsed_days ctx)) (\<lambda>neg.
     if neg then Err (ValueError ''elapsed days must be zero or positive'')
     else if fills = []
     then Ok \<lparr>mr_total_return = dec_zero, mr_max_drawdown = dec_zero, mr_sharpe_ratio = dec_zero, mr_win_rate = dec_zero,
            mr_trade_count = 0, mr_exposure = 0, mr_turnover = 0\<rparr>
     else let notionals = map fi_filled_lamports fills in
       rbind (if initial > 0 then dec_quotient (dec_of_int (last curve - initial)) (dec_of_int initial) else Ok dec_zero) (\<lambda>total.
       rbind (max_drawdown initial curve) (\<lambda>worst.
       rbind (dec_quotient (dec_of_int (winners initial curve)) (dec_of_int (int (length fills)))) (\<lambda>rate.
       rbind (rbind (step_returns initial curve) (\<lambda>rs. sharpe_ratio rs (mc_elapsed_days ctx))) (\<lambda>sharpe.
       Ok \<lparr>mr_total_return = total, mr_max_drawdown = worst, mr_sharpe_ratio = sharpe, mr_win_rate = rate,
         mr_trade_count = int (length fills), mr_exposure = fold max (tl notionals) (hd notionals), mr_turnover = sum_list notionals\<rparr>))))))"

section \<open>Divergence\<close>

definition ABSOLUTE_RETURN_GAP_PP :: rat where "ABSOLUTE_RETURN_GAP_PP = 2"
definition SHARPE_GAP :: rat where "SHARPE_GAP = 1 / 2"

record divergence_verdict =
  dv_blocks_promotion :: bool
  dv_return_gap_pp :: rat
  dv_sharpe_gap :: rat
  dv_reasons :: "string list"

definition dec_to_float :: "dec \<Rightarrow> rat" where
  "dec_to_float d = fl (dec_val d)"

definition check_divergence :: "metrics_report \<Rightarrow> metrics_report \<Rightarrow> divergence_verdict" where
  "check_divergence backtest paper =
     (let return_gap = fl (\<bar>dec_to_float (dec_sub (mr_total_return backtest) (mr_total_return paper))\<bar> * 100);
          sharpe = \<bar>dec_to_float (dec_sub (mr_sharpe_ratio backtest) (mr_sharpe_ratio paper))\<bar>;
          reasons = (if return_gap \<ge> ABSOLUTE_RETURN_GAP_PP
              then [''return_gap_pp='' @ fixed 4 return_gap @ '' at-or-past '' @ fixed 1 ABSOLUTE_RETURN_GAP_PP @ ''pp''] else [])
            @ (if sharpe \<ge> SHARPE_GAP then [''sharpe_gap='' @ fixed 4 sharpe @ '' at-or-past '' @ fixed 1 SHARPE_GAP] else [])
      in \<lparr>dv_blocks_promotion = reasons \<noteq> [], dv_return_gap_pp = return_gap, dv_sharpe_gap = sharpe, dv_reasons = reasons\<rparr>)"

fun joined_by :: "string \<Rightarrow> string list \<Rightarrow> string" where
  "joined_by sep [] = []"
| "joined_by sep [s] = s"
| "joined_by sep (s # ss) = s @ sep @ joined_by sep ss"

definition breach_line :: "divergence_verdict \<Rightarrow> string option" where
  "breach_line v = (if \<not> dv_blocks_promotion v then None
     else Some (''DIVERGENCE BREACH return_gap_pp='' @ fixed 4 (dv_return_gap_pp v) @ '' sharpe_gap='' @ fixed 4 (dv_sharpe_gap v)
       @ '' reasons='' @ joined_by ''|'' (dv_reasons v)))"

definition enforce_divergence :: "divergence_verdict \<Rightarrow> int" where
  "enforce_divergence v = (if dv_blocks_promotion v then 1 else 0)"

section \<open>The summary is total and bounded\<close>

lemma isqrt_correct: "isqrt n * isqrt n \<le> n \<and> n < (isqrt n + 1) * (isqrt n + 1)"
proof (induction n rule: isqrt.induct)
  case (1 n)
  show ?case
  proof (cases "n = 0")
    case False
    define r where "r = isqrt (n div 4)"
    have r: "r * r \<le> n div 4" "n div 4 < (r + 1) * (r + 1)" using 1 False by (simp_all add: r_def)
    have d: "4 * (n div 4) \<le> n" "n < 4 * (n div 4) + 4" by presburger+
    have "4 * (r * r) \<le> 4 * (n div 4)" using r(1) by simp
    then have lo: "2 * r * (2 * r) \<le> n" using d(1) by simp
    have "4 * (n div 4 + 1) \<le> 4 * ((r + 1) * (r + 1))" using r(2) by (intro mult_le_mono2) simp
    then have hi: "n < 4 * ((r + 1) * (r + 1))" using d(2) by simp
    show ?thesis
      using lo hi False by (subst (1 2 3 4) isqrt.simps) (simp add: Let_def r_def [symmetric] algebra_simps)
  qed (simp add: isqrt.simps)
qed

lemma finite_fin: "is_finite d \<longleftrightarrow> (\<exists>s c e. d = DFin s c e)"
  by (cases d) (simp_all add: is_finite_def)

lemma fin_finite [simp]: "is_finite (DFin s c e)"
  by (simp add: is_finite_def)

lemma fixed_finite: "is_finite d \<Longrightarrow> is_finite (dec_fix d)" "is_finite d \<Longrightarrow> is_finite (dec_fix_to n d)"
  by (simp_all add: dec_fix_def dec_fix_to_def is_finite_def Let_def split: dec.splits)

lemma arith_finite:
  "is_finite a \<Longrightarrow> is_finite b \<Longrightarrow> is_finite (dec_add a b)" "is_finite a \<Longrightarrow> is_finite (dec_minus a)"
  "is_finite a \<Longrightarrow> is_finite b \<Longrightarrow> is_finite (dec_mul a b)" "is_finite a \<Longrightarrow> is_finite (dec_square a)" "is_finite a \<Longrightarrow> is_finite (dec_sqrt a)"
proof -
  show "is_finite a \<Longrightarrow> is_finite b \<Longrightarrow> is_finite (dec_add a b)" "is_finite a \<Longrightarrow> is_finite (dec_minus a)"
    "is_finite a \<Longrightarrow> is_finite b \<Longrightarrow> is_finite (dec_mul a b)"
    by (auto simp: finite_fin [of a] finite_fin [of b] dec_add_def dec_minus_def dec_mul_def Let_def intro!: fixed_finite)
  show "is_finite a \<Longrightarrow> is_finite (dec_square a)"
    by (auto simp: finite_fin [of a] dec_square_def intro!: fixed_finite)
  have if_finite: "is_finite x \<Longrightarrow> is_finite y \<Longrightarrow> is_finite (if b then x else y)" for x y b by simp
  show "is_finite (dec_sqrt a)" if "is_finite a"
  proof -
    obtain s c e where a: "a = DFin s c e" using \<open>is_finite a\<close> by (auto simp: finite_fin)
    show ?thesis unfolding a dec_sqrt_def dec.case Let_def by (intro if_finite fixed_finite fin_finite)
  qed
qed

lemma dec_sum_finite: "\<forall>d \<in> set ds. is_finite d \<Longrightarrow> is_finite (dec_sum ds)"
proof -
  have "\<forall>d \<in> set ds. is_finite d \<Longrightarrow> is_finite a \<Longrightarrow> is_finite (foldl dec_add a ds)" for a
    by (induction ds arbitrary: a) (simp_all add: arith_finite)
  then show "\<forall>d \<in> set ds. is_finite d \<Longrightarrow> is_finite (dec_sum ds)" by (simp add: dec_sum_def dec_zero_def)
qed

lemma dec_div_total:
  assumes "is_finite a" "is_finite b" "dec_val b \<noteq> 0"
  shows "\<exists>q. dec_quotient a b = Ok q \<and> is_finite q"
proof -
  obtain s c e t d f where ab: "a = DFin s c e" "b = DFin t d f" using assms(1,2) by (auto simp: finite_fin)
  have d: "d \<noteq> 0" using assms(3) ab by (auto simp: dec_val_def)
  have "\<exists>u. dec_div a b = Some u \<and> is_finite u"
  proof (cases "c = 0")
    case False
    have "\<exists>u. dec_div a b = Some (dec_fix u) \<and> is_finite u"
      unfolding dec_div_def ab using d False
      by (simp only: prod.case dec.case if_False Let_def) (simp only: option.inject, rule exI, rule conjI, rule refl, simp)
    then show ?thesis using fixed_finite by blast
  qed (use ab d in \<open>simp add: dec_div_def\<close>)
  then show ?thesis by (auto simp: dec_quotient_def)
qed

lemma int_val [simp]: "dec_val (dec_of_int i) = of_int i" "is_finite (dec_of_int i)" "dec_val dec_zero = 0" "is_finite dec_zero"
  by (simp_all add: dec_of_int_def dec_val_def dec_zero_def)

lemma step_returns_total: "\<exists>rs. step_returns previous es = Ok rs \<and> length rs = length es \<and> (\<forall>r \<in> set rs. is_finite r)"
proof (induction es arbitrary: previous)
  case (Cons e es)
  obtain rs where rs: "step_returns e es = Ok rs" "length rs = length es" "\<forall>r \<in> set rs. is_finite r" using Cons by blast
  obtain r where r: "(if previous > 0 then dec_quotient (dec_of_int (e - previous)) (dec_of_int previous) else Ok dec_zero) = Ok r" "is_finite r"
    using dec_div_total [of "dec_of_int (e - previous)" "dec_of_int previous"] by (cases "previous > 0") auto
  show ?case using rs r by simp
qed simp

lemma sign_total: "is_finite d \<Longrightarrow> dec_positive d = Ok (0 < dec_val d)" "is_finite d \<Longrightarrow> dec_negative d = Ok (dec_val d < 0)"
  by (simp_all add: dec_positive_def dec_negative_def dec_less_correct)

lemma sharpe_total:
  assumes "\<forall>r \<in> set rs. is_finite r" "is_finite days"
  shows "\<exists>x. sharpe_ratio rs days = Ok x"
proof -
  let ?n = "int (length rs)"
  show ?thesis
  proof (cases "?n < 2 \<or> \<not> 0 < dec_val days")
    case True
    then show ?thesis using assms by (auto simp: sharpe_ratio_def sign_total)
  next
    case False
    then have "rs \<noteq> []" by auto
    then have n: "(of_int ?n :: rat) \<noteq> 0" by simp
    obtain mean where mean: "dec_quotient (dec_sum rs) (dec_of_int ?n) = Ok mean" "is_finite mean"
      using dec_div_total [OF dec_sum_finite [OF assms(1)], of "dec_of_int ?n"] n by auto
    let ?sq = "map (\<lambda>item. dec_square (dec_sub item mean)) rs"
    have "\<forall>d \<in> set ?sq. is_finite d" using assms(1) mean(2) by (auto simp: dec_sub_def intro!: arith_finite)
    then obtain v where v: "dec_quotient (dec_sum ?sq) (dec_of_int ?n) = Ok v" "is_finite v"
      using dec_div_total [OF dec_sum_finite, of ?sq "dec_of_int ?n"] n by auto
    obtain years where years: "dec_quotient (dec_of_int (ANNUALIZATION_DAYS_PER_YEAR * ?n)) days = Ok years"
      using dec_div_total [of "dec_of_int (ANNUALIZATION_DAYS_PER_YEAR * ?n)" days] assms(2) False by auto
    have "\<exists>q. dec_quotient mean (dec_sqrt v) = Ok q" if "dec_val (dec_sqrt v) \<noteq> 0"
      using dec_div_total [OF mean(2) arith_finite(5) [OF v(2)] that] by blast
    then show ?thesis
      using False assms(2) mean(1) v years by (auto simp: sharpe_ratio_def sign_total Let_def)
  qed
qed

lemma drawdown_total:
  assumes "0 \<le> peak" "\<forall>e \<in> set es. 0 \<le> e" "is_finite w" "0 \<le> dec_val w" "dec_val w \<le> 1"
  shows "\<exists>p' w'. rfold drawdown_step (peak, w) es = Ok (p', w') \<and> 0 \<le> dec_val w' \<and> dec_val w' \<le> 1"
  using assms
proof (induction es arbitrary: peak w)
  case (Cons e es)
  let ?peak = "max peak e"
  show ?case
  proof (cases "?peak > 0")
    case True
    have e: "0 \<le> e" using Cons.prems(2) by simp
    obtain d where d: "dec_div (dec_of_int (?peak - e)) (dec_of_int ?peak) = Some d" "0 \<le> dec_val d" "dec_val d \<le> 1"
      using fraction_unit [of "?peak - e" ?peak] True e by auto
    obtain d' where "dec_quotient (dec_of_int (?peak - e)) (dec_of_int ?peak) = Ok d'" "is_finite d'"
      using dec_div_total [of "dec_of_int (?peak - e)" "dec_of_int ?peak"] True by auto
    then have q: "dec_quotient (dec_of_int (?peak - e)) (dec_of_int ?peak) = Ok d" "is_finite d" using d(1) by (simp_all add: dec_quotient_def)
    obtain m where m: "dec_max w d = Some m" "is_finite m" "dec_val m = max (dec_val w) (dec_val d)"
      by (rule dec_max_ge [OF Cons.prems(3) q(2)])
    have "drawdown_step (peak, w) e = Ok (?peak, m)" using True q m by (simp add: drawdown_step_def of_option_def Let_def)
    moreover have "\<exists>p' w'. rfold drawdown_step (?peak, m) es = Ok (p', w') \<and> 0 \<le> dec_val w' \<and> dec_val w' \<le> 1"
      by (rule Cons.IH) (use Cons.prems m d in auto)
    ultimately show ?thesis by simp
  next
    case False
    then have "drawdown_step (peak, w) e = Ok (?peak, w)" by (simp add: drawdown_step_def Let_def)
    moreover have "\<exists>p' w'. rfold drawdown_step (?peak, w) es = Ok (p', w') \<and> 0 \<le> dec_val w' \<and> dec_val w' \<le> 1"
      by (rule Cons.IH) (use Cons.prems in auto)
    ultimately show ?thesis by simp
  qed
qed simp

lemma winners_bounds: "0 \<le> winners initial curve" "winners initial curve \<le> int (length curve)"
proof -
  have "length (List.filter (\<lambda>(e, previous). e - previous > 0) (zip curve (initial # butlast curve))) \<le> length curve"
    by (rule order_trans [OF length_filter_le]) simp
  then show "0 \<le> winners initial curve" "winners initial curve \<le> int (length curve)" by (simp_all add: winners_def)
qed

lemma fold_max_bound:
  fixes xs :: "int list"
  assumes "\<forall>x \<in> set xs. 0 \<le> x" "0 \<le> a"
  shows "0 \<le> fold max xs a \<and> fold max xs a \<le> a + sum_list xs"
  using assms
proof (induction xs arbitrary: a)
  case (Cons x xs)
  have "0 \<le> fold max xs (max x a) \<and> fold max xs (max x a) \<le> max x a + sum_list xs"
    using Cons.prems by (intro Cons.IH) auto
  then show ?case using Cons.prems by auto
qed simp

text \<open>
  C16: a window's summary always exists and is bounded. For a curve of equities that are not negative, a
  finite window length that is not negative and fills whose notionals are not negative, \<open>summarize\<close>
  raises no exception in any of its decimal divisions, square roots or comparisons; the maximum drawdown
  and the win rate lie in [0, 1], rounding included, and the exposure is at most the turnover.
\<close>

theorem metrics_total_and_bounded:
  assumes "length (mc_equity_curve ctx) = length fills" "0 \<le> mc_initial_equity ctx" "\<forall>e \<in> set (mc_equity_curve ctx). 0 \<le> e"
    "is_finite (mc_elapsed_days ctx)" "0 \<le> dec_val (mc_elapsed_days ctx)" "\<forall>f \<in> set fills. 0 \<le> fi_filled_lamports f"
  shows "\<exists>m. summarize fills ctx = Ok m \<and> 0 \<le> dec_val (mr_max_drawdown m) \<and> dec_val (mr_max_drawdown m) \<le> 1
    \<and> 0 \<le> dec_val (mr_win_rate m) \<and> dec_val (mr_win_rate m) \<le> 1
    \<and> mr_trade_count m = int (length fills) \<and> 0 \<le> mr_exposure m \<and> mr_exposure m \<le> mr_turnover m"
proof (cases "fills = []")
  case True
  then show ?thesis using assms by (simp add: summarize_def sign_total Let_def)
next
  case False
  let ?initial = "mc_initial_equity ctx" and ?curve = "mc_equity_curve ctx"
  let ?total = "if ?initial > 0 then dec_quotient (dec_of_int (last ?curve - ?initial)) (dec_of_int ?initial) else Ok dec_zero"
  obtain total where total: "?total = Ok total"
    using dec_div_total [of "dec_of_int (last ?curve - ?initial)" "dec_of_int ?initial"] by (cases "?initial > 0") auto
  obtain worst where worst: "max_drawdown ?initial ?curve = Ok worst" "0 \<le> dec_val worst" "dec_val worst \<le> 1"
    using drawdown_total [OF assms(2,3), of dec_zero] by (auto simp: max_drawdown_def)
  have n: "0 < int (length fills)" using False by simp
  obtain rate where rate: "dec_quotient (dec_of_int (winners ?initial ?curve)) (dec_of_int (int (length fills))) = Ok rate"
    "0 \<le> dec_val rate" "dec_val rate \<le> 1"
    using fraction_unit [OF winners_bounds(1) _ n, of ?initial ?curve] winners_bounds(2) [of ?initial ?curve] assms(1)
    by (auto simp: dec_quotient_def)
  obtain rs where rs: "step_returns ?initial ?curve = Ok rs" "\<forall>r \<in> set rs. is_finite r" using step_returns_total by blast
  obtain x where x: "sharpe_ratio rs (mc_elapsed_days ctx) = Ok x" using sharpe_total [OF rs(2) assms(4)] by blast
  obtain f fs where f: "fills = f # fs" using False by (cases fills) auto
  have "0 \<le> fold max (map fi_filled_lamports fs) (fi_filled_lamports f)
      \<and> fold max (map fi_filled_lamports fs) (fi_filled_lamports f) \<le> fi_filled_lamports f + sum_list (map fi_filled_lamports fs)"
    using assms(6) f by (intro fold_max_bound) auto
  then show ?thesis
    using False assms total worst rate rs x f by (auto simp: summarize_def sign_total Let_def)
qed

definition sample_fill :: "int \<Rightarrow> fill" where
  "sample_fill n = \<lparr>fi_order_id = ''o'', fi_decision_id = ''d'', fi_status = FILLED, fi_venue_tx_ref = ''t'', fi_filled_lamports = n,
     fi_filled_units = 1, fi_filled_fraction = dec_zero, fi_price_avg = dec_zero, fi_slippage_bps = 0, fi_venue_fee = 0,
     fi_network_cost = 0, fi_route = ''curve'', fi_seq = 1\<rparr>"

theorem metrics_total_and_bounded_witness:
  "\<exists>m. summarize [sample_fill 40, sample_fill 60] \<lparr>mc_initial_equity = 100, mc_equity_curve = [80, 120], mc_elapsed_days = DFin False 2 0\<rparr> = Ok m
     \<and> 0 \<le> dec_val (mr_max_drawdown m) \<and> dec_val (mr_max_drawdown m) \<le> 1 \<and> mr_trade_count m = 2"
  using metrics_total_and_bounded [of "\<lparr>mc_initial_equity = 100, mc_equity_curve = [80, 120], mc_elapsed_days = DFin False 2 0\<rparr>"
      "[sample_fill 40, sample_fill 60]"]
  by (auto simp: sample_fill_def dec_val_def)

end
