(* ===== verification/BacktestSearch.thy ===== *)
theory BacktestSearch
  imports Fixtures Candidate BacktestMetrics
begin

text \<open>
  The parameter search of a backtest: the holdout split and its walk-forward folds
  (\<open>backtest/split.py\<close>, \<open>backtest/evaluate.py\<close>), the trial ledger (\<open>backtest/trials.py\<close>), the identity of a
  run (\<open>backtest/manifest.py\<close>), the score of one window and the search itself (\<open>backtest/harness.py\<close>). The
  replay of a dataset directory under given settings is an argument (\<open>replay\<close>, with the budget and limits
  it is handed unchanged): the ledger it leaves. The trial ledger's file is its text, None while it does
  not exist; the lock around one recording makes it one step.
\<close>

section \<open>Holdout split and folds\<close>

definition HOLDOUT_FRACTION :: rat where "HOLDOUT_FRACTION = fl (1 / 5)"

record split_view =
  hs_dataset :: string
  hs_train_ids :: "string list"
  hs_holdout_id :: string
  hs_train_end :: rat
  hs_holdout_start :: rat

definition require_dataset :: "string \<Rightarrow> unit result" where
  "require_dataset dataset = rguard (dataset \<noteq> []) (ValueError ''dataset must be a non-empty name'')"

definition lowest :: "rat list \<Rightarrow> rat" where "lowest ts = fold min (tl ts) (hd ts)"
definition highest :: "rat list \<Rightarrow> rat" where "highest ts = fold max (tl ts) (hd ts)"

definition cutoff_ts :: "rat list \<Rightarrow> rat result" where
  "cutoff_ts stamps = (if stamps = [] then Err (ValueError ''stamps must hold at least one timestamp'')
     else Ok (fl (highest stamps - fl (HOLDOUT_FRACTION * fl (highest stamps - lowest stamps)))))"

definition holdout_split :: "rat list \<Rightarrow> string \<Rightarrow> split_view result" where
  "holdout_split stamps dataset = rbind (require_dataset dataset) (\<lambda>_. rbind (cutoff_ts stamps) (\<lambda>cutoff.
     Ok \<lparr>hs_dataset = dataset,
       hs_train_ids = map (\<lambda>(i, ts). dataset @ ''-train-'' @ nat_str i) (List.filter (\<lambda>(i, ts). ts < cutoff) (List.enumerate 0 stamps)),
       hs_holdout_id = dataset @ ''-holdout'', hs_train_end = cutoff, hs_holdout_start = cutoff\<rparr>))"

definition walk_forward_folds :: "rat list \<Rightarrow> string \<Rightarrow> int \<Rightarrow> (string \<times> string) list result" where
  "walk_forward_folds stamps dataset n_folds =
     rbind (require_dataset dataset) (\<lambda>_. rbind (rguard (1 \<le> n_folds) (ValueError ''n_folds must be at least 1'')) (\<lambda>_.
     rbind (cutoff_ts stamps) (\<lambda>cutoff. let pre_count = int (length (List.filter (\<lambda>ts. ts < cutoff) stamps)) in
     if pre_count < n_folds + 1
     then Err (ValueError (''need at least '' @ int_str (n_folds + 1) @ '' pre-holdout stamps for '' @ int_str n_folds @ '' folds, found '' @ int_str pre_count))
     else Ok (map (\<lambda>k. (dataset @ ''-train-'' @ int_str k, dataset @ ''-test-'' @ int_str k)) [1..n_folds]))))"

record eval_window =
  \<comment> \<open>the end is excluded; None is the positive infinity of the holdout tail\<close>
  ew_id :: string
  ew_start :: rat
  ew_end :: "rat option"

record windows =
  fw_folds :: "eval_window list"
  fw_holdout :: eval_window

definition fold_at :: "rat list \<Rightarrow> rat \<Rightarrow> (string \<times> string) list \<Rightarrow> int \<Rightarrow> int \<Rightarrow> eval_window" where
  "fold_at stamps cutoff pairs n_folds position =
     (let total = int (length stamps); start_pos = position * total div (n_folds + 1);
          end_pos = (position + 1) * total div (n_folds + 1)
      in \<lparr>ew_id = snd (pairs ! nat (position - 1)), ew_start = stamps ! nat start_pos,
          ew_end = Some (if end_pos < total then stamps ! nat end_pos else cutoff)\<rparr>)"

definition distinct_before :: "rat \<Rightarrow> rat list \<Rightarrow> rat list" where
  "distinct_before cutoff stamps = sort (remdups (List.filter (\<lambda>s. s < cutoff) stamps))"

definition fold_windows :: "rat list \<Rightarrow> string \<Rightarrow> int \<Rightarrow> windows result" where
  "fold_windows stamps dataset n_folds =
     rbind (walk_forward_folds stamps dataset n_folds) (\<lambda>pairs. rbind (holdout_split stamps dataset) (\<lambda>split.
     let cutoff = hs_holdout_start split; before = distinct_before cutoff stamps; total = int (length before) in
     if total < n_folds + 1
     then Err (ValueError (''need at least '' @ int_str (n_folds + 1) @ '' distinct pre-holdout timestamps for '' @ int_str n_folds
       @ '' folds, found '' @ int_str total))
     else Ok \<lparr>fw_folds = map (fold_at before cutoff pairs n_folds) [1..n_folds],
       fw_holdout = \<lparr>ew_id = hs_holdout_id split, ew_start = cutoff, ew_end = None\<rparr>\<rparr>))"

definition in_window :: "eval_window \<Rightarrow> rat \<Rightarrow> bool" where
  "in_window w t \<longleftrightarrow> ew_start w \<le> t \<and> (case ew_end w of None \<Rightarrow> True | Some e \<Rightarrow> t < e)"

section \<open>The net of a window's ledger\<close>

definition payload_mapping :: "event \<Rightarrow> string \<Rightarrow> (string, json) dict result" where
  "payload_mapping e kind = (case e_payload e of JObj kvs \<Rightarrow> Ok kvs | _ \<Rightarrow> Err (ValueError (kind @ '' row carries no payload mapping'')))"

definition int_field :: "(string, json) dict \<Rightarrow> string \<Rightarrow> int result" where
  "int_field payload name = (case map_of payload name of Some (JInt i) \<Rightarrow> Ok i
     | _ \<Rightarrow> Err (ValueError (''ledger row carries non-integer '' @ name)))"

definition check_money_row :: "event \<Rightarrow> unit result" where
  "check_money_row e = (if e_type e = ''FillRecorded''
     then rbind (payload_mapping e ''FillRecorded'') (\<lambda>p.
       rbind (rguard (map_of p ''side'' \<in> {Some (JStr ''buy''), Some (JStr ''sell'')}) (ValueError ''FillRecorded row carries unknown side'')) (\<lambda>_.
       rbind (int_field p ''cash_delta_lamports'') (\<lambda>_. Ok ())))
     else if e_type e = ''OrderRejected''
     then rbind (payload_mapping e ''OrderRejected'') (\<lambda>p. rbind (int_field p ''fees_lamports'') (\<lambda>_. Ok ()))
     else Ok ())"

definition check_money_rows :: "event list \<Rightarrow> unit result" where
  "check_money_rows rows = rbind (rmap check_money_row rows) (\<lambda>_. Ok ())"

definition ledger_net :: "store \<Rightarrow> int result" where
  \<comment> \<open>\<open>_net_lamports\<close> of \<open>backtest/evaluate.py\<close>\<close>
  "ledger_net st = rbind (read st 0 [] None None None) (\<lambda>rows. rbind (check_money_rows rows) (\<lambda>_.
     case get_meta st ''initial_equity_lamports'' None of
       None \<Rightarrow> Err (ValueError ''eval ledger holds no initial_equity_lamports meta'')
     | Some m \<Rightarrow> rbind (of_option (ValueError ''invalid literal for int()'') (int_of_str m)) (\<lambda>e0.
         net_lamports (initial_state ''replay'' e0 []) rows)))"


section \<open>Identity of a run\<close>

definition file_digest :: "(string \<Rightarrow> string) \<Rightarrow> string \<Rightarrow> string" where
  "file_digest H data = H data"

definition dataset_digest :: "(string \<Rightarrow> string) \<Rightarrow> directory \<Rightarrow> string result" where
  \<comment> \<open>over the plain files of the directory\<close>
  "dataset_digest H dir = (let files = List.filter (\<lambda>(n, k). case k of Regular _ \<Rightarrow> True | _ \<Rightarrow> False) (sort_key fst dir) in
     if files = [] then Err (ValueError ''dataset directory holds no files'')
     else Ok (H (concat (map (\<lambda>(n, k). case k of Regular data \<Rightarrow> file_digest H data | _ \<Rightarrow> []) files))))"

definition param_set_of :: "coercion \<Rightarrow> (string \<times> knob) list \<Rightarrow> param_set result" where
  \<comment> \<open>\<open>CandidateParams(**mapping)\<close>\<close>
  "param_set_of coerce kvs =
     (let section_knobs = (\<lambda>name. case map_of kvs name of
            None \<Rightarrow> Ok None | Some (KTable m) \<Rightarrow> Ok (Some m)
          | Some (KOther ty) \<Rightarrow> if ty = ''NoneType'' then Ok None else Err (ValueError ''Input should be a valid dictionary'')
          | _ \<Rightarrow> Err (ValueError ''Input should be a valid dictionary''))
      in rbind (rguard (fst ` set kvs \<subseteq> {''filter'', ''exits''}) (ValueError ''extra fields forbidden'')) (\<lambda>_.
         rbind (section_knobs ''filter'') (\<lambda>f. rbind (section_knobs ''exits'') (\<lambda>x.
         candidate_params coerce \<lparr>ps_filter = f, ps_exits = x\<rparr>))))"

definition param_set_hash :: "(string \<Rightarrow> string) \<Rightarrow> coercion \<Rightarrow> string \<Rightarrow> string result" where
  "param_set_hash H coerce text = rbind (param_set_mapping text) (\<lambda>kvs. rbind (param_set_of coerce kvs) (content_hash H))"

definition settings_json :: "(string, knob) dict \<Rightarrow> json result" where
  \<comment> \<open>\<open>model_dump(mode="json")\<close> of a settings model\<close>
  "settings_json settings = rbind (json_of_table settings) (\<lambda>js. Ok (JObj js))"

definition evaluated_settings_hash :: "(string \<Rightarrow> string) \<Rightarrow> coercion \<Rightarrow> param_set \<Rightarrow> json \<Rightarrow> json \<Rightarrow> string result" where
  \<comment> \<open>the dumps of the effective limits and budget are arguments\<close>
  "evaluated_settings_hash H coerce ps limits budget =
     rbind (exits_settings_of coerce ps) (\<lambda>x. rbind (settings_json x) (\<lambda>xj.
     rbind (filter_settings coerce ps) (\<lambda>f. rbind (settings_json f) (\<lambda>fj.
     Ok (H (dumps_sorted (JObj [(''exits'', xj), (''filter'', fj), (''limits'', limits), (''risk_budget'', budget)])))))))"

record run_manifest =
  rm_version :: string
  rm_dataset :: string
  rm_dataset_digest :: string
  rm_seed :: int
  rm_filter_settings_hash :: string
  rm_param_set_hash :: string
  rm_code_version :: string
  rm_run_id :: string

definition RUN_ID_VERSION :: string where "RUN_ID_VERSION = ''1''"

definition validate_run_manifest :: "run_manifest \<Rightarrow> bool" where
  "validate_run_manifest m \<longleftrightarrow> rm_version m = RUN_ID_VERSION \<and> rm_dataset m \<noteq> [] \<and> rm_code_version m \<noteq> []
     \<and> list_all hash_pattern [rm_dataset_digest m, rm_filter_settings_hash m, rm_param_set_hash m, rm_run_id m]"

definition manifest_payload :: "run_manifest \<Rightarrow> (string, pyval) dict" where
  \<comment> \<open>every field but the run id\<close>
  "manifest_payload m = [(''run_id_version'', PStr (rm_version m)), (''dataset'', PStr (rm_dataset m)),
     (''dataset_digest'', PStr (rm_dataset_digest m)), (''seed'', PInt (rm_seed m)),
     (''filter_settings_hash'', PStr (rm_filter_settings_hash m)), (''param_set_hash'', PStr (rm_param_set_hash m)),
     (''code_version'', PStr (rm_code_version m))]"

definition run_id :: "(string \<Rightarrow> string) \<Rightarrow> run_manifest \<Rightarrow> string result" where
  "run_id H m = rbind (canonical_json (manifest_payload m)) (\<lambda>t. Ok (H t))"

definition build_manifest :: "(string \<Rightarrow> string) \<Rightarrow> string \<Rightarrow> directory \<Rightarrow> int \<Rightarrow> string \<Rightarrow> string \<Rightarrow> string \<Rightarrow> run_manifest result" where
  \<comment> \<open>of a dataset already resolved to its directory; the code version is an argument\<close>
  "build_manifest H dataset dir seed filter_hash param_hash code_version =
     rbind (dataset_digest H dir) (\<lambda>digest.
     let m = \<lparr>rm_version = RUN_ID_VERSION, rm_dataset = dataset, rm_dataset_digest = digest, rm_seed = seed,
       rm_filter_settings_hash = filter_hash, rm_param_set_hash = param_hash, rm_code_version = code_version, rm_run_id = []\<rparr> in
     rbind (run_id H m) (\<lambda>i. let m' = m\<lparr>rm_run_id := i\<rparr> in
     if validate_run_manifest m' then Ok m' else Err (ValueError ''run manifest'')))"

section \<open>The score of one window\<close>

fun refloat :: "json \<Rightarrow> json"
  and refloat_list :: "json list \<Rightarrow> json list"
  and refloat_items :: "(string \<times> json) list \<Rightarrow> (string \<times> json) list" where
  \<comment> \<open>a number read as a float and printed again\<close>
  "refloat (JFloat t) = JFloat (case dec_of_str t of Some d \<Rightarrow> if is_finite d then float_text (fl (dec_val d)) else t | None \<Rightarrow> t)"
| "refloat (JArr vs) = JArr (refloat_list vs)"
| "refloat (JObj kvs) = JObj (refloat_items kvs)"
| "refloat j = j"
| "refloat_list [] = []"
| "refloat_list (v # vs) = refloat v # refloat_list vs"
| "refloat_items [] = []"
| "refloat_items ((k, v) # kvs) = (k, refloat v) # refloat_items kvs"

definition slice_lines :: "(string, json) dict list \<Rightarrow> string" where
  "slice_lines es = concat (map (\<lambda>e. dumps_sorted (refloat (JObj e)) @ [CHR 0x0A]) es)"

definition new_line :: "nat \<Rightarrow> string" where
  "new_line depth = CHR 0x0A # replicate (2 * depth) CHR '' ''"

fun indented :: "nat \<Rightarrow> json \<Rightarrow> string"
  and indented_list :: "nat \<Rightarrow> json list \<Rightarrow> string"
  and indented_items :: "nat \<Rightarrow> (string \<times> json) list \<Rightarrow> string" where
  \<comment> \<open>\<open>json.dumps(..., indent=2)\<close>\<close>
  "indented n (JArr vs) = (if vs = [] then ''[]'' else CHR ''['' # indented_list (Suc n) vs @ new_line n @ '']'')"
| "indented n (JObj kvs) = (if kvs = [] then ''{}'' else CHR ''{'' # indented_items (Suc n) kvs @ new_line n @ ''}'')"
| "indented n j = json_print j"
| "indented_list n [] = []"
| "indented_list n (v # vs) = new_line n @ indented n v @ (if vs = [] then [] else '','') @ indented_list n vs"
| "indented_items n [] = []"
| "indented_items n ((k, v) # kvs) = new_line n @ print_str k @ '': '' @ indented n v @ (if kvs = [] then [] else '','') @ indented_items n kvs"

definition lists_events :: "json \<Rightarrow> bool" where
  "lists_events v = (case v of JObj d \<Rightarrow> EVENTS_NAME \<in> fst ` set d | _ \<Rightarrow> False)"

definition slice_template :: "(string, json) dict \<Rightarrow> fixture_manifest \<Rightarrow> json \<Rightarrow> json \<Rightarrow> string \<Rightarrow> string \<Rightarrow> (string, json) dict" where
  \<comment> \<open>the recorded manifest with the slice's own bounds, digest and notes\<close>
  "slice_template kvs m from_ts to_ts file_hex notes =
     dict_set (map (\<lambda>(k, v). (k, if lists_events v then JObj [(EVENTS_NAME, JStr file_hex)] else v))
       (dict_set (dict_set (dict_set (dict_set (dict_set kvs ''dataset'' (JStr (fm_dataset m))) ''recorded_from_utc'' from_ts)
         ''recorded_to_utc'' to_ts) ''seed_hint'' (JInt (fm_seed_hint m)))
         ''sources'' (JObj (map (\<lambda>(k, v). (k, JStr v)) (fm_sources m)))))
       ''notes'' (JStr notes)"

definition staged :: "(string \<Rightarrow> string) \<Rightarrow> (string, json) dict \<Rightarrow> fixture_manifest \<Rightarrow> string \<Rightarrow> (string, json) dict list \<Rightarrow> directory result" where
  \<comment> \<open>the directory one slice is written to, as the replay reads it\<close>
  "staged H kvs m window_id chosen = (let raw = slice_lines chosen in
     rbind (dataset_digest H [(EVENTS_NAME, Regular raw)]) (\<lambda>identity.
     Ok [(EVENTS_NAME, Regular raw),
       (MANIFEST_NAME, Regular (indented 0 (json_sorted (refloat (JObj (slice_template kvs m
          (dict_get_default (hd chosen) ''ts_utc'' JNull) (dict_get_default (last chosen) ''ts_utc'' JNull) (file_digest H raw)
          (''slice '' @ window_id @ '' of '' @ fm_dataset m @ ''; slice identity '' @ identity))))) @ [CHR 0x0A]))]))"

definition chosen_events :: "eval_window \<Rightarrow> (string, json) dict list \<Rightarrow> (string, json) dict list result" where
  "chosen_events w es = rbind (rmap (\<lambda>e. rbind (event_epoch e) (\<lambda>t. Ok (t, e))) es) (\<lambda>ticks.
     Ok (map snd (List.filter (\<lambda>(t, e). in_window w t) ticks)))"

type_synonym 'b replay_run = "'b \<Rightarrow> directory \<Rightarrow> (string, knob) dict \<Rightarrow> (string, knob) dict \<Rightarrow> int \<Rightarrow> store result"

definition window_ledger :: "(string \<Rightarrow> string) \<Rightarrow> coercion \<Rightarrow> 'b replay_run \<Rightarrow> 'b \<Rightarrow> directory \<Rightarrow> param_set \<Rightarrow> int \<Rightarrow> eval_window \<Rightarrow> store result" where
  \<comment> \<open>the ledger one window's replay leaves; its path is a fresh file\<close>
  "window_ledger H coerce replay limits dir ps seed w =
     (if (case ew_end w of None \<Rightarrow> False | Some e \<Rightarrow> e < ew_start w) then Err (ValueError (''window '' @ ew_id w @ '' ends before it starts''))
      else rbind (load_dataset H dir) (\<lambda>source. rbind (chosen_events w (fd_events source)) (\<lambda>chosen.
        if chosen = [] then Err (ValueError (''window '' @ ew_id w @ '' holds no events''))
        else (case map_of dir MANIFEST_NAME of
            Some (Regular text) \<Rightarrow> (case loads text of
               Some (JObj kvs) \<Rightarrow> rbind (staged H kvs (fd_manifest source) (ew_id w) chosen) (\<lambda>stage.
                 rbind (filter_settings coerce ps) (\<lambda>f. rbind (exits_settings_of coerce ps) (\<lambda>x.
                 replay limits stage f x seed)))
             | _ \<Rightarrow> Err (ValueError ''manifest template''))
          | _ \<Rightarrow> Err (RuntimeError ''no such file'')))))"

definition evaluate_window :: "(string \<Rightarrow> string) \<Rightarrow> coercion \<Rightarrow> 'b replay_run \<Rightarrow> 'b \<Rightarrow> directory \<Rightarrow> param_set \<Rightarrow> int \<Rightarrow> eval_window \<Rightarrow> int result" where
  "evaluate_window H coerce replay limits dir ps seed w = rbind (window_ledger H coerce replay limits dir ps seed w) ledger_net"

section \<open>The trial ledger\<close>

definition MAX_ELIGIBLE_TRIALS :: int where "MAX_ELIGIBLE_TRIALS = 20"
definition MAX_ALLOWED_TRIALS :: int where "MAX_ALLOWED_TRIALS = 50"

record trial_verdict =
  tv_number :: int
  tv_params_hash :: string
  tv_eligible :: bool

type_synonym trials_file = "string option"

definition RECORD_KEYS :: "string list" where
  "RECORD_KEYS = [''trial_number'', ''params_hash'', ''eligible_for_promotion'']"

definition trial_text :: "trial_verdict \<Rightarrow> string" where
  \<comment> \<open>\<open>json.dumps(_record_of(v), sort_keys=True)\<close>\<close>
  "trial_text v = ''{\"eligible_for_promotion\": '' @ (if tv_eligible v then ''true'' else ''false'')
     @ '', \"params_hash\": '' @ print_str (tv_params_hash v) @ '', \"trial_number\": '' @ int_str (tv_number v) @ ''}''"

definition trial_of_line :: "nat \<times> string \<Rightarrow> trial_verdict result" where
  "trial_of_line numbered = (case numbered of (n, line) \<Rightarrow>
     if strip line = [] then Err (CorruptState ''trials ledger holds a blank line'')
     else case loads line of
         None \<Rightarrow> Err (CorruptState ''trials ledger holds an undecodable line'')
       | Some (JObj kvs) \<Rightarrow>
           if fst ` set kvs \<noteq> set RECORD_KEYS then Err (CorruptState ''trials ledger holds a malformed record'')
           else (case (map_of kvs ''trial_number'', map_of kvs ''params_hash'', map_of kvs ''eligible_for_promotion'') of
               (Some (JInt k), Some (JStr h), Some (JBool b)) \<Rightarrow>
                 if k \<noteq> int n \<or> h = [] \<or> b \<noteq> (k \<le> MAX_ELIGIBLE_TRIALS)
                 then Err (CorruptState ''trials ledger holds an inconsistent record'')
                 else Ok \<lparr>tv_number = k, tv_params_hash = h, tv_eligible = b\<rparr>
             | _ \<Rightarrow> Err (CorruptState ''trials ledger holds an inconsistent record''))
       | Some _ \<Rightarrow> Err (CorruptState ''trials ledger holds a malformed record''))"

definition read_trials :: "trials_file \<Rightarrow> trial_verdict list result" where
  "read_trials f = (case f of None \<Rightarrow> Ok [] | Some text \<Rightarrow> rmap trial_of_line (List.enumerate 1 (lines_of [] text)))"

definition open_trials :: "string \<Rightarrow> trials_file \<Rightarrow> trial_verdict list result" where
  \<comment> \<open>\<open>TrialLedger(run_id, path)\<close>: the trials it holds in memory\<close>
  "open_trials run f = rbind (rguard (run \<noteq> []) (ValueError ''run_id must be a non-empty id'')) (\<lambda>_. read_trials f)"

definition record_trial :: "string \<Rightarrow> (trials_file, trial_verdict list) eff" where
  \<comment> \<open>the trials the ledger holds afterwards, the new verdict last\<close>
  "record_trial params_hash f =
     (if params_hash = [] then (Err (ValueError ''params_hash must be a non-empty digest''), f)
      else let text = (case f of None \<Rightarrow> [] | Some t \<Rightarrow> t) in
        case read_trials (Some text) of
          Inl e \<Rightarrow> (Err e, Some text)
        | Inr persisted \<Rightarrow> let n = int (length persisted) + 1 in
            if n > MAX_ALLOWED_TRIALS then (Err (PumpgrokError ''too_many_trials'' (''trial '' @ int_str n @ '' passes the '' @ int_str MAX_ALLOWED_TRIALS @ '' trial limit'')), Some text)
            else let v = \<lparr>tv_number = n, tv_params_hash = params_hash, tv_eligible = (n \<le> MAX_ELIGIBLE_TRIALS)\<rparr>
              in (Ok (persisted @ [v]), Some (text @ trial_text v @ [CHR 0x0A])))"

section \<open>The search\<close>

record harness_result =
  hr_best_params_hash :: string
  hr_holdout_id :: string
  hr_trial_count :: int
  hr_eligible :: bool
  hr_holdout_net :: int
  hr_best_net :: int

fun py_of_knob :: "knob \<Rightarrow> pyval"
  and py_of_knobs :: "knob list \<Rightarrow> pyval list"
  and py_of_table :: "(string \<times> knob) list \<Rightarrow> (string \<times> pyval) list" where
  \<comment> \<open>a value of another type is refused by \<open>canonical_json\<close> as a float is\<close>
  "py_of_knob (KBool b) = PBool b"
| "py_of_knob (KInt i) = PInt i"
| "py_of_knob (KFloat x) = PFloat (float_text x)"
| "py_of_knob (KStr s) = PStr s"
| "py_of_knob (KList vs) = PList (py_of_knobs vs)"
| "py_of_knob (KTable kvs) = PDict (py_of_table kvs)"
| "py_of_knob (KOther ty) = (if ty = ''NoneType'' then PNone else PFloat ty)"
| "py_of_knobs [] = []"
| "py_of_knobs (v # vs) = py_of_knob v # py_of_knobs vs"
| "py_of_table [] = []"
| "py_of_table ((k, v) # kvs) = (k, py_of_knob v) # py_of_table kvs"

definition stable_candidate :: "coercion \<Rightarrow> (string \<times> knob) list \<Rightarrow> param_set result" where
  "stable_candidate coerce kvs = (case canonical_json (py_of_table kvs) of
       Inl (TypeError m) \<Rightarrow> Err (ValueError (''candidate parameter set is not JSON-stable: '' @ m))
     | Inl e \<Rightarrow> Err e
     | Inr _ \<Rightarrow> param_set_of coerce kvs)"

definition fold_total :: "(param_set \<Rightarrow> eval_window \<Rightarrow> int result) \<Rightarrow> rat \<Rightarrow> param_set \<Rightarrow> eval_window list \<Rightarrow> int result" where
  "fold_total score cutoff ps folds = rfold (\<lambda>total w.
     rbind (rguard (case ew_end w of None \<Rightarrow> False | Some e \<Rightarrow> e \<le> cutoff) AssertionError) (\<lambda>_.
     rbind (score ps w) (\<lambda>net. Ok (total + net)))) 0 folds"

type_synonym best = "(string \<times> param_set \<times> int) option"

definition tune_step :: "(string \<Rightarrow> string) \<Rightarrow> coercion \<Rightarrow> (param_set \<Rightarrow> eval_window \<Rightarrow> int result) \<Rightarrow> rat \<Rightarrow> eval_window list
    \<Rightarrow> best \<times> trial_verdict list \<Rightarrow> (string \<times> knob) list \<Rightarrow> (trials_file, best \<times> trial_verdict list) eff" where
  \<comment> \<open>one candidate: recorded before it is scored, kept when its mean is strictly better\<close>
  "tune_step H coerce score cutoff folds acc kvs =
     bind (lift (rbind (stable_candidate coerce kvs) (\<lambda>ps. rbind (content_hash H ps) (\<lambda>h. Ok (ps, h))))) (\<lambda>(ps, h).
     bind (record_trial h) (\<lambda>trials.
     bind (lift (fold_total score cutoff ps folds)) (\<lambda>total. let mean = total div int (length folds) in
     ret (case fst acc of
         None \<Rightarrow> (Some (h, ps, mean), trials)
       | Some (bh, bps, best_mean) \<Rightarrow> (if mean > best_mean then Some (h, ps, mean) else Some (bh, bps, best_mean), trials)))))"

fun tune :: "(string \<Rightarrow> string) \<Rightarrow> coercion \<Rightarrow> (param_set \<Rightarrow> eval_window \<Rightarrow> int result) \<Rightarrow> rat \<Rightarrow> eval_window list
    \<Rightarrow> best \<times> trial_verdict list \<Rightarrow> (string \<times> knob) list list \<Rightarrow> (trials_file, best \<times> trial_verdict list) eff" where
  "tune H coerce score cutoff folds acc [] = ret acc"
| "tune H coerce score cutoff folds acc (kvs # space) =
     bind (tune_step H coerce score cutoff folds acc kvs) (\<lambda>acc'. tune H coerce score cutoff folds acc' space)"

definition search_windows :: "(string \<Rightarrow> string) \<Rightarrow> string \<Rightarrow> directory \<Rightarrow> (string \<times> knob) list list \<Rightarrow> int \<Rightarrow> int \<Rightarrow> (split_view \<times> windows) result" where
  \<comment> \<open>the checks and windows before the first trial\<close>
  "search_windows H dataset dir space n_trials n_folds =
     rbind (rguard (dataset \<noteq> []) (ValueError ''dataset must be a non-empty path or fixture name'')) (\<lambda>_.
     rbind (rguard (1 \<le> n_trials) (ValueError (''n_trials must be at least 1, found '' @ int_str n_trials))) (\<lambda>_.
     rbind (rguard (n_trials \<le> int (length space)) (ValueError ''n_trials passes the candidates in space'')) (\<lambda>_.
     rbind (load_dataset H dir) (\<lambda>d. rbind (timestamps d) (\<lambda>stamps.
     rbind (holdout_split stamps dataset) (\<lambda>split. rbind (fold_windows stamps dataset n_folds) (\<lambda>ws. Ok (split, ws))))))))"

definition run_search :: "(string \<Rightarrow> string) \<Rightarrow> coercion \<Rightarrow> 'b replay_run \<Rightarrow> 'b \<Rightarrow> string \<Rightarrow> directory \<Rightarrow> (string \<times> knob) list list
    \<Rightarrow> int \<Rightarrow> int \<Rightarrow> int \<Rightarrow> string \<Rightarrow> (trials_file, harness_result) eff" where
  "run_search H coerce replay limits dataset dir space n_trials seed n_folds run =
     bind (lift (search_windows H dataset dir space n_trials n_folds)) (\<lambda>(split, ws).
     bind get (\<lambda>f. bind (lift (open_trials run f)) (\<lambda>opened.
     let score = (\<lambda>ps w. evaluate_window H coerce replay limits dir ps seed w) in
     bind (tune H coerce score (hs_holdout_start split) (fw_folds ws) (None, opened) (take (nat n_trials) space)) (\<lambda>(best, trials).
     case best of
       None \<Rightarrow> raise AssertionError
     | Some (h, ps, mean) \<Rightarrow>
         bind (lift (score ps (fw_holdout ws))) (\<lambda>holdout_net.
         let eligible = list_all tv_eligible trials; n = int (length trials) in
         bind (lift (rguard (eligible = (n \<le> MAX_ELIGIBLE_TRIALS)) AssertionError)) (\<lambda>_.
         ret \<lparr>hr_best_params_hash = h, hr_holdout_id = hs_holdout_id split, hr_trial_count = n, hr_eligible = eligible,
           hr_holdout_net = holdout_net, hr_best_net = mean\<rparr>))))))"

end
