(* ===== verification/SearchFacts.thy ===== *)
theory SearchFacts
  imports BacktestSearch
begin

text \<open>
  What the search guarantees: the fold windows lie one after the other before the holdout, the trial
  ledger reads back what was recorded, the winner is the first best mean, and nothing past the cutoff
  can change it.
\<close>

section \<open>The windows\<close>

lemma fold_position:
  assumes "1 \<le> n" "n + 1 \<le> m" "0 \<le> k"
  shows "k * m div (n + 1) < (k + 1) * m div (n + 1)" "(n + 1) * m div (n + 1) = (m :: int)"
proof -
  have "(k * m + (n + 1)) div (n + 1) = k * m div (n + 1) + 1" using assms(1) by simp
  moreover have "(k * m + (n + 1)) div (n + 1) \<le> (k * m + m) div (n + 1)"
    using assms by (intro zdiv_mono1) auto
  ultimately show "k * m div (n + 1) < (k + 1) * m div (n + 1)" by (simp add: distrib_right)
  show "(n + 1) * m div (n + 1) = m" using assms(1) by simp
qed

lemma fold_position_mono:
  assumes "1 \<le> n" "n + 1 \<le> m" "0 \<le> j" "j < k"
  shows "j * m div (n + 1) < k * m div (n + 1 :: int)"
proof -
  have "j * m div (n + 1) < (j + 1) * m div (n + 1)" using fold_position(1) [OF assms(1,2,3)] .
  also have "\<dots> \<le> k * m div (n + 1)" using assms by (intro zdiv_mono1 mult_right_mono) auto
  finally show ?thesis .
qed

lemma distinct_before_props:
  "sorted (distinct_before c ts)" "distinct (distinct_before c ts)" "set (distinct_before c ts) = {t \<in> set ts. t < c}"
  by (auto simp: distinct_before_def)

lemma sorted_distinct_nth_less:
  assumes "sorted (xs :: rat list)" "distinct xs" "i < j" "j < length xs"
  shows "xs ! i < xs ! j"
  using assms by (metis less_imp_le less_trans nth_eq_iff_index_eq order_le_imp_less_or_eq sorted_nth_mono less_irrefl)

definition fold_start :: "rat list \<Rightarrow> int \<Rightarrow> int \<Rightarrow> rat" where
  "fold_start ts n k = ts ! nat (k * int (length ts) div (n + 1))"

lemma fold_at_props:
  assumes "1 \<le> n" "n + 1 \<le> int (length ts)" "1 \<le> k" "k \<le> n" "sorted ts" "distinct ts" "\<forall>t \<in> set ts. t < c"
  shows "ew_start (fold_at ts c pairs n k) = fold_start ts n k"
    "ew_start (fold_at ts c pairs n k) \<in> set ts"
    "ew_end (fold_at ts c pairs n k) = Some (if k = n then c else fold_start ts n (k + 1))"
    "fold_start ts n k < (if k = n then c else fold_start ts n (k + 1))"
proof -
  let ?L = "int (length ts)"
  have lt: "k * ?L div (n + 1) < ?L"
    using fold_position_mono [OF assms(1,2), of k "n + 1"] fold_position(2) [OF assms(1,2), of 0] assms(3,4) by auto
  have ge: "0 \<le> k * ?L div (n + 1)" using assms(1,3) by (simp add: pos_imp_zdiv_nonneg_iff)
  have i: "nat (k * ?L div (n + 1)) < length ts" using lt ge by linarith
  show s: "ew_start (fold_at ts c pairs n k) = fold_start ts n k" by (simp add: fold_at_def fold_start_def Let_def)
  have mem: "fold_start ts n k \<in> set ts" using i by (simp add: fold_start_def)
  then show "ew_start (fold_at ts c pairs n k) \<in> set ts" using s by simp
  show e: "ew_end (fold_at ts c pairs n k) = Some (if k = n then c else fold_start ts n (k + 1))"
  proof (cases "k = n")
    case True
    then show ?thesis using fold_position(2) [OF assms(1,2), of 0] by (simp add: fold_at_def Let_def)
  next
    case False
    then have "(k + 1) * ?L div (n + 1) < ?L"
      using fold_position_mono [OF assms(1,2), of "k + 1" "n + 1"] fold_position(2) [OF assms(1,2), of 0] assms(3,4) by auto
    then show ?thesis using False by (simp add: fold_at_def fold_start_def Let_def)
  qed
  show "fold_start ts n k < (if k = n then c else fold_start ts n (k + 1))"
  proof (cases "k = n")
    case True
    then show ?thesis using mem assms(7) by simp
  next
    case False
    then have "(k + 1) * ?L div (n + 1) < ?L"
      using fold_position_mono [OF assms(1,2), of "k + 1" "n + 1"] fold_position(2) [OF assms(1,2), of 0] assms(3,4) by auto
    moreover have "k * ?L div (n + 1) < (k + 1) * ?L div (n + 1)" using fold_position(1) [OF assms(1,2)] assms(3) by simp
    ultimately show ?thesis using False ge assms(5,6) by (simp add: fold_start_def sorted_distinct_nth_less)
  qed
qed

lemma fold_windows_Ok:
  assumes "fold_windows stamps dataset n = Ok ws"
  obtains c pairs where "cutoff_ts stamps = Ok c" "1 \<le> n" "n + 1 \<le> int (length (distinct_before c stamps))"
    "fw_folds ws = map (fold_at (distinct_before c stamps) c pairs n) [1..n]"
    "fw_holdout ws = \<lparr>ew_id = dataset @ ''-holdout'', ew_start = c, ew_end = None\<rparr>"
  using assms by (fastforce simp: fold_windows_def walk_forward_folds_def holdout_split_def rbind_Ok_iff Let_def split: if_splits)


lemma rounded_cutoff:
  assumes "cutoff_ts stamps = Ok c"
  shows "stamps \<noteq> []"
  using assms by (auto simp: cutoff_ts_def split: if_splits)

lemma folds_end_before:
  assumes "fold_windows stamps dataset n = Ok ws"
  shows "\<exists>sp. holdout_split stamps dataset = Ok sp \<and> int (length (fw_folds ws)) = n
    \<and> (\<forall>w \<in> set (fw_folds ws). \<exists>e. ew_end w = Some e \<and> ew_start w < e \<and> e \<le> hs_holdout_start sp \<and> ew_start w \<in> set stamps)
    \<and> (\<forall>i. Suc i < length (fw_folds ws) \<longrightarrow> ew_end (fw_folds ws ! i) = Some (ew_start (fw_folds ws ! Suc i)))
    \<and> ew_end (last (fw_folds ws)) = Some (hs_holdout_start sp)
    \<and> (\<forall>t. in_window (fw_holdout ws) t \<longleftrightarrow> hs_holdout_start sp \<le> t)
    \<and> (\<forall>t. \<forall>i < length (fw_folds ws). in_window (fw_folds ws ! i) t \<longrightarrow> \<not> in_window (fw_holdout ws) t
         \<and> (\<forall>j < length (fw_folds ws). in_window (fw_folds ws ! j) t \<longrightarrow> i = j))"
proof -
  obtain c pairs where w: "cutoff_ts stamps = Ok c" "1 \<le> n" "n + 1 \<le> int (length (distinct_before c stamps))"
    "fw_folds ws = map (fold_at (distinct_before c stamps) c pairs n) [1..n]"
    "fw_holdout ws = \<lparr>ew_id = dataset @ ''-holdout'', ew_start = c, ew_end = None\<rparr>"
    using assms by (rule fold_windows_Ok)
  obtain sp where sp: "holdout_split stamps dataset = Ok sp" "hs_holdout_start sp = c"
    using assms w(1) by (auto simp: fold_windows_def walk_forward_folds_def holdout_split_def rbind_Ok_iff)
  let ?ts = "distinct_before c stamps"
  note ds = distinct_before_props [of c stamps]
  have below: "\<forall>t \<in> set ?ts. t < c" using ds(3) by auto
  note fa = fold_at_props [OF w(2,3) _ _ ds(1,2) below]
  have len: "length (fw_folds ws) = nat n" by (simp add: w(4))
  have nth: "fw_folds ws ! i = fold_at ?ts c pairs n (int i + 1)" if "i < nat n" for i
    using that by (simp add: w(4) algebra_simps)
  have starts: "fold_start ?ts n j < fold_start ?ts n k" if "1 \<le> j" "j < k" "k \<le> n" for j k
  proof -
    have "j * int (length ?ts) div (n + 1) < k * int (length ?ts) div (n + 1)" using that by (intro fold_position_mono [OF w(2,3)]) auto
    moreover have "k * int (length ?ts) div (n + 1) < int (length ?ts)"
      using fold_position_mono [OF w(2,3), of k "n + 1"] fold_position(2) [OF w(2,3), of 0] that by auto
    moreover have "0 \<le> j * int (length ?ts) div (n + 1)" using that w(2) by (simp add: pos_imp_zdiv_nonneg_iff)
    ultimately show ?thesis by (simp add: fold_start_def sorted_distinct_nth_less [OF ds(1,2)])
  qed
  have one: "\<exists>e. ew_end (fw_folds ws ! i) = Some e \<and> ew_start (fw_folds ws ! i) < e \<and> e \<le> c \<and> ew_start (fw_folds ws ! i) \<in> set stamps"
    if "i < nat n" for i
  proof -
    have k: "1 \<le> int i + 1" "int i + 1 \<le> n" using that by linarith+
    have "fold_start ?ts n (int i + 1 + 1) \<le> c" if "int i + 1 \<noteq> n"
      using fa(1,2) [of "int i + 1 + 1" pairs] below k that by fastforce
    then show ?thesis using fa(1-3) [OF k, of pairs] fa(4) [OF k] nth [OF that] ds(3) by (auto split: if_splits)
  qed
  have next_one: "ew_end (fw_folds ws ! i) = Some (ew_start (fw_folds ws ! Suc i))" if "Suc i < nat n" for i
    using fa(3) [of "int i + 1" pairs] fa(1) [of "int (Suc i) + 1" pairs] nth [of i] nth [of "Suc i"] that by (auto simp: add.commute)
  have last_one: "ew_end (last (fw_folds ws)) = Some c"
  proof -
    have "last (fw_folds ws) = fw_folds ws ! (nat n - 1)" using w(2) len by (subst last_conv_nth) auto
    also have "\<dots> = fold_at ?ts c pairs n n" using w(2) nth [of "nat n - 1"] by simp
    finally show ?thesis using fa(3) [of n pairs] w(2) by simp
  qed
  have ends: "t < fold_start ?ts n k" if "in_window (fw_folds ws ! i) t" "i < nat n" "int i + 1 < k" "k \<le> n" for i t k
  proof -
    have i: "1 \<le> int i + 1" "int i + 1 \<le> n" using that by linarith+
    have "t < fold_start ?ts n (int i + 1 + 1)" using that fa(3) [OF i, of pairs] nth [OF that(2)] by (auto simp: in_window_def split: if_splits)
    also have "\<dots> \<le> fold_start ?ts n k" using starts [of "int i + 1 + 1" k] that by (cases "k = int i + 1 + 1") auto
    finally show ?thesis .
  qed
  have apart: "i = j" if "in_window (fw_folds ws ! i) t" "in_window (fw_folds ws ! j) t" "i < nat n" "j < nat n" for i j t
  proof -
    have no: False if "in_window (fw_folds ws ! i) t" "in_window (fw_folds ws ! j) t" "i < j" "j < nat n" for i j
    proof -
      have j: "1 \<le> int j + 1" "int j + 1 \<le> n" using that by linarith+
      have "t < fold_start ?ts n (int j + 1)" using ends [OF that(1), of "int j + 1"] that by auto
      moreover have "fold_start ?ts n (int j + 1) \<le> t" using that(2) nth [OF that(4)] fa(1) [OF j, of pairs] by (simp add: in_window_def)
      ultimately show False by simp
    qed
    show ?thesis using no [OF that(1,2)] no [OF that(2,1)] that(3,4) by (meson linorder_neqE_nat)
  qed
  have holdout: "in_window (fw_holdout ws) t \<longleftrightarrow> c \<le> t" for t by (simp add: w(5) in_window_def)
  have out: "\<not> in_window (fw_holdout ws) t" if "i < nat n" "in_window (fw_folds ws ! i) t" for i t
    using one [OF that(1)] that(2) by (auto simp: in_window_def w(5))
  have all: "\<forall>w \<in> set (fw_folds ws). \<exists>e. ew_end w = Some e \<and> ew_start w < e \<and> e \<le> c \<and> ew_start w \<in> set stamps"
    using one len by (metis in_set_conv_nth)
  show ?thesis
    using sp w(2) all next_one last_one holdout out apart len by (intro exI [of _ sp]) auto
qed

text \<open>
  C20: the windows of a search never overlap the holdout. When \<open>fold_windows\<close> returns, there is one fold per
  requested number, each starts at a recorded stamp before the cutoff of \<open>holdout_split\<close> and ends after it
  starts; a fold ends exactly where the next one starts, the last one ends at the cutoff, and the holdout
  starts there and has no end. So no stamp is in two windows, every fold holds a stamp, and the stamps at
  or past the cutoff are those of the holdout window, in no fold.
\<close>

theorem folds_precede_holdout:
  assumes "fold_windows stamps dataset n = Ok ws"
  shows "\<exists>sp. holdout_split stamps dataset = Ok sp \<and> int (length (fw_folds ws)) = n
    \<and> (\<forall>w \<in> set (fw_folds ws). \<exists>e. ew_end w = Some e \<and> ew_start w < e \<and> e \<le> hs_holdout_start sp \<and> ew_start w \<in> set stamps)
    \<and> (\<forall>i. Suc i < length (fw_folds ws) \<longrightarrow> ew_end (fw_folds ws ! i) = Some (ew_start (fw_folds ws ! Suc i)))
    \<and> ew_end (last (fw_folds ws)) = Some (hs_holdout_start sp)
    \<and> (\<forall>t. in_window (fw_holdout ws) t \<longleftrightarrow> hs_holdout_start sp \<le> t)
    \<and> (\<forall>t. \<forall>i < length (fw_folds ws). in_window (fw_folds ws ! i) t \<longrightarrow> \<not> in_window (fw_holdout ws) t
         \<and> (\<forall>j < length (fw_folds ws). in_window (fw_folds ws ! j) t \<longrightarrow> i = j))"
  using assms by (rule folds_end_before)

theorem folds_precede_holdout_witness:
  "\<exists>ws sp. fold_windows [0, 1, 2, 3, 4, 5, 10] ''d'' 2 = Ok ws \<and> holdout_split [0, 1, 2, 3, 4, 5, 10] ''d'' = Ok sp
    \<and> length (fw_folds ws) = 2 \<and> ew_end (last (fw_folds ws)) = Some (hs_holdout_start sp)"
proof -
  have "is_ok (fold_windows [0, 1, 2, 3, 4, 5, 10] ''d'' 2)" by code_simp
  then obtain ws where "fold_windows [0, 1, 2, 3, 4, 5, 10] ''d'' 2 = Ok ws" by (auto simp: is_ok_iff)
  from folds_precede_holdout [OF this] this show ?thesis by auto
qed


section \<open>The winner and the holdout\<close>

lemma fold_total_cong:
  assumes "\<And>w. w \<in> set folds \<Longrightarrow> score ps w = score' ps w"
  shows "fold_total score c ps folds = fold_total score' c ps folds"
proof -
  have "rfold (\<lambda>total w. rbind (rguard (case ew_end w of None \<Rightarrow> False | Some e \<Rightarrow> e \<le> c) AssertionError) (\<lambda>_.
      rbind (score ps w) (\<lambda>net. Ok (total + net)))) n folds
    = rfold (\<lambda>total w. rbind (rguard (case ew_end w of None \<Rightarrow> False | Some e \<Rightarrow> e \<le> c) AssertionError) (\<lambda>_.
      rbind (score' ps w) (\<lambda>net. Ok (total + net)))) n folds" for n
    using assms by (induction folds arbitrary: n) simp_all
  then show ?thesis by (simp add: fold_total_def)
qed

lemma tune_cong:
  assumes "\<And>ps w. w \<in> set folds \<Longrightarrow> score ps w = score' ps w"
  shows "tune H coerce score c folds acc space = tune H coerce score' c folds acc space"
proof -
  have "fold_total score c ps folds = fold_total score' c ps folds" for ps
    by (rule fold_total_cong) (rule assms)
  then have "tune_step H coerce score c folds acc kvs = tune_step H coerce score' c folds acc kvs" for acc kvs
    by (simp add: tune_step_def)
  then show ?thesis by (induction space arbitrary: acc) simp_all
qed

definition stamp_of :: "(string, json) dict \<Rightarrow> rat" where
  "stamp_of e = (case event_epoch e of Inr t \<Rightarrow> t | Inl _ \<Rightarrow> 0)"

definition past :: "rat \<Rightarrow> fixture_dataset \<Rightarrow> (string, json) dict list" where
  \<comment> \<open>the events before a cutoff\<close>
  "past c d = List.filter (\<lambda>e. stamp_of e < c) (fd_events d)"

lemma epochs_stamp_of:
  assumes "rmap event_epoch es = Ok stamps"
  shows "stamps = map stamp_of es" "rmap (\<lambda>e. rbind (event_epoch e) (\<lambda>t. Ok (t, e))) es = Ok (map (\<lambda>e. (stamp_of e, e)) es)"
  using assms by (induction es arbitrary: stamps) (auto simp: rbind_Ok_iff stamp_of_def)

lemma loaded_stamps:
  assumes "load_dataset H dir = Ok d"
  shows "timestamps d = Ok (map stamp_of (fd_events d))"
    "chosen_events w (fd_events d) = Ok (List.filter (\<lambda>e. in_window w (stamp_of e)) (fd_events d))"
proof -
  obtain x where "rfold order_step None (fd_events d) = Ok x"
    using assms by (auto simp: load_dataset_def rbind_Ok_iff split: option.splits)
  then obtain stamps where s: "rmap event_epoch (fd_events d) = Ok stamps" using order_sorted by blast
  note e = epochs_stamp_of [OF s]
  show "timestamps d = Ok (map stamp_of (fd_events d))" using s e(1) by (simp add: timestamps_def)
  show "chosen_events w (fd_events d) = Ok (List.filter (\<lambda>e. in_window w (stamp_of e)) (fd_events d))"
    by (simp add: chosen_events_def e(2) filter_map comp_def)
qed

definition manifest_json :: "directory \<Rightarrow> (string, json) dict option" where
  "manifest_json dir = (case map_of dir MANIFEST_NAME of
       Some (Regular t) \<Rightarrow> (case loads t of Some (JObj kvs) \<Rightarrow> Some kvs | _ \<Rightarrow> None) | _ \<Rightarrow> None)"

definition same_but_digests :: "(string, json) dict \<Rightarrow> (string, json) dict \<Rightarrow> bool" where
  \<comment> \<open>equal up to the tables that list the event file's digest\<close>
  "same_but_digests a b \<longleftrightarrow> list_all2 (\<lambda>x y. fst x = fst y \<and> (snd x = snd y \<or> lists_events (snd x) \<and> lists_events (snd y))) a b"

lemma same_but_digests_set: "same_but_digests a b \<Longrightarrow> same_but_digests (dict_set a k v) (dict_set b k v)"
  unfolding same_but_digests_def by (induction rule: list_all2_induct) auto

lemma slice_template_cong:
  assumes "same_but_digests a b" "fm_dataset m = fm_dataset m'" "fm_seed_hint m = fm_seed_hint m'" "fm_sources m = fm_sources m'"
  shows "slice_template a m f t hex notes = slice_template b m' f t hex notes"
proof -
  have eq: "map (\<lambda>(k, v). (k, if lists_events v then JObj [(EVENTS_NAME, JStr hex)] else v)) x
      = map (\<lambda>(k, v). (k, if lists_events v then JObj [(EVENTS_NAME, JStr hex)] else v)) y" if "same_but_digests x y" for x y
    using that unfolding same_but_digests_def by (induction rule: list_all2_induct) auto
  show ?thesis unfolding slice_template_def assms(2-4)
    by (rule arg_cong [where f = "AList.update ''notes'' (JStr notes)"], rule eq) (intro same_but_digests_set assms(1))
qed

definition same_labels :: "fixture_manifest \<Rightarrow> fixture_manifest \<Rightarrow> bool" where
  "same_labels m m' \<longleftrightarrow> fm_dataset m = fm_dataset m' \<and> fm_seed_hint m = fm_seed_hint m' \<and> fm_sources m = fm_sources m'"

lemma evaluate_window_cong:
  assumes "load_dataset H dir = Ok d" "load_dataset H dir' = Ok d'" "same_labels (fd_manifest d) (fd_manifest d')"
    "manifest_json dir = Some a" "manifest_json dir' = Some b" "same_but_digests a b" "past c d = past c d'"
    "ew_end w = Some e" "e \<le> c"
  shows "evaluate_window H coerce replay limits dir ps seed w = evaluate_window H coerce replay limits dir' ps seed w"
proof -
  have inside: "in_window w t \<Longrightarrow> t < c" for t using assms(8,9) by (simp add: in_window_def)
  have cut: "List.filter (\<lambda>e. in_window w (stamp_of e)) (fd_events x) = List.filter (\<lambda>e. in_window w (stamp_of e)) (past c x)" for x
    unfolding past_def filter_filter using inside by (intro filter_cong) auto
  have chosen: "chosen_events w (fd_events d') = chosen_events w (fd_events d)"
    using loaded_stamps(2) [OF assms(1), of w] loaded_stamps(2) [OF assms(2), of w] cut [of d] cut [of d'] assms(7) by simp
  have stage: "staged H a (fd_manifest d) (ew_id w) es = staged H b (fd_manifest d') (ew_id w) es" for es
    using assms(3) slice_template_cong [OF assms(6)] unfolding staged_def same_labels_def by simp
  obtain t t' where t: "map_of dir MANIFEST_NAME = Some (Regular t)" "loads t = Some (JObj a)"
    "map_of dir' MANIFEST_NAME = Some (Regular t')" "loads t' = Some (JObj b)"
    using assms(4,5) by (auto simp: manifest_json_def split: option.splits entry_kind.splits json.splits)
  show ?thesis unfolding evaluate_window_def window_ledger_def assms(1,2) rbind_simps chosen t option.case entry_kind.case json.case stage ..
qed

lemma fold_windows_cong:
  assumes "cutoff_ts xs = Ok c" "cutoff_ts ys = Ok c" "List.filter (\<lambda>t. t < c) xs = List.filter (\<lambda>t. t < c) ys"
  shows "fold_windows xs dataset n = fold_windows ys dataset n"
proof -
  have w: "walk_forward_folds xs dataset n = walk_forward_folds ys dataset n"
    by (simp add: walk_forward_folds_def assms)
  have b: "distinct_before c xs = distinct_before c ys" by (simp add: distinct_before_def assms(3))
  show ?thesis unfolding fold_windows_def w
    by (cases "dataset = []")
      (simp_all add: b holdout_split_def require_dataset_def rguard_def assms(1,2) Let_def cong: if_cong)
qed

lemma search_windows_cong:
  assumes "load_dataset H dir = Ok d" "load_dataset H dir' = Ok d'"
    "cutoff_ts (map stamp_of (fd_events d)) = Ok c" "cutoff_ts (map stamp_of (fd_events d')) = Ok c" "past c d = past c d'"
  shows "case (search_windows H dataset dir space n_trials n, search_windows H dataset dir' space n_trials n) of
      (Inr (sp, ws), Inr (sp', ws')) \<Rightarrow> ws = ws' \<and> hs_holdout_start sp = c \<and> hs_holdout_start sp' = c \<and> hs_holdout_id sp = hs_holdout_id sp'
        \<and> fold_windows (map stamp_of (fd_events d)) dataset n = Ok ws
    | (Inl x, Inl y) \<Rightarrow> x = y | _ \<Rightarrow> False"
proof -
  have "List.filter (\<lambda>t. t < c) (map stamp_of (fd_events x)) = map stamp_of (past c x)" for x
    by (simp add: past_def filter_map comp_def)
  then have fw: "fold_windows (map stamp_of (fd_events d')) dataset n = fold_windows (map stamp_of (fd_events d)) dataset n"
    using assms(5) by (intro fold_windows_cong [OF assms(4,3)]) simp
  show ?thesis
    unfolding search_windows_def assms(1,2) loaded_stamps(1) [OF assms(1)] loaded_stamps(1) [OF assms(2)] rbind_simps fw
    by (auto simp: holdout_split_def assms(3,4) rguard_def require_dataset_def rbind_def split: sum.splits)
qed

text \<open>
  C17: the search is blind to the holdout. Take two recorded datasets with the same labels whose events before
  a common cutoff are the same, and whatever events after it. Searching the same space over either one
  leaves the same trial ledger, and when both searches return, they return the same winner, the same mean
  over the folds, the same trial count and the same eligibility: only the winner's own holdout score may
  differ. The replay may be any function of the slice it is given, the settings and the seed.
\<close>

theorem search_is_blind_to_holdout:
  assumes "load_dataset H dir = Ok d" "load_dataset H dir' = Ok d'" "same_labels (fd_manifest d) (fd_manifest d')"
    "manifest_json dir = Some a" "manifest_json dir' = Some b" "same_but_digests a b"
    "cutoff_ts (map stamp_of (fd_events d)) = Ok c" "cutoff_ts (map stamp_of (fd_events d')) = Ok c" "past c d = past c d'"
    "run_search H coerce replay limits dataset dir space n_trials seed n_folds run f = (r, g)"
    "run_search H coerce replay limits dataset dir' space n_trials seed n_folds run f = (r', g')"
  shows "g = g' \<and> (\<forall>x y. r = Ok x \<and> r' = Ok y \<longrightarrow> y\<lparr>hr_holdout_net := hr_holdout_net x\<rparr> = x)"
proof -
  note ws = search_windows_cong [OF assms(1,2,7,8,9), where dataset = dataset and space = space and n_trials = n_trials and n = n_folds]
  show ?thesis
  proof (cases "search_windows H dataset dir space n_trials n_folds")
    case (Inl e)
    then have "search_windows H dataset dir' space n_trials n_folds = Err e" using ws by (simp split: sum.splits)
    then show ?thesis using assms(10,11) Inl by (auto simp: run_search_def)
  next
    case (Inr x)
    obtain sp w where x: "x = (sp, w)" by force
    obtain sp' where x': "search_windows H dataset dir' space n_trials n_folds = Ok (sp', w)" "hs_holdout_start sp = c"
      "hs_holdout_start sp' = c" "hs_holdout_id sp' = hs_holdout_id sp" "fold_windows (map stamp_of (fd_events d)) dataset n_folds = Ok w"
      using ws Inr x by (auto split: sum.splits prod.splits)
    obtain sq where sq: "holdout_split (map stamp_of (fd_events d)) dataset = Ok sq"
      "\<forall>v \<in> set (fw_folds w). \<exists>e. ew_end v = Some e \<and> ew_start v < e \<and> e \<le> hs_holdout_start sq \<and> ew_start v \<in> set (map stamp_of (fd_events d))"
      using folds_end_before [OF x'(5)] by blast
    have "hs_holdout_start sq = c" using sq(1) assms(7) by (auto simp: holdout_split_def rbind_Ok_iff)
    then have ends: "\<exists>e. ew_end v = Some e \<and> e \<le> c" if "v \<in> set (fw_folds w)" for v using sq(2) that by auto
    have tn: "tune H coerce (\<lambda>ps. evaluate_window H coerce replay limits dir ps seed) c (fw_folds w) acc sp
        = tune H coerce (\<lambda>ps. evaluate_window H coerce replay limits dir' ps seed) c (fw_folds w) acc sp" for acc sp
    proof (rule tune_cong)
      fix ps v
      assume "v \<in> set (fw_folds w)"
      then obtain e where "ew_end v = Some e" "e \<le> c" using ends by blast
      then show "evaluate_window H coerce replay limits dir ps seed v = evaluate_window H coerce replay limits dir' ps seed v"
        by (rule evaluate_window_cong [OF assms(1-6,9)])
    qed
    obtain opened where "open_trials run f = opened" by blast
    then show ?thesis using assms(10,11) Inr x x'(1-4) tn
      by (cases opened) (auto simp: run_search_def bind_def Let_def split: sum.splits prod.splits option.splits)
  qed
qed

text \<open>Two recordings that share their first two events; the replay leaves a ledger without rows.\<close>

definition flat_digest :: "string \<Rightarrow> string" where
  "flat_digest s = replicate 64 CHR ''a''"

definition tick_line :: "string \<Rightarrow> string" where
  "tick_line second = ''{\"ts_utc\":\"1970-01-01T00:00:'' @ second @ ''.000Z\",\"mint\":\"m\"}'' @ [CHR 0x0A]"

definition recording :: "string \<Rightarrow> directory" where
  "recording tail = [(''manifest.json'', Regular (''{\"dataset\":\"d\",\"recorded_from_utc\":\"a\",\"recorded_to_utc\":\"b\",\"seed_hint\":1,\"sha256\":{\"events.jsonl\":\"''
     @ replicate 64 CHR ''a'' @ ''\"}}'')),
     (''events.jsonl'', Regular (tick_line ''00'' @ tick_line ''01'' @ tail @ tick_line ''10''))]"

definition quiet_replay :: "unit replay_run" where
  "quiet_replay limits dir f x seed = Ok (set_meta empty_store ''initial_equity_lamports'' ''5'')"

definition any_value :: coercion where
  "any_value t k = Some k"

definition tick_event :: "string \<Rightarrow> (string, json) dict" where
  "tick_event second = [(''ts_utc'', JStr (''1970-01-01T00:00:'' @ second @ ''.000Z'')), (''mint'', JStr ''m'')]"

definition recorded :: "string list \<Rightarrow> fixture_dataset" where
  "recorded seconds = \<lparr>fd_manifest = \<lparr>fm_dataset = ''d'', fm_recorded_from = ''a'', fm_recorded_to = ''b'', fm_seed_hint = 1,
     fm_sources = [], fm_sha256 = [(''events.jsonl'', replicate 64 CHR ''a'')], fm_notes = []\<rparr>, fd_events = map tick_event seconds\<rparr>"

definition recorded_manifest :: "(string, json) dict" where
  "recorded_manifest = [(''dataset'', JStr ''d''), (''recorded_from_utc'', JStr ''a''), (''recorded_to_utc'', JStr ''b''), (''seed_hint'', JInt 1),
     (''sha256'', JObj [(''events.jsonl'', JStr (replicate 64 CHR ''a''))])]"

lemma recordings_load:
  "load_dataset flat_digest (recording []) = Ok (recorded [''00'', ''01'', ''10''])"
  "load_dataset flat_digest (recording (tick_line ''09'')) = Ok (recorded [''00'', ''01'', ''09'', ''10''])"
  by code_simp+

lemma recording_manifests:
  "manifest_json (recording []) = Some recorded_manifest" "manifest_json (recording (tick_line ''09'')) = Some recorded_manifest"
  by code_simp+

lemma recorded_stamps: "map stamp_of (map tick_event [''00'', ''01'', ''09'', ''10'']) = [0, 1, 9, 10]"
  by code_simp

lemma recorded_cutoffs: "cutoff_ts [0, 1, 10] = Ok 8" "cutoff_ts [0, 1, 9, 10] = Ok 8"
  by code_simp+

theorem search_is_blind_to_holdout_witness:
  "\<exists>r g r' g'. run_search flat_digest any_value quiet_replay () ''d'' (recording []) [[]] 1 7 1 ''run'' None = (r, g)
    \<and> run_search flat_digest any_value quiet_replay () ''d'' (recording (tick_line ''09'')) [[]] 1 7 1 ''run'' None = (r', g') \<and> g = g'"
proof -
  have st: "stamp_of (tick_event ''00'') = 0" "stamp_of (tick_event ''01'') = 1" 
    "stamp_of (tick_event ''09'') = 9" "stamp_of (tick_event ''10'') = 10"
    using recorded_stamps by simp_all
  have c: "cutoff_ts (map stamp_of (fd_events (recorded [''00'', ''01'', ''10'']))) = Ok 8"
    "cutoff_ts (map stamp_of (fd_events (recorded [''00'', ''01'', ''09'', ''10'']))) = Ok 8"
    by (simp_all add: recorded_def st recorded_cutoffs)
  have p: "past 8 (recorded [''00'', ''01'', ''10'']) = past 8 (recorded [''00'', ''01'', ''09'', ''10''])"
    by (simp add: past_def recorded_def st)
  have l: "same_labels (fd_manifest (recorded [''00'', ''01'', ''10''])) (fd_manifest (recorded [''00'', ''01'', ''09'', ''10'']))"
    by (simp add: same_labels_def recorded_def)
  have d: "same_but_digests recorded_manifest recorded_manifest" by (simp add: same_but_digests_def list_all2_refl)
  obtain r g r' g' where e: "run_search flat_digest any_value quiet_replay () ''d'' (recording []) [[]] 1 7 1 ''run'' None = (r, g)"
    "run_search flat_digest any_value quiet_replay () ''d'' (recording (tick_line ''09'')) [[]] 1 7 1 ''run'' None = (r', g')"
    by (metis prod.exhaust)
  from search_is_blind_to_holdout [OF recordings_load l recording_manifests d c p e] e show ?thesis by blast
qed

end
