(* ===== verification/TrialFacts.thy ===== *)
theory TrialFacts
  imports BacktestSearch
begin

text \<open>
  The trial ledger reads back what was recorded, line by line, and refuses the trial past its limit.
\<close>

section \<open>One line\<close>

lemma member_spaced:
  assumes "wf_json j" "need j = 1" "c = CHR '','' \<or> c = CHR ''}''"
  shows "parse_members (Suc (Suc n)) acc (print_str k @ CHR '':'' # CHR '' '' # json_print j @ c # r) =
    (if c = CHR '','' then parse_members (Suc n) (dict_set acc k j) (skip_ws r) else Some (JObj (dict_set acc k j), r))"
proof -
  have "delimited (c # r)" using assms(3) by auto
  then have v: "parse_json (Suc n) (json_print j @ c # r) = Some (j, c # r)" using assms(1,2) by (intro parse_print(1)) auto
  have s1: "skip_ws (CHR '':'' # t) = CHR '':'' # t" for t by (simp add: skip_ws_other json_ws_def)
  have s2: "skip_ws (CHR '' '' # json_print j @ c # r) = json_print j @ c # r"
    using skip_ws_print [OF assms(1), of "c # r"] by (simp add: skip_ws_def json_ws_def)
  have s3: "skip_ws (c # r) = c # r" using assms(3) by (auto simp: skip_ws_other json_ws_def)
  show ?thesis using assms(3) s2 s3 v by (elim disjE) (simp_all add: print_str_def parse_print_str s1 del: parse_json.simps)
qed

lemma open_brace: "parse_json (Suc m) (CHR ''{'' # print_str k @ t) = parse_members m [] (print_str k @ t)"
proof -
  have "skip_ws (print_str k @ t) = print_str k @ t" by (simp add: skip_ws_def json_ws_def print_str_def)
  moreover have "print_str k @ t = CHR 0x22 # (concat (map escape_char k) @ CHR 0x22 # t)" by (simp add: print_str_def)
  ultimately show ?thesis by (simp del: parse_members.simps)
qed

definition trial_record :: "trial_verdict \<Rightarrow> (string, json) dict" where
  "trial_record v = [(''eligible_for_promotion'', JBool (tv_eligible v)), (''params_hash'', JStr (tv_params_hash v)),
     (''trial_number'', JInt (tv_number v))]"

lemma trial_text_alt:
  "trial_text v = CHR ''{'' # print_str ''eligible_for_promotion'' @ CHR '':'' # CHR '' '' # json_print (JBool (tv_eligible v)) @ CHR '','' #
     CHR '' '' # print_str ''params_hash'' @ CHR '':'' # CHR '' '' # json_print (JStr (tv_params_hash v)) @ CHR '','' #
     CHR '' '' # print_str ''trial_number'' @ CHR '':'' # CHR '' '' # json_print (JInt (tv_number v)) @ CHR ''}'' # []"
proof -
  have "print_str ''eligible_for_promotion'' = ''\"eligible_for_promotion\"''" "print_str ''params_hash'' = ''\"params_hash\"''"
    "print_str ''trial_number'' = ''\"trial_number\"''"
    by code_simp+
  then show ?thesis by (simp add: trial_text_def)
qed

lemma loads_trial_text: "loads (trial_text v) = Some (JObj (trial_record v))"
proof -
  let ?e = "''eligible_for_promotion''"
  let ?h = "''params_hash''"
  let ?k = "''trial_number''"
  let ?num = "print_str ?k @ CHR '':'' # CHR '' '' # json_print (JInt (tv_number v)) @ CHR ''}'' # []"
  let ?hash = "print_str ?h @ CHR '':'' # CHR '' '' # json_print (JStr (tv_params_hash v)) @ CHR '','' # CHR '' '' # ?num"
  let ?elig = "print_str ?e @ CHR '':'' # CHR '' '' # json_print (JBool (tv_eligible v)) @ CHR '','' # CHR '' '' # ?hash"
  have skip: "skip_ws (CHR '' '' # print_str k @ t) = print_str k @ t" "skip_ws (print_str k @ t) = print_str k @ t"
    "skip_ws (CHR ''{'' # t) = CHR ''{'' # t" for k t
    by (simp_all add: skip_ws_def json_ws_def print_str_def)
  have whole: "trial_text v = CHR ''{'' # ?elig" by (simp only: trial_text_alt append_assoc append_Cons append_Nil)
  have "10 \<le> 2 * length (trial_text v) + 2" by (simp add: whole print_str_def)
  then obtain n where "2 * length (trial_text v) + 2 = n + 10" by (metis add.commute le_iff_add)
  then have n: "2 * length (trial_text v) + 2 = Suc (Suc (Suc (Suc (Suc (n + 5)))))" by simp
  have "parse_json (Suc (Suc (Suc (Suc (Suc (n + 5)))))) (CHR ''{'' # ?elig) = parse_members (Suc (Suc (Suc (Suc (n + 5))))) [] ?elig"
    by (rule open_brace)
  also have "\<dots> = parse_members (Suc (Suc (Suc (n + 5)))) [(?e, JBool (tv_eligible v))] ?hash"
    by (subst member_spaced) (simp_all add: skip del: parse_members.simps)
  also have "\<dots> = parse_members (Suc (Suc (n + 5))) [(?e, JBool (tv_eligible v)), (?h, JStr (tv_params_hash v))] ?num"
    by (subst member_spaced) (simp_all add: skip del: parse_members.simps)
  also have "\<dots> = Some (JObj (trial_record v), [])"
    by (subst member_spaced) (simp_all add: trial_record_def)
  finally have r: "parse_json (2 * length (trial_text v) + 2) (trial_text v) = Some (JObj (trial_record v), [])"
    unfolding n by (simp only: whole)
  have "skip_ws (trial_text v) = trial_text v" by (simp only: whole skip)
  with r show ?thesis by (simp add: loads_def skip_ws_def del: parse_json.simps)
qed


section \<open>The file\<close>

definition no_break :: "string \<Rightarrow> bool" where
  "no_break s \<longleftrightarrow> CHR 0x0A \<notin> set s \<and> CHR 0x0D \<notin> set s"

lemma lines_of_line: "no_break s \<Longrightarrow> lines_of acc (s @ CHR 0x0A # r) = (rev acc @ s) # lines_of [] r"
  by (induction s arbitrary: acc) (auto simp: no_break_def)

lemma lines_of_all: "\<forall>s \<in> set ls. no_break s \<Longrightarrow> lines_of [] (concat (map (\<lambda>s. s @ [CHR 0x0A]) ls)) = ls"
  by (induction ls) (simp_all add: lines_of_line)

lemma escape_no_break: "no_break (escape_char c)"
proof -
  have "no_break [hex_digit n]" if "n < 16" for n
  proof -
    have "list_all (\<lambda>n. no_break [hex_digit n]) [0..<16]" by code_simp
    then show ?thesis using that by (simp add: list_all_iff)
  qed
  from this [of "of_char c div 16"] this [of "of_char c mod 16"]
  have "no_break [hex_digit (of_char c div 16)]" "no_break [hex_digit (of_char c mod 16)]"
    by (simp_all add: less_mult_imp_div_less)
  then show ?thesis by (auto simp: escape_char_def no_break_def Let_def)
qed

lemma no_break_append [simp]: "no_break (s @ t) \<longleftrightarrow> no_break s \<and> no_break t"
  by (auto simp: no_break_def)

lemma no_break_print_str: "no_break (print_str s)"
proof -
  have "no_break (concat (map escape_char s))" by (induction s) (simp_all add: escape_no_break, simp add: no_break_def)
  then show ?thesis by (simp add: print_str_def no_break_def)
qed

lemma no_break_int_str: "no_break (int_str i)"
proof -
  have "no_break (nat_str n)" for n
    using nat_str_digits [of n] by (auto simp: no_break_def is_digit_def)
  then show ?thesis by (auto simp: int_str_def no_break_def)
qed

lemma no_break_trial: "no_break (trial_text v)"
proof -
  have "no_break ''{\"eligible_for_promotion\": ''" "no_break ''true''" "no_break ''false''" "no_break '', \"params_hash\": ''"
    "no_break '', \"trial_number\": ''" "no_break ''}''"
    by (simp_all add: no_break_def)
  then show ?thesis unfolding trial_text_def by (simp add: no_break_print_str no_break_int_str del: append_Cons)
qed

definition numbered_trials :: "string list \<Rightarrow> trial_verdict list" where
  "numbered_trials hs = map (\<lambda>(i, h). \<lparr>tv_number = int i, tv_params_hash = h, tv_eligible = (int i \<le> MAX_ELIGIBLE_TRIALS)\<rparr>) (List.enumerate 1 hs)"

definition trials_text :: "trial_verdict list \<Rightarrow> string" where
  "trials_text vs = concat (map (\<lambda>v. trial_text v @ [CHR 0x0A]) vs)"

lemma trial_of_own_line:
  assumes "tv_number v = int n" "tv_params_hash v \<noteq> []" "tv_eligible v = (int n \<le> MAX_ELIGIBLE_TRIALS)"
  shows "trial_of_line (n, trial_text v) = Ok v"
proof -
  have "strip (trial_text v) \<noteq> []"
  proof -
    have "trial_text v = CHR ''{'' # tl (trial_text v)" by (simp add: trial_text_def)
    then obtain t where t: "trial_text v = CHR ''{'' # t" by blast
    have "\<not> is_space CHR ''{''" by code_simp
    moreover have "dropWhile is_space (rev t @ [CHR ''{'']) \<noteq> []" using calculation by (induction t) auto
    ultimately show ?thesis by (simp add: t strip_def lstrip_def)
  qed
  moreover have "fst ` set (trial_record v) = set RECORD_KEYS" by (auto simp: trial_record_def RECORD_KEYS_def)
  ultimately show ?thesis using assms by (simp add: trial_of_line_def loads_trial_text) (simp add: trial_record_def)
qed

lemma read_own_trials:
  assumes "\<forall>h \<in> set hs. h \<noteq> []"
  shows "read_trials (Some (trials_text (numbered_trials hs))) = Ok (numbered_trials hs)"
proof -
  have lines: "lines_of [] (trials_text (numbered_trials hs)) = map trial_text (numbered_trials hs)"
    using lines_of_all [of "map trial_text (numbered_trials hs)"] by (simp add: trials_text_def no_break_trial comp_def)
  have "rmap trial_of_line (List.enumerate k (map trial_text (map (\<lambda>(i, h). \<lparr>tv_number = int i, tv_params_hash = h,
       tv_eligible = (int i \<le> MAX_ELIGIBLE_TRIALS)\<rparr>) (List.enumerate k hs))))
    = Ok (map (\<lambda>(i, h). \<lparr>tv_number = int i, tv_params_hash = h, tv_eligible = (int i \<le> MAX_ELIGIBLE_TRIALS)\<rparr>) (List.enumerate k hs))" for k
    using assms by (induction hs arbitrary: k) (simp_all add: trial_of_own_line)
  from this [of 1] show ?thesis by (simp only: read_trials_def option.case lines) (simp only: numbered_trials_def)
qed

lemma numbered_trials_snoc:
  "numbered_trials (hs @ [h]) = numbered_trials hs @ [\<lparr>tv_number = int (length hs) + 1, tv_params_hash = h,
     tv_eligible = (int (length hs) + 1 \<le> MAX_ELIGIBLE_TRIALS)\<rparr>]"
  by (simp add: numbered_trials_def enumerate_append_eq add.commute)

lemma length_numbered [simp]: "length (numbered_trials hs) = length hs"
  by (simp add: numbered_trials_def)

definition file_holds :: "trials_file \<Rightarrow> string list \<Rightarrow> bool" where
  \<comment> \<open>the file has exactly the records of these hashes, or does not exist and there are none\<close>
  "file_holds f hs \<longleftrightarrow> (\<forall>h \<in> set hs. h \<noteq> []) \<and> (f = Some (trials_text (numbered_trials hs)) \<or> f = None \<and> hs = [])"

lemma file_holds_read:
  assumes "file_holds f hs"
  shows "read_trials f = Ok (numbered_trials hs)" "read_trials (Some (case f of None \<Rightarrow> [] | Some t \<Rightarrow> t)) = Ok (numbered_trials hs)"
proof -
  have "read_trials (Some (trials_text (numbered_trials hs))) = Ok (numbered_trials hs)"
    using assms read_own_trials by (simp add: file_holds_def)
  moreover have "trials_text (numbered_trials []) = []" by (simp add: trials_text_def numbered_trials_def)
  moreover have "read_trials None = Ok (numbered_trials [])" by (simp add: read_trials_def numbered_trials_def)
  ultimately show "read_trials f = Ok (numbered_trials hs)" "read_trials (Some (case f of None \<Rightarrow> [] | Some t \<Rightarrow> t)) = Ok (numbered_trials hs)"
    using assms unfolding file_holds_def by (elim conjE disjE; simp)+
qed

lemma record_trial_holds:
  assumes "file_holds f hs" "h \<noteq> []"
  shows "int (length hs) < MAX_ALLOWED_TRIALS \<Longrightarrow> \<exists>f'. record_trial h f = (Ok (numbered_trials (hs @ [h])), f') \<and> file_holds f' (hs @ [h])"
    "MAX_ALLOWED_TRIALS \<le> int (length hs) \<Longrightarrow> \<exists>e f'. record_trial h f = (Err e, f') \<and> file_holds f' hs"
proof -
  let ?t = "case f of None \<Rightarrow> [] | Some t \<Rightarrow> t"
  have old: "?t = trials_text (numbered_trials hs)" using assms(1) by (auto simp: file_holds_def trials_text_def numbered_trials_def)
  note r = file_holds_read(2) [OF assms(1)]
  show "\<exists>f'. record_trial h f = (Ok (numbered_trials (hs @ [h])), f') \<and> file_holds f' (hs @ [h])" if "int (length hs) < MAX_ALLOWED_TRIALS"
  proof -
    have "file_holds (Some (trials_text (numbered_trials (hs @ [h])))) (hs @ [h])" using assms by (auto simp: file_holds_def)
    then show ?thesis using that assms(2) r old
      by (simp add: record_trial_def Let_def numbered_trials_snoc trials_text_def)
  qed
  show "\<exists>e f'. record_trial h f = (Err e, f') \<and> file_holds f' hs" if "MAX_ALLOWED_TRIALS \<le> int (length hs)"
    using that assms r old by (simp add: record_trial_def Let_def) (auto simp: file_holds_def)
qed

definition record_one :: "string \<Rightarrow> (trials_file, unit) eff" where
  "record_one h = bind (record_trial h) (\<lambda>_. ret ())"

lemma record_one_simps:
  "record_trial h f = (Ok vs, f') \<Longrightarrow> record_one h f = (Ok (), f')"
  "record_trial h f = (Err e, f') \<Longrightarrow> record_one h f = (Err e, f')"
  by (simp_all add: record_one_def)

text \<open>
  C19: the trial ledger reads back what was recorded. Recording parameter hashes one after the other from
  a file that does not exist, whichever instance does it, succeeds for the first fifty; opening the file
  afterwards returns exactly those hashes, numbered from one, and a trial is eligible for promotion when
  its number is at most twenty. A fifty-first recording is refused, ends the sequence and stores nothing.
\<close>

theorem trials_read_back:
  assumes "\<forall>h \<in> set hs. h \<noteq> []" "run \<noteq> []"
    "for_each hs record_one None = (r, f)"
  shows "(is_ok r \<longleftrightarrow> int (length hs) \<le> MAX_ALLOWED_TRIALS) \<and> open_trials run f = Ok (numbered_trials (take (nat MAX_ALLOWED_TRIALS) hs))"
proof -
  have "(is_ok r \<longleftrightarrow> int (length (old @ hs)) \<le> MAX_ALLOWED_TRIALS) \<and> file_holds f (take (nat MAX_ALLOWED_TRIALS) (old @ hs))"
    if "file_holds f0 old" "int (length old) \<le> MAX_ALLOWED_TRIALS" "\<forall>h \<in> set hs. h \<noteq> []"
      "for_each hs record_one f0 = (r, f)" for f0 old
    using that
  proof (induction hs arbitrary: f0 old)
    case Nil
    then show ?case by auto
  next
    case (Cons h hs)
    show ?case
    proof (cases "int (length old) < MAX_ALLOWED_TRIALS")
      case True
      then obtain f1 where f1: "record_trial h f0 = (Ok (numbered_trials (old @ [h])), f1)" "file_holds f1 (old @ [h])"
        using record_trial_holds(1) [OF Cons.prems(1)] Cons.prems(3) by auto
      have "for_each hs record_one f1 = (r, f)" using Cons.prems(4) f1(1) by (simp add: record_one_simps)
      from Cons.IH [OF f1(2) _ _ this] True Cons.prems(3) show ?thesis by auto
    next
      case False
      then obtain e f1 where f1: "record_trial h f0 = (Err e, f1)" "file_holds f1 old"
        using record_trial_holds(2) [OF Cons.prems(1)] Cons.prems(3) by (metis list.set_intros(1) not_less)
      then have "r = Err e" "f = f1" using Cons.prems(4) by (simp_all add: record_one_simps)
      moreover have "nat MAX_ALLOWED_TRIALS = length old" using False Cons.prems(2) by simp
      ultimately show ?thesis using False f1(2) by simp
    qed
  qed
  from this [of None "[]"] assms have "(is_ok r \<longleftrightarrow> int (length hs) \<le> MAX_ALLOWED_TRIALS)"
    "file_holds f (take (nat MAX_ALLOWED_TRIALS) hs)"
    by (simp_all add: file_holds_def MAX_ALLOWED_TRIALS_def)
  then show ?thesis using assms(2) by (simp add: open_trials_def file_holds_read(1))
qed

theorem trials_read_back_witness:
  "\<exists>f. open_trials ''run'' f = Ok (numbered_trials [''a'', ''b'']) \<and> f \<noteq> None"
proof -
  obtain r f where e: "for_each [''a'', ''b''] record_one None = (r, f)" by force
  have "f \<noteq> None"
  proof -
    have "snd (for_each [''a'', ''b''] record_one None) \<noteq> None" by code_simp
    then show ?thesis using e by simp
  qed
  with trials_read_back [OF _ _ e, of "''run''"] show ?thesis by (auto simp: MAX_ALLOWED_TRIALS_def)
qed

end
