(* ===== verification/SearchWinner.thy ===== *)
theory SearchWinner
  imports SearchFacts TrialFacts
begin

text \<open>
  The result of a search: every candidate is scored on the same folds and recorded, the first one with
  the best mean wins, and the trial count and eligibility are those of the ledger.
\<close>

type_synonym scored = "string \<times> param_set \<times> int"

definition pick :: "best \<Rightarrow> scored \<Rightarrow> best" where
  "pick b x = (case b of None \<Rightarrow> Some x | Some y \<Rightarrow> if snd (snd x) > snd (snd y) then Some x else Some y)"

lemma pick_simps [simp]:
  "pick None x = Some x" "pick (Some y) x = (if snd (snd x) > snd (snd y) then Some x else Some y)"
  by (simp_all add: pick_def)

lemma pick_first_best:
  assumes "foldl pick None xs = Some w"
  shows "\<exists>i < length xs. xs ! i = w \<and> (\<forall>j < length xs. snd (snd (xs ! j)) \<le> snd (snd w)) \<and> (\<forall>j < i. snd (snd (xs ! j)) < snd (snd w))"
  using assms
proof (induction xs arbitrary: w rule: rev_induct)
  case (snoc x xs)
  show ?case
  proof (cases "foldl pick None xs")
    case None
    have "xs = []"
    proof (rule ccontr)
      assume "xs \<noteq> []"
      then obtain ys y where "xs = ys @ [y]" by (metis rev_exhaust)
      then show False using None by (cases "foldl pick None ys") (simp_all split: if_splits)
    qed
    then show ?thesis using snoc.prems by simp
  next
    case (Some v)
    obtain i where i: "i < length xs" "xs ! i = v" "\<forall>j < length xs. snd (snd (xs ! j)) \<le> snd (snd v)"
      "\<forall>j < i. snd (snd (xs ! j)) < snd (snd v)"
      using snoc.IH [OF Some] by blast
    show ?thesis
    proof (cases "snd (snd x) > snd (snd v)")
      case True
      then have w: "w = x" using snoc.prems Some by simp
      have "snd (snd ((xs @ [x]) ! j)) < snd (snd x)" if "j < length xs" for j
        using i(3) that True by (simp add: nth_append) (meson le_less_trans)
      then show ?thesis using w by (intro exI [of _ "length xs"]) (auto simp: less_Suc_eq intro: less_imp_le)
    next
      case False
      then have w: "w = v" using snoc.prems Some by simp
      show ?thesis using w i False by (intro exI [of _ i]) (auto simp: nth_append less_Suc_eq)
    qed
  qed
qed simp

definition scores :: "(string \<Rightarrow> string) \<Rightarrow> coercion \<Rightarrow> (param_set \<Rightarrow> eval_window \<Rightarrow> int result) \<Rightarrow> rat \<Rightarrow> eval_window list
    \<Rightarrow> (string \<times> knob) list \<Rightarrow> scored \<Rightarrow> bool" where
  \<comment> \<open>a candidate's hash, parameters and mean over the folds\<close>
  "scores H coerce score c folds kvs x \<longleftrightarrow> (case x of (h, ps, mean) \<Rightarrow> stable_candidate coerce kvs = Ok ps \<and> content_hash H ps = Ok h
     \<and> (\<exists>total. fold_total score c ps folds = Ok total \<and> mean = total div int (length folds)))"

lemma record_trial_Ok:
  assumes "record_trial h f = (Ok vs, f')" "file_holds f hs"
  shows "h \<noteq> []" "int (length hs) < MAX_ALLOWED_TRIALS" "vs = numbered_trials (hs @ [h])" "file_holds f' (hs @ [h])"
proof -
  show h: "h \<noteq> []" using assms(1) by (auto simp: record_trial_def)
  show lt: "int (length hs) < MAX_ALLOWED_TRIALS"
    using record_trial_holds(2) [OF assms(2) h] assms(1) by (cases "int (length hs) < MAX_ALLOWED_TRIALS") auto
  show "vs = numbered_trials (hs @ [h])" "file_holds f' (hs @ [h])"
    using record_trial_holds(1) [OF assms(2) h lt] assms(1) by auto
qed

lemma tune_step_Ok:
  assumes "tune_step H coerce score c folds acc kvs f = (Ok acc', f')" "file_holds f hs"
  obtains x where "scores H coerce score c folds kvs x" "acc' = (pick (fst acc) x, numbered_trials (hs @ [fst x]))"
    "file_holds f' (hs @ [fst x])" "int (length hs) < MAX_ALLOWED_TRIALS"
proof -
  obtain ps where ps: "stable_candidate coerce kvs = Ok ps"
    using assms(1) by (cases "stable_candidate coerce kvs") (auto simp: tune_step_def)
  obtain h where h: "content_hash H ps = Ok h"
    using assms(1) ps by (cases "content_hash H ps") (auto simp: tune_step_def)
  obtain vs f1 where r: "record_trial h f = (Ok vs, f1)"
    using assms(1) ps h by (cases "record_trial h f"; cases "fst (record_trial h f)") (auto simp: tune_step_def)
  obtain total where t: "fold_total score c ps folds = Ok total"
    using assms(1) ps h r by (cases "fold_total score c ps folds") (auto simp: tune_step_def)
  note rt = record_trial_Ok [OF r assms(2)]
  let ?x = "(h, ps, total div int (length folds))"
  have "acc' = (pick (fst acc) ?x, vs) \<and> f' = f1"
    using assms(1) ps h r t by (cases "fst acc") (auto simp: tune_step_def pick_def Let_def split: if_splits)
  moreover have "scores H coerce score c folds kvs ?x" using ps h t by (auto simp: scores_def)
  ultimately show thesis using that [of ?x] rt by simp
qed

lemma tune_Ok:
  assumes "tune H coerce score c folds acc space f = (Ok (b, vs), f')" "file_holds f hs" "space \<noteq> [] \<or> snd acc = numbered_trials hs"
  shows "\<exists>xs. list_all2 (scores H coerce score c folds) space xs \<and> b = foldl pick (fst acc) xs
    \<and> vs = numbered_trials (hs @ map fst xs) \<and> file_holds f' (hs @ map fst xs) \<and> (xs \<noteq> [] \<longrightarrow> int (length hs + length xs) \<le> MAX_ALLOWED_TRIALS)"
  using assms
proof (induction space arbitrary: acc f hs)
  case Nil
  then show ?case by auto
next
  case (Cons kvs space)
  obtain acc1 f1 where s: "tune_step H coerce score c folds acc kvs f = (Ok acc1, f1)" "tune H coerce score c folds acc1 space f1 = (Ok (b, vs), f')"
    using Cons.prems(1) by (auto simp: bind_Ok_iff)
  obtain x where x: "scores H coerce score c folds kvs x" "acc1 = (pick (fst acc) x, numbered_trials (hs @ [fst x]))"
    "file_holds f1 (hs @ [fst x])" "int (length hs) < MAX_ALLOWED_TRIALS"
    using tune_step_Ok [OF s(1) Cons.prems(2)] .
  obtain xs where xs: "list_all2 (scores H coerce score c folds) space xs" "b = foldl pick (fst acc1) xs"
    "vs = numbered_trials ((hs @ [fst x]) @ map fst xs)" "file_holds f' ((hs @ [fst x]) @ map fst xs)"
    "xs \<noteq> [] \<longrightarrow> int (length (hs @ [fst x]) + length xs) \<le> MAX_ALLOWED_TRIALS"
    using Cons.IH [OF s(2) x(3)] x(2) by auto
  have "list_all2 (scores H coerce score c folds) (kvs # space) (x # xs)" using x(1) xs(1) by simp
  moreover have "int (length hs + length (x # xs)) \<le> MAX_ALLOWED_TRIALS" using x(4) xs(5) by (cases xs) auto
  ultimately show ?case using xs(2-4) x(2) by (intro exI [of _ "x # xs"]) auto
qed

lemma all_eligible_numbered: "list_all tv_eligible (numbered_trials hs) \<longleftrightarrow> int (length hs) \<le> MAX_ELIGIBLE_TRIALS"
proof -
  have "list_all (\<lambda>(i, h). int i \<le> m) (List.enumerate k hs) \<longleftrightarrow> hs = [] \<or> int (k + length hs) \<le> m + 1" for k m
    by (induction hs arbitrary: k) auto
  from this [of MAX_ELIGIBLE_TRIALS 1] show ?thesis
    by (cases "hs = []") (auto simp: numbered_trials_def list_all_iff MAX_ELIGIBLE_TRIALS_def)
qed

lemma run_search_Ok:
  assumes "run_search H coerce replay limits dataset dir space n_trials seed n_folds run f = (Ok r, g)"
  obtains sp ws opened b trials h ps mean net where "search_windows H dataset dir space n_trials n_folds = Ok (sp, ws)"
    "open_trials run f = Ok opened"
    "tune H coerce (\<lambda>ps w. evaluate_window H coerce replay limits dir ps seed w) (hs_holdout_start sp) (fw_folds ws) (None, opened)
       (take (nat n_trials) space) f = (Ok (Some (h, ps, mean), trials), g)"
    "evaluate_window H coerce replay limits dir ps seed (fw_holdout ws) = Ok net"
    "r = \<lparr>hr_best_params_hash = h, hr_holdout_id = hs_holdout_id sp, hr_trial_count = int (length trials), hr_eligible = list_all tv_eligible trials,
       hr_holdout_net = net, hr_best_net = mean\<rparr>"
proof -
  obtain sp ws where w: "search_windows H dataset dir space n_trials n_folds = Ok (sp, ws)"
    using assms by (cases "search_windows H dataset dir space n_trials n_folds") (auto simp: run_search_def)
  obtain opened where o: "open_trials run f = Ok opened"
    using assms w by (cases "open_trials run f") (auto simp: run_search_def)
  let ?t = "tune H coerce (\<lambda>ps w. evaluate_window H coerce replay limits dir ps seed w) (hs_holdout_start sp) (fw_folds ws) (None, opened)
       (take (nat n_trials) space) f"
  obtain b trials g1 where t: "?t = (Ok (b, trials), g1)"
    using assms w o by (cases ?t; cases "fst ?t") (auto simp: run_search_def Let_def)
  obtain h ps mean where b: "b = Some (h, ps, mean)"
    using assms w o t by (cases b) (auto simp: run_search_def Let_def)
  obtain net where n: "evaluate_window H coerce replay limits dir ps seed (fw_holdout ws) = Ok net"
    using assms w o t b by (cases "evaluate_window H coerce replay limits dir ps seed (fw_holdout ws)") (auto simp: run_search_def Let_def)
  have e: "list_all tv_eligible trials = (int (length trials) \<le> MAX_ELIGIBLE_TRIALS)"
    using assms w o t b n by (auto simp: run_search_def Let_def bind_def split: sum.splits)
  have eq: "run_search H coerce replay limits dataset dir space n_trials seed n_folds run f = (Ok \<lparr>hr_best_params_hash = h,
      hr_holdout_id = hs_holdout_id sp, hr_trial_count = int (length trials), hr_eligible = list_all tv_eligible trials,
      hr_holdout_net = net, hr_best_net = mean\<rparr>, g1)"
    by (simp add: run_search_def Let_def w o t b n e)
  have r: "r = \<lparr>hr_best_params_hash = h, hr_holdout_id = hs_holdout_id sp, hr_trial_count = int (length trials),
      hr_eligible = list_all tv_eligible trials, hr_holdout_net = net, hr_best_net = mean\<rparr>" and g: "g1 = g"
    using assms unfolding eq by simp_all
  show thesis by (rule that [OF w o _ n r]) (simp only: t b g)
qed

text \<open>
  C18: the search returns the first candidate with the best mean, on one ledger. When a search over a trial
  file returns, every candidate taken was validated, hashed and scored on the same folds; the winner's
  mean is the largest and no earlier candidate reaches it; the file holds the old trials and one more for
  each candidate, in order; the trial count is their number and at most fifty; and the result is eligible
  for promotion exactly when that number is at most twenty.
\<close>

theorem search_returns_first_best:
  assumes "run_search H coerce replay limits dataset dir space n_trials seed n_folds run f = (Ok r, g)" "file_holds f hs"
  shows "\<exists>sp ws xs. search_windows H dataset dir space n_trials n_folds = Ok (sp, ws) \<and> int (length xs) = n_trials
    \<and> list_all2 (scores H coerce (\<lambda>ps w. evaluate_window H coerce replay limits dir ps seed w) (hs_holdout_start sp) (fw_folds ws))
        (take (nat n_trials) space) xs
    \<and> (\<exists>i < length xs. fst (xs ! i) = hr_best_params_hash r \<and> snd (snd (xs ! i)) = hr_best_net r
         \<and> (\<forall>j < length xs. snd (snd (xs ! j)) \<le> hr_best_net r) \<and> (\<forall>j < i. snd (snd (xs ! j)) < hr_best_net r))
    \<and> file_holds g (hs @ map fst xs)
    \<and> hr_trial_count r = int (length hs) + n_trials \<and> hr_trial_count r \<le> MAX_ALLOWED_TRIALS
    \<and> (hr_eligible r \<longleftrightarrow> hr_trial_count r \<le> MAX_ELIGIBLE_TRIALS)"
proof -
  obtain sp ws opened trials h ps mean net where s: "search_windows H dataset dir space n_trials n_folds = Ok (sp, ws)"
    "open_trials run f = Ok opened"
    "tune H coerce (\<lambda>ps w. evaluate_window H coerce replay limits dir ps seed w) (hs_holdout_start sp) (fw_folds ws) (None, opened)
       (take (nat n_trials) space) f = (Ok (Some (h, ps, mean), trials), g)"
    "evaluate_window H coerce replay limits dir ps seed (fw_holdout ws) = Ok net"
    "r = \<lparr>hr_best_params_hash = h, hr_holdout_id = hs_holdout_id sp, hr_trial_count = int (length trials), hr_eligible = list_all tv_eligible trials,
       hr_holdout_net = net, hr_best_net = mean\<rparr>"
    using assms(1) by (rule run_search_Ok)
  have n: "1 \<le> n_trials" "n_trials \<le> int (length space)" using s(1) by (auto simp: search_windows_def rbind_Ok_iff)
  then have ne: "take (nat n_trials) space \<noteq> []" by auto
  obtain xs where xs: "list_all2 (scores H coerce (\<lambda>ps w. evaluate_window H coerce replay limits dir ps seed w) (hs_holdout_start sp) (fw_folds ws))
        (take (nat n_trials) space) xs" "Some (h, ps, mean) = foldl pick None xs" "trials = numbered_trials (hs @ map fst xs)"
    "file_holds g (hs @ map fst xs)" "xs \<noteq> [] \<longrightarrow> int (length hs + length xs) \<le> MAX_ALLOWED_TRIALS"
    using tune_Ok [OF s(3) assms(2)] ne by auto
  have len: "int (length xs) = n_trials" using list_all2_lengthD [OF xs(1)] n by simp
  obtain i where i: "i < length xs" "xs ! i = (h, ps, mean)" "\<forall>j < length xs. snd (snd (xs ! j)) \<le> mean" "\<forall>j < i. snd (snd (xs ! j)) < mean"
    using pick_first_best [OF xs(2) [symmetric]] by auto
  have count: "hr_trial_count r = int (length hs) + n_trials" using s(5) xs(3) len by simp
  have "hr_trial_count r \<le> MAX_ALLOWED_TRIALS" using xs(5) len n(1) count by auto
  moreover have "hr_eligible r \<longleftrightarrow> hr_trial_count r \<le> MAX_ELIGIBLE_TRIALS" using s(5) xs(3) by (simp add: all_eligible_numbered)
  moreover have "\<exists>i < length xs. fst (xs ! i) = hr_best_params_hash r \<and> snd (snd (xs ! i)) = hr_best_net r
         \<and> (\<forall>j < length xs. snd (snd (xs ! j)) \<le> hr_best_net r) \<and> (\<forall>j < i. snd (snd (xs ! j)) < hr_best_net r)"
    using i s(5) by (intro exI [of _ i]) simp
  ultimately show ?thesis using s(1) len xs(1,4) count by (intro exI [of _ sp] exI [of _ ws] exI [of _ xs] conjI)
qed

lemma staged_Ok: "\<exists>dir. staged H kvs m i es = Ok dir"
  by (simp add: staged_def dataset_digest_def Let_def)

lemma quiet_score:
  assumes "List.filter (\<lambda>e. in_window w (stamp_of e)) (fd_events (recorded [''00'', ''01'', ''10''])) \<noteq> []"
    "case ew_end w of None \<Rightarrow> True | Some e \<Rightarrow> ew_start w \<le> e"
  shows "evaluate_window flat_digest any_value quiet_replay () (recording []) \<lparr>ps_filter = None, ps_exits = None\<rparr> 7 w = Ok 0"
proof -
  have f: "is_ok (filter_settings any_value \<lparr>ps_filter = None, ps_exits = None\<rparr>)"
    "is_ok (exits_settings_of any_value \<lparr>ps_filter = None, ps_exits = None\<rparr>)" by code_simp+
  then obtain fs xs where s: "filter_settings any_value \<lparr>ps_filter = None, ps_exits = None\<rparr> = Ok fs"
    "exits_settings_of any_value \<lparr>ps_filter = None, ps_exits = None\<rparr> = Ok xs" by (auto simp: is_ok_iff)
  have n: "ledger_net (set_meta empty_store ''initial_equity_lamports'' ''5'') = Ok 0" by code_simp
  have m: "\<exists>t. map_of (recording []) MANIFEST_NAME = Some (Regular t) \<and> loads t = Some (JObj recorded_manifest)"
    using recording_manifests(1) by (auto simp: manifest_json_def split: option.splits entry_kind.splits json.splits)
  then obtain t where t: "map_of (recording []) MANIFEST_NAME = Some (Regular t)" "loads t = Some (JObj recorded_manifest)" by blast
  obtain dir where dir: "staged flat_digest recorded_manifest (fd_manifest (recorded [''00'', ''01'', ''10''])) (ew_id w)
      (List.filter (\<lambda>e. in_window w (stamp_of e)) (fd_events (recorded [''00'', ''01'', ''10'']))) = Ok dir"
    using staged_Ok by blast
  show ?thesis
    unfolding evaluate_window_def window_ledger_def recordings_load(1) loaded_stamps(2) [OF recordings_load(1)] rbind_simps
    using assms by (simp add: t dir s quiet_replay_def n split: option.splits)
qed

theorem search_returns_first_best_witness:
  "\<exists>r g. run_search flat_digest any_value quiet_replay () ''d'' (recording []) [[]] 1 7 1 ''run'' None = (Ok r, g)
    \<and> hr_trial_count r = 1 \<and> hr_eligible r"
proof -
  let ?ws = "\<lparr>fw_folds = [\<lparr>ew_id = ''d-test-1'', ew_start = 1, ew_end = Some 8\<rparr>], fw_holdout = \<lparr>ew_id = ''d-holdout'', ew_start = 8, ew_end = None\<rparr>\<rparr>"
  let ?ps = "\<lparr>ps_filter = None, ps_exits = None\<rparr>"
  have st: "stamp_of (tick_event ''00'') = 0" "stamp_of (tick_event ''01'') = 1" "stamp_of (tick_event ''10'') = 10"
    using recorded_stamps by simp_all
  have fw: "fold_windows [0, 1, 10] ''d'' 1 = Ok ?ws" by code_simp
  have "is_ok (holdout_split [0, 1, 10] ''d'')" by code_simp
  then obtain sp where sp: "holdout_split [0, 1, 10] ''d'' = Ok sp" by (auto simp: is_ok_iff)
  then have c: "hs_holdout_start sp = 8" using recorded_cutoffs(1) by (auto simp: holdout_split_def rbind_Ok_iff)
  have sw: "search_windows flat_digest ''d'' (recording []) [[]] 1 1 = Ok (sp, ?ws)"
    unfolding search_windows_def recordings_load(1) loaded_stamps(1) [OF recordings_load(1)] rbind_simps
    by (simp add: recorded_def st fw sp)
  have e: "evaluate_window flat_digest any_value quiet_replay () (recording []) ?ps 7 w = Ok 0" if "w \<in> {hd (fw_folds ?ws), fw_holdout ?ws}" for w
    using that by (intro quiet_score) (auto simp: in_window_def recorded_def st)
  have sc: "stable_candidate any_value [] = Ok ?ps" by code_simp
  have h: "content_hash flat_digest ?ps = Ok (replicate 64 CHR ''a'')" by code_simp
  have "file_holds None []" by (simp add: file_holds_def)
  then obtain g where g: "record_trial (replicate 64 CHR ''a'') None = (Ok (numbered_trials [replicate 64 CHR ''a'']), g)"
    using record_trial_holds(1) [of None "[]" "replicate 64 CHR ''a''"] by (auto simp: MAX_ALLOWED_TRIALS_def)
  have o: "open_trials ''run'' None = Ok []" by (simp add: open_trials_def read_trials_def)
  have el: "list_all tv_eligible (numbered_trials [replicate 64 CHR ''a''])" by (simp add: all_eligible_numbered MAX_ELIGIBLE_TRIALS_def)
  have ft: "fold_total (\<lambda>ps w. evaluate_window flat_digest any_value quiet_replay () (recording []) ps 7 w) 8 ?ps (fw_folds ?ws) = Ok 0"
    using e by (simp add: fold_total_def)
  have "\<exists>r g. run_search flat_digest any_value quiet_replay () ''d'' (recording []) [[]] 1 7 1 ''run'' None = (Ok r, g)"
    using sw o sc h g ft e el c by (simp add: run_search_def tune_step_def Let_def MAX_ELIGIBLE_TRIALS_def)
  then obtain r g where r: "run_search flat_digest any_value quiet_replay () ''d'' (recording []) [[]] 1 7 1 ''run'' None = (Ok r, g)" by blast
  have "file_holds None []" by (simp add: file_holds_def)
  from search_returns_first_best [OF r this] r show ?thesis by (auto simp: MAX_ELIGIBLE_TRIALS_def)
qed

end
