(* ===== verification/WindowReport.thy ===== *)
theory WindowReport
  imports BacktestSearch
begin

text \<open>
  Reading a window's ledger back into a report: the fills and their shared result
  (\<open>backtest/results.py\<close>), the equity curve, the equity path and the metrics of the holdout
  (\<open>cli/backtest_holdout.py\<close>), and the same-window comparison with the paper ledger
  (\<open>cli/backtest_paper_gate.py\<close>). Printing the breach line is output and is left out.
\<close>

section \<open>One fill\<close>

definition dec_of_value :: "json \<Rightarrow> dec result" where
  \<comment> \<open>\<open>Decimal(str(v))\<close>\<close>
  "dec_of_value j = of_option (ArithmeticError ''InvalidOperation'') (case j of
       JStr s \<Rightarrow> dec_of_str s | JInt i \<Rightarrow> dec_of_str (int_str i)
     | JFloat t \<Rightarrow> (case refloat (JFloat t) of JFloat u \<Rightarrow> dec_of_str u | _ \<Rightarrow> None) | _ \<Rightarrow> None)"

definition field_value :: "(string, json) dict \<Rightarrow> string \<Rightarrow> json result" where
  "field_value p k = of_option (KeyError k) (map_of p k)"

definition at_least_one :: "dec \<Rightarrow> bool result" where
  \<comment> \<open>\<open>d >= 1\<close>, which a NaN does not answer\<close>
  "at_least_one d = rbind (of_option (ArithmeticError ''InvalidOperation'') (dec_less d (dec_of_int 1))) (\<lambda>b. Ok (\<not> b))"

record fill_detail =
  fe_price_avg :: dec
  fe_venue_fee :: int
  fe_network_cost :: int
  fe_latency_s :: dec
  fe_filled_fraction :: dec
  fe_outcome :: string

definition OUTCOMES :: "string list" where
  "OUTCOMES = [''filled'', ''partial'', ''rejected'', ''unknown'']"

definition plain_decimal :: "dec \<Rightarrow> bool" where
  "plain_decimal d \<longleftrightarrow> is_finite d \<and> 0 \<le> dec_val d"

definition validate_detail :: "fill_detail \<Rightarrow> fill_detail result" where
  "validate_detail d =
     rbind (rguard (0 \<le> fe_venue_fee d) (ValueError ''venue_fee_lamports must be a non-negative int'')) (\<lambda>_.
     rbind (rguard (0 \<le> fe_network_cost d) (ValueError ''network_cost_lamports must be a non-negative int'')) (\<lambda>_.
     rbind (rguard (plain_decimal (fe_price_avg d)) (ValueError ''price_avg must be a finite non-negative Decimal'')) (\<lambda>_.
     rbind (rguard (plain_decimal (fe_latency_s d)) (ValueError ''latency_s must be a finite non-negative Decimal'')) (\<lambda>_.
     rbind (rguard (plain_decimal (fe_filled_fraction d)) (ValueError ''filled_fraction must be a finite non-negative Decimal'')) (\<lambda>_.
     rbind (rguard (fe_outcome d \<in> set OUTCOMES) (ValueError ''outcome must be one of OUTCOMES'')) (\<lambda>_. Ok d))))))"

definition status_value :: "fill_status \<Rightarrow> string" where
  "status_value s = (case s of FILLED \<Rightarrow> ''filled'' | PARTIAL \<Rightarrow> ''partial'' | REJECTED \<Rightarrow> ''rejected'' | UNKNOWN \<Rightarrow> ''unknown'')"

definition detail_of_fill :: "fill \<Rightarrow> dec \<Rightarrow> fill_detail result" where
  "detail_of_fill f latency = validate_detail \<lparr>fe_price_avg = fi_price_avg f, fe_venue_fee = fi_venue_fee f,
     fe_network_cost = fi_network_cost f, fe_latency_s = latency, fe_filled_fraction = fi_filled_fraction f,
     fe_outcome = status_value (fi_status f)\<rparr>"

definition detail_of_payload :: "(string, json) dict \<Rightarrow> fill_detail result" where
  "detail_of_payload p =
     rbind (rbind (field_value p ''filled_fraction'') dec_of_value) (\<lambda>fraction.
     rbind (at_least_one fraction) (\<lambda>whole.
     rbind (rbind (field_value p ''price_avg'') dec_of_value) (\<lambda>price.
     rbind (rbind (field_value p ''venue_fee_lamports'') py_int) (\<lambda>venue.
     rbind (rbind (field_value p ''network_cost_lamports'') py_int) (\<lambda>network.
     rbind (dec_of_value (dict_get_default p ''latency_s'' (JStr ''0''))) (\<lambda>latency.
     validate_detail \<lparr>fe_price_avg = price, fe_venue_fee = venue, fe_network_cost = network, fe_latency_s = latency,
       fe_filled_fraction = fraction, fe_outcome = (if whole then ''filled'' else ''partial'')\<rparr>))))))"

definition empty_detail :: "string \<Rightarrow> fill_detail result" where
  "empty_detail outcome = validate_detail \<lparr>fe_price_avg = dec_zero, fe_venue_fee = 0, fe_network_cost = 0, fe_latency_s = dec_zero,
     fe_filled_fraction = dec_zero, fe_outcome = outcome\<rparr>"

section \<open>One window's result\<close>

record shared_result =
  sh_run_id :: string
  sh_dataset :: string
  sh_start :: rat
  sh_end :: rat
  sh_fills :: "fill_detail list"

definition shared_guard :: "string \<Rightarrow> string \<Rightarrow> rat \<Rightarrow> rat \<Rightarrow> unit result" where
  "shared_guard run dataset start_ts end_ts =
     rbind (rguard (run \<noteq> [] \<and> dataset \<noteq> []) (ValueError ''run_id and dataset must be non-empty'')) (\<lambda>_.
     rguard (start_ts \<le> end_ts) (ValueError ''window_end_ts must not precede window_start_ts''))"

definition result_of_fills :: "string \<Rightarrow> string \<Rightarrow> rat \<Rightarrow> rat \<Rightarrow> fill list \<Rightarrow> dec list \<Rightarrow> shared_result result" where
  "result_of_fills run dataset start_ts end_ts fills latencies =
     rbind (shared_guard run dataset start_ts end_ts) (\<lambda>_.
     rbind (rguard (length fills = length latencies) (ValueError ''fills and latencies must pair one to one'')) (\<lambda>_.
     rbind (rmap (\<lambda>(f, l). detail_of_fill f l) (zip fills latencies)) (\<lambda>details.
     Ok \<lparr>sh_run_id = run, sh_dataset = dataset, sh_start = start_ts, sh_end = end_ts, sh_fills = details\<rparr>)))"

definition row_details :: "rat \<Rightarrow> rat \<Rightarrow> event \<Rightarrow> fill_detail list result" where
  \<comment> \<open>none or one\<close>
  "row_details start_ts end_ts e = (if e_type e \<noteq> ''FillRecorded'' then Ok []
     else case e_payload e of
         JObj p \<Rightarrow> rbind (parse_ts_utc (e_ts e)) (\<lambda>stamp.
           if start_ts \<le> stamp \<and> stamp < end_ts then rbind (detail_of_payload p) (\<lambda>d. Ok [d]) else Ok [])
       | _ \<Rightarrow> Err (ValueError ''FillRecorded row without a payload mapping''))"

definition result_of_rows :: "string \<Rightarrow> string \<Rightarrow> rat \<Rightarrow> rat \<Rightarrow> event list \<Rightarrow> shared_result result" where
  "result_of_rows run dataset start_ts end_ts rows =
     rbind (shared_guard run dataset start_ts end_ts) (\<lambda>_.
     rbind (rmap (row_details start_ts end_ts) rows) (\<lambda>details.
     Ok \<lparr>sh_run_id = run, sh_dataset = dataset, sh_start = start_ts, sh_end = end_ts, sh_fills = concat details\<rparr>))"

record window_comparison =
  wc_matched :: bool
  wc_differences :: "string list"

definition field_diff :: "string \<Rightarrow> bool \<Rightarrow> string \<Rightarrow> string \<Rightarrow> string list" where
  "field_diff lbl same ours theirs = (if same then [] else [lbl @ '': '' @ ours @ '' != '' @ theirs])"

definition detail_diffs :: "nat \<Rightarrow> fill_detail \<Rightarrow> fill_detail \<Rightarrow> string list" where
  "detail_diffs i a b = (let lbl = (\<lambda>name. ''fills['' @ nat_str i @ ''].'' @ name) in
     field_diff (lbl ''price_avg'') (dec_val (fe_price_avg a) = dec_val (fe_price_avg b)) (dec_str (fe_price_avg a)) (dec_str (fe_price_avg b))
     @ field_diff (lbl ''venue_fee_lamports'') (fe_venue_fee a = fe_venue_fee b) (int_str (fe_venue_fee a)) (int_str (fe_venue_fee b))
     @ field_diff (lbl ''network_cost_lamports'') (fe_network_cost a = fe_network_cost b) (int_str (fe_network_cost a)) (int_str (fe_network_cost b))
     @ field_diff (lbl ''latency_s'') (dec_val (fe_latency_s a) = dec_val (fe_latency_s b)) (dec_str (fe_latency_s a)) (dec_str (fe_latency_s b))
     @ field_diff (lbl ''filled_fraction'') (dec_val (fe_filled_fraction a) = dec_val (fe_filled_fraction b)) (dec_str (fe_filled_fraction a))
         (dec_str (fe_filled_fraction b))
     @ field_diff (lbl ''outcome'') (fe_outcome a = fe_outcome b) (fe_outcome a) (fe_outcome b))"

definition compare_results :: "shared_result \<Rightarrow> shared_result \<Rightarrow> window_comparison result" where
  "compare_results a b =
     rbind (rguard (sh_dataset a = sh_dataset b) (ValueError ''shared results span different datasets'')) (\<lambda>_.
     rbind (rguard (sh_start a = sh_start b \<and> sh_end a = sh_end b) (ValueError ''shared results span different windows'')) (\<lambda>_.
     let diffs = (if length (sh_fills a) \<noteq> length (sh_fills b)
           then [''fills: '' @ nat_str (length (sh_fills a)) @ '' != '' @ nat_str (length (sh_fills b))] else [])
         @ concat (map (\<lambda>(i, x, y). detail_diffs i x y) (List.enumerate 0 (zip (sh_fills a) (sh_fills b))))
     in Ok \<lparr>wc_matched = (diffs = []), wc_differences = diffs\<rparr>))"

section \<open>Fills from rows\<close>

definition config_error :: "string \<Rightarrow> err" where
  "config_error what = RuntimeError (''settings are not fit to start: '' @ what)"

definition read_window_ledger :: "(string \<Rightarrow> string) \<Rightarrow> bool \<Rightarrow> store \<Rightarrow> (event list \<times> string option) result" where
  "read_window_ledger H check_chain st =
     rbind (if check_chain then fst (verify H st) else Ok True) (\<lambda>_.
     rbind (read st 0 [] None None None) (\<lambda>rows. Ok (rows, get_meta st ''initial_equity_lamports'' None)))"

definition money_field :: "(string, json) dict \<Rightarrow> string \<Rightarrow> int result" where
  "money_field p name = (case dict_get_default p name (JInt 0) of JInt i \<Rightarrow> Ok i
     | _ \<Rightarrow> Err (ValueError (''fill row carries non-integer '' @ name)))"

definition finite_decimals :: "fill \<Rightarrow> bool" where
  \<comment> \<open>what pydantic asks of a \<open>Decimal\<close> field\<close>
  "finite_decimals f \<longleftrightarrow> is_finite (fi_filled_fraction f) \<and> is_finite (fi_price_avg f)"

definition raw_fill_of_payload :: "int \<Rightarrow> (string, json) dict \<Rightarrow> (fill \<times> dec) result" where
  "raw_fill_of_payload sq p =
     rbind (money_field p ''filled_lamports'') (\<lambda>filled. rbind (money_field p ''filled_units'') (\<lambda>units.
     rbind (money_field p ''realised_slippage_bps'') (\<lambda>slip. rbind (money_field p ''venue_fee_lamports'') (\<lambda>venue.
     rbind (money_field p ''network_cost_lamports'') (\<lambda>network. rbind (money_field p ''cash_delta_lamports'') (\<lambda>_.
     rbind (rbind (field_value p ''filled_fraction'') dec_of_value) (\<lambda>fraction. rbind (at_least_one fraction) (\<lambda>whole.
     rbind (rbind (field_value p ''order_id'') py_str) (\<lambda>order. rbind (rbind (field_value p ''decision_id'') py_str) (\<lambda>decision.
     rbind (rbind (field_value p ''venue_tx_ref'') py_str) (\<lambda>tx. rbind (rbind (field_value p ''price_avg'') dec_of_value) (\<lambda>price.
     rbind (py_str (dict_get_default p ''route'' (JStr ''curve''))) (\<lambda>route.
     let f = \<lparr>fi_order_id = order, fi_decision_id = (if decision \<noteq> [] then decision else order),
         fi_status = (if whole then FILLED else PARTIAL), fi_venue_tx_ref = tx, fi_filled_lamports = filled, fi_filled_units = units,
         fi_filled_fraction = fraction, fi_price_avg = price, fi_slippage_bps = slip, fi_venue_fee = venue, fi_network_cost = network,
         fi_route = route, fi_seq = sq\<rparr> in
     rbind (rguard (finite_decimals f) (ValueError ''finite_number'')) (\<lambda>_. rbind (validate_fill f) (\<lambda>f'.
     rbind (dec_of_value (dict_get_default p ''latency_s'' (JStr ''0''))) (\<lambda>latency.
     Ok (if decision = [] then f'\<lparr>fi_decision_id := []\<rparr> else f', latency)))))))))))))))))"

definition fill_of_payload :: "int \<Rightarrow> (string, json) dict \<Rightarrow> (fill \<times> dec) result" where
  "fill_of_payload sq p = (case raw_fill_of_payload sq p of
       Inr x \<Rightarrow> Ok x
     | Inl (Unrepresentable w) \<Rightarrow> Err (Unrepresentable w)
     | Inl e \<Rightarrow> Err (config_error ''backtest ledger holds an unusable fill row''))"

definition is_fill :: "event \<Rightarrow> bool" where
  "is_fill e \<longleftrightarrow> e_type e = ''FillRecorded''"

definition fills_of_rows :: "event list \<Rightarrow> (fill list \<times> dec list) result" where
  "fills_of_rows rows = rbind (rmap (\<lambda>e. case e_payload e of JObj p \<Rightarrow> fill_of_payload (e_seq e) p
       | _ \<Rightarrow> Err (config_error ''backtest ledger holds a fill row without a payload mapping'')) (List.filter is_fill rows)) (\<lambda>pairs.
     Ok (map fst pairs, map snd pairs))"

definition rejection_fee :: "event \<Rightarrow> int result" where
  "rejection_fee e = (case e_payload e of
       JObj p \<Rightarrow> (case dict_get_default p ''fees_lamports'' (JInt 0) of
           JInt i \<Rightarrow> if i < 0 then Err (config_error ''backtest ledger holds a rejection row with unusable fees'') else Ok i
         | _ \<Rightarrow> Err (config_error ''backtest ledger holds a rejection row with unusable fees''))
     | _ \<Rightarrow> Err (config_error ''backtest ledger holds a rejection row without a payload mapping''))"

definition rejection_fees :: "event list \<Rightarrow> int result" where
  "rejection_fees rows = rbind (rmap rejection_fee (List.filter (\<lambda>e. e_type e = ''OrderRejected'') rows)) (\<lambda>fees. Ok (sum_list fees))"

definition row_stamp :: "event \<Rightarrow> rat result" where
  "row_stamp e = (case parse_ts_utc (e_ts e) of Inr t \<Rightarrow> Ok t
     | Inl _ \<Rightarrow> Err (config_error ''paper ledger holds a row with an unusable timestamp''))"


section \<open>Equity\<close>

fun window_curve :: "lstate \<Rightarrow> bool \<Rightarrow> event list \<Rightarrow> int list result" where
  \<comment> \<open>\<open>pending\<close>: a fill has begun whose point is not taken yet\<close>
  "window_curve state pending [] = Ok (if pending then [window_equity state] else [])"
| "window_curve state pending (e # es) =
     rbind (reduce state e) (\<lambda>state'. rbind (window_curve state' (if is_fill e then True else pending) es) (\<lambda>pts.
     Ok (if is_fill e \<and> pending then window_equity state # pts else pts)))"

definition SETTLEMENT_ROWS :: "string list" where
  "SETTLEMENT_ROWS = [''PositionOpened'', ''PositionClosed'']"

fun equity_points :: "lstate \<Rightarrow> bool \<Rightarrow> event list \<Rightarrow> int list result" where
  \<comment> \<open>the loop of \<open>_equity_path\<close>\<close>
  "equity_points state unsettled [] = Ok (if unsettled then [window_equity state] else [])"
| "equity_points state unsettled (e # es) =
     (let early = (if unsettled \<and> e_type e \<notin> set SETTLEMENT_ROWS then [window_equity state] else []) in
      rbind (reduce state e) (\<lambda>state'.
      rbind (equity_points state' (is_fill e) es) (\<lambda>pts.
      Ok (early @ (if is_fill e then [] else [window_equity state']) @ pts))))"

definition equity_path :: "lstate \<Rightarrow> event list \<Rightarrow> int list result" where
  "equity_path genesis rows = rbind (equity_points genesis False rows) (\<lambda>pts. Ok (window_equity genesis # pts))"

definition window_metrics :: "fill list \<Rightarrow> lstate \<Rightarrow> event list \<Rightarrow> dec \<Rightarrow> metrics_report result" where
  "window_metrics fills genesis rows elapsed_days =
     rbind (equity_path genesis rows) (\<lambda>path. let opening = hd path; closing = last path in
     rbind (window_curve genesis False rows) (\<lambda>curve.
     rbind (summarize fills \<lparr>mc_initial_equity = opening, mc_equity_curve = curve, mc_elapsed_days = elapsed_days\<rparr>) (\<lambda>report.
     rbind (if opening > 0 then dec_quotient (dec_of_int (closing - opening)) (dec_of_int opening) else Ok dec_zero) (\<lambda>total.
     rbind (max_drawdown opening path) (\<lambda>worst.
     Ok (report\<lparr>mr_total_return := total, mr_max_drawdown := worst\<rparr>))))))"

section \<open>The holdout\<close>

record holdout_outcome =
  ho_fills :: "fill list"
  ho_latencies :: "dec list"
  ho_window_metrics :: metrics_report
  ho_backtest_result :: shared_result
  ho_elapsed_days :: dec
  ho_data_start :: string
  ho_data_end :: string
  ho_window_start :: string
  ho_window_end :: string
  ho_window_end_ts :: rat
  ho_rejected_fees :: int

definition last_row_stamp :: "event list \<Rightarrow> rat result" where
  "last_row_stamp rows = (if rows = [] then Err (config_error ''backtest holdout ledger holds no rows'')
     else rbind (rmap row_stamp rows) (\<lambda>ts. Ok (highest ts)))"

definition window_end :: "rat \<Rightarrow> rat" where
  \<comment> \<open>\<open>math.nextafter(x, math.inf)\<close>\<close>
  "window_end x = (if x = 0 then 2 powi (- 1074) else if x > 0 then x + 2 powi fl_exp x
     else if \<bar>x\<bar> = 2 ^ 52 * 2 powi fl_exp x then x + 2 powi (fl_exp x - 1) else x + 2 powi fl_exp x)"

definition event_text :: "(string, json) dict \<Rightarrow> string" where
  "event_text e = (case map_of e ''ts_utc'' of Some (JStr t) \<Rightarrow> t | _ \<Rightarrow> [])"

definition window_span :: "(string, json) dict list \<Rightarrow> rat \<Rightarrow> (string \<times> rat \<times> rat) result" where
  "window_span es cutoff = rbind (rmap (\<lambda>e. rbind (event_epoch e) (\<lambda>t. Ok (t, event_text e))) es) (\<lambda>stamped.
     let points = List.filter (\<lambda>(t, s). t \<ge> cutoff) stamped in
     if points \<noteq> [] then Ok (snd (hd points), fst (hd points), fst (last points))
     else rbind (format_ts_utc cutoff) (\<lambda>t. Ok (t, cutoff, cutoff)))"

definition elapsed_days :: "rat \<Rightarrow> rat \<Rightarrow> dec result" where
  "elapsed_days first_stamp last_stamp = (if last_stamp > first_stamp
     then rbind (of_option (ArithmeticError ''InvalidOperation'') (dec_of_str (float_text last_stamp))) (\<lambda>b.
       rbind (of_option (ArithmeticError ''InvalidOperation'') (dec_of_str (float_text first_stamp))) (\<lambda>a.
       dec_quotient (dec_sub b a) (dec_of_int 86400)))
     else Ok dec_zero)"

definition meta_int :: "string option \<Rightarrow> int \<Rightarrow> int result" where
  "meta_int m fallback = (case m of None \<Rightarrow> Ok fallback
     | Some s \<Rightarrow> of_option (ValueError ''invalid literal for int()'') (int_of_str s))"

definition evaluate_holdout :: "(string \<Rightarrow> string) \<Rightarrow> string \<Rightarrow> (string, json) dict list \<Rightarrow> rat list \<Rightarrow> split_view \<Rightarrow> string \<Rightarrow> store \<Rightarrow> int
    \<Rightarrow> holdout_outcome result" where
  "evaluate_holdout H name es stamps split run holdout fallback = (let cutoff = hs_holdout_start split in
     rbind (fold_windows stamps name 3) (\<lambda>ws.
     rbind (rguard (ew_id (fw_holdout ws) = hs_holdout_id split) (config_error ''backtest holdout window identity drifted'')) (\<lambda>_.
     rbind (read_window_ledger H False holdout) (\<lambda>(rows, m).
     rbind (last_row_stamp rows) (\<lambda>last_stamp. let end_ts = window_end last_stamp in
     rbind (fills_of_rows rows) (\<lambda>(fills, latencies).
     rbind (meta_int m fallback) (\<lambda>initial. let genesis = initial_state ''backtest'' initial [] in
     rbind (window_span es cutoff) (\<lambda>(start_text, first_ts, last_ts).
     rbind (elapsed_days first_ts last_ts) (\<lambda>days.
     rbind (window_metrics fills genesis rows days) (\<lambda>report.
     rbind (result_of_fills run name cutoff end_ts fills latencies) (\<lambda>shared.
     rbind (format_ts_utc last_stamp) (\<lambda>end_text. rbind (rejection_fees rows) (\<lambda>fees.
     Ok \<lparr>ho_fills = fills, ho_latencies = latencies, ho_window_metrics = report, ho_backtest_result = shared, ho_elapsed_days = days,
       ho_data_start = event_text (hd es), ho_data_end = event_text (last es), ho_window_start = start_text,
       ho_window_end = end_text, ho_window_end_ts = end_ts, ho_rejected_fees = fees\<rparr>)))))))))))))"

section \<open>The paper gate\<close>

record paper_outcome =
  po_paper_metrics :: "metrics_report option"
  po_divergence_reasons :: "string list"
  po_promotion_eligible :: bool
  po_reasons :: "string list"
  po_exit_code :: int

fun paper_window :: "rat \<Rightarrow> rat \<Rightarrow> lstate \<Rightarrow> event list \<Rightarrow> event list \<Rightarrow> (lstate \<times> event list) result" where
  \<comment> \<open>the loop over the paper rows: the opening state and the window's rows so far\<close>
  "paper_window cutoff end_ts opening kept [] = Ok (opening, kept)"
| "paper_window cutoff end_ts opening kept (e # es) =
     rbind (row_stamp e) (\<lambda>stamp.
     if stamp < cutoff then rbind (reduce opening e) (\<lambda>opening'. paper_window cutoff end_ts opening' kept es)
     else paper_window cutoff end_ts opening (if stamp < end_ts then kept @ [e] else kept) es)"

definition paper_evidence :: "(string \<Rightarrow> string) \<Rightarrow> store \<Rightarrow> string \<Rightarrow> string \<Rightarrow> rat \<Rightarrow> rat \<Rightarrow> dec \<Rightarrow> int \<Rightarrow> (metrics_report \<times> shared_result) result" where
  "paper_evidence H paper name run cutoff end_ts days fallback =
     rbind (read_window_ledger H True paper) (\<lambda>(rows, m). rbind (meta_int m fallback) (\<lambda>initial.
     rbind (paper_window cutoff end_ts (initial_state ''backtest'' initial []) [] rows) (\<lambda>(opening, kept).
     rbind (fills_of_rows kept) (\<lambda>(fills, _).
     rbind (window_metrics fills opening kept days) (\<lambda>report.
     rbind (result_of_rows run name cutoff end_ts rows) (\<lambda>shared. Ok (report, shared)))))))"

definition verdict_outcome :: "divergence_verdict \<Rightarrow> metrics_report \<Rightarrow> bool \<Rightarrow> paper_outcome result" where
  "verdict_outcome v report eligible =
     (if dv_blocks_promotion v
      then (case breach_line v of
          None \<Rightarrow> Err (config_error ''divergence verdict blocks without a breach line'')
        | Some _ \<Rightarrow> Ok \<lparr>po_paper_metrics = Some report, po_divergence_reasons = dv_reasons v, po_promotion_eligible = False,
            po_reasons = [''divergence breach: '' @ joined_by ''|'' (dv_reasons v)], po_exit_code = enforce_divergence v\<rparr>)
      else if eligible
      then Ok \<lparr>po_paper_metrics = Some report, po_divergence_reasons = dv_reasons v, po_promotion_eligible = True,
          po_reasons = [''trial count within limit and paper divergence within D7 defaults''], po_exit_code = 0\<rparr>
      else Ok \<lparr>po_paper_metrics = Some report, po_divergence_reasons = dv_reasons v, po_promotion_eligible = False, po_reasons = [], po_exit_code = 0\<rparr>)"

definition paper_gate :: "(string \<Rightarrow> string) \<Rightarrow> store option \<Rightarrow> string \<Rightarrow> string \<Rightarrow> rat \<Rightarrow> rat \<Rightarrow> dec \<Rightarrow> int \<Rightarrow> shared_result \<Rightarrow> metrics_report \<Rightarrow> bool
    \<Rightarrow> paper_outcome result" where
  \<comment> \<open>of the ledger at the path, None where no path is given\<close>
  "paper_gate H paper name run cutoff end_ts days fallback backtest report eligible = (case paper of
       None \<Rightarrow> Ok \<lparr>po_paper_metrics = None, po_divergence_reasons = [], po_promotion_eligible = False,
         po_reasons = [''divergence not compared''], po_exit_code = 0\<rparr>
     | Some st \<Rightarrow> rbind (paper_evidence H st name run cutoff end_ts days fallback) (\<lambda>(paper_report, paper_result).
         rbind (compare_results backtest paper_result) (\<lambda>_.
         verdict_outcome (check_divergence report paper_report) paper_report eligible)))"

end
