(* ===== verification/Upgrade.thy ===== *)
theory Upgrade
  imports WindowReport
begin

text \<open>
  Promotion of a parameter set: the version-controlled bounds (\<open>upgrade/bounds.py\<close>), the declared search
  space (\<open>upgrade/space.py\<close>), the gate (\<open>upgrade/gate.py\<close>), escalation, evidence and rollback
  (\<open>upgrade/escalate.py\<close>, \<open>upgrade/evidence.py\<close>, \<open>upgrade/rollback.py\<close>), and the scheduled check
  (\<open>upgrade/scheduled.py\<close>, \<open>cli/promotion.py\<close>). A TOML file is the table its reader returns. The evidence
  directory is its files by name. Texts that quote an offending value are shortened.
\<close>

section \<open>Bounds\<close>

record key_bound =
  kb_min :: knob
  kb_max :: knob

record bounds =
  bd_filter :: "(string, key_bound) dict"
  bd_exits :: "(string, key_bound) dict"

definition is_bool :: "knob \<Rightarrow> bool" where
  "is_bool k = (case k of KBool _ \<Rightarrow> True | _ \<Rightarrow> False)"

definition knob_number :: "knob \<Rightarrow> rat option" where
  \<comment> \<open>an int or a float, no bool\<close>
  "knob_number k = (case k of KInt i \<Rightarrow> Some (of_int i) | KFloat x \<Rightarrow> Some x | _ \<Rightarrow> None)"

definition bounds_error :: "string \<Rightarrow> string \<Rightarrow> string \<Rightarrow> err" where
  "bounds_error area key what = ValueError (''bounds '' @ area @ ''.'' @ key @ '': '' @ what)"

definition parse_key_bound :: "string \<Rightarrow> string \<Rightarrow> knob \<Rightarrow> key_bound result" where
  "parse_key_bound area key raw = (case raw of
       KTable kvs \<Rightarrow> (case (map_of kvs ''min'', map_of kvs ''max'') of
           (Some lo, Some hi) \<Rightarrow>
             if is_bool lo \<or> is_bool hi
             then if is_bool lo \<and> is_bool hi then Ok \<lparr>kb_min = lo, kb_max = hi\<rparr>
                  else Err (bounds_error area key ''min and max must match in type'')
             else (case (knob_number lo, knob_number hi) of
                 (Some a, Some b) \<Rightarrow> if a > b then Err (bounds_error area key ''min is above max'')
                   else Ok \<lparr>kb_min = lo, kb_max = hi\<rparr>
               | _ \<Rightarrow> Err (bounds_error area key ''min and max must be numbers''))
         | _ \<Rightarrow> Err (bounds_error area key ''entry must name min and max''))
     | _ \<Rightarrow> Err (bounds_error area key ''entry must be a table with min and max''))"

definition parse_section :: "knob option \<Rightarrow> string \<Rightarrow> (string, key_bound) dict result" where
  "parse_section raw area = (case raw of
       Some (KTable kvs) \<Rightarrow> rmap (\<lambda>(key, x). rbind (parse_key_bound area key x) (\<lambda>b. Ok (key, b))) kvs
     | _ \<Rightarrow> Err (ValueError (''bounds: missing '' @ area @ '' range table'')))"

definition load_bounds :: "(string \<times> knob) list \<Rightarrow> bounds result" where
  "load_bounds raw = rbind (parse_section (map_of raw ''filter'') ''filter'') (\<lambda>f.
     rbind (parse_section (map_of raw ''exits'') ''exits'') (\<lambda>x. Ok \<lparr>bd_filter = f, bd_exits = x\<rparr>))"

definition out_of_bounds :: "string \<Rightarrow> string \<Rightarrow> string \<Rightarrow> err" where
  "out_of_bounds area key what = PumpgrokError ''out_of_bounds'' (''out of bounds: '' @ area @ ''.'' @ key @ what)"

definition check_bound :: "string \<Rightarrow> (string, key_bound) dict \<Rightarrow> string \<times> knob \<Rightarrow> unit result" where
  "check_bound area section_bounds kv = (case kv of (key, v) \<Rightarrow> (case map_of section_bounds key of
       None \<Rightarrow> Err (PumpgrokError ''out_of_bounds'' (''no bound for '' @ area @ ''.'' @ key))
     | Some b \<Rightarrow>
         if is_bool (kb_min b) then rguard (is_bool v) (out_of_bounds area key '' must be a bool'')
         else (case (knob_number v, knob_number (kb_min b), knob_number (kb_max b)) of
             (Some x, Some lo, Some hi) \<Rightarrow> rguard (\<not> (x < lo \<or> x > hi)) (out_of_bounds area key '' outside the range'')
           | _ \<Rightarrow> Err (out_of_bounds area key '' must be a number''))))"

definition check_section :: "string \<Rightarrow> (string \<times> knob) list option \<Rightarrow> (string, key_bound) dict \<Rightarrow> unit result" where
  "check_section area mapping section_bounds =
     rbind (rmap (check_bound area section_bounds) (case mapping of None \<Rightarrow> [] | Some m \<Rightarrow> m)) (\<lambda>_. Ok ())"

definition validate_against_bounds :: "param_set \<Rightarrow> bounds \<Rightarrow> unit result" where
  "validate_against_bounds ps b = rbind (check_section ''filter'' (ps_filter ps) (bd_filter b)) (\<lambda>_.
     check_section ''exits'' (ps_exits ps) (bd_exits b))"

section \<open>The declared space\<close>

definition MAX_DECLARED_CANDIDATES :: nat where "MAX_DECLARED_CANDIDATES = 20"

definition declared_space_error :: "string \<Rightarrow> err" where
  "declared_space_error what = PumpgrokError ''declared_space'' what"

fun check_leaf :: "nat \<Rightarrow> string \<Rightarrow> knob \<Rightarrow> unit result"
  and check_leaf_list :: "nat \<Rightarrow> string \<Rightarrow> knob list \<Rightarrow> unit result"
  and check_leaf_table :: "nat \<Rightarrow> string \<Rightarrow> (string \<times> knob) list \<Rightarrow> unit result" where
  "check_leaf i path (KTable kvs) = check_leaf_table i path kvs"
| "check_leaf i path (KList vs) = check_leaf_list i path vs"
| "check_leaf i path (KFloat x) = Err (declared_space_error (''candidate '' @ nat_str i @ '': '' @ path @ '' holds float''))"
| "check_leaf i path (KOther ty) = Err (declared_space_error (''candidate '' @ nat_str i @ '': '' @ path @ '' holds '' @ ty))"
| "check_leaf i path k = Ok ()"
| "check_leaf_list i path [] = Ok ()"
| "check_leaf_list i path (v # vs) = rbind (check_leaf i path v) (\<lambda>_. check_leaf_list i path vs)"
| "check_leaf_table i path [] = Ok ()"
| "check_leaf_table i path ((k, v) # kvs) = rbind (check_leaf i (path @ ''.'' @ k) v) (\<lambda>_. check_leaf_table i path kvs)"

definition declared_table :: "nat \<Rightarrow> (string \<times> knob) list \<Rightarrow> string \<Rightarrow> (string \<times> knob) list result" where
  \<comment> \<open>the entry of one table key, as a list of at most one item\<close>
  "declared_table i entry key = (case map_of entry key of
       None \<Rightarrow> Ok []
     | Some (KTable m) \<Rightarrow> rbind (check_leaf i key (KTable m)) (\<lambda>_. Ok [(key, KTable m)])
     | Some _ \<Rightarrow> Err (declared_space_error (''candidate '' @ nat_str i @ '': '' @ key @ '' must be a table'')))"

definition parse_candidate :: "coercion \<Rightarrow> bounds \<Rightarrow> nat \<times> knob \<Rightarrow> (string \<times> knob) list result" where
  "parse_candidate coerce b indexed = (case indexed of (i, KTable entry) \<Rightarrow>
       rbind (rguard (fst ` set entry \<subseteq> {''filter'', ''exits''}) (declared_space_error (''candidate '' @ nat_str i @ '': unknown keys''))) (\<lambda>_.
       rbind (declared_table i entry ''filter'') (\<lambda>f. rbind (declared_table i entry ''exits'') (\<lambda>x.
       (case param_set_of coerce (f @ x) of
          Inl e \<Rightarrow> if undecodable e then Err (declared_space_error (''candidate '' @ nat_str i @ '': not a valid parameter set'')) else Err e
        | Inr ps \<Rightarrow> rbind (validate_against_bounds ps b) (\<lambda>_. Ok (f @ x))))))
     | (i, _) \<Rightarrow> Err (declared_space_error (''candidate '' @ nat_str i @ '': must be a table'')))"

definition load_declared_space :: "coercion \<Rightarrow> (string \<times> knob) list \<Rightarrow> (string \<times> knob) list \<Rightarrow> (string \<times> knob) list list result" where
  \<comment> \<open>of the tables of the space file and of the bounds file\<close>
  "load_declared_space coerce raw bounds_table =
     rbind (rguard (fst ` set raw \<subseteq> {''candidate''}) (declared_space_error ''unknown top-level keys'')) (\<lambda>_.
     case (case map_of raw ''candidate'' of None \<Rightarrow> KList [] | Some k \<Rightarrow> k) of
       KList entries \<Rightarrow>
         if length entries > MAX_DECLARED_CANDIDATES
         then Err (declared_space_error (nat_str (length entries) @ '' candidates declared; at most 20 are allowed''))
         else rbind (load_bounds bounds_table) (\<lambda>b. rmap (parse_candidate coerce b) (List.enumerate 0 entries))
     | _ \<Rightarrow> Err (declared_space_error ''candidate must be an array of tables''))"

section \<open>The gate\<close>

definition REQUIRED_AUTONOMY_LEVEL :: string where "REQUIRED_AUTONOMY_LEVEL = ''autonomous-paper''"

record gate_verdict =
  gv_eligible :: bool
  gv_reason :: string
  gv_detail :: string

definition blocked :: "string \<Rightarrow> string \<Rightarrow> gate_verdict" where
  "blocked reason detail = \<lparr>gv_eligible = False, gv_reason = reason, gv_detail = detail\<rparr>"

definition err_text :: "err \<Rightarrow> string" where
  "err_text e = (case e of PumpgrokError c m \<Rightarrow> m | ValueError m \<Rightarrow> m | _ \<Rightarrow> [])"

definition is_out_of_bounds :: "err \<Rightarrow> bool" where
  "is_out_of_bounds e = (case e of PumpgrokError c m \<Rightarrow> c = ''out_of_bounds'' | _ \<Rightarrow> False)"

definition too_many_trials_text :: "int \<Rightarrow> string" where
  "too_many_trials_text n = ''trial_count '' @ int_str n @ '' passes the '' @ int_str MAX_ELIGIBLE_TRIALS
     @ '' eligible-trial limit (ledger refuses past '' @ int_str MAX_ALLOWED_TRIALS @ '')''"

definition quoted :: "string \<Rightarrow> string" where
  \<comment> \<open>\<open>repr\<close> of a string without quotes or escapes, as every level is\<close>
  "quoted s = CHR 0x27 # s @ [CHR 0x27]"

definition gate_inputs :: "(string \<Rightarrow> string) \<Rightarrow> param_set \<Rightarrow> harness_result \<Rightarrow> string \<Rightarrow> string result" where
  \<comment> \<open>the inputs must describe one candidate; its hash\<close>
  "gate_inputs H ps search run =
     rbind (rguard (run \<noteq> []) (ValueError ''run_id must be a non-empty backtest run id'')) (\<lambda>_.
     rbind (content_hash H ps) (\<lambda>h.
     rbind (rguard (h = hr_best_params_hash search) (ValueError ''candidate hash does not match the search winner: gate inputs must describe one candidate'')) (\<lambda>_.
     rbind (rguard (1 \<le> hr_trial_count search) (ValueError (''trial_count must be at least 1, found '' @ int_str (hr_trial_count search)))) (\<lambda>_. Ok h))))"

definition gate_after_bounds :: "string \<Rightarrow> harness_result \<Rightarrow> string \<Rightarrow> store \<Rightarrow> metrics_report \<Rightarrow> metrics_report \<Rightarrow> gate_verdict result" where
  "gate_after_bounds h search run st backtest paper =
     (if hr_trial_count search > MAX_ELIGIBLE_TRIALS \<or> hr_trial_count search > MAX_ALLOWED_TRIALS \<or> \<not> hr_eligible search
      then Ok (blocked ''too_many_trials'' (too_many_trials_text (hr_trial_count search)))
      else rbind (read_autonomy st) (\<lambda>level.
        if level \<noteq> REQUIRED_AUTONOMY_LEVEL
        then Ok (blocked ''below_autonomy_level'' (''autonomy level '' @ quoted level @ '' is below the required '' @ quoted REQUIRED_AUTONOMY_LEVEL
          @ ''; manual-ticket never upgrades''))
        else if hr_holdout_net search \<le> 0
        then Ok (blocked ''holdout_failed'' (''holdout '' @ hr_holdout_id search @ '' net '' @ int_str (hr_holdout_net search)
          @ '' lamports shows no measured edge on the unseen window''))
        else let v = check_divergence backtest paper in
          if dv_blocks_promotion v
          then Ok (blocked ''divergence_breach'' (case breach_line v of Some l \<Rightarrow> l | None \<Rightarrow> ''divergence blocks promotion''))
          else Ok \<lparr>gv_eligible = True, gv_reason = ''pass'',
            gv_detail = ''candidate '' @ h @ '' eligible via run '' @ run @ '' holdout '' @ hr_holdout_id search\<rparr>))"

definition evaluate_gate :: "(string \<Rightarrow> string) \<Rightarrow> param_set \<Rightarrow> bounds \<Rightarrow> harness_result \<Rightarrow> string \<Rightarrow> store \<Rightarrow> metrics_report \<Rightarrow> metrics_report
    \<Rightarrow> gate_verdict result" where
  \<comment> \<open>\<open>evaluate_candidate\<close>\<close>
  "evaluate_gate H ps b search run st backtest paper =
     rbind (gate_inputs H ps search run) (\<lambda>h. case validate_against_bounds ps b of
         Inl e \<Rightarrow> if is_out_of_bounds e then Ok (blocked ''out_of_bounds'' (err_text e)) else Err e
       | Inr _ \<Rightarrow> gate_after_bounds h search run st backtest paper)"


section \<open>Escalation\<close>

record promotion_world =
  \<comment> \<open>the operator ledger and the evidence files, by name\<close>
  pw_store :: store
  pw_evidence :: "(string, string) dict"

definition in_store :: "(store \<Rightarrow> 'a result \<times> store) \<Rightarrow> (promotion_world, 'a) eff" where
  "in_store m w = (case m (pw_store w) of (r, st) \<Rightarrow> (r, w\<lparr>pw_store := st\<rparr>))"

definition escalation_detail_text :: "string \<Rightarrow> string \<Rightarrow> string \<Rightarrow> string" where
  "escalation_detail_text h reason detail = ''candidate '' @ h @ '' blocked: '' @ reason @ '' ('' @ detail @ '')''"

definition escalation_note_text :: "string \<Rightarrow> string \<Rightarrow> string \<Rightarrow> string" where
  "escalation_note_text h reason detail = ''upgrade decision requested for '' @ h @ '': blocked by '' @ reason @ '' ('' @ detail @ '')''"

definition escalation_rows :: "gate_verdict \<Rightarrow> string \<Rightarrow> string \<Rightarrow> string \<Rightarrow> string \<Rightarrow> (string, pyval) dict list" where
  "escalation_rows v h ts source cid =
     [[(''ts_utc'', PStr ts), (''source'', PStr source), (''correlation_id'', PStr cid),
       (''idempotency_key'', PStr (''upgrade-escalation|'' @ h @ ''|'' @ ts)), (''type'', PStr ''Escalation''),
       (''payload'', PDict [(''source'', PStr source), (''kind'', PStr ''upgrade_blocked''), (''seat'', PStr ''desk''),
          (''detail'', PStr (escalation_detail_text h (gv_reason v) (gv_detail v)))])],
      desk_note_row ts source cid (''upgrade-escalation-note|'' @ h @ ''|'' @ ts) (escalation_note_text h (gv_reason v) (gv_detail v))]"

definition escalate_candidate :: "(string \<Rightarrow> string) \<Rightarrow> gate_verdict \<Rightarrow> string \<Rightarrow> string \<Rightarrow> string \<Rightarrow> string \<Rightarrow> (promotion_world, string) eff" where
  "escalate_candidate H v h ts source cid =
     bind (lift (rguard (hash_pattern h) (ValueError ''candidate_hash must be a 64-hex content hash''))) (\<lambda>_.
     bind (lift (rguard (\<not> (gv_eligible v \<or> gv_reason v = ''pass'')) (ValueError ''verdict is eligible: nothing to escalate''))) (\<lambda>_.
     bind (in_store (\<lambda>st. append_batch H st (escalation_rows v h ts source cid))) (\<lambda>_. ret (gv_reason v))))"

section \<open>Evidence\<close>

definition raw_char :: "char \<Rightarrow> string" where
  \<comment> \<open>a character in a string of \<open>json.dumps(..., ensure_ascii=False)\<close>\<close>
  "raw_char c = (if (of_char c :: nat) < 127 then escape_char c else [c])"

definition print_raw :: "string \<Rightarrow> string" where
  "print_raw s = CHR 0x22 # concat (map raw_char s) @ [CHR 0x22]"

fun indented_raw :: "nat \<Rightarrow> json \<Rightarrow> string"
  and indented_raw_list :: "nat \<Rightarrow> json list \<Rightarrow> string"
  and indented_raw_items :: "nat \<Rightarrow> (string \<times> json) list \<Rightarrow> string" where
  \<comment> \<open>\<open>json.dumps(..., ensure_ascii=False, indent=2)\<close>\<close>
  "indented_raw n (JStr s) = print_raw s"
| "indented_raw n (JArr vs) = (if vs = [] then ''[]'' else CHR ''['' # indented_raw_list (Suc n) vs @ new_line n @ '']'')"
| "indented_raw n (JObj kvs) = (if kvs = [] then ''{}'' else CHR ''{'' # indented_raw_items (Suc n) kvs @ new_line n @ ''}'')"
| "indented_raw n j = json_print j"
| "indented_raw_list n [] = []"
| "indented_raw_list n (v # vs) = new_line n @ indented_raw n v @ (if vs = [] then [] else '','') @ indented_raw_list n vs"
| "indented_raw_items n [] = []"
| "indented_raw_items n ((k, v) # kvs) = new_line n @ print_raw k @ '': '' @ indented_raw n v @ (if kvs = [] then [] else '','')
     @ indented_raw_items n kvs"

definition section_snapshot :: "(string, key_bound) dict \<Rightarrow> json result" where
  "section_snapshot b = rbind (rmap (\<lambda>(key, x). rbind (json_of_knob (kb_min x)) (\<lambda>lo. rbind (json_of_knob (kb_max x)) (\<lambda>hi.
     Ok (key, JArr [lo, hi])))) (sort_key fst b)) (\<lambda>kvs. Ok (JObj kvs))"

definition bounds_snapshot :: "bounds \<Rightarrow> json result" where
  "bounds_snapshot b = rbind (section_snapshot (bd_filter b)) (\<lambda>f. rbind (section_snapshot (bd_exits b)) (\<lambda>x.
     Ok (JObj [(''filter'', f), (''exits'', x)])))"

definition promotion_note_text :: "string \<Rightarrow> string \<Rightarrow> string" where
  "promotion_note_text h name = ''promotion evidence '' @ h @ '' recorded at '' @ name"

definition manifest_name :: "string \<Rightarrow> string" where
  "manifest_name h = h @ ''.json''"

definition evidence_bytes :: "string \<Rightarrow> string \<Rightarrow> string \<Rightarrow> divergence_verdict \<Rightarrow> int \<Rightarrow> bounds \<Rightarrow> string result" where
  "evidence_bytes h run holdout v trials b = rbind (bounds_snapshot b) (\<lambda>snap.
     Ok (indented_raw 0 (JObj [(''bounds_snapshot'', snap), (''candidate_hash'', JStr h),
       (''divergence'', JObj [(''blocks_promotion'', JBool (dv_blocks_promotion v)), (''reasons'', JArr (map JStr (dv_reasons v))),
          (''return_gap_pp'', JFloat (float_text (dv_return_gap_pp v))), (''sharpe_gap'', JFloat (float_text (dv_sharpe_gap v)))]),
       (''holdout_id'', JStr holdout), (''run_id'', JStr run), (''trial_count'', JInt trials)])))"

definition create_exclusive :: "string \<Rightarrow> string \<Rightarrow> (promotion_world, unit) eff" where
  \<comment> \<open>publish by a hard link; a name already there keeps its bytes, and must hold the same ones\<close>
  "create_exclusive name data w = (case map_of (pw_evidence w) name of
       None \<Rightarrow> (Ok (), w\<lparr>pw_evidence := dict_set (pw_evidence w) name data\<rparr>)
     | Some old \<Rightarrow> if old \<noteq> data
         then (Err (PumpgrokError ''promotion_evidence_conflict'' (''promotion evidence already recorded at '' @ name)), w) else (Ok (), w))"

definition evidence_entry :: "string \<Rightarrow> string \<Rightarrow> string \<Rightarrow> string \<Rightarrow> entry" where
  "evidence_entry h ts source cid = \<lparr>x_ts = ts, x_source = source, x_cid = cid, x_key = ''promotion-evidence|'' @ h @ ''|'' @ ts,
     x_type = ''JournalNote'', x_payload = [(''source'', PStr source), (''seat'', PStr ''desk''), (''note_kind'', PStr ''note''),
       (''text'', PStr (promotion_note_text h (manifest_name h))), (''refs'', PList [])]\<rparr>"

definition record_promotion :: "(string \<Rightarrow> string) \<Rightarrow> string \<Rightarrow> string \<Rightarrow> string \<Rightarrow> divergence_verdict \<Rightarrow> int \<Rightarrow> bounds \<Rightarrow> string \<Rightarrow> string \<Rightarrow> string
    \<Rightarrow> (promotion_world, string) eff" where
  "record_promotion H h run holdout v trials b ts source cid =
     bind (lift (rguard (hash_pattern h) (ValueError ''candidate_hash must be a 64-hex content hash''))) (\<lambda>_.
     bind (lift (rguard (run \<noteq> []) (ValueError ''run_id must be a non-empty backtest run id''))) (\<lambda>_.
     bind (lift (rguard (holdout \<noteq> []) (ValueError ''holdout_id must be a non-empty holdout id''))) (\<lambda>_.
     bind (lift (rguard (1 \<le> trials) (ValueError (''trial_count must be at least 1, found '' @ int_str trials)))) (\<lambda>_.
     bind (lift (evidence_bytes h run holdout v trials b)) (\<lambda>data.
     bind (create_exclusive (manifest_name h) data) (\<lambda>_.
     bind (in_store (\<lambda>st. append H st (evidence_entry h ts source cid))) (\<lambda>_. ret (manifest_name h))))))))"

section \<open>Rollback\<close>

definition rollback_note_text :: "string \<Rightarrow> string \<Rightarrow> string" where
  "rollback_note_text prior source = ''rollback active_param_set '' @ prior @ '' from '' @ source"

definition rollback_rows :: "string \<Rightarrow> string \<Rightarrow> string \<Rightarrow> string \<Rightarrow> string \<Rightarrow> string \<Rightarrow> (string, pyval) dict list" where
  "rollback_rows prior signer previous ts source cid =
     [config_row ts source cid (''rollback-active-param-set|'' @ prior @ ''|'' @ ts) signer ACTIVE_SET_KEY previous prior,
      desk_note_row ts source cid (''rollback-active-param-set-note|'' @ prior @ ''|'' @ ts) (rollback_note_text prior source)]"

definition restore_active_set :: "(string \<Rightarrow> string) \<Rightarrow> coercion \<Rightarrow> store \<Rightarrow> string \<Rightarrow> string \<Rightarrow> string \<Rightarrow> string \<Rightarrow> string \<Rightarrow> string result \<times> store" where
  "restore_active_set H coerce st prior signer ts source cid =
     (case rbind (rguard (hash_pattern prior) (ValueError ''prior_hash must be a 64-hex content hash'')) (\<lambda>_.
           rbind (rguard (is_writer (Some (JStr signer))) (ValueError ''restore needs a human: or gate: writer'')) (\<lambda>_.
           rbind (verify_stored_content H coerce st prior) (\<lambda>_. read_active_set st))) of
        Inl e \<Rightarrow> (Err e, st)
      | Inr previous \<Rightarrow>
          (case append_batch H st (rollback_rows prior signer (case previous of None \<Rightarrow> [] | Some p \<Rightarrow> p) ts source cid) of
             (Inl e, st') \<Rightarrow> (Err e, st') | (Inr _, st') \<Rightarrow> (Ok prior, st')))"

section \<open>The scheduled check\<close>

definition PROMOTION_CHECK_INTERVAL_S :: rat where "PROMOTION_CHECK_INTERVAL_S = 3600"
definition LAST_CHECK_META_KEY :: string where "LAST_CHECK_META_KEY = ''promotion_check_last_s''"

definition apply_candidate :: "(string \<Rightarrow> string) \<Rightarrow> coercion \<Rightarrow> gate_verdict \<Rightarrow> string \<Rightarrow> string \<Rightarrow> string \<Rightarrow> divergence_verdict \<Rightarrow> int \<Rightarrow> bounds
    \<Rightarrow> param_set \<Rightarrow> string \<Rightarrow> string \<Rightarrow> string \<Rightarrow> string \<Rightarrow> (promotion_world, string) eff" where
  "apply_candidate H coerce v h run holdout divergence trials b ps signer ts source cid =
     bind (lift (rbind (content_hash H ps) (\<lambda>h'. rguard (h' = h) (ValueError ''param_set does not match candidate_hash: one candidate per check'')))) (\<lambda>_.
     if \<not> gv_eligible v then bind (escalate_candidate H v h ts source cid) (\<lambda>_. ret ''escalated'')
     else bind (record_promotion H h run holdout divergence trials b ts source cid) (\<lambda>_.
       bind (in_store (\<lambda>st. record_active_set H coerce st ps signer ts source cid)) (\<lambda>_. ret ''promoted'')))"

definition promotion_due :: "store \<Rightarrow> rat \<Rightarrow> rat \<Rightarrow> bool" where
  \<comment> \<open>\<open>due\<close>; \<open>float(raw)\<close> reads what \<open>Decimal(raw)\<close> does\<close>
  "promotion_due st now interval = (case get_meta st LAST_CHECK_META_KEY None of
       None \<Rightarrow> True
     | Some raw \<Rightarrow> (case dec_of_str raw of
           None \<Rightarrow> True
         | Some d \<Rightarrow> if \<not> is_finite d then True else fl (now - fl (dec_val d)) \<ge> interval))"

definition mark_check :: "rat \<Rightarrow> store \<Rightarrow> store" where
  "mark_check now st = set_meta st LAST_CHECK_META_KEY (float_text now)"

section \<open>The check over a declared space\<close>

definition entry_hash :: "(string \<Rightarrow> string) \<Rightarrow> coercion \<Rightarrow> (string \<times> knob) list \<Rightarrow> string result" where
  "entry_hash H coerce kvs = rbind (canonical_json (py_of_table kvs)) (param_set_hash H coerce)"

definition canonical_space :: "(string \<Rightarrow> string) \<Rightarrow> coercion \<Rightarrow> (string \<times> knob) list list \<Rightarrow> (string \<times> knob) list list result" where
  "canonical_space H coerce space = rbind (rmap (\<lambda>kvs. rbind (entry_hash H coerce kvs) (\<lambda>h. Ok (h, kvs))) space) (\<lambda>pairs.
     let by_hash = foldl (\<lambda>d (h, kvs). dict_set d h kvs) [] pairs in Ok (map snd (sort_key fst by_hash)))"

definition declared_space_identity :: "(string \<Rightarrow> string) \<Rightarrow> coercion \<Rightarrow> (string \<times> knob) list list \<Rightarrow> string result" where
  "declared_space_identity H coerce space = rbind (canonical_space H coerce space) (\<lambda>es.
     rbind (rmap (entry_hash H coerce) es) (\<lambda>hs.
     rbind (canonical_json [(''entry_hashes'', PList (map PStr hs))]) (\<lambda>t. Ok (H t))))"

definition declared_params :: "(string \<Rightarrow> string) \<Rightarrow> coercion \<Rightarrow> (string \<times> knob) list list \<Rightarrow> (string, param_set) dict result" where
  "declared_params H coerce space = rbind (rmap (\<lambda>kvs. rbind (param_set_of coerce kvs) (\<lambda>ps. rbind (content_hash H ps) (\<lambda>h. Ok (h, ps)))) space)
     (\<lambda>pairs. Ok (foldl (\<lambda>d (h, ps). dict_set d h ps) [] pairs))"

definition paper_window_complete :: "(string \<Rightarrow> string) \<Rightarrow> store \<Rightarrow> rat \<Rightarrow> rat \<Rightarrow> bool result" where
  "paper_window_complete H paper cutoff end_ts =
     rbind (read_window_ledger H True paper) (\<lambda>(rows, m). rbind (rmap row_stamp rows) (\<lambda>stamps.
     Ok (list_ex (\<lambda>t. t \<ge> end_ts) stamps \<and> list_ex (\<lambda>t. cutoff \<le> t \<and> t < end_ts) stamps)))"

definition CHECK_BY :: string where "CHECK_BY = ''gate:promotion-check''"
definition CHECK_SOURCE :: string where "CHECK_SOURCE = ''paper''"
definition CHECK_CORRELATION_ID :: string where "CHECK_CORRELATION_ID = ''upgrade-promotion-check''"

record 'b check_setup =
  \<comment> \<open>what one scheduled check is given: the dataset, the space and the run's settings; the dumps of limits and
     budget and the code version enter the run's identity, the table is that of the bounds file\<close>
  ck_name :: string
  ck_ref :: string
  ck_dir :: directory
  ck_space :: "(string \<times> knob) list list"
  ck_seed :: int
  ck_initial_equity :: int
  ck_limits :: 'b
  ck_limits_json :: json
  ck_budget_json :: json
  ck_code_version :: string
  ck_bounds_table :: "(string \<times> knob) list"

record check_evidence =
  \<comment> \<open>what a check knows when it asks the gate\<close>
  ce_winner :: param_set
  ce_search :: harness_result
  ce_split :: split_view
  ce_run_id :: string
  ce_outcome :: holdout_outcome
  ce_paper :: metrics_report
  ce_bounds :: bounds

definition check_search :: "(string \<Rightarrow> string) \<Rightarrow> coercion \<Rightarrow> 'b replay_run \<Rightarrow> 'b check_setup
    \<Rightarrow> (param_set \<times> harness_result \<times> split_view \<times> string) result" where
  \<comment> \<open>the search on a fresh trial file, and its winner as declared\<close>
  "check_search H coerce replay k =
     rbind (declared_params H coerce (ck_space k)) (\<lambda>declared. rbind (canonical_space H coerce (ck_space k)) (\<lambda>ordered.
     rbind (declared_space_identity H coerce (ck_space k)) (\<lambda>space_hash.
     rbind (evaluated_settings_hash H coerce \<lparr>ps_filter = None, ps_exits = None\<rparr> (ck_limits_json k) (ck_budget_json k)) (\<lambda>settings_hash.
     rbind (build_manifest H (ck_ref k) (ck_dir k) (ck_seed k) settings_hash space_hash (ck_code_version k)) (\<lambda>m.
     rbind (rbind (load_dataset H (ck_dir k)) timestamps) (\<lambda>stamps. rbind (holdout_split stamps (ck_name k)) (\<lambda>split.
     rbind (fst (run_search H coerce replay (ck_limits k) (ck_ref k) (ck_dir k) ordered (int (length ordered)) (ck_seed k) 3 (rm_run_id m) None)) (\<lambda>search.
     rbind (of_option (config_error ''promotion search winner is not in the declared space'') (map_of declared (hr_best_params_hash search))) (\<lambda>winner.
     Ok (winner, search, split, rm_run_id m))))))))))"

definition holdout_window :: "split_view \<Rightarrow> eval_window" where
  "holdout_window sp = \<lparr>ew_id = hs_holdout_id sp, ew_start = hs_holdout_start sp, ew_end = None\<rparr>"

definition check_outcome :: "(string \<Rightarrow> string) \<Rightarrow> coercion \<Rightarrow> 'b replay_run \<Rightarrow> 'b check_setup \<Rightarrow> param_set \<Rightarrow> split_view \<Rightarrow> string \<Rightarrow> holdout_outcome result" where
  \<comment> \<open>of the ledger the search kept for the winner; its window carries the id the search gave it\<close>
  "check_outcome H coerce replay k winner split run =
     rbind (load_dataset H (ck_dir k)) (\<lambda>d. rbind (timestamps d) (\<lambda>stamps. rbind (holdout_split stamps (ck_ref k)) (\<lambda>ref_split.
     rbind (window_ledger H coerce replay (ck_limits k) (ck_dir k) winner (ck_seed k) (holdout_window ref_split)) (\<lambda>holdout.
     evaluate_holdout H (ck_name k) (fd_events d) stamps split run holdout (ck_initial_equity k)))))"

definition check_comparison :: "(string \<Rightarrow> string) \<Rightarrow> 'b check_setup \<Rightarrow> store \<Rightarrow> param_set \<Rightarrow> harness_result \<Rightarrow> split_view \<Rightarrow> string \<Rightarrow> holdout_outcome
    \<Rightarrow> check_evidence option result" where
  \<comment> \<open>None where the paper window is not complete\<close>
  "check_comparison H k paper winner search split run outcome = (let cutoff = hs_holdout_start split; end_ts = ho_window_end_ts outcome in
     rbind (paper_window_complete H paper cutoff end_ts) (\<lambda>complete. if \<not> complete then Ok None else
     rbind (paper_gate H (Some paper) (ck_name k) run cutoff end_ts (ho_elapsed_days outcome) (ck_initial_equity k)
       (ho_backtest_result outcome) (ho_window_metrics outcome) (hr_eligible search)) (\<lambda>gate.
     rbind (of_option (config_error ''promotion needs a paper summary to compare against'') (po_paper_metrics gate)) (\<lambda>report.
     rbind (load_bounds (ck_bounds_table k)) (\<lambda>b.
     Ok (Some \<lparr>ce_winner = winner, ce_search = search, ce_split = split, ce_run_id = run, ce_outcome = outcome, ce_paper = report, ce_bounds = b\<rparr>))))))"

definition judge_and_apply :: "(string \<Rightarrow> string) \<Rightarrow> coercion \<Rightarrow> rat \<Rightarrow> check_evidence \<Rightarrow> (promotion_world, string) eff" where
  "judge_and_apply H coerce now e = bind get (\<lambda>w.
     bind (lift (evaluate_gate H (ce_winner e) (ce_bounds e) (ce_search e) (ce_run_id e) (pw_store w) (ho_window_metrics (ce_outcome e)) (ce_paper e))) (\<lambda>v.
     bind (lift (content_hash H (ce_winner e))) (\<lambda>h. bind (lift (format_ts_utc now)) (\<lambda>ts.
     apply_candidate H coerce v h (ce_run_id e) (hs_holdout_id (ce_split e)) (check_divergence (ho_window_metrics (ce_outcome e)) (ce_paper e))
       (hr_trial_count (ce_search e)) (ce_bounds e) (ce_winner e) CHECK_BY ts CHECK_SOURCE CHECK_CORRELATION_ID))))"

definition check_and_apply :: "(string \<Rightarrow> string) \<Rightarrow> coercion \<Rightarrow> 'b replay_run \<Rightarrow> 'b check_setup \<Rightarrow> store \<Rightarrow> rat \<Rightarrow> (promotion_world, string) eff" where
  "check_and_apply H coerce replay k paper now =
     bind (lift (check_search H coerce replay k)) (\<lambda>(winner, search, split, run).
     bind get (\<lambda>w. bind (lift (read_active_set (pw_store w))) (\<lambda>active. bind (lift (content_hash H winner)) (\<lambda>h.
     if active = Some h then ret ''skipped''
     else bind (lift (check_outcome H coerce replay k winner split run)) (\<lambda>outcome.
       bind (lift (check_comparison H k paper winner search split run outcome)) (\<lambda>found. case found of
           None \<Rightarrow> ret ''skipped''
         | Some e \<Rightarrow> judge_and_apply H coerce now e))))))"

definition run_promotion_check :: "(string \<Rightarrow> string) \<Rightarrow> coercion \<Rightarrow> 'b replay_run \<Rightarrow> 'b check_setup \<Rightarrow> bool \<Rightarrow> store \<Rightarrow> rat \<Rightarrow> (promotion_world, string) eff" where
  \<comment> \<open>\<open>operator\<close>: the operator ledger exists; every exception ends as \<open>failed\<close>\<close>
  "run_promotion_check H coerce replay k operator paper now =
     catching (\<lambda>e. True) (\<lambda>e. ret ''failed'')
       (if ck_space k = [] \<or> \<not> operator then ret ''skipped''
        else bind get (\<lambda>w. bind (lift (read_autonomy (pw_store w))) (\<lambda>level.
          if level \<noteq> REQUIRED_AUTONOMY_LEVEL then ret ''skipped'' else check_and_apply H coerce replay k paper now)))"

definition promotion_tick :: "(string \<Rightarrow> string) \<Rightarrow> coercion \<Rightarrow> 'b replay_run \<Rightarrow> 'b check_setup \<Rightarrow> bool \<Rightarrow> rat \<Rightarrow> store \<times> promotion_world \<Rightarrow> store \<times> promotion_world" where
  \<comment> \<open>the closure of \<open>make_promotion_check\<close> on the serve's own store and reading\<close>
  "promotion_tick H coerce replay k operator now s = (case s of (serve, w) \<Rightarrow>
     if \<not> promotion_due serve now PROMOTION_CHECK_INTERVAL_S then (serve, w)
     else (mark_check now serve, snd (run_promotion_check H coerce replay k operator serve now w)))"

end
