(* ===== verification/PromotionSafety.thy ===== *)
theory PromotionSafety
  imports Upgrade
begin

text \<open>
  What promotion guarantees: the active set changes only through the gate, its recorded content reads
  back under its hash, a rollback restores exactly a recorded set, and evidence is written once.
\<close>

section \<open>Rows that are no settings\<close>

lemma batch_Err_same:
  assumes "append_batch H st es = (Err e, st')"
  shows "st' = st"
proof (cases "inconsistent st")
  case True
  then show ?thesis using assms by (auto simp: append_batch_def split: if_splits)
next
  case False
  then show ?thesis using assms append_batch_sequential [OF False, of H es] by (auto split: sum.splits prod.splits)
qed

lemma config_same:
  assumes "store_ok H st" "store_ok H st'" "config_events st' = config_events st"
  shows "read_active_set st' = read_active_set st" "read_autonomy st' = read_autonomy st"
  using assms by (simp_all add: read_active_set_eq read_autonomy_eq)

lemma append_all_config:
  assumes "append_all H st es = Ok (rs, st')" "\<forall>e \<in> set es. \<forall>x. check_envelope e = Ok x \<longrightarrow> x_type x \<noteq> ''ConfigChanged''"
  shows "config_events st' = config_events st"
  using assms
proof (induction es arbitrary: st rs)
  case (Cons e es)
  obtain x r st1 rs1 where a: "check_envelope e = Ok x" "append H st x = (Ok r, st1)" "append_all H st1 es = Ok (rs1, st')"
    using Cons.prems(1) by (rule append_all_ConsE)
  have "config_events st1 = config_events st" using append_config [OF a(2)] Cons.prems(2) a(1) by simp
  then show ?case using Cons.IH [OF a(3)] Cons.prems(2) by simp
qed auto

lemma batch_config:
  assumes "append_batch H st es = (r, st')" "es \<noteq> []" "\<forall>e \<in> set es. \<forall>x. check_envelope e = Ok x \<longrightarrow> x_type x \<noteq> ''ConfigChanged''"
  shows "config_events st' = config_events st"
proof (cases r)
  case (Inl e)
  then show ?thesis using batch_Err_same assms(1) by blast
next
  case (Inr rs)
  then show ?thesis using append_batch_Ok [of H st es rs st'] assms append_all_config by blast
qed

lemma set_meta_settings:
  "read_active_set (set_meta st k v) = read_active_set st" "read_autonomy (set_meta st k v) = read_autonomy st"
  by (simp_all add: read_active_set_def read_autonomy_def read_def set_meta_def)

lemma set_meta_ok: "store_ok H st \<Longrightarrow> store_ok H (set_meta st k v)"
  by (simp add: store_ok_def set_meta_def)

section \<open>Recording the active set\<close>

lemma settings_hash_pattern:
  assumes "append_batch H st (active_set_rows h signer previous ts source cid) = (Ok rs, st')" "store_ok H st"
    "hash_pattern h" "is_writer (Some (JStr signer))"
  shows "read_active_set st' = Ok (Some h) \<and> read_autonomy st' = read_autonomy st"
proof -
  obtain r kvs where k: "config_events st' = config_events st @ [parsed r]" "e_payload (parsed r) = JObj kvs"
    "map_of kvs ''by'' = Some (JStr signer)" "map_of kvs ''keys_changed'' = Some (JArr [JStr ACTIVE_SET_KEY])"
    "map_of kvs ''new_hash'' = Some (JStr h)"
    using assms(1) unfolding active_set_rows_def by (rule setting_pair)
  have ok: "store_ok H st'" using append_batch_store_ok [OF assms(2,1)] .
  have "autonomy_of (parsed r) = None" by (simp add: autonomy_of_def k changed_key_def ACTIVE_SET_KEY_def)
  then show ?thesis
    using k assms(3,4) by (simp add: read_active_set_eq [OF ok] read_autonomy_eq [OF ok] read_autonomy_eq [OF assms(2)]
      latest_setting_snoc active_set_of_def changed_key_def)
qed

lemma batch_meta: "append_batch H st es = (r, st') \<Longrightarrow> meta st' = meta st"
  using append_batch_prefix by blast

lemma content_stored:
  assumes "canonical_param_set H coerce ps = Ok raw" "content_hash H ps = Ok h" "get_meta st (content_key h) None = Some raw"
  shows "\<exists>ps'. load_verified_param_set H coerce st h = Ok ps' \<and> content_hash H ps' = Ok h"
proof -
  obtain ps' where "decode_param_set coerce raw = Ok ps'" "content_hash H ps' = Ok h"
    using assms(1,2) by (auto simp: canonical_param_set_def rbind_Ok_iff Let_def split: if_splits)
  then show ?thesis using assms(3) by (simp add: load_verified_param_set_def)
qed

lemma record_active_set_Ok:
  assumes "record_active_set H coerce st ps signer ts source cid = (Ok h, st')" "store_ok H st" "hash_pattern h" "is_writer (Some (JStr signer))"
  shows "content_hash H ps = Ok h \<and> read_active_set st' = Ok (Some h) \<and> read_autonomy st' = read_autonomy st
    \<and> (\<exists>ps'. read_active_param_set H coerce st' = Ok (Some ps') \<and> content_hash H ps' = Ok h)"
proof -
  obtain h0 raw where h: "content_hash H ps = Ok h0" "canonical_param_set H coerce ps = Ok raw"
    using assms(1) by (auto simp: record_active_set_def rbind_def split: sum.splits)
  let ?st = "set_meta st (content_key h0) raw"
  obtain previous where p: "read_active_set ?st = Ok previous"
    using assms(1) h by (auto simp: record_active_set_def Let_def split: sum.splits)
  obtain rs where b: "append_batch H ?st (active_set_rows h0 signer (case previous of None \<Rightarrow> [] | Some p \<Rightarrow> p) ts source cid) = (Ok rs, st')"
    and hh: "h0 = h"
    using assms(1) h p by (auto simp: record_active_set_def Let_def split: sum.splits prod.splits)
  note s = settings_hash_pattern [OF b [unfolded hh] set_meta_ok [OF assms(2)] assms(3,4)]
  have "get_meta st' (content_key h) None = Some raw"
    using batch_meta [OF b] hh by (simp add: get_meta_def set_meta_def)
  then obtain ps' where l: "load_verified_param_set H coerce st' h = Ok ps'" "content_hash H ps' = Ok h"
    using content_stored [OF h(2) h(1) [unfolded hh]] by blast
  then show ?thesis using s h(1) hh by (simp add: read_active_param_set_def set_meta_settings)
qed

lemma record_active_set_Err:
  assumes "record_active_set H coerce st ps signer ts source cid = (Err e, st')"
  shows "read_active_set st' = read_active_set st \<and> read_autonomy st' = read_autonomy st \<and> events st' = events st"
proof (cases "rbind (content_hash H ps) (\<lambda>h. rbind (canonical_param_set H coerce ps) (\<lambda>raw. Ok (h, raw)))")
  case (Inl x)
  then show ?thesis using assms by (simp add: record_active_set_def)
next
  case (Inr y)
  obtain h raw where y: "y = (h, raw)" by force
  let ?st = "set_meta st (content_key h) raw"
  have "st' = ?st"
    using assms Inr y batch_Err_same [of H ?st] by (auto simp: record_active_set_def Let_def split: sum.splits prod.splits)
  then show ?thesis by (simp add: set_meta_settings, simp add: set_meta_def)
qed

lemma record_active_set_prefix:
  assumes "record_active_set H coerce st ps signer ts source cid = (r, st')"
  shows "\<exists>rs. events st' = events st @ rs"
  using assms append_batch_prefix
  by (fastforce simp: record_active_set_def Let_def set_meta_def split: sum.splits prod.splits)

section \<open>Rollback\<close>

text \<open>
  A rollback restores exactly a recorded set. On a reachable ledger a restore that returns makes the
  prior hash the active one, and the desk's own reader then loads content that verifies under that hash;
  the autonomy level and the older rows stay. A restore that raises leaves the ledger as it was.
\<close>

theorem rollback_restores_recorded_set:
  assumes "reachable H st" "restore_active_set H coerce st prior signer ts source cid = (r, st')"
  shows "(\<forall>h. r = Ok h \<longrightarrow> h = prior \<and> read_active_set st' = Ok (Some prior)
       \<and> (\<exists>ps. read_active_param_set H coerce st' = Ok (Some ps) \<and> content_hash H ps = Ok prior)
       \<and> read_autonomy st' = read_autonomy st \<and> (\<exists>rs. events st' = events st @ rs))
    \<and> (\<forall>e. r = Err e \<longrightarrow> st' = st)"
proof (intro conjI allI impI)
  fix e assume "r = Err e"
  then show "st' = st" using assms(2) by (auto simp: restore_active_set_def dest: batch_Err_same split: sum.splits prod.splits)
next
  fix h assume r: "r = Ok h"
  then obtain previous where g: "hash_pattern prior" "is_writer (Some (JStr signer))" "verify_stored_content H coerce st prior = Ok ()"
    "read_active_set st = Ok previous"
    using assms(2) by (auto simp: restore_active_set_def rbind_def split: sum.splits)
  obtain rs where b: "append_batch H st (rollback_rows prior signer (case previous of None \<Rightarrow> [] | Some p \<Rightarrow> p) ts source cid) = (Ok rs, st')"
    and hh: "h = prior"
    using assms(2) r g by (auto simp: restore_active_set_def split: sum.splits prod.splits)
  note ok = reachable_store_ok [OF assms(1)]
  obtain q kvs where k: "config_events st' = config_events st @ [parsed q]" "e_payload (parsed q) = JObj kvs"
    "map_of kvs ''by'' = Some (JStr signer)" "map_of kvs ''keys_changed'' = Some (JArr [JStr ACTIVE_SET_KEY])"
    "map_of kvs ''new_hash'' = Some (JStr prior)"
    using b unfolding rollback_rows_def by (rule setting_pair)
  have ok': "store_ok H st'" using append_batch_store_ok [OF ok b] .
  have active: "read_active_set st' = Ok (Some prior)"
    using k g(1,2) by (simp add: read_active_set_eq [OF ok'] latest_setting_snoc active_set_of_def changed_key_def)
  have "autonomy_of (parsed q) = None" by (simp add: autonomy_of_def k changed_key_def ACTIVE_SET_KEY_def)
  then have aut: "read_autonomy st' = read_autonomy st"
    using k by (simp add: read_autonomy_eq [OF ok'] read_autonomy_eq [OF ok] latest_setting_snoc)
  obtain raw where raw: "get_meta st (content_key prior) None = Some raw" "rbind (decode_param_set coerce raw) (content_hash H) = Ok prior"
    using g(3) by (auto simp: verify_stored_content_def rbind_Ok_iff split: option.splits sum.splits if_splits)
  then obtain ps where ps: "decode_param_set coerce raw = Ok ps" "content_hash H ps = Ok prior" by (auto simp: rbind_Ok_iff)
  have "get_meta st' (content_key prior) None = Some raw" using raw(1) batch_meta [OF b] by (simp add: get_meta_def)
  then have "load_verified_param_set H coerce st' prior = Ok ps" using ps by (simp add: load_verified_param_set_def)
  then have "read_active_param_set H coerce st' = Ok (Some ps)" using active by (simp add: read_active_param_set_def)
  then show "h = prior" "read_active_set st' = Ok (Some prior)"
    "\<exists>ps. read_active_param_set H coerce st' = Ok (Some ps) \<and> content_hash H ps = Ok prior"
    "read_autonomy st' = read_autonomy st" "\<exists>rs. events st' = events st @ rs"
    using hh active ps(2) aut append_batch_prefix [OF b] by auto
qed


section \<open>Evidence\<close>

definition keeps_settings :: "(string \<Rightarrow> string) \<Rightarrow> promotion_world \<Rightarrow> promotion_world \<Rightarrow> bool" where
  \<comment> \<open>the ledger stays sound and only grows, without a settings row; files written stay as they are\<close>
  "keeps_settings H w w' \<longleftrightarrow> store_ok H (pw_store w') \<and> config_events (pw_store w') = config_events (pw_store w)
     \<and> (\<exists>rs. events (pw_store w') = events (pw_store w) @ rs)
     \<and> (\<forall>name data. map_of (pw_evidence w) name = Some data \<longrightarrow> map_of (pw_evidence w') name = Some data)"

lemma keeps_settings_refl: "store_ok H (pw_store w) \<Longrightarrow> keeps_settings H w w"
  by (simp add: keeps_settings_def)

lemma keeps_settings_read:
  assumes "keeps_settings H w w'" "store_ok H (pw_store w)"
  shows "read_active_set (pw_store w') = read_active_set (pw_store w)" "read_autonomy (pw_store w') = read_autonomy (pw_store w)"
  using config_same [OF assms(2), of "pw_store w'"] assms(1) by (simp_all add: keeps_settings_def)

lemma envelope_type:
  assumes "check_envelope e = Ok x"
  shows "map_of e ''type'' = Some (PStr (x_type x))"
proof -
  have "assert_str (map_of e ''type'') = Ok (x_type x)"
    using assms unfolding check_envelope_def Let_def rbind_Ok_iff by (elim exE conjE) (simp only: sum.inject entry.simps, elim subst, simp only: entry.simps)
  then show ?thesis by (simp add: assert_str_def split: option.splits pyval.splits)
qed

lemma escalation_rows_no_config:
  assumes "e \<in> set (escalation_rows v h ts source cid)" "check_envelope e = Ok x"
  shows "x_type x \<noteq> ''ConfigChanged''"
proof -
  have "map_of e ''type'' \<in> {Some (PStr ''Escalation''), Some (PStr ''JournalNote'')}"
    using assms(1) unfolding escalation_rows_def desk_note_row_def by auto
  then show ?thesis using envelope_type [OF assms(2)] by auto
qed

lemma escalate_keeps:
  assumes "escalate_candidate H v h ts source cid w = (r, w')" "store_ok H (pw_store w)"
  shows "keeps_settings H w w'"
proof (cases "hash_pattern h \<and> \<not> (gv_eligible v \<or> gv_reason v = ''pass'')")
  case False
  then have "w' = w" using assms(1) by (cases "hash_pattern h") (auto simp: escalate_candidate_def rguard_def)
  then show ?thesis using assms(2) keeps_settings_refl by simp
next
  case True
  obtain rb st where b: "append_batch H (pw_store w) (escalation_rows v h ts source cid) = (rb, st)" by force
  have w': "w' = w\<lparr>pw_store := st\<rparr>" using assms(1) True b by (cases rb) (auto simp: escalate_candidate_def in_store_def bind_def rguard_def)
  have "config_events st = config_events (pw_store w)"
    by (rule batch_config [OF b]) (use escalation_rows_no_config in \<open>auto simp: escalation_rows_def\<close>)
  then show ?thesis using append_batch_store_ok [OF assms(2) b] append_batch_prefix [OF b] by (auto simp: keeps_settings_def w')
qed

lemma create_exclusive_cases:
  assumes "create_exclusive name data w = (r, w')"
  shows "pw_store w' = pw_store w" "\<forall>n d. map_of (pw_evidence w) n = Some d \<longrightarrow> map_of (pw_evidence w') n = Some d"
    "r = Ok () \<Longrightarrow> map_of (pw_evidence w') name = Some data" "r \<noteq> Ok () \<Longrightarrow> w' = w"
  using assms by (auto simp: create_exclusive_def split: option.splits if_splits)

lemma record_promotion_keeps:
  assumes "record_promotion H h run holdout v trials b ts source cid w = (r, w')" "store_ok H (pw_store w)"
  shows "keeps_settings H w w'"
    "r = Ok name \<Longrightarrow> hash_pattern h \<and> run \<noteq> [] \<and> holdout \<noteq> [] \<and> 1 \<le> trials
       \<and> (\<exists>data. evidence_bytes h run holdout v trials b = Ok data \<and> map_of (pw_evidence w') (manifest_name h) = Some data)"
proof -
  have *: "keeps_settings H w w' \<and> (\<forall>name. r = Ok name \<longrightarrow> hash_pattern h \<and> run \<noteq> [] \<and> holdout \<noteq> [] \<and> 1 \<le> trials
       \<and> (\<exists>data. evidence_bytes h run holdout v trials b = Ok data \<and> map_of (pw_evidence w') (manifest_name h) = Some data))"
  proof (cases "hash_pattern h \<and> run \<noteq> [] \<and> holdout \<noteq> [] \<and> 1 \<le> trials")
    case False
    then have "w' = w \<and> (\<forall>name. r \<noteq> Ok name)" using assms(1) by (auto simp: record_promotion_def bind_def rguard_def split: if_splits)
    then show ?thesis using assms(2) keeps_settings_refl by auto
  next
    case g: True
    show ?thesis
    proof (cases "evidence_bytes h run holdout v trials b")
      case (Inl e)
      then have "w' = w \<and> r = Err e" using assms(1) g by (auto simp: record_promotion_def)
      then show ?thesis using assms(2) keeps_settings_refl by auto
    next
      case (Inr data)
      obtain rc w1 where c: "create_exclusive (manifest_name h) data w = (rc, w1)" by force
      note cc = create_exclusive_cases [OF c]
      show ?thesis
      proof (cases rc)
        case (Inl e)
        then have "w' = w \<and> r = Err e" using assms(1) g Inr c cc(4) by (auto simp: record_promotion_def)
        then show ?thesis using assms(2) keeps_settings_refl by auto
      next
        case ok: (Inr u)
        obtain ra st where a: "append H (pw_store w1) (evidence_entry h ts source cid) = (ra, st)" by force
        have w': "w' = w1\<lparr>pw_store := st\<rparr>"
          using assms(1) g Inr c ok a by (cases ra) (auto simp: record_promotion_def in_store_def bind_def rguard_def)
        have st: "store_ok H st \<and> config_events st = config_events (pw_store w) \<and> (\<exists>rs. events st = events (pw_store w) @ rs)"
        proof (cases ra)
          case (Inl e)
          then show ?thesis using append_Err a cc(1) assms(2) by fastforce
        next
          case (Inr row)
          then have p: "append H (pw_store w) (evidence_entry h ts source cid) = (Ok row, st)" using a cc(1) by simp
          have "config_events st = config_events (pw_store w)" using append_config [OF p] by (simp add: evidence_entry_def)
          then show ?thesis using append_store_ok [OF assms(2) p] ledger.put_ok [OF p] by auto
        qed
        have stored: "map_of (pw_evidence w1) (manifest_name h) = Some data" using cc(3) ok by simp
        show ?thesis using st w' cc(2) stored g Inr by (auto simp: keeps_settings_def)
      qed
    qed
  qed
  show "keeps_settings H w w'" using * by blast
  show "hash_pattern h \<and> run \<noteq> [] \<and> holdout \<noteq> [] \<and> 1 \<le> trials
       \<and> (\<exists>data. evidence_bytes h run holdout v trials b = Ok data \<and> map_of (pw_evidence w') (manifest_name h) = Some data)" if "r = Ok name"
    using * that by blast
qed

section \<open>One verdict applied\<close>

lemma apply_candidate_effect:
  assumes "apply_candidate H coerce v h run holdout d trials b ps signer ts source cid w = (r, w')" "store_ok H (pw_store w)"
    "is_writer (Some (JStr signer))"
  shows "read_autonomy (pw_store w') = read_autonomy (pw_store w) \<and> (\<exists>rs. events (pw_store w') = events (pw_store w) @ rs)
    \<and> (\<forall>name data. map_of (pw_evidence w) name = Some data \<longrightarrow> map_of (pw_evidence w') name = Some data)
    \<and> (r \<noteq> Ok ''promoted'' \<longrightarrow> read_active_set (pw_store w') = read_active_set (pw_store w))
    \<and> (r = Ok ''promoted'' \<longrightarrow> gv_eligible v \<and> content_hash H ps = Ok h \<and> read_active_set (pw_store w') = Ok (Some h)
         \<and> (\<exists>ps'. read_active_param_set H coerce (pw_store w') = Ok (Some ps') \<and> content_hash H ps' = Ok h)
         \<and> (\<exists>data. evidence_bytes h run holdout d trials b = Ok data \<and> map_of (pw_evidence w') (manifest_name h) = Some data))"
proof (cases "content_hash H ps = Ok h")
  case False
  then have "w' = w \<and> (\<forall>x. r \<noteq> Ok x)"
    using assms(1) by (cases "content_hash H ps") (auto simp: apply_candidate_def rguard_def)
  then show ?thesis by auto
next
  case h: True
  show ?thesis
  proof (cases "gv_eligible v")
    case False
    obtain re we where e: "escalate_candidate H v h ts source cid w = (re, we)" by force
    have "w' = we \<and> r \<noteq> Ok ''promoted''" using assms(1) h False e by (cases re) (auto simp: apply_candidate_def)
    moreover have "keeps_settings H w we" using escalate_keeps [OF e assms(2)] .
    ultimately show ?thesis using keeps_settings_read [OF _ assms(2)] by (auto simp: keeps_settings_def)
  next
    case el: True
    obtain rp wp where p: "record_promotion H h run holdout d trials b ts source cid w = (rp, wp)" by force
    note kp = record_promotion_keeps [OF p assms(2)]
    have okp: "store_ok H (pw_store wp)" using kp(1) by (simp add: keeps_settings_def)
    show ?thesis
    proof (cases rp)
      case (Inl x)
      then have "w' = wp \<and> r = Err x" using assms(1) h el p by (auto simp: apply_candidate_def)
      then show ?thesis using keeps_settings_read [OF kp(1) assms(2)] kp(1) by (auto simp: keeps_settings_def)
    next
      case (Inr name)
      note ev = kp(2) [OF Inr]
      obtain ra st where a: "record_active_set H coerce (pw_store wp) ps signer ts source cid = (ra, st)" by force
      have w': "w' = wp\<lparr>pw_store := st\<rparr>" "\<And>x. ra = Inr x \<Longrightarrow> r = Ok ''promoted''" "\<And>x. ra = Inl x \<Longrightarrow> r = Err x"
        using assms(1) h el p Inr a by (cases ra; auto simp: apply_candidate_def in_store_def bind_def rguard_def)+
      note rd = keeps_settings_read [OF kp(1) assms(2)]
      show ?thesis
      proof (cases ra)
        case (Inl x)
        have f: "read_active_set st = read_active_set (pw_store wp)" "read_autonomy st = read_autonomy (pw_store wp)" "events st = events (pw_store wp)"
          using record_active_set_Err a Inl by blast+
        show ?thesis using w'(1) w'(3) [OF Inl] rd f kp(1) by (auto simp: keeps_settings_def)
      next
        case (Inr h')
        have hh: "h' = h" using a Inr h by (auto simp: record_active_set_def Let_def rbind_def split: sum.splits prod.splits)
        note f = record_active_set_Ok [OF a [unfolded Inr hh] okp conjunct1 [OF ev] assms(3)]
        have "\<exists>rs. events st = events (pw_store wp) @ rs" using record_active_set_prefix [OF a] .
        then show ?thesis using w'(1) w'(2) [OF Inr] rd f kp(1) h el ev by (auto simp: keeps_settings_def)
      qed
    qed
  qed
qed

lemma apply_candidate_outcome:
  assumes "apply_candidate H coerce v h run holdout d trials b ps signer ts source cid w = (r, w')"
  shows "\<forall>x. r = Ok x \<longrightarrow> x \<in> {''promoted'', ''escalated''}"
  using assms by (auto simp: apply_candidate_def bind_Ok_iff split: if_splits)

section \<open>The gate and one check\<close>

lemma gate_passed:
  assumes "evaluate_gate H ps b search run st backtest paper = Ok v" "gv_eligible v"
  shows "run \<noteq> [] \<and> content_hash H ps = Ok (hr_best_params_hash search) \<and> validate_against_bounds ps b = Ok ()
    \<and> 1 \<le> hr_trial_count search \<and> hr_trial_count search \<le> MAX_ELIGIBLE_TRIALS \<and> hr_eligible search
    \<and> read_autonomy st = Ok REQUIRED_AUTONOMY_LEVEL \<and> 0 < hr_holdout_net search
    \<and> \<not> dv_blocks_promotion (check_divergence backtest paper)"
proof -
  obtain h where h: "gate_inputs H ps search run = Ok h"
    using assms(1) by (cases "gate_inputs H ps search run") (auto simp: evaluate_gate_def)
  have i: "run \<noteq> [] \<and> content_hash H ps = Ok (hr_best_params_hash search) \<and> 1 \<le> hr_trial_count search"
    using h by (auto simp: gate_inputs_def rbind_Ok_iff rguard_def split: if_splits)
  have b: "validate_against_bounds ps b = Ok ()"
    using assms h by (cases "validate_against_bounds ps b") (auto simp: evaluate_gate_def blocked_def split: if_splits)
  have a: "gate_after_bounds h search run st backtest paper = Ok v" using assms(1) h b by (simp add: evaluate_gate_def)
  have t: "hr_trial_count search \<le> MAX_ELIGIBLE_TRIALS \<and> hr_eligible search"
    using a assms(2) by (auto simp: gate_after_bounds_def blocked_def split: if_splits)
  obtain level where l: "read_autonomy st = Ok level"
    using a assms(2) by (cases "read_autonomy st") (auto simp: gate_after_bounds_def blocked_def split: if_splits)
  have "level = REQUIRED_AUTONOMY_LEVEL \<and> 0 < hr_holdout_net search \<and> \<not> dv_blocks_promotion (check_divergence backtest paper)"
    using a assms(2) l by (auto simp: gate_after_bounds_def blocked_def Let_def split: if_splits)
  then show ?thesis using i b t l by simp
qed

definition only_adds :: "promotion_world \<Rightarrow> promotion_world \<Rightarrow> bool" where
  "only_adds w w' \<longleftrightarrow> read_autonomy (pw_store w') = read_autonomy (pw_store w)
     \<and> (\<exists>rs. events (pw_store w') = events (pw_store w) @ rs)
     \<and> (\<forall>name data. map_of (pw_evidence w) name = Some data \<longrightarrow> map_of (pw_evidence w') name = Some data)"

lemma only_adds_refl: "only_adds w w"
  by (simp add: only_adds_def)

definition met_every_gate :: "(string \<Rightarrow> string) \<Rightarrow> coercion \<Rightarrow> check_evidence \<Rightarrow> promotion_world \<Rightarrow> promotion_world \<Rightarrow> bool" where
  \<comment> \<open>the five conditions of the gate before, and what a promotion leaves behind\<close>
  "met_every_gate H coerce e w w' \<longleftrightarrow> (let search = ce_search e; h = hr_best_params_hash search;
       divergence = check_divergence (ho_window_metrics (ce_outcome e)) (ce_paper e) in
     content_hash H (ce_winner e) = Ok h \<and> validate_against_bounds (ce_winner e) (ce_bounds e) = Ok ()
     \<and> 1 \<le> hr_trial_count search \<and> hr_trial_count search \<le> MAX_ELIGIBLE_TRIALS \<and> hr_eligible search
     \<and> read_autonomy (pw_store w) = Ok REQUIRED_AUTONOMY_LEVEL \<and> 0 < hr_holdout_net search \<and> \<not> dv_blocks_promotion divergence
     \<and> read_active_set (pw_store w') = Ok (Some h)
     \<and> (\<exists>ps. read_active_param_set H coerce (pw_store w') = Ok (Some ps) \<and> content_hash H ps = Ok h)
     \<and> (\<exists>data. evidence_bytes h (ce_run_id e) (hs_holdout_id (ce_split e)) divergence (hr_trial_count search) (ce_bounds e) = Ok data
          \<and> map_of (pw_evidence w') (manifest_name h) = Some data))"

lemma judged:
  assumes "judge_and_apply H coerce now e w = (r, w')" "store_ok H (pw_store w)"
  shows "only_adds w w' \<and> (\<forall>x. r = Ok x \<longrightarrow> x \<in> {''promoted'', ''escalated''})
    \<and> (r \<noteq> Ok ''promoted'' \<longrightarrow> read_active_set (pw_store w') = read_active_set (pw_store w))
    \<and> (r = Ok ''promoted'' \<longrightarrow> met_every_gate H coerce e w w')"
proof -
  let ?m = "rbind (evaluate_gate H (ce_winner e) (ce_bounds e) (ce_search e) (ce_run_id e) (pw_store w) (ho_window_metrics (ce_outcome e)) (ce_paper e))
    (\<lambda>v. rbind (content_hash H (ce_winner e)) (\<lambda>h. rbind (format_ts_utc now) (\<lambda>ts. Ok (v, h, ts))))"
  show ?thesis
  proof (cases ?m)
    case (Inl x)
    then have "w' = w \<and> r = Err x"
      using assms(1) by (auto simp: judge_and_apply_def bind_def rbind_def split: sum.splits)
    then show ?thesis using only_adds_refl by simp
  next
    case (Inr t)
    obtain v h ts where t: "t = (v, h, ts)" by (cases t)
    have g: "evaluate_gate H (ce_winner e) (ce_bounds e) (ce_search e) (ce_run_id e) (pw_store w) (ho_window_metrics (ce_outcome e)) (ce_paper e) = Ok v"
      "content_hash H (ce_winner e) = Ok h" "format_ts_utc now = Ok ts"
      using Inr t by (auto simp: rbind_Ok_iff)
    let ?d = "check_divergence (ho_window_metrics (ce_outcome e)) (ce_paper e)"
    have a: "apply_candidate H coerce v h (ce_run_id e) (hs_holdout_id (ce_split e)) ?d (hr_trial_count (ce_search e)) (ce_bounds e)
        (ce_winner e) CHECK_BY ts CHECK_SOURCE CHECK_CORRELATION_ID w = (r, w')"
      using assms(1) g by (simp add: judge_and_apply_def)
    have "is_writer (Some (JStr CHECK_BY))" by code_simp
    note f = apply_candidate_effect [OF a assms(2) this]
    have "\<forall>x. r = Ok x \<longrightarrow> x \<in> {''promoted'', ''escalated''}" using apply_candidate_outcome [OF a] .
    moreover have "met_every_gate H coerce e w w'" if "r = Ok ''promoted''"
    proof -
      have el: "gv_eligible v" using f that by blast
      note p = gate_passed [OF g(1) el]
      have "h = hr_best_params_hash (ce_search e)" using p g(2) by simp
      then show ?thesis using p f that by (simp add: met_every_gate_def)
    qed
    ultimately show ?thesis using f by (simp add: only_adds_def)
  qed
qed

text \<open>
  A promotion met every gate. Judging a search winner on a reachable operator ledger promotes it only
  when it is the set the search chose, every override is within its bound, at most twenty trials were made,
  a human set the level to autonomous-paper, the holdout earned more than nothing and the paper window did
  not diverge. The winner is then the active set, its stored content loads under its hash, and the evidence
  file holds exactly the bytes of that run. Whatever the outcome, the autonomy level, the older rows and
  every evidence file already there stay; without a promotion the active set stays too.
\<close>

theorem promotion_met_every_gate:
  assumes "reachable H (pw_store w)" "judge_and_apply H coerce now e w = (r, w')"
  shows "only_adds w w' \<and> (r \<noteq> Ok ''promoted'' \<longrightarrow> read_active_set (pw_store w') = read_active_set (pw_store w))
    \<and> (r = Ok ''promoted'' \<longrightarrow> met_every_gate H coerce e w w')"
  using judged [OF assms(2) reachable_store_ok [OF assms(1)]] by blast

section \<open>The scheduled check\<close>

lemma checked:
  assumes "check_and_apply H coerce replay k paper now w = (r, w')" "store_ok H (pw_store w)"
  shows "only_adds w w' \<and> (\<forall>x. r = Ok x \<longrightarrow> x \<in> {''skipped'', ''promoted'', ''escalated''})
    \<and> (r = Ok ''skipped'' \<longrightarrow> w' = w)
    \<and> (r \<noteq> Ok ''promoted'' \<longrightarrow> read_active_set (pw_store w') = read_active_set (pw_store w))
    \<and> (r = Ok ''promoted'' \<longrightarrow> (\<exists>winner search split run outcome e. check_search H coerce replay k = Ok (winner, search, split, run)
        \<and> check_outcome H coerce replay k winner split run = Ok outcome
        \<and> check_comparison H k paper winner search split run outcome = Ok (Some e) \<and> met_every_gate H coerce e w w'))"
proof (cases "check_search H coerce replay k")
  case (Inl x)
  then have "w' = w \<and> r = Err x" using assms(1) by (simp add: check_and_apply_def)
  then show ?thesis using only_adds_refl by simp
next
  case (Inr found)
  obtain winner search split run where s: "found = (winner, search, split, run)" by (cases found)
  let ?m = "rbind (read_active_set (pw_store w)) (\<lambda>active. rbind (content_hash H winner) (\<lambda>h. Ok (active = Some h)))"
  let ?n = "rbind (check_outcome H coerce replay k winner split run) (\<lambda>outcome.
    rbind (check_comparison H k paper winner search split run outcome) (\<lambda>c. Ok (outcome, c)))"
  have step: "check_and_apply H coerce replay k paper now w = (case ?m of Inl x \<Rightarrow> (Err x, w) | Inr True \<Rightarrow> (Ok ''skipped'', w)
      | Inr False \<Rightarrow> (case ?n of Inl x \<Rightarrow> (Err x, w) | Inr (outcome, None) \<Rightarrow> (Ok ''skipped'', w)
          | Inr (outcome, Some e) \<Rightarrow> judge_and_apply H coerce now e w))"
    using Inr s by (simp add: check_and_apply_def bind_def rbind_def split: sum.splits option.splits)
  show ?thesis
  proof (cases "?m = Inr False \<and> (\<exists>outcome e. ?n = Inr (outcome, Some e))")
    case False
    then have "w' = w \<and> (\<forall>x. r = Ok x \<longrightarrow> x = ''skipped'')"
      using assms(1) unfolding step by (auto split: sum.splits bool.splits option.splits prod.splits)
    then show ?thesis using only_adds_refl by auto
  next
    case True
    then obtain outcome e where o: "?m = Inr False" "?n = Inr (outcome, Some e)" by blast
    have j: "judge_and_apply H coerce now e w = (r, w')" using assms(1) unfolding step o by simp
    have "check_outcome H coerce replay k winner split run = Ok outcome"
      "check_comparison H k paper winner search split run outcome = Ok (Some e)" using o(2) by (auto simp: rbind_Ok_iff)
    then show ?thesis using judged [OF j assms(2)] Inr s by auto
  qed
qed

text \<open>
  The scheduled check is contained. On a reachable operator ledger every run of the check ends as
  skipped, promoted, escalated or failed, never with an exception; a skip changes nothing; whatever the end,
  the autonomy level, the older rows and the evidence already there stay, and only a promotion changes the
  active set. A promotion needs the level autonomous-paper, an operator ledger and a declared space, and
  comes from the winner of the search, compared over a complete paper window, having met every gate.
\<close>

theorem scheduled_check_is_contained:
  assumes "reachable H (pw_store w)" "run_promotion_check H coerce replay k operator paper now w = (r, w')"
  shows "r \<in> {Ok ''skipped'', Ok ''promoted'', Ok ''escalated'', Ok ''failed''} \<and> only_adds w w'
    \<and> (r = Ok ''skipped'' \<longrightarrow> w' = w)
    \<and> (r \<noteq> Ok ''promoted'' \<longrightarrow> read_active_set (pw_store w') = read_active_set (pw_store w))
    \<and> (r = Ok ''promoted'' \<longrightarrow> operator \<and> ck_space k \<noteq> [] \<and> (\<exists>winner search split run outcome e.
        check_search H coerce replay k = Ok (winner, search, split, run)
        \<and> check_outcome H coerce replay k winner split run = Ok outcome
        \<and> check_comparison H k paper winner search split run outcome = Ok (Some e) \<and> met_every_gate H coerce e w w'))"
proof -
  note ok = reachable_store_ok [OF assms(1)]
  have step: "run_promotion_check H coerce replay k operator paper now w =
      (if ck_space k = [] \<or> \<not> operator then (Ok ''skipped'', w)
       else case read_autonomy (pw_store w) of Inl x \<Rightarrow> (Ok ''failed'', w)
         | Inr level \<Rightarrow> if level \<noteq> REQUIRED_AUTONOMY_LEVEL then (Ok ''skipped'', w)
             else (case check_and_apply H coerce replay k paper now w of (Inl x, w1) \<Rightarrow> (Ok ''failed'', w1) | (Inr o', w1) \<Rightarrow> (Ok o', w1)))"
    by (auto simp: run_promotion_check_def catching_def bind_def split: sum.splits prod.splits)
  show ?thesis
  proof (cases "ck_space k \<noteq> [] \<and> operator \<and> read_autonomy (pw_store w) = Ok REQUIRED_AUTONOMY_LEVEL")
    case False
    then have "w' = w \<and> r \<in> {Ok ''skipped'', Ok ''failed''}"
      using assms(2) unfolding step by (auto split: sum.splits if_splits)
    then show ?thesis using only_adds_refl by auto
  next
    case True
    obtain q w1 where q: "check_and_apply H coerce replay k paper now w = (q, w1)" by force
    have "w' = w1 \<and> r = (case q of Inl x \<Rightarrow> Ok ''failed'' | Inr o' \<Rightarrow> Ok o')"
      using assms(2) True q unfolding step by (auto split: sum.splits)
    then show ?thesis using checked [OF q ok] True by (cases q) auto
  qed
qed

end
