(* ===== verification/MarkRows.thy ===== *)
theory MarkRows
  imports HeldDesk Snapshot
begin

text \<open>
  What the mark writer of the paper adapter (\<open>execution/paper_adapter/marks.py\<close>) puts in a
  \<open>MarkToMarket\<close> row. The row's \<open>prices_json\<close> is a text that event validation does not look into, while
  the reducer reads it; these lemmas show that every text the writer produces is one the reducer reads.
\<close>

section \<open>The rows of the two operations\<close>

inductive desk_mark :: "(string \<Rightarrow> string) \<Rightarrow> ledger_row \<Rightarrow> bool" for H where
  \<comment> \<open>a row that \<open>mark_to_market\<close> or \<open>mark_open_positions\<close> returned, on whatever desk\<close>
  one_mint: "mark_to_market H cf w mint source_arg cid s = (Ok (Some r), s') \<Longrightarrow> desk_mark H r"
| all_mints: "mark_open_positions H cf w source_arg cid s = (Ok (Some r), s') \<Longrightarrow> desk_mark H r"

definition desk_price :: "pyval \<Rightarrow> bool" where
  \<comment> \<open>the mark of one mint, as \<open>mark_to_market\<close> and \<open>_price_held\<close> build it\<close>
  "desk_price v \<longleftrightarrow> (\<exists>mtm venue price ts. is_finite price \<and> v = PDict (mark_fields mtm venue price @ ts)
     \<and> (ts = [] \<or> (\<exists>t. ts = [(''ts_utc'', PStr t)])))"

lemma spot_finite: "spot s t = Ok d \<Longrightarrow> is_finite d"
  using dec_ratio_finite [of t s] by (auto simp: spot_def dec_ratio_def of_option_def split: if_splits option.splits)

section \<open>The reducer reads what the writer writes\<close>

lemma desk_price_json:
  assumes "desk_price v" "normalize v path = Ok j"
  shows "wf_py v \<and> mark_ok (m, json_sorted j)"
proof -
  obtain mtm venue price ts where v: "is_finite price" "v = PDict (mark_fields mtm venue price @ ts)"
    "ts = [] \<or> (\<exists>t. ts = [(''ts_utc'', PStr t)])" using assms(1) unfolding desk_price_def by blast
  from v(3) obtain ks where ks: "j = JObj ks" "wf_dict ks" "\<And>k. map_of ks k = (if k = ''mtm_lamports'' then Some (JInt mtm)
      else if k = ''venue_fee_lamports'' then Some (JInt venue) else if k = ''spot'' then Some (JStr (dec_str price))
      else if k = ''source'' then Some (JStr ''curve'') else map_of (map (\<lambda>(k, v). (k, case v of PStr t \<Rightarrow> JStr t | _ \<Rightarrow> JNull)) ts) k)"
    and w: "wf_py v"
    using assms(2) v(2) by (auto simp: mark_fields_def wf_dict_def)
  then have "mark_ok (m, JObj (sort_key fst (json_sorted_items ks)))"
    using v(1,3) by (auto simp: mark_ok_def mark_field_ok_def field_sorted ks(3) is_JInt_def is_JStr_def is_price_def dec_roundtrip)
  then show ?thesis using ks(1) w by simp
qed

lemma desk_prices_json:
  "normalize_items marks path = Ok js \<Longrightarrow> \<forall>(m, v) \<in> set marks. desk_price v
    \<Longrightarrow> wf_py_items marks \<and> (\<forall>item \<in> set (json_sorted_items js). mark_ok item)"
proof (induction marks arbitrary: js)
  case (Cons mv marks)
  obtain m v where mv: "mv = (m, v)" by force
  obtain j js' where j: "normalize v (path @ ''.'' @ m) = Ok j" "normalize_items marks path = Ok js'" "js = (m, j) # js'"
    using Cons.prems(1) mv by (auto simp: rbind_Ok_iff)
  have "wf_py v \<and> mark_ok (m, json_sorted j)" by (rule desk_price_json [OF _ j(1)]) (use Cons.prems(2) mv in auto)
  with Cons.IH [OF j(2)] Cons.prems(2) mv j(3) show ?case by simp
qed simp

lemma desk_prices_load:
  assumes "canonical_json marks = Ok text" "\<forall>(m, v) \<in> set marks. desk_price v" "wf_dict marks"
  obtains prices where "loads text = Some (JObj prices)" "list_all mark_ok prices"
proof -
  obtain js where js: "normalize_items marks ''$'' = Ok js" using assms(1) by (auto simp: canonical_json_def rbind_Ok_iff)
  note d = desk_prices_json [OF js assms(2)]
  then have "wf_py (PDict marks)" using assms(3) by simp
  then have "loads text = Some (json_sorted (JObj js))"
    using canonical_json_loads [OF assms(1)] js by (auto simp: rbind_def)
  with d show thesis by (intro that) (auto simp: list_all_iff)
qed

lemma mark_row_ok:
  assumes "pa_append H (mark_entry key cash equity0 unrealized text ts source cid) s = (Ok r, s')"
    and "canonical_json marks = Ok text" "\<forall>(m, v) \<in> set marks. desk_price v" "wf_dict marks"
  shows "r_type r = ''MarkToMarket'' \<and> marks_ok (parsed r)"
proof -
  let ?x = "mark_entry key cash equity0 unrealized text ts source cid"
  obtain st' where a: "append H (pa_store s) ?x = (Ok r, st')" using assms(1) by (auto simp: pa_append_def split: prod.splits)
  have t: "event_type_of_str (x_type ?x) = Some MarkToMarket" using event_type_of_str_value [of MarkToMarket]
    by (simp add: mark_entry_def event_value_def)
  obtain kvs where k: "e_payload (parsed r) = JObj kvs" "payload_of MarkToMarket (x_payload ?x) kvs"
    by (rule appended_payload [OF a t])
  obtain f where f: "(''prices_json'', FStr, f) \<in> set (event_model MarkToMarket)"
    by (auto simp: event_model_def mark_to_market_fields_def)
  have "map_of (event_row (parsed r)) ''prices_json'' = Some (JStr text)"
    using payload_of_field [OF k(2) f] k(1) by (auto simp: mark_entry_def event_row_def dump_value_def)
  moreover obtain prices where "loads text = Some (JObj prices)" "list_all mark_ok prices" by (rule desk_prices_load [OF assms(2-4)])
  ultimately have "marks_ok (parsed r)" by (simp add: marks_ok_def)
  moreover have "r_type r = ''MarkToMarket''" using ledger.put_ok [OF a] by (simp add: mark_entry_def)
  ultimately show ?thesis by simp
qed

lemma price_held_marks:
  "price_held cf w n now held s = (Ok p, s') \<Longrightarrow> (\<forall>(m, v) \<in> set (pr_marks p). desk_price v)
    \<and> set (map fst (pr_marks p)) \<subseteq> set (map fst held) \<and> (wf_dict held \<longrightarrow> wf_dict (pr_marks p))"
proof (induction held arbitrary: n s p s')
  case (Cons mp held)
  obtain mint pos where mp: "mp = (mint, pos)" by force
  obtain curve s1 where r: "read_curve cf w n mint s = (Ok curve, s1)"
    using Cons.prems by (auto simp: mp bind_Ok_iff)
  show ?case
  proof (cases "case curve of Some c \<Rightarrow> if cs_complete c then None else Some c | None \<Rightarrow> None")
    case None
    then obtain p0 s2 where "price_held cf w (Suc n) now held s1 = (Ok p0, s2)" "pr_marks p = pr_marks p0"
      using Cons.prems r by (auto simp: mp bind_Ok_iff)
    with Cons.IH [OF this(1)] show ?thesis by (auto simp: mp wf_dict_def)
  next
    case (Some c)
    then obtain gross price ts p0 s2 s3 where p: "spot (cs_s c) (cs_t c) = Ok price"
      "price_held cf w (Suc n) now held s2 = (Ok p0, s3)"
      "pr_marks p = (mint, PDict (mark_fields (gross - venue_fee (ac_fees cf) gross) (venue_fee (ac_fees cf) gross) price
          @ [(''ts_utc'', PStr ts)])) # pr_marks p0"
      using Cons.prems r by (auto simp: mp bind_Ok_iff Let_def)
    then have "desk_price (snd (hd (pr_marks p)))" using spot_finite unfolding desk_price_def by fastforce
    with Cons.IH [OF p(2)] p(3) show ?thesis by (auto simp: mp wf_dict_def)
  qed
qed (simp add: wf_dict_def)

lemma fold_of_wf: "fold_of cf cl st = Ok s \<Longrightarrow> wf_dict (l_positions s)"
  using fold_wf initial_wf(1) by (fastforce simp: fold_of_def rbind_Ok_iff state_wf_def)

text \<open>
  Every row one of the two operations returns is a \<open>MarkToMarket\<close> row the reducer can read.
\<close>

lemma desk_mark_ok:
  assumes "desk_mark H r"
  shows "r_type r = ''MarkToMarket'' \<and> marks_ok (parsed r)"
  using assms
proof cases
  case (one_mint cf w mint source_arg cid s s')
  note run = one_mint [unfolded mark_to_market_def Let_def bind_Ok_iff fold_state_Ok]
  obtain state where f: "fold_of cf (ou_call w 0) (pa_store s) = Ok state" using run by blast
  obtain pos where held: "held_position_in state mint = Some pos" using run f by (cases "held_position_in state mint") auto
  obtain c s1 where c: "read_curve cf w 0 mint s = (Ok (Some c), s1)"
    using run f held by (auto simp: bind_Ok_iff split: option.split_asm if_split_asm)
  obtain gross price js s2 s3 where m: "spot (cs_s c) (cs_t c) = Ok price"
      "canonical_json [(mint, PDict (mark_fields (gross - venue_fee (ac_fees cf) gross) (venue_fee (ac_fees cf) gross) price))] = Ok js"
    and a: "\<exists>key cash e u ts source. pa_append H (mark_entry key cash e u js ts source cid) s2 = (Ok r, s3)"
    using run f held c by (simp add: bind_Ok_iff split: if_split_asm) blast
  have "desk_price (PDict (mark_fields mtm venue price))" for mtm venue
    using spot_finite [OF m(1)] by (force simp: desk_price_def)
  with a mark_row_ok [OF _ m(2)] show ?thesis by (auto simp: wf_dict_def)
next
  case (all_mints cf w source_arg cid s s')
  let ?open = "\<lambda>state. List.filter (\<lambda>(m, p). p_token_units p > 0 \<and> \<not> p_mtm_frozen p) (l_positions state)"
  note run = all_mints [unfolded mark_open_positions_def Let_def bind_Ok_iff fold_state_Ok]
  obtain state where f: "fold_of cf (ou_call w 0) (pa_store s) = Ok state" using run by blast
  obtain p s1 s2 where p: "price_held cf w 0 (cl_now (ou_call w 0)) (?open state) s = (Ok p, s1)"
      and b: "append_mark_row H (ou_call w (length (?open state))) state (?open state) p
        (case source_arg of None \<Rightarrow> ac_source cf | Some x \<Rightarrow> x) cid s1 = (Ok (Some r), s2)"
    using run f by (auto simp: bind_Ok_iff split: if_split_asm)
  obtain js s3 s4 where c: "canonical_json (pr_marks p) = Ok js"
    and a: "\<exists>key cash e u ts source. pa_append H (mark_entry key cash e u js ts source cid) s3 = (Ok r, s4)"
    using b by (simp add: append_mark_row_def bind_Ok_iff Let_def split: if_split_asm) blast
  have "wf_dict (?open state)" using fold_of_wf [OF f] by (simp add: wf_dict_def distinct_map_filter)
  with price_held_marks [OF p] a mark_row_ok [OF _ c] show ?thesis by auto
qed


lemma typed_row_marks:
  assumes "r_type r = ''MarkToMarket'' \<Longrightarrow> marks_ok (parsed r)"
  shows "marks_ok (parsed r)"
  using assms event_type_of_str_Some [of "r_type r" MarkToMarket]
  by (cases "r_type r = ''MarkToMarket''") (auto simp: marks_ok_def event_kind_def event_value_def)

section \<open>A marked desk\<close>

lemma mark_accepted:
  "is_ok (validated_payload ''MarkToMarket'' (x_payload (mark_entry key cash equity0 unrealized js ts ''paper'' cid)))"
proof (rule payload_accepted)
  show "event_type_of_str ''MarkToMarket'' = Some MarkToMarket"
    using event_type_of_str_value [of MarkToMarket] by (simp add: event_value_def)
qed (simp add: model_dump_def event_model_def mark_to_market_fields_def mark_entry_def dump_field_def dump_value_def event_sources_def)

lemma marked_desk:
  obtains st r m where "reachable (\<lambda>s. s) st" "events st = [r, m]" "r_type r = ''PositionOpened''" "desk_mark (\<lambda>s. s) m"
proof -
  obtain st r state pos where st: "events st = [r]" "reachable (\<lambda>s. s) st" "\<not> inconsistent st" "r_key r = ''position|1''"
    "fold_of sample_adapter_config sample_call st = Ok state" "map_of (l_positions state) sample_mint = Some pos"
    "p_token_units pos = 900000000" "\<not> p_mtm_frozen pos" "r_type r = ''PositionOpened''"
    by (rule held_desk)
  define s where "s = adapter_on (idle_engine\<lparr>en_store := st\<rparr>)"
  have s: "pa_store s = st" by (simp add: s_def adapter_on_def)
  have h: "held_position_in state sample_mint = Some pos" using st(6,7) by (simp add: held_position_in_def)
  have c: "read_curve sample_adapter_config sample_outside 0 sample_mint s = (Ok (Some sample_curve), s)"
    by (simp add: read_curve_def sample_adapter_config_def suspend_def sample_outside_def bind_def modify_def)
  obtain price where price: "spot (cs_s sample_curve) (cs_t sample_curve) = Ok price"
    using dec_ratio_finite [of "cs_t sample_curve" "cs_s sample_curve"] by (auto simp: spot_def dec_ratio_def sample_curve_def)
  let ?gross = 89919072
  obtain js where js: "canonical_json [(sample_mint, PDict (mark_fields (?gross - venue_fee default_fees ?gross) (venue_fee default_fees ?gross) price))] = Ok js"
    by (simp add: canonical_json_def mark_fields_def)
  have ts: "now_ts (ou_call sample_outside (Suc 0)) = Ok sample_ts" "sample_ts \<noteq> []" "ou_call sample_outside 0 = sample_call"
    by (simp_all add: now_ts_def sample_outside_def sample_call_def idle_parts(1) sample_ts_def)
  define key where "key = ''mtm|'' @ sample_mint @ ''|'' @ sample_ts"
  have entry: "\<exists>m. append (\<lambda>s. s) st (mark_entry key cash e u js sample_ts ''paper'' ''c'') = (Ok m, st\<lparr>events := [r, m]\<rparr>)" for cash e u
  proof -
    let ?x = "mark_entry key cash e u js sample_ts ''paper'' ''c''"
    have env: "check_envelope (envelope ?x) = Ok ?x" using ts(2) by (intro entry_envelope) (simp_all add: mark_entry_def key_def)
    obtain pj where pj: "validated_payload (x_type ?x) (x_payload ?x) = Ok pj"
      using mark_accepted [of key cash e u js sample_ts "''c''"] by (auto simp: is_ok_iff mark_entry_def)
    have fresh: "x_key ?x \<notin> r_key ` set (events st)" using st(1,4) by (simp add: mark_entry_def key_def)
    obtain m where "append (\<lambda>s. s) st ?x = (Ok m, st\<lparr>events := events st @ [m]\<rparr>)"
      by (rule append_accepts [OF _ st(2,3) env pj fresh]) (simp add: inj_def)
    with st(1) show ?thesis by simp
  qed
  have "\<exists>m s' cash e u. mark_to_market (\<lambda>s. s) sample_adapter_config sample_outside sample_mint None ''c'' s = (Ok (Some m), s')
      \<and> append (\<lambda>s. s) st (mark_entry key cash e u js sample_ts ''paper'' ''c'') = (Ok m, st\<lparr>events := [r, m]\<rparr>)"
  proof -
    obtain m where m: "\<And>cash e u. append (\<lambda>s. s) st (mark_entry key cash e u js sample_ts ''paper'' ''c'')
        = (Ok (m cash e u), st\<lparr>events := [r, m cash e u]\<rparr>)" using entry by metis
    have g: "sell_out (cs_s sample_curve) (cs_t sample_curve) (p_token_units pos) = Ok ?gross"
      using st(7) by (simp add: sell_out_def sample_curve_def)
    have cf: "ac_source sample_adapter_config = ''paper''" "ac_fees sample_adapter_config = default_fees" "\<not> cs_complete sample_curve"
      by (simp_all add: sample_adapter_config_def sample_curve_def)
    show ?thesis unfolding m
      by (simp add: mark_to_market_def bind_def fold_state_run s ts st(5,8) h c price js g cf Let_def
          pa_append_def m [unfolded key_def append_Cons append_Nil] modify_def) blast
  qed
  then obtain m s' cash e u where m: "mark_to_market (\<lambda>s. s) sample_adapter_config sample_outside sample_mint None ''c'' s = (Ok (Some m), s')"
    "append (\<lambda>s. s) st (mark_entry key cash e u js sample_ts ''paper'' ''c'') = (Ok m, st\<lparr>events := [r, m]\<rparr>)" by blast
  have "reachable (\<lambda>s. s) (st\<lparr>events := [r, m]\<rparr>)" using st(2) m(2) by (meson reachable_step step_append)
  with that [of "st\<lparr>events := [r, m]\<rparr>" r m] st(9) desk_mark.one_mint [OF m(1)] show thesis by simp
qed

end
