(* ===== verification/Spec2Isabelle.thy ===== *)
theory Spec2Isabelle
  imports Prelude Decimals CanonicalJson Events Store Reducer Views Floats Curve Ids Approvals
    LedgerClients Snapshot Reconcile LedgerReads Effects Clock Breakers KillSwitch RiskSafety
    FloatText AdapterMarks LedgerGrowth AdapterGrowth QuietDesk Settlement AdapterSafety
    HeldDesk ExitRules Fixtures Candidate BacktestMetrics BacktestSearch SearchFacts
    TrialFacts SearchWinner WindowReport Upgrade PromotionSafety MarkRows
begin

text \<open>
  A verification development for the PumpGrok paper desk (\<open>src/src/pumpgrok\<close>), a program that trades
  pump.fun tokens on paper. Seats propose orders; the risk engine judges them; the paper adapter prices,
  confirms and fills them; and every fact goes to one hash-chained ledger, from which all state is folded.
  A backtest searches parameters on recorded markets, and a promotion gate may make the winner active.

  How the parts meet. \<open>Store\<close> keeps the rows; \<open>Reducer\<close> folds them into the desk's state. \<open>RiskEngine\<close>
  reads that fold, the kill switch, the breakers and the approvals, walks nineteen steps for an order, and
  grants a size or refuses. \<open>Adapter\<close> and its parts call the engine twice (accepted, confirming) around the
  curve reads of an order and write the rows of its outcome. \<open>ExitRules\<close> watches the open positions and
  sells through the adapter. \<open>Reconcile\<close> checks at start that the snapshot and the rows agree.

  \<^bold>\<open>Theories and the code they model\<close>
  \<^item> Prelude: errors as values, dictionaries as association lists, Python text helpers. Effects: state passing
    with errors (\<open>bind\<close>, \<open>raise\<close>, \<open>catching\<close>), in which engine and adapter are written.
  \<^item> Decimals, Floats, FloatText, CanonicalJson: Python's \<open>Decimal\<close> at 28 digits, binary floats, their texts,
    and \<open>core/idempotency.py\<close> with the JSON reader and printer. Each printer has its parser as inverse.
  \<^item> Events, Store, LedgerReads, LedgerGrowth: \<open>ledger/events.py\<close>, \<open>ledger/store.py\<close>. A store is the row list,
    the snapshots and the meta table; \<open>store_step\<close> is any one operation, \<open>reachable\<close> any sequence of them.
    Lemmas: the invariant of reachable ledgers, tamper evidence, batch against single appends, growth.
  \<^item> Reducer, Views, Snapshot, Reconcile: \<open>ledger/reducer.py\<close>, \<open>ledger/views.py\<close>, \<open>ledger/reconcile.py\<close> and the
    shutdown snapshot of \<open>supervisor/lifecycle.py\<close>. Lemmas: the cash equation, totality on typed rows, dump
    and load as inverses, replay from a snapshot against replay from the start.
  \<^item> Curve: \<open>execution/curve_math.py\<close>, \<open>execution/fees.py\<close>, \<open>execution/latency.py\<close>, \<open>risk/sizing.py\<close>,
    \<open>core/units.py\<close>. Ids, Approvals, LedgerClients: \<open>core/ids.py\<close>, \<open>core/approvals.py\<close>, \<open>core/adapter.py\<close>,
    \<open>ledger/tickets.py\<close>, \<open>ledger/autonomy.py\<close>, \<open>ledger/active_set.py\<close>. Clock: \<open>replay/clock.py\<close>.
  \<^item> Breakers, KillSwitch, RiskSteps, RiskEngine: \<open>risk/breakers.py\<close>, \<open>risk/killswitch.py\<close>, \<open>risk/limits.py\<close>,
    \<open>core/risk_budget.py\<close>, \<open>risk/engine\<close>. RiskWalk, Refusals, RiskSafety, QuietDesk hold what a walk
    establishes: which gates a passed buy met, and the only reasons that refuse an exit.
  \<^item> Adapter, AdapterBatch, AdapterBuy, AdapterSell, AdapterMarks: \<open>execution/paper_adapter\<close>. AdapterGrowth,
    Settlement, AdapterSafety, HeldDesk, MarkRows hold what an order, a settled sell and a mark row do.
  \<^item> ExitRules: \<open>engine/exits.py\<close>, \<open>engine/watcher.py\<close>, \<open>supervisor/exit_rules.py\<close>.
  \<^item> Fixtures: \<open>replay/fixtures.py\<close>, \<open>replay/sources.py\<close>. Candidate, BacktestMetrics, BacktestSearch,
    WindowReport: \<open>backtest\<close>, and the backtest commands of \<open>cli\<close>. SearchFacts, TrialFacts and SearchWinner
    hold the holdout's blindness, the trial file's round trip and the choice of the winner.
  \<^item> Upgrade: \<open>upgrade\<close> and \<open>cli/promotion.py\<close>. PromotionSafety: a promotion met every gate, a rollback
    restores a recorded set, a scheduled check is contained.

  \<^bold>\<open>Conventions.\<close> A Python int is an \<open>int\<close>; a float a \<open>rat\<close> on which each operation rounds to 53 bits, half to
  even; a dictionary an association list in insertion order; an exception a value of \<open>err\<close>. SHA-256 is a
  parameter \<open>H\<close> of every definition that hashes: no property assumes it injective, and where a collision
  matters the property exhibits it. The clock, random bits, file contents, curve reads, the other tasks of
  the desk, pydantic's coercion, the TOML reader and the replay of a dataset are arguments. A suspension
  applies an arbitrary transformer of the state, so other tasks interleave there; a concurrent ledger
  writer is a transformer made of store steps.

  \<^bold>\<open>Bounds and fuel.\<close> The loops are structural or carry a measure. The JSON reader alone takes fuel, the length
  of its text, which the round trip lemma shows to be enough. The ticket loop has the code's ten attempts.

  \<^bold>\<open>Not modelled.\<close> Message texts are abbreviated where nothing reads them. A text is a list of 8-bit characters.
  Floats have no overflow or infinities beyond the NaN cases named in Floats, Decimals no exponent limits,
  so a report on an absurd span raises in Python and not here. Cancelling an asyncio task, thread
  locks, fsync and SQLite's own failures are left out, as are the seats' scheduler, network tools, language
  model agents, settings, reports and live trading (which is disabled in the code).
\<close>

section \<open>Properties that span components\<close>

text \<open>
  C21: the desk's ledger always folds. Take any reachable ledger on which every \<open>MarkToMarket\<close> row is one
  that \<open>mark_to_market\<close> or \<open>mark_open_positions\<close> returned, on whatever desk and whenever, and any rows of the
  other types that the store accepted. Then reading all rows and folding them from any genesis state
  succeeds: no handler raises. The mark rows are singled out because validation does not look inside
  their \<open>prices_json\<close>; a mark row written by other means can make the fold raise.
\<close>

theorem reachable_ledger_folds:
  assumes "reachable H st" "\<forall>r \<in> set (events st). r_type r = ''MarkToMarket'' \<longrightarrow> desk_mark H r"
  shows "\<exists>es s. read st 0 [] None None None = Ok es \<and> length es = Store.count st
    \<and> fold_events (initial_state src equity0 day) es = Ok s"
proof -
  note ok = reachable_store_ok [OF assms(1)]
  have marks: "marks_ok (parsed r)" if "r \<in> set (events st)" for r
    by (rule typed_row_marks) (use that assms(2) desk_mark_ok in blast)
  have seq: "List.filter (read_where 0 [] None) (events st) = events st"
  proof -
    have "r_seq r \<ge> 0" if "r \<in> set (events st)" for r
    proof -
      have "r_seq r \<in> set (map r_seq (events st))" using that by simp
      also have "map r_seq (events st) = map int [1..<Suc (length (events st))]"
        using ok by (simp add: store_ok_def rows_ok_def seqs_ok_def)
      finally show ?thesis by auto
    qed
    then show ?thesis by (auto simp: read_where_def filter_id_conv)
  qed
  have read: "read st 0 [] None None None = Ok (map parsed (events st))"
    using store_ok_valid [OF ok] seq
    by (simp add: read_valid sql_limit_def ticket_sel_def)
  have "\<exists>s'. fold_events (initial_state src equity0 day) (map parsed (events st)) = Ok s'
      \<and> finite_peaks (l_positions s')"
  proof (rule fold_total)
    show "typed_event e \<and> marks_ok e" if "e \<in> set (map parsed (events st))" for e
      using that marks store_ok_valid [OF ok] typed_parsed by auto
  qed (simp add: initial_state_def finite_peaks_def)
  with read show ?thesis by (auto simp: Store.count_def)
qed

theorem reachable_ledger_folds_witness:
  \<comment> \<open>a ledger with a position and its mark\<close>
  "\<exists>st r m es s. reachable (\<lambda>s. s) st \<and> events st = [r, m] \<and> desk_mark (\<lambda>s. s) m
    \<and> read st 0 [] None None None = Ok es \<and> length es = 2 \<and> fold_events sample_genesis es = Ok s"
proof -
  obtain st r m where st: "reachable (\<lambda>s. s) st" "events st = [r, m]" "r_type r = ''PositionOpened''" "desk_mark (\<lambda>s. s) m"
    by (rule marked_desk)
  then have "\<forall>r \<in> set (events st). r_type r = ''MarkToMarket'' \<longrightarrow> desk_mark (\<lambda>s. s) r" by simp
  from reachable_ledger_folds [OF st(1) this] obtain es s where
    "read st 0 [] None None None = Ok es" "length es = Store.count st" "fold_events sample_genesis es = Ok s"
    unfolding sample_genesis_def by blast
  with st show ?thesis by (auto simp: Store.count_def)
qed

end
